(* ===== verification/Prelude.thy ===== *)
theory Prelude
  imports
    Main
    "HOL-Library.Char_ord"
    "HOL-Library.List_Lexorder"
    "HOL-Library.Multiset"
    "HOL-Library.Product_Lexorder"
    "HOL-Library.Word"
begin

text \<open>
  Shared vocabulary of the development.  Go values are read as follows: a
  \<^verbatim>\<open>string\<close> is a HOL string (its bytes, compared bytewise as Go and PostgreSQL's
  \<^verbatim>\<open>C\<close> collation do), a pointer that may be nil is an \<^verbatim>\<open>option\<close>, a
  \<^verbatim>\<open>time.Time\<close> or \<^verbatim>\<open>time.Duration\<close> is an integer number of nanoseconds, and a
  function with an error result returns a sum, \<^verbatim>\<open>Inl\<close> holding the error.
  A database table is the list of its rows; the four statements the stores use are the
  list operations of the second section.
\<close>

section \<open>Types and errors as sums\<close>

type_synonym time = int
type_synonym duration = int
type_synonym uuid = string

type_synonym ('e, 'a) outcome = "'e + 'a"

definition rbind :: "'e + 'a \<Rightarrow> ('a \<Rightarrow> 'e + 'b) \<Rightarrow> 'e + 'b" where
  "rbind r f = (case r of Inl e \<Rightarrow> Inl e | Inr x \<Rightarrow> f x)"

definition guard :: "bool \<Rightarrow> 'e \<Rightarrow> 'e + unit" where
  "guard ok e = (if ok then Inr () else Inl e)"

abbreviation is_ok :: "'e + 'a \<Rightarrow> bool" where
  "is_ok r \<equiv> \<not> isl r"

lemma rbind_simps [simp]:
  "rbind (Inl e) f = Inl e"
  "rbind (Inr x) f = f x"
  by (simp_all add: rbind_def)

lemma rbind_eq_Inr: "rbind r f = Inr y \<longleftrightarrow> (\<exists>x. r = Inr x \<and> f x = Inr y)"
  by (cases r) auto

lemma rbind_eq_Inl: "rbind r f = Inl e \<longleftrightarrow> r = Inl e \<or> (\<exists>x. r = Inr x \<and> f x = Inl e)"
  by (cases r) auto

lemma guard_eq_Inr [simp]: "guard ok e = Inr u \<longleftrightarrow> ok"
  by (simp add: guard_def)

lemma guard_eq_Inl [simp]: "guard ok e = Inl e' \<longleftrightarrow> \<not> ok \<and> e' = e"
  by (auto simp: guard_def)

lemmas outcome_simps = rbind_eq_Inr rbind_eq_Inl

section \<open>Tables\<close>

text \<open>
  \<^verbatim>\<open>UPDATE t SET .. WHERE p\<close>, \<^verbatim>\<open>SELECT .. WHERE p\<close> with the row found under a key, and
  \<^verbatim>\<open>SELECT .. ORDER BY k LIMIT n\<close>.
\<close>

definition update_where :: "('r \<Rightarrow> bool) \<Rightarrow> ('r \<Rightarrow> 'r) \<Rightarrow> 'r list \<Rightarrow> 'r list" where
  "update_where p f rows = map (\<lambda>r. if p r then f r else r) rows"

definition rows_affected :: "('r \<Rightarrow> bool) \<Rightarrow> 'r list \<Rightarrow> nat" where
  "rows_affected p rows = length (filter p rows)"

definition select_first :: "('r \<Rightarrow> bool) \<Rightarrow> 'r list \<Rightarrow> 'r option" where
  "select_first p rows = List.find p rows"

definition select_ordered :: "('r \<Rightarrow> 'k::linorder) \<Rightarrow> ('r \<Rightarrow> bool) \<Rightarrow> nat \<Rightarrow> 'r list \<Rightarrow> 'r list" where
  "select_ordered k p n rows = take n (sort_key k (filter p rows))"

lemma update_where_simps [simp]:
  "update_where p f [] = []"
  "update_where p f (r # rs) = (if p r then f r else r) # update_where p f rs"
  by (simp_all add: update_where_def)

lemma length_update_where [simp]: "length (update_where p f rows) = length rows"
  by (simp add: update_where_def)

lemma set_update_where:
  "set (update_where p f rows) = (\<lambda>r. if p r then f r else r) ` set rows"
  by (simp add: update_where_def)

lemma in_update_whereE:
  assumes "r \<in> set (update_where p f rows)"
  obtains r0 where "r0 \<in> set rows" "r = (if p r0 then f r0 else r0)"
  using assms by (auto simp: set_update_where)

lemma map_update_where:
  assumes "\<And>r. p r \<Longrightarrow> k (f r) = k r"
  shows "map k (update_where p f rows) = map k rows"
  using assms by (auto simp: update_where_def)

lemma update_where_none:
  assumes "\<And>r. r \<in> set rows \<Longrightarrow> \<not> p r"
  shows "update_where p f rows = rows"
  using assms by (induction rows) auto

lemma update_where_cong:
  assumes "\<And>r. r \<in> set rows \<Longrightarrow> (p r \<longleftrightarrow> q r)"
  shows "update_where p f rows = update_where q f rows"
  using assms by (induction rows) auto

lemma filter_update_where:
  assumes "\<And>r. p r \<Longrightarrow> q (f r) = q r"
  shows "filter q (update_where p f rows) = update_where p f (filter q rows)"
  using assms by (induction rows) auto

lemma select_first_Some:
  assumes "select_first p rows = Some r"
  shows "r \<in> set rows" "p r"
  using assms by (auto simp: select_first_def find_Some_iff)

lemma select_first_None: "select_first p rows = None \<longleftrightarrow> (\<forall>r\<in>set rows. \<not> p r)"
  by (auto simp: select_first_def find_None_iff)

lemma select_first_append: "select_first p (xs @ ys) = (case select_first p xs of None \<Rightarrow> select_first p ys | Some x \<Rightarrow> Some x)"
  by (induction xs) (auto simp: select_first_def)

lemma select_first_unique:
  assumes "distinct (map k rows)" "r \<in> set rows" "p r"
    and "\<And>r'. p r' \<Longrightarrow> k r' = k r"
  shows "select_first p rows = Some r"
proof -
  obtain r' where r': "select_first p rows = Some r'"
    using assms(2,3) by (cases "select_first p rows") (auto simp: select_first_None)
  then have "r' \<in> set rows" "k r' = k r" using assms(4) select_first_Some by fastforce+
  then have "r' = r" using assms(1,2) by (simp add: distinct_map inj_on_def)
  then show ?thesis using r' by simp
qed

lemma rows_affected_le: "rows_affected p rows \<le> length rows"
  by (simp add: rows_affected_def)

lemma rows_affected_zero: "rows_affected p rows = 0 \<longleftrightarrow> (\<forall>r\<in>set rows. \<not> p r)"
  by (simp add: rows_affected_def filter_empty_conv)

lemma rows_affected_one:
  assumes "distinct (map k rows)" "r \<in> set rows" "p r" "\<And>r'. p r' \<Longrightarrow> k r' = k r"
  shows "rows_affected p rows = 1"
proof -
  have "distinct (filter p rows)"
    using assms(1) by (simp add: distinct_map)
  moreover have "set (filter p rows) = {r}"
    using assms by (auto simp: distinct_map inj_on_def)
  ultimately show ?thesis
    by (metis One_nat_def card.empty card_insert_disjoint distinct_card empty_iff
        finite.emptyI rows_affected_def)
qed

lemma length_select_ordered: "length (select_ordered k p n rows) \<le> n"
  by (simp add: select_ordered_def)

lemma sorted_select_ordered: "sorted (map k (select_ordered k p n rows))"
  by (simp add: select_ordered_def take_map [symmetric])

lemma set_select_ordered: "set (select_ordered k p n rows) \<subseteq> {r \<in> set rows. p r}"
  using set_take_subset [of n "sort_key k (filter p rows)"]
  by (auto simp: select_ordered_def)

lemma select_orderedD:
  assumes "r \<in> set (select_ordered k p n rows)"
  shows "r \<in> set rows" "p r"
  using assms set_select_ordered by fastforce+

text \<open>What \<^verbatim>\<open>ORDER BY .. LIMIT\<close> leaves out is not before anything it keeps.\<close>

lemma select_ordered_least:
  assumes "r \<in> set (select_ordered k p n rows)"
    and "r' \<in> set rows" "p r'" "r' \<notin> set (select_ordered k p n rows)"
  shows "k r \<le> k r'"
proof -
  let ?s = "sort_key k (filter p rows)"
  have "r' \<in> set ?s" using assms(2,3) by simp
  then have "r' \<in> set (take n ?s) \<union> set (drop n ?s)"
    by (metis append_take_drop_id set_append)
  then have "r' \<in> set (drop n ?s)"
    using assms(4) by (auto simp: select_ordered_def)
  moreover have "r \<in> set (take n ?s)" using assms(1) by (simp add: select_ordered_def)
  moreover have "sorted (map k (take n ?s @ drop n ?s))" by simp
  ultimately show ?thesis
    unfolding map_append sorted_append by auto
qed

lemma distinct_select_ordered:
  assumes "distinct (map f rows)"
  shows "distinct (map f (select_ordered k p n rows))"
proof -
  have "distinct rows" "inj_on f (set rows)"
    using assms by (auto simp: distinct_map)
  then show ?thesis
    using set_select_ordered [of k p n rows]
    by (auto simp: distinct_map select_ordered_def intro: distinct_take inj_on_subset)
qed

text \<open>
  Go's \<^verbatim>\<open>sort.Slice\<close> is not stable.  Where no two elements share a key every sorted
  permutation is the same list, so the stable \<^const>\<open>sort_key\<close> is what any of them returns.
\<close>

lemma sort_slice_unique:
  assumes "set ys = set xs" "distinct ys" "distinct xs" "sorted (map k ys)" "inj_on k (set xs)"
  shows "ys = sort_key k xs"
  by (rule map_sorted_distinct_set_unique [where f = k]) (use assms in \<open>auto simp: distinct_map\<close>)

end
