(* ===== verification/Conditions.thy ===== *)
theory Conditions
  imports Prelude
begin

text \<open>
  \<^verbatim>\<open>pkg/policy/condition/condition.go\<close>: the closed vocabulary of attribute predicates
  an RPC policy may declare, their evaluator, and the build-time validator.  The time-zone
  database behind \<^verbatim>\<open>time.LoadLocation\<close> is the argument \<^verbatim>\<open>zones\<close>: it gives a name's
  offset from UTC, in seconds, at an instant, or nothing for a name that does not load.
  The evaluator's memo of loaded zones (\<^verbatim>\<open>locationCache\<close>) is threaded through.
\<close>

section \<open>Model\<close>

datatype condition_attribute =
    ATTRIBUTE_UNSPECIFIED
  | ATTRIBUTE_OWNER_TEAM
  | ATTRIBUTE_STATUS
  | ATTRIBUTE_CLASSIFICATION
  | ATTRIBUTE_TIME_WINDOW
  | ATTRIBUTE_OTHER int

record time_window =
  start_minute :: "32 word"
  end_minute :: "32 word"
  timezone :: string

record condition =
  attribute :: condition_attribute
  allowed_statuses :: "string list"
  window :: "time_window option"

record cond_input =
  CallerTeamIDs :: "string list"
  RecordOwnerTeamID :: string
  RecordStatus :: string
  RecordClassification :: "int option"
  CallerClearance :: "int option"
  Now :: time

datatype cond_error =
    UnknownAttribute condition_attribute
  | InvalidTimezone string
  | ConditionMissing
  | TakesNoParameters
  | StatusSetsWindow
  | NoStatuses
  | EmptyStatus
  | WindowSetsStatuses
  | NoWindow
  | StartOutOfRange
  | EndOutOfRange
  | EqualBounds

type_synonym location = "int \<Rightarrow> int"
type_synonym zone_db = "string \<Rightarrow> location option"
type_synonym location_cache = "string \<rightharpoonup> location option"

definition minutesPerDay :: nat where
  "minutesPerDay = 24 * 60"

definition second :: int where
  "second = 1000000000"

definition contains :: "string list \<Rightarrow> string \<Rightarrow> bool" where
  "contains values want = (\<exists>v \<in> set values. v = want)"

text \<open>
  The protobuf getters are nil-safe: on a nil message every field reads as its zero value.
\<close>

definition GetAttribute :: "condition option \<Rightarrow> condition_attribute" where
  "GetAttribute c = (case c of None \<Rightarrow> ATTRIBUTE_UNSPECIFIED | Some c \<Rightarrow> attribute c)"

definition GetAllowedStatuses :: "condition option \<Rightarrow> string list" where
  "GetAllowedStatuses c = (case c of None \<Rightarrow> [] | Some c \<Rightarrow> allowed_statuses c)"

definition GetTimeWindow :: "condition option \<Rightarrow> time_window option" where
  "GetTimeWindow c = (case c of None \<Rightarrow> None | Some c \<Rightarrow> window c)"

definition GetTimezone :: "time_window option \<Rightarrow> string" where
  "GetTimezone w = (case w of None \<Rightarrow> [] | Some w \<Rightarrow> timezone w)"

definition GetStartMinute :: "time_window option \<Rightarrow> nat" where
  "GetStartMinute w = (case w of None \<Rightarrow> 0 | Some w \<Rightarrow> unat (start_minute w))"

definition GetEndMinute :: "time_window option \<Rightarrow> nat" where
  "GetEndMinute w = (case w of None \<Rightarrow> 0 | Some w \<Rightarrow> unat (end_minute w))"

definition callerOwnsTeam :: "cond_input \<Rightarrow> bool" where
  "callerOwnsTeam inp =
     (if RecordOwnerTeamID inp = [] then False
      else contains (CallerTeamIDs inp) (RecordOwnerTeamID inp))"

definition callerCleared :: "cond_input \<Rightarrow> bool" where
  "callerCleared inp =
     (case (RecordClassification inp, CallerClearance inp) of
        (Some r, Some c) \<Rightarrow> r \<le> c
      | _ \<Rightarrow> False)"

definition loadLocation :: "zone_db \<Rightarrow> location_cache \<Rightarrow> string \<Rightarrow> location option \<times> location_cache" where
  "loadLocation zones cache name =
     (case cache name of
        Some r \<Rightarrow> (r, cache)
      | None \<Rightarrow> (zones name, cache(name \<mapsto> zones name)))"

text \<open>\<^verbatim>\<open>local.Hour()*60 + local.Minute()\<close> of an instant in a zone.\<close>

definition local_minute :: "location \<Rightarrow> time \<Rightarrow> nat" where
  "local_minute loc now =
     (let unix = now div second; local = (unix + loc unix) mod 86400
      in nat (local div 3600) * 60 + nat (local mod 3600 div 60))"

definition withinWindow ::
  "zone_db \<Rightarrow> location_cache \<Rightarrow> time_window option \<Rightarrow> time \<Rightarrow> (cond_error + bool) \<times> location_cache" where
  "withinWindow zones cache w now =
     (case loadLocation zones cache (GetTimezone w) of
        (None, cache') \<Rightarrow> (Inl (InvalidTimezone (GetTimezone w)), cache')
      | (Some loc, cache') \<Rightarrow>
          (let minute = local_minute loc now; start = GetStartMinute w; stop = GetEndMinute w
           in (if start = stop then Inr False
               else if start < stop then Inr (start \<le> minute \<and> minute < stop)
               else Inr (start \<le> minute \<or> minute < stop), cache')))"

definition evaluate ::
  "zone_db \<Rightarrow> location_cache \<Rightarrow> condition option \<Rightarrow> cond_input \<Rightarrow> (cond_error + bool) \<times> location_cache" where
  "evaluate zones cache c inp =
     (case GetAttribute c of
        ATTRIBUTE_OWNER_TEAM \<Rightarrow> (Inr (callerOwnsTeam inp), cache)
      | ATTRIBUTE_STATUS \<Rightarrow> (Inr (contains (GetAllowedStatuses c) (RecordStatus inp)), cache)
      | ATTRIBUTE_CLASSIFICATION \<Rightarrow> (Inr (callerCleared inp), cache)
      | ATTRIBUTE_TIME_WINDOW \<Rightarrow> withinWindow zones cache (GetTimeWindow c) (Now inp)
      | a \<Rightarrow> (Inl (UnknownAttribute a), cache))"

fun EvaluateAll ::
  "zone_db \<Rightarrow> location_cache \<Rightarrow> condition option list \<Rightarrow> cond_input \<Rightarrow> (cond_error + bool) \<times> location_cache" where
  "EvaluateAll zones cache [] inp = (Inr True, cache)"
| "EvaluateAll zones cache (c # cs) inp =
     (case evaluate zones cache c inp of
        (Inl e, cache') \<Rightarrow> (Inl e, cache')
      | (Inr False, cache') \<Rightarrow> (Inr False, cache')
      | (Inr True, cache') \<Rightarrow> EvaluateAll zones cache' cs inp)"

definition validateWindow ::
  "zone_db \<Rightarrow> location_cache \<Rightarrow> time_window option \<Rightarrow> (cond_error + unit) \<times> location_cache" where
  "validateWindow zones cache w =
     (if w = None then (Inl NoWindow, cache)
      else if minutesPerDay \<le> GetStartMinute w then (Inl StartOutOfRange, cache)
      else if GetEndMinute w = 0 \<or> minutesPerDay < GetEndMinute w then (Inl EndOutOfRange, cache)
      else if GetStartMinute w = GetEndMinute w then (Inl EqualBounds, cache)
      else case loadLocation zones cache (GetTimezone w) of
             (None, cache') \<Rightarrow> (Inl (InvalidTimezone (GetTimezone w)), cache')
           | (Some loc, cache') \<Rightarrow> (Inr (), cache'))"

definition validate ::
  "zone_db \<Rightarrow> location_cache \<Rightarrow> condition option \<Rightarrow> (cond_error + unit) \<times> location_cache" where
  "validate zones cache c =
     (if c = None then (Inl ConditionMissing, cache)
      else let hasStatuses = (GetAllowedStatuses c \<noteq> []); hasWindow = (GetTimeWindow c \<noteq> None)
      in case GetAttribute c of
        ATTRIBUTE_OWNER_TEAM \<Rightarrow>
          (if hasStatuses \<or> hasWindow then Inl TakesNoParameters else Inr (), cache)
      | ATTRIBUTE_CLASSIFICATION \<Rightarrow>
          (if hasStatuses \<or> hasWindow then Inl TakesNoParameters else Inr (), cache)
      | ATTRIBUTE_STATUS \<Rightarrow>
          (if hasWindow then Inl StatusSetsWindow
           else if \<not> hasStatuses then Inl NoStatuses
           else if contains (GetAllowedStatuses c) [] then Inl EmptyStatus
           else Inr (), cache)
      | ATTRIBUTE_TIME_WINDOW \<Rightarrow>
          (if hasStatuses then (Inl WindowSetsStatuses, cache)
           else validateWindow zones cache (GetTimeWindow c))
      | a \<Rightarrow> (Inl (UnknownAttribute a), cache))"

fun Validate ::
  "zone_db \<Rightarrow> location_cache \<Rightarrow> condition option list \<Rightarrow> (cond_error + unit) \<times> location_cache" where
  "Validate zones cache [] = (Inr (), cache)"
| "Validate zones cache (c # cs) =
     (case validate zones cache c of
        (Inl e, cache') \<Rightarrow> (Inl e, cache')
      | (Inr _, cache') \<Rightarrow> Validate zones cache' cs)"

section \<open>The memo is transparent\<close>

definition cache_ok :: "zone_db \<Rightarrow> location_cache \<Rightarrow> bool" where
  "cache_ok zones cache \<longleftrightarrow> (\<forall>name r. cache name = Some r \<longrightarrow> r = zones name)"

lemma cache_ok_empty [simp]: "cache_ok zones Map.empty"
  by (simp add: cache_ok_def)

lemma loadLocation_result:
  assumes "cache_ok zones cache"
  shows "fst (loadLocation zones cache name) = zones name"
    and "cache_ok zones (snd (loadLocation zones cache name))"
  using assms by (auto simp: loadLocation_def cache_ok_def split: option.splits)

lemma loadLocation_split:
  assumes "cache_ok zones cache"
  obtains cache' where "loadLocation zones cache name = (zones name, cache')" "cache_ok zones cache'"
  using loadLocation_result [OF assms] by (metis prod.collapse)

definition in_window :: "nat \<Rightarrow> nat \<Rightarrow> nat \<Rightarrow> bool" where
  "in_window start stop m \<longleftrightarrow>
     start \<noteq> stop \<and> (if start < stop then start \<le> m \<and> m < stop else start \<le> m \<or> m < stop)"

text \<open>What a declared condition means, without the memo, the getters or the error channel.\<close>

definition condition_holds :: "zone_db \<Rightarrow> cond_input \<Rightarrow> condition option \<Rightarrow> bool" where
  "condition_holds zones inp c \<longleftrightarrow>
     (\<exists>c'. c = Some c' \<and>
       (case attribute c' of
          ATTRIBUTE_OWNER_TEAM \<Rightarrow>
            RecordOwnerTeamID inp \<noteq> [] \<and> RecordOwnerTeamID inp \<in> set (CallerTeamIDs inp)
        | ATTRIBUTE_STATUS \<Rightarrow> RecordStatus inp \<in> set (allowed_statuses c')
        | ATTRIBUTE_CLASSIFICATION \<Rightarrow>
            (\<exists>r k. RecordClassification inp = Some r \<and> CallerClearance inp = Some k \<and> r \<le> k)
        | ATTRIBUTE_TIME_WINDOW \<Rightarrow>
            (\<exists>w loc. window c' = Some w \<and> zones (timezone w) = Some loc \<and>
               in_window (unat (start_minute w)) (unat (end_minute w)) (local_minute loc (Now inp)))
        | _ \<Rightarrow> False))"

definition condition_evaluable :: "zone_db \<Rightarrow> condition option \<Rightarrow> bool" where
  "condition_evaluable zones c \<longleftrightarrow>
     (case GetAttribute c of
        ATTRIBUTE_OWNER_TEAM \<Rightarrow> True | ATTRIBUTE_STATUS \<Rightarrow> True | ATTRIBUTE_CLASSIFICATION \<Rightarrow> True
      | ATTRIBUTE_TIME_WINDOW \<Rightarrow> zones (GetTimezone (GetTimeWindow c)) \<noteq> None
      | _ \<Rightarrow> False)"

lemmas getter_defs = GetAttribute_def GetAllowedStatuses_def GetTimeWindow_def GetTimezone_def
  GetStartMinute_def GetEndMinute_def

lemma withinWindow_result:
  assumes "cache_ok zones cache"
  shows "fst (withinWindow zones cache w now) =
     (case zones (GetTimezone w) of
        None \<Rightarrow> Inl (InvalidTimezone (GetTimezone w))
      | Some loc \<Rightarrow> Inr (in_window (GetStartMinute w) (GetEndMinute w) (local_minute loc now)))"
    and "cache_ok zones (snd (withinWindow zones cache w now))"
proof -
  obtain cache' where l: "loadLocation zones cache (GetTimezone w) = (zones (GetTimezone w), cache')"
    and ok: "cache_ok zones cache'" using assms by (rule loadLocation_split)
  show "fst (withinWindow zones cache w now) =
     (case zones (GetTimezone w) of
        None \<Rightarrow> Inl (InvalidTimezone (GetTimezone w))
      | Some loc \<Rightarrow> Inr (in_window (GetStartMinute w) (GetEndMinute w) (local_minute loc now)))"
    by (auto simp: withinWindow_def l Let_def in_window_def split: option.splits)
  show "cache_ok zones (snd (withinWindow zones cache w now))"
    using ok by (auto simp: withinWindow_def l Let_def split: option.splits)
qed

lemma evaluate_cache_ok:
  "cache_ok zones cache \<Longrightarrow> cache_ok zones (snd (evaluate zones cache c inp))"
  by (auto simp: evaluate_def withinWindow_result split: condition_attribute.splits)

lemma evaluate_true_iff:
  assumes "cache_ok zones cache"
  shows "fst (evaluate zones cache c inp) = Inr True \<longleftrightarrow> condition_holds zones inp c"
proof (cases c)
  case None
  then show ?thesis by (simp add: evaluate_def condition_holds_def getter_defs)
next
  case (Some c')
  then show ?thesis
    using assms
    by (auto simp: evaluate_def condition_holds_def withinWindow_result getter_defs contains_def
        callerOwnsTeam_def callerCleared_def in_window_def
        split: condition_attribute.splits option.splits)
qed

lemma evaluate_ok_iff:
  assumes "cache_ok zones cache"
  shows "is_ok (fst (evaluate zones cache c inp)) \<longleftrightarrow> condition_evaluable zones c"
  using assms
  by (auto simp: evaluate_def condition_evaluable_def withinWindow_result
      split: condition_attribute.splits option.splits)

lemma evaluate_cases:
  assumes "cache_ok zones cache"
  obtains cache' where "cache_ok zones cache'"
    and "evaluate zones cache c inp = (Inr True, cache')" and "condition_holds zones inp c"
      and "condition_evaluable zones c"
  | cache' where "cache_ok zones cache'"
    and "evaluate zones cache c inp = (Inr False, cache')" and "\<not> condition_holds zones inp c"
      and "condition_evaluable zones c"
  | cache' e where "cache_ok zones cache'"
    and "evaluate zones cache c inp = (Inl e, cache')" and "\<not> condition_holds zones inp c"
      and "\<not> condition_evaluable zones c"
proof -
  obtain r cache' where e: "evaluate zones cache c inp = (r, cache')" by fastforce
  have "cache_ok zones cache'" using evaluate_cache_ok [OF assms, of c inp] e by simp
  moreover have "r = Inr True \<longleftrightarrow> condition_holds zones inp c"
    using evaluate_true_iff [OF assms, of c inp] e by simp
  moreover have "is_ok r \<longleftrightarrow> condition_evaluable zones c"
    using evaluate_ok_iff [OF assms, of c inp] e by simp
  ultimately show ?thesis
  proof (cases r)
    case (Inr b)
    then show ?thesis
      using that(1) [of cache'] that(2) [of cache'] e \<open>cache_ok zones cache'\<close>
        \<open>r = Inr True \<longleftrightarrow> condition_holds zones inp c\<close>
        \<open>is_ok r \<longleftrightarrow> condition_evaluable zones c\<close>
      by (cases b) simp_all
  next
    case (Inl err)
    then show ?thesis
      using that(3) [of cache' err] e \<open>cache_ok zones cache'\<close>
        \<open>r = Inr True \<longleftrightarrow> condition_holds zones inp c\<close>
        \<open>is_ok r \<longleftrightarrow> condition_evaluable zones c\<close>
      by simp
  qed
qed

section \<open>Validation and evaluation\<close>

lemma local_minute_lt: "local_minute loc now < minutesPerDay"
proof -
  define x where "x = (now div second + loc (now div second)) mod 86400"
  define a c where "a = x div 3600" and "c = x mod 3600 div 60"
  have "x \<le> 86399" using pos_mod_bound [of 86400 "now div second + loc (now div second)"]
    by (simp add: x_def)
  then have "a \<le> 86399 div 3600" unfolding a_def by (rule zdiv_mono1) simp
  moreover have "x mod 3600 \<le> 3599" using pos_mod_bound [of 3600 x] by simp
  then have "c \<le> 3599 div 60" unfolding c_def by (rule zdiv_mono1) simp
  ultimately have "nat a \<le> 23" "nat c \<le> 59" by (simp_all add: nat_le_iff)
  then have "nat a * 60 + nat c < 1440" by linarith
  moreover have "local_minute loc now = nat a * 60 + nat c"
    by (simp only: local_minute_def Let_def x_def a_def c_def)
  ultimately show ?thesis by (simp add: minutesPerDay_def)
qed

lemma validateWindow_ok:
  assumes "cache_ok zones cache"
  shows "is_ok (fst (validateWindow zones cache w)) \<longleftrightarrow>
     w \<noteq> None \<and> GetStartMinute w < minutesPerDay \<and> 0 < GetEndMinute w \<and>
     GetEndMinute w \<le> minutesPerDay \<and> GetStartMinute w \<noteq> GetEndMinute w \<and>
     zones (GetTimezone w) \<noteq> None"
    and "cache_ok zones (snd (validateWindow zones cache w))"
proof -
  obtain cache' where l: "loadLocation zones cache (GetTimezone w) = (zones (GetTimezone w), cache')"
    and ok: "cache_ok zones cache'" using assms by (rule loadLocation_split)
  show "is_ok (fst (validateWindow zones cache w)) \<longleftrightarrow>
     w \<noteq> None \<and> GetStartMinute w < minutesPerDay \<and> 0 < GetEndMinute w \<and>
     GetEndMinute w \<le> minutesPerDay \<and> GetStartMinute w \<noteq> GetEndMinute w \<and>
     zones (GetTimezone w) \<noteq> None"
    by (auto simp: validateWindow_def l split: option.splits)
  show "cache_ok zones (snd (validateWindow zones cache w))"
    using ok assms by (auto simp: validateWindow_def l split: option.splits)
qed

lemma validate_evaluable:
  assumes "cache_ok zones cache" "is_ok (fst (validate zones cache c))"
  shows "condition_evaluable zones c"
  using assms
  by (auto simp: validate_def condition_evaluable_def validateWindow_ok Let_def
      split: condition_attribute.splits if_splits)

lemma validate_cache_ok:
  "cache_ok zones cache \<Longrightarrow> cache_ok zones (snd (validate zones cache c))"
  by (auto simp: validate_def Let_def validateWindow_ok split: condition_attribute.splits)

lemma Validate_evaluable:
  "cache_ok zones cache \<Longrightarrow> is_ok (fst (Validate zones cache cs)) \<Longrightarrow>
   c \<in> set cs \<Longrightarrow> condition_evaluable zones c"
proof (induction cs arbitrary: cache)
  case (Cons d cs)
  obtain r cache' where v: "validate zones cache d = (r, cache')" by fastforce
  with Cons.prems have "is_ok r" by (cases r) auto
  then have "condition_evaluable zones d"
    using validate_evaluable [OF Cons.prems(1), of d] v by simp
  moreover have "cache_ok zones cache'"
    using validate_cache_ok [OF Cons.prems(1), of d] v by simp
  ultimately show ?case
    using Cons v \<open>is_ok r\<close> by (cases r) auto
qed simp

section \<open>Properties\<close>

text \<open>
  C40.  The decision grants exactly when every declared condition holds of the caller, the
  record and the clock, whatever the zone memo already holds: an unknown attribute, a nil
  condition, an unresolved classification or a zone that does not load never grants.
\<close>

theorem EvaluateAll_grants_iff:
  assumes "cache_ok zones cache"
  shows "fst (EvaluateAll zones cache cs inp) = Inr True \<longleftrightarrow>
    (\<forall>c \<in> set cs. condition_holds zones inp c)"
  using assms
proof (induction cs arbitrary: cache)
  case (Cons c cs)
  from Cons.prems show ?case
    by (rule evaluate_cases [where c = c and inp = inp]) (auto simp: Cons.IH)
qed simp

definition example_zones :: zone_db where
  "example_zones name = (if name = ''Europe/Paris'' then Some (\<lambda>_. 7200) else None)"

definition example_window :: time_window where
  "example_window = \<lparr>start_minute = 1320, end_minute = 360, timezone = ''Europe/Paris''\<rparr>"

definition example_conditions :: "condition option list" where
  "example_conditions =
    [Some \<lparr>attribute = ATTRIBUTE_STATUS, allowed_statuses = [''open''], window = None\<rparr>,
     Some \<lparr>attribute = ATTRIBUTE_TIME_WINDOW, allowed_statuses = [], window = Some example_window\<rparr>]"

definition example_input :: cond_input where
  "example_input = \<lparr>CallerTeamIDs = [], RecordOwnerTeamID = [], RecordStatus = ''open'',
     RecordClassification = None, CallerClearance = None, Now = 3 * 3600 * second\<rparr>"

lemmas example_defs = example_zones_def example_window_def example_conditions_def example_input_def

theorem EvaluateAll_grants_iff_witness:
  "cache_ok example_zones Map.empty \<and>
   fst (EvaluateAll example_zones Map.empty example_conditions example_input) = Inr True"
  using EvaluateAll_grants_iff
    [of example_zones Map.empty example_conditions example_input, OF cache_ok_empty]
  by (simp add: example_defs condition_holds_def in_window_def local_minute_def second_def)

text \<open>
   A condition set the catalog compiler accepted never fails to evaluate: whatever the
  request and the memo, the result is a decision and not an error.
\<close>

theorem Validate_then_evaluates:
  assumes "fst (Validate zones cache cs) = Inr ()" "cache_ok zones cache" "cache_ok zones cache'"
  shows "\<exists>b. fst (EvaluateAll zones cache' cs inp) = Inr b"
proof -
  have "\<forall>c \<in> set cs. condition_evaluable zones c"
    using Validate_evaluable [OF assms(2), of cs] assms(1) by simp
  then show ?thesis
    using assms(3)
  proof (induction cs arbitrary: cache')
    case (Cons c cs)
    from Cons.prems(2) show ?case
      by (rule evaluate_cases [where c = c and inp = inp]) (use Cons in auto)
  qed (auto intro: exI [of _ True])
qed

theorem Validate_then_evaluates_witness:
  "fst (Validate example_zones Map.empty example_conditions) = Inr () \<and>
   (\<exists>b. fst (EvaluateAll example_zones Map.empty example_conditions example_input) = Inr b)"
proof -
  have "fst (Validate example_zones Map.empty example_conditions) = Inr ()"
    by (simp add: example_defs validate_def validateWindow_def getter_defs contains_def
        loadLocation_def minutesPerDay_def)
  with Validate_then_evaluates [OF this cache_ok_empty cache_ok_empty] show ?thesis by blast
qed

text \<open>
   On a validated window the evaluator admits exactly the minutes of the cyclic interval
  from the start to the end, so a window that wraps past midnight admits the evening and
  the early morning and nothing between.
\<close>

theorem withinWindow_cyclic:
  assumes valid: "fst (validateWindow zones cache (Some w)) = Inr ()"
    and ok: "cache_ok zones cache" and zone: "zones (timezone w) = Some loc"
  shows "fst (withinWindow zones cache (Some w) now) =
    Inr (\<exists>d \<le> (unat (end_minute w) + minutesPerDay - unat (start_minute w) - 1) mod minutesPerDay.
           (unat (start_minute w) + d) mod minutesPerDay = local_minute loc now)"
proof -
  define s e m where "s = unat (start_minute w)" and "e = unat (end_minute w)"
    and "m = local_minute loc now"
  have b: "s < 1440" "0 < e" "e \<le> 1440" "s \<noteq> e"
    using valid validateWindow_ok(1) [OF ok, of "Some w"]
    by (simp_all add: s_def e_def minutesPerDay_def getter_defs)
  have m: "m < 1440"
    using local_minute_lt [of loc now] by (simp add: m_def minutesPerDay_def)
  have len: "(e + 1440 - s - 1) mod 1440 = (if s < e then e - s - 1 else e + 1440 - s - 1)"
    using b by (simp add: le_mod_geq)
  have wrap: "(s + d) mod 1440 = (if s + d < 1440 then s + d else s + d - 1440)"
    if "d < 1440" for d
    using that b by (simp add: le_mod_geq)
  have "in_window s e m \<longleftrightarrow> (\<exists>d \<le> (e + 1440 - s - 1) mod 1440. (s + d) mod 1440 = m)"
  proof
    assume w: "in_window s e m"
    define d where "d = (if s \<le> m then m - s else m + 1440 - s)"
    have "d \<le> (e + 1440 - s - 1) mod 1440" "d < 1440"
      unfolding len using w b m by (auto simp: in_window_def d_def split: if_splits)
    moreover have "(s + d) mod 1440 = m"
      using wrap [OF \<open>d < 1440\<close>] b m by (auto simp: d_def)
    ultimately show "\<exists>d \<le> (e + 1440 - s - 1) mod 1440. (s + d) mod 1440 = m" by blast
  next
    assume "\<exists>d \<le> (e + 1440 - s - 1) mod 1440. (s + d) mod 1440 = m"
    then obtain d where d: "d \<le> (if s < e then e - s - 1 else e + 1440 - s - 1)"
      "(s + d) mod 1440 = m" unfolding len by blast
    then have "d < 1440" using b by (auto split: if_splits)
    then show "in_window s e m"
      using d wrap [of d] b by (auto simp: in_window_def split: if_splits)
  qed
  then show ?thesis
    using withinWindow_result(1) [OF ok, of "Some w" now] zone
    by (simp add: getter_defs s_def e_def m_def minutesPerDay_def)
qed

theorem withinWindow_cyclic_witness:
  "fst (validateWindow example_zones Map.empty (Some example_window)) = Inr () \<and>
   fst (withinWindow example_zones Map.empty (Some example_window) (12 * 3600 * second)) = Inr False"
proof -
  have v: "fst (validateWindow example_zones Map.empty (Some example_window)) = Inr ()"
    by (simp add: example_defs validateWindow_def getter_defs loadLocation_def minutesPerDay_def)
  have z: "example_zones (timezone example_window) = Some (\<lambda>_. 7200)" by (simp add: example_defs)
  have "(1320 + d) mod 1440 \<noteq> 840" if "d \<le> 479" for d :: nat
    using that by (cases "d < 120") (simp_all add: le_mod_geq)
  then show ?thesis
    using v withinWindow_cyclic [OF v cache_ok_empty z, of "12 * 3600 * second"]
    by (simp add: example_window_def local_minute_def second_def minutesPerDay_def)
qed

end
