(* ===== verification/Job_State.thy ===== *)
theory Job_State
  imports Prelude
begin

text \<open>
  \<^verbatim>\<open>pkg/jobs/state.go\<close>, \<^verbatim>\<open>pkg/jobs/producer.go\<close> and \<^verbatim>\<open>pkg/jobs/module_authority.go\<close>: the
  job vocabulary, the legal state changes, the mapping of both enums to their database
  text, the canonical ordering key and the host-stamped module provenance.
\<close>

section \<open>States and directions\<close>

datatype job_state =
    JOB_STATE_UNSPECIFIED
  | PENDING
  | PROCESSING
  | RETRYING
  | SUCCEEDED
  | DEAD_LETTER
  | CANCELED
  | JOB_STATE_OTHER int

datatype job_direction =
    JOB_DIRECTION_UNSPECIFIED
  | INBOX
  | OUTBOX
  | JOB_DIRECTION_OTHER int

datatype job_error =
    ErrInvalidInitialState job_state
  | ErrInvalidTransition job_state job_state
  | ErrUnknownDirection
  | ErrUnknownState
  | ErrInvalidCommand
  | ErrIdempotencyConflict
  | ErrOrderingKeyTooLong nat
  | ErrTransactionRequired
  | ErrLeaseLost
  | ErrJobNotFound
  | ErrReplayNotAllowed
  | ErrInvalidPageToken
  | ErrNoOpenAttempt
  | ErrRevokedAuthority
  | ErrUnknownScope string
  | ErrInvalidScopeId
  | ErrConflictUnresolved
  | ErrInsufficientPrivilege
  | ErrNoLease
  | ErrContextDone
  | ErrStore

definition DatabaseDirection :: "job_direction \<Rightarrow> job_error + string" where
  "DatabaseDirection direction =
     (case direction of
        INBOX \<Rightarrow> Inr ''inbox''
      | OUTBOX \<Rightarrow> Inr ''outbox''
      | _ \<Rightarrow> Inl ErrUnknownDirection)"

definition ParseDatabaseDirection :: "string \<Rightarrow> job_error + job_direction" where
  "ParseDatabaseDirection direction =
     (if direction = ''inbox'' then Inr INBOX
      else if direction = ''outbox'' then Inr OUTBOX
      else Inl ErrUnknownDirection)"

definition ValidateInitialState :: "job_state \<Rightarrow> job_error + unit" where
  "ValidateInitialState state =
     (if state \<noteq> PENDING then Inl (ErrInvalidInitialState state) else Inr ())"

definition CanTransition :: "job_state \<Rightarrow> job_state \<Rightarrow> bool" where
  "CanTransition from to =
     (case from of
        PENDING \<Rightarrow> to = PROCESSING \<or> to = CANCELED
      | PROCESSING \<Rightarrow> to = RETRYING \<or> to = SUCCEEDED \<or> to = DEAD_LETTER \<or> to = CANCELED
      | RETRYING \<Rightarrow> to = PROCESSING \<or> to = CANCELED
      | _ \<Rightarrow> False)"

definition ValidateTransition :: "job_state \<Rightarrow> job_state \<Rightarrow> job_error + unit" where
  "ValidateTransition from to =
     (if \<not> CanTransition from to then Inl (ErrInvalidTransition from to) else Inr ())"

definition IsTerminal :: "job_state \<Rightarrow> bool" where
  "IsTerminal state = (state = SUCCEEDED \<or> state = DEAD_LETTER \<or> state = CANCELED)"

definition DatabaseState :: "job_state \<Rightarrow> job_error + string" where
  "DatabaseState state =
     (case state of
        PENDING \<Rightarrow> Inr ''pending''
      | PROCESSING \<Rightarrow> Inr ''processing''
      | RETRYING \<Rightarrow> Inr ''retrying''
      | SUCCEEDED \<Rightarrow> Inr ''succeeded''
      | DEAD_LETTER \<Rightarrow> Inr ''dead_letter''
      | CANCELED \<Rightarrow> Inr ''canceled''
      | _ \<Rightarrow> Inl ErrUnknownState)"

definition ParseDatabaseState :: "string \<Rightarrow> job_error + job_state" where
  "ParseDatabaseState state =
     (if state = ''pending'' then Inr PENDING
      else if state = ''processing'' then Inr PROCESSING
      else if state = ''retrying'' then Inr RETRYING
      else if state = ''succeeded'' then Inr SUCCEEDED
      else if state = ''dead_letter'' then Inr DEAD_LETTER
      else if state = ''canceled'' then Inr CANCELED
      else Inl ErrUnknownState)"

section \<open>Ordering keys\<close>

text \<open>
  \<^verbatim>\<open>base64.RawURLEncoding\<close>: three bytes become four letters of the URL alphabet, a final
  group of one or two bytes becomes two or three, and no padding is written.
\<close>

definition base64_url_alphabet :: string where
  "base64_url_alphabet = ''ABCDEFGHIJKLMNOPQRSTUVWXYZabcdefghijklmnopqrstuvwxyz0123456789-_''"

definition base64_letter :: "nat \<Rightarrow> char" where
  "base64_letter n = base64_url_alphabet ! (n mod 64)"

definition base64_quantum :: "char \<Rightarrow> char \<Rightarrow> char \<Rightarrow> nat" where
  "base64_quantum a b c = of_char a * 65536 + of_char b * 256 + of_char c"

definition base64_letters :: "nat \<Rightarrow> string" where
  "base64_letters n =
     map base64_letter [n div 64 div 64 div 64, n div 64 div 64, n div 64, n]"

fun RawURLEncoding :: "string \<Rightarrow> string" where
  "RawURLEncoding [] = []"
| "RawURLEncoding [a] = take 2 (base64_letters (base64_quantum a (CHR 0x00) (CHR 0x00)))"
| "RawURLEncoding [a, b] = take 3 (base64_letters (base64_quantum a b (CHR 0x00)))"
| "RawURLEncoding (a # b # c # rest) =
     base64_letters (base64_quantum a b c) @ RawURLEncoding rest"

record ordering_key =
  ok_namespace :: string
  ok_components :: "string list"

fun join_with :: "string \<Rightarrow> string list \<Rightarrow> string" where
  "join_with sep [] = []"
| "join_with sep [x] = x"
| "join_with sep (x # y # ys) = x @ sep @ join_with sep (y # ys)"

definition CanonicalOrderingKey ::
  "(ordering_key \<Rightarrow> bool) \<Rightarrow> ordering_key option \<Rightarrow> job_error + string" where
  "CanonicalOrderingKey valid key =
     (case key of
        None \<Rightarrow> Inr []
      | Some k \<Rightarrow>
          if \<not> valid k then Inl ErrInvalidCommand
          else let canonical = ok_namespace k @ '':'' @ join_with ''.'' (map RawURLEncoding (ok_components k))
               in if length canonical > 255 then Inl (ErrOrderingKeyTooLong (length canonical))
                  else Inr canonical)"

section \<open>Module provenance\<close>

type_synonym attributes = "string \<rightharpoonup> string"

record module_authority =
  PrincipalID :: string
  OrganizationID :: string
  InstallationID :: string
  BindingID :: string
  InstallationRevision :: nat
  AllowsGlobal :: bool

fun decimal_digits :: "nat \<Rightarrow> string" where
  "decimal_digits n =
     (if n < 10 then [char_of (48 + n)] else decimal_digits (n div 10) @ [char_of (48 + n mod 10)])"

declare decimal_digits.simps [simp del]

definition authority_attributes :: "module_authority \<Rightarrow> attributes" where
  "authority_attributes a =
     [''codefly.principal_id'' \<mapsto> PrincipalID a,
      ''codefly.organization_id'' \<mapsto> OrganizationID a,
      ''codefly.installation_id'' \<mapsto> InstallationID a,
      ''codefly.installation_revision'' \<mapsto> decimal_digits (InstallationRevision a),
      ''codefly.binding_id'' \<mapsto> BindingID a]"

definition has_prefix :: "string \<Rightarrow> string \<Rightarrow> bool" where
  "has_prefix s p = (take (length p) s = p)"

text \<open>The attribute half of \<^verbatim>\<open>StampModuleJob\<close>: the rest of the request is copied unchanged.\<close>

definition StampModuleJob :: "attributes \<Rightarrow> module_authority \<Rightarrow> attributes" where
  "StampModuleJob attrs a =
     (\<lambda>k. if has_prefix k ''codefly.'' then None else attrs k) ++ authority_attributes a"

section \<open>Facts\<close>

lemma CanTransition_terminal: "IsTerminal from \<Longrightarrow> \<not> CanTransition from to"
  by (auto simp: IsTerminal_def CanTransition_def)

lemma CanTransition_irrefl: "\<not> CanTransition s s"
  by (cases s) (auto simp: CanTransition_def)

lemma database_state_parse: "DatabaseState s = Inr t \<longleftrightarrow> ParseDatabaseState t = Inr s"
  by (cases s) (auto simp: DatabaseState_def ParseDatabaseState_def split: if_splits)

lemma database_direction_parse: "DatabaseDirection s = Inr t \<longleftrightarrow> ParseDatabaseDirection t = Inr s"
  by (cases s) (auto simp: DatabaseDirection_def ParseDatabaseDirection_def split: if_splits)

inductive lifecycle :: "job_state \<Rightarrow> job_state \<Rightarrow> bool" where
  created: "lifecycle s s"
| moved: "lifecycle s t \<Longrightarrow> CanTransition t u \<Longrightarrow> lifecycle s u"

inductive_cases lifecycleE: "lifecycle s t"

lemma lifecycle_trans: "lifecycle t u \<Longrightarrow> lifecycle s t \<Longrightarrow> lifecycle s u"
  by (induction rule: lifecycle.induct) (auto intro: lifecycle.intros)

lemma lifecycle_terminal: "lifecycle s t \<Longrightarrow> IsTerminal s \<Longrightarrow> t = s"
  by (induction rule: lifecycle.induct) (auto dest: CanTransition_terminal)

section \<open>Canonical ordering keys do not collide\<close>

lemma base64_alphabet_facts:
  "length base64_url_alphabet = 64" "distinct base64_url_alphabet"
  "CHR ''.'' \<notin> set base64_url_alphabet" "CHR '':'' \<notin> set base64_url_alphabet"
  by (simp_all add: base64_url_alphabet_def)

lemma base64_letter_eq: "base64_letter m = base64_letter n \<longleftrightarrow> m mod 64 = n mod 64"
  by (simp add: base64_letter_def nth_eq_iff_index_eq base64_alphabet_facts)

lemma base64_letter_in: "base64_letter n \<in> set base64_url_alphabet"
  by (simp add: base64_letter_def base64_alphabet_facts)

lemma base64_letters_in: "set (take k (base64_letters n)) \<subseteq> set base64_url_alphabet"
  using set_take_subset [of k "base64_letters n"] base64_letter_in
  by (fastforce simp: base64_letters_def)

lemma length_base64_letters [simp]: "length (base64_letters n) = 4"
  by (simp add: base64_letters_def)

lemma RawURLEncoding_letters: "set (RawURLEncoding xs) \<subseteq> set base64_url_alphabet"
proof (induction xs rule: RawURLEncoding.induct)
  case (4 a b c rest)
  then show ?case using base64_letters_in [of 4 "base64_quantum a b c"] by simp
qed (simp_all add: base64_letters_in)

lemma RawURLEncoding_no_separator:
  "CHR ''.'' \<notin> set (RawURLEncoding xs)" "CHR '':'' \<notin> set (RawURLEncoding xs)"
  using RawURLEncoding_letters [of xs] base64_alphabet_facts by auto

text \<open>The bytes of a group are the base-256 digits of its number, the letters its base-64 digits.\<close>

lemma positional:
  fixes a b c d k :: nat
  assumes "a * k + b = c * k + d" "b < k" "d < k"
  shows "a = c \<and> b = d"
proof -
  have "(a * k + b) div k = a" "(c * k + d) div k = c" using assms(2,3) by simp_all
  then have "a = c" using assms(1) by simp
  then show ?thesis using assms(1) by simp
qed

lemma div_mod_eqI: "m div k = n div k \<Longrightarrow> m mod k = n mod k \<Longrightarrow> m = (n :: nat)"
  by (metis div_mult_mod_eq)

lemma base64_quantum_inj:
  assumes "base64_quantum a b c = base64_quantum a' b' c'"
  shows "a = a' \<and> b = b' \<and> c = c'"
proof -
  have "(of_char a * 256 + of_char b) * 256 + of_char c =
      (of_char a' * 256 + of_char b') * 256 + (of_char c' :: nat)"
    using assms by (simp add: base64_quantum_def algebra_simps)
  from positional [OF this] have "of_char a * 256 + of_char b = (of_char a' * 256 + of_char b' :: nat)"
    and "c = c'" by simp_all
  then show ?thesis
    using positional [of "of_char a" 256 "of_char b" "of_char a'" "of_char b'"] by simp
qed

lemma base64_quantum_lt: "base64_quantum a b c < 64 * 64 * 64 * 64"
  using nat_of_char_less_256 [of a] nat_of_char_less_256 [of b] nat_of_char_less_256 [of c]
  unfolding base64_quantum_def by linarith

lemma base64_top_digit: "(m::nat) < 64 * 64 * 64 * 64 \<Longrightarrow> m div 64 div 64 div 64 mod 64 = m div 64 div 64 div 64"
  by (intro mod_less) (simp add: div_less_iff_less_mult)

lemma base64_letters_inj:
  assumes "base64_letters m = base64_letters n" "m < 64 * 64 * 64 * 64" "n < 64 * 64 * 64 * 64"
  shows "m = n"
proof -
  have "m div 64 div 64 div 64 = n div 64 div 64 div 64"
    using assms base64_top_digit [of m] base64_top_digit [of n]
    by (simp only: base64_letters_def list.map list.inject base64_letter_eq)
  then have "m div 64 div 64 = n div 64 div 64"
    by (rule div_mod_eqI) (use assms(1) in \<open>simp only: base64_letters_def list.map list.inject base64_letter_eq\<close>)
  then have "m div 64 = n div 64"
    by (rule div_mod_eqI) (use assms(1) in \<open>simp only: base64_letters_def list.map list.inject base64_letter_eq\<close>)
  then show ?thesis
    by (rule div_mod_eqI) (use assms(1) in \<open>simp only: base64_letters_def list.map list.inject base64_letter_eq\<close>)
qed

text \<open>The letters a short final group drops are the ones its zero bytes give.\<close>

lemma short_group_letters:
  "drop 2 (base64_letters (base64_quantum a (CHR 0x00) (CHR 0x00))) = [base64_letter 0, base64_letter 0]"
  "drop 3 (base64_letters (base64_quantum a b (CHR 0x00))) = [base64_letter 0]"
proof -
  have "(of_char a * 65536 :: nat) div 64 = of_char a * 16 * 64"
    "(of_char a * 65536 :: nat) mod 64 = 0"
    "(of_char a * 65536 + of_char b * 256 :: nat) mod 64 = 0"
    using div_mult_self_is_m [of 64 "of_char a * 1024 :: nat"]
      mod_mult_self2_is_0 [of "of_char a * 1024 :: nat" 64]
      mod_mult_self2_is_0 [of "of_char a * 1024 + of_char b * 4 :: nat" 64]
    by (simp_all add: algebra_simps)
  then show "drop 2 (base64_letters (base64_quantum a (CHR 0x00) (CHR 0x00))) = [base64_letter 0, base64_letter 0]"
    "drop 3 (base64_letters (base64_quantum a b (CHR 0x00))) = [base64_letter 0]"
    by (simp_all add: base64_letters_def base64_quantum_def base64_letter_eq)
qed

lemma base64_group_inj:
  assumes "base64_letters (base64_quantum a b c) = base64_letters (base64_quantum a' b' c')"
  shows "a = a' \<and> b = b' \<and> c = c'"
  by (rule base64_quantum_inj) (rule base64_letters_inj [OF assms base64_quantum_lt base64_quantum_lt])

lemma take_drop_eqI: "take k xs = take k ys \<Longrightarrow> drop k xs = drop k ys \<Longrightarrow> xs = ys"
  by (metis append_take_drop_id)

lemma RawURLEncoding_length:
  "length (RawURLEncoding [a]) = 2" "length (RawURLEncoding [a, b]) = 3"
  "length (RawURLEncoding (a # b # c # rest)) \<ge> 4"
  by simp_all

lemma RawURLEncoding_inj: "RawURLEncoding xs = RawURLEncoding ys \<Longrightarrow> xs = ys"
proof (induction xs arbitrary: ys rule: RawURLEncoding.induct)
  case 1
  then show ?case
    by (cases ys rule: RawURLEncoding.cases)
      (use RawURLEncoding_length in \<open>auto dest: arg_cong [where f = length]\<close>)
next
  case (2 a)
  then have len: "length (RawURLEncoding ys) = 2" using RawURLEncoding_length(1) [of a] by metis
  then obtain a' where ys: "ys = [a']"
    by (cases ys rule: RawURLEncoding.cases) simp_all
  have "base64_letters (base64_quantum a (CHR 0x00) (CHR 0x00)) =
      base64_letters (base64_quantum a' (CHR 0x00) (CHR 0x00))"
    by (rule take_drop_eqI [where k = 2]) (use 2 ys in \<open>simp_all add: short_group_letters\<close>)
  then show ?case using ys base64_group_inj by blast
next
  case (3 a b)
  then have len: "length (RawURLEncoding ys) = 3" using RawURLEncoding_length(2) [of a b] by metis
  then obtain a' b' where ys: "ys = [a', b']"
    by (cases ys rule: RawURLEncoding.cases) simp_all
  have "base64_letters (base64_quantum a b (CHR 0x00)) =
      base64_letters (base64_quantum a' b' (CHR 0x00))"
    by (rule take_drop_eqI [where k = 3]) (use 3 ys in \<open>simp_all add: short_group_letters\<close>)
  then show ?case using ys base64_group_inj by blast
next
  case (4 a b c rest)
  then have len: "length (RawURLEncoding ys) \<ge> 4"
    using RawURLEncoding_length(3) [of a b c rest] by simp
  then obtain a' b' c' rest' where ys: "ys = a' # b' # c' # rest'"
    by (cases ys rule: RawURLEncoding.cases) simp_all
  then have "base64_letters (base64_quantum a b c) = base64_letters (base64_quantum a' b' c')"
    and "RawURLEncoding rest = RawURLEncoding rest'"
    using "4.prems" by simp_all
  then show ?case using ys base64_group_inj "4.IH" by blast
qed

lemma join_with_Cons: "xs \<noteq> [] \<Longrightarrow> join_with sep (x # xs) = x @ sep @ join_with sep xs"
  by (cases xs) simp_all

lemma append_sep_eq:
  "xs @ c # ys = xs' @ c # ys' \<Longrightarrow> c \<notin> set xs \<Longrightarrow> c \<notin> set xs' \<Longrightarrow> xs = xs' \<and> ys = ys'"
  by (induction xs arbitrary: xs') (auto simp: Cons_eq_append_conv)

lemma append_sep_eq_last:
  assumes "xs @ c # ys = xs' @ c # ys'" "c \<notin> set ys" "c \<notin> set ys'"
  shows "xs = xs' \<and> ys = ys'"
proof -
  have "rev ys @ c # rev xs = rev ys' @ c # rev xs'"
    using arg_cong [where f = rev, OF assms(1)] by simp
  then have "rev ys = rev ys' \<and> rev xs = rev xs'"
    by (rule append_sep_eq) (use assms in simp_all)
  then show ?thesis by simp
qed

lemma join_with_inj:
  assumes "join_with [c] xs = join_with [c] ys" "xs \<noteq> []" "ys \<noteq> []"
    and "\<forall>x \<in> set xs. c \<notin> set x" "\<forall>y \<in> set ys. c \<notin> set y"
  shows "xs = ys"
  using assms
proof (induction xs arbitrary: ys)
  case (Cons x xs)
  obtain y ys' where ys: "ys = y # ys'" using Cons.prems by (cases ys) auto
  show ?case
  proof (cases "xs = []")
    case True
    then show ?thesis
      using Cons.prems ys by (cases ys') (auto simp: join_with_Cons)
  next
    case False
    then have l: "join_with [c] (x # xs) = x @ c # join_with [c] xs" by (simp add: join_with_Cons)
    then have "ys' \<noteq> []" using Cons.prems ys by auto
    then have "x @ c # join_with [c] xs = y @ c # join_with [c] ys'"
      using Cons.prems(1) ys l by (simp add: join_with_Cons)
    then have "x = y \<and> join_with [c] xs = join_with [c] ys'"
      by (rule append_sep_eq) (use Cons.prems ys in simp_all)
    then show ?thesis using Cons False \<open>ys' \<noteq> []\<close> ys by auto
  qed
qed simp

lemma join_with_set: "set (join_with sep xs) \<subseteq> (\<Union>x\<in>set xs. set x) \<union> set sep"
  by (induction sep xs rule: join_with.induct) auto

section \<open>Properties\<close>

text \<open>
   Two ordering keys with the same canonical text are the same key, so jobs of different
  keys are never serialized behind each other: the component boundaries survive whatever
  bytes the components hold.
\<close>

theorem CanonicalOrderingKey_collision_free:
  assumes nonempty: "\<And>k. valid k \<Longrightarrow> ok_components k \<noteq> []"
    and "CanonicalOrderingKey valid (Some k) = Inr s" "CanonicalOrderingKey valid (Some k') = Inr s"
  shows "k = k'"
proof -
  let ?enc = "\<lambda>k. join_with ''.'' (map RawURLEncoding (ok_components k))"
  have s: "s = ok_namespace k @ '':'' @ ?enc k" "valid k" "s = ok_namespace k' @ '':'' @ ?enc k'" "valid k'"
    using assms(2,3) by (auto simp: CanonicalOrderingKey_def Let_def split: if_splits)
  have no: "CHR '':'' \<notin> set (?enc k)" for k
    using join_with_set [of "''.''" "map RawURLEncoding (ok_components k)"] RawURLEncoding_no_separator(2)
    by auto
  have "ok_namespace k @ CHR '':'' # ?enc k = ok_namespace k' @ CHR '':'' # ?enc k'"
    using s by simp
  then have "ok_namespace k = ok_namespace k' \<and> ?enc k = ?enc k'"
    by (rule append_sep_eq_last) (rule no)+
  moreover have "map RawURLEncoding (ok_components k) = map RawURLEncoding (ok_components k')"
    by (rule join_with_inj [where c = "CHR ''.''"])
      (use calculation s nonempty RawURLEncoding_no_separator(1) in auto)
  then have "ok_components k = ok_components k'"
    by (rule map_injective) (auto intro: injI RawURLEncoding_inj)
  ultimately show ?thesis by simp
qed

theorem CanonicalOrderingKey_collision_free_witness:
  "CanonicalOrderingKey (\<lambda>k. ok_components k \<noteq> []) (Some \<lparr>ok_namespace = ''n'', ok_components = [''a'', ''b'']\<rparr>)
     \<noteq> CanonicalOrderingKey (\<lambda>k. ok_components k \<noteq> []) (Some \<lparr>ok_namespace = ''n'', ok_components = [''a.b'']\<rparr>)"
proof
  let ?v = "\<lambda>k. ok_components k \<noteq> []"
  let ?k = "\<lparr>ok_namespace = ''n'', ok_components = [''a'', ''b'']\<rparr>"
  let ?k' = "\<lparr>ok_namespace = ''n'', ok_components = [''a.b'']\<rparr>"
  assume eq: "CanonicalOrderingKey ?v (Some ?k) = CanonicalOrderingKey ?v (Some ?k')"
  have "CanonicalOrderingKey ?v (Some ?k) = Inr ''n:YQ.Yg''"
    by (simp add: CanonicalOrderingKey_def base64_letters_def base64_quantum_def base64_letter_def
        base64_url_alphabet_def)
  then have "?k = ?k'"
    using eq by (intro CanonicalOrderingKey_collision_free [where valid = ?v]) (assumption | simp only:)+
  then have "ok_components ?k = ok_components ?k'" by (rule arg_cong)
  then show False by simp
qed

end
