(* ===== verification/Job_Store.thy ===== *)
theory Job_Store
  imports Job_State
begin

text \<open>
  \<^verbatim>\<open>pkg/infra/postgres_jobs.go\<close>: the durable job store.  A transaction is a function from the
  tables to the tables; \<^verbatim>\<open>now\<close> is its \<^verbatim>\<open>NOW()\<close>, and \<^verbatim>\<open>locked\<close> is the set of rows another
  transaction holds, which \<^verbatim>\<open>FOR UPDATE SKIP LOCKED\<close> passes over.  The table triggers
  \<^verbatim>\<open>enforce_job_message_state\<close> and \<^verbatim>\<open>append_job_state_transition\<close> act on every row update,
  through \<^verbatim>\<open>update_messages\<close>.  The predicates over installations the SQL calls
  (\<^verbatim>\<open>module_job_authority_current\<close>, \<^verbatim>\<open>installation_step_job_current\<close>), the authority lock
  and the protobuf validator are arguments, in the record \<^verbatim>\<open>job_env\<close>; \<^verbatim>\<open>gen_random_uuid()\<close> is
  the argument \<^verbatim>\<open>fresh\<close>, one token per claimed row.
\<close>

section \<open>Tables\<close>

record job_spec =
  js_direction :: string
  js_scope_kind :: string
  js_organization_id :: "uuid option"
  js_subject_id :: "uuid option"
  js_queue :: string
  js_topic :: string
  js_source :: string
  js_idempotency_key :: string
  js_request_fingerprint :: string
  js_ordering_key :: "string option"
  js_schema_version :: nat
  js_payload :: string
  js_content_type :: string
  js_attributes :: attributes
  js_max_attempts :: nat
  js_replay_of :: "uuid option"
  js_created_at :: time
  js_enqueue_seq :: nat
  js_priority :: int

record job_row =
  jm_id :: uuid
  jm_spec :: job_spec
  jm_state :: job_state
  jm_attempt_count :: nat
  jm_lease_owner :: "string option"
  jm_lease_token :: "uuid option"
  jm_lease_expires_at :: "time option"
  jm_heartbeat_at :: "time option"
  jm_last_error_code :: "string option"
  jm_last_error_message :: "string option"
  jm_available_at :: time
  jm_last_attempt_at :: "time option"
  jm_completed_at :: "time option"
  jm_dead_lettered_at :: "time option"
  jm_state_version :: nat
  jm_updated_at :: time
  jm_execution :: "(string \<times> string \<times> string) option"
  jm_consumer_authority :: "attributes option"

record attempt_row =
  at_job_id :: uuid
  at_number :: nat
  at_worker_id :: string
  at_lease_token :: uuid
  at_outcome :: "string option"
  at_error_code :: "string option"
  at_error_message :: "string option"
  at_started_at :: time
  at_heartbeat_at :: time
  at_finished_at :: "time option"

record transition_row =
  tr_job_id :: uuid
  tr_from :: "job_state option"
  tr_to :: job_state
  tr_state_version :: nat
  tr_attempt_count :: nat
  tr_error_code :: "string option"
  tr_error_message :: "string option"

record job_db =
  job_messages :: "job_row list"
  job_attempts :: "attempt_row list"
  job_state_transitions :: "transition_row list"

record claim_request =
  cl_queue :: string
  cl_worker_id :: string
  cl_limit :: nat
  cl_lease_duration :: duration

record lease_ref =
  lr_job_id :: uuid
  lr_worker_id :: string
  lr_lease_token :: uuid

record job_failure =
  jf_code :: string
  jf_message :: string

record job_lease =
  jl_owner :: string
  jl_token :: uuid
  jl_expires_at :: "time option"
  jl_heartbeat_at :: "time option"

datatype job_scope = ScopeOrganization uuid | ScopeSubject uuid | ScopeGlobal

record job_envelope =
  je_id :: uuid
  je_direction :: job_direction
  je_scope :: job_scope
  je_queue :: string
  je_topic :: string
  je_source :: string
  je_idempotency_key :: string
  je_ordering_key :: string
  je_schema_version :: nat
  je_payload :: string
  je_content_type :: string
  je_attributes :: attributes
  je_state :: job_state
  je_priority :: int
  je_attempt_count :: nat
  je_max_attempts :: nat
  je_lease :: "job_lease option"
  je_last_failure :: "job_failure option"
  je_available_at :: time
  je_last_attempt_at :: "time option"
  je_completed_at :: "time option"
  je_dead_lettered_at :: "time option"
  je_created_at :: time
  je_updated_at :: time
  je_state_version :: nat
  je_replay_of :: string

record job_env =
  module_job_authority_current :: "attributes \<Rightarrow> bool"
  installation_step_job_current :: "uuid \<Rightarrow> attributes \<Rightarrow> bool"
  lock_module_job_authority :: "attributes \<Rightarrow> bool"
  valid_claim :: "claim_request \<Rightarrow> bool"
  valid_lease :: "lease_ref \<Rightarrow> bool"
  valid_failure :: "job_failure \<Rightarrow> bool"

section \<open>Row triggers\<close>

definition same_identity :: "job_row \<Rightarrow> job_row \<Rightarrow> bool" where
  "same_identity old new \<longleftrightarrow>
     jm_spec new\<lparr>js_priority := js_priority (jm_spec old), js_enqueue_seq := js_enqueue_seq (jm_spec old)\<rparr>
       = jm_spec old"

text \<open>The updates \<^verbatim>\<open>enforce_job_message_state\<close> lets through; anything else aborts the transaction.\<close>

definition update_admitted :: "job_row \<Rightarrow> job_row \<Rightarrow> bool" where
  "update_admitted old new \<longleftrightarrow>
     same_identity old new \<and> \<not> IsTerminal (jm_state old) \<and>
     (if jm_state new \<noteq> jm_state old
      then CanTransition (jm_state old) (jm_state new) \<and>
           (if jm_state new = PROCESSING then jm_attempt_count new = jm_attempt_count old + 1
            else jm_attempt_count new = jm_attempt_count old)
      else jm_attempt_count new = jm_attempt_count old)"

definition enforce_job_message_state :: "time \<Rightarrow> job_row \<Rightarrow> job_row \<Rightarrow> job_row" where
  "enforce_job_message_state now old new =
     new\<lparr>jm_state_version :=
           (if jm_state new \<noteq> jm_state old then jm_state_version old + 1 else jm_state_version old),
         jm_updated_at := now\<rparr>"

definition transition_entry :: "job_state option \<Rightarrow> job_row \<Rightarrow> transition_row" where
  "transition_entry from m =
     \<lparr>tr_job_id = jm_id m, tr_from = from, tr_to = jm_state m,
      tr_state_version = jm_state_version m, tr_attempt_count = jm_attempt_count m,
      tr_error_code = jm_last_error_code m, tr_error_message = jm_last_error_message m\<rparr>"

definition append_job_state_transition :: "job_row \<Rightarrow> job_row \<Rightarrow> transition_row list" where
  "append_job_state_transition old new =
     (if jm_state new = jm_state old then [] else [transition_entry (Some (jm_state old)) new])"

definition update_messages ::
  "time \<Rightarrow> (job_row \<Rightarrow> bool) \<Rightarrow> (job_row \<Rightarrow> job_row) \<Rightarrow> job_db \<Rightarrow> job_db" where
  "update_messages now p f db =
     db\<lparr>job_messages := update_where p (\<lambda>m. enforce_job_message_state now m (f m)) (job_messages db),
        job_state_transitions := job_state_transitions db @
          concat (map (\<lambda>m. append_job_state_transition m (enforce_job_message_state now m (f m)))
            (filter p (job_messages db)))\<rparr>"

definition update_attempts ::
  "(attempt_row \<Rightarrow> bool) \<Rightarrow> (attempt_row \<Rightarrow> attempt_row) \<Rightarrow> job_db \<Rightarrow> job_db" where
  "update_attempts p f db = db\<lparr>job_attempts := update_where p f (job_attempts db)\<rparr>"

section \<open>Revoked authority and expired leases\<close>

abbreviation jm_queue :: "job_row \<Rightarrow> string" where
  "jm_queue m \<equiv> js_queue (jm_spec m)"

abbreviation jm_max_attempts :: "job_row \<Rightarrow> nat" where
  "jm_max_attempts m \<equiv> js_max_attempts (jm_spec m)"

definition active :: "job_row \<Rightarrow> bool" where
  "active m \<longleftrightarrow> jm_state m = PENDING \<or> jm_state m = PROCESSING \<or> jm_state m = RETRYING"

definition clear_lease :: "job_row \<Rightarrow> job_row" where
  "clear_lease m = m\<lparr>jm_lease_owner := None, jm_lease_token := None,
     jm_lease_expires_at := None, jm_heartbeat_at := None\<rparr>"

definition is_installation_step :: "job_row \<Rightarrow> bool" where
  "is_installation_step m \<longleftrightarrow>
     (let sp = jm_spec m in
      js_queue sp = ''installation-step'' \<and> js_source sp = ''saas.installation'' \<and>
      js_topic sp = ''installation.step'' \<and> js_scope_kind sp = ''tenant'' \<and> js_direction sp = ''outbox'')"

definition producer_authority_current :: "job_env \<Rightarrow> job_row \<Rightarrow> bool" where
  "producer_authority_current env m =
     (if is_installation_step m then installation_step_job_current env (jm_id m) (js_attributes (jm_spec m))
      else js_attributes (jm_spec m) ''codefly.installation_id'' = None \<or>
           module_job_authority_current env (js_attributes (jm_spec m)))"

definition consumer_authority_current :: "job_env \<Rightarrow> job_row \<Rightarrow> bool" where
  "consumer_authority_current env m =
     (case jm_consumer_authority m of None \<Rightarrow> True | Some a \<Rightarrow> module_job_authority_current env a)"

definition authority_revoked :: "job_env \<Rightarrow> job_row \<Rightarrow> bool" where
  "authority_revoked env m \<longleftrightarrow>
     (if is_installation_step m then \<not> installation_step_job_current env (jm_id m) (js_attributes (jm_spec m))
      else js_attributes (jm_spec m) ''codefly.installation_id'' \<noteq> None \<and>
           \<not> module_job_authority_current env (js_attributes (jm_spec m))) \<or>
     (case jm_consumer_authority m of None \<Rightarrow> False | Some a \<Rightarrow> \<not> module_job_authority_current env a)"

text \<open>This statement stamps \<^verbatim>\<open>clock_timestamp()\<close>, a later reading than the transaction's \<^verbatim>\<open>NOW()\<close>.\<close>

definition cancelRevokedModuleJobs :: "job_env \<Rightarrow> time \<Rightarrow> time \<Rightarrow> string \<Rightarrow> job_db \<Rightarrow> job_db" where
  "cancelRevokedModuleJobs env now clock queue db =
     (let p = (\<lambda>m. jm_queue m = queue \<and> active m \<and> authority_revoked env m);
          canceled = map jm_id (filter p (job_messages db))
      in update_attempts
           (\<lambda>a. at_job_id a \<in> set canceled \<and> at_finished_at a = None)
           (\<lambda>a. a\<lparr>at_finished_at := Some clock, at_outcome := Some ''canceled'',
                  at_error_code := Some ''revoked_authority'',
                  at_error_message := Some ''installation authority changed''\<rparr>)
           (update_messages now p
             (\<lambda>m. (clear_lease m)\<lparr>jm_state := CANCELED, jm_completed_at := Some clock,
                    jm_last_error_code := Some ''revoked_authority'',
                    jm_last_error_message := Some ''installation authority changed''\<rparr>) db))"

definition lease_expired :: "time \<Rightarrow> job_row \<Rightarrow> bool" where
  "lease_expired now m = (case jm_lease_expires_at m of None \<Rightarrow> False | Some t \<Rightarrow> t \<le> now)"

definition recover_row :: "time \<Rightarrow> job_row \<Rightarrow> job_row" where
  "recover_row now m =
     (clear_lease m)\<lparr>
       jm_state := (if jm_max_attempts m \<le> jm_attempt_count m then DEAD_LETTER else RETRYING),
       jm_last_error_code := Some ''jobs.lease_expired'',
       jm_last_error_message := Some ''processing lease expired before finalization'',
       jm_available_at := (if jm_attempt_count m < jm_max_attempts m then now else jm_available_at m),
       jm_dead_lettered_at := (if jm_max_attempts m \<le> jm_attempt_count m then Some now else None)\<rparr>"

definition expiry_order :: "job_row \<Rightarrow> time \<times> uuid" where
  "expiry_order m = (case jm_lease_expires_at m of None \<Rightarrow> 0 | Some t \<Rightarrow> t, jm_id m)"

definition recoverExpiredJobLeases ::
  "time \<Rightarrow> (uuid \<Rightarrow> bool) \<Rightarrow> string \<Rightarrow> nat \<Rightarrow> job_db \<Rightarrow> job_db" where
  "recoverExpiredJobLeases now locked queue limit db =
     (let expired = select_ordered expiry_order
            (\<lambda>m. jm_queue m = queue \<and> jm_state m = PROCESSING \<and> lease_expired now m \<and> \<not> locked (jm_id m))
            limit (job_messages db);
          closes = (\<lambda>a. \<exists>m \<in> set expired. at_job_id a = jm_id m \<and>
                        jm_lease_token m = Some (at_lease_token a) \<and> at_finished_at a = None);
          closed = map at_job_id (filter closes (job_attempts db))
      in update_attempts closes
           (\<lambda>a. a\<lparr>at_outcome := Some ''lease_expired'', at_error_code := Some ''jobs.lease_expired'',
                  at_error_message := Some ''processing lease expired before finalization'',
                  at_heartbeat_at := max (at_heartbeat_at a) now, at_finished_at := Some now\<rparr>)
           (update_messages now
             (\<lambda>m. jm_id m \<in> set (map jm_id expired) \<and> jm_id m \<in> set closed)
             (recover_row now) db))"

section \<open>Claim\<close>

definition nonempty :: "string option \<Rightarrow> string option" where
  "nonempty s = (case s of None \<Rightarrow> None | Some t \<Rightarrow> if t = [] then None else Some t)"

definition tenant_admits :: "module_authority \<Rightarrow> job_spec \<Rightarrow> bool" where
  "tenant_admits a sp \<longleftrightarrow>
     (let org = OrganizationID a;
          own = nonempty (js_attributes sp ''codefly.organization_id'');
          source = nonempty (js_attributes sp ''datasource.org_id'')
      in (js_organization_id sp = None \<or> js_organization_id sp = Some org) \<and>
         (own = None \<or> own = Some org) \<and>
         (source = None \<or> source = Some org) \<and>
         (js_organization_id sp \<noteq> None \<or> own \<noteq> None \<or> source \<noteq> None \<or>
          (js_scope_kind sp = ''global'' \<and> AllowsGlobal a)))"

definition module_may_claim :: "job_env \<Rightarrow> module_authority option \<Rightarrow> job_row \<Rightarrow> bool" where
  "module_may_claim env claim m =
     (case claim of
        None \<Rightarrow> True
      | Some a \<Rightarrow> module_job_authority_current env (authority_attributes a) \<and> tenant_admits a (jm_spec m))"

definition enqueue_order :: "job_row \<Rightarrow> time \<times> nat" where
  "enqueue_order m = (js_created_at (jm_spec m), js_enqueue_seq (jm_spec m))"

definition blocked_by_prior :: "job_row list \<Rightarrow> job_row \<Rightarrow> bool" where
  "blocked_by_prior rows m \<longleftrightarrow>
     js_ordering_key (jm_spec m) \<noteq> None \<and>
     (\<exists>prior \<in> set rows. jm_queue prior = jm_queue m \<and>
        js_ordering_key (jm_spec prior) = js_ordering_key (jm_spec m) \<and>
        active prior \<and> enqueue_order prior < enqueue_order m)"

definition claimable ::
  "job_env \<Rightarrow> time \<Rightarrow> module_authority option \<Rightarrow> string \<Rightarrow> job_row list \<Rightarrow> job_row \<Rightarrow> bool" where
  "claimable env now claim queue rows m \<longleftrightarrow>
     jm_queue m = queue \<and> (jm_state m = PENDING \<or> jm_state m = RETRYING) \<and>
     producer_authority_current env m \<and> consumer_authority_current env m \<and>
     module_may_claim env claim m \<and> jm_available_at m \<le> now \<and>
     jm_attempt_count m < jm_max_attempts m \<and> \<not> blocked_by_prior rows m"

definition claim_order :: "job_row \<Rightarrow> int \<times> time \<times> time \<times> nat" where
  "claim_order m =
     (- js_priority (jm_spec m), jm_available_at m, js_created_at (jm_spec m), js_enqueue_seq (jm_spec m))"

definition claim_row ::
  "time \<Rightarrow> module_authority option \<Rightarrow> claim_request \<Rightarrow> (uuid \<Rightarrow> uuid) \<Rightarrow> job_row \<Rightarrow> job_row" where
  "claim_row now claim req fresh m =
     m\<lparr>jm_state := PROCESSING,
       jm_consumer_authority :=
         (case claim of None \<Rightarrow> jm_consumer_authority m | Some a \<Rightarrow> Some (authority_attributes a)),
       jm_attempt_count := jm_attempt_count m + 1,
       jm_lease_owner := Some (cl_worker_id req),
       jm_lease_token := Some (fresh (jm_id m)),
       jm_lease_expires_at := Some (now + cl_lease_duration req),
       jm_heartbeat_at := Some now,
       jm_last_attempt_at := Some now\<rparr>"

definition open_attempt :: "time \<Rightarrow> claim_request \<Rightarrow> job_row \<Rightarrow> attempt_row" where
  "open_attempt now req m =
     \<lparr>at_job_id = jm_id m, at_number = jm_attempt_count m, at_worker_id = cl_worker_id req,
      at_lease_token = (case jm_lease_token m of None \<Rightarrow> [] | Some t \<Rightarrow> t),
      at_outcome = None, at_error_code = None, at_error_message = None,
      at_started_at = now, at_heartbeat_at = now, at_finished_at = None\<rparr>"

definition claim_candidates ::
  "job_env \<Rightarrow> time \<Rightarrow> (uuid \<Rightarrow> bool) \<Rightarrow> module_authority option \<Rightarrow> claim_request \<Rightarrow> job_row list \<Rightarrow> job_row list" where
  "claim_candidates env now locked claim req rows =
     select_ordered claim_order
       (\<lambda>m. claimable env now claim (cl_queue req) rows m \<and> \<not> locked (jm_id m)) (cl_limit req) rows"

definition claimJobsSQL ::
  "job_env \<Rightarrow> time \<Rightarrow> (uuid \<Rightarrow> bool) \<Rightarrow> module_authority option \<Rightarrow> claim_request \<Rightarrow> (uuid \<Rightarrow> uuid) \<Rightarrow>
   job_db \<Rightarrow> job_row list \<times> job_db" where
  "claimJobsSQL env now locked claim req fresh db =
     (let ids = map jm_id (claim_candidates env now locked claim req (job_messages db));
          db' = update_messages now (\<lambda>m. jm_id m \<in> set ids) (claim_row now claim req fresh) db;
          claimed = filter (\<lambda>m. jm_id m \<in> set ids) (job_messages db')
      in (sort_key claim_order claimed,
          db'\<lparr>job_attempts := job_attempts db' @ map (open_attempt now req) claimed\<rparr>))"

definition coalesce :: "string option \<Rightarrow> string" where
  "coalesce s = (case s of None \<Rightarrow> [] | Some t \<Rightarrow> t)"

definition databaseJobScope :: "string \<Rightarrow> string \<Rightarrow> string \<Rightarrow> job_error + job_scope" where
  "databaseJobScope kind organizationID subjectID =
     (if kind = ''tenant'' then Inr (ScopeOrganization organizationID)
      else if kind = ''subject'' then Inr (ScopeSubject subjectID)
      else if kind = ''global'' then Inr ScopeGlobal
      else Inl (ErrUnknownScope kind))"

text \<open>The state column holds the text \<^const>\<open>DatabaseState\<close> wrote; the scan parses it back.\<close>

definition scanJobEnvelope :: "job_row \<Rightarrow> job_error + job_envelope" where
  "scanJobEnvelope m =
     (let sp = jm_spec m in
      rbind (ParseDatabaseDirection (js_direction sp)) (\<lambda>direction.
      rbind (rbind (DatabaseState (jm_state m)) ParseDatabaseState) (\<lambda>state.
      rbind (databaseJobScope (js_scope_kind sp) (coalesce (js_organization_id sp)) (coalesce (js_subject_id sp))) (\<lambda>scope.
      Inr \<lparr>je_id = jm_id m, je_direction = direction, je_scope = scope,
           je_queue = js_queue sp, je_topic = js_topic sp, je_source = js_source sp,
           je_idempotency_key = js_idempotency_key sp,
           je_ordering_key = coalesce (js_ordering_key sp),
           je_schema_version = js_schema_version sp, je_payload = js_payload sp,
           je_content_type = js_content_type sp, je_attributes = js_attributes sp,
           je_state = state, je_priority = js_priority sp,
           je_attempt_count = jm_attempt_count m, je_max_attempts = js_max_attempts sp,
           je_lease =
             (if coalesce (jm_lease_owner m) \<noteq> []
              then Some \<lparr>jl_owner = coalesce (jm_lease_owner m), jl_token = coalesce (jm_lease_token m),
                         jl_expires_at = jm_lease_expires_at m, jl_heartbeat_at = jm_heartbeat_at m\<rparr>
              else None),
           je_last_failure =
             (if coalesce (jm_last_error_code m) \<noteq> []
              then Some \<lparr>jf_code = coalesce (jm_last_error_code m),
                         jf_message = coalesce (jm_last_error_message m)\<rparr>
              else None),
           je_available_at = jm_available_at m, je_last_attempt_at = jm_last_attempt_at m,
           je_completed_at = jm_completed_at m, je_dead_lettered_at = jm_dead_lettered_at m,
           je_created_at = js_created_at sp, je_updated_at = jm_updated_at m,
           je_state_version = jm_state_version m, je_replay_of = coalesce (js_replay_of sp)\<rparr>))))"

fun scan_all :: "job_row list \<Rightarrow> job_error + job_envelope list" where
  "scan_all [] = Inr []"
| "scan_all (m # ms) = rbind (scanJobEnvelope m) (\<lambda>e. rbind (scan_all ms) (\<lambda>es. Inr (e # es)))"

text \<open>
  A transaction that returns an error is rolled back, so the tables it leaves are the ones
  it found.
\<close>

definition Claim ::
  "job_env \<Rightarrow> time \<Rightarrow> time \<Rightarrow> (uuid \<Rightarrow> bool) \<Rightarrow> module_authority option \<Rightarrow> claim_request \<Rightarrow> (uuid \<Rightarrow> uuid) \<Rightarrow>
   job_db \<Rightarrow> (job_error + job_envelope list) \<times> job_db" where
  "Claim env now clock locked claim req fresh db =
     (if \<not> valid_claim env req then (Inl ErrInvalidCommand, db)
      else if (case claim of None \<Rightarrow> False | Some a \<Rightarrow> \<not> lock_module_job_authority env (authority_attributes a))
      then (Inl ErrRevokedAuthority, db)
      else
        let db1 = cancelRevokedModuleJobs env now clock (cl_queue req) db;
            db2 = recoverExpiredJobLeases now locked (cl_queue req) (cl_limit req) db1;
            (claimed, db3) = claimJobsSQL env now locked claim req fresh db2
        in case scan_all claimed of
             Inl e \<Rightarrow> (Inl e, db)
           | Inr envelopes \<Rightarrow> (Inr envelopes, db3))"

section \<open>Heartbeat and finalization\<close>

definition stamp_matches :: "module_authority option \<Rightarrow> job_row \<Rightarrow> bool" where
  "stamp_matches claim m =
     (case claim of None \<Rightarrow> True | Some a \<Rightarrow> jm_consumer_authority m = Some (authority_attributes a))"

definition holds_live_lease ::
  "time \<Rightarrow> module_authority option \<Rightarrow> lease_ref \<Rightarrow> job_row \<Rightarrow> bool" where
  "holds_live_lease now claim ref m \<longleftrightarrow>
     jm_id m = lr_job_id ref \<and> jm_state m = PROCESSING \<and>
     jm_lease_owner m = Some (lr_worker_id ref) \<and> jm_lease_token m = Some (lr_lease_token ref) \<and>
     (case jm_lease_expires_at m of None \<Rightarrow> False | Some t \<Rightarrow> now < t) \<and> stamp_matches claim m"

definition lease_attempt :: "lease_ref \<Rightarrow> attempt_row \<Rightarrow> bool" where
  "lease_attempt ref a \<longleftrightarrow>
     at_job_id a = lr_job_id ref \<and> at_worker_id a = lr_worker_id ref \<and>
     at_lease_token a = lr_lease_token ref \<and> at_finished_at a = None"

definition module_lock_fails :: "job_env \<Rightarrow> module_authority option \<Rightarrow> bool" where
  "module_lock_fails env claim =
     (case claim of None \<Rightarrow> False | Some a \<Rightarrow> \<not> lock_module_job_authority env (authority_attributes a))"

definition Heartbeat ::
  "job_env \<Rightarrow> time \<Rightarrow> module_authority option \<Rightarrow> lease_ref \<Rightarrow> duration \<Rightarrow> job_db \<Rightarrow>
   (job_error + job_lease) \<times> job_db" where
  "Heartbeat env now claim ref extension db =
     (if \<not> valid_lease env ref then (Inl ErrInvalidCommand, db)
      else if module_lock_fails env claim then (Inl ErrRevokedAuthority, db)
      else
        let p = holds_live_lease now claim ref;
            db1 = update_messages now p
              (\<lambda>m. m\<lparr>jm_lease_expires_at := Some (now + extension), jm_heartbeat_at := Some now\<rparr>) db
        in if rows_affected p (job_messages db) = 0 then (Inl ErrLeaseLost, db)
           else if rows_affected (lease_attempt ref) (job_attempts db1) \<noteq> 1 then (Inl ErrNoOpenAttempt, db)
           else (Inr \<lparr>jl_owner = lr_worker_id ref, jl_token = lr_lease_token ref,
                      jl_expires_at = Some (now + extension), jl_heartbeat_at = Some now\<rparr>,
                 update_attempts (lease_attempt ref) (\<lambda>a. a\<lparr>at_heartbeat_at := now\<rparr>) db1))"

definition lockLiveJobLease ::
  "time \<Rightarrow> module_authority option \<Rightarrow> lease_ref \<Rightarrow> job_db \<Rightarrow> job_error + nat \<times> nat" where
  "lockLiveJobLease now claim ref db =
     (case select_first (holds_live_lease now claim ref) (job_messages db) of
        None \<Rightarrow> Inl ErrLeaseLost
      | Some m \<Rightarrow> Inr (jm_attempt_count m, jm_max_attempts m))"

record job_finalization =
  fz_state :: job_state
  fz_outcome :: string
  fz_failure :: "job_failure option"
  fz_execution :: "(string \<times> string \<times> string) option"
  fz_available :: "time option"

definition failure_code :: "job_finalization \<Rightarrow> string option" where
  "failure_code fz = map_option jf_code (fz_failure fz)"

definition failure_message :: "job_finalization \<Rightarrow> string option" where
  "failure_message fz =
     (case fz_failure fz of None \<Rightarrow> None | Some f \<Rightarrow> if jf_message f \<noteq> [] then Some (jf_message f) else None)"

definition finalized_row :: "time \<Rightarrow> job_finalization \<Rightarrow> job_row \<Rightarrow> job_row" where
  "finalized_row now fz m =
     (clear_lease m)\<lparr>
       jm_state := fz_state fz,
       jm_last_error_code := failure_code fz,
       jm_last_error_message := failure_message fz,
       jm_available_at :=
         (if fz_state fz = RETRYING then (case fz_available fz of None \<Rightarrow> jm_available_at m | Some t \<Rightarrow> t)
          else jm_available_at m),
       jm_completed_at := (if fz_state fz = SUCCEEDED then Some now else None),
       jm_dead_lettered_at := (if fz_state fz = DEAD_LETTER then Some now else None),
       jm_execution := fz_execution fz\<rparr>"

definition finalizeLockedJob ::
  "time \<Rightarrow> lease_ref \<Rightarrow> job_finalization \<Rightarrow> job_db \<Rightarrow> job_error + job_db" where
  "finalizeLockedJob now ref fz db =
     (let db1 = update_attempts (lease_attempt ref)
            (\<lambda>a. a\<lparr>at_outcome := Some (fz_outcome fz), at_error_code := failure_code fz,
                   at_error_message := failure_message fz,
                   at_heartbeat_at := max (at_heartbeat_at a) now, at_finished_at := Some now\<rparr>) db
      in if rows_affected (lease_attempt ref) (job_attempts db) \<noteq> 1 then Inl ErrNoOpenAttempt
         else rbind (DatabaseState (fz_state fz)) (\<lambda>_.
           let p = (\<lambda>m. jm_id m = lr_job_id ref \<and> jm_state m = PROCESSING \<and>
                        jm_lease_owner m = Some (lr_worker_id ref) \<and>
                        jm_lease_token m = Some (lr_lease_token ref))
           in if rows_affected p (job_messages db1) \<noteq> 1 then Inl ErrLeaseLost
              else Inr (update_messages now p (finalized_row now fz) db1)))"

definition commit :: "job_error + job_db \<Rightarrow> job_db \<Rightarrow> (job_error + unit) \<times> job_db" where
  "commit r db = (case r of Inl e \<Rightarrow> (Inl e, db) | Inr db' \<Rightarrow> (Inr (), db'))"

definition finalize ::
  "job_env \<Rightarrow> time \<Rightarrow> module_authority option \<Rightarrow> lease_ref \<Rightarrow> job_finalization \<Rightarrow> job_db \<Rightarrow>
   (job_error + unit) \<times> job_db" where
  "finalize env now claim ref fz db =
     commit (if module_lock_fails env claim then Inl ErrRevokedAuthority
             else rbind (lockLiveJobLease now claim ref db) (\<lambda>_. finalizeLockedJob now ref fz db)) db"

definition Complete ::
  "job_env \<Rightarrow> time \<Rightarrow> module_authority option \<Rightarrow> lease_ref \<Rightarrow> (string \<times> string \<times> string) option \<Rightarrow> job_db \<Rightarrow>
   (job_error + unit) \<times> job_db" where
  "Complete env now claim ref execution db =
     (if \<not> valid_lease env ref then (Inl ErrInvalidCommand, db)
      else finalize env now claim ref
        \<lparr>fz_state = SUCCEEDED, fz_outcome = ''succeeded'', fz_failure = None,
         fz_execution = execution, fz_available = None\<rparr> db)"

definition DeadLetter ::
  "job_env \<Rightarrow> time \<Rightarrow> module_authority option \<Rightarrow> lease_ref \<Rightarrow> job_failure \<Rightarrow> job_db \<Rightarrow>
   (job_error + unit) \<times> job_db" where
  "DeadLetter env now claim ref failure db =
     (if \<not> (valid_lease env ref \<and> valid_failure env failure) then (Inl ErrInvalidCommand, db)
      else finalize env now claim ref
        \<lparr>fz_state = DEAD_LETTER, fz_outcome = ''permanent_failure'', fz_failure = Some failure,
         fz_execution = None, fz_available = None\<rparr> db)"

definition finalizeRetry ::
  "job_env \<Rightarrow> time \<Rightarrow> module_authority option \<Rightarrow> lease_ref \<Rightarrow> job_failure \<Rightarrow> time \<Rightarrow> job_db \<Rightarrow>
   (job_error + job_state) \<times> job_db" where
  "finalizeRetry env now claim ref failure retry_at db =
     (if module_lock_fails env claim then (Inl ErrRevokedAuthority, db)
      else case lockLiveJobLease now claim ref db of
        Inl e \<Rightarrow> (Inl e, db)
      | Inr (attemptCount, maxAttempts) \<Rightarrow>
          let state = (if maxAttempts \<le> attemptCount then DEAD_LETTER else RETRYING)
          in case finalizeLockedJob now ref
                 \<lparr>fz_state = state, fz_outcome = ''retryable_failure'', fz_failure = Some failure,
                  fz_execution = None, fz_available = Some retry_at\<rparr> db of
               Inl e \<Rightarrow> (Inl e, db)
             | Inr db' \<Rightarrow> (Inr state, db'))"

definition Retry ::
  "job_env \<Rightarrow> time \<Rightarrow> module_authority option \<Rightarrow> lease_ref \<Rightarrow> job_failure \<Rightarrow> time \<Rightarrow> job_db \<Rightarrow>
   (job_error + job_state) \<times> job_db" where
  "Retry env now claim ref failure retry_at db =
     (if \<not> (valid_lease env ref \<and> valid_failure env failure) then (Inl ErrInvalidCommand, db)
      else finalizeRetry env now claim ref failure retry_at db)"

section \<open>Enqueue and replay\<close>

text \<open>
  \<^verbatim>\<open>pkg/infra/postgres_job_producer.go\<close>, \<^verbatim>\<open>replayJob\<close> of \<^verbatim>\<open>postgres_job_operations.go\<close>, and the
  SQL functions they call.  A session is the database role and the signed organization and
  user the connection carries.
\<close>

record db_session =
  ses_role :: string
  ses_org :: "uuid option"
  ses_user :: "uuid option"

record new_job =
  nj_direction :: job_direction
  nj_scope :: "job_scope option"
  nj_queue :: string
  nj_topic :: string
  nj_source :: string
  nj_idempotency_key :: string
  nj_ordering :: "ordering_key option"
  nj_schema_version :: nat
  nj_payload :: "string option"
  nj_content_type :: string
  nj_attributes :: attributes
  nj_priority :: int
  nj_max_attempts :: nat
  nj_available_at :: "time option"

record enqueue_env =
  EnqueueFingerprint :: "new_job \<Rightarrow> job_error + string"
  uuid_parse :: "string \<Rightarrow> uuid option"
  valid_key :: "ordering_key \<Rightarrow> bool"

definition enqueueScopeValues ::
  "(string \<Rightarrow> uuid option) \<Rightarrow> job_scope option \<Rightarrow> job_error + string \<times> uuid option \<times> uuid option" where
  "enqueueScopeValues parse scope =
     (case scope of
        Some (ScopeOrganization v) \<Rightarrow>
          (case parse v of None \<Rightarrow> Inl ErrInvalidScopeId | Some u \<Rightarrow> Inr (''tenant'', Some u, None))
      | Some (ScopeSubject v) \<Rightarrow>
          (case parse v of None \<Rightarrow> Inl ErrInvalidScopeId | Some u \<Rightarrow> Inr (''subject'', None, Some u))
      | Some ScopeGlobal \<Rightarrow> Inr (''global'', None, None)
      | None \<Rightarrow> Inl ErrInvalidCommand)"

definition int16 :: "int \<Rightarrow> int" where
  "int16 x = (x + 32768) mod 65536 - 32768"

text \<open>The columns the database fills on insertion (creation time, sequence, lineage) are left at zero.\<close>

definition prepareJobEnqueue :: "enqueue_env \<Rightarrow> new_job \<Rightarrow> job_error + job_spec \<times> time option" where
  "prepareJobEnqueue penv job =
     rbind (EnqueueFingerprint penv job) (\<lambda>fingerprint.
     rbind (DatabaseDirection (nj_direction job)) (\<lambda>direction.
     rbind (enqueueScopeValues (uuid_parse penv) (nj_scope job)) (\<lambda>(scopeKind, organizationID, subjectID).
     rbind (CanonicalOrderingKey (valid_key penv) (nj_ordering job)) (\<lambda>canonical.
     Inr (\<lparr>js_direction = direction, js_scope_kind = scopeKind,
           js_organization_id = organizationID, js_subject_id = subjectID,
           js_queue = nj_queue job, js_topic = nj_topic job, js_source = nj_source job,
           js_idempotency_key = nj_idempotency_key job, js_request_fingerprint = fingerprint,
           js_ordering_key = (if canonical \<noteq> [] then Some canonical else None),
           js_schema_version = nj_schema_version job,
           js_payload = (case nj_payload job of None \<Rightarrow> [] | Some p \<Rightarrow> p),
           js_content_type = nj_content_type job, js_attributes = nj_attributes job,
           js_max_attempts = nj_max_attempts job, js_replay_of = None,
           js_created_at = 0, js_enqueue_seq = 0, js_priority = int16 (nj_priority job)\<rparr>,
          nj_available_at job)))))"

definition same_idempotency :: "job_spec \<Rightarrow> job_spec \<Rightarrow> bool" where
  "same_idempotency a b \<longleftrightarrow>
     js_direction a = js_direction b \<and> js_scope_kind a = js_scope_kind b \<and>
     js_organization_id a = js_organization_id b \<and> js_subject_id a = js_subject_id b \<and>
     js_queue a = js_queue b \<and> js_source a = js_source b \<and>
     js_idempotency_key a = js_idempotency_key b"

definition new_row :: "time \<Rightarrow> uuid \<Rightarrow> nat \<Rightarrow> job_spec \<Rightarrow> time option \<Rightarrow> job_row" where
  "new_row now new_id seq sp available_at =
     \<lparr>jm_id = new_id, jm_spec = sp\<lparr>js_created_at := now, js_enqueue_seq := seq\<rparr>,
      jm_state = PENDING, jm_attempt_count = 0,
      jm_lease_owner = None, jm_lease_token = None, jm_lease_expires_at = None, jm_heartbeat_at = None,
      jm_last_error_code = None, jm_last_error_message = None,
      jm_available_at = (case available_at of None \<Rightarrow> now | Some t \<Rightarrow> t),
      jm_last_attempt_at = None, jm_completed_at = None, jm_dead_lettered_at = None,
      jm_state_version = 0, jm_updated_at = now, jm_execution = None, jm_consumer_authority = None\<rparr>"

definition insert_message :: "job_row \<Rightarrow> job_db \<Rightarrow> job_db" where
  "insert_message m db =
     db\<lparr>job_messages := job_messages db @ [m],
        job_state_transitions := job_state_transitions db @ [transition_entry None m]\<rparr>"

text \<open>\<^verbatim>\<open>INSERT .. ON CONFLICT DO NOTHING\<close> on the idempotency index, and the row that holds the identity.\<close>

definition insert_or_find ::
  "time \<Rightarrow> uuid \<Rightarrow> nat \<Rightarrow> job_spec \<Rightarrow> time option \<Rightarrow> job_db \<Rightarrow> (uuid \<times> string \<times> bool) \<times> job_db" where
  "insert_or_find now new_id seq sp available_at db =
     (case select_first (\<lambda>m. same_idempotency (jm_spec m) sp) (job_messages db) of
        None \<Rightarrow> ((new_id, js_request_fingerprint sp, True),
                 insert_message (new_row now new_id seq sp available_at) db)
      | Some m \<Rightarrow> ((jm_id m, js_request_fingerprint (jm_spec m), False), db))"

definition may_enqueue :: "db_session \<Rightarrow> job_spec \<Rightarrow> bool" where
  "may_enqueue ses sp =
     (if ses_role ses = ''app_tenant'' then
        js_direction sp = ''outbox'' \<and>
        ((js_scope_kind sp = ''tenant'' \<and> js_organization_id sp \<noteq> None \<and>
          js_organization_id sp = ses_org ses \<and> js_subject_id sp = None) \<or>
         (js_scope_kind sp = ''subject'' \<and> js_subject_id sp \<noteq> None \<and>
          js_subject_id sp = ses_user ses \<and> js_organization_id sp = None))
      else if ses_role ses = ''app_control_plane'' then
        js_direction sp = ''outbox'' \<and> js_scope_kind sp = ''global'' \<and>
        js_organization_id sp = None \<and> js_subject_id sp = None
      else ses_role ses = ''app_job_worker'')"

definition enqueue_job_message ::
  "db_session \<Rightarrow> time \<Rightarrow> uuid \<Rightarrow> nat \<Rightarrow> job_spec \<Rightarrow> time option \<Rightarrow> job_db \<Rightarrow>
   (job_error + uuid \<times> string \<times> bool) \<times> job_db" where
  "enqueue_job_message ses now new_id seq sp available_at db =
     (if \<not> may_enqueue ses sp then (Inl ErrInsufficientPrivilege, db)
      else case insert_or_find now new_id seq sp available_at db of (r, db') \<Rightarrow> (Inr r, db'))"

datatype enqueue_disposition = ENQUEUE_INSERTED | ENQUEUE_DUPLICATE

definition enqueue_response ::
  "string \<Rightarrow> (job_error + uuid \<times> string \<times> bool) \<times> job_db \<Rightarrow> job_db \<Rightarrow>
   (job_error + uuid \<times> enqueue_disposition) \<times> job_db" where
  "enqueue_response fingerprint r db =
     (case r of
        (Inl e, _) \<Rightarrow> (Inl e, db)
      | (Inr (job_id, stored, inserted), db') \<Rightarrow>
          if stored \<noteq> fingerprint then (Inl ErrIdempotencyConflict, db)
          else (Inr (job_id, if inserted then ENQUEUE_INSERTED else ENQUEUE_DUPLICATE), db'))"

definition insertPreparedJob ::
  "db_session \<Rightarrow> time \<Rightarrow> uuid \<Rightarrow> nat \<Rightarrow> job_spec \<Rightarrow> time option \<Rightarrow> job_db \<Rightarrow>
   (job_error + uuid \<times> enqueue_disposition) \<times> job_db" where
  "insertPreparedJob ses now new_id seq sp available_at db =
     enqueue_response (js_request_fingerprint sp)
       (enqueue_job_message ses now new_id seq sp available_at db) db"

definition enqueuePreparedJob ::
  "job_env \<Rightarrow> db_session \<Rightarrow> time \<Rightarrow> uuid \<Rightarrow> nat \<Rightarrow> job_spec \<Rightarrow> time option \<Rightarrow> job_db \<Rightarrow>
   (job_error + uuid \<times> enqueue_disposition) \<times> job_db" where
  "enqueuePreparedJob env ses now new_id seq sp available_at db =
     (if coalesce (js_attributes sp ''codefly.installation_id'') \<noteq> [] \<and>
         \<not> lock_module_job_authority env (js_attributes sp)
      then (Inl ErrRevokedAuthority, db)
      else insertPreparedJob ses now new_id seq sp available_at db)"

text \<open>\<^verbatim>\<open>PostgresStore.EnqueueJob\<close> refuses a context with no open transaction.\<close>

definition EnqueueJob ::
  "enqueue_env \<Rightarrow> job_env \<Rightarrow> db_session option \<Rightarrow> time \<Rightarrow> uuid \<Rightarrow> nat \<Rightarrow> new_job \<Rightarrow> job_db \<Rightarrow>
   (job_error + uuid \<times> enqueue_disposition) \<times> job_db" where
  "EnqueueJob penv env tx now new_id seq job db =
     (case prepareJobEnqueue penv job of
        Inl e \<Rightarrow> (Inl e, db)
      | Inr (sp, available_at) \<Rightarrow>
          (case tx of
             None \<Rightarrow> (Inl ErrTransactionRequired, db)
           | Some ses \<Rightarrow> enqueuePreparedJob env ses now new_id seq sp available_at db))"

definition replay_job_message ::
  "db_session \<Rightarrow> time \<Rightarrow> uuid \<Rightarrow> nat \<Rightarrow> uuid \<Rightarrow> string \<Rightarrow> time option \<Rightarrow> string \<Rightarrow> job_db \<Rightarrow>
   (job_error + uuid \<times> string \<times> bool) \<times> job_db" where
  "replay_job_message ses now new_id seq source_id key available_at fingerprint db =
     (if ses_role ses \<noteq> ''app_job_worker'' then (Inl ErrInsufficientPrivilege, db)
      else case select_first (\<lambda>m. jm_id m = source_id) (job_messages db) of
        None \<Rightarrow> (Inl ErrJobNotFound, db)
      | Some src \<Rightarrow>
          if jm_state src \<noteq> DEAD_LETTER then (Inl ErrReplayNotAllowed, db)
          else case insert_or_find now new_id seq
                 ((jm_spec src)\<lparr>js_idempotency_key := key, js_request_fingerprint := fingerprint,
                    js_replay_of := Some (jm_id src)\<rparr>) available_at db
               of (r, db') \<Rightarrow> (Inr r, db'))"

definition replayJob ::
  "(job_error + string) \<Rightarrow> db_session \<Rightarrow> time \<Rightarrow> uuid \<Rightarrow> nat \<Rightarrow> uuid \<Rightarrow> string \<Rightarrow> time option \<Rightarrow> job_db \<Rightarrow>
   (job_error + uuid \<times> enqueue_disposition) \<times> job_db" where
  "replayJob fingerprint ses now new_id seq source_id key available_at db =
     (case fingerprint of
        Inl e \<Rightarrow> (Inl e, db)
      | Inr f \<Rightarrow> enqueue_response f
          (replay_job_message ses now new_id seq source_id key available_at f db) db)"

end
