(* ===== verification/Job_Invariants.thy ===== *)
theory Job_Invariants
  imports Job_Store
begin

text \<open>
  What the job store keeps.  The tables are read one job at a time: a job's view is its row,
  its attempts and its transition log.  Every transaction acts on every view by the moves
  of \<^verbatim>\<open>job_move\<close> (claim, expire, cancel, heartbeat, finalize), so the lifecycle, lease and
  history invariants are proved once, per move, and hold of every reachable database.
\<close>

section \<open>Views\<close>

record job_view =
  v_row :: "job_row option"
  v_attempts :: "attempt_row list"
  v_log :: "transition_row list"

definition view :: "job_db \<Rightarrow> uuid \<Rightarrow> job_view" where
  "view db i =
     \<lparr>v_row = select_first (\<lambda>m. jm_id m = i) (job_messages db),
      v_attempts = filter (\<lambda>a. at_job_id a = i) (job_attempts db),
      v_log = filter (\<lambda>t. tr_job_id t = i) (job_state_transitions db)\<rparr>"

definition rows_distinct :: "job_db \<Rightarrow> bool" where
  "rows_distinct db \<longleftrightarrow> distinct (map jm_id (job_messages db))"

lemma view_rowD:
  assumes "v_row (view db i) = Some m"
  shows "m \<in> set (job_messages db)" "jm_id m = i"
  using assms select_first_Some [of "\<lambda>m. jm_id m = i" "job_messages db" m] by (auto simp: view_def)

lemma view_row_None: "v_row (view db i) = None \<longleftrightarrow> (\<forall>m \<in> set (job_messages db). jm_id m \<noteq> i)"
  by (simp add: view_def select_first_None)

lemma view_row_iff:
  assumes "rows_distinct db"
  shows "v_row (view db i) = Some m \<longleftrightarrow> m \<in> set (job_messages db) \<and> jm_id m = i"
proof
  assume "m \<in> set (job_messages db) \<and> jm_id m = i"
  then show "v_row (view db i) = Some m"
    using assms select_first_unique [of jm_id "job_messages db" m "\<lambda>m. jm_id m = i"]
    by (auto simp: view_def rows_distinct_def)
qed (auto dest: view_rowD)

lemma enforce_simps [simp]:
  "jm_id (enforce_job_message_state now old new) = jm_id new"
  "jm_spec (enforce_job_message_state now old new) = jm_spec new"
  "jm_state (enforce_job_message_state now old new) = jm_state new"
  "jm_attempt_count (enforce_job_message_state now old new) = jm_attempt_count new"
  "jm_lease_owner (enforce_job_message_state now old new) = jm_lease_owner new"
  "jm_lease_token (enforce_job_message_state now old new) = jm_lease_token new"
  "jm_lease_expires_at (enforce_job_message_state now old new) = jm_lease_expires_at new"
  "jm_heartbeat_at (enforce_job_message_state now old new) = jm_heartbeat_at new"
  "jm_last_error_code (enforce_job_message_state now old new) = jm_last_error_code new"
  "jm_completed_at (enforce_job_message_state now old new) = jm_completed_at new"
  "jm_dead_lettered_at (enforce_job_message_state now old new) = jm_dead_lettered_at new"
  "jm_available_at (enforce_job_message_state now old new) = jm_available_at new"
  "jm_consumer_authority (enforce_job_message_state now old new) = jm_consumer_authority new"
  "jm_state_version (enforce_job_message_state now old new) =
     (if jm_state new \<noteq> jm_state old then jm_state_version old + 1 else jm_state_version old)"
  by (simp_all add: enforce_job_message_state_def)

lemma select_first_update_where:
  assumes "\<And>m. p m \<Longrightarrow> jm_id (f m) = jm_id m"
  shows "select_first (\<lambda>m. jm_id m = i) (update_where p f rows) =
    map_option (\<lambda>m. if p m then f m else m) (select_first (\<lambda>m. jm_id m = i) rows)"
  using assms by (induction rows) (auto simp: select_first_def)

lemma append_transition_id:
  "t \<in> set (append_job_state_transition old new) \<Longrightarrow> tr_job_id t = jm_id new"
  by (auto simp: append_job_state_transition_def transition_entry_def split: if_splits)

lemma filter_entries:
  "filter (\<lambda>t. tr_job_id t = i) (append_job_state_transition old new) =
     (if jm_id new = i then append_job_state_transition old new else [])"
  by (auto simp: append_job_state_transition_def transition_entry_def)

lemma log_update_where:
  assumes "distinct (map jm_id rows)" "\<And>m. p m \<Longrightarrow> jm_id (f m) = jm_id m"
  shows "filter (\<lambda>t. tr_job_id t = i)
       (concat (map (\<lambda>m. append_job_state_transition m (f m)) (filter p rows))) =
    (case select_first (\<lambda>m. jm_id m = i) rows of
       None \<Rightarrow> [] | Some m \<Rightarrow> if p m then append_job_state_transition m (f m) else [])"
  using assms(1)
proof (induction rows)
  case (Cons m rows)
  have "select_first (\<lambda>m. jm_id m = i) rows = None" if "jm_id m = i"
    using Cons.prems that by (auto simp: select_first_None image_iff)
  then show ?case
    using Cons assms(2) [of m] by (auto simp: select_first_def filter_entries split: option.splits)
qed (simp add: select_first_def)

lemma view_update_messages:
  assumes "rows_distinct db" "\<And>m. p m \<Longrightarrow> jm_id (f m) = jm_id m"
  shows "view (update_messages now p f db) i = (case v_row (view db i) of
      None \<Rightarrow> view db i
    | Some m \<Rightarrow> if p m
        then let m' = enforce_job_message_state now m (f m) in
          (view db i)\<lparr>v_row := Some m', v_log := v_log (view db i) @ append_job_state_transition m m'\<rparr>
        else view db i)"
  using assms
  by (auto simp: view_def update_messages_def select_first_update_where rows_distinct_def Let_def
      log_update_where [where f = "\<lambda>m. enforce_job_message_state now m (f m)"] split: option.splits)

lemma view_update_attempts:
  assumes "\<And>a. q a \<Longrightarrow> at_job_id (g a) = at_job_id a"
  shows "view (update_attempts q g db) i =
    (view db i)\<lparr>v_attempts := update_where q g (v_attempts (view db i))\<rparr>"
  using assms by (simp add: view_def update_attempts_def filter_update_where)

lemma rows_distinct_update_messages:
  assumes "\<And>m. p m \<Longrightarrow> jm_id (f m) = jm_id m"
  shows "rows_distinct (update_messages now p f db) \<longleftrightarrow> rows_distinct db"
  using assms by (simp add: rows_distinct_def update_messages_def map_update_where)

lemma rows_distinct_update_attempts [simp]:
  "rows_distinct (update_attempts q g db) \<longleftrightarrow> rows_distinct db"
  by (simp add: rows_distinct_def update_attempts_def)

section \<open>Invariant of one job\<close>

definition lease_check :: "job_row \<Rightarrow> bool" where
  "lease_check m \<longleftrightarrow>
     (if jm_state m = PROCESSING
      then jm_lease_owner m \<noteq> None \<and> jm_lease_token m \<noteq> None \<and>
           jm_lease_expires_at m \<noteq> None \<and> jm_heartbeat_at m \<noteq> None
      else jm_lease_owner m = None \<and> jm_lease_token m = None \<and>
           jm_lease_expires_at m = None \<and> jm_heartbeat_at m = None)"

definition attempts_check :: "job_row \<Rightarrow> bool" where
  "attempts_check m \<longleftrightarrow>
     1 \<le> jm_max_attempts m \<and> jm_attempt_count m \<le> jm_max_attempts m \<and>
     (jm_state m \<in> {PROCESSING, RETRYING, SUCCEEDED, DEAD_LETTER} \<longrightarrow> 0 < jm_attempt_count m) \<and>
     (jm_state m = PENDING \<longrightarrow> jm_attempt_count m = 0) \<and>
     (jm_state m = RETRYING \<longrightarrow> jm_attempt_count m < jm_max_attempts m)"

definition timestamps_check :: "job_row \<Rightarrow> bool" where
  "timestamps_check m \<longleftrightarrow>
     (jm_state m \<in> {SUCCEEDED, CANCELED} \<longleftrightarrow> jm_completed_at m \<noteq> None) \<and>
     (jm_state m = DEAD_LETTER \<longleftrightarrow> jm_dead_lettered_at m \<noteq> None)"

definition spec_ok :: "job_spec \<Rightarrow> bool" where
  "spec_ok sp \<longleftrightarrow>
     js_direction sp \<in> {''inbox'', ''outbox''} \<and> js_scope_kind sp \<in> {''tenant'', ''subject'', ''global''} \<and>
     1 \<le> js_max_attempts sp"

definition row_ok :: "job_row \<Rightarrow> bool" where
  "row_ok m \<longleftrightarrow>
     spec_ok (jm_spec m) \<and> (active m \<or> IsTerminal (jm_state m)) \<and> lease_check m \<and> attempts_check m \<and> timestamps_check m"

abbreviation finished :: "attempt_row \<Rightarrow> bool" where
  "finished a \<equiv> at_finished_at a \<noteq> None"

definition outcome_ok :: "attempt_row \<Rightarrow> bool" where
  "outcome_ok a \<longleftrightarrow>
     (case at_outcome a of
        None \<Rightarrow> at_finished_at a = None
      | Some v \<Rightarrow> at_finished_at a \<noteq> None \<and>
          v \<in> {''succeeded'', ''retryable_failure'', ''permanent_failure'', ''lease_expired'', ''canceled''})"

definition attempts_ok :: "job_row \<Rightarrow> attempt_row list \<Rightarrow> bool" where
  "attempts_ok m as \<longleftrightarrow>
     map at_number as = [1..<jm_attempt_count m + 1] \<and>
     distinct (map at_lease_token as) \<and>
     (\<forall>a \<in> set as. at_job_id a = jm_id m \<and> outcome_ok a) \<and>
     (if jm_state m = PROCESSING
      then (\<exists>past a. as = past @ [a] \<and> (\<forall>x \<in> set past. finished x) \<and> \<not> finished a \<and>
             jm_lease_owner m = Some (at_worker_id a) \<and> jm_lease_token m = Some (at_lease_token a))
      else \<forall>a \<in> set as. finished a)"

definition legal_entry :: "transition_row \<Rightarrow> transition_row \<Rightarrow> bool" where
  "legal_entry s t \<longleftrightarrow>
     tr_from t = Some (tr_to s) \<and> CanTransition (tr_to s) (tr_to t) \<and>
     tr_state_version t = tr_state_version s + 1"

definition log_ok :: "job_row \<Rightarrow> transition_row list \<Rightarrow> bool" where
  "log_ok m ts \<longleftrightarrow>
     (\<exists>t rest. ts = t # rest \<and> tr_from t = None \<and> tr_to t = PENDING \<and> tr_state_version t = 0) \<and>
     successively legal_entry ts \<and>
     tr_to (last ts) = jm_state m \<and> tr_state_version (last ts) = jm_state_version m"

definition view_ok :: "job_view \<Rightarrow> bool" where
  "view_ok v \<longleftrightarrow>
     (case v_row v of
        None \<Rightarrow> v_attempts v = [] \<and> v_log v = []
      | Some m \<Rightarrow> row_ok m \<and> attempts_ok m (v_attempts v) \<and> log_ok m (v_log v))"

definition db_ok :: "job_db \<Rightarrow> bool" where
  "db_ok db \<longleftrightarrow> rows_distinct db \<and> (\<forall>i. view_ok (view db i))"

section \<open>Moves\<close>

text \<open>How a job leaves processing, or is cancelled: the lease is gone and the version has moved on.\<close>

definition closed_row :: "job_row \<Rightarrow> job_row \<Rightarrow> bool" where
  "closed_row m m' \<longleftrightarrow>
     jm_id m' = jm_id m \<and> jm_spec m' = jm_spec m \<and> jm_attempt_count m' = jm_attempt_count m \<and>
     CanTransition (jm_state m) (jm_state m') \<and> jm_state m' \<noteq> PROCESSING \<and>
     (jm_state m' = RETRYING \<longrightarrow> jm_attempt_count m < jm_max_attempts m) \<and>
     lease_check m' \<and> timestamps_check m' \<and> jm_state_version m' = jm_state_version m + 1"

definition same_attempt :: "attempt_row \<Rightarrow> attempt_row \<Rightarrow> bool" where
  "same_attempt a b \<longleftrightarrow>
     at_job_id b = at_job_id a \<and> at_number b = at_number a \<and> at_worker_id b = at_worker_id a \<and>
     at_lease_token b = at_lease_token a \<and> at_started_at b = at_started_at a"

definition closes_open :: "(attempt_row \<Rightarrow> bool) \<Rightarrow> (attempt_row \<Rightarrow> attempt_row) \<Rightarrow> attempt_row list \<Rightarrow> bool" where
  "closes_open q g as \<longleftrightarrow>
     (\<forall>a. same_attempt a (g a) \<and> finished (g a) \<and> outcome_ok (g a)) \<and>
     (\<forall>a. q a \<longrightarrow> \<not> finished a) \<and> (\<forall>a \<in> set as. \<not> finished a \<longrightarrow> q a)"

definition beats_open :: "(attempt_row \<Rightarrow> attempt_row) \<Rightarrow> bool" where
  "beats_open g \<longleftrightarrow> (\<forall>a. same_attempt a (g a) \<and> at_finished_at (g a) = at_finished_at a \<and> at_outcome (g a) = at_outcome a)"

definition heartbeat_row :: "job_row \<Rightarrow> job_row \<Rightarrow> bool" where
  "heartbeat_row m m' \<longleftrightarrow>
     jm_id m' = jm_id m \<and> jm_spec m' = jm_spec m \<and> jm_state m' = jm_state m \<and>
     jm_attempt_count m' = jm_attempt_count m \<and> jm_lease_owner m' = jm_lease_owner m \<and>
     jm_lease_token m' = jm_lease_token m \<and> jm_lease_expires_at m' \<noteq> None \<and>
     jm_heartbeat_at m' \<noteq> None \<and> jm_completed_at m' = jm_completed_at m \<and>
     jm_dead_lettered_at m' = jm_dead_lettered_at m \<and> jm_state_version m' = jm_state_version m"

inductive job_move :: "job_view \<Rightarrow> job_view \<Rightarrow> bool" where
  claimed: "\<lbrakk>jm_state m = PENDING \<or> jm_state m = RETRYING; jm_attempt_count m < jm_max_attempts m;
     fresh (jm_id m) \<notin> at_lease_token ` set as;
     m' = enforce_job_message_state now m (claim_row now claim req fresh m)\<rbrakk> \<Longrightarrow>
   job_move \<lparr>v_row = Some m, v_attempts = as, v_log = ts\<rparr>
     \<lparr>v_row = Some m', v_attempts = as @ [open_attempt now req m'],
      v_log = ts @ append_job_state_transition m m'\<rparr>"
| closed: "\<lbrakk>active m; closed_row m m'; closes_open q g as\<rbrakk> \<Longrightarrow>
   job_move \<lparr>v_row = Some m, v_attempts = as, v_log = ts\<rparr>
     \<lparr>v_row = Some m', v_attempts = update_where q g as,
      v_log = ts @ append_job_state_transition m m'\<rparr>"
| beaten: "\<lbrakk>jm_state m = PROCESSING; heartbeat_row m m'; beats_open g\<rbrakk> \<Longrightarrow>
   job_move \<lparr>v_row = Some m, v_attempts = as, v_log = ts\<rparr>
     \<lparr>v_row = Some m', v_attempts = update_where q g as, v_log = ts\<rparr>"
| enqueued: "m = new_row now i seq sp available_at \<Longrightarrow> spec_ok sp \<Longrightarrow>
   job_move \<lparr>v_row = None, v_attempts = [], v_log = []\<rparr>
     \<lparr>v_row = Some m, v_attempts = [], v_log = [transition_entry None m]\<rparr>"

inductive_cases job_moveE: "job_move v v'"

lemma active_iff: "active m \<longleftrightarrow> jm_state m \<in> {PENDING, PROCESSING, RETRYING}"
  by (auto simp: active_def)

lemma log_ok_step:
  assumes "log_ok m ts" "jm_state m' \<noteq> jm_state m" "CanTransition (jm_state m) (jm_state m')"
    and "jm_state_version m' = jm_state_version m + 1"
  shows "log_ok m' (ts @ append_job_state_transition m m')"
  using assms
  by (auto simp: log_ok_def append_job_state_transition_def transition_entry_def
      successively_append_iff legal_entry_def)

lemma CanTransition_cases:
  assumes "CanTransition s t"
  obtains "s \<in> {PENDING, RETRYING}" "t = PROCESSING"
    | "s \<in> {PENDING, PROCESSING, RETRYING}" "t = CANCELED"
    | "s = PROCESSING" "t \<in> {RETRYING, SUCCEEDED, DEAD_LETTER}"
  using assms by (cases s) (auto simp: CanTransition_def)

lemma closed_row_ok:
  assumes closed: "closed_row m m'" and ok: "row_ok m"
  shows "row_ok m'"
proof -
  have same: "jm_spec m' = jm_spec m" "jm_attempt_count m' = jm_attempt_count m"
    and checks: "lease_check m'" "timestamps_check m'"
    using closed by (simp_all add: closed_row_def)
  have "CanTransition (jm_state m) (jm_state m')" using closed by (simp add: closed_row_def)
  then have "attempts_check m' \<and> (active m' \<or> IsTerminal (jm_state m'))"
  proof (cases rule: CanTransition_cases)
    case 1
    then show ?thesis using closed by (simp add: closed_row_def)
  next
    case 2
    then show ?thesis
      using ok same by (simp add: row_ok_def attempts_check_def IsTerminal_def)
  next
    case 3
    then show ?thesis
      using ok same closed
      by (auto simp: row_ok_def attempts_check_def IsTerminal_def active_def closed_row_def)
  qed
  then show ?thesis using checks ok same by (simp add: row_ok_def)
qed

lemma closed_attempts_ok:
  assumes "attempts_ok m as" "closed_row m m'" "closes_open q g as"
  shows "attempts_ok m' (update_where q g as)"
proof -
  have g: "same_attempt a (g a)" "finished (g a)" "outcome_ok (g a)" for a
    using assms(3) by (auto simp: closes_open_def)
  have "map at_number (update_where q g as) = map at_number as"
    "map at_lease_token (update_where q g as) = map at_lease_token as"
    using g by (auto intro!: map_update_where simp: same_attempt_def)
  moreover have "finished x \<and> at_job_id x = jm_id m' \<and> outcome_ok x" if x: "x \<in> set (update_where q g as)" for x
  proof -
    obtain a where a: "a \<in> set as" "x = (if q a then g a else a)" using x by (rule in_update_whereE)
    have "at_job_id a = jm_id m'" "outcome_ok a" "\<not> finished a \<longrightarrow> q a"
      using assms a(1) by (simp_all add: attempts_ok_def closed_row_def closes_open_def)
    then show ?thesis using a(2) g [of a] by (cases "q a") (simp_all add: same_attempt_def)
  qed
  ultimately show ?thesis
    using assms(1,2) by (simp add: attempts_ok_def closed_row_def)
qed

lemma beaten_attempts_ok:
  assumes "attempts_ok m as" "jm_state m = PROCESSING" "heartbeat_row m m'" "beats_open g"
  shows "attempts_ok m' (update_where q g as)"
proof -
  have g: "same_attempt a (g a)" "at_finished_at (g a) = at_finished_at a" "at_outcome (g a) = at_outcome a" for a
    using assms(4) by (auto simp: beats_open_def)
  have g_ok: "outcome_ok (g a) \<longleftrightarrow> outcome_ok a" for a by (simp only: outcome_ok_def g(2,3))
  have maps: "map at_number (update_where q g as) = map at_number as"
    "map at_lease_token (update_where q g as) = map at_lease_token as"
    using g by (auto intro!: map_update_where simp: same_attempt_def)
  obtain past a where as: "as = past @ [a]" "\<forall>x \<in> set past. finished x" "\<not> finished a"
    "jm_lease_owner m = Some (at_worker_id a)" "jm_lease_token m = Some (at_lease_token a)"
    using assms(1,2) by (auto simp: attempts_ok_def)
  have "update_where q g as = update_where q g past @ [if q a then g a else a]"
    by (simp add: as update_where_def)
  moreover have "\<forall>x \<in> set (update_where q g past). finished x"
    using as g by (auto simp: set_update_where)
  ultimately have "\<exists>past' a'. update_where q g as = past' @ [a'] \<and> (\<forall>x \<in> set past'. finished x) \<and>
      \<not> finished a' \<and> jm_lease_owner m = Some (at_worker_id a') \<and> jm_lease_token m = Some (at_lease_token a')"
    using as g [of a] by (intro exI [of _ "update_where q g past"] exI [of _ "if q a then g a else a"])
      (auto simp: same_attempt_def)
  moreover have "\<forall>x \<in> set (update_where q g as). at_job_id x = jm_id m \<and> outcome_ok x"
  proof
    fix x assume "x \<in> set (update_where q g as)"
    then obtain a where a: "a \<in> set as" "x = (if q a then g a else a)" by (rule in_update_whereE)
    have "at_job_id a = jm_id m \<and> outcome_ok a" using assms(1) a(1) by (simp add: attempts_ok_def)
    then show "at_job_id x = jm_id m \<and> outcome_ok x"
      using a(2) g(1) [of a] g_ok [of a] by (cases "q a") (simp_all add: same_attempt_def)
  qed
  ultimately show ?thesis
    using assms(1,2,3) maps by (simp add: attempts_ok_def heartbeat_row_def)
qed

lemma claimed_attempts_ok:
  assumes "attempts_ok m as" "jm_state m \<noteq> PROCESSING" "fresh (jm_id m) \<notin> at_lease_token ` set as"
    and "m' = enforce_job_message_state now m (claim_row now claim req fresh m)"
  shows "attempts_ok m' (as @ [open_attempt now req m'])"
proof -
  have m': "jm_state m' = PROCESSING" "jm_attempt_count m' = Suc (jm_attempt_count m)"
    "jm_id m' = jm_id m" "jm_lease_owner m' = Some (cl_worker_id req)"
    "jm_lease_token m' = Some (fresh (jm_id m))"
    using assms(4) by (simp_all add: claim_row_def)
  have a: "at_number (open_attempt now req m') = Suc (jm_attempt_count m)"
    "at_lease_token (open_attempt now req m') = fresh (jm_id m)"
    "at_job_id (open_attempt now req m') = jm_id m" "\<not> finished (open_attempt now req m')"
    "at_worker_id (open_attempt now req m') = cl_worker_id req"
    using m' by (simp_all add: open_attempt_def)
  have "at_finished_at (open_attempt now req m') = None" "outcome_ok (open_attempt now req m')"
    by (simp_all add: open_attempt_def outcome_ok_def)
  moreover have "map at_number as = [1..<jm_attempt_count m + 1]" "distinct (map at_lease_token as)"
    "\<forall>a \<in> set as. at_job_id a = jm_id m \<and> outcome_ok a" "\<forall>a \<in> set as. finished a"
    using assms(1,2) by (simp_all add: attempts_ok_def)
  ultimately show ?thesis
    using assms(3) unfolding attempts_ok_def by (simp add: m' a)
qed

lemma job_move_ok: "job_move v v' \<Longrightarrow> view_ok v \<Longrightarrow> view_ok v'"
proof (induction rule: job_move.induct)
  case (claimed m fresh as m' now claim req ts)
  then have ok: "row_ok m" "attempts_ok m as" "log_ok m ts" by (auto simp: view_ok_def)
  have "row_ok m'"
    using claimed(1,2) ok(1) unfolding claimed(4)
    by (elim disjE; simp add: row_ok_def claim_row_def active_def lease_check_def attempts_check_def
        timestamps_check_def)
  moreover have "attempts_ok m' (as @ [open_attempt now req m'])"
    using claimed ok(2) by (intro claimed_attempts_ok) auto
  moreover have "log_ok m' (ts @ append_job_state_transition m m')"
    using claimed ok(3) by (intro log_ok_step) (auto simp: claim_row_def CanTransition_def)
  ultimately show ?case by (simp add: view_ok_def)
next
  case (closed m m' q g as ts)
  then have ok: "row_ok m" "attempts_ok m as" "log_ok m ts" by (auto simp: view_ok_def)
  have "CanTransition (jm_state m) (jm_state m')" using closed by (simp add: closed_row_def)
  then have "jm_state m' \<noteq> jm_state m" using CanTransition_irrefl by metis
  then have "log_ok m' (ts @ append_job_state_transition m m')"
    using closed ok(3) by (intro log_ok_step) (auto simp: closed_row_def)
  then show ?case
    using closed ok by (simp add: view_ok_def closed_row_ok closed_attempts_ok)
next
  case (beaten m m' g as ts q)
  then have ok: "row_ok m" "attempts_ok m as" "log_ok m ts" by (auto simp: view_ok_def)
  have "row_ok m'"
    using beaten ok(1)
    by (simp add: row_ok_def heartbeat_row_def active_def lease_check_def attempts_check_def
        timestamps_check_def)
  moreover have "log_ok m' ts"
    using beaten ok(3) by (simp add: heartbeat_row_def log_ok_def)
  ultimately show ?case using beaten ok beaten_attempts_ok by (simp add: view_ok_def)
next
  case (enqueued m now i seq sp available_at)
  then show ?case
    by (simp add: view_ok_def new_row_def row_ok_def active_def lease_check_def attempts_check_def
        timestamps_check_def attempts_ok_def log_ok_def transition_entry_def spec_ok_def)
qed

text \<open>What a move keeps of the row: identity, and the legal order of states.\<close>

definition row_evolves :: "job_row option \<Rightarrow> job_row option \<Rightarrow> bool" where
  "row_evolves r r' \<longleftrightarrow>
     (case r of
        None \<Rightarrow> True
      | Some m \<Rightarrow> (\<exists>m'. r' = Some m' \<and> jm_id m' = jm_id m \<and> jm_spec m' = jm_spec m \<and>
          lifecycle (jm_state m) (jm_state m') \<and> jm_attempt_count m \<le> jm_attempt_count m' \<and>
          (IsTerminal (jm_state m) \<longrightarrow> m' = m)))"

lemma row_evolves_refl: "row_evolves r r"
  by (auto simp: row_evolves_def intro: lifecycle.created split: option.splits)

lemma row_evolves_trans:
  assumes "row_evolves r r'" "row_evolves r' r''"
  shows "row_evolves r r''"
proof (cases r)
  case (Some m)
  obtain m' where m': "r' = Some m'" "jm_id m' = jm_id m" "jm_spec m' = jm_spec m"
    "lifecycle (jm_state m) (jm_state m')" "jm_attempt_count m \<le> jm_attempt_count m'"
    "IsTerminal (jm_state m) \<longrightarrow> m' = m"
    using assms(1) Some by (auto simp: row_evolves_def)
  obtain m'' where m'': "r'' = Some m''" "jm_id m'' = jm_id m'" "jm_spec m'' = jm_spec m'"
    "lifecycle (jm_state m') (jm_state m'')" "jm_attempt_count m' \<le> jm_attempt_count m''"
    "IsTerminal (jm_state m') \<longrightarrow> m'' = m'"
    using assms(2) m'(1) by (auto simp: row_evolves_def)
  have "IsTerminal (jm_state m) \<longrightarrow> m'' = m" using m'(6) m''(6) by metis
  moreover have "lifecycle (jm_state m) (jm_state m'')" using m'(4) m''(4) lifecycle_trans by blast
  ultimately show ?thesis
    using Some m'(2,3,5) m''(1,2,3,5) by (simp add: row_evolves_def)
qed (simp add: row_evolves_def)

lemma job_move_evolves: "job_move v v' \<Longrightarrow> row_evolves (v_row v) (v_row v')"
proof (induction rule: job_move.induct)
  case (claimed m fresh as m' now claim req ts)
  then have "CanTransition (jm_state m) (jm_state m')" by (auto simp: claim_row_def CanTransition_def)
  then have "lifecycle (jm_state m) (jm_state m')" by (intro lifecycle.moved [OF lifecycle.created])
  then show ?case
    using claimed(1) unfolding claimed(4)
    by (elim disjE; simp add: row_evolves_def claim_row_def IsTerminal_def)
next
  case (closed m m' q g as ts)
  then have "lifecycle (jm_state m) (jm_state m')"
    by (intro lifecycle.moved [OF lifecycle.created]) (simp add: closed_row_def)
  then show ?case
    using closed(1,2) unfolding active_def
    by (elim disjE; simp add: row_evolves_def closed_row_def IsTerminal_def)
next
  case (beaten m m' g as ts q)
  then show ?case by (simp add: row_evolves_def heartbeat_row_def IsTerminal_def lifecycle.created)
qed (simp add: row_evolves_def)

lemma job_moves_ok: "job_move\<^sup>*\<^sup>* v v' \<Longrightarrow> view_ok v \<Longrightarrow> view_ok v'"
  by (induction rule: rtranclp_induct) (auto dest: job_move_ok)

lemma job_moves_evolve: "job_move\<^sup>*\<^sup>* v v' \<Longrightarrow> row_evolves (v_row v) (v_row v')"
  by (induction rule: rtranclp_induct)
    (auto intro: row_evolves_refl row_evolves_trans job_move_evolves)

end
