(* ===== verification/Job_Reach.thy ===== *)
theory Job_Reach
  imports Job_Invariants
begin

text \<open>
  Every transaction of the job store acts on every job by moves of \<^const>\<open>job_move\<close>, so the
  invariant \<^const>\<open>db_ok\<close> holds of every database the store can reach.
\<close>

section \<open>Transactions as moves\<close>

definition db_moves :: "job_db \<Rightarrow> job_db \<Rightarrow> bool" where
  "db_moves db db' \<longleftrightarrow> rows_distinct db' \<and> (\<forall>i. job_move\<^sup>*\<^sup>* (view db i) (view db' i))"

lemma db_moves_refl: "db_ok db \<Longrightarrow> db_moves db db"
  by (simp add: db_moves_def db_ok_def)

lemma db_moves_trans: "db_moves db db1 \<Longrightarrow> db_moves db1 db2 \<Longrightarrow> db_moves db db2"
  unfolding db_moves_def by (meson rtranclp_trans)

lemma db_moves_ok: "db_moves db db' \<Longrightarrow> db_ok db \<Longrightarrow> db_ok db'"
  unfolding db_moves_def db_ok_def using job_moves_ok by blast

lemma db_moves_evolve: "db_moves db db' \<Longrightarrow> row_evolves (v_row (view db i)) (v_row (view db' i))"
  unfolding db_moves_def using job_moves_evolve by blast

lemma db_okD:
  assumes "db_ok db" "v_row (view db i) = Some m"
  shows "row_ok m" "attempts_ok m (v_attempts (view db i))" "log_ok m (v_log (view db i))"
proof -
  have "view_ok (view db i)" using assms(1) by (simp add: db_ok_def)
  then show "row_ok m" "attempts_ok m (v_attempts (view db i))" "log_ok m (v_log (view db i))"
    using assms(2) by (simp_all add: view_ok_def)
qed

lemma db_ok_row:
  assumes "db_ok db" "m \<in> set (job_messages db)"
  shows "v_row (view db (jm_id m)) = Some m" "row_ok m"
    "attempts_ok m (v_attempts (view db (jm_id m)))" "log_ok m (v_log (view db (jm_id m)))"
proof -
  show v: "v_row (view db (jm_id m)) = Some m"
    using assms view_row_iff by (simp add: db_ok_def)
  show "row_ok m" "attempts_ok m (v_attempts (view db (jm_id m)))" "log_ok m (v_log (view db (jm_id m)))"
    using db_okD [OF assms(1) v] by simp_all
qed

lemma db_ok_no_row:
  assumes "db_ok db" "v_row (view db i) = None"
  shows "view db i = \<lparr>v_row = None, v_attempts = [], v_log = []\<rparr>"
proof -
  have "view_ok (view db i)" using assms(1) by (simp add: db_ok_def)
  then show ?thesis using assms(2) by (cases "view db i") (simp add: view_ok_def)
qed

lemma row_unique:
  assumes "rows_distinct db" "m \<in> set (job_messages db)" "m' \<in> set (job_messages db)" "jm_id m = jm_id m'"
  shows "m = m'"
  using assms by (auto simp: rows_distinct_def distinct_map inj_on_def)

text \<open>
  The shape the finalizing statements share: the rows of \<^verbatim>\<open>p\<close> are closed by \<^verbatim>\<open>f\<close>, the
  attempts of \<^verbatim>\<open>q\<close> by \<^verbatim>\<open>g\<close>, and an attempt is touched only with its job.
\<close>

lemma closing_moves:
  assumes ok: "db_ok db"
    and row: "\<And>m. m \<in> set (job_messages db) \<Longrightarrow> p m \<Longrightarrow> row_ok m \<Longrightarrow>
       active m \<and> closed_row m (enforce_job_message_state now m (f m))"
    and p_id: "\<And>m. p m \<Longrightarrow> jm_id (f m) = jm_id m"
    and q_g: "\<And>a. same_attempt a (g a) \<and> finished (g a) \<and> outcome_ok (g a)"
    and q_open: "\<And>a. q a \<Longrightarrow> \<not> finished a"
    and q_all: "\<And>m a. m \<in> set (job_messages db) \<Longrightarrow> p m \<Longrightarrow> attempts_ok m (v_attempts (view db (jm_id m))) \<Longrightarrow>
       a \<in> set (v_attempts (view db (jm_id m))) \<Longrightarrow> \<not> finished a \<Longrightarrow> q a"
    and q_only: "\<And>m a. m \<in> set (job_messages db) \<Longrightarrow> a \<in> set (job_attempts db) \<Longrightarrow>
       at_job_id a = jm_id m \<Longrightarrow> q a \<Longrightarrow> p m"
  shows "db_moves db (update_attempts q g (update_messages now p f db))"
proof -
  let ?db' = "update_attempts q g (update_messages now p f db)"
  have dist: "rows_distinct db" using ok by (simp add: db_ok_def)
  have view': "view ?db' i = (view (update_messages now p f db) i)
      \<lparr>v_attempts := update_where q g (v_attempts (view (update_messages now p f db) i))\<rparr>" for i
    by (rule view_update_attempts) (use q_g in \<open>simp add: same_attempt_def\<close>)
  note view_msgs = view_update_messages [where now = now and p = p and f = f, OF dist, OF p_id, simplified]
  have "job_move\<^sup>*\<^sup>* (view db i) (view ?db' i)" for i
  proof (cases "v_row (view db i)")
    case None
    then have "view ?db' i = view db i"
      unfolding view' view_msgs
      by (simp add: db_ok_no_row [OF ok None])
    then show ?thesis by simp
  next
    case (Some m)
    have m: "m \<in> set (job_messages db)" "jm_id m = i" using view_rowD [OF Some] by simp_all
    note ok_m = db_okD [OF ok Some]
    show ?thesis
    proof (cases "p m")
      case True
      let ?m' = "enforce_job_message_state now m (f m)"
      let ?v = "view db i"
      have "closes_open q g (v_attempts ?v)"
        unfolding closes_open_def using q_g q_open q_all [OF m(1) True] ok_m(2) m(2) by auto
      then have "job_move \<lparr>v_row = Some m, v_attempts = v_attempts ?v, v_log = v_log ?v\<rparr>
          \<lparr>v_row = Some ?m', v_attempts = update_where q g (v_attempts ?v),
           v_log = v_log ?v @ append_job_state_transition m ?m'\<rparr>"
        using row [OF m(1) True ok_m(1)] by (intro job_move.closed) simp_all
      moreover have "?v = \<lparr>v_row = Some m, v_attempts = v_attempts ?v, v_log = v_log ?v\<rparr>"
        using Some by (cases ?v) simp
      moreover have "view ?db' i = \<lparr>v_row = Some ?m', v_attempts = update_where q g (v_attempts ?v),
           v_log = v_log ?v @ append_job_state_transition m ?m'\<rparr>"
        unfolding view' view_msgs using Some True
        by (cases ?v) (simp add: Let_def)
      ultimately show ?thesis by (metis r_into_rtranclp)
    next
      case False
      have "\<not> q a" if "a \<in> set (v_attempts (view db i))" for a
        using that False q_only [OF m(1), of a] m(2) by (auto simp: view_def)
      then have "update_where q g (v_attempts (view db i)) = v_attempts (view db i)"
        by (rule update_where_none)
      then have "view ?db' i = view db i"
        unfolding view' view_msgs using Some False by (simp add: Let_def)
      then show ?thesis by simp
    qed
  qed
  then show ?thesis
    using dist rows_distinct_update_messages [OF p_id] by (simp add: db_moves_def)
qed

section \<open>The statements of a claim\<close>

lemma row_ok_active:
  assumes "row_ok m" "active m"
  shows "jm_completed_at m = None" "jm_dead_lettered_at m = None"
  using assms by (auto simp: row_ok_def timestamps_check_def active_def)

lemma cancelRevoked_moves:
  assumes "db_ok db"
  shows "db_moves db (cancelRevokedModuleJobs env now clock queue db)"
  unfolding cancelRevokedModuleJobs_def Let_def
proof (rule closing_moves [OF assms])
  fix m assume "jm_queue m = queue \<and> active m \<and> authority_revoked env m" "row_ok m"
  then have act: "active m" and dead: "jm_dead_lettered_at m = None" using row_ok_active by auto
  have "CanTransition (jm_state m) CANCELED" "jm_state m \<noteq> CANCELED"
    using act by (auto simp: active_def CanTransition_def)
  then show "active m \<and> closed_row m (enforce_job_message_state now m
      ((clear_lease m)\<lparr>jm_state := CANCELED, jm_completed_at := Some clock,
         jm_last_error_code := Some ''revoked_authority'',
         jm_last_error_message := Some ''installation authority changed''\<rparr>))"
    using act dead
    by (simp add: closed_row_def clear_lease_def lease_check_def timestamps_check_def)
next
  fix m a
  assume "m \<in> set (job_messages db)" "a \<in> set (job_attempts db)" "at_job_id a = jm_id m"
    and "at_job_id a \<in> set (map jm_id (filter (\<lambda>m. jm_queue m = queue \<and> active m \<and> authority_revoked env m)
           (job_messages db))) \<and> at_finished_at a = None"
  then obtain m' where "m' \<in> set (job_messages db)" "jm_id m' = jm_id m"
    "jm_queue m' = queue \<and> active m' \<and> authority_revoked env m'" by auto
  moreover have "m' = m"
    using row_unique calculation(1,2) \<open>m \<in> set (job_messages db)\<close> assms by (auto simp: db_ok_def)
  ultimately show "jm_queue m = queue \<and> active m \<and> authority_revoked env m" by simp
next
  fix m a
  assume "m \<in> set (job_messages db)" "jm_queue m = queue \<and> active m \<and> authority_revoked env m"
    and a: "a \<in> set (v_attempts (view db (jm_id m)))" "\<not> finished a"
  moreover have "at_job_id a = jm_id m" using a(1) by (simp add: view_def)
  ultimately show "at_job_id a \<in> set (map jm_id (filter (\<lambda>m. jm_queue m = queue \<and> active m \<and>
      authority_revoked env m) (job_messages db))) \<and> at_finished_at a = None" by simp
qed (simp_all add: same_attempt_def clear_lease_def outcome_ok_def)

lemma processing_split:
  assumes "attempts_ok m as" "jm_state m = PROCESSING"
  obtains past a where "as = past @ [a]" "\<forall>x \<in> set past. finished x" "\<not> finished a"
    "jm_lease_owner m = Some (at_worker_id a)" "jm_lease_token m = Some (at_lease_token a)"
    "at_job_id a = jm_id m"
proof -
  have all: "\<forall>a \<in> set as. at_job_id a = jm_id m \<and> outcome_ok a"
    and ex: "\<exists>past a. as = past @ [a] \<and> (\<forall>x \<in> set past. finished x) \<and> \<not> finished a \<and>
      jm_lease_owner m = Some (at_worker_id a) \<and> jm_lease_token m = Some (at_lease_token a)"
    using assms by (simp_all add: attempts_ok_def)
  then obtain past a where "as = past @ [a]" "\<forall>x \<in> set past. finished x" "\<not> finished a"
    "jm_lease_owner m = Some (at_worker_id a)" "jm_lease_token m = Some (at_lease_token a)" by blast
  then show ?thesis using all by (intro that [of past a]) simp_all
qed

lemma processing_attempt:
  assumes "attempts_ok m as" "jm_state m = PROCESSING" "a \<in> set as" "\<not> finished a"
  shows "jm_lease_token m = Some (at_lease_token a)" "jm_lease_owner m = Some (at_worker_id a)"
proof -
  obtain past b where as: "as = past @ [b]" "\<forall>x \<in> set past. finished x" "\<not> finished b"
    "jm_lease_owner m = Some (at_worker_id b)" "jm_lease_token m = Some (at_lease_token b)"
    "at_job_id b = jm_id m"
    by (rule processing_split [OF assms(1,2)])
  have "a = b" using assms(3,4) as(1,2) by auto
  then show "jm_lease_token m = Some (at_lease_token a)" "jm_lease_owner m = Some (at_worker_id a)"
    using as by simp_all
qed

lemma recover_row_closed:
  assumes "row_ok m" "jm_state m = PROCESSING"
  shows "closed_row m (enforce_job_message_state now m (recover_row now m))"
proof -
  have "jm_completed_at m = None" using row_ok_active assms by (simp add: active_def)
  then show ?thesis
    using assms(2)
    by (simp add: closed_row_def recover_row_def clear_lease_def lease_check_def timestamps_check_def
        CanTransition_def)
qed

lemma recoverExpired_moves:
  assumes ok: "db_ok db"
  shows "db_moves db (recoverExpiredJobLeases now locked queue limit db)"
proof -
  define expired where "expired = select_ordered expiry_order
    (\<lambda>m. jm_queue m = queue \<and> jm_state m = PROCESSING \<and> lease_expired now m \<and> \<not> locked (jm_id m))
    limit (job_messages db)"
  define closes where "closes = (\<lambda>a :: attempt_row. \<exists>m \<in> set expired. at_job_id a = jm_id m \<and>
    jm_lease_token m = Some (at_lease_token a) \<and> at_finished_at a = None)"
  define p where "p = (\<lambda>m :: job_row. jm_id m \<in> set (map jm_id expired) \<and>
    jm_id m \<in> set (map at_job_id (filter closes (job_attempts db))))"
  have exp: "m \<in> set (job_messages db)" "jm_state m = PROCESSING" if "m \<in> set expired" for m
    using select_orderedD [OF that [unfolded expired_def]] by simp_all
  have in_exp: "m \<in> set expired"
    if ids: "jm_id m \<in> set (map jm_id expired)" and row: "m \<in> set (job_messages db)" for m
  proof -
    obtain m' where "m' \<in> set expired" "jm_id m' = jm_id m" using ids by auto
    moreover have "m' = m"
      using row_unique exp(1) calculation row ok by (auto simp: db_ok_def)
    ultimately show ?thesis by simp
  qed
  have "db_moves db (update_attempts closes
      (\<lambda>a. a\<lparr>at_outcome := Some ''lease_expired'', at_error_code := Some ''jobs.lease_expired'',
             at_error_message := Some ''processing lease expired before finalization'',
             at_heartbeat_at := max (at_heartbeat_at a) now, at_finished_at := Some now\<rparr>)
      (update_messages now p (recover_row now) db))"
  proof (rule closing_moves [OF ok])
    fix m assume m: "m \<in> set (job_messages db)" "p m" "row_ok m"
    have "jm_id m \<in> set (map jm_id expired)" using m(2) by (simp add: p_def)
    then have "jm_state m = PROCESSING" using exp(2) in_exp m(1) by blast
    then show "active m \<and> closed_row m (enforce_job_message_state now m (recover_row now m))"
      using recover_row_closed m(3) by (simp add: active_def)
  next
    fix m a
    assume m: "m \<in> set (job_messages db)" "p m" "attempts_ok m (v_attempts (view db (jm_id m)))"
      and a: "a \<in> set (v_attempts (view db (jm_id m)))" "\<not> finished a"
    have "jm_id m \<in> set (map jm_id expired)" using m(2) by (simp add: p_def)
    then have me: "m \<in> set expired" using in_exp m(1) by blast
    have "jm_lease_token m = Some (at_lease_token a)"
      using processing_attempt(1) m(3) exp(2) [OF me] a by blast
    moreover have "at_job_id a = jm_id m" using a(1) by (simp add: view_def)
    ultimately show "closes a" using me a(2) by (auto simp: closes_def)
  next
    fix m a
    assume a: "m \<in> set (job_messages db)" "a \<in> set (job_attempts db)" "at_job_id a = jm_id m" "closes a"
    then have "jm_id m \<in> set (map jm_id expired)" by (auto simp: closes_def)
    moreover have "jm_id m \<in> set (map at_job_id (filter closes (job_attempts db)))"
      using a by (auto intro!: image_eqI [of _ _ a])
    ultimately show "p m" by (simp add: p_def)
  next
    show "closes a \<Longrightarrow> \<not> finished a" for a by (auto simp: closes_def)
  qed (simp_all add: same_attempt_def recover_row_def clear_lease_def outcome_ok_def)
  then show ?thesis
    unfolding recoverExpiredJobLeases_def Let_def expired_def closes_def p_def .
qed

definition fresh_tokens :: "(uuid \<Rightarrow> uuid) \<Rightarrow> job_db \<Rightarrow> bool" where
  "fresh_tokens fresh db \<longleftrightarrow> (\<forall>a \<in> set (job_attempts db). \<forall>i. fresh i \<noteq> at_lease_token a)"

lemma claim_candidatesD:
  assumes "m \<in> set (claim_candidates env now locked claim req rows)"
  shows "m \<in> set rows" "claimable env now claim (cl_queue req) rows m" "\<not> locked (jm_id m)"
  using select_orderedD [OF assms [unfolded claim_candidates_def]] by simp_all

lemma filter_by_id:
  assumes "distinct (map jm_id rows)"
  shows "filter (\<lambda>m. jm_id m = i) rows = (case select_first (\<lambda>m. jm_id m = i) rows of None \<Rightarrow> [] | Some m \<Rightarrow> [m])"
  using assms
proof (induction rows)
  case (Cons m rows)
  have "filter (\<lambda>x. jm_id x = jm_id m) rows = []"
    using Cons.prems by (auto simp: filter_empty_conv image_iff)
  then show ?case using Cons by (auto simp: select_first_def)
qed (simp add: select_first_def)

lemma claim_moves:
  assumes ok: "db_ok db" and fresh: "fresh_tokens fresh db"
  shows "db_moves db (snd (claimJobsSQL env now locked claim req fresh db))"
proof -
  define cs where "cs = claim_candidates env now locked claim req (job_messages db)"
  define p where "p = (\<lambda>m :: job_row. jm_id m \<in> set (map jm_id cs))"
  define f where "f = claim_row now claim req fresh"
  define db1 where "db1 = update_messages now p f db"
  define db' where "db' = db1\<lparr>job_attempts := job_attempts db1 @ map (open_attempt now req) (filter p (job_messages db1))\<rparr>"
  have db': "snd (claimJobsSQL env now locked claim req fresh db) = db'"
    by (simp add: claimJobsSQL_def Let_def db'_def db1_def f_def p_def cs_def)
  have dist: "rows_distinct db" using ok by (simp add: db_ok_def)
  have p_id: "\<And>m. p m \<Longrightarrow> jm_id (f m) = jm_id m" by (simp add: f_def claim_row_def)
  have dist1: "rows_distinct db1"
    using dist rows_distinct_update_messages [where p = p and f = f, OF p_id] by (simp add: db1_def)
  note view1 = view_update_messages [where now = now and p = p and f = f, OF dist, OF p_id, simplified, folded db1_def]
  have at1: "job_attempts db1 = job_attempts db" by (simp add: db1_def update_messages_def)
  have cand: "claimable env now claim (cl_queue req) (job_messages db) m"
    if m: "m \<in> set (job_messages db)" "p m" for m
  proof -
    obtain m' where m': "m' \<in> set cs" "jm_id m' = jm_id m" using m(2) by (auto simp: p_def)
    then have "m' = m" using row_unique [OF dist] m(1) claim_candidatesD(1) unfolding cs_def by blast
    then show ?thesis using m'(1) claim_candidatesD(2) unfolding cs_def by blast
  qed
  have open_id: "at_job_id (open_attempt now req m) = jm_id m" for m by (simp add: open_attempt_def)
  have one: "(case v_row (view db1 i) of None \<Rightarrow> [] | Some m \<Rightarrow> [m]) =
      filter (\<lambda>m. jm_id m = i) (job_messages db1)" for i
    using filter_by_id [of "job_messages db1" i] dist1 by (simp add: view_def rows_distinct_def)
  have view': "view db' i = (view db1 i)\<lparr>v_attempts := v_attempts (view db i) @
      map (open_attempt now req) (filter p (case v_row (view db1 i) of None \<Rightarrow> [] | Some m \<Rightarrow> [m]))\<rparr>" for i
    unfolding one by (simp add: view_def db'_def at1 filter_map comp_def open_id conj_commute)
  have "job_move\<^sup>*\<^sup>* (view db i) (view db' i)" for i
  proof (cases "v_row (view db i)")
    case None
    then show ?thesis by (simp add: view' view1)
  next
    case (Some m)
    have m: "m \<in> set (job_messages db)" "jm_id m = i" using view_rowD [OF Some] by simp_all
    let ?v = "view db i"
    have v: "?v = \<lparr>v_row = Some m, v_attempts = v_attempts ?v, v_log = v_log ?v\<rparr>"
      using Some by (cases ?v) simp
    show ?thesis
    proof (cases "p m")
      case True
      let ?m' = "enforce_job_message_state now m (f m)"
      have p': "p ?m'" using True p_id [OF True] by (simp add: p_def)
      have "fresh (jm_id m) \<notin> at_lease_token ` set (v_attempts ?v)"
        using fresh by (auto simp: fresh_tokens_def view_def)
      then have "job_move \<lparr>v_row = Some m, v_attempts = v_attempts ?v, v_log = v_log ?v\<rparr>
          \<lparr>v_row = Some ?m', v_attempts = v_attempts ?v @ [open_attempt now req ?m'],
           v_log = v_log ?v @ append_job_state_transition m ?m'\<rparr>"
        using cand [OF m(1) True] unfolding f_def by (intro job_move.claimed) (simp_all add: claimable_def)
      moreover have "view db' i = \<lparr>v_row = Some ?m', v_attempts = v_attempts ?v @ [open_attempt now req ?m'],
           v_log = v_log ?v @ append_job_state_transition m ?m'\<rparr>"
        unfolding view' view1 using Some True p' by (cases ?v) (simp add: Let_def)
      ultimately show ?thesis using v by (metis r_into_rtranclp)
    next
      case False
      then show ?thesis by (simp add: view' view1 Some)
    qed
  qed
  then show ?thesis
    unfolding db' using dist1 by (simp add: db_moves_def db'_def rows_distinct_def)
qed

lemma job_attempts_tokens:
  "map at_lease_token (job_attempts (cancelRevokedModuleJobs env now clock queue db)) =
     map at_lease_token (job_attempts db)"
  "map at_lease_token (job_attempts (recoverExpiredJobLeases now locked queue limit db)) =
     map at_lease_token (job_attempts db)"
  by (simp_all add: cancelRevokedModuleJobs_def recoverExpiredJobLeases_def Let_def update_attempts_def
      update_messages_def map_update_where)

lemma fresh_tokens_cong:
  assumes "map at_lease_token (job_attempts db) = map at_lease_token (job_attempts db')"
  shows "fresh_tokens fresh db \<longleftrightarrow> fresh_tokens fresh db'"
proof -
  have "at_lease_token ` set (job_attempts db) = at_lease_token ` set (job_attempts db')"
    using arg_cong [where f = set, OF assms] by simp
  moreover have "fresh_tokens fresh db \<longleftrightarrow> (\<forall>i. fresh i \<notin> at_lease_token ` set (job_attempts db))" for db
    by (auto simp: fresh_tokens_def)
  ultimately show ?thesis by simp
qed

text \<open>A claim is its three statements, or an error that leaves the tables as they were.\<close>

definition swept ::
  "job_env \<Rightarrow> time \<Rightarrow> time \<Rightarrow> (uuid \<Rightarrow> bool) \<Rightarrow> claim_request \<Rightarrow> job_db \<Rightarrow> job_db" where
  "swept env now clock locked req db =
     recoverExpiredJobLeases now locked (cl_queue req) (cl_limit req)
       (cancelRevokedModuleJobs env now clock (cl_queue req) db)"

lemma Claim_cases:
  "(\<exists>e. Claim env now clock locked claim req fresh db = (Inl e, db)) \<or>
   (\<exists>es. scan_all (fst (claimJobsSQL env now locked claim req fresh (swept env now clock locked req db))) = Inr es \<and>
      Claim env now clock locked claim req fresh db =
        (Inr es, snd (claimJobsSQL env now locked claim req fresh (swept env now clock locked req db))))"
proof -
  obtain ms db3 where c: "claimJobsSQL env now locked claim req fresh (swept env now clock locked req db) = (ms, db3)"
    by fastforce
  show ?thesis
    unfolding Claim_def Let_def swept_def [symmetric] c
    by (cases "scan_all ms") simp_all
qed

lemma Claim_moves:
  assumes ok: "db_ok db" and fresh: "fresh_tokens fresh db"
  shows "db_moves db (snd (Claim env now clock locked claim req fresh db))"
proof -
  let ?db1 = "cancelRevokedModuleJobs env now clock (cl_queue req) db"
  let ?db2 = "recoverExpiredJobLeases now locked (cl_queue req) (cl_limit req) ?db1"
  have 1: "db_moves db ?db1" using cancelRevoked_moves [OF ok] .
  have 2: "db_moves ?db1 ?db2" using recoverExpired_moves db_moves_ok [OF 1 ok] by blast
  have "fresh_tokens fresh ?db2"
    using fresh fresh_tokens_cong job_attempts_tokens by metis
  then have "db_moves ?db2 (snd (claimJobsSQL env now locked claim req fresh ?db2))"
    using claim_moves db_moves_ok [OF 2] db_moves_ok [OF 1 ok] by blast
  then have "db_moves db (snd (claimJobsSQL env now locked claim req fresh ?db2))"
    using 1 2 db_moves_trans by blast
  then show ?thesis
    using db_moves_refl [OF ok] Claim_cases [of env now clock locked claim req fresh db]
    by (elim disjE conjE exE) (simp_all add: swept_def)
qed

section \<open>Heartbeat and finalization\<close>

lemma update_commute:
  "update_messages now p f (update_attempts q g db) = update_attempts q g (update_messages now p f db)"
  by (simp add: update_messages_def update_attempts_def)

lemma job_messages_update_attempts [simp]: "job_messages (update_attempts q g db) = job_messages db"
  by (simp add: update_attempts_def)

lemma job_attempts_update_messages [simp]: "job_attempts (update_messages now p f db) = job_attempts db"
  by (simp add: update_messages_def)

text \<open>The states a finalization can name, each with the attempts it has left.\<close>

definition fz_ok :: "job_finalization \<Rightarrow> job_row \<Rightarrow> bool" where
  "fz_ok fz m \<longleftrightarrow> fz_state fz \<in> {SUCCEEDED, DEAD_LETTER, RETRYING} \<and>
     fz_outcome fz \<in> {''succeeded'', ''retryable_failure'', ''permanent_failure''} \<and>
     (fz_state fz = RETRYING \<longrightarrow> jm_attempt_count m < jm_max_attempts m)"

lemma finalized_row_closed:
  assumes "jm_state m = PROCESSING" "fz_ok fz m"
  shows "closed_row m (enforce_job_message_state now m (finalized_row now fz m))"
  using assms unfolding fz_ok_def
  by (elim conjE insertE emptyE; simp add: closed_row_def finalized_row_def clear_lease_def lease_check_def
      timestamps_check_def CanTransition_def)

lemma finalizeLockedJob_moves:
  assumes ok: "db_ok db" and m: "m \<in> set (job_messages db)" "holds_live_lease now claim ref m"
    and fz: "fz_ok fz m" and fin: "finalizeLockedJob now ref fz db = Inr db'"
  shows "db_moves db db'"
proof -
  define p where "p = (\<lambda>m :: job_row. jm_id m = lr_job_id ref \<and> jm_state m = PROCESSING \<and>
    jm_lease_owner m = Some (lr_worker_id ref) \<and> jm_lease_token m = Some (lr_lease_token ref))"
  have dist: "rows_distinct db" using ok by (simp add: db_ok_def)
  have only: "m' = m" if "m' \<in> set (job_messages db)" "jm_id m' = lr_job_id ref" for m'
    using that m row_unique [OF dist] by (simp add: holds_live_lease_def)
  have pm: "p m" using m(2) by (simp add: p_def holds_live_lease_def)
  define g where "g = (\<lambda>a :: attempt_row. a\<lparr>at_outcome := Some (fz_outcome fz), at_error_code := failure_code fz,
    at_error_message := failure_message fz,
    at_heartbeat_at := max (at_heartbeat_at a) now, at_finished_at := Some now\<rparr>)"
  have "db' = update_attempts (lease_attempt ref) g (update_messages now p (finalized_row now fz) db)"
    using fin by (auto simp: finalizeLockedJob_def Let_def rbind_eq_Inr update_commute p_def g_def split: if_splits)
  moreover have "db_moves db \<dots>"
  proof (rule closing_moves [OF ok])
    fix m' assume m': "m' \<in> set (job_messages db)" "p m'"
    then have "m' = m" using only by (simp add: p_def)
    moreover have "jm_state m = PROCESSING" using pm by (simp add: p_def)
    ultimately show "active m' \<and> closed_row m' (enforce_job_message_state now m' (finalized_row now fz m'))"
      using finalized_row_closed fz by (simp add: active_def)
  next
    fix m' a
    assume "m' \<in> set (job_messages db)" "p m'" "attempts_ok m' (v_attempts (view db (jm_id m')))"
      and a: "a \<in> set (v_attempts (view db (jm_id m')))" "\<not> finished a"
    then have "jm_lease_token m' = Some (at_lease_token a)" "jm_lease_owner m' = Some (at_worker_id a)"
      using processing_attempt unfolding p_def by blast+
    moreover have "at_job_id a = jm_id m'" using a(1) by (simp add: view_def)
    ultimately show "lease_attempt ref a" using \<open>p m'\<close> a(2) by (simp add: lease_attempt_def p_def)
  next
    fix m' a assume "m' \<in> set (job_messages db)" "at_job_id a = jm_id m'" "lease_attempt ref a"
    then show "p m'" using only pm by (simp add: lease_attempt_def)
  qed (use fz in \<open>auto simp: g_def same_attempt_def lease_attempt_def finalized_row_def clear_lease_def
      outcome_ok_def fz_ok_def\<close>)
  ultimately show ?thesis by simp
qed

lemma lockLiveJobLease_Inr:
  assumes "lockLiveJobLease now claim ref db = Inr (n, k)"
  obtains m where "m \<in> set (job_messages db)" "holds_live_lease now claim ref m"
    "n = jm_attempt_count m" "k = jm_max_attempts m"
  using assms select_first_Some [of "holds_live_lease now claim ref" "job_messages db"]
  by (auto simp: lockLiveJobLease_def split: option.splits)

lemma finalize_moves:
  assumes ok: "db_ok db" and fz: "fz_state fz \<in> {SUCCEEDED, DEAD_LETTER}"
    "fz_outcome fz \<in> {''succeeded'', ''retryable_failure'', ''permanent_failure''}"
  shows "db_moves db (snd (finalize env now claim ref fz db))"
proof -
  have "db_moves db db'"
    if run: "rbind (lockLiveJobLease now claim ref db) (\<lambda>_. finalizeLockedJob now ref fz db) = Inr db'" for db'
  proof -
    obtain n k where "lockLiveJobLease now claim ref db = Inr (n, k)"
      and fin: "finalizeLockedJob now ref fz db = Inr db'"
      using run by (auto simp: rbind_eq_Inr)
    then obtain m where "m \<in> set (job_messages db)" "holds_live_lease now claim ref m"
      by (auto elim: lockLiveJobLease_Inr)
    then show ?thesis
      by (rule finalizeLockedJob_moves [OF ok _ _ _ fin]) (use fz in \<open>auto simp: fz_ok_def\<close>)
  qed
  then show ?thesis
    using db_moves_refl [OF ok] by (auto simp: finalize_def commit_def split: sum.splits)
qed

lemma Complete_moves: "db_ok db \<Longrightarrow> db_moves db (snd (Complete env now claim ref execution db))"
  by (simp add: Complete_def db_moves_refl finalize_moves)

lemma DeadLetter_moves: "db_ok db \<Longrightarrow> db_moves db (snd (DeadLetter env now claim ref failure db))"
  by (simp add: DeadLetter_def db_moves_refl finalize_moves)

lemma Retry_moves:
  assumes ok: "db_ok db"
  shows "db_moves db (snd (Retry env now claim ref failure retry_at db))"
proof (cases "lockLiveJobLease now claim ref db")
  case (Inr nk)
  obtain n k where nk: "nk = (n, k)" by fastforce
  obtain m where m: "m \<in> set (job_messages db)" "holds_live_lease now claim ref m"
    "n = jm_attempt_count m" "k = jm_max_attempts m"
    using Inr nk by (auto elim: lockLiveJobLease_Inr)
  let ?fz = "\<lparr>fz_state = (if k \<le> n then DEAD_LETTER else RETRYING), fz_outcome = ''retryable_failure'',
    fz_failure = Some failure, fz_execution = None, fz_available = Some retry_at\<rparr>"
  have "fz_ok ?fz m" using m(3,4) by (simp add: fz_ok_def)
  then have "db_moves db db'" if "finalizeLockedJob now ref ?fz db = Inr db'" for db'
    using finalizeLockedJob_moves [OF ok m(1,2)] that by blast
  then show ?thesis
    using db_moves_refl [OF ok] Inr nk
    by (auto simp: Retry_def finalizeRetry_def Let_def split: sum.splits)
qed (simp_all add: Retry_def finalizeRetry_def db_moves_refl ok)

lemma Heartbeat_moves:
  assumes ok: "db_ok db"
  shows "db_moves db (snd (Heartbeat env now claim ref extension db))"
proof -
  define p where "p = holds_live_lease now claim ref"
  define f where "f = (\<lambda>m :: job_row. m\<lparr>jm_lease_expires_at := Some (now + extension), jm_heartbeat_at := Some now\<rparr>)"
  define g where "g = (\<lambda>a :: attempt_row. a\<lparr>at_heartbeat_at := now\<rparr>)"
  define db1 where "db1 = update_messages now p f db"
  define db2 where "db2 = update_attempts (lease_attempt ref) g db1"
  have dist: "rows_distinct db" using ok by (simp add: db_ok_def)
  have p_id: "\<And>m. p m \<Longrightarrow> jm_id (f m) = jm_id m" by (simp add: f_def)
  note view1 = view_update_messages [where now = now and p = p and f = f, OF dist, OF p_id, simplified, folded db1_def]
  have view2: "view db2 i = (view db1 i)\<lparr>v_attempts := update_where (lease_attempt ref) g (v_attempts (view db1 i))\<rparr>" for i
    unfolding db2_def by (rule view_update_attempts) (simp add: g_def)
  have move: "job_move\<^sup>*\<^sup>* (view db i) (view db2 i)"
    if m0: "m0 \<in> set (job_messages db)" "p m0" for m0 i
  proof (cases "v_row (view db i)")
    case None
    then show ?thesis by (simp add: view2 view1 db_ok_no_row [OF ok])
  next
    case (Some m)
    have m: "m \<in> set (job_messages db)" "jm_id m = i" using view_rowD [OF Some] by simp_all
    let ?v = "view db i"
    have v: "?v = \<lparr>v_row = Some m, v_attempts = v_attempts ?v, v_log = v_log ?v\<rparr>"
      using Some by (cases ?v) simp
    show ?thesis
    proof (cases "p m")
      case True
      let ?m' = "enforce_job_message_state now m (f m)"
      have log: "append_job_state_transition m ?m' = []"
        by (simp add: append_job_state_transition_def f_def)
      have "jm_state m = PROCESSING" using True by (simp add: p_def holds_live_lease_def)
      moreover have "heartbeat_row m ?m'" by (simp add: heartbeat_row_def f_def)
      moreover have "beats_open g" by (simp add: beats_open_def g_def same_attempt_def)
      ultimately have "job_move \<lparr>v_row = Some m, v_attempts = v_attempts ?v, v_log = v_log ?v\<rparr>
          \<lparr>v_row = Some ?m', v_attempts = update_where (lease_attempt ref) g (v_attempts ?v), v_log = v_log ?v\<rparr>"
        by (rule job_move.beaten)
      moreover have "view db2 i =
          \<lparr>v_row = Some ?m', v_attempts = update_where (lease_attempt ref) g (v_attempts ?v), v_log = v_log ?v\<rparr>"
        unfolding view2 view1 using Some True log by (cases ?v) (simp add: Let_def)
      ultimately show ?thesis using v by (metis r_into_rtranclp)
    next
      case False
      have "\<not> lease_attempt ref a" if "a \<in> set (v_attempts ?v)" for a
      proof
        assume "lease_attempt ref a"
        then have "jm_id m = jm_id m0"
          using that m(2) m0(2) by (simp add: view_def lease_attempt_def p_def holds_live_lease_def)
        then show False using row_unique [OF dist m(1) m0(1)] m0(2) False by simp
      qed
      then have "update_where (lease_attempt ref) g (v_attempts ?v) = v_attempts ?v"
        by (rule update_where_none)
      then show ?thesis by (simp add: view2 view1 Some False)
    qed
  qed
  have "db_moves db db2" if some: "rows_affected p (job_messages db) \<noteq> 0"
  proof -
    obtain m0 where "m0 \<in> set (job_messages db)" "p m0" using some by (auto simp: rows_affected_zero)
    moreover have "rows_distinct db2"
      using dist rows_distinct_update_messages [where p = p and f = f, OF p_id] by (simp add: db1_def db2_def)
    ultimately show ?thesis using move by (simp add: db_moves_def)
  qed
  then show ?thesis
    using db_moves_refl [OF ok]
    by (simp add: Heartbeat_def Let_def db1_def db2_def p_def f_def g_def)
qed

section \<open>Enqueue and replay\<close>

lemma insert_message_moves:
  assumes ok: "db_ok db" and new: "\<forall>m \<in> set (job_messages db). jm_id m \<noteq> new_id"
    and max: "spec_ok sp"
  shows "db_moves db (insert_message (new_row now new_id seq sp available_at) db)"
proof -
  let ?m = "new_row now new_id seq sp available_at"
  let ?db' = "insert_message ?m db"
  have id: "jm_id ?m = new_id" by (simp add: new_row_def)
  have find: "select_first P (xs @ [x]) =
      (case select_first P xs of None \<Rightarrow> if P x then Some x else None | Some r \<Rightarrow> Some r)"
    for P :: "job_row \<Rightarrow> bool" and xs x
    by (induction xs) (simp_all add: select_first_def)
  have "job_move\<^sup>*\<^sup>* (view db i) (view ?db' i)" for i
  proof (cases "i = new_id")
    case True
    have none: "v_row (view db i) = None" using new True by (simp add: view_row_None)
    note empty = db_ok_no_row [OF ok none]
    have "view ?db' i = \<lparr>v_row = Some ?m, v_attempts = [], v_log = [transition_entry None ?m]\<rparr>"
      using True id empty
      by (simp add: view_def insert_message_def find transition_entry_def)
    moreover have "job_move \<lparr>v_row = None, v_attempts = [], v_log = []\<rparr>
        \<lparr>v_row = Some ?m, v_attempts = [], v_log = [transition_entry None ?m]\<rparr>"
      by (rule job_move.enqueued) (use max in simp_all)
    ultimately show ?thesis using empty by simp
  next
    case False
    then have "view ?db' i = view db i"
      using id by (simp add: view_def insert_message_def find transition_entry_def split: option.split)
    then show ?thesis by simp
  qed
  moreover have "rows_distinct ?db'"
    using ok new id by (auto simp: db_ok_def rows_distinct_def insert_message_def)
  ultimately show ?thesis by (simp add: db_moves_def)
qed

lemma insert_or_find_moves:
  assumes "db_ok db" "\<forall>m \<in> set (job_messages db). jm_id m \<noteq> new_id" "spec_ok sp"
  shows "db_moves db (snd (insert_or_find now new_id seq sp available_at db))"
  using assms db_moves_refl insert_message_moves
  by (auto simp: insert_or_find_def split: option.split)

lemma enqueue_response_db:
  "snd (enqueue_response fingerprint r db) = db \<or> snd (enqueue_response fingerprint r db) = snd r"
  by (auto simp: enqueue_response_def split: prod.split sum.split)

lemma prepareJobEnqueue_spec:
  assumes "prepareJobEnqueue penv job = Inr (sp, available_at)"
  shows "js_max_attempts sp = nj_max_attempts job"
    and "EnqueueFingerprint penv job = Inr (js_request_fingerprint sp)"
    and "js_direction sp \<in> {''inbox'', ''outbox''}"
    and "js_scope_kind sp \<in> {''tenant'', ''subject'', ''global''}"
proof -
  obtain f direction scope c where
    p: "EnqueueFingerprint penv job = Inr f" "DatabaseDirection (nj_direction job) = Inr direction"
      "enqueueScopeValues (uuid_parse penv) (nj_scope job) = Inr scope"
    and sp: "js_max_attempts sp = nj_max_attempts job" "js_request_fingerprint sp = f"
      "js_direction sp = direction" "js_scope_kind sp = fst scope"
    using assms by (auto simp: prepareJobEnqueue_def rbind_eq_Inr)
  show "js_max_attempts sp = nj_max_attempts job"
    "EnqueueFingerprint penv job = Inr (js_request_fingerprint sp)" using p sp by simp_all
  show "js_direction sp \<in> {''inbox'', ''outbox''}"
    using p(2) sp(3) by (cases "nj_direction job") (simp_all add: DatabaseDirection_def)
  show "js_scope_kind sp \<in> {''tenant'', ''subject'', ''global''}"
    using p(3) sp(4) by (auto simp: enqueueScopeValues_def split: option.splits job_scope.splits)
qed

text \<open>
  The fingerprint function validates the job against its protobuf rules first; of these
  only the positive attempt budget matters here.
\<close>

definition validates_budget :: "enqueue_env \<Rightarrow> bool" where
  "validates_budget penv \<longleftrightarrow> (\<forall>job f. EnqueueFingerprint penv job = Inr f \<longrightarrow> 1 \<le> nj_max_attempts job)"

lemma EnqueueJob_moves:
  assumes ok: "db_ok db" and new: "\<forall>m \<in> set (job_messages db). jm_id m \<noteq> new_id"
    and valid: "validates_budget penv"
  shows "db_moves db (snd (EnqueueJob penv env tx now new_id seq job db))"
proof (cases "prepareJobEnqueue penv job")
  case (Inr r)
  obtain sp available_at where r: "r = (sp, available_at)" by fastforce
  note sp = prepareJobEnqueue_spec [OF Inr [unfolded r]]
  have "1 \<le> js_max_attempts sp" using sp(1,2) valid unfolding validates_budget_def by metis
  then have "spec_ok sp" using sp(3,4) by (simp only: spec_ok_def simp_thms)
  then have "db_moves db (snd (enqueue_job_message ses now new_id seq sp available_at db))" for ses
    using insert_or_find_moves [OF ok new] db_moves_refl [OF ok]
    by (simp add: enqueue_job_message_def case_prod_beta)
  then have "db_moves db (snd (insertPreparedJob ses now new_id seq sp available_at db))" for ses
    unfolding insertPreparedJob_def using enqueue_response_db db_moves_refl [OF ok] by metis
  then show ?thesis
    using Inr r db_moves_refl [OF ok]
    by (simp add: EnqueueJob_def enqueuePreparedJob_def split: option.split)
qed (simp add: EnqueueJob_def db_moves_refl ok)

lemma replayJob_moves:
  assumes ok: "db_ok db" and new: "\<forall>m \<in> set (job_messages db). jm_id m \<noteq> new_id"
  shows "db_moves db (snd (replayJob fingerprint ses now new_id seq source_id key available_at db))"
proof -
  have "db_moves db (snd (replay_job_message ses now new_id seq source_id key available_at f db))" for f
  proof (cases "select_first (\<lambda>m. jm_id m = source_id) (job_messages db)")
    case (Some src)
    then have "src \<in> set (job_messages db)" by (rule select_first_Some)
    then have "row_ok src" by (rule db_ok_row(2) [OF ok])
    then have "spec_ok ((jm_spec src)\<lparr>js_idempotency_key := key, js_request_fingerprint := f,
        js_replay_of := Some (jm_id src)\<rparr>)"
      by (simp add: row_ok_def spec_ok_def)
    then show ?thesis
      using Some insert_or_find_moves [OF ok new] db_moves_refl [OF ok]
      by (simp add: replay_job_message_def case_prod_beta)
  qed (simp add: replay_job_message_def db_moves_refl [OF ok])
  then show ?thesis
    unfolding replayJob_def using enqueue_response_db db_moves_refl [OF ok]
    by (metis (no_types, lifting) snd_conv sum.case_eq_if)
qed

section \<open>Reachable databases\<close>

inductive store_step :: "job_db \<Rightarrow> job_db \<Rightarrow> bool" where
  claim: "fresh_tokens fresh db \<Longrightarrow> store_step db (snd (Claim env now clock locked claim req fresh db))"
| heartbeat: "store_step db (snd (Heartbeat env now claim ref extension db))"
| complete: "store_step db (snd (Complete env now claim ref execution db))"
| retry: "store_step db (snd (Retry env now claim ref failure retry_at db))"
| dead_letter: "store_step db (snd (DeadLetter env now claim ref failure db))"
| enqueue: "\<forall>m \<in> set (job_messages db). jm_id m \<noteq> new_id \<Longrightarrow> validates_budget penv \<Longrightarrow>
    store_step db (snd (EnqueueJob penv env tx now new_id seq job db))"
| replay: "\<forall>m \<in> set (job_messages db). jm_id m \<noteq> new_id \<Longrightarrow>
    store_step db (snd (replayJob fingerprint ses now new_id seq source_id key available_at db))"

definition empty_db :: job_db where
  "empty_db = \<lparr>job_messages = [], job_attempts = [], job_state_transitions = []\<rparr>"

definition reachable :: "job_db \<Rightarrow> bool" where
  "reachable db \<longleftrightarrow> store_step\<^sup>*\<^sup>* empty_db db"

lemma store_step_moves: "store_step db db' \<Longrightarrow> db_ok db \<Longrightarrow> db_moves db db'"
  by (induction rule: store_step.induct)
    (simp_all add: Claim_moves Heartbeat_moves Complete_moves Retry_moves DeadLetter_moves
      EnqueueJob_moves replayJob_moves)

lemma empty_db_ok: "db_ok empty_db"
  by (simp add: db_ok_def rows_distinct_def view_ok_def view_def empty_db_def select_first_def)

lemma store_steps_moves: "store_step\<^sup>*\<^sup>* db db' \<Longrightarrow> db_ok db \<Longrightarrow> db_moves db db'"
  by (induction rule: rtranclp_induct)
    (auto intro: db_moves_refl db_moves_trans store_step_moves db_moves_ok)

lemma reachable_ok: "reachable db \<Longrightarrow> db_ok db"
  using store_steps_moves db_moves_ok empty_db_ok unfolding reachable_def by blast

end
