(* ===== verification/Job_Properties.thy ===== *)
theory Job_Properties
  imports Job_Reach
begin

text \<open>
  What the job store promises, over every reachable database: legal and bounded lifecycles,
  one open attempt per leased job, fenced finalization, exclusive and ordered claims that
  skip revoked work, idempotent enqueueing and tenant confinement.
\<close>

section \<open>Rows over time\<close>

lemma job_move_admitted:
  assumes "job_move v v'" "v_row v = Some m" "v_row v' = Some m'"
  shows "update_admitted m m'"
  using assms
proof (induction rule: job_move.induct)
  case (claimed m1 fresh as m1' now claim req ts)
  then have eq: "m1 = m" "m1' = m'" by simp_all
  show ?case
    using claimed(1) unfolding eq [symmetric] claimed(4)
    by (elim disjE; simp add: update_admitted_def same_identity_def claim_row_def IsTerminal_def CanTransition_def)
next
  case (closed m1 m1' q g as ts)
  then have eq: "m1 = m" "m1' = m'" by simp_all
  have "jm_state m' \<noteq> jm_state m" using closed(2) CanTransition_irrefl eq by (metis closed_row_def)
  then show ?case
    using closed(1,2) unfolding eq active_def
    by (elim disjE; simp add: update_admitted_def same_identity_def closed_row_def IsTerminal_def)
next
  case (beaten m1 m1' g as ts q)
  then show ?case by (simp add: update_admitted_def same_identity_def heartbeat_row_def IsTerminal_def)
qed simp

lemma job_moves_admitted:
  assumes "job_move\<^sup>*\<^sup>* v v'" "v_row v = Some m"
  shows "\<exists>m'. v_row v' = Some m' \<and> update_admitted\<^sup>*\<^sup>* m m'"
  using assms
proof (induction rule: rtranclp_induct)
  case (step v1 v2)
  then obtain m1 where m1: "v_row v1 = Some m1" "update_admitted\<^sup>*\<^sup>* m m1" by blast
  have "row_evolves (v_row v1) (v_row v2)" using step(2) by (rule job_move_evolves)
  then obtain m2 where m2: "v_row v2 = Some m2" using m1(1) by (auto simp: row_evolves_def)
  show ?case using m1 m2 job_move_admitted [OF step(2) m1(1) m2] by auto
qed simp

lemma reachable_step_moves:
  assumes "reachable db" "store_step\<^sup>*\<^sup>* db db'"
  shows "db_moves db db'" "db_ok db" "db_ok db'"
  using assms reachable_ok store_steps_moves db_moves_ok by blast+

text \<open>
  C1.  Whatever the store does next, a job's row keeps its identity, payload and budget, moves
  only along the legal state graph, never counts an attempt beyond its budget and, once
  terminal, never changes again.
\<close>

theorem job_rows_evolve_legally:
  assumes "reachable db" "store_step\<^sup>*\<^sup>* db db'" "m \<in> set (job_messages db)"
  shows "\<exists>m' \<in> set (job_messages db'). jm_id m' = jm_id m \<and> jm_spec m' = jm_spec m \<and>
    lifecycle (jm_state m) (jm_state m') \<and>
    jm_attempt_count m \<le> jm_attempt_count m' \<and> jm_attempt_count m' \<le> jm_max_attempts m \<and>
    (IsTerminal (jm_state m) \<longrightarrow> m' = m)"
proof -
  note moves = reachable_step_moves [OF assms(1,2)]
  have v: "v_row (view db (jm_id m)) = Some m" using db_ok_row(1) moves(2) assms(3) by blast
  obtain m' where m': "v_row (view db' (jm_id m)) = Some m'" "jm_id m' = jm_id m" "jm_spec m' = jm_spec m"
    "lifecycle (jm_state m) (jm_state m')" "jm_attempt_count m \<le> jm_attempt_count m'"
    "IsTerminal (jm_state m) \<longrightarrow> m' = m"
    using db_moves_evolve [OF moves(1), of "jm_id m"] v by (auto simp: row_evolves_def)
  have "row_ok m'" using db_okD(1) [OF moves(3) m'(1)] .
  then have "jm_attempt_count m' \<le> jm_max_attempts m"
    using m'(3) by (simp add: row_ok_def attempts_check_def)
  then show ?thesis using m' view_rowD(1) [OF m'(1)] by blast
qed

text \<open>
   The table trigger never rejects an update of the store: from any reachable database
  every row reaches its next value through updates the trigger admits, so no transaction of
  the store is aborted by it.
\<close>

theorem job_updates_admitted:
  assumes "reachable db" "store_step db db'" "m \<in> set (job_messages db)"
  shows "\<exists>m' \<in> set (job_messages db'). jm_id m' = jm_id m \<and> update_admitted\<^sup>*\<^sup>* m m'"
proof -
  note moves = reachable_step_moves [OF assms(1) r_into_rtranclp [of store_step, OF assms(2)]]
  have "v_row (view db (jm_id m)) = Some m" using db_ok_row(1) moves(2) assms(3) by blast
  then obtain m' where "v_row (view db' (jm_id m)) = Some m'" "update_admitted\<^sup>*\<^sup>* m m'"
    using moves(1) job_moves_admitted unfolding db_moves_def by blast
  then show ?thesis using view_rowD by blast
qed

lemma open_attempts:
  assumes "attempts_ok m as"
  shows "map (\<lambda>a. (Some (at_worker_id a), Some (at_lease_token a))) (filter (\<lambda>a. at_finished_at a = None) as) =
    (if jm_state m = PROCESSING then [(jm_lease_owner m, jm_lease_token m)] else [])"
proof (cases "jm_state m = PROCESSING")
  case True
  obtain past a where "as = past @ [a]" "\<forall>x \<in> set past. finished x" "\<not> finished a"
    "jm_lease_owner m = Some (at_worker_id a)" "jm_lease_token m = Some (at_lease_token a)"
    "at_job_id a = jm_id m"
    by (rule processing_split [OF assms True])
  moreover from this(2) have "filter (\<lambda>a. at_finished_at a = None) past = []" by (simp add: filter_empty_conv)
  ultimately show ?thesis using True by simp
next
  case False
  then have "filter (\<lambda>a. at_finished_at a = None) as = []"
    using assms by (simp add: attempts_ok_def filter_empty_conv)
  then show ?thesis using False by simp
qed


section \<open>Fencing\<close>

lemma live_lease_attempt:
  assumes ok: "db_ok db" and m: "m \<in> set (job_messages db)" "holds_live_lease now claim ref m"
  shows "rows_affected (lease_attempt ref) (job_attempts db) = 1"
proof -
  have st: "jm_state m = PROCESSING" and id: "jm_id m = lr_job_id ref"
    using m(2) by (simp_all add: holds_live_lease_def)
  define as where "as = v_attempts (view db (jm_id m))"
  obtain past a where as: "as = past @ [a]" "\<forall>x \<in> set past. finished x" "\<not> finished a"
    "jm_lease_owner m = Some (at_worker_id a)" "jm_lease_token m = Some (at_lease_token a)"
    "at_job_id a = jm_id m"
    by (rule processing_split [OF db_ok_row(3) [OF ok m(1), folded as_def] st])
  have "filter (lease_attempt ref) (job_attempts db) = filter (lease_attempt ref) as"
    using id by (auto simp: as_def view_def lease_attempt_def intro!: filter_cong)
  moreover have "filter (lease_attempt ref) past = []"
    using as(2) by (auto simp: filter_empty_conv lease_attempt_def)
  moreover have "lease_attempt ref a"
    using as(3-6) m(2) by (simp add: lease_attempt_def holds_live_lease_def)
  ultimately show ?thesis by (simp add: rows_affected_def as(1))
qed

definition leased_by :: "lease_ref \<Rightarrow> job_row \<Rightarrow> bool" where
  "leased_by ref m \<longleftrightarrow> jm_id m = lr_job_id ref \<and> jm_state m = PROCESSING \<and>
     jm_lease_owner m = Some (lr_worker_id ref) \<and> jm_lease_token m = Some (lr_lease_token ref)"

lemma finalizeLockedJob_live:
  assumes ok: "db_ok db" and m: "m \<in> set (job_messages db)" "holds_live_lease now claim ref m"
    and fz: "fz_state fz \<in> {SUCCEEDED, DEAD_LETTER, RETRYING}"
  obtains db' where "finalizeLockedJob now ref fz db = Inr db'"
    "job_messages db' = update_where (\<lambda>r. jm_id r = jm_id m)
       (\<lambda>r. enforce_job_message_state now r (finalized_row now fz r)) (job_messages db)"
proof -
  have lm: "leased_by ref m" using m(2) by (simp add: leased_by_def holds_live_lease_def)
  have dist: "rows_distinct db" using ok by (simp add: db_ok_def)
  have same: "leased_by ref r \<longleftrightarrow> jm_id r = jm_id m" if "r \<in> set (job_messages db)" for r
    using row_unique [OF dist that m(1)] lm by (auto simp: leased_by_def)
  have one: "rows_affected (leased_by ref) (job_messages db) = 1"
  proof (rule rows_affected_one [where k = jm_id])
    show "distinct (map jm_id (job_messages db))" using dist by (simp add: rows_distinct_def)
  qed (use m(1) lm in \<open>auto simp: leased_by_def\<close>)
  have st: "\<exists>t. DatabaseState (fz_state fz) = Inr t" using fz by (auto simp: DatabaseState_def)
  have upd: "update_where (leased_by ref) f (job_messages db) = update_where (\<lambda>r. jm_id r = jm_id m) f (job_messages db)"
    for f by (rule update_where_cong) (rule same)
  have p: "(\<lambda>m. jm_id m = lr_job_id ref \<and> jm_state m = PROCESSING \<and>
      jm_lease_owner m = Some (lr_worker_id ref) \<and> jm_lease_token m = Some (lr_lease_token ref)) = leased_by ref"
    by (rule ext) (simp add: leased_by_def)
  show thesis
    by (rule that) (use one st upd live_lease_attempt [OF ok m] in
      \<open>auto simp: finalizeLockedJob_def Let_def p update_commute update_messages_def\<close>)
qed

lemma lockLive_none:
  assumes "\<forall>m \<in> set (job_messages db). \<not> holds_live_lease now claim ref m"
  shows "lockLiveJobLease now claim ref db = Inl ErrLeaseLost"
proof -
  have "select_first (holds_live_lease now claim ref) (job_messages db) = None"
    using assms by (simp add: select_first_None)
  then show ?thesis by (simp add: lockLiveJobLease_def)
qed

lemma lockLive_live:
  assumes "db_ok db" "m \<in> set (job_messages db)" "holds_live_lease now claim ref m"
  shows "lockLiveJobLease now claim ref db = Inr (jm_attempt_count m, jm_max_attempts m)"
proof -
  have "select_first (holds_live_lease now claim ref) (job_messages db) = Some m"
    by (rule select_first_unique [where k = jm_id])
      (use assms in \<open>auto simp: db_ok_def rows_distinct_def holds_live_lease_def\<close>)
  then show ?thesis by (simp add: lockLiveJobLease_def)
qed

text \<open>The tables differ in one job only, which is now in state \<^verbatim>\<open>s\<close>.\<close>

definition finalized_to :: "job_db \<Rightarrow> uuid \<Rightarrow> job_state \<Rightarrow> job_db \<Rightarrow> bool" where
  "finalized_to db i s db' \<longleftrightarrow>
     map jm_state (filter (\<lambda>r. jm_id r = i) (job_messages db')) = [s] \<and>
     filter (\<lambda>r. jm_id r \<noteq> i) (job_messages db') = filter (\<lambda>r. jm_id r \<noteq> i) (job_messages db)"

lemma finalized_toI:
  assumes ok: "db_ok db" and m: "m \<in> set (job_messages db)"
    and rows': "job_messages db' = update_where (\<lambda>r. jm_id r = jm_id m)
       (\<lambda>r. enforce_job_message_state now r (finalized_row now fz r)) (job_messages db)"
  shows "finalized_to db (jm_id m) (fz_state fz) db'"
proof -
  have "filter (\<lambda>r. jm_id r = jm_id m) (job_messages db) = [m]"
    using filter_by_id [of "job_messages db" "jm_id m"] ok db_ok_row(1) [OF ok m]
    by (simp add: db_ok_def rows_distinct_def view_def)
  moreover have "filter (\<lambda>r. jm_id r = jm_id m) (job_messages db') = update_where (\<lambda>r. jm_id r = jm_id m)
     (\<lambda>r. enforce_job_message_state now r (finalized_row now fz r)) (filter (\<lambda>r. jm_id r = jm_id m) (job_messages db))"
    unfolding rows' by (rule filter_update_where) (simp add: finalized_row_def clear_lease_def)
  moreover have "filter (\<lambda>r. jm_id r \<noteq> jm_id m) (job_messages db') = filter (\<lambda>r. jm_id r \<noteq> jm_id m) (job_messages db)"
    unfolding rows'
    by (subst filter_update_where) (auto simp: finalized_row_def clear_lease_def intro: update_where_none)
  ultimately show ?thesis by (simp add: finalized_to_def finalized_row_def clear_lease_def)
qed

lemma finalizeLockedJob_finalizes:
  assumes "db_ok db" "m \<in> set (job_messages db)" "holds_live_lease now claim ref m"
    and "fz_state fz \<in> {SUCCEEDED, DEAD_LETTER, RETRYING}"
  obtains db' where "finalizeLockedJob now ref fz db = Inr db'" "finalized_to db (jm_id m) (fz_state fz) db'"
  by (rule finalizeLockedJob_live [OF assms]) (use finalized_toI [OF assms(1,2)] that in blast)

lemma live_lease_runs:
  assumes "reachable db" "valid_lease env ref" "valid_failure env failure" "\<not> module_lock_fails env claim"
    and "m \<in> set (job_messages db)" "holds_live_lease now claim ref m"
  shows "\<exists>db'. Complete env now claim ref ex db = (Inr (), db') \<and> finalized_to db (jm_id m) SUCCEEDED db'"
    and "\<exists>db'. DeadLetter env now claim ref failure db = (Inr (), db') \<and> finalized_to db (jm_id m) DEAD_LETTER db'"
    and "let s = (if jm_max_attempts m \<le> jm_attempt_count m then DEAD_LETTER else RETRYING)
         in \<exists>db'. Retry env now claim ref failure retry_at db = (Inr s, db') \<and> finalized_to db (jm_id m) s db'"
proof -
  note ok = reachable_ok [OF assms(1)]
  note live = lockLive_live [OF ok assms(5,6)]
  note runs = finalizeLockedJob_finalizes [OF ok assms(5,6)]
  show "\<exists>db'. Complete env now claim ref ex db = (Inr (), db') \<and> finalized_to db (jm_id m) SUCCEEDED db'"
    by (rule runs [of "\<lparr>fz_state = SUCCEEDED, fz_outcome = ''succeeded'', fz_failure = None,
        fz_execution = ex, fz_available = None\<rparr>"])
      (use live assms(2,4) in \<open>simp_all add: Complete_def finalize_def commit_def\<close>)
  show "\<exists>db'. DeadLetter env now claim ref failure db = (Inr (), db') \<and> finalized_to db (jm_id m) DEAD_LETTER db'"
    by (rule runs [of "\<lparr>fz_state = DEAD_LETTER, fz_outcome = ''permanent_failure'',
        fz_failure = Some failure, fz_execution = None, fz_available = None\<rparr>"])
      (use live assms(2-4) in \<open>simp_all add: DeadLetter_def finalize_def commit_def\<close>)
  let ?s = "if jm_max_attempts m \<le> jm_attempt_count m then DEAD_LETTER else RETRYING"
  have "\<exists>db'. Retry env now claim ref failure retry_at db = (Inr ?s, db') \<and> finalized_to db (jm_id m) ?s db'"
    by (rule runs [of "\<lparr>fz_state = ?s, fz_outcome = ''retryable_failure'', fz_failure = Some failure,
        fz_execution = None, fz_available = Some retry_at\<rparr>"])
      (use live assms(2-4) in \<open>simp_all add: Retry_def finalizeRetry_def Let_def\<close>)
  then show "let s = ?s in \<exists>db'. Retry env now claim ref failure retry_at db = (Inr s, db') \<and>
      finalized_to db (jm_id m) s db'"
    by (simp only: Let_def)
qed



section \<open>Claims\<close>

lemma v_row_update_messages:
  assumes "rows_distinct db" "\<And>m. p m \<Longrightarrow> jm_id (f m) = jm_id m"
  shows "v_row (view (update_messages now p f db) i) =
    map_option (\<lambda>m. if p m then enforce_job_message_state now m (f m) else m) (v_row (view db i))"
  by (simp add: view_update_messages [OF assms(1), of p f] assms(2) Let_def split: option.split)

lemma v_row_update_attempts [simp]: "v_row (view (update_attempts q g db) i) = v_row (view db i)"
  by (simp add: view_def update_attempts_def)

lemma cancelRevoked_row:
  assumes "rows_distinct db" "v_row (view (cancelRevokedModuleJobs env now clock queue db) i) = Some m"
  obtains "v_row (view db i) = Some m" "\<not> (jm_queue m = queue \<and> active m \<and> authority_revoked env m)"
  | "jm_state m = CANCELED"
proof -
  let ?p = "\<lambda>m. jm_queue m = queue \<and> active m \<and> authority_revoked env m"
  obtain m0 where m0: "v_row (view db i) = Some m0" and m: "m = (if ?p m0 then
      enforce_job_message_state now m0 ((clear_lease m0)\<lparr>jm_state := CANCELED, jm_completed_at := Some clock,
         jm_last_error_code := Some ''revoked_authority'',
         jm_last_error_message := Some ''installation authority changed''\<rparr>) else m0)"
    using assms by (auto simp: cancelRevokedModuleJobs_def Let_def v_row_update_messages clear_lease_def)
  show thesis
  proof (cases "?p m0")
    case True
    then have "jm_state m = CANCELED" using m by simp
    then show ?thesis by (rule that(2))
  next
    case False
    then have "m = m0" using m by (simp only: if_False)
    then show ?thesis using m0 False that(1) by blast
  qed
qed

lemma recoverExpired_row:
  assumes ok: "db_ok db" and v: "v_row (view (recoverExpiredJobLeases now locked queue limit db) i) = Some m"
  obtains "v_row (view db i) = Some m"
  | m0 where "v_row (view db i) = Some m0" "jm_state m0 = PROCESSING" "lease_expired now m0"
      "m = enforce_job_message_state now m0 (recover_row now m0)"
proof -
  define expired where "expired = select_ordered expiry_order
    (\<lambda>m. jm_queue m = queue \<and> jm_state m = PROCESSING \<and> lease_expired now m \<and> \<not> locked (jm_id m))
    limit (job_messages db)"
  define closed where "closed = map at_job_id (filter (\<lambda>a. \<exists>m \<in> set expired. at_job_id a = jm_id m \<and>
    jm_lease_token m = Some (at_lease_token a) \<and> at_finished_at a = None) (job_attempts db))"
  let ?p = "\<lambda>m. jm_id m \<in> set (map jm_id expired) \<and> jm_id m \<in> set closed"
  have dist: "rows_distinct db" using ok by (simp add: db_ok_def)
  have "v_row (view (recoverExpiredJobLeases now locked queue limit db) i) =
      map_option (\<lambda>m. if ?p m then enforce_job_message_state now m (recover_row now m) else m) (v_row (view db i))"
    unfolding recoverExpiredJobLeases_def Let_def expired_def [symmetric] closed_def [symmetric] v_row_update_attempts
    by (rule v_row_update_messages [OF dist]) (simp add: recover_row_def clear_lease_def)
  then obtain m0 where m0: "v_row (view db i) = Some m0"
    and m: "m = (if ?p m0 then enforce_job_message_state now m0 (recover_row now m0) else m0)"
    unfolding v by (cases "v_row (view db i)") simp_all
  show thesis
  proof (cases "?p m0")
    case True
    then obtain e where e: "e \<in> set expired" "jm_id e = jm_id m0" by auto
    note exp = select_orderedD [OF e(1) [unfolded expired_def]]
    have "e = m0" using row_unique [OF dist exp(1) view_rowD(1) [OF m0] e(2)] .
    then show ?thesis using exp(2) m True m0 by (intro that(2) [of m0]) simp_all
  next
    case False
    then have "m = m0" using m by (simp only: if_False)
    then show ?thesis using m0 that(1) by blast
  qed
qed

text \<open>What an active row of the swept tables was before the sweep.\<close>

definition sweeps :: "job_env \<Rightarrow> time \<Rightarrow> string \<Rightarrow> job_row \<Rightarrow> job_row \<Rightarrow> bool" where
  "sweeps env now queue m0 m \<longleftrightarrow>
     \<not> (jm_queue m0 = queue \<and> active m0 \<and> authority_revoked env m0) \<and>
     (m = m0 \<or> (jm_state m0 = PROCESSING \<and> lease_expired now m0 \<and>
       m = enforce_job_message_state now m0 (recover_row now m0)))"

lemma swept_row:
  assumes ok: "db_ok db" and v: "v_row (view (swept env now clock locked req db) i) = Some m"
    and act: "active m"
  obtains m0 where "v_row (view db i) = Some m0" "sweeps env now (cl_queue req) m0 m"
proof -
  let ?db1 = "cancelRevokedModuleJobs env now clock (cl_queue req) db"
  have ok1: "db_ok ?db1" using db_moves_ok [OF cancelRevoked_moves [OF ok] ok] .
  have dist: "rows_distinct db" using ok by (simp add: db_ok_def)
  obtain m1 where m1: "v_row (view ?db1 i) = Some m1" "m = m1 \<or> (jm_state m1 = PROCESSING \<and>
      lease_expired now m1 \<and> m = enforce_job_message_state now m1 (recover_row now m1))"
    by (rule recoverExpired_row [OF ok1 v [unfolded swept_def]]) blast+
  have "jm_state m1 \<noteq> CANCELED" using m1(2) act by (auto simp: active_def)
  then have "v_row (view db i) = Some m1 \<and> \<not> (jm_queue m1 = cl_queue req \<and> active m1 \<and> authority_revoked env m1)"
    using cancelRevoked_row [OF dist m1(1)] by blast
  then show thesis using m1(2) by (intro that [of m1]) (simp_all add: sweeps_def)
qed

lemma swept_ok: "db_ok db \<Longrightarrow> db_ok (swept env now clock locked req db)"
  unfolding swept_def
  by (rule db_moves_ok [OF recoverExpired_moves]; rule db_moves_ok [OF cancelRevoked_moves]; assumption)

text \<open>The rows a claim returns are the candidates, leased.\<close>

definition leased_row ::
  "time \<Rightarrow> module_authority option \<Rightarrow> claim_request \<Rightarrow> (uuid \<Rightarrow> uuid) \<Rightarrow> job_row \<Rightarrow> job_row" where
  "leased_row now claim req fresh m = enforce_job_message_state now m (claim_row now claim req fresh m)"

lemma leased_row_simps [simp]:
  "jm_id (leased_row now claim req fresh m) = jm_id m"
  "jm_spec (leased_row now claim req fresh m) = jm_spec m"
  "jm_state (leased_row now claim req fresh m) = PROCESSING"
  "jm_lease_owner (leased_row now claim req fresh m) = Some (cl_worker_id req)"
  "jm_lease_token (leased_row now claim req fresh m) = Some (fresh (jm_id m))"
  "jm_lease_expires_at (leased_row now claim req fresh m) = Some (now + cl_lease_duration req)"
  "jm_attempt_count (leased_row now claim req fresh m) = jm_attempt_count m + 1"
  "claim_order (leased_row now claim req fresh m) = claim_order m"
  "jm_consumer_authority (leased_row now claim req fresh m) =
     (case claim of None \<Rightarrow> jm_consumer_authority m | Some a \<Rightarrow> Some (authority_attributes a))"
  by (simp_all add: leased_row_def claim_row_def claim_order_def)

lemma claimJobsSQL_rows:
  assumes dist: "rows_distinct db"
    and cs_def: "cs = claim_candidates env now locked claim req (job_messages db)"
  shows "mset (fst (claimJobsSQL env now locked claim req fresh db)) =
    mset (map (leased_row now claim req fresh) cs)"
    and "job_messages (snd (claimJobsSQL env now locked claim req fresh db)) =
      update_where (\<lambda>m. m \<in> set cs) (leased_row now claim req fresh) (job_messages db)"
proof -
  let ?p = "\<lambda>m. jm_id m \<in> set (map jm_id cs)"
  have sub: "set cs \<subseteq> set (job_messages db)" unfolding cs_def using claim_candidatesD(1) by blast
  have p: "?p m \<longleftrightarrow> m \<in> set cs" if "m \<in> set (job_messages db)" for m
    using row_unique [OF dist _ that] sub by auto
  have upd: "update_where ?p (leased_row now claim req fresh) (job_messages db) =
      update_where (\<lambda>m. m \<in> set cs) (leased_row now claim req fresh) (job_messages db)"
    by (rule update_where_cong) (rule p)
  have "filter ?p (update_where ?p (leased_row now claim req fresh) rows) =
      map (leased_row now claim req fresh) (filter ?p rows)" for rows
    by (induction rows) simp_all
  then have rows: "fst (claimJobsSQL env now locked claim req fresh db) =
      sort_key claim_order (map (leased_row now claim req fresh) (filter ?p (job_messages db)))"
    by (simp add: claimJobsSQL_def Let_def update_messages_def cs_def [symmetric] leased_row_def [symmetric])
  have "distinct (job_messages db)" "distinct cs"
    using dist distinct_select_ordered [of jm_id "job_messages db" claim_order]
    by (simp_all add: rows_distinct_def cs_def claim_candidates_def distinct_map)
  moreover have "set (filter ?p (job_messages db)) = set cs" using p sub by auto
  ultimately have "mset (filter ?p (job_messages db)) = mset cs"
    by (metis distinct_filter set_eq_iff_mset_eq_distinct)
  then show "mset (fst (claimJobsSQL env now locked claim req fresh db)) =
      mset (map (leased_row now claim req fresh) cs)"
    by (simp add: rows)
  show "job_messages (snd (claimJobsSQL env now locked claim req fresh db)) =
      update_where (\<lambda>m. m \<in> set cs) (leased_row now claim req fresh) (job_messages db)"
    using upd
    by (simp add: claimJobsSQL_def Let_def update_messages_def cs_def [symmetric] leased_row_def [symmetric])
qed

lemma scan_all_list: "scan_all ms = Inr es \<Longrightarrow> list_all2 (\<lambda>m e. scanJobEnvelope m = Inr e) ms es"
  by (induction ms arbitrary: es) (auto simp: rbind_eq_Inr)

lemma scan_all_member:
  "scan_all ms = Inr es \<Longrightarrow> e \<in> set es \<Longrightarrow> \<exists>m \<in> set ms. scanJobEnvelope m = Inr e"
  by (induction ms arbitrary: es) (auto simp: rbind_eq_Inr)

lemma authority_revoked_cong:
  assumes "jm_id m = jm_id m'" "jm_spec m = jm_spec m'" "jm_consumer_authority m = jm_consumer_authority m'"
  shows "authority_revoked env m \<longleftrightarrow> authority_revoked env m'"
  using assms by (simp only: authority_revoked_def is_installation_step_def)

lemma reparsed_state:
  "rbind (DatabaseState s) ParseDatabaseState = Inr t \<longleftrightarrow> t = s \<and> is_ok (DatabaseState s)"
  by (cases s) (auto simp: DatabaseState_def ParseDatabaseState_def)

lemma scanJobEnvelope_fields:
  assumes "scanJobEnvelope m = Inr e"
  shows "je_id e = jm_id m" "je_state e = jm_state m" "je_attempt_count e = jm_attempt_count m"
    "je_ordering_key e = coalesce (js_ordering_key (jm_spec m))"
    "je_lease e = (if coalesce (jm_lease_owner m) \<noteq> []
       then Some \<lparr>jl_owner = coalesce (jm_lease_owner m), jl_token = coalesce (jm_lease_token m),
                  jl_expires_at = jm_lease_expires_at m, jl_heartbeat_at = jm_heartbeat_at m\<rparr> else None)"
  using assms
  by (auto simp: scanJobEnvelope_def Let_def rbind_eq_Inr [of "ParseDatabaseDirection d" for d]
      rbind_eq_Inr [of "databaseJobScope k o_id s_id" for k o_id s_id]
      rbind_eq_Inr [of "rbind (DatabaseState s) ParseDatabaseState" for s] reparsed_state)

lemma scanJobEnvelope_total:
  assumes "row_ok m"
  shows "\<exists>e. scanJobEnvelope m = Inr e"
proof -
  have "\<exists>d. ParseDatabaseDirection (js_direction (jm_spec m)) = Inr d"
    using assms by (auto simp: row_ok_def spec_ok_def ParseDatabaseDirection_def)
  moreover have "is_ok (DatabaseState (jm_state m))"
    using assms by (auto simp: row_ok_def active_def IsTerminal_def DatabaseState_def)
  then have "\<exists>s. rbind (DatabaseState (jm_state m)) ParseDatabaseState = Inr s"
    by (simp add: reparsed_state)
  moreover have "js_scope_kind (jm_spec m) \<in> {''tenant'', ''subject'', ''global''}"
    using assms by (simp only: row_ok_def spec_ok_def simp_thms)
  then have "\<exists>sc. databaseJobScope (js_scope_kind (jm_spec m)) o_id s_id = Inr sc" for o_id s_id
    unfolding databaseJobScope_def by auto
  ultimately show ?thesis
    unfolding scanJobEnvelope_def Let_def by (metis rbind_simps(2))
qed

lemma scan_all_total: "(\<And>m. m \<in> set ms \<Longrightarrow> row_ok m) \<Longrightarrow> \<exists>es. scan_all ms = Inr es"
proof (induction ms)
  case (Cons m ms)
  then obtain e es where "scanJobEnvelope m = Inr e" "scan_all ms = Inr es"
    using scanJobEnvelope_total by (metis list.set_intros)
  then show ?case by simp
qed simp

text \<open>What a successful claim did: the swept tables, the candidates, and one envelope for each.\<close>

lemma Claim_Inr:
  assumes ok: "db_ok db" and run: "Claim env now clock locked claim req fresh db = (Inr es, db')"
  obtains cs where
    "cs = claim_candidates env now locked claim req (job_messages (swept env now clock locked req db))"
    "mset (map je_id es) = mset (map jm_id cs)"
    "\<And>e. e \<in> set es \<Longrightarrow> \<exists>m \<in> set cs. scanJobEnvelope (leased_row now claim req fresh m) = Inr e"
    "job_messages db' = update_where (\<lambda>m. m \<in> set cs) (leased_row now claim req fresh)
       (job_messages (swept env now clock locked req db))"
proof -
  let ?db2 = "swept env now clock locked req db"
  define cs where "cs = claim_candidates env now locked claim req (job_messages ?db2)"
  have sc: "scan_all (fst (claimJobsSQL env now locked claim req fresh ?db2)) = Inr es"
    and db': "db' = snd (claimJobsSQL env now locked claim req fresh ?db2)"
    using Claim_cases [of env now clock locked claim req fresh db] run by auto
  have dist: "rows_distinct ?db2" using swept_ok [OF ok] by (simp add: db_ok_def)
  note rows = claimJobsSQL_rows [OF dist cs_def, of fresh]
  note l2 = scan_all_list [OF sc]
  have "map je_id es = map jm_id (fst (claimJobsSQL env now locked claim req fresh ?db2))"
    using l2 by (induction rule: list_all2_induct) (simp_all add: scanJobEnvelope_fields)
  then have "mset (map je_id es) = mset (map jm_id cs)"
    using arg_cong [OF rows(1), of "image_mset jm_id"]
    by (simp add: mset_map [symmetric] del: mset_map) (simp add: comp_def)
  moreover have "\<exists>m \<in> set cs. scanJobEnvelope (leased_row now claim req fresh m) = Inr e" if e: "e \<in> set es" for e
  proof -
    obtain r where "r \<in> set (fst (claimJobsSQL env now locked claim req fresh ?db2))" "scanJobEnvelope r = Inr e"
      using scan_all_member [OF sc e] by blast
    then show ?thesis using mset_eq_setD [OF rows(1)] by auto
  qed
  ultimately show thesis using that [OF cs_def] rows(2) db' by simp
qed

text \<open>
  C2.  A claim hands out exclusive leases: at most the requested number, no job twice, every
  envelope processing under the claiming worker's fresh token for the requested duration,
  and no job that a live lease held when the transaction began or whose attempts were spent.
\<close>

theorem claim_exclusive:
  assumes "reachable db" "Claim env now clock locked claim req fresh db = (Inr es, db')"
    and "cl_worker_id req \<noteq> []"
  shows "length es \<le> cl_limit req \<and> distinct (map je_id es) \<and>
    (\<forall>e \<in> set es. je_state e = PROCESSING \<and>
       (\<exists>l. je_lease e = Some l \<and> jl_owner l = cl_worker_id req \<and> jl_token l = fresh (je_id e) \<and>
            jl_expires_at l = Some (now + cl_lease_duration req)) \<and>
       (\<exists>m \<in> set (job_messages db). jm_id m = je_id e \<and> jm_queue m = cl_queue req \<and> active m \<and>
          je_attempt_count e = jm_attempt_count m + 1 \<and> je_attempt_count e \<le> jm_max_attempts m \<and>
          (jm_state m = PROCESSING \<longrightarrow> lease_expired now m)))"
proof -
  note ok = reachable_ok [OF assms(1)]
  let ?db2 = "swept env now clock locked req db"
  obtain cs where cs: "cs = claim_candidates env now locked claim req (job_messages ?db2)"
    and ids: "mset (map je_id es) = mset (map jm_id cs)"
    and env: "\<And>e. e \<in> set es \<Longrightarrow> \<exists>m \<in> set cs. scanJobEnvelope (leased_row now claim req fresh m) = Inr e"
    by (rule Claim_Inr [OF ok assms(2)]) blast
  have "length es = length cs" using arg_cong [OF ids, of size] by simp
  then have len: "length es \<le> cl_limit req"
    using length_select_ordered by (simp add: cs claim_candidates_def)
  have "distinct (map jm_id cs)"
    using swept_ok [OF ok] unfolding cs claim_candidates_def
    by (intro distinct_select_ordered) (simp add: db_ok_def rows_distinct_def)
  then have dist: "distinct (map je_id es)" using ids by (metis mset_eq_imp_distinct_iff)
  show ?thesis
  proof (intro conjI ballI len dist)
    fix e assume "e \<in> set es"
    then obtain m where m: "m \<in> set cs" "scanJobEnvelope (leased_row now claim req fresh m) = Inr e"
      using env by blast
    note e = scanJobEnvelope_fields [OF m(2), simplified]
    show "je_state e = PROCESSING" by (rule e(2))
    show "\<exists>l. je_lease e = Some l \<and> jl_owner l = cl_worker_id req \<and> jl_token l = fresh (je_id e) \<and>
        jl_expires_at l = Some (now + cl_lease_duration req)"
      using e(1,5) assms(3) by (simp add: coalesce_def)
    have m2: "m \<in> set (job_messages ?db2)" and cl: "claimable env now claim (cl_queue req) (job_messages ?db2) m"
      using claim_candidatesD m(1) unfolding cs by blast+
    have v: "v_row (view ?db2 (jm_id m)) = Some m" using db_ok_row(1) [OF swept_ok [OF ok] m2] .
    have act: "active m" using cl by (auto simp: claimable_def active_def)
    obtain m0 where m0: "v_row (view db (jm_id m)) = Some m0" "sweeps env now (cl_queue req) m0 m"
      by (rule swept_row [OF ok v act])
    have same: "jm_spec m0 = jm_spec m" "jm_attempt_count m0 = jm_attempt_count m"
      and exp: "jm_state m0 = PROCESSING \<longrightarrow> lease_expired now m0" and act0: "active m0"
      using m0(2) cl by (auto simp: sweeps_def recover_row_def clear_lease_def claimable_def active_def)
    then show "\<exists>m \<in> set (job_messages db). jm_id m = je_id e \<and> jm_queue m = cl_queue req \<and> active m \<and>
        je_attempt_count e = jm_attempt_count m + 1 \<and> je_attempt_count e \<le> jm_max_attempts m \<and>
        (jm_state m = PROCESSING \<longrightarrow> lease_expired now m)"
      using cl e(1,3) view_rowD [OF m0(1)] by (intro bexI [of _ m0]) (auto simp: claimable_def)
  qed
qed

text \<open>
  C19.  A well-formed claim whose module authority is current always returns, and returns as many
  jobs as it may: the requested number, or every claimable unlocked job of the queue when
  there are fewer; and nothing it leaves behind was due before anything it took.
\<close>

theorem claim_serves_the_queue:
  assumes "reachable db" "valid_claim env req" "\<not> module_lock_fails env claim" "fresh_tokens fresh db"
  shows "\<exists>es db'. Claim env now clock locked claim req fresh db = (Inr es, db') \<and>
    (let rows = job_messages (swept env now clock locked req db);
         due = filter (\<lambda>m. claimable env now claim (cl_queue req) rows m \<and> \<not> locked (jm_id m)) rows
     in length es = min (cl_limit req) (length due) \<and>
        (\<forall>e \<in> set es. \<exists>m \<in> set due. jm_id m = je_id e \<and>
           (\<forall>r \<in> set due. jm_id r \<notin> je_id ` set es \<longrightarrow> claim_order m \<le> claim_order r)))"
proof -
  note ok = reachable_ok [OF assms(1)]
  let ?db2 = "swept env now clock locked req db"
  let ?rows = "job_messages ?db2"
  let ?p = "\<lambda>m. claimable env now claim (cl_queue req) ?rows m \<and> \<not> locked (jm_id m)"
  define due where "due = filter ?p ?rows"
  have dist: "rows_distinct ?db2" using swept_ok [OF ok] by (simp add: db_ok_def)
  have "row_ok r" if r: "r \<in> set (fst (claimJobsSQL env now locked claim req fresh ?db2))" for r
  proof -
    have tok: "fresh_tokens fresh ?db2"
      using assms(4) fresh_tokens_cong job_attempts_tokens unfolding swept_def by metis
    have "r \<in> set (job_messages (snd (claimJobsSQL env now locked claim req fresh ?db2)))"
      using r by (auto simp: claimJobsSQL_def Let_def)
    then show ?thesis using db_ok_row(2) db_moves_ok [OF claim_moves] swept_ok [OF ok] tok by blast
  qed
  then obtain es where sc: "scan_all (fst (claimJobsSQL env now locked claim req fresh ?db2)) = Inr es"
    using scan_all_total by blast
  obtain ms db' where sql: "claimJobsSQL env now locked claim req fresh ?db2 = (ms, db')" by fastforce
  have run: "Claim env now clock locked claim req fresh db = (Inr es, db')"
    using assms(2,3) sc sql unfolding Claim_def Let_def swept_def [symmetric]
    by (simp add: module_lock_fails_def split: option.splits)
  obtain cs where cs: "cs = claim_candidates env now locked claim req ?rows"
    and ids: "mset (map je_id es) = mset (map jm_id cs)"
    by (rule Claim_Inr [OF ok run]) blast
  have len: "length es = min (cl_limit req) (length due)"
    using arg_cong [OF ids, of size] by (simp add: cs claim_candidates_def select_ordered_def due_def min.commute)
  have id_set: "je_id ` set es = jm_id ` set cs" using mset_eq_setD [OF ids] by simp
  have "\<exists>m \<in> set due. jm_id m = je_id e \<and>
      (\<forall>r \<in> set due. jm_id r \<notin> je_id ` set es \<longrightarrow> claim_order m \<le> claim_order r)" if e: "e \<in> set es" for e
  proof -
    obtain m where m: "m \<in> set cs" "jm_id m = je_id e" using e id_set by (metis imageE imageI)
    have "m \<in> set due" using claim_candidatesD m(1) unfolding cs due_def by simp
    moreover have "claim_order m \<le> claim_order r" if r: "r \<in> set due" "jm_id r \<notin> je_id ` set es" for r
    proof (rule select_ordered_least [where p = ?p and n = "cl_limit req" and rows = ?rows])
      show "m \<in> set (select_ordered claim_order ?p (cl_limit req) ?rows)"
        using m(1) by (simp add: cs claim_candidates_def)
      show "r \<in> set ?rows" using r(1) by (simp add: due_def)
      show "?p r" using r(1) by (simp add: due_def)
      show "r \<notin> set (select_ordered claim_order ?p (cl_limit req) ?rows)"
        using r(2) id_set by (auto simp: cs claim_candidates_def)
    qed
    ultimately show ?thesis using m(2) by blast
  qed
  then show ?thesis using run len unfolding due_def [symmetric] Let_def by blast
qed

text \<open>
   A claim never works for a revoked installation: after it no active job of the queue
  carries a producer or consumer authority that is no longer current, the freshly leased
  ones included.
\<close>

theorem claim_leaves_no_revoked_job:
  assumes "reachable db" "Claim env now clock locked claim req fresh db = (Inr es, db')"
    and "m \<in> set (job_messages db')" "jm_queue m = cl_queue req" "active m"
  shows "\<not> authority_revoked env m"
proof -
  note ok = reachable_ok [OF assms(1)]
  let ?db2 = "swept env now clock locked req db"
  obtain cs where cs: "cs = claim_candidates env now locked claim req (job_messages ?db2)"
    and rows: "job_messages db' = update_where (\<lambda>m. m \<in> set cs) (leased_row now claim req fresh) (job_messages ?db2)"
    by (rule Claim_Inr [OF ok assms(2)]) blast
  obtain m2 where m2: "m2 \<in> set (job_messages ?db2)"
    "m = (if m2 \<in> set cs then leased_row now claim req fresh m2 else m2)"
    using assms(3) unfolding rows by (rule in_update_whereE)
  have same: "jm_id m = jm_id m2" "jm_spec m = jm_spec m2" using m2(2) by (cases "m2 \<in> set cs"; simp)+
  show ?thesis
  proof (cases "m2 \<in> set cs")
    case True
    then have cl: "claimable env now claim (cl_queue req) (job_messages ?db2) m2"
      using claim_candidatesD(2) unfolding cs by blast
    have "\<not> (case jm_consumer_authority m of None \<Rightarrow> False | Some a \<Rightarrow> \<not> module_job_authority_current env a)"
      using cl True m2(2)
      by (cases claim) (auto simp: claimable_def consumer_authority_current_def module_may_claim_def split: option.splits)
    moreover have "producer_authority_current env m2" using cl by (simp add: claimable_def)
    ultimately show ?thesis
      using same by (simp add: authority_revoked_def producer_authority_current_def is_installation_step_def
          split: if_splits)
  next
    case False
    then have "m = m2" using m2(2) by simp
    then have v: "v_row (view ?db2 (jm_id m)) = Some m" using db_ok_row(1) [OF swept_ok [OF ok]] m2(1) by blast
    obtain m0 where "v_row (view db (jm_id m)) = Some m0" and sw: "sweeps env now (cl_queue req) m0 m"
      by (rule swept_row [OF ok v assms(5)])
    have "jm_id m = jm_id m0" "jm_spec m = jm_spec m0" "jm_consumer_authority m = jm_consumer_authority m0" "active m0"
      using sw assms(5) by (auto simp: sweeps_def recover_row_def clear_lease_def active_def)
    then show ?thesis
      using sw assms(4) authority_revoked_cong [of m m0] by (simp add: sweeps_def)
  qed
qed

end
