(* ===== verification/Job_Ordering.thy ===== *)
theory Job_Ordering
  imports Job_Properties
begin

text \<open>
  Idempotent enqueueing and the per-key order of the job store.  Rows are only ever appended,
  and a row's identity and specification never change; both facts are read off the list of
  keys \<^verbatim>\<open>keyed\<close>.
\<close>

section \<open>Rows are appended, never rewritten\<close>

definition keyed :: "job_db \<Rightarrow> (uuid \<times> job_spec) list" where
  "keyed db = map (\<lambda>m. (jm_id m, jm_spec m)) (job_messages db)"

definition unknown_identity :: "job_db \<Rightarrow> job_spec \<Rightarrow> bool" where
  "unknown_identity db sp \<longleftrightarrow> (\<forall>m \<in> set (job_messages db). \<not> same_idempotency (jm_spec m) sp)"

definition appends :: "job_db \<Rightarrow> job_db \<Rightarrow> bool" where
  "appends db db' \<longleftrightarrow> keyed db' = keyed db \<or>
     (\<exists>i sp. keyed db' = keyed db @ [(i, sp)] \<and> unknown_identity db sp)"

lemma keyed_update_messages:
  assumes "\<And>m. p m \<Longrightarrow> jm_id (f m) = jm_id m \<and> jm_spec (f m) = jm_spec m"
  shows "keyed (update_messages now p f db) = keyed db"
  using assms by (simp add: keyed_def update_messages_def map_update_where)

lemma keyed_update_attempts [simp]: "keyed (update_attempts q g db) = keyed db"
  by (simp add: keyed_def update_attempts_def)

lemma keyed_swept: "keyed (swept env now clock locked req db) = keyed db"
  by (simp add: swept_def recoverExpiredJobLeases_def cancelRevokedModuleJobs_def Let_def
      keyed_update_messages recover_row_def clear_lease_def)

lemma keyed_claimJobsSQL: "keyed (snd (claimJobsSQL env now locked claim req fresh db)) = keyed db"
proof -
  have "keyed (snd (claimJobsSQL env now locked claim req fresh db)) =
      keyed (update_messages now (\<lambda>m. jm_id m \<in> set (map jm_id
        (claim_candidates env now locked claim req (job_messages db)))) (claim_row now claim req fresh) db)"
    by (simp add: claimJobsSQL_def Let_def keyed_def)
  also have "\<dots> = keyed db" by (rule keyed_update_messages) (simp add: claim_row_def)
  finally show ?thesis .
qed

lemma keyed_Claim: "keyed (snd (Claim env now clock locked claim req fresh db)) = keyed db"
  using Claim_cases [of env now clock locked claim req fresh db] keyed_claimJobsSQL keyed_swept by force

lemma keyed_Heartbeat: "keyed (snd (Heartbeat env now claim ref extension db)) = keyed db"
  by (simp add: Heartbeat_def Let_def keyed_update_messages)

lemma keyed_finalizeLockedJob: "finalizeLockedJob now ref fz db = Inr db' \<Longrightarrow> keyed db' = keyed db"
  by (auto simp: finalizeLockedJob_def Let_def rbind_eq_Inr keyed_update_messages finalized_row_def
      clear_lease_def split: if_splits)

lemma keyed_finalize: "keyed (snd (finalize env now claim ref fz db)) = keyed db"
  by (auto simp: finalize_def commit_def rbind_eq_Inr dest: keyed_finalizeLockedJob split: sum.splits)

lemma keyed_Retry: "keyed (snd (Retry env now claim ref failure retry_at db)) = keyed db"
  by (auto simp: Retry_def finalizeRetry_def Let_def dest: keyed_finalizeLockedJob split: sum.splits)

lemma keyed_insert_or_find: "appends db (snd (insert_or_find now new_id seq sp available_at db))"
proof -
  have "same_idempotency s (sp\<lparr>js_created_at := now, js_enqueue_seq := seq\<rparr>) \<longleftrightarrow> same_idempotency s sp" for s
    by (simp add: same_idempotency_def)
  then show ?thesis
    by (auto simp: insert_or_find_def appends_def keyed_def insert_message_def new_row_def unknown_identity_def
        select_first_None split: option.split)
qed

lemma appends_refl [simp]: "appends db db"
  by (simp add: appends_def)

lemma appends_response: "appends db (snd r) \<Longrightarrow> appends db (snd (enqueue_response fingerprint r db))"
  using enqueue_response_db [of fingerprint r db] by auto

lemma appends_EnqueueJob: "appends db (snd (EnqueueJob penv env tx now new_id seq job db))"
proof -
  have "appends db (snd (enqueue_job_message ses now new_id seq sp available_at db))" for ses sp available_at
    using keyed_insert_or_find by (simp add: enqueue_job_message_def case_prod_beta)
  then have "appends db (snd (insertPreparedJob ses now new_id seq sp available_at db))" for ses sp available_at
    unfolding insertPreparedJob_def by (rule appends_response)
  then show ?thesis
    by (simp add: EnqueueJob_def enqueuePreparedJob_def split: sum.split prod.split option.split)
qed

lemma appends_replayJob:
  "appends db (snd (replayJob fingerprint ses now new_id seq source_id key available_at db))"
proof -
  have "appends db (snd (replay_job_message ses now new_id seq source_id key available_at f db))" for f
    using keyed_insert_or_find by (simp add: replay_job_message_def case_prod_beta split: option.split)
  then show ?thesis
    by (simp add: replayJob_def appends_response split: sum.split)
qed

lemma store_step_appends: "store_step db db' \<Longrightarrow> appends db db'"
proof (induction rule: store_step.induct)
  case (claim fresh db env now clock locked c req)
  then show ?case by (simp add: appends_def keyed_Claim)
next
  case (complete db env now c ref ex)
  then show ?case by (simp add: appends_def Complete_def keyed_finalize)
next
  case (dead_letter db env now c ref failure)
  then show ?case by (simp add: appends_def DeadLetter_def keyed_finalize)
qed (simp_all add: appends_def [where db' = "snd (Heartbeat env now c ref ext db)" for env now c ref ext db]
      appends_def [where db' = "snd (Retry env now c ref f t db)" for env now c ref f t db]
      keyed_Heartbeat keyed_Retry appends_EnqueueJob appends_replayJob)

section \<open>Idempotent enqueueing\<close>

lemma same_idempotency_sym: "same_idempotency a b \<Longrightarrow> same_idempotency b a"
  by (simp add: same_idempotency_def)

lemma same_idempotency_trans: "same_idempotency a b \<Longrightarrow> same_idempotency b c \<Longrightarrow> same_idempotency a c"
  by (simp add: same_idempotency_def)

definition identities_unique :: "(uuid \<times> job_spec) list \<Rightarrow> bool" where
  "identities_unique ks \<longleftrightarrow> sorted_wrt (\<lambda>a b. \<not> same_idempotency (snd a) (snd b)) ks"

lemma appends_unique: "appends db db' \<Longrightarrow> identities_unique (keyed db) \<Longrightarrow> identities_unique (keyed db')"
  by (auto simp: appends_def identities_unique_def sorted_wrt_append unknown_identity_def keyed_def)

lemma reachable_unique:
  assumes "reachable db"
  shows "identities_unique (keyed db)"
  using assms unfolding reachable_def
  by (induction rule: rtranclp_induct)
    (auto simp: identities_unique_def keyed_def empty_db_def
      dest: store_step_appends appends_unique [unfolded identities_unique_def keyed_def])

lemma store_steps_keyed: "store_step\<^sup>*\<^sup>* db db' \<Longrightarrow> \<exists>new. keyed db' = keyed db @ new"
  by (induction rule: rtranclp_induct) (auto dest!: store_step_appends simp: appends_def)

lemma find_unique_identity:
  assumes "identities_unique (keyed db)" "(i, sp') \<in> set (keyed db)" "same_idempotency sp' sp"
  shows "\<exists>m. select_first (\<lambda>m. same_idempotency (jm_spec m) sp) (job_messages db) = Some m \<and>
    jm_id m = i \<and> jm_spec m = sp'"
  using assms
proof -
  have "\<exists>m. select_first (\<lambda>m. same_idempotency (jm_spec m) sp) rows = Some m \<and> jm_id m = i \<and> jm_spec m = sp'"
    if "identities_unique (map (\<lambda>m. (jm_id m, jm_spec m)) rows)"
      "(i, sp') \<in> set (map (\<lambda>m. (jm_id m, jm_spec m)) rows)" for rows
    using that
  proof (induction rows)
    case (Cons m rows)
    show ?case
    proof (cases "same_idempotency (jm_spec m) sp")
      case True
      have no: "\<forall>r \<in> set rows. \<not> same_idempotency (jm_spec m) (jm_spec r)"
        using Cons.prems(1) by (simp add: identities_unique_def)
      have "same_idempotency (jm_spec m) sp'"
        using True assms(3) same_idempotency_sym same_idempotency_trans by blast
      then have "(i, sp') \<notin> set (map (\<lambda>m. (jm_id m, jm_spec m)) rows)" using no by auto
      then show ?thesis using Cons.prems(2) True by (simp add: select_first_def)
    next
      case False
      then have "(i, sp') \<in> set (map (\<lambda>m. (jm_id m, jm_spec m)) rows)"
        using Cons.prems(2) assms(3) by auto
      then show ?thesis using Cons False by (simp add: select_first_def identities_unique_def)
    qed
  qed simp
  then show ?thesis using assms(1,2) by (simp add: keyed_def)
qed

lemma same_idempotency_refl [simp]: "same_idempotency sp sp"
  by (simp add: same_idempotency_def)

lemma insert_or_find_key:
  assumes "insert_or_find now new_id seq sp available_at db = ((i, stored, inserted), db1)"
  shows "\<exists>sp'. (i, sp') \<in> set (keyed db1) \<and> same_idempotency sp' sp \<and> js_request_fingerprint sp' = stored"
proof (cases "select_first (\<lambda>m. same_idempotency (jm_spec m) sp) (job_messages db)")
  case None
  then have eq: "db1 = insert_message (new_row now new_id seq sp available_at) db" "i = new_id"
    "stored = js_request_fingerprint sp"
    using assms by (auto simp: insert_or_find_def)
  then show ?thesis
    by (intro exI [of _ "sp\<lparr>js_created_at := now, js_enqueue_seq := seq\<rparr>"])
      (simp add: keyed_def insert_message_def new_row_def same_idempotency_def)
next
  case (Some m)
  then have "db1 = db" "i = jm_id m" "stored = js_request_fingerprint (jm_spec m)"
    using assms by (simp_all add: insert_or_find_def)
  then show ?thesis
    using select_first_Some [OF Some] by (intro exI [of _ "jm_spec m"]) (auto simp: keyed_def)
qed

lemma insertPreparedJob_Inr:
  assumes "insertPreparedJob ses now new_id seq sp available_at db = (Inr (i, d), db1)"
  shows "may_enqueue ses sp"
    and "\<exists>sp'. (i, sp') \<in> set (keyed db1) \<and> same_idempotency sp' sp \<and>
      js_request_fingerprint sp' = js_request_fingerprint sp"
proof -
  show may: "may_enqueue ses sp"
    using assms by (auto simp: insertPreparedJob_def enqueue_response_def enqueue_job_message_def split: if_splits)
  obtain i' stored inserted db2 where r: "insert_or_find now new_id seq sp available_at db = ((i', stored, inserted), db2)"
    by (metis prod.exhaust)
  then have "i' = i" "db2 = db1" "stored = js_request_fingerprint sp"
    using assms may
    by (auto simp: insertPreparedJob_def enqueue_response_def enqueue_job_message_def split: if_splits)
  then show "\<exists>sp'. (i, sp') \<in> set (keyed db1) \<and> same_idempotency sp' sp \<and>
      js_request_fingerprint sp' = js_request_fingerprint sp"
    using insert_or_find_key [OF r] by simp
qed

lemma EnqueueJob_Inr:
  assumes "EnqueueJob penv env tx now new_id seq job db = (Inr (i, d), db1)"
  obtains sp available_at ses where "prepareJobEnqueue penv job = Inr (sp, available_at)" "tx = Some ses"
    "insertPreparedJob ses now new_id seq sp available_at db = (Inr (i, d), db1)"
    "\<not> (coalesce (js_attributes sp ''codefly.installation_id'') \<noteq> [] \<and> \<not> lock_module_job_authority env (js_attributes sp))"
  using assms
  by (auto simp: EnqueueJob_def enqueuePreparedJob_def split: sum.splits option.splits if_splits)

text \<open>
  C36.  Enqueueing is idempotent for ever: once a job was accepted, submitting the same job
  again, at any later time and whatever the store did meanwhile, answers duplicate with the
  first job's id and changes nothing.
\<close>

theorem enqueue_idempotent:
  assumes "reachable db" "EnqueueJob penv env (Some ses) now new_id seq job db = (Inr (i, d), db1)"
    and "\<forall>m \<in> set (job_messages db). jm_id m \<noteq> new_id" "validates_budget penv"
    and "store_step\<^sup>*\<^sup>* db1 db2"
  shows "EnqueueJob penv env (Some ses) now' new_id' seq' job db2 = (Inr (i, ENQUEUE_DUPLICATE), db2)"
proof -
  obtain sp available_at where sp: "prepareJobEnqueue penv job = Inr (sp, available_at)"
    and ins: "insertPreparedJob ses now new_id seq sp available_at db = (Inr (i, d), db1)"
    and lock: "\<not> (coalesce (js_attributes sp ''codefly.installation_id'') \<noteq> [] \<and> \<not> lock_module_job_authority env (js_attributes sp))"
    by (rule EnqueueJob_Inr [OF assms(2)]) blast
  note key = insertPreparedJob_Inr [OF ins]
  have "store_step db db1" using store_step.enqueue [OF assms(3,4)] assms(2) by (metis snd_conv)
  then have "reachable db2" using assms(1,5) unfolding reachable_def by (meson converse_rtranclp_into_rtranclp rtranclp_trans)
  then have uniq: "identities_unique (keyed db2)" by (rule reachable_unique)
  obtain sp' where sp': "(i, sp') \<in> set (keyed db2)" "same_idempotency sp' sp"
    "js_request_fingerprint sp' = js_request_fingerprint sp"
    using key(2) store_steps_keyed [OF assms(5)] by (metis UnCI set_append)
  obtain m where m: "select_first (\<lambda>m. same_idempotency (jm_spec m) sp) (job_messages db2) = Some m"
    "jm_id m = i" "jm_spec m = sp'"
    using find_unique_identity [OF uniq sp'(1,2)] by blast
  then show ?thesis
    using sp lock key(1) sp'(3)
    by (simp add: EnqueueJob_def enqueuePreparedJob_def insertPreparedJob_def enqueue_response_def
        enqueue_job_message_def insert_or_find_def)
qed

text \<open>
  A second job under a used identity but with a different request is refused as an
  idempotency conflict, without changing the store.
\<close>

theorem enqueue_conflict:
  assumes "prepareJobEnqueue penv job = Inr (sp, available_at)" "may_enqueue ses sp"
    and "js_attributes sp ''codefly.installation_id'' = None"
    and "m \<in> set (job_messages db)" "same_idempotency (jm_spec m) sp"
    and "\<forall>m \<in> set (job_messages db). same_idempotency (jm_spec m) sp \<longrightarrow>
           js_request_fingerprint (jm_spec m) \<noteq> js_request_fingerprint sp"
  shows "EnqueueJob penv env (Some ses) now new_id seq job db = (Inl ErrIdempotencyConflict, db)"
proof -
  obtain m' where m': "select_first (\<lambda>m. same_idempotency (jm_spec m) sp) (job_messages db) = Some m'"
    using assms(4,5) by (cases "select_first (\<lambda>m. same_idempotency (jm_spec m) sp) (job_messages db)")
      (auto simp: select_first_None)
  then have "js_request_fingerprint (jm_spec m') \<noteq> js_request_fingerprint sp"
    using assms(6) select_first_Some [OF m'] by blast
  then show ?thesis
    using assms(1-3) m'
    by (simp add: EnqueueJob_def enqueuePreparedJob_def insertPreparedJob_def enqueue_response_def
        enqueue_job_message_def insert_or_find_def coalesce_def)
qed

text \<open>
  C37.  Request traffic is confined to its own tenant: whatever a request with an \<^verbatim>\<open>app_tenant\<close>
  session asks to enqueue, every row the store gains is an outbox job of the session's own
  organization or of its own user.
\<close>

theorem tenant_enqueue_confined:
  assumes "ses_role ses = ''app_tenant''"
    and "m \<in> set (job_messages (snd (EnqueueJob penv env (Some ses) now new_id seq job db)))"
    and "m \<notin> set (job_messages db)"
  shows "js_direction (jm_spec m) = ''outbox'' \<and>
    ((js_organization_id (jm_spec m) = ses_org ses \<and> ses_org ses \<noteq> None \<and> js_subject_id (jm_spec m) = None) \<or>
     (js_subject_id (jm_spec m) = ses_user ses \<and> ses_user ses \<noteq> None \<and> js_organization_id (jm_spec m) = None))"
proof -
  have same: "snd (EnqueueJob penv env (Some ses) now new_id seq job db) \<noteq> db" using assms(2,3) by auto
  obtain sp available_at where sp: "snd (EnqueueJob penv env (Some ses) now new_id seq job db) =
      snd (insertPreparedJob ses now new_id seq sp available_at db)"
    using same by (auto simp: EnqueueJob_def enqueuePreparedJob_def split: sum.splits if_splits)
  then have "snd (insertPreparedJob ses now new_id seq sp available_at db) \<noteq> db" using same by simp
  then have may: "may_enqueue ses sp"
    and db': "snd (insertPreparedJob ses now new_id seq sp available_at db) = insert_message (new_row now new_id seq sp available_at) db"
    by (auto simp: insertPreparedJob_def enqueue_response_def enqueue_job_message_def insert_or_find_def
        split: if_splits option.splits)
  have "m = new_row now new_id seq sp available_at" using assms(2,3) sp db' by (simp add: insert_message_def)
  then show ?thesis using may assms(1) by (auto simp: may_enqueue_def new_row_def)
qed

section \<open>Replay\<close>

text \<open>
   A replay copies a dead-lettered job and never touches it: when a replay succeeds the source
  was dead-lettered and its row is unchanged, and the job it names carries the source's
  payload, queue and scope and the source's id as its lineage, or is an older job that holds
  the same replay identity.
\<close>

theorem replay_copies_dead_letter:
  assumes "reachable db"
    and "replayJob fingerprint ses now new_id seq source_id key available_at db = (Inr (i, d), db')"
  shows "\<exists>src \<in> set (job_messages db). jm_id src = source_id \<and> jm_state src = DEAD_LETTER \<and>
    src \<in> set (job_messages db') \<and> ses_role ses = ''app_job_worker'' \<and>
    (d = ENQUEUE_INSERTED \<longrightarrow> (\<exists>m \<in> set (job_messages db'). jm_id m = i \<and> jm_state m = PENDING \<and>
       js_replay_of (jm_spec m) = Some source_id \<and> js_payload (jm_spec m) = js_payload (jm_spec src) \<and>
       js_queue (jm_spec m) = js_queue (jm_spec src) \<and>
       js_organization_id (jm_spec m) = js_organization_id (jm_spec src) \<and> jm_attempt_count m = 0))"
proof -
  obtain f where f: "fingerprint = Inr f" using assms(2) by (cases fingerprint) (simp_all add: replayJob_def)
  obtain src where src: "select_first (\<lambda>m. jm_id m = source_id) (job_messages db) = Some src"
    and dead: "jm_state src = DEAD_LETTER" and role: "ses_role ses = ''app_job_worker''"
    using assms(2)
    by (auto simp: f replayJob_def enqueue_response_def replay_job_message_def split: if_splits option.splits)
  note s = select_first_Some [OF src]
  let ?sp = "(jm_spec src)\<lparr>js_idempotency_key := key, js_request_fingerprint := f, js_replay_of := Some (jm_id src)\<rparr>"
  obtain i' stored inserted db2 where r: "insert_or_find now new_id seq ?sp available_at db = ((i', stored, inserted), db2)"
    by (metis prod.exhaust)
  then have eq: "i' = i" "db2 = db'" "d = (if inserted then ENQUEUE_INSERTED else ENQUEUE_DUPLICATE)"
    using assms(2) src dead role
    by (auto simp: f replayJob_def enqueue_response_def replay_job_message_def split: if_splits)
  have "(\<not> inserted \<and> db' = db) \<or>
      (inserted \<and> i = new_id \<and> db' = insert_message (new_row now new_id seq ?sp available_at) db)"
    using r eq(1,2) by (auto simp: insert_or_find_def split: option.splits)
  then show ?thesis
  proof (elim disjE conjE)
    assume "\<not> inserted" "db' = db"
    then show ?thesis using s dead role eq(3) by (intro bexI [of _ src]) simp_all
  next
    assume ins: "inserted" "i = new_id" "db' = insert_message (new_row now new_id seq ?sp available_at) db"
    then show ?thesis
      using s dead role
      by (intro bexI [of _ src]) (simp_all add: insert_message_def new_row_def)
  qed
qed

section \<open>One job at a time per ordering key\<close>

text \<open>
  Rows are ordered by creation time and sequence number.  Where these grow with every insertion,
  as they do on one database clock, the oldest active job of a key is the only one in
  processing.
\<close>

definition orders_increase :: "job_db \<Rightarrow> bool" where
  "orders_increase db \<longleftrightarrow>
     sorted_wrt (\<lambda>a b. (js_created_at (snd a), js_enqueue_seq (snd a)) < (js_created_at (snd b), js_enqueue_seq (snd b)))
       (keyed db)"

definition heads_processing :: "job_db \<Rightarrow> bool" where
  "heads_processing db \<longleftrightarrow>
     (\<forall>m \<in> set (job_messages db). jm_state m = PROCESSING \<longrightarrow> \<not> blocked_by_prior (job_messages db) m)"

inductive ordered_run :: "job_db \<Rightarrow> bool" where
  start: "ordered_run empty_db"
| step: "ordered_run db \<Longrightarrow> store_step db db' \<Longrightarrow> orders_increase db' \<Longrightarrow> ordered_run db'"

lemma ordered_run_reachable: "ordered_run db \<Longrightarrow> reachable db"
  unfolding reachable_def by (induction rule: ordered_run.induct) auto

lemma ordered_run_increase: "ordered_run db \<Longrightarrow> orders_increase db"
  by (induction rule: ordered_run.induct) (simp_all add: orders_increase_def keyed_def empty_db_def)

text \<open>An active row was active before the step, or is the row the step appended.\<close>

lemma active_origin:
  assumes ok: "db_ok db" and moves: "db_moves db db'" and m': "m' \<in> set (job_messages db')" "active m'"
    and old: "(jm_id m', jm_spec m') \<in> set (keyed db)"
  shows "\<exists>m \<in> set (job_messages db). jm_id m = jm_id m' \<and> jm_spec m = jm_spec m' \<and> active m"
proof -
  obtain m where m: "m \<in> set (job_messages db)" "jm_id m = jm_id m'" "jm_spec m = jm_spec m'"
    using old by (auto simp: keyed_def)
  have v: "v_row (view db (jm_id m')) = Some m" using db_ok_row(1) [OF ok m(1)] m(2) by simp
  have v': "v_row (view db' (jm_id m')) = Some m'" using db_ok_row(1) db_moves_ok [OF moves ok] m'(1) by blast
  have "IsTerminal (jm_state m) \<longrightarrow> m' = m"
    using db_moves_evolve [OF moves, of "jm_id m'"] v v' by (simp add: row_evolves_def)
  moreover have "active m \<or> IsTerminal (jm_state m)" using db_ok_row(2) [OF ok m(1)] by (simp add: row_ok_def)
  ultimately have "active m" using m'(2) by auto
  then show ?thesis using m by blast
qed

lemma head_preserved:
  assumes ok: "db_ok db" and moves: "db_moves db db'" and app: "appends db db'" and inc: "orders_increase db'"
    and m: "m \<in> set (job_messages db)" "\<not> blocked_by_prior (job_messages db) m"
    and m': "jm_spec m' = jm_spec m"
  shows "\<not> blocked_by_prior (job_messages db') m'"
proof
  assume "blocked_by_prior (job_messages db') m'"
  then obtain prior where pr: "prior \<in> set (job_messages db')" "jm_queue prior = jm_queue m"
    "js_ordering_key (jm_spec prior) = js_ordering_key (jm_spec m)" "active prior"
    "enqueue_order prior < enqueue_order m" and key: "js_ordering_key (jm_spec m) \<noteq> None"
    using m' by (auto simp: blocked_by_prior_def enqueue_order_def)
  have k: "(jm_id prior, jm_spec prior) \<in> set (keyed db')" "(jm_id m, jm_spec m) \<in> set (keyed db)"
    using pr(1) m(1) by (auto simp: keyed_def)
  have "(jm_id prior, jm_spec prior) \<in> set (keyed db)"
  proof (rule ccontr)
    assume new: "(jm_id prior, jm_spec prior) \<notin> set (keyed db)"
    then have "keyed db' = keyed db @ [(jm_id prior, jm_spec prior)]" using app k(1) by (auto simp: appends_def)
    then have "enqueue_order m < enqueue_order prior"
      using inc k(2) by (fastforce simp: orders_increase_def sorted_wrt_append enqueue_order_def)
    then show False using pr(5) by simp
  qed
  then obtain p0 where "p0 \<in> set (job_messages db)" "jm_spec p0 = jm_spec prior" "active p0"
    using active_origin [OF ok moves pr(1,4)] by blast
  then have "blocked_by_prior (job_messages db) m"
    using pr(2,3,5) key unfolding blocked_by_prior_def
    by (intro conjI bexI [of _ p0]) (simp_all add: enqueue_order_def)
  then show False using m(2) by simp
qed

definition no_new_lease :: "job_db \<Rightarrow> job_db \<Rightarrow> bool" where
  "no_new_lease db db' \<longleftrightarrow>
     (\<forall>m' \<in> set (job_messages db'). jm_state m' = PROCESSING \<longrightarrow>
        (\<exists>m \<in> set (job_messages db). jm_spec m = jm_spec m' \<and> jm_state m = PROCESSING))"

lemma no_new_lease_refl [simp]: "no_new_lease db db"
  by (auto simp: no_new_lease_def)

lemma no_new_lease_update:
  assumes "\<And>m. p m \<Longrightarrow> jm_spec (f m) = jm_spec m \<and> (jm_state (f m) = PROCESSING \<longrightarrow> jm_state m = PROCESSING)"
  shows "no_new_lease db (update_messages now p f db)"
  unfolding no_new_lease_def
proof (intro ballI impI)
  fix m' assume m': "m' \<in> set (job_messages (update_messages now p f db))" "jm_state m' = PROCESSING"
  then obtain m where "m \<in> set (job_messages db)" "m' = (if p m then enforce_job_message_state now m (f m) else m)"
    by (auto simp: update_messages_def elim: in_update_whereE)
  then show "\<exists>m \<in> set (job_messages db). jm_spec m = jm_spec m' \<and> jm_state m = PROCESSING"
    using assms [of m] m'(2) by (intro bexI [of _ m]) (auto split: if_splits)
qed

lemma no_new_lease_attempts: "no_new_lease db (update_attempts q g db') \<longleftrightarrow> no_new_lease db db'"
  by (simp add: no_new_lease_def)

lemma no_new_lease_finalizeLockedJob:
  assumes "finalizeLockedJob now ref fz db = Inr db'" "fz_state fz \<noteq> PROCESSING"
  shows "no_new_lease db db'"
proof -
  obtain q g p where "db' = update_attempts q g (update_messages now p (finalized_row now fz) db)"
    using assms(1) by (auto simp: finalizeLockedJob_def Let_def rbind_eq_Inr update_commute split: if_splits)
  then show ?thesis
    using assms(2) no_new_lease_update [of p "finalized_row now fz"]
    by (simp add: no_new_lease_attempts finalized_row_def clear_lease_def)
qed

lemma no_new_lease_finalize:
  "fz_state fz \<noteq> PROCESSING \<Longrightarrow> no_new_lease db (snd (finalize env now claim ref fz db))"
  by (auto simp: finalize_def commit_def rbind_eq_Inr dest: no_new_lease_finalizeLockedJob split: sum.splits)

lemma no_new_lease_Retry: "no_new_lease db (snd (Retry env now claim ref failure retry_at db))"
  by (auto simp: Retry_def finalizeRetry_def Let_def dest!: no_new_lease_finalizeLockedJob split: sum.splits if_splits)

lemma no_new_lease_Heartbeat: "no_new_lease db (snd (Heartbeat env now claim ref extension db))"
  by (simp add: Heartbeat_def Let_def no_new_lease_attempts no_new_lease_update)

lemma no_new_lease_insert: "no_new_lease db (snd (insert_or_find now new_id seq sp available_at db))"
  by (auto simp: insert_or_find_def no_new_lease_def insert_message_def new_row_def split: option.split)

lemma no_new_lease_response:
  "no_new_lease db (snd r) \<Longrightarrow> no_new_lease db (snd (enqueue_response fingerprint r db))"
  using enqueue_response_db [of fingerprint r db] by auto

lemma no_new_lease_EnqueueJob: "no_new_lease db (snd (EnqueueJob penv env tx now new_id seq job db))"
proof -
  have "no_new_lease db (snd (enqueue_job_message ses now new_id seq sp available_at db))" for ses sp available_at
    using no_new_lease_insert by (simp add: enqueue_job_message_def case_prod_beta)
  then have "no_new_lease db (snd (insertPreparedJob ses now new_id seq sp available_at db))" for ses sp available_at
    unfolding insertPreparedJob_def by (rule no_new_lease_response)
  then show ?thesis
    by (simp add: EnqueueJob_def enqueuePreparedJob_def split: sum.split prod.split option.split)
qed

lemma no_new_lease_replayJob:
  "no_new_lease db (snd (replayJob fingerprint ses now new_id seq source_id key available_at db))"
proof -
  have "no_new_lease db (snd (replay_job_message ses now new_id seq source_id key available_at f db))" for f
    using no_new_lease_insert by (simp add: replay_job_message_def case_prod_beta split: option.split)
  then show ?thesis
    by (simp add: replayJob_def no_new_lease_response split: sum.split)
qed

text \<open>A processing row after a step was processing before it, or was claimed at the head of its key.\<close>

lemma claim_lease_origin:
  assumes ok: "db_ok db" and m': "m' \<in> set (job_messages (snd (Claim env now clock locked claim req fresh db)))"
    "jm_state m' = PROCESSING"
  shows "(\<exists>m \<in> set (job_messages db). jm_spec m = jm_spec m' \<and> jm_state m = PROCESSING) \<or>
    (\<exists>m \<in> set (job_messages (swept env now clock locked req db)). jm_spec m = jm_spec m' \<and>
       \<not> blocked_by_prior (job_messages (swept env now clock locked req db)) m)"
proof (cases "fst (Claim env now clock locked claim req fresh db)")
  case (Inl e)
  then have "snd (Claim env now clock locked claim req fresh db) = db"
    using Claim_cases [of env now clock locked claim req fresh db] by auto
  then show ?thesis using m' by auto
next
  case (Inr es)
  let ?db2 = "swept env now clock locked req db"
  obtain cs where cs: "cs = claim_candidates env now locked claim req (job_messages ?db2)"
    and rows: "job_messages (snd (Claim env now clock locked claim req fresh db)) =
      update_where (\<lambda>m. m \<in> set cs) (leased_row now claim req fresh) (job_messages ?db2)"
    by (rule Claim_Inr [OF ok prod_eqI [of "Claim env now clock locked claim req fresh db"
          "(Inr es, snd (Claim env now clock locked claim req fresh db))", simplified, OF Inr]]) blast
  obtain m where m: "m \<in> set (job_messages ?db2)"
    "m' = (if m \<in> set cs then leased_row now claim req fresh m else m)"
    using m'(1) unfolding rows by (rule in_update_whereE)
  show ?thesis
  proof (cases "m \<in> set cs")
    case True
    then have "\<not> blocked_by_prior (job_messages ?db2) m"
      using claim_candidatesD(2) unfolding cs by (auto simp: claimable_def)
    then show ?thesis using m True by auto
  next
    case False
    then have eq: "m' = m" using m(2) by simp
    have v: "v_row (view ?db2 (jm_id m)) = Some m" using db_ok_row(1) [OF swept_ok [OF ok] m(1)] .
    obtain m0 where m0: "v_row (view db (jm_id m)) = Some m0" "sweeps env now (cl_queue req) m0 m"
      by (rule swept_row [OF ok v]) (use m'(2) eq in \<open>simp add: active_def\<close>)
    have "m0 = m" using m0(2) m'(2) eq by (auto simp: sweeps_def recover_row_def split: if_splits)
    then show ?thesis using view_rowD(1) [OF m0(1)] eq m'(2) by blast
  qed
qed

lemma swept_moves: "db_ok db \<Longrightarrow> db_moves db (swept env now clock locked req db)"
  unfolding swept_def
  using cancelRevoked_moves recoverExpired_moves db_moves_ok db_moves_trans by blast

lemma heads_other_step:
  assumes ok: "db_ok db" and moves: "db_moves db db'" and app: "appends db db'" and inc: "orders_increase db'"
    and heads: "heads_processing db" and origin: "no_new_lease db db'"
  shows "heads_processing db'"
  unfolding heads_processing_def
proof (intro ballI impI)
  fix m' assume "m' \<in> set (job_messages db')" "jm_state m' = PROCESSING"
  then obtain m where "m \<in> set (job_messages db)" "jm_spec m = jm_spec m'" "jm_state m = PROCESSING"
    using origin by (auto simp: no_new_lease_def)
  then show "\<not> blocked_by_prior (job_messages db') m'"
    using heads head_preserved [OF ok moves app inc] by (auto simp: heads_processing_def)
qed

lemma heads_claim:
  assumes ok: "db_ok db" and fresh: "fresh_tokens fresh db" and heads: "heads_processing db"
    and inc: "orders_increase (snd (Claim env now clock locked claim req fresh db))"
  shows "heads_processing (snd (Claim env now clock locked claim req fresh db))"
    (is "heads_processing ?db'")
proof (cases "\<exists>e. Claim env now clock locked claim req fresh db = (Inl e, db)")
  case True
  then show ?thesis using heads by auto
next
  case False
  let ?db2 = "swept env now clock locked req db"
  have db': "?db' = snd (claimJobsSQL env now locked claim req fresh ?db2)"
    using False Claim_cases [of env now clock locked claim req fresh db] by auto
  have "fresh_tokens fresh ?db2" using fresh fresh_tokens_cong job_attempts_tokens unfolding swept_def by metis
  then have moves2: "db_moves ?db2 ?db'" unfolding db' by (rule claim_moves [OF swept_ok [OF ok]])
  have app2: "appends ?db2 ?db'" unfolding db' by (simp add: appends_def keyed_claimJobsSQL)
  have moves: "db_moves db ?db'" using Claim_moves [OF ok fresh] .
  have app: "appends db ?db'" by (simp add: appends_def keyed_Claim)
  show ?thesis
    unfolding heads_processing_def
  proof (intro ballI impI)
    fix m' assume "m' \<in> set (job_messages ?db')" "jm_state m' = PROCESSING"
    then consider m where "m \<in> set (job_messages db)" "jm_spec m = jm_spec m'" "jm_state m = PROCESSING"
      | m where "m \<in> set (job_messages ?db2)" "jm_spec m = jm_spec m'" "\<not> blocked_by_prior (job_messages ?db2) m"
      using claim_lease_origin [OF ok] by blast
    then show "\<not> blocked_by_prior (job_messages ?db') m'"
    proof cases
      case 1
      then show ?thesis using heads head_preserved [OF ok moves app inc] by (auto simp: heads_processing_def)
    next
      case 2
      then show ?thesis using head_preserved [OF swept_ok [OF ok] moves2 app2 inc] by metis
    qed
  qed
qed

lemma ordered_run_heads: "ordered_run db \<Longrightarrow> heads_processing db"
proof (induction rule: ordered_run.induct)
  case start
  then show ?case by (simp add: heads_processing_def empty_db_def)
next
  case (step db db')
  have ok: "db_ok db" using reachable_ok ordered_run_reachable step.hyps(1) by blast
  note moves = store_step_moves [OF step.hyps(2) ok] and app = store_step_appends [OF step.hyps(2)]
  from step.hyps(2) show ?case
  proof cases
    case (claim fresh env now clock locked c req)
    then show ?thesis using heads_claim [OF ok] step by blast
  qed (use heads_other_step [OF ok moves app step.hyps(3) step.IH] in
      \<open>simp_all add: Complete_def DeadLetter_def no_new_lease_finalize no_new_lease_Retry no_new_lease_Heartbeat
        no_new_lease_EnqueueJob no_new_lease_replayJob\<close>)
qed

lemma keyed_order_unique:
  assumes "orders_increase db" "rows_distinct db" "m \<in> set (job_messages db)" "m' \<in> set (job_messages db)"
    and "\<not> enqueue_order m < enqueue_order m'" "\<not> enqueue_order m' < enqueue_order m"
  shows "m = m'"
proof -
  obtain i j where ij: "i < length (job_messages db)" "job_messages db ! i = m"
    "j < length (job_messages db)" "job_messages db ! j = m'"
    using assms(3,4) by (metis in_set_conv_nth)
  have less: "enqueue_order (job_messages db ! a) < enqueue_order (job_messages db ! b)"
    if "a < b" "b < length (job_messages db)" for a b
  proof -
    have "(js_created_at (snd (keyed db ! a)), js_enqueue_seq (snd (keyed db ! a)))
        < (js_created_at (snd (keyed db ! b)), js_enqueue_seq (snd (keyed db ! b)))"
      using sorted_wrt_nth_less [OF assms(1) [unfolded orders_increase_def]] that by (simp add: keyed_def)
    then show ?thesis using that by (simp add: keyed_def enqueue_order_def)
  qed
  have "i = j" using less [of i j] less [of j i] ij assms(5,6) by (metis linorder_neqE_nat)
  then show ?thesis using ij by simp
qed


end
