(* ===== verification/Job_Worker.thy ===== *)
theory Job_Worker
  imports Job_Ordering
begin

text \<open>
  \<^verbatim>\<open>pkg/jobs/worker.go\<close>: the polling worker.  The \<^verbatim>\<open>jobs.Store\<close> interface it drives is a record
  of operations over an arbitrary store state; the locale \<^verbatim>\<open>lease_store\<close> states what the worker
  relies on, the worker's guarantees are proved from it, and the PostgreSQL store
  interprets it.  The heartbeat goroutine is the list of its ticks: what everybody else did
  to the store since the last one, and whether the tick was caught in flight by the
  cancellation of its context.
\<close>

section \<open>Configuration\<close>

record worker_config =
  wc_has_store :: bool
  wc_has_handler :: bool
  wc_queue :: string
  wc_worker_id :: string
  wc_poll_interval :: duration
  wc_lease_duration :: duration
  wc_heartbeat_interval :: duration
  wc_batch_size :: nat
  wc_retry_delay :: "(nat \<Rightarrow> duration) option"

datatype worker_error =
    StoreRequired
  | HandlerRequired
  | QueueRequired
  | BadHeartbeatInterval
  | BatchTooLarge
  | TelemetryFailed
  | InvalidClaim
  | NoLease
  | StoreError job_error
  | ContextDone

abbreviation seconds :: "int \<Rightarrow> duration" where
  "seconds n \<equiv> n * 1000000000"

definition defaultRetryDelay :: "32 word \<Rightarrow> 64 word" where
  "defaultRetryDelay attempt =
     (let attempt = (if attempt = 0 then 1 else attempt);
          shift = attempt - 1;
          shift = (if 8 < shift then 8 else shift)
      in 5 * 1000000000 * push_bit (unat shift) 1)"

text \<open>
  \<^verbatim>\<open>hostname\<close> is what \<^verbatim>\<open>os.Hostname\<close> and \<^verbatim>\<open>uuid.NewString\<close> give; \<^verbatim>\<open>telemetry_ok\<close> is whether
  the meter accepted the instruments.
\<close>

definition NewWorker ::
  "string \<Rightarrow> bool \<Rightarrow> (claim_request \<Rightarrow> bool) \<Rightarrow> worker_config \<Rightarrow> worker_error + worker_config" where
  "NewWorker generated_id telemetry_ok valid config =
     (if \<not> wc_has_store config then Inl StoreRequired
      else if \<not> wc_has_handler config then Inl HandlerRequired
      else if wc_queue config = [] then Inl QueueRequired
      else
        let config = (if wc_worker_id config = [] then config\<lparr>wc_worker_id := generated_id\<rparr> else config);
            config = (if wc_poll_interval config \<le> 0 then config\<lparr>wc_poll_interval := seconds 1\<rparr> else config);
            config = (if wc_lease_duration config \<le> 0 then config\<lparr>wc_lease_duration := seconds 60\<rparr> else config);
            config = (if wc_heartbeat_interval config \<le> 0
                      then config\<lparr>wc_heartbeat_interval := wc_lease_duration config div 3\<rparr> else config)
        in if wc_heartbeat_interval config \<le> 0 \<or> wc_heartbeat_interval config \<ge> wc_lease_duration config
           then Inl BadHeartbeatInterval
           else
             let config = (if wc_batch_size config = 0 then config\<lparr>wc_batch_size := 16\<rparr> else config)
             in if wc_batch_size config > 100 then Inl BatchTooLarge
                else if \<not> telemetry_ok then Inl TelemetryFailed
                else if \<not> valid \<lparr>cl_queue = wc_queue config, cl_worker_id = wc_worker_id config,
                                 cl_limit = wc_batch_size config, cl_lease_duration = wc_lease_duration config\<rparr>
                then Inl InvalidClaim
                else Inr config)"

definition retry_delay :: "worker_config \<Rightarrow> nat \<Rightarrow> duration" where
  "retry_delay config attempt =
     (case wc_retry_delay config of
        None \<Rightarrow> sint (defaultRetryDelay (of_nat attempt))
      | Some f \<Rightarrow> f attempt)"

section \<open>Failures\<close>

definition lower_letter :: "char \<Rightarrow> bool" where
  "lower_letter c \<longleftrightarrow> CHR ''a'' \<le> c \<and> c \<le> CHR ''z''"

definition code_char :: "char \<Rightarrow> bool" where
  "code_char c \<longleftrightarrow> lower_letter c \<or> (CHR ''0'' \<le> c \<and> c \<le> CHR ''9'') \<or> c \<in> {CHR ''_'', CHR ''.'', CHR ''-''}"

text \<open>The field rules of \<^verbatim>\<open>JobFailure\<close> in \<^verbatim>\<open>jobs.proto\<close>, which \<^verbatim>\<open>ValidateCommand\<close> checks.\<close>

definition ValidateFailure :: "job_failure \<Rightarrow> bool" where
  "ValidateFailure f \<longleftrightarrow>
     1 \<le> length (jf_code f) \<and> length (jf_code f) \<le> 128 \<and>
     (case jf_code f of [] \<Rightarrow> False | c # cs \<Rightarrow> lower_letter c \<and> list_all code_char cs) \<and>
     length (jf_message f) \<le> 4096"

record processing_error =
  pe_failure :: "job_failure option"
  pe_retryable :: bool
  pe_not_before :: "time option"

datatype handler_result =
    HandlerOk
  | HandlerError string
  | HandlerProcessingError processing_error
  | HandlerPanic string

definition NewProcessingError :: "string \<Rightarrow> string \<Rightarrow> bool \<Rightarrow> job_error + processing_error" where
  "NewProcessingError code message retryable =
     (let failure = \<lparr>jf_code = code, jf_message = message\<rparr>
      in if \<not> ValidateFailure failure then Inl ErrInvalidCommand
         else Inr \<lparr>pe_failure = Some failure, pe_retryable = retryable, pe_not_before = None\<rparr>)"

text \<open>
  How \<^verbatim>\<open>process\<close> classifies a failed handler: the failure it will store, whether it is retryable,
  and the earliest retry.  A panic is recovered as a value no \<^verbatim>\<open>ProcessingError\<close> can be
  unwrapped from.
\<close>

definition classify :: "handler_result \<Rightarrow> job_failure \<times> bool \<times> time option" where
  "classify r =
     (let generic = (case r of
            HandlerPanic _ \<Rightarrow> \<lparr>jf_code = ''jobs.handler_panic'', jf_message = ''job handler panicked''\<rparr>
          | _ \<Rightarrow> \<lparr>jf_code = ''jobs.handler_failed'', jf_message = ''job handler failed''\<rparr>)
      in case r of
           HandlerProcessingError pe \<Rightarrow>
             (case pe_failure pe of
                None \<Rightarrow> (generic, True, None)
              | Some f \<Rightarrow> if ValidateFailure f then (f, pe_retryable pe, pe_not_before pe) else (generic, True, None))
         | _ \<Rightarrow> (generic, True, None))"

section \<open>Processing one envelope\<close>

record worker_metrics =
  wm_iterations :: "64 word"
  wm_claim_errors :: "64 word"
  wm_claimed :: "64 word"
  wm_succeeded :: "64 word"
  wm_retried :: "64 word"
  wm_dead_lettered :: "64 word"
  wm_handler_panics :: "64 word"
  wm_lease_lost :: "64 word"
  wm_active :: "64 word"

record 's job_store_ops =
  so_claim :: "claim_request \<Rightarrow> 's \<Rightarrow> (job_error + job_envelope list) \<times> 's"
  so_heartbeat :: "lease_ref \<Rightarrow> duration \<Rightarrow> 's \<Rightarrow> (job_error + job_lease) \<times> 's"
  so_complete :: "lease_ref \<Rightarrow> 's \<Rightarrow> (job_error + unit) \<times> 's"
  so_retry :: "lease_ref \<Rightarrow> job_failure \<Rightarrow> time \<Rightarrow> 's \<Rightarrow> (job_error + job_state) \<times> 's"
  so_dead_letter :: "lease_ref \<Rightarrow> job_failure \<Rightarrow> 's \<Rightarrow> (job_error + unit) \<times> 's"

record 's tick =
  tk_others :: "'s \<Rightarrow> 's"
  tk_canceled :: bool

fun heartbeat ::
  "'s job_store_ops \<Rightarrow> worker_config \<Rightarrow> lease_ref \<Rightarrow> 's tick list \<Rightarrow> 's \<Rightarrow> job_error option \<times> 's" where
  "heartbeat ops config lease [] s = (None, s)"
| "heartbeat ops config lease (t # ticks) s =
     (let s1 = tk_others t s
      in if tk_canceled t then (Some ErrContextDone, s1)
         else case so_heartbeat ops lease (wc_lease_duration config) s1 of
           (Inl e, s2) \<Rightarrow> (Some e, s2)
         | (Inr _, s2) \<Rightarrow> heartbeat ops config lease ticks s2)"

text \<open>
  What happens around one call of the handler: the ticks of its heartbeat, the transactions
  of others before the finalization, whether the processing context was cancelled, the
  worker's clock at the retry, and the handler's result.
\<close>

record 's handler_run =
  hr_ticks :: "'s tick list"
  hr_others :: "'s \<Rightarrow> 's"
  hr_ctx_done :: bool
  hr_now :: time
  hr_result :: handler_result

definition finalizationError :: "job_error \<Rightarrow> worker_metrics \<Rightarrow> worker_metrics" where
  "finalizationError e w = (if e = ErrLeaseLost then w\<lparr>wm_lease_lost := wm_lease_lost w + 1\<rparr> else w)"

definition finish_handler ::
  "'s job_store_ops \<Rightarrow> worker_config \<Rightarrow> 's handler_run \<Rightarrow> nat \<Rightarrow> lease_ref \<Rightarrow> worker_metrics \<Rightarrow> 's \<Rightarrow>
   (worker_error + unit) \<times> worker_metrics \<times> 's" where
  "finish_handler ops config run attempt lease w s =
     (case hr_result run of
        HandlerOk \<Rightarrow>
          (case so_complete ops lease s of
             (Inl e, s') \<Rightarrow> (Inl (StoreError e), finalizationError e w, s')
           | (Inr _, s') \<Rightarrow> (Inr (), w\<lparr>wm_succeeded := wm_succeeded w + 1\<rparr>, s'))
      | failed \<Rightarrow>
          let (failure, retryable, notBefore) = classify failed
          in if \<not> retryable then
               (case so_dead_letter ops lease failure s of
                  (Inl e, s') \<Rightarrow> (Inl (StoreError e), finalizationError e w, s')
                | (Inr _, s') \<Rightarrow> (Inr (), w\<lparr>wm_dead_lettered := wm_dead_lettered w + 1\<rparr>, s'))
             else
               let retryAt = hr_now run + retry_delay config attempt;
                   retryAt = (case notBefore of None \<Rightarrow> retryAt | Some t \<Rightarrow> max retryAt t)
               in case so_retry ops lease failure retryAt s of
                    (Inl e, s') \<Rightarrow> (Inl (StoreError e), finalizationError e w, s')
                  | (Inr state, s') \<Rightarrow>
                      (Inr (), if state = DEAD_LETTER then w\<lparr>wm_dead_lettered := wm_dead_lettered w + 1\<rparr>
                               else w\<lparr>wm_retried := wm_retried w + 1\<rparr>, s'))"

definition is_panic :: "handler_result \<Rightarrow> bool" where
  "is_panic r = (case r of HandlerPanic _ \<Rightarrow> True | _ \<Rightarrow> False)"

definition process ::
  "'s job_store_ops \<Rightarrow> worker_config \<Rightarrow> 's handler_run \<Rightarrow> job_envelope option \<Rightarrow> worker_metrics \<Rightarrow> 's \<Rightarrow>
   (worker_error + unit) \<times> worker_metrics \<times> 's" where
  "process ops config run envelope w s =
     (case envelope of
        None \<Rightarrow> (Inl NoLease, w, s)
      | Some e \<Rightarrow>
          (case je_lease e of
             None \<Rightarrow> (Inl NoLease, w, s)
           | Some l \<Rightarrow>
               let lease = \<lparr>lr_job_id = je_id e, lr_worker_id = jl_owner l, lr_lease_token = jl_token l\<rparr>;
                   w0 = w\<lparr>wm_active := wm_active w + 1\<rparr>;
                   (heartbeatErr, s1) = heartbeat ops config lease (hr_ticks run) s;
                   s2 = hr_others run s1;
                   w1 = (if is_panic (hr_result run)
                         then w0\<lparr>wm_handler_panics := wm_handler_panics w0 + 1\<rparr> else w0);
                   (r, w2, s3) =
                     (case heartbeatErr of
                        Some err \<Rightarrow> (Inl (StoreError err), finalizationError err w1, s2)
                      | None \<Rightarrow>
                          if hr_ctx_done run then (Inl ContextDone, w1, s2)
                          else finish_handler ops config run (je_attempt_count e) lease w1 s2)
               in (r, w2\<lparr>wm_active := wm_active w2 - 1\<rparr>, s3)))"

text \<open>One poll: the claimed envelopes are processed in turn, the errors joined.\<close>

fun process_all ::
  "'s job_store_ops \<Rightarrow> worker_config \<Rightarrow> (job_envelope \<times> 's handler_run) list \<Rightarrow> worker_metrics \<Rightarrow> 's \<Rightarrow>
   worker_error list \<times> worker_metrics \<times> 's" where
  "process_all ops config [] w s = ([], w, s)"
| "process_all ops config ((e, run) # rest) w s =
     (case process ops config run (Some e) w s of
        (r, w1, s1) \<Rightarrow>
          (case process_all ops config rest w1 s1 of
             (errs, w2, s2) \<Rightarrow> (case r of Inl err \<Rightarrow> err # errs | Inr _ \<Rightarrow> errs, w2, s2)))"

definition runOnce ::
  "'s job_store_ops \<Rightarrow> worker_config \<Rightarrow> (job_envelope \<Rightarrow> 's handler_run) \<Rightarrow> worker_metrics \<Rightarrow> 's \<Rightarrow>
   (job_error + nat \<times> worker_error list) \<times> worker_metrics \<times> 's" where
  "runOnce ops config runs w s =
     (let w0 = w\<lparr>wm_iterations := wm_iterations w + 1\<rparr>
      in case so_claim ops \<lparr>cl_queue = wc_queue config, cl_worker_id = wc_worker_id config,
                           cl_limit = wc_batch_size config, cl_lease_duration = wc_lease_duration config\<rparr> s of
           (Inl e, s') \<Rightarrow> (Inl e, w0\<lparr>wm_claim_errors := wm_claim_errors w0 + 1\<rparr>, s')
         | (Inr jobs, s') \<Rightarrow>
             (case process_all ops config (map (\<lambda>e. (e, runs e)) jobs)
                     (w0\<lparr>wm_claimed := wm_claimed w0 + of_nat (length jobs)\<rparr>) s' of
                (errs, w2, s2) \<Rightarrow> (Inr (length jobs, errs), w2, s2)))"

section \<open>The store a worker relies on\<close>

text \<open>
  \<^verbatim>\<open>live lease s\<close>: the lease is current in state \<^verbatim>\<open>s\<close>; \<^verbatim>\<open>lost lease s\<close>: it is not, and the
  command is otherwise well-formed; \<^verbatim>\<open>status\<close> is the durable state of a job and \<^verbatim>\<open>spent\<close> whether
  its attempts are used up.
\<close>

locale lease_store =
  fixes ops :: "'s job_store_ops"
    and inv :: "'s \<Rightarrow> bool"
    and live :: "lease_ref \<Rightarrow> 's \<Rightarrow> bool"
    and lost :: "lease_ref \<Rightarrow> 's \<Rightarrow> bool"
    and status :: "'s \<Rightarrow> uuid \<Rightarrow> job_state option"
    and spent :: "'s \<Rightarrow> uuid \<Rightarrow> bool"
  assumes complete_live: "\<lbrakk>inv s; live lease s\<rbrakk> \<Longrightarrow>
      \<exists>s'. so_complete ops lease s = (Inr (), s') \<and> status s' (lr_job_id lease) = Some SUCCEEDED"
    and complete_lost: "lost lease s \<Longrightarrow> so_complete ops lease s = (Inl ErrLeaseLost, s)"
    and dead_letter_live: "\<lbrakk>inv s; live lease s; ValidateFailure f\<rbrakk> \<Longrightarrow>
      \<exists>s'. so_dead_letter ops lease f s = (Inr (), s') \<and> status s' (lr_job_id lease) = Some DEAD_LETTER"
    and dead_letter_lost: "\<lbrakk>lost lease s; ValidateFailure f\<rbrakk> \<Longrightarrow> so_dead_letter ops lease f s = (Inl ErrLeaseLost, s)"
    and retry_live: "\<lbrakk>inv s; live lease s; ValidateFailure f\<rbrakk> \<Longrightarrow>
      \<exists>s'. so_retry ops lease f t s =
          (Inr (if spent s (lr_job_id lease) then DEAD_LETTER else RETRYING), s') \<and>
        status s' (lr_job_id lease) = Some (if spent s (lr_job_id lease) then DEAD_LETTER else RETRYING)"
    and retry_lost: "\<lbrakk>lost lease s; ValidateFailure f\<rbrakk> \<Longrightarrow> so_retry ops lease f t s = (Inl ErrLeaseLost, s)"
    and heartbeat_lost: "lost lease s \<Longrightarrow> so_heartbeat ops lease d s = (Inl ErrLeaseLost, s)"

text \<open>The state in which a handler's outcome should leave its job.\<close>

definition outcome_state :: "bool \<Rightarrow> handler_result \<Rightarrow> job_state" where
  "outcome_state exhausted r =
     (if r = HandlerOk then SUCCEEDED
      else if \<not> fst (snd (classify r)) then DEAD_LETTER
      else if exhausted then DEAD_LETTER else RETRYING)"

definition counted :: "job_state \<Rightarrow> worker_metrics \<Rightarrow> worker_metrics" where
  "counted st w =
     (case st of
        SUCCEEDED \<Rightarrow> w\<lparr>wm_succeeded := wm_succeeded w + 1\<rparr>
      | DEAD_LETTER \<Rightarrow> w\<lparr>wm_dead_lettered := wm_dead_lettered w + 1\<rparr>
      | _ \<Rightarrow> w\<lparr>wm_retried := wm_retried w + 1\<rparr>)"

lemma generic_failures_valid:
  "ValidateFailure \<lparr>jf_code = ''jobs.handler_panic'', jf_message = ''job handler panicked''\<rparr>"
  "ValidateFailure \<lparr>jf_code = ''jobs.handler_failed'', jf_message = ''job handler failed''\<rparr>"
  by (simp_all add: ValidateFailure_def lower_letter_def code_char_def less_eq_char_def)

lemma classify_valid: "ValidateFailure (fst (classify r))"
  using generic_failures_valid
  by (auto simp: classify_def Let_def split: handler_result.split option.split)

context lease_store
begin

lemma finish_live:
  assumes "inv s" "live lease s" and st_def: "st = outcome_state (spent s (lr_job_id lease)) (hr_result run)"
  shows "\<exists>s'. finish_handler ops config run attempt lease w s = (Inr (), counted st w, s') \<and>
    status s' (lr_job_id lease) = Some st"
proof (cases "hr_result run = HandlerOk")
  case True
  then show ?thesis
    using complete_live [OF assms(1,2)] by (auto simp: finish_handler_def st_def outcome_state_def counted_def)
next
  case False
  obtain f retryable nb where c: "classify (hr_result run) = (f, retryable, nb)" by (metis prod.exhaust)
  have f: "ValidateFailure f" using classify_valid [of "hr_result run"] c by simp
  have fh: "finish_handler ops config run attempt lease w s =
      (if \<not> retryable then
         (case so_dead_letter ops lease f s of
            (Inl e, s') \<Rightarrow> (Inl (StoreError e), finalizationError e w, s')
          | (Inr _, s') \<Rightarrow> (Inr (), w\<lparr>wm_dead_lettered := wm_dead_lettered w + 1\<rparr>, s'))
       else
         let retryAt = hr_now run + retry_delay config attempt;
             retryAt = (case nb of None \<Rightarrow> retryAt | Some t \<Rightarrow> max retryAt t)
         in case so_retry ops lease f retryAt s of
              (Inl e, s') \<Rightarrow> (Inl (StoreError e), finalizationError e w, s')
            | (Inr state, s') \<Rightarrow>
                (Inr (), if state = DEAD_LETTER then w\<lparr>wm_dead_lettered := wm_dead_lettered w + 1\<rparr>
                         else w\<lparr>wm_retried := wm_retried w + 1\<rparr>, s'))"
    using False c by (cases "hr_result run") (simp_all add: finish_handler_def)
  show ?thesis
  proof (cases retryable)
    case True
    let ?t = "case nb of None \<Rightarrow> hr_now run + retry_delay config attempt
      | Some t \<Rightarrow> max (hr_now run + retry_delay config attempt) t"
    show ?thesis
      using retry_live [OF assms(1,2) f, of ?t] True False c unfolding fh
      by (auto simp: st_def outcome_state_def counted_def Let_def)
  next
    case nr: False
    then show ?thesis
      using dead_letter_live [OF assms(1,2) f] False c unfolding fh
      by (auto simp: st_def outcome_state_def counted_def)
  qed
qed

lemma finish_lost:
  assumes "lost lease s"
  shows "finish_handler ops config run attempt lease w s =
    (Inl (StoreError ErrLeaseLost), w\<lparr>wm_lease_lost := wm_lease_lost w + 1\<rparr>, s)"
proof -
  obtain f retryable nb where c: "classify (hr_result run) = (f, retryable, nb)" by (metis prod.exhaust)
  have f: "ValidateFailure f" using classify_valid [of "hr_result run"] c by simp
  show ?thesis
    using complete_lost [OF assms] dead_letter_lost [OF assms f] retry_lost [OF assms f] c
    by (cases "hr_result run") (simp_all add: finish_handler_def finalizationError_def Let_def)
qed

lemma process_live:
  assumes lease: "je_lease e = Some l"
    and ref: "ref = \<lparr>lr_job_id = je_id e, lr_worker_id = jl_owner l, lr_lease_token = jl_token l\<rparr>"
    and hb: "heartbeat ops config ref (hr_ticks run) s = (None, s1)"
    and ctx: "\<not> hr_ctx_done run" and inv: "inv (hr_others run s1)" and live: "live ref (hr_others run s1)"
    and st: "st = outcome_state (spent (hr_others run s1) (je_id e)) (hr_result run)"
  shows "\<exists>w' s'. process ops config run (Some e) w s = (Inr (), w', s') \<and> status s' (je_id e) = Some st \<and>
    w' = counted st (if is_panic (hr_result run) then w\<lparr>wm_handler_panics := wm_handler_panics w + 1\<rparr> else w)"
proof -
  define w1 where "w1 = (if is_panic (hr_result run)
    then (w\<lparr>wm_active := wm_active w + 1\<rparr>)\<lparr>wm_handler_panics := wm_handler_panics (w\<lparr>wm_active := wm_active w + 1\<rparr>) + 1\<rparr>
    else w\<lparr>wm_active := wm_active w + 1\<rparr>)"
  have id: "lr_job_id ref = je_id e" by (simp add: ref)
  obtain s' where fin: "finish_handler ops config run (je_attempt_count e) ref w1 (hr_others run s1) =
      (Inr (), counted st w1, s')" "status s' (je_id e) = Some st"
    using finish_live [OF inv live, of st run config "je_attempt_count e" w1] id st by auto
  have "process ops config run (Some e) w s =
      (Inr (), (counted st w1)\<lparr>wm_active := wm_active (counted st w1) - 1\<rparr>, s')"
    using lease hb ctx fin(1) by (simp add: process_def Let_def ref [symmetric] w1_def [symmetric])
  moreover have "(counted st w1)\<lparr>wm_active := wm_active (counted st w1) - 1\<rparr> =
      counted st (if is_panic (hr_result run) then w\<lparr>wm_handler_panics := wm_handler_panics w + 1\<rparr> else w)"
    by (cases st) (simp_all add: counted_def w1_def)
  ultimately show ?thesis using fin(2) by blast
qed

lemma process_lost:
  assumes lease: "je_lease e = Some l"
    and ref: "ref = \<lparr>lr_job_id = je_id e, lr_worker_id = jl_owner l, lr_lease_token = jl_token l\<rparr>"
    and hb: "heartbeat ops config ref (hr_ticks run) s = (None, s1)"
    and ctx: "\<not> hr_ctx_done run" and lost: "lost ref (hr_others run s1)"
  shows "\<exists>w'. process ops config run (Some e) w s = (Inl (StoreError ErrLeaseLost), w', hr_others run s1) \<and>
    wm_lease_lost w' = wm_lease_lost w + 1 \<and> wm_succeeded w' = wm_succeeded w \<and>
    wm_retried w' = wm_retried w \<and> wm_dead_lettered w' = wm_dead_lettered w \<and> wm_active w' = wm_active w"
  using assms by (simp add: process_def Let_def ref [symmetric] finish_lost)

end

section \<open>The PostgreSQL store keeps the contract\<close>

record pg_state =
  pg_now :: time
  pg_db :: job_db

definition pg_env :: "job_env \<Rightarrow> job_env" where
  "pg_env env = env\<lparr>valid_failure := ValidateFailure\<rparr>"

definition on_db :: "(job_db \<Rightarrow> 'r \<times> job_db) \<Rightarrow> pg_state \<Rightarrow> 'r \<times> pg_state" where
  "on_db f s = (case f (pg_db s) of (r, db') \<Rightarrow> (r, s\<lparr>pg_db := db'\<rparr>))"

definition pg_ops ::
  "job_env \<Rightarrow> module_authority option \<Rightarrow> (uuid \<Rightarrow> bool) \<Rightarrow> (pg_state \<Rightarrow> uuid \<Rightarrow> uuid) \<Rightarrow> pg_state job_store_ops" where
  "pg_ops env claim locked fresh =
     \<lparr>so_claim = (\<lambda>req s. on_db (Claim (pg_env env) (pg_now s) (pg_now s) locked claim req (fresh s)) s),
      so_heartbeat = (\<lambda>ref d s. on_db (Heartbeat (pg_env env) (pg_now s) claim ref d) s),
      so_complete = (\<lambda>ref s. on_db (Complete (pg_env env) (pg_now s) claim ref None) s),
      so_retry = (\<lambda>ref f t s. on_db (Retry (pg_env env) (pg_now s) claim ref f t) s),
      so_dead_letter = (\<lambda>ref f s. on_db (DeadLetter (pg_env env) (pg_now s) claim ref f) s)\<rparr>"

definition pg_inv :: "pg_state \<Rightarrow> bool" where
  "pg_inv s \<longleftrightarrow> reachable (pg_db s)"

definition pg_holds :: "module_authority option \<Rightarrow> lease_ref \<Rightarrow> pg_state \<Rightarrow> bool" where
  "pg_holds claim ref s \<longleftrightarrow> (\<exists>m \<in> set (job_messages (pg_db s)). holds_live_lease (pg_now s) claim ref m)"

definition pg_live :: "job_env \<Rightarrow> module_authority option \<Rightarrow> lease_ref \<Rightarrow> pg_state \<Rightarrow> bool" where
  "pg_live env claim ref s \<longleftrightarrow> valid_lease env ref \<and> \<not> module_lock_fails env claim \<and> pg_holds claim ref s"

definition pg_lost :: "job_env \<Rightarrow> module_authority option \<Rightarrow> lease_ref \<Rightarrow> pg_state \<Rightarrow> bool" where
  "pg_lost env claim ref s \<longleftrightarrow> valid_lease env ref \<and> \<not> module_lock_fails env claim \<and> \<not> pg_holds claim ref s"

definition pg_status :: "pg_state \<Rightarrow> uuid \<Rightarrow> job_state option" where
  "pg_status s i = map_option jm_state (select_first (\<lambda>m. jm_id m = i) (job_messages (pg_db s)))"

definition pg_spent :: "pg_state \<Rightarrow> uuid \<Rightarrow> bool" where
  "pg_spent s i =
     (case select_first (\<lambda>m. jm_id m = i) (job_messages (pg_db s)) of
        None \<Rightarrow> False | Some m \<Rightarrow> jm_max_attempts m \<le> jm_attempt_count m)"

lemma pg_env_simps [simp]:
  "valid_lease (pg_env env) = valid_lease env" "valid_failure (pg_env env) = ValidateFailure"
  "module_lock_fails (pg_env env) claim = module_lock_fails env claim"
  by (simp_all add: pg_env_def module_lock_fails_def split: option.split)

lemma find_filter_head: "List.find P xs = (case filter P xs of [] \<Rightarrow> None | x # _ \<Rightarrow> Some x)"
  by (induction xs) simp_all

lemma finalized_to_status: "finalized_to db i st db' \<Longrightarrow> pg_status (s\<lparr>pg_db := db'\<rparr>) i = Some st"
  by (cases "filter (\<lambda>m. jm_id m = i) (job_messages db')")
    (auto simp: finalized_to_def pg_status_def select_first_def find_filter_head)

lemma pg_liveE:
  assumes "pg_inv s" "pg_live env claim ref s"
  obtains m where "m \<in> set (job_messages (pg_db s))" "holds_live_lease (pg_now s) claim ref m"
    "jm_id m = lr_job_id ref" "pg_spent s (lr_job_id ref) \<longleftrightarrow> jm_max_attempts m \<le> jm_attempt_count m"
proof -
  obtain m where m: "m \<in> set (job_messages (pg_db s))" "holds_live_lease (pg_now s) claim ref m"
    using assms(2) by (auto simp: pg_live_def pg_holds_def)
  have id: "jm_id m = lr_job_id ref" using m(2) by (simp add: holds_live_lease_def)
  have "select_first (\<lambda>m. jm_id m = lr_job_id ref) (job_messages (pg_db s)) = Some m"
    using db_ok_row(1) [OF reachable_ok m(1)] assms(1) id by (simp add: pg_inv_def view_def)
  then show thesis using m id by (intro that [of m]) (simp_all add: pg_spent_def)
qed

interpretation pg: lease_store "pg_ops env claim locked fresh" pg_inv "pg_live env claim" "pg_lost env claim"
  pg_status pg_spent for env claim locked fresh
proof unfold_locales
  fix s lease assume a: "pg_inv s" "pg_live env claim lease s"
  obtain m where m: "m \<in> set (job_messages (pg_db s))" "holds_live_lease (pg_now s) claim lease m"
    "jm_id m = lr_job_id lease" "pg_spent s (lr_job_id lease) \<longleftrightarrow> jm_max_attempts m \<le> jm_attempt_count m"
    by (rule pg_liveE [OF a])
  have ok: "reachable (pg_db s)" "valid_lease (pg_env env) lease" "\<not> module_lock_fails (pg_env env) claim"
    using a by (simp_all add: pg_inv_def pg_live_def)
  show "\<exists>s'. so_complete (pg_ops env claim locked fresh) lease s = (Inr (), s') \<and>
      pg_status s' (lr_job_id lease) = Some SUCCEEDED"
    using live_lease_runs(1) [OF ok(1,2) _ ok(3) m(1,2), of "\<lparr>jf_code = ''jobs.handler_failed'', jf_message = ''job handler failed''\<rparr>" None]
      generic_failures_valid m(3)
    by (auto simp: pg_ops_def on_db_def dest: finalized_to_status)
  fix f assume f: "ValidateFailure f"
  then have vf: "valid_failure (pg_env env) f" by simp
  show "\<exists>s'. so_dead_letter (pg_ops env claim locked fresh) lease f s = (Inr (), s') \<and>
      pg_status s' (lr_job_id lease) = Some DEAD_LETTER"
    using live_lease_runs(2) [OF ok(1,2) vf ok(3) m(1,2)] m(3)
    by (auto simp: pg_ops_def on_db_def dest: finalized_to_status)
  fix t
  show "\<exists>s'. so_retry (pg_ops env claim locked fresh) lease f t s =
        (Inr (if pg_spent s (lr_job_id lease) then DEAD_LETTER else RETRYING), s') \<and>
      pg_status s' (lr_job_id lease) = Some (if pg_spent s (lr_job_id lease) then DEAD_LETTER else RETRYING)"
    using live_lease_runs(3) [OF ok(1,2) vf ok(3) m(1,2), of t] m(3,4)
    by (auto simp: pg_ops_def on_db_def Let_def dest: finalized_to_status)
next
  fix s lease assume "pg_lost env claim lease s"
  then have lost: "valid_lease (pg_env env) lease" "\<not> module_lock_fails (pg_env env) claim"
    "\<forall>m \<in> set (job_messages (pg_db s)). \<not> holds_live_lease (pg_now s) claim lease m"
    by (auto simp: pg_lost_def pg_holds_def)
  note none = lockLive_none [OF lost(3)]
  show "so_complete (pg_ops env claim locked fresh) lease s = (Inl ErrLeaseLost, s)"
    using lost(1,2) none by (simp add: pg_ops_def on_db_def Complete_def finalize_def commit_def)
  show "so_heartbeat (pg_ops env claim locked fresh) lease d s = (Inl ErrLeaseLost, s)" for d
    using lost by (simp add: pg_ops_def on_db_def Heartbeat_def rows_affected_zero)
  show "ValidateFailure f \<Longrightarrow> so_dead_letter (pg_ops env claim locked fresh) lease f s = (Inl ErrLeaseLost, s)" for f
    using lost(1,2) none by (simp add: pg_ops_def on_db_def DeadLetter_def finalize_def commit_def)
  show "ValidateFailure f \<Longrightarrow> so_retry (pg_ops env claim locked fresh) lease f t s = (Inl ErrLeaseLost, s)" for f t
    using lost(1,2) none by (simp add: pg_ops_def on_db_def Retry_def finalizeRetry_def)
qed

section \<open>Properties\<close>

definition envelope_lease :: "job_envelope \<Rightarrow> job_lease \<Rightarrow> lease_ref" where
  "envelope_lease e l = \<lparr>lr_job_id = je_id e, lr_worker_id = jl_owner l, lr_lease_token = jl_token l\<rparr>"

text \<open>
  C38.  A worker that kept its lease stores its handler's outcome, whatever other workers did
  meanwhile: over the PostgreSQL store the job ends succeeded, retrying or dead-lettered as
  the handler's result, its classification and the attempts left demand, \<^verbatim>\<open>process\<close> returns no
  error, and exactly the matching counter (and the panic counter on a panic) moves.
\<close>

theorem worker_stores_the_outcome:
  assumes "je_lease e = Some l"
    and "heartbeat (pg_ops env claim locked fresh) config (envelope_lease e l) (hr_ticks run) s = (None, s1)"
    and "\<not> hr_ctx_done run" "reachable (pg_db (hr_others run s1))"
    and "pg_live env claim (envelope_lease e l) (hr_others run s1)"
  shows "let st = outcome_state (pg_spent (hr_others run s1) (je_id e)) (hr_result run) in
    \<exists>w' s'. process (pg_ops env claim locked fresh) config run (Some e) w s = (Inr (), w', s') \<and>
      pg_status s' (je_id e) = Some st \<and>
      w' = counted st (if is_panic (hr_result run) then w\<lparr>wm_handler_panics := wm_handler_panics w + 1\<rparr> else w)"
  unfolding Let_def
  by (rule pg.process_live [OF assms(1) envelope_lease_def assms(2,3) _ assms(5) refl])
    (simp add: pg_inv_def assms(4))

text \<open>
   A worker that lost its lease has no effect: its finalization is refused, the tables stay as
  the others left them, no outcome is counted and the loss is.
\<close>

theorem worker_without_lease_has_no_effect:
  assumes "je_lease e = Some l"
    and "heartbeat (pg_ops env claim locked fresh) config (envelope_lease e l) (hr_ticks run) s = (None, s1)"
    and "\<not> hr_ctx_done run" "pg_lost env claim (envelope_lease e l) (hr_others run s1)"
  shows "\<exists>w'. process (pg_ops env claim locked fresh) config run (Some e) w s =
      (Inl (StoreError ErrLeaseLost), w', hr_others run s1) \<and>
    wm_lease_lost w' = wm_lease_lost w + 1 \<and> wm_succeeded w' = wm_succeeded w \<and>
    wm_retried w' = wm_retried w \<and> wm_dead_lettered w' = wm_dead_lettered w \<and> wm_active w' = wm_active w"
  by (rule pg.process_lost [OF assms(1) envelope_lease_def assms(2-4)])

text \<open>
   Durable history never learns what a handler said: the failure stored for a job is always
  valid, it is one of the two generic texts unless the handler itself named a validated
  processing failure, and neither the text of an arbitrary error nor a panic value has any
  influence on it.
\<close>

theorem stored_failure_is_operator_safe:
  shows "ValidateFailure (fst (classify r)) \<and>
    (jf_code (fst (classify r)) = ''jobs.handler_failed'' \<and> jf_message (fst (classify r)) = ''job handler failed'' \<or>
     jf_code (fst (classify r)) = ''jobs.handler_panic'' \<and> jf_message (fst (classify r)) = ''job handler panicked'' \<or>
     (\<exists>pe. r = HandlerProcessingError pe \<and> pe_failure pe = Some (fst (classify r)))) \<and>
    classify (HandlerError t) = classify (HandlerError t') \<and> classify (HandlerPanic t) = classify (HandlerPanic t') \<and>
    fst (snd (classify (HandlerPanic t)))"
proof (intro conjI)
  show "jf_code (fst (classify r)) = ''jobs.handler_failed'' \<and> jf_message (fst (classify r)) = ''job handler failed'' \<or>
     jf_code (fst (classify r)) = ''jobs.handler_panic'' \<and> jf_message (fst (classify r)) = ''job handler panicked'' \<or>
     (\<exists>pe. r = HandlerProcessingError pe \<and> pe_failure pe = Some (fst (classify r)))"
    by (cases r) (simp_all add: classify_def Let_def split: option.split)
  show "ValidateFailure (fst (classify r))" by (rule classify_valid)
qed (simp_all add: classify_def)

lemma sint_of_nat_small: "n < 2 ^ 63 \<Longrightarrow> sint (of_nat n :: 64 word) = int n"
proof -
  assume "n < 2 ^ 63"
  then have "int n < 2 ^ 63" by (metis of_nat_less_iff of_nat_numeral of_nat_power)
  then show ?thesis by (simp add: signed_of_nat signed_take_bit_int_eq_self)
qed

lemma defaultRetryDelay_value:
  "defaultRetryDelay attempt = of_nat (5000000000 * 2 ^ min (unat attempt - 1) 8)"
proof -
  have shift: "unat (if 8 < a - 1 then 8 else a - 1) = min (unat a - 1) 8" if "a \<noteq> 0" for a :: "32 word"
  proof -
    have "unat (a - 1) = unat a - 1" using that by (simp add: unat_minus_one)
    then show ?thesis by (simp add: word_less_nat_alt min_def)
  qed
  show ?thesis
    using shift [of attempt] shift [of 1]
    by (cases "attempt = 0") (simp_all add: defaultRetryDelay_def Let_def push_bit_eq_mult)
qed

text \<open>
   The default backoff doubles from five seconds and is capped: for every 32-bit attempt
  number it is 5s times two to the power of at most eight, never wraps in 64 bits, and never
  shrinks as attempts grow.
\<close>

theorem defaultRetryDelay_bounded:
  "sint (defaultRetryDelay attempt) = 5000000000 * 2 ^ min (unat attempt - 1) 8 \<and>
   seconds 5 \<le> sint (defaultRetryDelay attempt) \<and> sint (defaultRetryDelay attempt) \<le> seconds 1280 \<and>
   (attempt \<le> attempt' \<longrightarrow> sint (defaultRetryDelay attempt) \<le> sint (defaultRetryDelay attempt'))"
proof -
  have val: "sint (defaultRetryDelay a) = 5000000000 * 2 ^ min (unat a - 1) 8" for a
  proof -
    have "(2::nat) ^ min (unat a - 1) 8 \<le> 2 ^ 8" by (rule power_increasing) simp_all
    then have "5000000000 * 2 ^ min (unat a - 1) 8 < (2::nat) ^ 63" by simp
    then have "sint (of_nat (5000000000 * 2 ^ min (unat a - 1) 8) :: 64 word) =
        int (5000000000 * 2 ^ min (unat a - 1) 8)"
      by (rule sint_of_nat_small)
    then show ?thesis by (simp only: defaultRetryDelay_value) simp
  qed
  have mono: "(2::int) ^ min (unat a - 1) 8 \<le> 2 ^ min (unat b - 1) 8" if "a \<le> b" for a b :: "32 word"
    using that by (intro power_increasing) (auto simp: word_le_nat_alt)
  have "(1::int) \<le> 2 ^ min (unat attempt - 1) 8" "(2::int) ^ min (unat attempt - 1) 8 \<le> 2 ^ 8"
    by (simp, rule power_increasing) simp_all
  then show ?thesis using mono [of attempt attempt'] by (simp add: val)
qed

text \<open>
  A worker that starts is well configured: whatever zero values it was given, an accepted
  configuration has a queue, a worker id, positive poll and lease durations, a heartbeat
  strictly inside the lease, a batch of one to a hundred, and a claim command that validates.
\<close>

theorem NewWorker_sound:
  assumes "NewWorker generated_id telemetry_ok valid config = Inr config'" "generated_id \<noteq> []"
  shows "wc_queue config' = wc_queue config \<and> wc_queue config' \<noteq> [] \<and> wc_worker_id config' \<noteq> [] \<and>
    0 < wc_poll_interval config' \<and> 0 < wc_heartbeat_interval config' \<and>
    wc_heartbeat_interval config' < wc_lease_duration config' \<and>
    1 \<le> wc_batch_size config' \<and> wc_batch_size config' \<le> 100 \<and>
    valid \<lparr>cl_queue = wc_queue config', cl_worker_id = wc_worker_id config', cl_limit = wc_batch_size config',
           cl_lease_duration = wc_lease_duration config'\<rparr>"
  using assms unfolding NewWorker_def Let_def
  by (simp split: if_splits) (auto simp: not_le)

text \<open>Every claimed job is accounted for once.\<close>

definition settled :: "worker_metrics \<Rightarrow> 64 word" where
  "settled w = wm_succeeded w + wm_retried w + wm_dead_lettered w"

lemma finish_settles:
  "finish_handler ops config run attempt lease w s = (r, w', s') \<Longrightarrow>
   settled w' = settled w + (if isl r then 0 else 1) \<and> wm_active w' = wm_active w \<and>
   wm_claimed w' = wm_claimed w"
  by (auto simp: finish_handler_def settled_def finalizationError_def Let_def algebra_simps
      split: handler_result.splits prod.splits sum.splits if_splits)

lemma process_settles:
  "process ops config run (Some e) w s = (r, w', s') \<Longrightarrow>
   settled w' = settled w + (if isl r then 0 else 1) \<and> wm_active w' = wm_active w \<and>
   wm_claimed w' = wm_claimed w"
proof (cases "je_lease e")
  case (Some l)
  assume p: "process ops config run (Some e) w s = (r, w', s')"
  let ?lease = "\<lparr>lr_job_id = je_id e, lr_worker_id = jl_owner l, lr_lease_token = jl_token l\<rparr>"
  define w1 where "w1 = (if is_panic (hr_result run)
    then (w\<lparr>wm_active := wm_active w + 1\<rparr>)\<lparr>wm_handler_panics := wm_handler_panics (w\<lparr>wm_active := wm_active w + 1\<rparr>) + 1\<rparr>
    else w\<lparr>wm_active := wm_active w + 1\<rparr>)"
  have w1: "settled w1 = settled w" "wm_active w1 = wm_active w + 1" "wm_claimed w1 = wm_claimed w"
    by (simp_all add: w1_def settled_def)
  obtain err s1 where hb: "heartbeat ops config ?lease (hr_ticks run) s = (err, s1)" by fastforce
  obtain r2 w2 s2 where fin: "finish_handler ops config run (je_attempt_count e) ?lease w1 (hr_others run s1) = (r2, w2, s2)"
    by (rule prod_cases3)
  show ?thesis
    using p Some hb fin w1 finish_settles [OF fin]
    by (auto simp: process_def Let_def w1_def [symmetric] finalizationError_def settled_def
        split: option.splits if_splits)
qed (auto simp: process_def)

lemma process_all_settles:
  "process_all ops config jobs w s = (errs, w', s') \<Longrightarrow>
   settled w' + of_nat (length errs) = settled w + of_nat (length jobs) \<and> wm_active w' = wm_active w \<and>
   wm_claimed w' = wm_claimed w"
proof (induction ops config jobs w s arbitrary: errs w' s' rule: process_all.induct)
  case (2 ops config e run rest w s)
  obtain r w1 s1 where p: "process ops config run (Some e) w s = (r, w1, s1)" by (rule prod_cases3)
  obtain errs2 w2 s2 where pa: "process_all ops config rest w1 s1 = (errs2, w2, s2)" by (rule prod_cases3)
  have res: "errs = (case r of Inl err \<Rightarrow> err # errs2 | Inr _ \<Rightarrow> errs2)" "w' = w2"
    using "2.prems" p pa by simp_all
  show ?case
    using "2.IH" [OF p [symmetric] refl pa] process_settles [OF p] res
    by (cases r) (simp_all add: algebra_simps)
qed simp

text \<open>
   A poll accounts for every job it claims, over any store: the claimed counter and the
  reported size grow by the number of claimed jobs, each of them is counted as exactly one of
  succeeded, retried or dead-lettered or contributes one error, and no job stays counted as
  active.
\<close>

theorem runOnce_accounts_for_every_job:
  assumes "runOnce ops config runs w s = (Inr (n, errs), w', s')"
  shows "wm_claimed w' = wm_claimed w + of_nat n \<and>
    settled w' + of_nat (length errs) = settled w + of_nat n \<and> wm_active w' = wm_active w"
proof -
  let ?w0 = "w\<lparr>wm_iterations := wm_iterations w + 1\<rparr>"
  obtain jobs s1 where jobs: "so_claim ops \<lparr>cl_queue = wc_queue config, cl_worker_id = wc_worker_id config,
      cl_limit = wc_batch_size config, cl_lease_duration = wc_lease_duration config\<rparr> s = (Inr jobs, s1)"
    using assms by (cases "so_claim ops \<lparr>cl_queue = wc_queue config, cl_worker_id = wc_worker_id config,
        cl_limit = wc_batch_size config, cl_lease_duration = wc_lease_duration config\<rparr> s")
      (auto simp: runOnce_def Let_def split: sum.splits)
  obtain errs2 w2 s2 where pa: "process_all ops config (map (\<lambda>e. (e, runs e)) jobs)
      (?w0\<lparr>wm_claimed := wm_claimed ?w0 + of_nat (length jobs)\<rparr>) s1 = (errs2, w2, s2)"
    by (rule prod_cases3)
  have "n = length jobs" "errs = errs2" "w' = w2"
    using assms jobs pa by (simp_all add: runOnce_def Let_def)
  then show ?thesis using process_all_settles [OF pa] by (simp add: settled_def)
qed

end
