(* ===== verification/Paging.thy ===== *)
theory Paging
  imports Job_State
begin

text \<open>
  Seek pagination, as the listings of the accounts service do it: one page is the first \<^verbatim>\<open>n\<close> rows
  below the cursor in descending key order, one row more is fetched to know whether a next
  page exists, and the next cursor is the key of the last row returned.  Also the decoder of
  \<^verbatim>\<open>base64.RawURLEncoding\<close>, which opens the opaque page tokens.
\<close>

section \<open>Pages\<close>

definition below :: "('r \<Rightarrow> 'k::linorder) \<Rightarrow> 'k option \<Rightarrow> 'r \<Rightarrow> bool" where
  "below key cursor r = (case cursor of None \<Rightarrow> True | Some c \<Rightarrow> key r < c)"

definition ordered_desc :: "('r \<Rightarrow> 'k::linorder) \<Rightarrow> ('r \<Rightarrow> bool) \<Rightarrow> 'r list \<Rightarrow> 'r list" where
  "ordered_desc key p rows = rev (sort_key key (filter p rows))"

definition fetch ::
  "('r \<Rightarrow> 'k::linorder) \<Rightarrow> ('r \<Rightarrow> bool) \<Rightarrow> nat \<Rightarrow> 'k option \<Rightarrow> 'r list \<Rightarrow> 'r list" where
  "fetch key p n cursor rows = take (n + 1) (ordered_desc key (\<lambda>r. p r \<and> below key cursor r) rows)"

definition seek ::
  "('r \<Rightarrow> 'k::linorder) \<Rightarrow> ('r \<Rightarrow> bool) \<Rightarrow> nat \<Rightarrow> 'k option \<Rightarrow> 'r list \<Rightarrow> 'r list \<times> 'k option" where
  "seek key p n cursor rows =
     (let due = fetch key p n cursor rows
      in if n < length due then (take n due, Some (key (last (take n due)))) else (due, None))"

fun walk :: "nat \<Rightarrow> ('k option \<Rightarrow> 'r list \<times> 'k option) \<Rightarrow> 'k option \<Rightarrow> 'r list option" where
  "walk 0 page cursor = None"
| "walk (Suc fuel) page cursor =
     (case page cursor of
        (rs, None) \<Rightarrow> Some rs
      | (rs, Some c) \<Rightarrow> map_option (\<lambda>more. rs @ more) (walk fuel page (Some c)))"

lemma ordered_desc_filter:
  "ordered_desc key (\<lambda>r. p r \<and> q r) rows = filter q (ordered_desc key p rows)"
  by (simp add: ordered_desc_def filter_sort rev_filter [symmetric] conj_commute)

lemma ordered_desc_strict:
  assumes "inj_on key (set rows)" "distinct rows"
  shows "sorted_wrt (\<lambda>a b. key b < key a) (ordered_desc key p rows)"
proof -
  have "inj_on key (set (filter p rows))" by (rule inj_on_subset [OF assms(1)]) auto
  then have "sorted_wrt (<) (map key (sort_key key (filter p rows)))"
    using assms(2) by (simp add: strict_sorted_iff distinct_map)
  then show ?thesis
    by (simp add: ordered_desc_def sorted_wrt_rev sorted_wrt_map)
qed

lemma filter_below_nth:
  fixes key :: "'r \<Rightarrow> 'k::linorder"
  assumes "sorted_wrt (\<lambda>a b. key b < key a) xs" "0 < n" "n \<le> length xs"
  shows "filter (\<lambda>r. key r < key (last (take n xs))) xs = drop n xs"
proof -
  define c where "c = last (take n xs)"
  have ne: "take n xs \<noteq> []" using assms(2,3) by auto
  obtain ys where ys: "take n xs = ys @ [c]" using ne by (metis append_butlast_last_id c_def)
  have xs: "xs = ys @ [c] @ drop n xs" using ys by (metis append_assoc append_take_drop_id)
  have srt: "sorted_wrt (\<lambda>a b. key b < key a) (ys @ [c] @ drop n xs)" using assms(1) xs by simp
  have "\<forall>x \<in> set ys. key c < key x" using srt by (simp add: sorted_wrt_append)
  then have "filter (\<lambda>r. key r < key c) ys = []"
    by (simp add: filter_empty_conv not_less less_imp_le)
  moreover have "filter (\<lambda>r. key r < key c) (drop n xs) = drop n xs"
    using srt by (auto simp: sorted_wrt_append intro!: filter_True)
  ultimately have "filter (\<lambda>r. key r < key c) (ys @ [c] @ drop n xs) = drop n xs" by simp
  then show ?thesis using xs c_def by metis
qed

lemma below_less:
  assumes "c' \<in> key ` set (ordered_desc key (\<lambda>r. p r \<and> below key cursor r) rows)"
  shows "(p r \<and> below key (Some c') r) \<longleftrightarrow> ((p r \<and> below key cursor r) \<and> key r < c')"
  using assms by (auto simp: below_def ordered_desc_def split: option.splits)

text \<open>Walking the pages from any cursor collects exactly the rows below it, in order.\<close>

lemma walk_seek_from:
  assumes "inj_on key (set rows)" "distinct rows" "0 < n"
    and "length (ordered_desc key (\<lambda>r. p r \<and> below key cursor r) rows) < fuel"
  shows "walk fuel (\<lambda>c. seek key p n c rows) cursor =
    Some (ordered_desc key (\<lambda>r. p r \<and> below key cursor r) rows)"
  using assms(4)
proof (induction fuel arbitrary: cursor)
  case (Suc fuel)
  define xs where "xs = ordered_desc key (\<lambda>r. p r \<and> below key cursor r) rows"
  show ?case
  proof (cases "n < length xs")
    case False
    then show ?thesis by (simp add: seek_def fetch_def xs_def [symmetric] Let_def)
  next
    case True
    define c where "c = key (last (take n xs))"
    have page: "seek key p n cursor rows = (take n xs, Some c)"
      using True by (simp add: seek_def fetch_def xs_def [symmetric] Let_def c_def min_def)
    have "take n xs \<noteq> []" using assms(3) True by auto
    then have "last (take n xs) \<in> set xs" by (meson last_in_set in_set_takeD)
    then have "c \<in> key ` set xs" by (simp add: c_def)
    then have "ordered_desc key (\<lambda>r. p r \<and> below key (Some c) r) rows =
        ordered_desc key (\<lambda>r. (p r \<and> below key cursor r) \<and> key r < c) rows"
      using below_less [of c key p cursor rows] by (simp add: xs_def)
    also have "\<dots> = filter (\<lambda>r. key r < c) xs" by (simp only: ordered_desc_filter xs_def)
    also have "\<dots> = drop n xs"
      unfolding c_def using ordered_desc_strict [OF assms(1,2)] assms(3) True
      by (intro filter_below_nth) (simp_all add: xs_def)
    finally have rest: "ordered_desc key (\<lambda>r. p r \<and> below key (Some c) r) rows = drop n xs" .
    have "length (drop n xs) < fuel" using Suc.prems assms(3) True by (simp add: xs_def [symmetric])
    then have "walk fuel (\<lambda>c. seek key p n c rows) (Some c) = Some (drop n xs)"
      using Suc.IH [of "Some c"] rest by simp
    then show ?thesis using page by (simp add: xs_def [symmetric])
  qed
qed simp

lemma walk_seek:
  assumes "inj_on key (set rows)" "distinct rows" "0 < n" "length rows < fuel"
  shows "walk fuel (\<lambda>c. seek key p n c rows) None = Some (ordered_desc key p rows)"
proof -
  have "ordered_desc key (\<lambda>r. p r \<and> below key None r) rows = ordered_desc key p rows"
    by (simp add: below_def)
  moreover have "length (ordered_desc key p rows) \<le> length rows"
    by (simp add: ordered_desc_def)
  ultimately show ?thesis using walk_seek_from [OF assms(1,2,3), of p None fuel] assms(4) by simp
qed

lemma seek_length: "length (fst (seek key p n cursor rows)) \<le> n"
  by (simp add: seek_def Let_def)

section \<open>Decoding RawURLEncoding\<close>

definition base64_value :: "char \<Rightarrow> nat option" where
  "base64_value c = (if c \<in> set base64_url_alphabet then Some (length (takeWhile (\<lambda>d. d \<noteq> c) base64_url_alphabet)) else None)"

fun base64_values :: "string \<Rightarrow> nat list option" where
  "base64_values [] = Some []"
| "base64_values (c # cs) =
     (case base64_value c of
        None \<Rightarrow> None
      | Some v \<Rightarrow> (case base64_values cs of None \<Rightarrow> None | Some vs \<Rightarrow> Some (v # vs)))"

definition byte_at :: "nat \<Rightarrow> nat \<Rightarrow> char" where
  "byte_at q k = char_of (q div k mod 256)"

fun base64_groups :: "nat list \<Rightarrow> string option" where
  "base64_groups [] = Some []"
| "base64_groups [a] = None"
| "base64_groups [a, b] = (let q = a * 262144 + b * 4096 in Some [byte_at q 65536])"
| "base64_groups [a, b, c] =
     (let q = a * 262144 + b * 4096 + c * 64 in Some [byte_at q 65536, byte_at q 256])"
| "base64_groups (a # b # c # d # rest) =
     (let q = a * 262144 + b * 4096 + c * 64 + d
      in map_option (\<lambda>more. [byte_at q 65536, byte_at q 256, byte_at q 1] @ more) (base64_groups rest))"

text \<open>\<^verbatim>\<open>DecodeString\<close> drops carriage returns and newlines and ignores unused trailing bits.\<close>

definition RawURLDecoding :: "string \<Rightarrow> string option" where
  "RawURLDecoding s =
     (case base64_values (filter (\<lambda>c. c \<noteq> CHR 0x0A \<and> c \<noteq> CHR 0x0D) s) of
        None \<Rightarrow> None | Some vs \<Rightarrow> base64_groups vs)"

lemma base64_value_letter: "base64_value (base64_letter n) = Some (n mod 64)"
proof -
  let ?k = "n mod 64"
  have k: "?k < length base64_url_alphabet" by (simp add: base64_alphabet_facts)
  have "takeWhile (\<lambda>d. d \<noteq> base64_letter n) base64_url_alphabet = take ?k base64_url_alphabet"
  proof (rule takeWhile_eq_take_P_nth)
    fix i assume i: "i < ?k" "i < length base64_url_alphabet"
    then show "base64_url_alphabet ! i \<noteq> base64_letter n"
      using nth_eq_iff_index_eq [OF base64_alphabet_facts(2), of i ?k] k by (simp add: base64_letter_def)
  next
    assume "?k < length base64_url_alphabet"
    then show "\<not> base64_url_alphabet ! ?k \<noteq> base64_letter n" by (simp add: base64_letter_def)
  qed
  then show ?thesis using k base64_letter_in by (simp add: base64_value_def base64_alphabet_facts)
qed

lemma base64_values_letters: "base64_values (map base64_letter ns @ cs) =
  map_option (\<lambda>vs. map (\<lambda>n. n mod 64) ns @ vs) (base64_values cs)"
proof (induction ns)
  case (Cons n ns)
  then show ?case by (cases "base64_values cs") (simp_all add: base64_value_letter)
qed (cases "base64_values cs"; simp)

lemma div_place: "r < k \<Longrightarrow> (a * k + r) div k = (a :: nat)"
  by simp

lemma quantum_bytes:
  "byte_at (base64_quantum a b c) 65536 = a"
  "byte_at (base64_quantum a b c) 256 = b"
  "byte_at (base64_quantum a b c) 1 = c"
proof -
  have lt: "of_char x < (256::nat)" for x by (rule nat_of_char_less_256)
  have "of_char b * 256 + of_char c < (65536::nat)" using lt [of b] lt [of c] by linarith
  then have "base64_quantum a b c div 65536 = of_char a"
    unfolding base64_quantum_def add.assoc by (rule div_place)
  then show "byte_at (base64_quantum a b c) 65536 = a" using lt [of a] by (simp add: byte_at_def)
  have q: "base64_quantum a b c = (of_char a * 256 + of_char b) * 256 + of_char c"
    by (simp add: base64_quantum_def algebra_simps)
  have "base64_quantum a b c div 256 = of_char a * 256 + of_char b"
    unfolding q using lt [of c] by (rule div_place)
  moreover have "base64_quantum a b c mod 256 = of_char c"
    unfolding q using lt [of c] by (simp only: mod_mult_self3 mod_less)
  ultimately show "byte_at (base64_quantum a b c) 256 = b" "byte_at (base64_quantum a b c) 1 = c"
    using lt [of b] by (simp_all add: byte_at_def)
qed

lemma base64_digits:
  assumes "q < 64 * 64 * 64 * (64::nat)"
  shows "(q div 64 div 64 div 64 mod 64) * 262144 + (q div 64 div 64 mod 64) * 4096 +
    (q div 64 mod 64) * 64 + q mod 64 = q"
proof -
  define x where "x = q div 64"
  define y where "y = x div 64"
  define z where "z = y div 64"
  have "q = 64 * x + q mod 64" "x = 64 * y + x mod 64" "y = 64 * z + y mod 64"
    by (simp_all add: x_def y_def z_def)
  moreover have "z mod 64 = z" using base64_top_digit [OF assms] by (simp add: x_def y_def z_def)
  ultimately have "(z mod 64) * 262144 + (y mod 64) * 4096 + (x mod 64) * 64 + q mod 64 = q" by linarith
  then show ?thesis by (simp only: x_def y_def z_def)
qed

lemma base64_letters_no_newline: "filter (\<lambda>c. c \<noteq> CHR 0x0A \<and> c \<noteq> CHR 0x0D) (RawURLEncoding xs) = RawURLEncoding xs"
proof (rule filter_True)
  have "CHR 0x0A \<notin> set base64_url_alphabet" "CHR 0x0D \<notin> set base64_url_alphabet"
    by (simp_all add: base64_url_alphabet_def)
  then show "\<forall>c \<in> set (RawURLEncoding xs). c \<noteq> CHR 0x0A \<and> c \<noteq> CHR 0x0D"
    using RawURLEncoding_letters [of xs] by auto
qed

lemma short_group_digits:
  "base64_quantum a (CHR 0x00) (CHR 0x00) div 64 mod 64 = 0"
  "base64_quantum a b (CHR 0x00) mod 64 = 0"
proof -
  have "base64_quantum a (CHR 0x00) (CHR 0x00) div 64 = of_char a * 16 * 64"
    "base64_quantum a b (CHR 0x00) = (of_char a * 1024 + of_char b * 4) * 64"
    by (simp_all add: base64_quantum_def algebra_simps)
  then show "base64_quantum a (CHR 0x00) (CHR 0x00) div 64 mod 64 = 0" "base64_quantum a b (CHR 0x00) mod 64 = 0"
    by (simp_all only: mod_mult_self2_is_0)
qed

lemma groups_decoded:
  "base64_values (RawURLEncoding xs) = Some vs \<Longrightarrow> base64_groups vs = Some xs"
proof (induction xs arbitrary: vs rule: RawURLEncoding.induct)
  case (2 a)
  let ?q = "base64_quantum a (CHR 0x00) (CHR 0x00)"
  have vs: "vs = [?q div 64 div 64 div 64 mod 64, ?q div 64 div 64 mod 64]"
    using "2.prems" base64_values_letters [of "[?q div 64 div 64 div 64, ?q div 64 div 64]" "[]"]
    by (simp add: base64_letters_def numeral_2_eq_2)
  have "(?q div 64 div 64 div 64 mod 64) * 262144 + (?q div 64 div 64 mod 64) * 4096 = ?q"
    using base64_digits [OF base64_quantum_lt, of a "CHR 0x00" "CHR 0x00"] short_group_digits(1) [of a]
      short_group_digits(2) [of a "CHR 0x00"] by (simp only: mult_zero_left add_0_right)
  then show ?case using quantum_bytes(1) by (simp only: vs base64_groups.simps Let_def)
next
  case (3 a b)
  let ?q = "base64_quantum a b (CHR 0x00)"
  have vs: "vs = [?q div 64 div 64 div 64 mod 64, ?q div 64 div 64 mod 64, ?q div 64 mod 64]"
    using "3.prems" base64_values_letters [of "[?q div 64 div 64 div 64, ?q div 64 div 64, ?q div 64]" "[]"]
    by (simp add: base64_letters_def numeral_3_eq_3)
  have "(?q div 64 div 64 div 64 mod 64) * 262144 + (?q div 64 div 64 mod 64) * 4096 + (?q div 64 mod 64) * 64 = ?q"
    using base64_digits [OF base64_quantum_lt, of a b "CHR 0x00"] short_group_digits(2) [of a b]
    by (simp only: add_0_right)
  then show ?case using quantum_bytes(1,2) by (simp only: vs base64_groups.simps Let_def)
next
  case (4 a b c rest)
  let ?q = "base64_quantum a b c"
  have "base64_values (RawURLEncoding (a # b # c # rest)) =
      map_option (\<lambda>vs. map (\<lambda>n. n mod 64) [?q div 64 div 64 div 64, ?q div 64 div 64, ?q div 64, ?q] @ vs)
        (base64_values (RawURLEncoding rest))"
    by (simp only: RawURLEncoding.simps base64_letters_def base64_values_letters)
  then obtain ws where ws: "base64_values (RawURLEncoding rest) = Some ws"
    and vs: "vs = [?q div 64 div 64 div 64 mod 64, ?q div 64 div 64 mod 64, ?q div 64 mod 64, ?q mod 64] @ ws"
    using "4.prems"
    by (cases "base64_values (RawURLEncoding rest)") (simp_all only: option.map option.distinct option.inject list.map)
  have "base64_groups ws = Some rest" using "4.IH" ws by simp
  then show ?case
    using quantum_bytes [of a b c] base64_digits [OF base64_quantum_lt, of a b c]
    by (simp only: vs append.simps base64_groups.simps Let_def option.map)
qed simp

lemma base64_values_alphabet: "set cs \<subseteq> set base64_url_alphabet \<Longrightarrow> \<exists>vs. base64_values cs = Some vs"
  by (induction cs) (auto simp: base64_value_def)

text \<open>
   Page tokens survive the wire: what \<^verbatim>\<open>RawURLEncoding\<close> writes, its decoder reads back, byte for
  byte and for any length.
\<close>

theorem RawURLDecoding_encoding: "RawURLDecoding (RawURLEncoding xs) = Some xs"
proof -
  obtain vs where vs: "base64_values (RawURLEncoding xs) = Some vs"
    using base64_values_alphabet RawURLEncoding_letters by blast
  then show ?thesis
    using groups_decoded by (simp add: RawURLDecoding_def base64_letters_no_newline)
qed

end
