(* ===== verification/Job_Operations.thy ===== *)
theory Job_Operations
  imports Paging Job_Ordering
begin

text \<open>
  \<^verbatim>\<open>pkg/infra/postgres_job_operations.go\<close>: the payload-free administration view of the job store.
  Queue snapshots, the seek-paginated listing with its opaque page token, and the history of
  one job.  JSON and the timestamp range of protobuf are the record \<^verbatim>\<open>token_codec\<close>.
\<close>

section \<open>Summaries\<close>

record job_summary =
  sm_id :: uuid
  sm_direction :: job_direction
  sm_scope :: job_scope
  sm_queue :: string
  sm_topic :: string
  sm_source :: string
  sm_idempotency_key :: string
  sm_ordering_key :: string
  sm_schema_version :: nat
  sm_content_type :: string
  sm_state :: job_state
  sm_priority :: int
  sm_attempt_count :: nat
  sm_max_attempts :: nat
  sm_lease :: "job_lease option"
  sm_last_failure :: "job_failure option"
  sm_available_at :: time
  sm_last_attempt_at :: "time option"
  sm_completed_at :: "time option"
  sm_dead_lettered_at :: "time option"
  sm_created_at :: time
  sm_updated_at :: time
  sm_state_version :: nat
  sm_replay_of :: string
  sm_execution :: "(string \<times> string \<times> string) option"

definition optional_failure :: "string option \<Rightarrow> string option \<Rightarrow> job_failure option" where
  "optional_failure code message =
     (if coalesce code \<noteq> [] then Some \<lparr>jf_code = coalesce code, jf_message = coalesce message\<rparr> else None)"

definition scanJobSummaryValue :: "job_row \<Rightarrow> job_error + job_summary" where
  "scanJobSummaryValue m =
     (let sp = jm_spec m in
      rbind (ParseDatabaseDirection (js_direction sp)) (\<lambda>direction.
      rbind (databaseJobScope (js_scope_kind sp) (coalesce (js_organization_id sp)) (coalesce (js_subject_id sp))) (\<lambda>scope.
      rbind (rbind (DatabaseState (jm_state m)) ParseDatabaseState) (\<lambda>state.
      Inr \<lparr>sm_id = jm_id m, sm_direction = direction, sm_scope = scope,
           sm_queue = js_queue sp, sm_topic = js_topic sp, sm_source = js_source sp,
           sm_idempotency_key = js_idempotency_key sp, sm_ordering_key = coalesce (js_ordering_key sp),
           sm_schema_version = js_schema_version sp, sm_content_type = js_content_type sp,
           sm_state = state, sm_priority = js_priority sp,
           sm_attempt_count = jm_attempt_count m, sm_max_attempts = js_max_attempts sp,
           sm_lease =
             (if coalesce (jm_lease_owner m) \<noteq> []
              then Some \<lparr>jl_owner = coalesce (jm_lease_owner m), jl_token = coalesce (jm_lease_token m),
                         jl_expires_at = jm_lease_expires_at m, jl_heartbeat_at = jm_heartbeat_at m\<rparr>
              else None),
           sm_last_failure = optional_failure (jm_last_error_code m) (jm_last_error_message m),
           sm_available_at = jm_available_at m, sm_last_attempt_at = jm_last_attempt_at m,
           sm_completed_at = jm_completed_at m, sm_dead_lettered_at = jm_dead_lettered_at m,
           sm_created_at = js_created_at sp, sm_updated_at = jm_updated_at m,
           sm_state_version = jm_state_version m, sm_replay_of = coalesce (js_replay_of sp),
           sm_execution = (case jm_execution m of
              None \<Rightarrow> None | Some (ow, kind, i) \<Rightarrow> if ow \<noteq> [] then Some (ow, kind, i) else None)\<rparr>))))"

fun scan_summaries :: "job_row list \<Rightarrow> job_error + job_summary list" where
  "scan_summaries [] = Inr []"
| "scan_summaries (m # ms) = rbind (scanJobSummaryValue m) (\<lambda>e. rbind (scan_summaries ms) (\<lambda>es. Inr (e # es)))"

section \<open>Queue snapshots\<close>

record queue_snapshot =
  qs_queue :: string
  qs_pending :: nat
  qs_processing :: nat
  qs_retrying :: nat
  qs_succeeded :: nat
  qs_dead_letter :: nat
  qs_canceled :: nat
  qs_ready :: nat
  qs_scheduled :: nat
  qs_expired_leases :: nat
  qs_oldest_ready_at :: "time option"

definition waiting :: "job_row \<Rightarrow> bool" where
  "waiting m \<longleftrightarrow> jm_state m = PENDING \<or> jm_state m = RETRYING"

definition count_where :: "(job_row \<Rightarrow> bool) \<Rightarrow> job_row list \<Rightarrow> nat" where
  "count_where p rows = length (filter p rows)"

definition minimum :: "time list \<Rightarrow> time option" where
  "minimum ts = (case ts of [] \<Rightarrow> None | t # rest \<Rightarrow> Some (fold min rest t))"

definition queue_snapshot_of :: "time \<Rightarrow> job_row list \<Rightarrow> string \<Rightarrow> queue_snapshot" where
  "queue_snapshot_of now rows q =
     (let ms = filter (\<lambda>m. jm_queue m = q) rows
      in \<lparr>qs_queue = q,
          qs_pending = count_where (\<lambda>m. jm_state m = PENDING) ms,
          qs_processing = count_where (\<lambda>m. jm_state m = PROCESSING) ms,
          qs_retrying = count_where (\<lambda>m. jm_state m = RETRYING) ms,
          qs_succeeded = count_where (\<lambda>m. jm_state m = SUCCEEDED) ms,
          qs_dead_letter = count_where (\<lambda>m. jm_state m = DEAD_LETTER) ms,
          qs_canceled = count_where (\<lambda>m. jm_state m = CANCELED) ms,
          qs_ready = count_where (\<lambda>m. waiting m \<and> jm_available_at m \<le> now) ms,
          qs_scheduled = count_where (\<lambda>m. waiting m \<and> now < jm_available_at m) ms,
          qs_expired_leases = count_where (\<lambda>m. jm_state m = PROCESSING \<and> lease_expired now m) ms,
          qs_oldest_ready_at =
            minimum (map jm_available_at (filter (\<lambda>m. waiting m \<and> jm_available_at m \<le> now) ms))\<rparr>)"

definition GetJobOperations ::
  "(string \<Rightarrow> bool) \<Rightarrow> time \<Rightarrow> time \<Rightarrow> string \<Rightarrow> job_db \<Rightarrow> job_error + time \<times> queue_snapshot list" where
  "GetJobOperations valid observedAt now queue db =
     (if \<not> valid queue then Inl ErrInvalidCommand
      else let rows = filter (\<lambda>m. queue = [] \<or> jm_queue m = queue) (job_messages db)
           in Inr (observedAt, map (queue_snapshot_of now rows) (sort (remdups (map jm_queue rows)))))"

section \<open>Listing\<close>

record job_page_cursor =
  pc_version :: int
  pc_created_at :: time
  pc_id :: string

record token_codec =
  tc_encode :: "job_page_cursor \<Rightarrow> string"
  tc_decode :: "string \<Rightarrow> (job_page_cursor \<times> string) option"
  tc_at_eof :: "string \<Rightarrow> bool"
  tc_zero_time :: "time \<Rightarrow> bool"
  tc_valid_time :: "time \<Rightarrow> bool"
  tc_uuid :: "string \<Rightarrow> bool"

definition encodeJobPageToken :: "token_codec \<Rightarrow> job_summary \<Rightarrow> job_error + string" where
  "encodeJobPageToken codec summary =
     (if \<not> tc_valid_time codec (sm_created_at summary) then Inl ErrInvalidPageToken
      else Inr (RawURLEncoding (tc_encode codec
        \<lparr>pc_version = 1, pc_created_at = sm_created_at summary, pc_id = sm_id summary\<rparr>)))"

definition decodeJobPageToken :: "token_codec \<Rightarrow> string \<Rightarrow> job_error + job_page_cursor option" where
  "decodeJobPageToken codec token =
     (if token = [] then Inr None
      else case RawURLDecoding token of
        None \<Rightarrow> Inl ErrInvalidPageToken
      | Some encoded \<Rightarrow>
          (case tc_decode codec encoded of
             None \<Rightarrow> Inl ErrInvalidPageToken
           | Some (cursor, rest) \<Rightarrow>
               if pc_version cursor \<noteq> 1 \<or> tc_zero_time codec (pc_created_at cursor) then Inl ErrInvalidPageToken
               else if \<not> tc_at_eof codec rest then Inl ErrInvalidPageToken
               else if \<not> tc_uuid codec (pc_id cursor) then Inl ErrInvalidPageToken
               else Inr (Some cursor)))"

datatype list_scope = AnyScope | OrganizationScope uuid | SubjectScope uuid

record list_jobs_request =
  lj_queue :: string
  lj_states :: "job_state list"
  lj_scope :: list_scope
  lj_page_size :: nat
  lj_page_token :: string

fun database_states :: "job_state list \<Rightarrow> job_error + string list" where
  "database_states [] = Inr []"
| "database_states (s # ss) =
     rbind (DatabaseState s) (\<lambda>t. rbind (database_states ss) (\<lambda>ts. Inr (t # ts)))"

definition defaultJobPageSize :: nat where
  "defaultJobPageSize = 50"

definition page_size :: "list_jobs_request \<Rightarrow> nat" where
  "page_size req = (if lj_page_size req = 0 then defaultJobPageSize else lj_page_size req)"

definition list_matches :: "list_jobs_request \<Rightarrow> string list \<Rightarrow> job_row \<Rightarrow> bool" where
  "list_matches req states m \<longleftrightarrow>
     (lj_queue req = [] \<or> jm_queue m = lj_queue req) \<and>
     (lj_states req = [] \<or> (\<exists>t \<in> set states. DatabaseState (jm_state m) = Inr t)) \<and>
     (case lj_scope req of
        AnyScope \<Rightarrow> True
      | OrganizationScope u \<Rightarrow> js_organization_id (jm_spec m) = Some u
      | SubjectScope u \<Rightarrow> js_subject_id (jm_spec m) = Some u)"

definition list_key :: "job_row \<Rightarrow> time \<times> uuid" where
  "list_key m = (js_created_at (jm_spec m), jm_id m)"

definition ListJobs ::
  "token_codec \<Rightarrow> (list_jobs_request \<Rightarrow> bool) \<Rightarrow> list_jobs_request \<Rightarrow> job_db \<Rightarrow>
   job_error + job_summary list \<times> string" where
  "ListJobs codec valid req db =
     (if \<not> valid req then Inl ErrInvalidCommand
      else rbind (decodeJobPageToken codec (lj_page_token req)) (\<lambda>cursor.
      rbind (database_states (lj_states req)) (\<lambda>states.
      let pageSize = page_size req;
          after = map_option (\<lambda>c. (pc_created_at c, pc_id c)) cursor
      in rbind (scan_summaries (fetch list_key (list_matches req states) pageSize after (job_messages db))) (\<lambda>jobs.
         if pageSize < length jobs
         then rbind (encodeJobPageToken codec (last (take pageSize jobs))) (\<lambda>token. Inr (take pageSize jobs, token))
         else Inr (jobs, [])))))"

section \<open>One job\<close>

datatype attempt_outcome =
    OUTCOME_UNSPECIFIED
  | OUTCOME_SUCCEEDED
  | OUTCOME_RETRYABLE_FAILURE
  | OUTCOME_PERMANENT_FAILURE
  | OUTCOME_LEASE_EXPIRED
  | OUTCOME_CANCELED

definition parseJobAttemptOutcome :: "string \<Rightarrow> job_error + attempt_outcome" where
  "parseJobAttemptOutcome value =
     (if value = [] then Inr OUTCOME_UNSPECIFIED
      else if value = ''succeeded'' then Inr OUTCOME_SUCCEEDED
      else if value = ''retryable_failure'' then Inr OUTCOME_RETRYABLE_FAILURE
      else if value = ''permanent_failure'' then Inr OUTCOME_PERMANENT_FAILURE
      else if value = ''lease_expired'' then Inr OUTCOME_LEASE_EXPIRED
      else if value = ''canceled'' then Inr OUTCOME_CANCELED
      else Inl ErrStore)"

record job_attempt =
  ja_number :: nat
  ja_worker_id :: string
  ja_lease_token :: uuid
  ja_outcome :: attempt_outcome
  ja_failure :: "job_failure option"
  ja_started_at :: time
  ja_heartbeat_at :: time
  ja_finished_at :: "time option"

definition scan_attempt :: "attempt_row \<Rightarrow> job_error + job_attempt" where
  "scan_attempt a =
     rbind (parseJobAttemptOutcome (coalesce (at_outcome a))) (\<lambda>outcome.
     Inr \<lparr>ja_number = at_number a, ja_worker_id = at_worker_id a, ja_lease_token = at_lease_token a,
          ja_outcome = outcome, ja_failure = optional_failure (at_error_code a) (at_error_message a),
          ja_started_at = at_started_at a, ja_heartbeat_at = at_heartbeat_at a, ja_finished_at = at_finished_at a\<rparr>)"

record job_transition =
  jt_from :: "job_state option"
  jt_to :: job_state
  jt_state_version :: nat
  jt_attempt_count :: nat
  jt_failure :: "job_failure option"

definition scan_transition :: "transition_row \<Rightarrow> job_error + job_transition" where
  "scan_transition t =
     rbind (case tr_from t of None \<Rightarrow> Inr None
            | Some s \<Rightarrow> rbind (rbind (DatabaseState s) ParseDatabaseState) (\<lambda>s'. Inr (Some s'))) (\<lambda>from.
     rbind (rbind (DatabaseState (tr_to t)) ParseDatabaseState) (\<lambda>to.
     Inr \<lparr>jt_from = from, jt_to = to, jt_state_version = tr_state_version t,
          jt_attempt_count = tr_attempt_count t,
          jt_failure = optional_failure (tr_error_code t) (tr_error_message t)\<rparr>))"

fun collect :: "('a \<Rightarrow> 'e + 'b) \<Rightarrow> 'a list \<Rightarrow> 'e + 'b list" where
  "collect f [] = Inr []"
| "collect f (x # xs) = rbind (f x) (\<lambda>y. rbind (collect f xs) (\<lambda>ys. Inr (y # ys)))"

definition GetJob ::
  "(uuid \<Rightarrow> bool) \<Rightarrow> uuid \<Rightarrow> job_db \<Rightarrow> job_error + job_summary \<times> job_attempt list \<times> job_transition list" where
  "GetJob valid i db =
     (if \<not> valid i then Inl ErrInvalidCommand
      else case select_first (\<lambda>m. jm_id m = i) (job_messages db) of
        None \<Rightarrow> Inl ErrJobNotFound
      | Some m \<Rightarrow>
          rbind (scanJobSummaryValue m) (\<lambda>summary.
          rbind (collect scan_attempt (sort_key at_number (filter (\<lambda>a. at_job_id a = i) (job_attempts db)))) (\<lambda>attempts.
          rbind (collect scan_transition (filter (\<lambda>t. tr_job_id t = i) (job_state_transitions db))) (\<lambda>transitions.
          Inr (summary, attempts, transitions)))))"

section \<open>Facts\<close>

lemma scanJobSummaryValue_total:
  assumes "row_ok m"
  shows "\<exists>e. scanJobSummaryValue m = Inr e"
proof -
  have "\<exists>d. ParseDatabaseDirection (js_direction (jm_spec m)) = Inr d"
    using assms by (auto simp: row_ok_def spec_ok_def ParseDatabaseDirection_def)
  moreover have "is_ok (DatabaseState (jm_state m))"
    using assms by (auto simp: row_ok_def active_def IsTerminal_def DatabaseState_def)
  then have "\<exists>s. rbind (DatabaseState (jm_state m)) ParseDatabaseState = Inr s"
    by (simp add: reparsed_state)
  moreover have "js_scope_kind (jm_spec m) \<in> {''tenant'', ''subject'', ''global''}"
    using assms by (simp only: row_ok_def spec_ok_def simp_thms)
  then have "\<exists>sc. databaseJobScope (js_scope_kind (jm_spec m)) o_id s_id = Inr sc" for o_id s_id
    unfolding databaseJobScope_def by auto
  ultimately show ?thesis
    unfolding scanJobSummaryValue_def Let_def by (metis rbind_simps(2))
qed

lemma scanJobSummaryValue_fields:
  assumes "scanJobSummaryValue m = Inr e"
  shows "sm_id e = jm_id m" "sm_created_at e = js_created_at (jm_spec m)" "sm_state e = jm_state m"
  using assms
  by (auto simp: scanJobSummaryValue_def Let_def rbind_eq_Inr [of "ParseDatabaseDirection d" for d]
      rbind_eq_Inr [of "databaseJobScope k o_id s_id" for k o_id s_id]
      rbind_eq_Inr [of "rbind (DatabaseState s) ParseDatabaseState" for s] reparsed_state)

definition summary :: "job_row \<Rightarrow> job_summary" where
  "summary m = projr (scanJobSummaryValue m)"

lemma scan_summary: "row_ok m \<Longrightarrow> scanJobSummaryValue m = Inr (summary m)"
  using scanJobSummaryValue_total [of m] by (auto simp: summary_def)

lemma scan_summaries_map: "(\<And>m. m \<in> set ms \<Longrightarrow> row_ok m) \<Longrightarrow> scan_summaries ms = Inr (map summary ms)"
  by (induction ms) (simp_all add: scan_summary)

lemma list_key_inj: "rows_distinct db \<Longrightarrow> inj_on list_key (set (job_messages db))"
  by (auto simp: inj_on_def list_key_def intro: row_unique)

lemma rows_distinct_distinct: "rows_distinct db \<Longrightarrow> distinct (job_messages db)"
  by (simp add: rows_distinct_def distinct_map)

section \<open>Following page tokens\<close>

fun follow :: "nat \<Rightarrow> (string \<Rightarrow> 'e + 'r list \<times> string) \<Rightarrow> string \<Rightarrow> ('e + 'r list) option" where
  "follow 0 page token = None"
| "follow (Suc fuel) page token =
     (case page token of
        Inl e \<Rightarrow> Some (Inl e)
      | Inr (rs, next_token) \<Rightarrow>
          if next_token = [] then Some (Inr rs)
          else map_option (map_sum (\<lambda>e. e) (\<lambda>more. rs @ more)) (follow fuel page next_token))"

text \<open>
  What the listing relies on of its codec: \<^verbatim>\<open>encoding/json\<close> reads back the object it wrote, with
  nothing left over, and the creation times and ids of the table are ones it accepts.
\<close>

definition codec_reads_back :: "token_codec \<Rightarrow> bool" where
  "codec_reads_back codec \<longleftrightarrow>
     (\<forall>c. tc_encode codec c \<noteq> [] \<and>
        (\<exists>rest. tc_decode codec (tc_encode codec c) = Some (c, rest) \<and> tc_at_eof codec rest))"

definition codec_accepts :: "token_codec \<Rightarrow> job_row \<Rightarrow> bool" where
  "codec_accepts codec m \<longleftrightarrow>
     tc_valid_time codec (js_created_at (jm_spec m)) \<and> \<not> tc_zero_time codec (js_created_at (jm_spec m)) \<and>
     tc_uuid codec (jm_id m)"

definition token_of :: "token_codec \<Rightarrow> (time \<times> uuid) option \<Rightarrow> string" where
  "token_of codec c =
     (case c of None \<Rightarrow> []
      | Some (t, i) \<Rightarrow> RawURLEncoding (tc_encode codec \<lparr>pc_version = 1, pc_created_at = t, pc_id = i\<rparr>))"

lemma RawURLEncoding_Nil [simp]: "RawURLEncoding xs = [] \<longleftrightarrow> xs = []"
  using RawURLEncoding_inj [of xs "[]"] by auto

lemma decode_token_of:
  assumes "codec_reads_back codec"
    and "\<And>t i. c = Some (t, i) \<Longrightarrow> \<not> tc_zero_time codec t \<and> tc_uuid codec i"
  shows "decodeJobPageToken codec (token_of codec c) =
    Inr (map_option (\<lambda>(t, i). \<lparr>pc_version = 1, pc_created_at = t, pc_id = i\<rparr>) c)"
proof (cases c)
  case None
  then show ?thesis by (simp add: token_of_def decodeJobPageToken_def)
next
  case (Some ti)
  obtain t i where ti: "ti = (t, i)" by fastforce
  let ?cur = "\<lparr>pc_version = 1, pc_created_at = t, pc_id = i\<rparr>"
  obtain rest where "tc_encode codec ?cur \<noteq> []" "tc_decode codec (tc_encode codec ?cur) = Some (?cur, rest)"
    "tc_at_eof codec rest"
    using assms(1) unfolding codec_reads_back_def by blast
  then show ?thesis
    using Some ti assms(2) by (simp add: token_of_def decodeJobPageToken_def RawURLDecoding_encoding)
qed

lemma fetch_rows: "set (fetch key p n c rows) \<subseteq> set rows"
  using set_take_subset [of "n + 1"] by (fastforce simp: fetch_def ordered_desc_def)

lemma ListJobs_seek:
  assumes ok: "db_ok db" and codec: "codec_reads_back codec"
    and acc: "\<And>m. m \<in> set (job_messages db) \<Longrightarrow> codec_accepts codec m"
    and valid: "valid (req\<lparr>lj_page_token := token_of codec c\<rparr>)" and st: "database_states (lj_states req) = Inr states"
    and c: "\<And>t i. c = Some (t, i) \<Longrightarrow> \<not> tc_zero_time codec t \<and> tc_uuid codec i"
  shows "ListJobs codec valid (req\<lparr>lj_page_token := token_of codec c\<rparr>) db =
    (let (rs, k) = seek list_key (list_matches req states) (page_size req) c (job_messages db)
     in Inr (map summary rs, token_of codec k))"
proof -
  let ?n = "page_size req"
  have n: "0 < ?n" by (simp add: page_size_def defaultJobPageSize_def)
  have ps: "page_size (req\<lparr>lj_page_token := t\<rparr>) = ?n" for t by (simp add: page_size_def)
  have lm: "list_matches (req\<lparr>lj_page_token := t\<rparr>) states = list_matches req states" for t
    by (rule ext) (simp add: list_matches_def)
  define due where "due = fetch list_key (list_matches req states) ?n c (job_messages db)"
  have rows: "m \<in> set (job_messages db)" if "m \<in> set due" for m
    using that unfolding due_def by (rule subsetD [OF fetch_rows])
  have sc: "scan_summaries due = Inr (map summary due)"
    by (rule scan_summaries_map) (use db_ok_row(2) [OF ok] rows in blast)
  have after: "map_option (\<lambda>c. (pc_created_at c, pc_id c))
      (map_option (\<lambda>(t, i). \<lparr>pc_version = 1, pc_created_at = t, pc_id = i\<rparr>) c) = c"
    by (cases c) auto
  have enc: "encodeJobPageToken codec (last (take ?n (map summary due))) = Inr (token_of codec (Some (list_key (last (take ?n due)))))"
    if more: "?n < length due"
  proof -
    let ?m = "last (take ?n due)"
    have ne: "take ?n due \<noteq> []" using n more by auto
    have m: "?m \<in> set (job_messages db)" using rows last_in_set [OF ne] in_set_takeD by metis
    have "last (take ?n (map summary due)) = summary ?m" using ne by (simp add: take_map last_map)
    moreover have "sm_id (summary ?m) = jm_id ?m" "sm_created_at (summary ?m) = js_created_at (jm_spec ?m)"
      using scanJobSummaryValue_fields [OF scan_summary [OF db_ok_row(2) [OF ok m]]] by simp_all
    ultimately show ?thesis
      using acc [OF m] by (simp add: encodeJobPageToken_def token_of_def list_key_def codec_accepts_def)
  qed
  show ?thesis
    using valid sc st enc
    by (simp add: ListJobs_def decode_token_of [OF codec c] after ps lm seek_def due_def [symmetric] Let_def
        take_map token_of_def [of codec None])
qed

lemma seek_cursor:
  assumes "snd (seek key p n c rows) = Some k" "0 < n"
  shows "\<exists>m \<in> set rows. k = key m"
proof -
  let ?due = "fetch key p n c rows"
  have more: "n < length ?due" "k = key (last (take n ?due))"
    using assms(1) by (auto simp: seek_def Let_def split: if_splits)
  have "take n ?due \<noteq> []" using more(1) assms(2) by auto
  then have "last (take n ?due) \<in> set ?due" by (meson last_in_set in_set_takeD)
  then have "last (take n ?due) \<in> set rows" by (rule subsetD [OF fetch_rows])
  then show ?thesis using more(2) by blast
qed

lemma follow_walk:
  assumes page: "\<And>c. (\<And>k. c = Some k \<Longrightarrow> ok k) \<Longrightarrow>
      page (tok c) = Inr (map f (fst (sk c)), tok (snd (sk c)))"
    and next_ok: "\<And>c k. snd (sk c) = Some k \<Longrightarrow> ok k"
    and tok: "\<And>c. tok c = [] \<longleftrightarrow> c = None"
    and cok: "\<And>k. c = Some k \<Longrightarrow> ok k"
  shows "follow fuel page (tok c) = map_option (\<lambda>rs. Inr (map f rs)) (walk fuel sk c)"
  using cok
proof (induction fuel arbitrary: c)
  case (Suc fuel)
  obtain rs k where sk: "sk c = (rs, k)" by fastforce
  have p: "page (tok c) = Inr (map f rs, tok k)" using page [OF Suc.prems] sk by simp
  show ?case
  proof (cases k)
    case None
    then show ?thesis using p sk tok [of k] by simp
  next
    case (Some k')
    then have "follow fuel page (tok k) = map_option (\<lambda>rs. Inr (map f rs)) (walk fuel sk k)"
      using next_ok [of c] sk by (intro Suc.IH) simp
    then show ?thesis using p sk Some tok [of k] by (simp add: option.map_comp comp_def)
  qed
qed simp


section \<open>Counting and history\<close>

lemma count_split: "count_where p rows + count_where q rows = count_where (\<lambda>m. p m \<or> q m) rows"
  if "\<And>m. \<not> (p m \<and> q m)"
  using that by (induction rows) (auto simp: count_where_def)

lemma count_cong: "(\<And>m. m \<in> set rows \<Longrightarrow> p m = q m) \<Longrightarrow> count_where p rows = count_where q rows"
  by (simp add: count_where_def cong: filter_cong)

definition snapshot_total :: "queue_snapshot \<Rightarrow> nat" where
  "snapshot_total q = qs_pending q + qs_processing q + qs_retrying q + qs_succeeded q + qs_dead_letter q + qs_canceled q"

lemma snapshot_total_rows:
  assumes "\<forall>m \<in> set rows. row_ok m"
  shows "snapshot_total (queue_snapshot_of now rows q) = length (filter (\<lambda>m. jm_queue m = q) rows)"
proof -
  have "count_where (\<lambda>m. jm_state m = PENDING) ms + count_where (\<lambda>m. jm_state m = PROCESSING) ms +
      count_where (\<lambda>m. jm_state m = RETRYING) ms + count_where (\<lambda>m. jm_state m = SUCCEEDED) ms +
      count_where (\<lambda>m. jm_state m = DEAD_LETTER) ms + count_where (\<lambda>m. jm_state m = CANCELED) ms = length ms"
    if "\<forall>m \<in> set ms. row_ok m" for ms
    using that
    by (induction ms) (auto simp: count_where_def row_ok_def active_def IsTerminal_def)
  then show ?thesis
    using assms by (simp add: snapshot_total_def queue_snapshot_of_def Let_def)
qed

lemma sum_list_indicator: "distinct ks \<Longrightarrow> y \<in> set ks \<Longrightarrow> sum_list (map (\<lambda>q. if y = q then 1 else (0::nat)) ks) = 1"
  by (induction ks) (auto simp: sum_list_eq_0_iff)

lemma sum_list_by_key:
  assumes "distinct ks" "set (map k xs) \<subseteq> set ks"
  shows "sum_list (map (\<lambda>q. length (filter (\<lambda>x. k x = q) xs)) ks) = length xs"
  using assms(2)
proof (induction xs)
  case (Cons x xs)
  have "sum_list (map (\<lambda>q. length (filter (\<lambda>x. k x = q) (x # xs))) ks) =
      sum_list (map (\<lambda>q. (if k x = q then 1 else 0) + length (filter (\<lambda>x. k x = q) xs)) ks)"
    by (rule arg_cong [where f = sum_list]) simp
  also have "\<dots> = sum_list (map (\<lambda>q. if k x = q then 1 else 0) ks) + length xs"
    using Cons by (simp add: sum_list_addf)
  also have "sum_list (map (\<lambda>q. if k x = q then 1 else (0::nat)) ks) = 1"
    using assms(1) Cons.prems by (intro sum_list_indicator) simp_all
  finally show ?case by simp
qed simp

text \<open>
   The operations view loses no job: over all queues the six state counts add up to the number
  of rows, each queue appears once and in order, what waits is either ready or scheduled, and
  expired leases are a part of processing.
\<close>

theorem job_operations_complete:
  assumes "reachable db" "valid []"
  shows "\<exists>qs. GetJobOperations valid at now [] db = Inr (at, qs) \<and>
    sum_list (map snapshot_total qs) = length (job_messages db) \<and>
    sorted (map qs_queue qs) \<and> distinct (map qs_queue qs) \<and>
    (\<forall>q \<in> set qs. qs_ready q + qs_scheduled q = qs_pending q + qs_retrying q \<and>
       qs_expired_leases q \<le> qs_processing q \<and> (qs_oldest_ready_at q = None \<longleftrightarrow> qs_ready q = 0))"
proof -
  let ?rows = "job_messages db"
  let ?ks = "sort (remdups (map jm_queue ?rows))"
  let ?qs = "map (queue_snapshot_of now ?rows) ?ks"
  have run: "GetJobOperations valid at now [] db = Inr (at, ?qs)"
    using assms(2) by (simp add: GetJobOperations_def Let_def)
  have ok: "\<forall>m \<in> set ?rows. row_ok m" using db_ok_row(2) [OF reachable_ok [OF assms(1)]] by blast
  have names: "map qs_queue ?qs = ?ks" by (simp add: comp_def queue_snapshot_of_def Let_def)
  have "sum_list (map snapshot_total ?qs) = sum_list (map (\<lambda>q. length (filter (\<lambda>m. jm_queue m = q) ?rows)) ?ks)"
    by (simp add: comp_def snapshot_total_rows [OF ok])
  also have "\<dots> = length ?rows" by (rule sum_list_by_key) simp_all
  finally have total: "sum_list (map snapshot_total ?qs) = length ?rows" .
  have "qs_ready q + qs_scheduled q = qs_pending q + qs_retrying q \<and>
      qs_expired_leases q \<le> qs_processing q \<and> (qs_oldest_ready_at q = None \<longleftrightarrow> qs_ready q = 0)" if mem: "q \<in> set ?qs" for q
  proof -
    obtain name where q: "q = queue_snapshot_of now ?rows name" using mem by auto
    define ms where "ms = filter (\<lambda>m. jm_queue m = name) ?rows"
    have "count_where (\<lambda>m. waiting m \<and> jm_available_at m \<le> now) ms + count_where (\<lambda>m. waiting m \<and> now < jm_available_at m) ms =
        count_where (\<lambda>m. jm_state m = PENDING) ms + count_where (\<lambda>m. jm_state m = RETRYING) ms"
      by (simp add: count_split) (rule count_cong, auto simp: waiting_def)
    moreover have "count_where (\<lambda>m. jm_state m = PROCESSING \<and> lease_expired now m) ms \<le>
        count_where (\<lambda>m. jm_state m = PROCESSING) ms"
      by (induction ms) (auto simp: count_where_def)
    moreover have "minimum (map jm_available_at xs) = None \<longleftrightarrow> xs = []" for xs :: "job_row list"
      by (cases xs) (simp_all add: minimum_def)
    ultimately show ?thesis
      by (simp add: q queue_snapshot_of_def Let_def ms_def [symmetric] count_where_def)
  qed
  then show ?thesis using run names total by (intro exI [of _ ?qs]) (simp only: names, simp)
qed

lemma collect_map: "(\<And>x. x \<in> set xs \<Longrightarrow> f x = Inr (g x)) \<Longrightarrow> collect f xs = Inr (map g xs)"
  by (induction xs) simp_all

lemma parse_outcome_ok: "outcome_ok a \<Longrightarrow> \<exists>v. parseJobAttemptOutcome (coalesce (at_outcome a)) = Inr v \<and>
    (v = OUTCOME_UNSPECIFIED \<longleftrightarrow> at_finished_at a = None)"
  by (auto simp: outcome_ok_def coalesce_def parseJobAttemptOutcome_def split: option.splits)

lemma scan_attempt_ok:
  assumes "outcome_ok a"
  shows "\<exists>j. scan_attempt a = Inr j \<and> ja_number j = at_number a \<and>
    (ja_outcome j = OUTCOME_UNSPECIFIED \<longleftrightarrow> at_finished_at a = None)"
  using parse_outcome_ok [OF assms] by (auto simp: scan_attempt_def)

lemma scan_transition_ok:
  assumes "is_ok (DatabaseState (tr_to t))" "\<And>s. tr_from t = Some s \<Longrightarrow> is_ok (DatabaseState s)"
  shows "scan_transition t = Inr \<lparr>jt_from = tr_from t, jt_to = tr_to t, jt_state_version = tr_state_version t,
    jt_attempt_count = tr_attempt_count t, jt_failure = optional_failure (tr_error_code t) (tr_error_message t)\<rparr>"
proof -
  have re: "rbind (DatabaseState s) ParseDatabaseState = Inr s" if "is_ok (DatabaseState s)" for s
    using that by (simp add: reparsed_state)
  show ?thesis using re [OF assms(1)] re assms(2) by (cases "tr_from t") (simp_all add: scan_transition_def)
qed

lemma legal_entry_states:
  assumes "legal_entry s t"
  shows "is_ok (DatabaseState (tr_to t))" "tr_from t = Some (tr_to s)" "is_ok (DatabaseState (tr_to s))"
proof -
  have "CanTransition (tr_to s) (tr_to t)" using assms by (simp add: legal_entry_def)
  then show "is_ok (DatabaseState (tr_to t))" "is_ok (DatabaseState (tr_to s))"
    by (cases rule: CanTransition_cases; auto simp: DatabaseState_def)+
  show "tr_from t = Some (tr_to s)" using assms by (simp add: legal_entry_def)
qed

lemma log_states:
  assumes "successively legal_entry ts" "ts \<noteq> []" "is_ok (DatabaseState (tr_to (hd ts)))" "tr_from (hd ts) = None"
    and "t \<in> set ts"
  shows "is_ok (DatabaseState (tr_to t)) \<and> (\<forall>s. tr_from t = Some s \<longrightarrow> is_ok (DatabaseState s))"
proof -
  obtain i where i: "i < length ts" "t = ts ! i" using assms(5) by (metis in_set_conv_nth)
  show ?thesis
  proof (cases i)
    case 0
    then show ?thesis using i assms(2-4) by (simp add: hd_conv_nth)
  next
    case (Suc j)
    then have "legal_entry (ts ! j) (ts ! Suc j)"
      using assms(1) i(1) by (auto simp: successively_conv_nth)
    then show ?thesis using legal_entry_states i(2) Suc by fastforce
  qed
qed

text \<open>
   The history an operator reads of a job is whole: for every job of the store \<^verbatim>\<open>GetJob\<close> succeeds,
  its attempts are numbered one to the attempt count, exactly the unfinished attempt of a
  processing job has no outcome, and its transitions run from pending to the job's current
  state, each starting where the one before ended; an unknown id is reported as such.
\<close>

theorem get_job_history:
  assumes "reachable db" "valid i"
  shows "case select_first (\<lambda>m. jm_id m = i) (job_messages db) of
      None \<Rightarrow> GetJob valid i db = Inl ErrJobNotFound
    | Some m \<Rightarrow> \<exists>as ts. GetJob valid i db = Inr (summary m, as, ts) \<and> sm_state (summary m) = jm_state m \<and>
        map ja_number as = [1..<jm_attempt_count m + 1] \<and>
        length (filter (\<lambda>a. ja_outcome a = OUTCOME_UNSPECIFIED) as) = (if jm_state m = PROCESSING then 1 else 0) \<and>
        ts \<noteq> [] \<and> jt_to (hd ts) = PENDING \<and> jt_from (hd ts) = None \<and> jt_to (last ts) = jm_state m \<and>
        successively (\<lambda>s t. jt_from t = Some (jt_to s) \<and> CanTransition (jt_to s) (jt_to t)) ts"
proof (cases "select_first (\<lambda>m. jm_id m = i) (job_messages db)")
  case None
  then show ?thesis using assms(2) by (simp add: GetJob_def)
next
  case (Some m)
  have m: "m \<in> set (job_messages db)" "jm_id m = i" using select_first_Some [OF Some] by simp_all
  note ok = db_ok_row [OF reachable_ok [OF assms(1)] m(1), unfolded m(2)]
  define as where "as = filter (\<lambda>a. at_job_id a = i) (job_attempts db)"
  define ts where "ts = filter (\<lambda>t. tr_job_id t = i) (job_state_transitions db)"
  have aok: "attempts_ok m as" and lok: "log_ok m ts" using ok(3,4) by (simp_all add: view_def as_def ts_def)
  have nums: "map at_number as = [1..<jm_attempt_count m + 1]" using aok by (simp add: attempts_ok_def)
  have srt: "sort_key at_number as = as" by (rule sort_key_id_if_sorted) (simp only: nums sorted_upt)
  have "\<exists>j. scan_attempt a = Inr j \<and> ja_number j = at_number a \<and>
      (ja_outcome j = OUTCOME_UNSPECIFIED \<longleftrightarrow> at_finished_at a = None)" if "a \<in> set as" for a
    using aok that by (intro scan_attempt_ok) (simp add: attempts_ok_def)
  then obtain g where g: "scan_attempt a = Inr (g a)" "ja_number (g a) = at_number a"
    "ja_outcome (g a) = OUTCOME_UNSPECIFIED \<longleftrightarrow> at_finished_at a = None" if "a \<in> set as" for a by metis
  define h where "h = (\<lambda>t :: transition_row. \<lparr>jt_from = tr_from t, jt_to = tr_to t, jt_state_version = tr_state_version t,
    jt_attempt_count = tr_attempt_count t, jt_failure = optional_failure (tr_error_code t) (tr_error_message t)\<rparr>)"
  have ne: "ts \<noteq> []" and hd: "tr_from (hd ts) = None" "tr_to (hd ts) = PENDING" and suc: "successively legal_entry ts"
    and lst: "tr_to (last ts) = jm_state m" using lok by (auto simp: log_ok_def)
  have "scan_transition t = Inr (h t)" if "t \<in> set ts" for t
    using log_states [OF suc ne _ hd(1) that] hd(2) unfolding h_def
    by (intro scan_transition_ok) (simp_all add: DatabaseState_def)
  then have trans: "collect scan_transition ts = Inr (map h ts)" by (rule collect_map)
  have atts: "collect scan_attempt as = Inr (map g as)" by (rule collect_map) (rule g(1))
  have run: "GetJob valid i db = Inr (summary m, map g as, map h ts)"
    using assms(2) Some trans atts srt scan_summary [OF ok(2)]
    by (simp add: GetJob_def as_def [symmetric] ts_def [symmetric])
  have "map ja_number (map g as) = map at_number as" using g(2) by simp
  moreover have "filter (\<lambda>a. ja_outcome a = OUTCOME_UNSPECIFIED) (map g as) = map g (filter (\<lambda>a. at_finished_at a = None) as)"
    using g(3) by (simp add: filter_map comp_def cong: filter_cong)
  then have "length (filter (\<lambda>a. ja_outcome a = OUTCOME_UNSPECIFIED) (map g as)) = (if jm_state m = PROCESSING then 1 else 0)"
    using arg_cong [OF open_attempts [OF aok], of length] by simp
  moreover have "successively (\<lambda>s t. jt_from t = Some (jt_to s) \<and> CanTransition (jt_to s) (jt_to t)) (map h ts)"
    using suc by (simp add: successively_map h_def) (auto simp: legal_entry_def elim!: successively_mono)
  moreover have "jt_to (hd (map h ts)) = PENDING" "jt_from (hd (map h ts)) = None" "jt_to (last (map h ts)) = jm_state m"
    using ne hd lst by (simp_all add: hd_map last_map h_def)
  moreover have "sm_state (summary m) = jm_state m" using scanJobSummaryValue_fields(3) [OF scan_summary [OF ok(2)]] .
  ultimately have "GetJob valid i db = Inr (summary m, map g as, map h ts) \<and> sm_state (summary m) = jm_state m \<and>
      map ja_number (map g as) = [1..<jm_attempt_count m + 1] \<and>
      length (filter (\<lambda>a. ja_outcome a = OUTCOME_UNSPECIFIED) (map g as)) = (if jm_state m = PROCESSING then 1 else 0) \<and>
      map h ts \<noteq> [] \<and> jt_to (hd (map h ts)) = PENDING \<and> jt_from (hd (map h ts)) = None \<and>
      jt_to (last (map h ts)) = jm_state m \<and>
      successively (\<lambda>s t. jt_from t = Some (jt_to s) \<and> CanTransition (jt_to s) (jt_to t)) (map h ts)"
    using run nums ne by (simp del: upt_Suc)
  then show ?thesis unfolding Some option.case by blast
qed

end
