(* ===== verification/Job_Examples.thy ===== *)
theory Job_Examples
  imports Job_Worker Job_Operations
begin

text \<open>
  A concrete run of the job store (one job enqueued, claimed, failed for good and replayed) on
  which the theorems of the job store are instantiated.
\<close>

definition ex_env :: job_env where
  "ex_env = \<lparr>module_job_authority_current = (\<lambda>_. True), installation_step_job_current = (\<lambda>_ _. True),
     lock_module_job_authority = (\<lambda>_. True), valid_claim = (\<lambda>r. 0 < cl_limit r), valid_lease = (\<lambda>_. True),
     valid_failure = (\<lambda>f. jf_code f \<noteq> [])\<rparr>"

definition ex_penv :: enqueue_env where
  "ex_penv = \<lparr>EnqueueFingerprint = (\<lambda>j. if 1 \<le> nj_max_attempts j then Inr (nj_topic j) else Inl ErrInvalidCommand),
     uuid_parse = Some, valid_key = (\<lambda>k. ok_components k \<noteq> [])\<rparr>"

definition ex_ses :: db_session where
  "ex_ses = \<lparr>ses_role = ''app_tenant'', ses_org = Some ''o1'', ses_user = Some ''u1''\<rparr>"

definition ex_job :: new_job where
  "ex_job = \<lparr>nj_direction = OUTBOX, nj_scope = Some (ScopeOrganization ''o1''), nj_queue = ''q'', nj_topic = ''t'',
     nj_source = ''s'', nj_idempotency_key = ''k'', nj_ordering = Some \<lparr>ok_namespace = ''n'', ok_components = [''a'']\<rparr>,
     nj_schema_version = 1, nj_payload = Some ''p'', nj_content_type = ''c'', nj_attributes = Map.empty,
     nj_priority = 0, nj_max_attempts = 3, nj_available_at = None\<rparr>"

definition ex_spec :: job_spec where
  "ex_spec = \<lparr>js_direction = ''outbox'', js_scope_kind = ''tenant'', js_organization_id = Some ''o1'',
     js_subject_id = None, js_queue = ''q'', js_topic = ''t'', js_source = ''s'', js_idempotency_key = ''k'',
     js_request_fingerprint = ''t'', js_ordering_key = Some ''n:YQ'', js_schema_version = 1, js_payload = ''p'',
     js_content_type = ''c'', js_attributes = Map.empty, js_max_attempts = 3, js_replay_of = None,
     js_created_at = 0, js_enqueue_seq = 0, js_priority = 0\<rparr>"

lemma ex_key: "CanonicalOrderingKey (\<lambda>k. ok_components k \<noteq> []) (Some \<lparr>ok_namespace = ''n'', ok_components = [''a'']\<rparr>) = Inr ''n:YQ''"
  by (simp add: CanonicalOrderingKey_def base64_letters_def base64_quantum_def base64_letter_def
      base64_url_alphabet_def)

lemma ex_prepared: "prepareJobEnqueue ex_penv ex_job = Inr (ex_spec, None)"
  using ex_key
  by (simp add: prepareJobEnqueue_def ex_penv_def ex_job_def ex_spec_def DatabaseDirection_def enqueueScopeValues_def
      int16_def)

definition ex_row :: job_row where
  "ex_row = new_row 10 ''j1'' 1 ex_spec None"

definition ex_db1 :: job_db where
  "ex_db1 = insert_message ex_row empty_db"

lemma ex_enqueue: "EnqueueJob ex_penv ex_env (Some ex_ses) 10 ''j1'' 1 ex_job empty_db = (Inr (''j1'', ENQUEUE_INSERTED), ex_db1)"
proof -
  have "may_enqueue ex_ses ex_spec" by (simp add: may_enqueue_def ex_ses_def ex_spec_def)
  moreover have "coalesce (js_attributes ex_spec ''codefly.installation_id'') = []"
    by (simp add: coalesce_def ex_spec_def)
  ultimately show ?thesis
    by (simp add: EnqueueJob_def ex_prepared enqueuePreparedJob_def insertPreparedJob_def enqueue_response_def
        enqueue_job_message_def insert_or_find_def empty_db_def select_first_def ex_db1_def ex_row_def)
qed

definition ex_req :: claim_request where
  "ex_req = \<lparr>cl_queue = ''q'', cl_worker_id = ''w'', cl_limit = 5, cl_lease_duration = 60\<rparr>"

definition ex_claim :: "(job_error + job_envelope list) \<times> job_db" where
  "ex_claim = Claim ex_env 20 20 (\<lambda>_. False) None ex_req (\<lambda>i. CHR ''t'' # i) ex_db1"

definition ex_db2 :: job_db where
  "ex_db2 = snd ex_claim"

lemma ex_req_simps [simp]:
  "cl_queue ex_req = ''q''" "cl_worker_id ex_req = ''w''" "cl_limit ex_req = 5" "cl_lease_duration ex_req = 60"
  by (simp_all add: ex_req_def)

lemma ex_rows1: "job_messages ex_db1 = [ex_row]" "job_attempts ex_db1 = []"
  by (simp_all add: ex_db1_def insert_message_def empty_db_def)

abbreviation ex_fresh :: "uuid \<Rightarrow> uuid" where
  "ex_fresh \<equiv> \<lambda>i. CHR ''t'' # i"

lemma ex_row_simps [simp]:
  "jm_id ex_row = ''j1''" "jm_spec ex_row = ex_spec\<lparr>js_created_at := 10, js_enqueue_seq := 1\<rparr>"
  "jm_state ex_row = PENDING" "jm_attempt_count ex_row = 0" "jm_available_at ex_row = 10"
  "jm_lease_expires_at ex_row = None" "jm_consumer_authority ex_row = None"
  by (simp_all add: ex_row_def new_row_def)

lemma ex_swept: "swept ex_env 20 20 (\<lambda>_. False) ex_req ex_db1 = ex_db1"
proof -
  have "\<not> authority_revoked ex_env ex_row"
    by (simp add: authority_revoked_def ex_env_def is_installation_step_def Let_def ex_spec_def)
  then have "cancelRevokedModuleJobs ex_env 20 20 ''q'' ex_db1 = ex_db1"
    by (simp add: cancelRevokedModuleJobs_def Let_def update_messages_def update_attempts_def ex_rows1)
  moreover have "recoverExpiredJobLeases 20 (\<lambda>_. False) ''q'' 5 ex_db1 = ex_db1"
    by (simp add: recoverExpiredJobLeases_def Let_def update_messages_def update_attempts_def ex_rows1
        select_ordered_def)
  ultimately show ?thesis by (simp add: swept_def)
qed

lemma ex_claimable: "claimable ex_env 20 None ''q'' [ex_row] ex_row"
  by (simp add: claimable_def ex_spec_def producer_authority_current_def is_installation_step_def Let_def
      consumer_authority_current_def module_may_claim_def blocked_by_prior_def)

lemma ex_candidates: "claim_candidates ex_env 20 (\<lambda>_. False) None ex_req [ex_row] = [ex_row]"
  by (simp add: claim_candidates_def select_ordered_def ex_claimable)

lemma ex_tokens: "fresh_tokens ex_fresh ex_db1"
  by (simp add: fresh_tokens_def ex_rows1)

lemma ex_reachable1: "store_step empty_db ex_db1" "reachable ex_db1"
proof -
  have "validates_budget ex_penv" by (simp add: validates_budget_def ex_penv_def)
  then show "store_step empty_db ex_db1"
    using store_step.enqueue [of empty_db "''j1''" ex_penv ex_env "Some ex_ses" 10 1 ex_job] ex_enqueue
    by (simp add: empty_db_def)
  then show "reachable ex_db1" by (simp add: reachable_def r_into_rtranclp)
qed

lemma claim_row_id: "jm_id (claim_row now claim req fresh m) = jm_id m"
  by (simp add: claim_row_def)

definition ex_leased :: job_row where
  "ex_leased = leased_row 20 None ex_req ex_fresh ex_row"

lemma ex_sql: "fst (claimJobsSQL ex_env 20 (\<lambda>_. False) None ex_req ex_fresh ex_db1) = [ex_leased]"
  "job_messages (snd (claimJobsSQL ex_env 20 (\<lambda>_. False) None ex_req ex_fresh ex_db1)) = [ex_leased]"
  by (simp_all add: claimJobsSQL_def Let_def ex_rows1 ex_candidates update_messages_def ex_leased_def leased_row_def
      claim_row_id)

lemma ex_claimed: "\<exists>e. ex_claim = (Inr [e], ex_db2)"
proof -
  obtain e where e: "scanJobEnvelope ex_leased = Inr e"
    by (auto simp: scanJobEnvelope_def Let_def ex_leased_def ex_spec_def ParseDatabaseDirection_def
        DatabaseState_def ParseDatabaseState_def databaseJobScope_def)
  obtain ms db' where sql: "claimJobsSQL ex_env 20 (\<lambda>_. False) None ex_req ex_fresh ex_db1 = (ms, db')" by fastforce
  then have "ms = [ex_leased]" using ex_sql(1) by simp
  then have "ex_claim = (Inr [e], db')"
    using e sql unfolding ex_claim_def Claim_def Let_def swept_def [symmetric] ex_swept
    by (simp add: ex_env_def ex_req_def)
  then show ?thesis by (metis ex_db2_def snd_conv)
qed

lemma ex_rows2: "job_messages ex_db2 = [ex_leased]"
  using ex_claimed Claim_cases [of ex_env 20 20 "\<lambda>_. False" None ex_req ex_fresh ex_db1] ex_sql(2)
  by (auto simp: ex_claim_def ex_swept)

lemma ex_step2: "store_step ex_db1 ex_db2" "reachable ex_db2"
proof -
  show "store_step ex_db1 ex_db2"
    unfolding ex_db2_def ex_claim_def by (rule store_step.claim [OF ex_tokens])
  then show "reachable ex_db2" using ex_reachable1(2) by (simp add: reachable_def)
qed

definition ex_ref :: lease_ref where
  "ex_ref = \<lparr>lr_job_id = ''j1'', lr_worker_id = ''w'', lr_lease_token = ''tj1''\<rparr>"

definition ex_failure :: job_failure where
  "ex_failure = \<lparr>jf_code = ''boom'', jf_message = []\<rparr>"

lemma ex_live: "holds_live_lease 30 None ex_ref ex_leased"
  by (simp add: holds_live_lease_def ex_ref_def ex_leased_def stamp_matches_def)

lemma ex_env_simps [simp]:
  "valid_lease ex_env ref" "\<not> module_lock_fails ex_env claim" "valid_failure ex_env ex_failure" "valid_claim ex_env ex_req"
  by (auto simp: ex_env_def module_lock_fails_def ex_failure_def ex_req_def split: option.split)

definition ex_db3 :: job_db where
  "ex_db3 = snd (DeadLetter ex_env 30 None ex_ref ex_failure ex_db2)"

lemma ex_dead: "\<exists>m. job_messages ex_db3 = [m] \<and> jm_id m = ''j1'' \<and> jm_state m = DEAD_LETTER \<and> jm_spec m = jm_spec ex_row"
proof -
  let ?fz = "\<lparr>fz_state = DEAD_LETTER, fz_outcome = ''permanent_failure'', fz_failure = Some ex_failure,
    fz_execution = None, fz_available = None\<rparr>"
  have ok: "db_ok ex_db2" and m: "ex_leased \<in> set (job_messages ex_db2)"
    using reachable_ok ex_step2 by (auto simp: ex_rows2)
  obtain db' where fin: "finalizeLockedJob 30 ex_ref ?fz ex_db2 = Inr db'"
    and rows: "job_messages db' = update_where (\<lambda>r. jm_id r = jm_id ex_leased)
       (\<lambda>r. enforce_job_message_state 30 r (finalized_row 30 ?fz r)) (job_messages ex_db2)"
    by (rule finalizeLockedJob_live [OF ok m ex_live, of ?fz]) simp_all
  have "ex_db3 = db'"
    using lockLive_live [OF ok m ex_live] fin by (simp add: ex_db3_def DeadLetter_def finalize_def commit_def)
  then show ?thesis
    using rows by (simp add: ex_rows2 ex_leased_def finalized_row_def clear_lease_def)
qed

lemma ex_reachable3: "reachable ex_db3"
proof -
  have "store_step ex_db2 ex_db3" unfolding ex_db3_def by (rule store_step.dead_letter)
  then show ?thesis using ex_step2(2) by (simp add: reachable_def)
qed

section \<open>The theorems at work\<close>

theorem job_rows_evolve_legally_witness:
  "\<exists>m' \<in> set (job_messages ex_db2). jm_id m' = ''j1'' \<and> lifecycle PENDING (jm_state m') \<and> jm_attempt_count m' \<le> 3"
  using job_rows_evolve_legally [OF ex_reachable1(2) r_into_rtranclp [of store_step, OF ex_step2(1)], of ex_row]
  by (auto simp: ex_rows1 ex_spec_def)

theorem job_updates_admitted_witness:
  "\<exists>m' \<in> set (job_messages ex_db2). jm_id m' = ''j1'' \<and> update_admitted\<^sup>*\<^sup>* ex_row m'"
  using job_updates_admitted [OF ex_reachable1(2) ex_step2(1), of ex_row] by (simp add: ex_rows1)




theorem claim_exclusive_witness:
  "\<exists>e l. ex_claim = (Inr [e], ex_db2) \<and> je_state e = PROCESSING \<and> je_lease e = Some l \<and>
     jl_owner l = ''w'' \<and> jl_token l = CHR ''t'' # je_id e"
proof -
  obtain e where e: "ex_claim = (Inr [e], ex_db2)" using ex_claimed by blast
  then show ?thesis
    using claim_exclusive [OF ex_reachable1(2) e [unfolded ex_claim_def]] by auto
qed

theorem claim_serves_the_queue_witness: "\<exists>es db'. ex_claim = (Inr es, db') \<and> length es = 1"
proof -
  note serves = claim_serves_the_queue [OF ex_reachable1(2) ex_env_simps(4) ex_env_simps(2) ex_tokens,
      of 20 20 "\<lambda>_. False" None, folded ex_claim_def, unfolded ex_swept]
  show ?thesis using serves by (auto simp: ex_rows1 ex_claimable Let_def)
qed

theorem claim_leaves_no_revoked_job_witness: "\<not> authority_revoked ex_env ex_leased"
proof -
  obtain e where e: "ex_claim = (Inr [e], ex_db2)" using ex_claimed by blast
  show ?thesis
    using claim_leaves_no_revoked_job [OF ex_reachable1(2) e [unfolded ex_claim_def], of ex_leased]
    by (simp add: ex_rows2 ex_leased_def ex_spec_def active_def)
qed

theorem enqueue_idempotent_witness:
  "EnqueueJob ex_penv ex_env (Some ex_ses) 77 ''j9'' 9 ex_job ex_db2 = (Inr (''j1'', ENQUEUE_DUPLICATE), ex_db2)"
  by (rule enqueue_idempotent [OF _ ex_enqueue])
    (auto simp: reachable_def empty_db_def validates_budget_def ex_penv_def intro: ex_step2(1))

theorem enqueue_conflict_witness:
  "EnqueueJob ex_penv ex_env (Some ex_ses) 77 ''j9'' 9 (ex_job\<lparr>nj_topic := ''other''\<rparr>) ex_db1 =
     (Inl ErrIdempotencyConflict, ex_db1)"
proof (rule enqueue_conflict)
  show "prepareJobEnqueue ex_penv (ex_job\<lparr>nj_topic := ''other''\<rparr>) =
      Inr (ex_spec\<lparr>js_topic := ''other'', js_request_fingerprint := ''other''\<rparr>, None)"
    using ex_key
    by (simp add: prepareJobEnqueue_def ex_penv_def ex_job_def ex_spec_def DatabaseDirection_def
        enqueueScopeValues_def int16_def)
  show "ex_row \<in> set (job_messages ex_db1)" by (simp add: ex_rows1)
qed (simp_all add: may_enqueue_def ex_ses_def ex_spec_def ex_rows1 same_idempotency_def)

theorem tenant_enqueue_confined_witness: "js_organization_id (jm_spec ex_row) = Some ''o1''"
  using tenant_enqueue_confined [of ex_ses ex_row ex_penv ex_env 10 "''j1''" 1 ex_job empty_db] ex_enqueue
  by (auto simp: ex_ses_def ex_rows1 empty_db_def ex_spec_def)


theorem replay_copies_dead_letter_witness:
  "\<exists>db' m. replayJob (Inr ''f'') (ex_ses\<lparr>ses_role := ''app_job_worker''\<rparr>) 50 ''j2'' 2 ''j1'' ''k2'' None ex_db3 =
     (Inr (''j2'', ENQUEUE_INSERTED), db') \<and> m \<in> set (job_messages db') \<and> js_replay_of (jm_spec m) = Some ''j1'' \<and>
     js_payload (jm_spec m) = ''p''"
proof -
  let ?replay = "replayJob (Inr ''f'') (ex_ses\<lparr>ses_role := ''app_job_worker''\<rparr>) 50 ''j2'' 2 ''j1'' ''k2'' None ex_db3"
  obtain m where m: "job_messages ex_db3 = [m]" "jm_id m = ''j1''" "jm_state m = DEAD_LETTER" "jm_spec m = jm_spec ex_row"
    using ex_dead by blast
  have run: "?replay = (Inr (''j2'', ENQUEUE_INSERTED), snd ?replay)"
    using m by (simp add: replayJob_def replay_job_message_def select_first_def insert_or_find_def
        same_idempotency_def ex_spec_def enqueue_response_def)
  obtain src where "src \<in> set (job_messages ex_db3)"
    and copy: "\<exists>m \<in> set (job_messages (snd ?replay)). js_replay_of (jm_spec m) = Some ''j1'' \<and>
      js_payload (jm_spec m) = js_payload (jm_spec src)"
    using replay_copies_dead_letter [OF ex_reachable3 run] by auto
  then have "src = m" using m(1) by simp
  then have "js_payload (jm_spec src) = ''p''" using m(4) by (simp add: ex_spec_def)
  then show ?thesis using run copy by metis
qed

section \<open>A worker on the example run\<close>

definition ex_state :: pg_state where
  "ex_state = \<lparr>pg_now = 30, pg_db = ex_db2\<rparr>"

definition ex_run :: "pg_state handler_run" where
  "ex_run = \<lparr>hr_ticks = [], hr_others = (\<lambda>s. s), hr_ctx_done = False, hr_now = 30, hr_result = HandlerPanic ''secret''\<rparr>"

definition ex_config :: worker_config where
  "ex_config = \<lparr>wc_has_store = True, wc_has_handler = True, wc_queue = ''q'', wc_worker_id = [], wc_poll_interval = 0,
     wc_lease_duration = 0, wc_heartbeat_interval = 0, wc_batch_size = 0, wc_retry_delay = None\<rparr>"

definition ex_metrics :: worker_metrics where
  "ex_metrics = \<lparr>wm_iterations = 0, wm_claim_errors = 0, wm_claimed = 0, wm_succeeded = 0, wm_retried = 0,
     wm_dead_lettered = 0, wm_handler_panics = 0, wm_lease_lost = 0, wm_active = 0\<rparr>"

definition ex_envelope :: job_envelope where
  "ex_envelope = (case scanJobEnvelope ex_leased of Inr e \<Rightarrow> e)"

lemma ex_envelope_lease:
  "\<exists>l. je_lease ex_envelope = Some l \<and> envelope_lease ex_envelope l = ex_ref" "je_id ex_envelope = ''j1''"
proof -
  have "row_ok ex_leased" using db_ok_row(2) [OF reachable_ok [OF ex_step2(2)]] by (simp add: ex_rows2)
  then obtain e where "scanJobEnvelope ex_leased = Inr e" using scanJobEnvelope_total by blast
  then have e: "scanJobEnvelope ex_leased = Inr ex_envelope" by (simp add: ex_envelope_def)
  note f = scanJobEnvelope_fields [OF e]
  show "je_id ex_envelope = ''j1''" using f(1) by (simp add: ex_leased_def)
  then show "\<exists>l. je_lease ex_envelope = Some l \<and> envelope_lease ex_envelope l = ex_ref"
    using f(5) by (simp add: ex_leased_def coalesce_def envelope_lease_def ex_ref_def)
qed

lemma ex_pg: "pg_live ex_env None ex_ref ex_state" "pg_lost ex_env None ex_ref (ex_state\<lparr>pg_now := 80\<rparr>)"
  "\<not> pg_spent ex_state ''j1''"
proof -
  show "pg_live ex_env None ex_ref ex_state"
    using ex_live by (simp add: pg_live_def pg_holds_def ex_state_def ex_rows2)
  show "pg_lost ex_env None ex_ref (ex_state\<lparr>pg_now := 80\<rparr>)"
    by (simp add: pg_lost_def pg_holds_def ex_state_def ex_rows2 ex_leased_def holds_live_lease_def)
  show "\<not> pg_spent ex_state ''j1''"
    by (simp add: pg_spent_def ex_state_def ex_rows2 select_first_def ex_leased_def ex_spec_def)
qed

theorem worker_stores_the_outcome_witness:
  "\<exists>w' s'. process (pg_ops ex_env None (\<lambda>_. False) (\<lambda>_. ex_fresh)) ex_config ex_run (Some ex_envelope) ex_metrics ex_state =
     (Inr (), w', s') \<and> pg_status s' ''j1'' = Some RETRYING \<and> wm_handler_panics w' = 1"
proof -
  obtain l where l: "je_lease ex_envelope = Some l" "envelope_lease ex_envelope l = ex_ref"
    using ex_envelope_lease(1) by blast
  have "let st = outcome_state (pg_spent (hr_others ex_run ex_state) (je_id ex_envelope)) (hr_result ex_run) in
    \<exists>w' s'. process (pg_ops ex_env None (\<lambda>_. False) (\<lambda>_. ex_fresh)) ex_config ex_run (Some ex_envelope) ex_metrics ex_state =
        (Inr (), w', s') \<and> pg_status s' (je_id ex_envelope) = Some st \<and>
      w' = counted st (if is_panic (hr_result ex_run) then ex_metrics\<lparr>wm_handler_panics := wm_handler_panics ex_metrics + 1\<rparr> else ex_metrics)"
    by (rule worker_stores_the_outcome [OF l(1)])
      (use ex_pg(1) ex_step2(2) l(2) in \<open>simp_all add: ex_run_def ex_state_def\<close>)
  moreover have "outcome_state (pg_spent (hr_others ex_run ex_state) (je_id ex_envelope)) (hr_result ex_run) = RETRYING"
    using ex_pg(3) by (simp add: ex_run_def outcome_state_def classify_def ex_envelope_lease(2))
  ultimately show ?thesis
    by (auto simp: Let_def ex_envelope_lease(2) counted_def is_panic_def ex_run_def ex_metrics_def)
qed

theorem worker_without_lease_has_no_effect_witness:
  "fst (process (pg_ops ex_env None (\<lambda>_. False) (\<lambda>_. ex_fresh)) ex_config ex_run (Some ex_envelope)
     ex_metrics (ex_state\<lparr>pg_now := 80\<rparr>)) = Inl (StoreError ErrLeaseLost)"
proof -
  obtain l where l: "je_lease ex_envelope = Some l" "envelope_lease ex_envelope l = ex_ref"
    using ex_envelope_lease(1) by blast
  have "\<exists>w'. process (pg_ops ex_env None (\<lambda>_. False) (\<lambda>_. ex_fresh)) ex_config ex_run (Some ex_envelope) w
      (ex_state\<lparr>pg_now := 80\<rparr>) = (Inl (StoreError ErrLeaseLost), w', hr_others ex_run (ex_state\<lparr>pg_now := 80\<rparr>)) \<and>
    wm_lease_lost w' = wm_lease_lost w + 1 \<and> wm_succeeded w' = wm_succeeded w \<and>
    wm_retried w' = wm_retried w \<and> wm_dead_lettered w' = wm_dead_lettered w \<and> wm_active w' = wm_active w" for w
    by (rule worker_without_lease_has_no_effect [OF l(1)]) (use ex_pg(2) l(2) in \<open>simp_all add: ex_run_def\<close>)
  then show ?thesis by (metis fst_conv)
qed

theorem defaultRetryDelay_bounded_witness:
  "sint (defaultRetryDelay 3) = 20000000000 \<and> sint (defaultRetryDelay 3) \<le> sint (defaultRetryDelay 4000000000)"
  using defaultRetryDelay_bounded [of 3 4000000000] by simp

theorem NewWorker_sound_witness:
  "\<exists>config'. NewWorker ''host-1'' True (\<lambda>_. True) ex_config = Inr config' \<and>
     0 < wc_heartbeat_interval config' \<and> wc_heartbeat_interval config' < wc_lease_duration config' \<and> wc_batch_size config' \<le> 100"
proof -
  obtain config' where c: "NewWorker ''host-1'' True (\<lambda>_. True) ex_config = Inr config'"
    by (simp add: NewWorker_def ex_config_def Let_def)
  then show ?thesis using NewWorker_sound [OF c] by simp
qed

definition ex_two_jobs :: "pg_state job_store_ops" where
  "ex_two_jobs = (pg_ops ex_env None (\<lambda>_. False) (\<lambda>_. ex_fresh))
     \<lparr>so_claim := (\<lambda>req s. (Inr [ex_envelope, ex_envelope], s))\<rparr>"

theorem runOnce_accounts_for_every_job_witness:
  "\<exists>errs w' s'. runOnce ex_two_jobs ex_config (\<lambda>_. ex_run) ex_metrics ex_state = (Inr (2, errs), w', s') \<and>
     settled w' + of_nat (length errs) = 2 \<and> wm_claimed w' = 2"
proof -
  have cl: "so_claim ex_two_jobs req s = (Inr [ex_envelope, ex_envelope], s)" for req s by (simp add: ex_two_jobs_def)
  let ?w = "ex_metrics\<lparr>wm_iterations := wm_iterations ex_metrics + 1, wm_claimed := wm_claimed ex_metrics + 2\<rparr>"
  obtain errs w' s' where pa: "process_all ex_two_jobs ex_config [(ex_envelope, ex_run), (ex_envelope, ex_run)] ?w ex_state =
      (errs, w', s')" by (rule prod_cases3)
  have run: "runOnce ex_two_jobs ex_config (\<lambda>_. ex_run) ex_metrics ex_state = (Inr (2, errs), w', s')"
    using pa by (simp add: runOnce_def cl numeral_2_eq_2 del: process_all.simps)
  then show ?thesis
    using runOnce_accounts_for_every_job [OF run] by (simp add: ex_metrics_def settled_def)
qed

section \<open>Operations on the example run\<close>

definition ex_write_int :: "int \<Rightarrow> string" where
  "ex_write_int v = (if 0 \<le> v then CHR ''+'' else CHR ''-'') # replicate (nat \<bar>v\<bar>) (CHR ''1'') @ '';''"

definition ex_read_int :: "string \<Rightarrow> int \<times> string" where
  "ex_read_int s =
     (let digits = takeWhile (\<lambda>c. c = CHR ''1'') (tl s)
      in (if hd s = CHR ''+'' then int (length digits) else - int (length digits), drop (length digits + 1) (tl s)))"

definition ex_codec :: token_codec where
  "ex_codec = \<lparr>tc_encode = (\<lambda>c. ex_write_int (pc_version c) @ ex_write_int (pc_created_at c) @ pc_id c),
     tc_decode = (\<lambda>s. let (v, s1) = ex_read_int s; (t, s2) = ex_read_int s1
        in Some (\<lparr>pc_version = v, pc_created_at = t, pc_id = s2\<rparr>, [])),
     tc_at_eof = (\<lambda>s. s = []), tc_zero_time = (\<lambda>t. t = -1), tc_valid_time = (\<lambda>_. True), tc_uuid = (\<lambda>i. i \<noteq> [])\<rparr>"

lemma ex_read_write: "ex_read_int (ex_write_int v @ s) = (v, s)"
proof -
  have "takeWhile (\<lambda>c. c = CHR ''1'') (replicate n (CHR ''1'') @ CHR '';'' # s) = replicate n (CHR ''1'')" for n
    by (induction n) simp_all
  then show ?thesis by (simp add: ex_read_int_def ex_write_int_def Let_def)
qed

lemma ex_codec_ok: "codec_reads_back ex_codec"
proof -
  have "ex_write_int v \<noteq> []" for v by (simp add: ex_write_int_def)
  then show ?thesis by (simp add: codec_reads_back_def ex_codec_def ex_read_write)
qed

definition ex_list :: list_jobs_request where
  "ex_list = \<lparr>lj_queue = ''q'', lj_states = [PENDING, RETRYING], lj_scope = AnyScope, lj_page_size = 1, lj_page_token = []\<rparr>"


theorem job_operations_complete_witness:
  "\<exists>qs. GetJobOperations (\<lambda>_. True) 21 20 [] ex_db2 = Inr (21, qs) \<and> sum_list (map snapshot_total qs) = 1"
  using job_operations_complete [OF ex_step2(2), of "\<lambda>_. True" 21 20] by (auto simp: ex_rows2)

theorem get_job_history_witness:
  "\<exists>as ts. GetJob (\<lambda>_. True) ''j1'' ex_db2 = Inr (summary ex_leased, as, ts) \<and> map ja_number as = [1] \<and>
     jt_to (last ts) = PROCESSING"
proof -
  have "select_first (\<lambda>m. jm_id m = ''j1'') (job_messages ex_db2) = Some ex_leased"
    by (simp add: ex_rows2 select_first_def ex_leased_def)
  then show ?thesis
    using get_job_history [OF ex_step2(2), of "\<lambda>_. True" "''j1''"] by (auto simp: ex_leased_def)
qed

end
