(* ===== verification/Service_Core.thy ===== *)
theory Service_Core
  imports Prelude
begin

text \<open>
  What the operations of \<^verbatim>\<open>pkg/business\<close> share: the typed store errors of \<^verbatim>\<open>store.go\<close>, the
  transaction of \<^verbatim>\<open>Scoped.Within\<close> (\<^verbatim>\<open>pkg/infra/scoped.go\<close>) and the transactional half of the
  audit trail, \<^verbatim>\<open>emitTx\<close> of \<^verbatim>\<open>audit.go\<close>.  A function that runs inside a transaction maps the
  tables to an error or to a result with new tables; \<^verbatim>\<open>Within\<close> keeps the old tables on an error.
\<close>

datatype store_error =
    ErrTypeNotFound
  | ErrTypeConflict
  | ErrTypePermission
  | ErrTypeInternal
  | ErrTypeValidation
  | ErrPlain
  | ErrConstraint
  | ErrAudit

definition Within :: "('s \<Rightarrow> 'e + 'a \<times> 's) \<Rightarrow> 's \<Rightarrow> ('e + 'a) \<times> 's" where
  "Within fn s = (case fn s of Inl e \<Rightarrow> (Inl e, s) | Inr (x, s') \<Rightarrow> (Inr x, s'))"

definition read_only :: "('s \<Rightarrow> 'e + 'a) \<Rightarrow> 's \<Rightarrow> 'e + 'a \<times> 's" where
  "read_only f s = rbind (f s) (\<lambda>x. Inr (x, s))"

lemma Within_Inr: "Within fn s = (Inr x, s') \<longleftrightarrow> fn s = Inr (x, s')"
  by (cases "fn s") (auto simp: Within_def)

lemma Within_Inl: "Within fn s = (Inl e, s') \<longleftrightarrow> fn s = Inl e \<and> s' = s"
  by (cases "fn s") (auto simp: Within_def)

lemma Within_cases:
  obtains e where "fn s = Inl e" "Within fn s = (Inl e, s)"
  | x s' where "fn s = Inr (x, s')" "Within fn s = (Inr x, s')"
  by (cases "fn s") (auto simp: Within_def)

lemma snd_Within:
  assumes "P s" "\<And>x s'. fn s = Inr (x, s') \<Longrightarrow> P s'"
  shows "P (snd (Within fn s))"
  using assms by (cases "fn s") (auto simp: Within_def)

section \<open>Text\<close>

text \<open>A JSON object is the map from its keys to the JSON text of their values.\<close>

type_synonym json_object = "string \<rightharpoonup> string"

definition hex_digit :: "nat \<Rightarrow> char" where
  "hex_digit n = ''0123456789abcdef'' ! (n mod 16)"

definition hex_EncodeToString :: "string \<Rightarrow> string" where
  "hex_EncodeToString bs = concat (map (\<lambda>b. [hex_digit (of_char b div 16), hex_digit (of_char b)]) bs)"

text \<open>
  \<^verbatim>\<open>strings.TrimSpace\<close>: the code points Unicode counts as white space, as UTF-8, are stripped from
  both ends.
\<close>

definition utf8_spaces :: "string list" where
  "utf8_spaces =
     [[CHR 0x09], [CHR 0x0A], [CHR 0x0B], [CHR 0x0C], [CHR 0x0D], [CHR 0x20],
      [CHR 0xC2, CHR 0x85], [CHR 0xC2, CHR 0xA0], [CHR 0xE1, CHR 0x9A, CHR 0x80]] @
     map (\<lambda>b. [CHR 0xE2, CHR 0x80, b])
       [CHR 0x80, CHR 0x81, CHR 0x82, CHR 0x83, CHR 0x84, CHR 0x85, CHR 0x86, CHR 0x87, CHR 0x88, CHR 0x89,
        CHR 0x8A, CHR 0xA8, CHR 0xA9, CHR 0xAF] @
     [[CHR 0xE2, CHR 0x81, CHR 0x9F], [CHR 0xE3, CHR 0x80, CHR 0x80]]"

lemma found_prefix_shorter:
  assumes "List.find (\<lambda>w. w \<noteq> [] \<and> take (length w) s = w) ws = Some w"
  shows "length (drop (length w) s) < length s"
proof -
  have "w \<noteq> []" "take (length w) s = w" using assms by (auto simp: find_Some_iff)
  then show ?thesis by (cases s; cases w) auto
qed

function strip_front :: "string list \<Rightarrow> string \<Rightarrow> string" where
  "strip_front ws s =
     (case List.find (\<lambda>w. w \<noteq> [] \<and> take (length w) s = w) ws of
        None \<Rightarrow> s
      | Some w \<Rightarrow> strip_front ws (drop (length w) s))"
  by pat_completeness auto
termination
  by (relation "measure (\<lambda>(ws, s). length s)") (auto dest: found_prefix_shorter)

declare strip_front.simps [simp del]

definition TrimSpace :: "string \<Rightarrow> string" where
  "TrimSpace s = rev (strip_front (map rev utf8_spaces) (rev (strip_front utf8_spaces s)))"

lemma strip_front_suffix: "\<exists>pre. s = pre @ strip_front ws s"
proof (induction ws s rule: strip_front.induct)
  case (1 ws s)
  show ?case
  proof (cases "List.find (\<lambda>w. w \<noteq> [] \<and> take (length w) s = w) ws")
    case None
    then show ?thesis by (simp add: strip_front.simps [of ws s])
  next
    case (Some w)
    from 1 [OF this] obtain pre where "drop (length w) s = pre @ strip_front ws (drop (length w) s)" by blast
    then have "s = (take (length w) s @ pre) @ strip_front ws s"
      using Some by (simp add: strip_front.simps [of ws s])
    then show ?thesis by blast
  qed
qed

lemma TrimSpace_infix: "\<exists>pre post. s = pre @ TrimSpace s @ post"
proof -
  obtain pre where pre: "s = pre @ strip_front utf8_spaces s" using strip_front_suffix by blast
  obtain post where "rev (strip_front utf8_spaces s) = post @ strip_front (map rev utf8_spaces) (rev (strip_front utf8_spaces s))"
    using strip_front_suffix by blast
  then have "strip_front utf8_spaces s = TrimSpace s @ rev post"
    by (metis TrimSpace_def rev_append rev_rev_ident)
  then show ?thesis using pre by metis
qed

section \<open>Audit records\<close>

text \<open>
  The six arguments every emission names and its payload.  The impersonation and client
  fields, which \<^verbatim>\<open>buildAuditEntry\<close> copies from the request identity, are left out.
\<close>

record audit_entry =
  ae_actor_id :: string
  ae_actor_type :: string
  ae_event_type :: string
  ae_resource :: string
  ae_resource_id :: string
  ae_org_id :: string
  ae_payload :: "(string \<times> string) list"

text \<open>
  The emitter a service is built with: none, one that writes on the caller's transaction and
  may refuse an entry, or one that cannot.
\<close>

datatype audit_emitter =
    NoAudit
  | TxAudit "audit_entry \<Rightarrow> bool"
  | DetachedAudit

definition emitEntryTx :: "audit_emitter \<Rightarrow> audit_entry \<Rightarrow> audit_entry list \<Rightarrow> store_error + audit_entry list" where
  "emitEntryTx em entry trail =
     (case em of
        TxAudit accepts \<Rightarrow> if accepts entry then Inr (trail @ [entry]) else Inl ErrAudit
      | NoAudit \<Rightarrow> Inr trail
      | DetachedAudit \<Rightarrow> Inl ErrAudit)"

definition emitTx :: "audit_emitter \<Rightarrow> audit_entry \<Rightarrow> audit_entry list \<Rightarrow> store_error + audit_entry list" where
  "emitTx em entry trail = (if em = NoAudit then Inr trail else emitEntryTx em entry trail)"

definition audit_recorded :: "audit_emitter \<Rightarrow> bool" where
  "audit_recorded em = (em \<noteq> NoAudit)"

lemma emitTx_Inr:
  "emitTx em entry trail = Inr trail' \<Longrightarrow>
   trail' = (if audit_recorded em then trail @ [entry] else trail)"
  by (cases em) (auto simp: emitTx_def emitEntryTx_def audit_recorded_def split: if_splits)

end
