(* ===== verification/Approvals.thy ===== *)
theory Approvals
  imports Service_Core Job_Ordering Paging
begin

text \<open>
  \<^verbatim>\<open>pkg/business/approvals.go\<close>, \<^verbatim>\<open>pkg/infra/postgres_approvals.go\<close> and \<^verbatim>\<open>enqueueApprovalResume\<close>
  of \<^verbatim>\<open>pkg/business/module_capabilities.go\<close>: N-of-M approval of a gated action.  The engine is
  written over the record \<^verbatim>\<open>approval_store\<close>, the code's interface \<^verbatim>\<open>ApprovalStore\<close> with the
  audit trail and the module producer beside it; \<^verbatim>\<open>pg_approvals\<close> is the PostgreSQL
  implementation.  A subject is a map from its keys to the JSON text of their values, and
  \<^verbatim>\<open>json.Marshal\<close> and SHA-256 are arguments about which nothing is assumed.
\<close>

section \<open>Types\<close>

datatype approval_state =
    ApprovalPending
  | ApprovalApproved
  | ApprovalDenied
  | ApprovalExpired
  | ApprovalEscalated
  | ApprovalCancelled

datatype decision_kind = DecisionApprove | DecisionDeny | DecisionOther string

record approval_policy =
  ApproverSet :: "string list"
  AllowSelf :: bool
  DecidePermission :: string

record resume_ref =
  rr_mode :: string
  rr_job_kind :: string
  rr_payload :: json_object
  rr_queue :: string
  rr_topic :: string

record approval_request =
  ar_id :: uuid
  ar_org_id :: uuid
  ar_resource :: string
  ar_action :: string
  ar_subject :: json_object
  ar_requested_by :: string
  ar_quorum :: int
  ar_policy :: approval_policy
  ar_state :: approval_state
  ar_resume :: resume_ref
  ar_expires_at :: "time option"
  ar_escalate_at :: "time option"
  ar_decision_reason :: string
  ar_decided_at :: "time option"
  ar_created_at :: time
  ar_updated_at :: time

record approval_decision =
  ad_id :: uuid
  ad_request_id :: uuid
  ad_org_id :: uuid
  ad_decider :: string
  ad_decision :: decision_kind
  ad_reason :: string
  ad_delegation_grant_id :: string
  ad_decided_at :: time

definition ApprovalIsTerminal :: "approval_request \<Rightarrow> bool" where
  "ApprovalIsTerminal r =
     (case ar_state r of
        ApprovalApproved \<Rightarrow> True | ApprovalDenied \<Rightarrow> True | ApprovalExpired \<Rightarrow> True
      | ApprovalCancelled \<Rightarrow> True | _ \<Rightarrow> False)"

definition IsDecidable :: "approval_request \<Rightarrow> bool" where
  "IsDecidable r \<longleftrightarrow> ar_state r = ApprovalPending \<or> ar_state r = ApprovalEscalated"

record create_approval_input =
  ci_org_id :: uuid
  ci_resource :: string
  ci_action :: string
  ci_subject :: json_object
  ci_requested_by :: string
  ci_quorum :: int
  ci_policy :: approval_policy
  ci_resume :: resume_ref
  ci_expires_at :: "time option"
  ci_escalate_at :: "time option"

definition resolvedQuorum :: "int \<Rightarrow> int" where
  "resolvedQuorum q = (if q = 0 then 1 else q)"

fun containsString :: "string list \<Rightarrow> string \<Rightarrow> bool" where
  "containsString [] v = False"
| "containsString (x # xs) v = (if x = v then True else containsString xs v)"

text \<open>The loop of \<^verbatim>\<open>validate\<close> that collects the distinct eligible approvers.\<close>

fun collect_eligible :: "bool \<Rightarrow> string \<Rightarrow> string list \<Rightarrow> string set \<Rightarrow> string set" where
  "collect_eligible allow_self requester [] eligible = eligible"
| "collect_eligible allow_self requester (a # as) eligible =
     (if \<not> allow_self \<and> a = requester then collect_eligible allow_self requester as eligible
      else collect_eligible allow_self requester as (insert a eligible))"

definition validateCreate :: "create_approval_input \<Rightarrow> store_error + unit" where
  "validateCreate inp =
     (let policy = ci_policy inp;
          eligible = collect_eligible (AllowSelf policy) (ci_requested_by inp) (ApproverSet policy) {}
      in if ci_org_id inp = [] then Inl ErrPlain
         else if ci_resource inp = [] \<or> ci_action inp = [] then Inl ErrPlain
         else if ci_requested_by inp = [] then Inl ErrPlain
         else if ci_quorum inp < 0 then Inl ErrPlain
         else if ApproverSet policy \<noteq> [] \<and> int (card eligible) < resolvedQuorum (ci_quorum inp)
         then Inl ErrPlain
         else Inr ())"

record decide_input =
  di_expected_subject_hash :: string
  di_decider :: string
  di_decision :: decision_kind
  di_reason :: string
  di_delegation_grant_id :: string

record decide_outcome =
  do_state :: approval_state
  do_approved :: bool
  do_approvals :: nat
  do_quorum :: int

record approval_review =
  av_request :: approval_request
  av_subject_hash :: string
  av_decisions :: "approval_decision list"

section \<open>The store the engine calls\<close>

text \<open>
  \<^verbatim>\<open>as_enqueue\<close> is the module producer of the service, \<^verbatim>\<open>None\<close> when it is not wired.
\<close>

record 's approval_store =
  as_insert_request :: "approval_request \<Rightarrow> 's \<Rightarrow> store_error + 's"
  as_get_request :: "uuid \<Rightarrow> uuid \<Rightarrow> 's \<Rightarrow> store_error + approval_request"
  as_lock_request :: "uuid \<Rightarrow> uuid \<Rightarrow> 's \<Rightarrow> store_error + approval_request"
  as_insert_decision :: "approval_decision \<Rightarrow> 's \<Rightarrow> store_error + 's"
  as_list_decisions :: "uuid \<Rightarrow> uuid \<Rightarrow> 's \<Rightarrow> store_error + approval_decision list"
  as_count_approvals :: "uuid \<Rightarrow> uuid \<Rightarrow> 's \<Rightarrow> store_error + nat"
  as_update_state :: "uuid \<Rightarrow> uuid \<Rightarrow> approval_state \<Rightarrow> string \<Rightarrow> bool \<Rightarrow> 's \<Rightarrow> store_error + 's"
  as_emit :: "audit_entry \<Rightarrow> 's \<Rightarrow> store_error + 's"
  as_enqueue :: "(uuid \<Rightarrow> new_job \<Rightarrow> 's \<Rightarrow> store_error + 's) option"

text \<open>What \<^verbatim>\<open>encoding/json\<close> is asked to write for the resume job, and the hash of the subject.\<close>

record resume_payload =
  rp_approval_id :: uuid
  rp_decision :: decision_kind
  rp_decider :: string
  rp_resource :: string
  rp_action :: string
  rp_subject :: json_object
  rp_payload :: json_object

record encoders =
  json_marshal :: "json_object \<Rightarrow> string option"
  json_resume :: "resume_payload \<Rightarrow> string option"
  sha256 :: "string \<Rightarrow> string"

definition ApprovalSubjectHash :: "encoders \<Rightarrow> json_object \<Rightarrow> string option" where
  "ApprovalSubjectHash enc subject =
     (case json_marshal enc subject of
        None \<Rightarrow> None
      | Some raw \<Rightarrow> Some (hex_EncodeToString (sha256 enc raw)))"

definition approval_event ::
  "string \<Rightarrow> string \<Rightarrow> string \<Rightarrow> uuid \<Rightarrow> uuid \<Rightarrow> (string \<times> string) list \<Rightarrow> audit_entry" where
  "approval_event actor actor_type event i org payload =
     \<lparr>ae_actor_id = actor, ae_actor_type = actor_type, ae_event_type = event,
      ae_resource = ''approval_request'', ae_resource_id = i, ae_org_id = org, ae_payload = payload\<rparr>"

section \<open>Engine\<close>

definition new_request :: "uuid \<Rightarrow> create_approval_input \<Rightarrow> approval_request" where
  "new_request new_id inp =
     \<lparr>ar_id = new_id, ar_org_id = ci_org_id inp, ar_resource = ci_resource inp,
      ar_action = ci_action inp, ar_subject = ci_subject inp,
      ar_requested_by = ci_requested_by inp, ar_quorum = resolvedQuorum (ci_quorum inp),
      ar_policy = ci_policy inp, ar_state = ApprovalPending, ar_resume = ci_resume inp,
      ar_expires_at = ci_expires_at inp, ar_escalate_at = ci_escalate_at inp,
      ar_decision_reason = [], ar_decided_at = None, ar_created_at = 0, ar_updated_at = 0\<rparr>"

definition CreateApprovalRequest ::
  "'s approval_store \<Rightarrow> uuid \<Rightarrow> create_approval_input \<Rightarrow> 's \<Rightarrow> (store_error + uuid) \<times> 's" where
  "CreateApprovalRequest st new_id inp s =
     (case validateCreate inp of
        Inl _ \<Rightarrow> (Inl ErrTypeValidation, s)
      | Inr _ \<Rightarrow>
          Within (\<lambda>s.
            rbind (as_insert_request st (new_request new_id inp) s) (\<lambda>s.
            rbind (as_emit st (approval_event (ci_requested_by inp) ''user'' ''saas.approval.asked'' new_id
                     (ci_org_id inp) [(''resource'', ci_resource inp), (''action'', ci_action inp)]) s) (\<lambda>s.
            Inr (new_id, s)))) s)"

definition validateDecideInput :: "uuid \<Rightarrow> decide_input \<Rightarrow> store_error + unit" where
  "validateDecideInput org inp =
     (if org = [] then Inl ErrPlain
      else if di_decider inp = [] then Inl ErrPlain
      else if di_decision inp \<noteq> DecisionApprove \<and> di_decision inp \<noteq> DecisionDeny then Inl ErrPlain
      else Inr ())"

definition decision_text :: "decision_kind \<Rightarrow> string" where
  "decision_text k = (case k of DecisionApprove \<Rightarrow> ''approve'' | DecisionDeny \<Rightarrow> ''deny'' | DecisionOther t \<Rightarrow> t)"

definition resume_job :: "approval_request \<Rightarrow> string \<Rightarrow> new_job" where
  "resume_job req payload =
     \<lparr>nj_direction = OUTBOX, nj_scope = Some (ScopeOrganization (ar_org_id req)),
      nj_queue = rr_queue (ar_resume req),
      nj_topic = (if rr_topic (ar_resume req) = [] then ''approval.resumed'' else rr_topic (ar_resume req)),
      nj_source = ''approvals'', nj_idempotency_key = ''approval-resume:'' @ ar_id req,
      nj_ordering = None, nj_schema_version = 1, nj_payload = Some payload,
      nj_content_type = ''application/json'', nj_attributes = Map.empty, nj_priority = 0,
      nj_max_attempts = 24, nj_available_at = None\<rparr>"

definition enqueueApprovalResume ::
  "encoders \<Rightarrow> 's approval_store \<Rightarrow> approval_request \<Rightarrow> decision_kind \<Rightarrow> string \<Rightarrow> 's \<Rightarrow> store_error + 's" where
  "enqueueApprovalResume enc st req decision decider s =
     (if rr_queue (ar_resume req) = [] then Inr s
      else case as_enqueue st of
        None \<Rightarrow> Inl ErrPlain
      | Some enqueue \<Rightarrow>
          (case json_resume enc
              \<lparr>rp_approval_id = ar_id req, rp_decision = decision, rp_decider = decider,
               rp_resource = ar_resource req, rp_action = ar_action req,
               rp_subject = ar_subject req, rp_payload = rr_payload (ar_resume req)\<rparr> of
             None \<Rightarrow> Inl ErrPlain
           | Some payload \<Rightarrow> enqueue (ar_org_id req) (resume_job req payload) s))"

definition subject_matches :: "encoders \<Rightarrow> approval_request \<Rightarrow> decide_input \<Rightarrow> store_error + unit" where
  "subject_matches enc req inp =
     (if di_expected_subject_hash inp = [] then Inr ()
      else case ApprovalSubjectHash enc (ar_subject req) of
        None \<Rightarrow> Inl ErrTypeInternal
      | Some shown \<Rightarrow> if di_expected_subject_hash inp \<noteq> shown then Inl ErrTypeConflict else Inr ())"

definition window_over :: "time \<Rightarrow> time option \<Rightarrow> bool" where
  "window_over now deadline = (case deadline of None \<Rightarrow> False | Some t \<Rightarrow> \<not> now < t)"

definition decision_checks ::
  "encoders \<Rightarrow> time \<Rightarrow> approval_request \<Rightarrow> decide_input \<Rightarrow> store_error + unit" where
  "decision_checks enc clock req inp =
     rbind (subject_matches enc req inp) (\<lambda>_.
     rbind (guard (IsDecidable req) ErrTypeConflict) (\<lambda>_.
     rbind (guard (\<not> window_over clock (ar_expires_at req)) ErrTypeConflict) (\<lambda>_.
     rbind (guard (\<not> (\<not> AllowSelf (ar_policy req) \<and> di_decider inp = ar_requested_by req)) ErrTypePermission) (\<lambda>_.
     guard (\<not> (ApproverSet (ar_policy req) \<noteq> [] \<and> \<not> containsString (ApproverSet (ar_policy req)) (di_decider inp)))
       ErrTypePermission))))"

definition new_decision :: "uuid \<Rightarrow> approval_request \<Rightarrow> decide_input \<Rightarrow> approval_decision" where
  "new_decision decision_id req inp =
     \<lparr>ad_id = decision_id, ad_request_id = ar_id req, ad_org_id = ar_org_id req,
      ad_decider = di_decider inp, ad_decision = di_decision inp, ad_reason = di_reason inp,
      ad_delegation_grant_id = di_delegation_grant_id inp, ad_decided_at = 0\<rparr>"

definition decideLocked ::
  "encoders \<Rightarrow> 's approval_store \<Rightarrow> time \<Rightarrow> uuid \<Rightarrow> approval_request \<Rightarrow> decide_input \<Rightarrow> 's \<Rightarrow>
   store_error + decide_outcome \<times> 's" where
  "decideLocked enc st clock decision_id req inp s =
     (let i = ar_id req; org = ar_org_id req;
          event = (\<lambda>name payload. approval_event (di_decider inp) ''user'' name i org payload) in
      rbind (decision_checks enc clock req inp) (\<lambda>_.
      rbind (as_insert_decision st (new_decision decision_id req inp) s) (\<lambda>s.
      rbind (as_emit st (event ''saas.approval.decision_recorded''
               [(''decision'', decision_text (di_decision inp))]) s) (\<lambda>s.
      if di_decision inp = DecisionDeny then
        rbind (as_update_state st i org ApprovalDenied (di_reason inp) True s) (\<lambda>s.
        rbind (as_emit st (event ''saas.approval.denied'' []) s) (\<lambda>s.
        Inr (\<lparr>do_state = ApprovalDenied, do_approved = False, do_approvals = 0, do_quorum = ar_quorum req\<rparr>, s)))
      else
        rbind (as_count_approvals st i org s) (\<lambda>count.
        if ar_quorum req \<le> int count then
          rbind (as_update_state st i org ApprovalApproved [] True s) (\<lambda>s.
          rbind (enqueueApprovalResume enc st req (di_decision inp) (di_decider inp) s) (\<lambda>s.
          rbind (as_emit st (event ''saas.approval.approved''
                   [(''resource'', ar_resource req), (''action'', ar_action req)]) s) (\<lambda>s.
          Inr (\<lparr>do_state = ApprovalApproved, do_approved = True, do_approvals = count, do_quorum = ar_quorum req\<rparr>, s))))
        else
          Inr (\<lparr>do_state = ar_state req, do_approved = False, do_approvals = count, do_quorum = ar_quorum req\<rparr>, s))))))"

definition Decide ::
  "encoders \<Rightarrow> 's approval_store \<Rightarrow> time \<Rightarrow> uuid \<Rightarrow> uuid \<Rightarrow> uuid \<Rightarrow> decide_input \<Rightarrow> 's \<Rightarrow>
   (store_error + decide_outcome) \<times> 's" where
  "Decide enc st clock decision_id org i inp s =
     (case validateDecideInput org inp of
        Inl e \<Rightarrow> (Inl e, s)
      | Inr _ \<Rightarrow>
          Within (\<lambda>s. rbind (as_lock_request st i org s) (\<lambda>req.
            decideLocked enc st clock decision_id req inp s)) s)"

definition CancelApprovalRequest ::
  "'s approval_store \<Rightarrow> uuid \<Rightarrow> uuid \<Rightarrow> string \<Rightarrow> 's \<Rightarrow> (store_error + unit) \<times> 's" where
  "CancelApprovalRequest st org i reason s =
     (if org = [] then (Inl ErrPlain, s)
      else Within (\<lambda>s.
        rbind (as_lock_request st i org s) (\<lambda>req.
        if \<not> IsDecidable req then Inl ErrTypeConflict
        else
          rbind (as_update_state st i org ApprovalCancelled reason False s) (\<lambda>s.
          rbind (as_emit st (approval_event ''system'' ''system'' ''saas.approval.cancelled'' i org
                   [(''reason'', reason)]) s) (\<lambda>s.
          Inr ((), s))))) s)"

definition GetApprovalRequest ::
  "'s approval_store \<Rightarrow> uuid \<Rightarrow> uuid \<Rightarrow> 's \<Rightarrow> (store_error + approval_request) \<times> 's" where
  "GetApprovalRequest st org i = Within (read_only (as_get_request st i org))"

definition sweepLocked ::
  "'s approval_store \<Rightarrow> time \<Rightarrow> uuid \<Rightarrow> uuid \<Rightarrow> approval_request \<Rightarrow> 's \<Rightarrow> store_error + approval_state \<times> 's" where
  "sweepLocked st now org i req s =
     (if \<not> IsDecidable req then Inr (ar_state req, s)
      else if window_over now (ar_expires_at req) then
        rbind (as_update_state st i org ApprovalExpired ''expired: no quorum before deadline'' False s) (\<lambda>s.
        rbind (as_emit st (approval_event ''system'' ''system'' ''saas.approval.timeout'' i org []) s) (\<lambda>s.
        Inr (ApprovalExpired, s)))
      else if ar_state req = ApprovalPending \<and> window_over now (ar_escalate_at req) then
        rbind (as_update_state st i org ApprovalEscalated ''escalated: no quorum before escalate_at'' False s) (\<lambda>s.
        rbind (as_emit st (approval_event ''system'' ''system'' ''saas.approval.escalated'' i org []) s) (\<lambda>s.
        Inr (ApprovalEscalated, s)))
      else Inr (ar_state req, s))"

definition SweepApprovalRequest ::
  "'s approval_store \<Rightarrow> uuid \<Rightarrow> uuid \<Rightarrow> time \<Rightarrow> 's \<Rightarrow> (store_error + approval_state) \<times> 's" where
  "SweepApprovalRequest st org i now s =
     (if org = [] then (Inl ErrPlain, s)
      else Within (\<lambda>s. rbind (as_lock_request st i org s) (\<lambda>req. sweepLocked st now org i req s)) s)"

definition approvalVisibleTo :: "approval_request \<Rightarrow> string \<Rightarrow> bool" where
  "approvalVisibleTo req actor \<longleftrightarrow>
     actor \<noteq> [] \<and> (ar_requested_by req = actor \<or> containsString (ApproverSet (ar_policy req)) actor)"

definition approvalReviewOf ::
  "encoders \<Rightarrow> 's approval_store \<Rightarrow> approval_request \<Rightarrow> 's \<Rightarrow> store_error + approval_review" where
  "approvalReviewOf enc st req s =
     (case ApprovalSubjectHash enc (ar_subject req) of
        None \<Rightarrow> Inl ErrTypeInternal
      | Some hash \<Rightarrow>
          rbind (as_list_decisions st (ar_id req) (ar_org_id req) s) (\<lambda>decisions.
          Inr \<lparr>av_request = req, av_subject_hash = hash, av_decisions = decisions\<rparr>))"

definition ReviewApproval ::
  "encoders \<Rightarrow> 's approval_store \<Rightarrow> uuid \<Rightarrow> uuid \<Rightarrow> string \<Rightarrow> 's \<Rightarrow> (store_error + approval_review) \<times> 's" where
  "ReviewApproval enc st org i actor s =
     (if org = [] \<or> actor = [] then (Inl ErrTypeValidation, s)
      else Within (read_only (\<lambda>s.
        rbind (as_get_request st i org s) (\<lambda>req.
        if \<not> approvalVisibleTo req actor then Inl ErrTypeNotFound
        else approvalReviewOf enc st req s))) s)"

definition DecideReviewedApproval ::
  "encoders \<Rightarrow> 's approval_store \<Rightarrow> time \<Rightarrow> uuid \<Rightarrow> uuid \<Rightarrow> uuid \<Rightarrow> decide_input \<Rightarrow> 's \<Rightarrow>
   (store_error + approval_review) \<times> 's" where
  "DecideReviewedApproval enc st clock decision_id org i inp s =
     (case validateDecideInput org inp of
        Inl e \<Rightarrow> (Inl e, s)
      | Inr _ \<Rightarrow>
          if di_expected_subject_hash inp = [] then (Inl ErrTypeValidation, s)
          else Within (\<lambda>s.
            rbind (as_lock_request st i org s) (\<lambda>req.
            if \<not> approvalVisibleTo req (di_decider inp) then Inl ErrTypeNotFound
            else
              rbind (decideLocked enc st clock decision_id req inp s) (\<lambda>(_, s).
              rbind (as_get_request st i org s) (\<lambda>after.
              rbind (approvalReviewOf enc st after s) (\<lambda>review.
              Inr (review, s)))))) s)"

section \<open>PostgreSQL\<close>

record approval_db =
  approval_requests :: "approval_request list"
  approval_decisions :: "approval_decision list"
  audit_events :: "audit_entry list"
  approval_jobs :: job_db

text \<open>
  The world one transaction runs in: its \<^verbatim>\<open>CURRENT_TIMESTAMP\<close>, the rows the two foreign keys
  to other tables find, the audit emitter, and the module producer with the arguments
  \<^const>\<open>EnqueueJob\<close> takes.
\<close>

record approval_env =
  ap_now :: time
  ap_organization_exists :: "uuid \<Rightarrow> bool"
  ap_grant_exists :: "uuid \<Rightarrow> bool"
  ap_audit :: audit_emitter
  ap_producer :: "(enqueue_env \<times> job_env) option"
  ap_job_id :: uuid
  ap_job_seq :: nat

definition by_id_and_org :: "uuid \<Rightarrow> uuid \<Rightarrow> approval_request \<Rightarrow> bool" where
  "by_id_and_org i org r \<longleftrightarrow> ar_id r = i \<and> ar_org_id r = org"

definition InsertApprovalRequest ::
  "approval_env \<Rightarrow> approval_request \<Rightarrow> approval_db \<Rightarrow> store_error + approval_db" where
  "InsertApprovalRequest env r db =
     (if \<not> ap_organization_exists env (ar_org_id r) \<or> ar_quorum r < 1 \<or> 2 ^ 31 \<le> ar_quorum r \<or>
         (\<exists>old \<in> set (approval_requests db). ar_id old = ar_id r)
      then Inl ErrConstraint
      else Inr (db\<lparr>approval_requests := approval_requests db @
        [r\<lparr>ar_created_at := ap_now env, ar_updated_at := ap_now env\<rparr>]\<rparr>))"

definition getApprovalRequest :: "uuid \<Rightarrow> uuid \<Rightarrow> approval_db \<Rightarrow> store_error + approval_request" where
  "getApprovalRequest i org db =
     (case select_first (by_id_and_org i org) (approval_requests db) of
        None \<Rightarrow> Inl ErrTypeNotFound
      | Some r \<Rightarrow> Inr r)"

definition InsertDecision ::
  "approval_env \<Rightarrow> approval_decision \<Rightarrow> approval_db \<Rightarrow> store_error + approval_db" where
  "InsertDecision env d db =
     (if \<exists>old \<in> set (approval_decisions db).
           ad_id old = ad_id d \<or> (ad_request_id old = ad_request_id d \<and> ad_decider old = ad_decider d)
      then Inl ErrTypeConflict
      else if \<not> (\<exists>r \<in> set (approval_requests db). ar_id r = ad_request_id d) \<or>
              \<not> ap_organization_exists env (ad_org_id d) \<or>
              (ad_delegation_grant_id d \<noteq> [] \<and> \<not> ap_grant_exists env (ad_delegation_grant_id d)) \<or>
              (ad_decision d \<noteq> DecisionApprove \<and> ad_decision d \<noteq> DecisionDeny)
      then Inl ErrConstraint
      else Inr (db\<lparr>approval_decisions := approval_decisions db @ [d\<lparr>ad_decided_at := ap_now env\<rparr>]\<rparr>))"

definition CountApprovals :: "uuid \<Rightarrow> uuid \<Rightarrow> approval_db \<Rightarrow> store_error + nat" where
  "CountApprovals i org db =
     Inr (length (filter (\<lambda>d. ad_request_id d = i \<and> ad_org_id d = org \<and> ad_decision d = DecisionApprove)
       (approval_decisions db)))"

definition UpdateApprovalState ::
  "approval_env \<Rightarrow> uuid \<Rightarrow> uuid \<Rightarrow> approval_state \<Rightarrow> string \<Rightarrow> bool \<Rightarrow> approval_db \<Rightarrow> store_error + approval_db" where
  "UpdateApprovalState env i org to reason setDecided db =
     (if rows_affected (by_id_and_org i org) (approval_requests db) = 0 then Inl ErrTypeNotFound
      else Inr (db\<lparr>approval_requests := update_where (by_id_and_org i org)
        (\<lambda>r. r\<lparr>ar_state := to, ar_decision_reason := reason,
               ar_decided_at := (if setDecided then Some (ap_now env) else ar_decided_at r),
               ar_updated_at := ap_now env\<rparr>) (approval_requests db)\<rparr>))"

definition ListApprovalDecisions :: "uuid \<Rightarrow> uuid \<Rightarrow> approval_db \<Rightarrow> store_error + approval_decision list" where
  "ListApprovalDecisions i org db =
     Inr (map (\<lambda>d. d\<lparr>ad_delegation_grant_id := []\<rparr>)
       (sort_key (\<lambda>d. (ad_decided_at d, ad_id d))
         (filter (\<lambda>d. ad_org_id d = org \<and> ad_request_id d = i) (approval_decisions db))))"

definition emit_on_tx :: "approval_env \<Rightarrow> audit_entry \<Rightarrow> approval_db \<Rightarrow> store_error + approval_db" where
  "emit_on_tx env entry db =
     rbind (emitTx (ap_audit env) entry (audit_events db)) (\<lambda>trail. Inr (db\<lparr>audit_events := trail\<rparr>))"

text \<open>The producer joins the engine's transaction: an \<^verbatim>\<open>app_tenant\<close> session of its organization.\<close>

definition enqueue_on_tx ::
  "approval_env \<Rightarrow> enqueue_env \<Rightarrow> job_env \<Rightarrow> uuid \<Rightarrow> new_job \<Rightarrow> approval_db \<Rightarrow> store_error + approval_db" where
  "enqueue_on_tx env penv jenv org job db =
     (case EnqueueJob penv jenv (Some \<lparr>ses_role = ''app_tenant'', ses_org = Some org, ses_user = None\<rparr>)
          (ap_now env) (ap_job_id env) (ap_job_seq env) job (approval_jobs db) of
        (Inl _, _) \<Rightarrow> Inl ErrPlain
      | (Inr _, jobs) \<Rightarrow> Inr (db\<lparr>approval_jobs := jobs\<rparr>))"

definition pg_approvals :: "approval_env \<Rightarrow> approval_db approval_store" where
  "pg_approvals env =
     \<lparr>as_insert_request = InsertApprovalRequest env,
      as_get_request = getApprovalRequest,
      as_lock_request = getApprovalRequest,
      as_insert_decision = InsertDecision env,
      as_list_decisions = ListApprovalDecisions,
      as_count_approvals = CountApprovals,
      as_update_state = UpdateApprovalState env,
      as_emit = emit_on_tx env,
      as_enqueue = map_option (\<lambda>(penv, jenv). enqueue_on_tx env penv jenv) (ap_producer env)\<rparr>"

text \<open>The listing filters by id below the token but orders by creation time first.\<close>

definition ListApprovalRequests ::
  "uuid \<Rightarrow> approval_state option \<Rightarrow> int \<Rightarrow> uuid option \<Rightarrow> approval_db \<Rightarrow> approval_request list \<times> uuid option" where
  "ListApprovalRequests org state requested token db =
     (let pageSize = (if requested \<le> 0 \<or> 200 < requested then 50 else requested);
          due = take (nat pageSize + 1) (ordered_desc (\<lambda>r. (ar_created_at r, ar_id r))
            (\<lambda>r. ar_org_id r = org \<and> (case state of None \<Rightarrow> True | Some st \<Rightarrow> ar_state r = st) \<and>
                 below ar_id token r) (approval_requests db))
      in if nat pageSize < length due
         then (take (nat pageSize) due, Some (ar_id (due ! (nat pageSize - 1))))
         else (due, None))"

end
