(* ===== verification/Approval_Ballots.thy ===== *)
theory Approval_Ballots
  imports Approvals
begin

text \<open>
  The contract between the approval engine and its store, as the locale \<^verbatim>\<open>ballot_box\<close>: what a
  store keeps (one head row per request, the votes cast on it) and what each call may do to it.
  The engine's lemmas are proved once under the contract; the PostgreSQL store is shown to meet
  it in \<^verbatim>\<open>Approval_Store\<close>.
\<close>

section \<open>Ballots\<close>

abbreviation approving :: "approval_decision list \<Rightarrow> approval_decision list" where
  "approving ds \<equiv> filter (\<lambda>d. ad_decision d = DecisionApprove) ds"

abbreviation denying :: "approval_decision list \<Rightarrow> approval_decision list" where
  "denying ds \<equiv> filter (\<lambda>d. ad_decision d = DecisionDeny) ds"

definition entitled :: "approval_request \<Rightarrow> string \<Rightarrow> bool" where
  "entitled r d \<longleftrightarrow>
     d \<noteq> [] \<and> (AllowSelf (ar_policy r) \<or> d \<noteq> ar_requested_by r) \<and>
     (ApproverSet (ar_policy r) = [] \<or> d \<in> set (ApproverSet (ar_policy r)))"

definition votes_ok :: "approval_request \<Rightarrow> approval_decision list \<Rightarrow> bool" where
  "votes_ok r ds \<longleftrightarrow>
     distinct (map ad_decider ds) \<and>
     (\<forall>d \<in> set ds. entitled r (ad_decider d) \<and> ad_request_id d = ar_id r \<and>
        (ad_decision d = DecisionApprove \<or> ad_decision d = DecisionDeny))"

definition tally_ok :: "approval_request \<Rightarrow> approval_decision list \<Rightarrow> bool" where
  "tally_ok r ds \<longleftrightarrow>
     (case ar_state r of
        ApprovalApproved \<Rightarrow> int (length (approving ds)) = ar_quorum r \<and> denying ds = []
      | ApprovalDenied \<Rightarrow> int (length (approving ds)) < ar_quorum r \<and> length (denying ds) = 1
      | _ \<Rightarrow> int (length (approving ds)) < ar_quorum r \<and> denying ds = [])"

definition ballot_ok :: "approval_request \<Rightarrow> approval_decision list \<Rightarrow> bool" where
  "ballot_ok r ds \<longleftrightarrow>
     1 \<le> ar_quorum r \<and> votes_ok r ds \<and> tally_ok r ds \<and>
     (ar_decided_at r \<noteq> None \<longleftrightarrow> ar_state r = ApprovalApproved \<or> ar_state r = ApprovalDenied)"

text \<open>What the request asked for, which no operation may change.\<close>

definition same_terms :: "approval_request \<Rightarrow> approval_request \<Rightarrow> bool" where
  "same_terms r r' \<longleftrightarrow>
     r'\<lparr>ar_state := ar_state r, ar_decision_reason := ar_decision_reason r,
        ar_decided_at := ar_decided_at r, ar_updated_at := ar_updated_at r\<rparr> = r"

lemma same_terms_refl [simp]: "same_terms r r"
  by (simp add: same_terms_def)

lemma same_terms_trans: "same_terms r r' \<Longrightarrow> same_terms r' r'' \<Longrightarrow> same_terms r r''"
  by (cases r; cases r'; cases r'') (simp add: same_terms_def)

lemma same_terms_update [simp]:
  "same_terms r (r\<lparr>ar_state := st, ar_decision_reason := x, ar_decided_at := y, ar_updated_at := z\<rparr>)"
  by (cases r) (simp add: same_terms_def)

lemma same_termsD:
  assumes "same_terms r r'"
  shows "ar_id r' = ar_id r" "ar_org_id r' = ar_org_id r" "ar_policy r' = ar_policy r"
    "ar_quorum r' = ar_quorum r" "ar_requested_by r' = ar_requested_by r" "ar_resume r' = ar_resume r"
    "ar_subject r' = ar_subject r"
  using assms by (cases r; cases r'; simp add: same_terms_def)+

lemma containsString_set: "containsString xs v \<longleftrightarrow> v \<in> set xs"
  by (induction xs) auto

lemma decidable_not_terminal: "IsDecidable r \<longleftrightarrow> \<not> ApprovalIsTerminal r"
  by (cases "ar_state r") (simp_all add: IsDecidable_def ApprovalIsTerminal_def)

lemma decision_checks_Inr:
  "decision_checks enc clock req inp = Inr u \<longleftrightarrow>
     subject_matches enc req inp = Inr u \<and> IsDecidable req \<and> \<not> window_over clock (ar_expires_at req) \<and>
     (AllowSelf (ar_policy req) \<or> di_decider inp \<noteq> ar_requested_by req) \<and>
     (ApproverSet (ar_policy req) = [] \<or> di_decider inp \<in> set (ApproverSet (ar_policy req)))"
  by (auto simp: decision_checks_def rbind_eq_Inr containsString_set)

lemma ballot_vote:
  assumes "ballot_ok r ds" "IsDecidable r" "entitled r d" "d \<notin> ad_decider ` set ds"
    and "v = \<lparr>ad_id = vid, ad_request_id = ar_id r, ad_org_id = org, ad_decider = d,
      ad_decision = k, ad_reason = reason, ad_delegation_grant_id = g, ad_decided_at = t\<rparr>"
    and "k = DecisionApprove \<or> k = DecisionDeny"
    and "st = (if k = DecisionDeny then ApprovalDenied
               else if ar_quorum r \<le> int (length (approving ds)) + 1 then ApprovalApproved else ar_state r)"
    and "y \<noteq> None \<longleftrightarrow> st = ApprovalApproved \<or> st = ApprovalDenied"
  shows "ballot_ok (r\<lparr>ar_state := st, ar_decision_reason := x, ar_decided_at := y, ar_updated_at := z\<rparr>) (ds @ [v])"
  using assms
  by (auto simp: ballot_ok_def votes_ok_def tally_ok_def IsDecidable_def entitled_def
      split: approval_state.splits)

lemma ballot_close:
  assumes "ballot_ok r ds" "IsDecidable r" "st \<noteq> ApprovalApproved" "st \<noteq> ApprovalDenied"
  shows "ballot_ok (r\<lparr>ar_state := st, ar_decision_reason := x, ar_decided_at := ar_decided_at r, ar_updated_at := z\<rparr>) ds"
  using assms
  by (cases st) (auto simp: ballot_ok_def votes_ok_def tally_ok_def IsDecidable_def entitled_def)

lemma decideLocked_cases [consumes 1, case_names denied approved counted]:
  assumes "decideLocked enc st clock vid r inp s = Inr (out, s')"
  obtains
    s1 s2 s3 where "decision_checks enc clock r inp = Inr ()"
      "as_insert_decision st (new_decision vid r inp) s = Inr s1"
      "as_emit st (approval_event (di_decider inp) ''user'' ''saas.approval.decision_recorded'' (ar_id r)
        (ar_org_id r) [(''decision'', decision_text (di_decision inp))]) s1 = Inr s2"
      "di_decision inp = DecisionDeny"
      "as_update_state st (ar_id r) (ar_org_id r) ApprovalDenied (di_reason inp) True s2 = Inr s3"
      "as_emit st (approval_event (di_decider inp) ''user'' ''saas.approval.denied'' (ar_id r) (ar_org_id r) []) s3 = Inr s'"
      "out = \<lparr>do_state = ApprovalDenied, do_approved = False, do_approvals = 0, do_quorum = ar_quorum r\<rparr>"
  | s1 s2 n s3 s4 where "decision_checks enc clock r inp = Inr ()"
      "as_insert_decision st (new_decision vid r inp) s = Inr s1"
      "as_emit st (approval_event (di_decider inp) ''user'' ''saas.approval.decision_recorded'' (ar_id r)
        (ar_org_id r) [(''decision'', decision_text (di_decision inp))]) s1 = Inr s2"
      "di_decision inp \<noteq> DecisionDeny"
      "as_count_approvals st (ar_id r) (ar_org_id r) s2 = Inr n" "ar_quorum r \<le> int n"
      "as_update_state st (ar_id r) (ar_org_id r) ApprovalApproved [] True s2 = Inr s3"
      "enqueueApprovalResume enc st r (di_decision inp) (di_decider inp) s3 = Inr s4"
      "as_emit st (approval_event (di_decider inp) ''user'' ''saas.approval.approved'' (ar_id r) (ar_org_id r)
        [(''resource'', ar_resource r), (''action'', ar_action r)]) s4 = Inr s'"
      "out = \<lparr>do_state = ApprovalApproved, do_approved = True, do_approvals = n, do_quorum = ar_quorum r\<rparr>"
  | s1 n where "decision_checks enc clock r inp = Inr ()"
      "as_insert_decision st (new_decision vid r inp) s = Inr s1"
      "as_emit st (approval_event (di_decider inp) ''user'' ''saas.approval.decision_recorded'' (ar_id r)
        (ar_org_id r) [(''decision'', decision_text (di_decision inp))]) s1 = Inr s'"
      "di_decision inp \<noteq> DecisionDeny"
      "as_count_approvals st (ar_id r) (ar_org_id r) s' = Inr n" "\<not> ar_quorum r \<le> int n"
      "out = \<lparr>do_state = ar_state r, do_approved = False, do_approvals = n, do_quorum = ar_quorum r\<rparr>"
  using assms unfolding decideLocked_def Let_def
  by (cases "di_decision inp = DecisionDeny") (auto simp: rbind_eq_Inr split: if_splits)

section \<open>The store contract\<close>

locale ballot_box =
  fixes st :: "'s approval_store"
    and wf :: "'s \<Rightarrow> bool"
    and head :: "'s \<Rightarrow> uuid \<Rightarrow> approval_request option"
    and votes :: "'s \<Rightarrow> uuid \<Rightarrow> approval_decision list"
  assumes lock: "wf s \<Longrightarrow> as_lock_request st i org s = Inr r \<longleftrightarrow> head s i = Some r \<and> ar_org_id r = org"
    and head_id: "wf s \<Longrightarrow> head s i = Some r \<Longrightarrow> ar_id r = i"
    and insert_request: "wf s \<Longrightarrow> as_insert_request st r s = Inr s' \<Longrightarrow>
      wf s' \<and> votes s' = votes s \<and> head s (ar_id r) = None \<and> votes s (ar_id r) = [] \<and> 1 \<le> ar_quorum r \<and>
      (\<exists>c. head s' = (head s)(ar_id r \<mapsto> r\<lparr>ar_created_at := c, ar_updated_at := c\<rparr>))"
    and insert_decision: "wf s \<Longrightarrow> head s (ad_request_id d) = Some r \<Longrightarrow> ad_org_id d = ar_org_id r \<Longrightarrow>
      as_insert_decision st d s = Inr s' \<Longrightarrow>
      wf s' \<and> head s' = head s \<and> ad_decider d \<notin> ad_decider ` set (votes s (ad_request_id d)) \<and>
      (\<exists>t. votes s' = (votes s)(ad_request_id d := votes s (ad_request_id d) @ [d\<lparr>ad_decided_at := t\<rparr>]))"
    and count: "wf s \<Longrightarrow> head s i = Some r \<Longrightarrow> as_count_approvals st i (ar_org_id r) s = Inr n \<Longrightarrow>
      n = length (approving (votes s i))"
    and update: "wf s \<Longrightarrow> as_update_state st i org to reason dec s = Inr s' \<Longrightarrow>
      wf s' \<and> votes s' = votes s \<and> (\<exists>r t. head s i = Some r \<and> ar_org_id r = org \<and>
        head s' = (head s)(i \<mapsto> r\<lparr>ar_state := to, ar_decision_reason := reason,
          ar_decided_at := (if dec then Some t else ar_decided_at r), ar_updated_at := t\<rparr>))"
    and emit: "wf s \<Longrightarrow> as_emit st e s = Inr s' \<Longrightarrow> wf s' \<and> head s' = head s \<and> votes s' = votes s"
    and enqueue: "wf s \<Longrightarrow> as_enqueue st = Some enq \<Longrightarrow> enq org job s = Inr s' \<Longrightarrow>
      wf s' \<and> head s' = head s \<and> votes s' = votes s"
begin

definition ok :: "'s \<Rightarrow> bool" where
  "ok s \<longleftrightarrow> wf s \<and> (\<forall>i r. head s i = Some r \<longrightarrow> ballot_ok r (votes s i))"

definition evolves :: "'s \<Rightarrow> 's \<Rightarrow> bool" where
  "evolves s s' \<longleftrightarrow> ok s' \<and> (\<forall>i r. head s i = Some r \<longrightarrow>
     (\<exists>r' later. head s' i = Some r' \<and> votes s' i = votes s i @ later \<and> same_terms r r' \<and>
        (ApprovalIsTerminal r \<longrightarrow> r' = r \<and> later = [])))"

lemma evolves_refl: "ok s \<Longrightarrow> evolves s s"
  by (auto simp: evolves_def)

lemma resume_keeps:
  assumes "wf s" "enqueueApprovalResume enc st r k d s = Inr s'"
  shows "wf s' \<and> head s' = head s \<and> votes s' = votes s"
  using assms enqueue by (auto simp: enqueueApprovalResume_def split: if_splits option.splits)

lemma update_one:
  assumes "ok s" "head s i = Some r" "\<not> ApprovalIsTerminal r" "wf s'"
    and "head s' = (head s)(i \<mapsto> r')" "votes s' = (votes s)(i := votes s i @ later)"
    and "same_terms r r'" "ballot_ok r' (votes s i @ later)"
  shows "evolves s s'"
  using assms by (auto simp: evolves_def ok_def)

lemma evolves_Within:
  "ok s \<Longrightarrow> (\<And>x s'. fn s = Inr (x, s') \<Longrightarrow> evolves s s') \<Longrightarrow> evolves s (snd (Within fn s))"
  by (cases "fn s") (auto simp: Within_def evolves_refl)

lemma locked:
  assumes "ok s" "as_lock_request st i org s = Inr r"
  shows "head s i = Some r" "ar_org_id r = org"
  using assms lock by (auto simp: ok_def)

lemma update_close:
  assumes "ok s" "as_lock_request st i org s = Inr r" "IsDecidable r" "to \<noteq> ApprovalApproved" "to \<noteq> ApprovalDenied"
    and "as_update_state st i org to reason False s = Inr s1" "as_emit st e s1 = Inr s'"
  shows "evolves s s'"
proof -
  note r = locked [OF assms(1,2)]
  have wf: "wf s" and ballot: "ballot_ok r (votes s i)" using assms(1) r by (auto simp: ok_def)
  note u = update [OF wf assms(6)]
  note e = emit [OF _ assms(7)]
  let ?r = "\<lambda>t. r\<lparr>ar_state := to, ar_decision_reason := reason,
      ar_decided_at := ar_decided_at r, ar_updated_at := t\<rparr>"
  obtain t where h: "head s' = (head s)(i \<mapsto> ?r t)"
    using u e r by auto
  have wf': "wf s'" and v: "votes s' = (votes s)(i := votes s i @ [])" using u e by auto
  have nt: "\<not> ApprovalIsTerminal r" using assms(3) by (simp add: decidable_not_terminal)
  have "ballot_ok (?r t) (votes s i @ [])" unfolding append_Nil2 by (rule ballot_close [OF ballot assms(3-5)])
  then show ?thesis by (rule update_one [OF assms(1) r(1) nt wf' h v same_terms_update])
qed

text \<open>The effect of one accepted decision on the head row and the votes.\<close>

definition decided_state :: "'s \<Rightarrow> uuid \<Rightarrow> approval_request \<Rightarrow> decide_input \<Rightarrow> approval_state" where
  "decided_state s i r inp =
     (if di_decision inp = DecisionDeny then ApprovalDenied
      else if ar_quorum r \<le> int (length (approving (votes s i))) + 1 then ApprovalApproved else ar_state r)"

definition voted :: "'s \<Rightarrow> 's \<Rightarrow> uuid \<Rightarrow> approval_request \<Rightarrow> uuid \<Rightarrow> decide_input \<Rightarrow> decide_outcome \<Rightarrow> bool" where
  "voted s s' i r vid inp out \<longleftrightarrow>
     wf s' \<and> di_decider inp \<notin> ad_decider ` set (votes s i) \<and>
     (\<exists>t. votes s' = (votes s)(i := votes s i @ [(new_decision vid r inp)\<lparr>ad_decided_at := t\<rparr>])) \<and>
     do_state out = decided_state s i r inp \<and> (do_approved out \<longleftrightarrow> do_state out = ApprovalApproved) \<and>
     do_quorum out = ar_quorum r \<and>
     (di_decision inp = DecisionApprove \<longrightarrow> do_approvals out = length (approving (votes s i)) + 1) \<and>
     (\<exists>x y z. (y \<noteq> None \<longleftrightarrow> do_state out = ApprovalApproved \<or> do_state out = ApprovalDenied) \<and>
        head s' = (head s)(i \<mapsto> r\<lparr>ar_state := do_state out, ar_decision_reason := x,
          ar_decided_at := y, ar_updated_at := z\<rparr>))"

text \<open>The part all branches share: the vote is recorded and audited.\<close>

lemma record_vote:
  assumes "ok s" "head s i = Some r"
    and "as_insert_decision st (new_decision vid r inp) s = Inr s1" "as_emit st e s1 = Inr s2"
  shows "wf s2" "head s2 = head s" "di_decider inp \<notin> ad_decider ` set (votes s i)"
    "\<exists>t. votes s2 = (votes s)(i := votes s i @ [(new_decision vid r inp)\<lparr>ad_decided_at := t\<rparr>])"
proof -
  have wf: "wf s" using assms(1) by (simp add: ok_def)
  note d = insert_decision [OF wf _ _ assms(3), simplified new_decision_def head_id [OF wf assms(2)], simplified, OF assms(2) refl]
  show "wf s2" "head s2 = head s" "di_decider inp \<notin> ad_decider ` set (votes s i)"
    "\<exists>t. votes s2 = (votes s)(i := votes s i @ [(new_decision vid r inp)\<lparr>ad_decided_at := t\<rparr>])"
    using d emit [OF _ assms(4)] head_id [OF wf assms(2)] by (auto simp: new_decision_def)
qed

lemma update_decided:
  assumes "wf s" "head s i = Some r" "as_update_state st i org to reason True s = Inr s'"
  shows "wf s'" "votes s' = votes s"
    "\<exists>t. head s' = (head s)(i \<mapsto> r\<lparr>ar_state := to, ar_decision_reason := reason, ar_decided_at := Some t, ar_updated_at := t\<rparr>)"
  using update [OF assms(1,3)] assms(2) by auto

lemma decideLocked_voted:
  assumes "ok s" "head s i = Some r"
    and dec: "decideLocked enc st clock vid r inp s = Inr (out, s')"
    and inp: "di_decision inp = DecisionApprove \<or> di_decision inp = DecisionDeny"
  shows "voted s s' i r vid inp out"
proof -
  have wf: "wf s" and ballot: "ballot_ok r (votes s i)" using assms(1,2) by (auto simp: ok_def)
  have id: "ar_id r = i" by (rule head_id [OF wf assms(2)])
  from dec show ?thesis
  proof (cases rule: decideLocked_cases)
    case (denied s1 s2 s3)
    note v = record_vote [OF assms(1,2) denied(2,3)]
    note u = update_decided [OF v(1) _ denied(5) [unfolded id], of r]
    note e = emit [OF _ denied(6)]
    obtain t where "head s' = (head s)(i \<mapsto> r\<lparr>ar_state := ApprovalDenied, ar_decision_reason := di_reason inp,
        ar_decided_at := Some t, ar_updated_at := t\<rparr>)" using u e v assms(2) by auto
    then show ?thesis
      using u e v denied(4,7) assms(2) unfolding voted_def by (auto simp: decided_state_def)
  next
    case (approved s1 s2 n s3 s4)
    note v = record_vote [OF assms(1,2) approved(2,3)]
    note u = update_decided [OF v(1) _ approved(7) [unfolded id], of r]
    note q = resume_keeps [OF _ approved(8)]
    note e = emit [OF _ approved(9)]
    have app: "di_decision inp = DecisionApprove" using inp approved(4) by blast
    have n: "n = length (approving (votes s i)) + 1"
      using count [OF v(1) _ approved(5) [unfolded id]] v(2,4) assms(2) app by (auto simp: new_decision_def)
    obtain t where "head s' = (head s)(i \<mapsto> r\<lparr>ar_state := ApprovalApproved, ar_decision_reason := [],
        ar_decided_at := Some t, ar_updated_at := t\<rparr>)" using u q e v assms(2) by auto
    then show ?thesis
      using u q e v app n approved(6,10) assms(2) unfolding voted_def by (auto simp: decided_state_def)
  next
    case (counted s1 n)
    note v = record_vote [OF assms(1,2) counted(2,3)]
    have app: "di_decision inp = DecisionApprove" using inp counted(4) by blast
    have n: "n = length (approving (votes s i)) + 1"
      using count [OF v(1) _ counted(5) [unfolded id]] v(2,4) assms(2) app by (auto simp: new_decision_def)
    have open_req: "ar_state r \<noteq> ApprovalApproved" "ar_state r \<noteq> ApprovalDenied" "ar_decided_at r = None"
      using counted(1) ballot by (auto simp: decision_checks_Inr IsDecidable_def ballot_ok_def)
    let ?r = "r\<lparr>ar_state := ar_state r, ar_decision_reason := ar_decision_reason r,
        ar_decided_at := ar_decided_at r, ar_updated_at := ar_updated_at r\<rparr>"
    have same: "?r = r" by simp
    have "head s' = (head s)(i \<mapsto> ?r)" unfolding same v(2) using assms(2) by auto
    then have "\<exists>x y z. (y \<noteq> None \<longleftrightarrow> ar_state r = ApprovalApproved \<or> ar_state r = ApprovalDenied) \<and>
        head s' = (head s)(i \<mapsto> r\<lparr>ar_state := ar_state r, ar_decision_reason := x, ar_decided_at := y, ar_updated_at := z\<rparr>)"
      using open_req by blast
    then show ?thesis
      using v app n counted(6,7) open_req unfolding voted_def by (auto simp: decided_state_def)
  qed
qed

lemma decideLocked_checked: "decideLocked enc st clock vid r inp s = Inr (out, s') \<Longrightarrow> decision_checks enc clock r inp = Inr ()"
  by (erule decideLocked_cases)

lemma decideLocked_evolves:
  assumes "ok s" "head s i = Some r" "decideLocked enc st clock vid r inp s = Inr (out, s')"
    and "di_decision inp = DecisionApprove \<or> di_decision inp = DecisionDeny" "di_decider inp \<noteq> []"
  shows "evolves s s'"
proof -
  have wf: "wf s" and ballot: "ballot_ok r (votes s i)" using assms(1,2) by (auto simp: ok_def)
  have o: "IsDecidable r" and ent: "entitled r (di_decider inp)"
    using decideLocked_checked [OF assms(3)] assms(5) by (auto simp: decision_checks_Inr entitled_def)
  have v: "voted s s' i r vid inp out" by (rule decideLocked_voted [OF assms(1-4)])
  obtain t x y z where e: "wf s'" "di_decider inp \<notin> ad_decider ` set (votes s i)"
    "votes s' = (votes s)(i := votes s i @ [(new_decision vid r inp)\<lparr>ad_decided_at := t\<rparr>])"
    "head s' = (head s)(i \<mapsto> r\<lparr>ar_state := do_state out, ar_decision_reason := x,
       ar_decided_at := y, ar_updated_at := z\<rparr>)"
    "do_state out = decided_state s i r inp"
    "y \<noteq> None \<longleftrightarrow> do_state out = ApprovalApproved \<or> do_state out = ApprovalDenied"
    using v unfolding voted_def by blast
  have "ballot_ok (r\<lparr>ar_state := do_state out, ar_decision_reason := x,
       ar_decided_at := y, ar_updated_at := z\<rparr>) (votes s i @ [(new_decision vid r inp)\<lparr>ad_decided_at := t\<rparr>])"
    by (rule ballot_vote [OF ballot o ent e(2) _ assms(4) e(5) [unfolded decided_state_def] e(6)])
      (simp add: new_decision_def)
  moreover have "\<not> ApprovalIsTerminal r" using o by (simp add: decidable_not_terminal)
  ultimately show ?thesis using update_one [OF assms(1,2) _ e(1,4,3)] by simp
qed

lemma validateDecideInput_Inr:
  "validateDecideInput org inp = Inr u \<Longrightarrow>
   org \<noteq> [] \<and> di_decider inp \<noteq> [] \<and> (di_decision inp = DecisionApprove \<or> di_decision inp = DecisionDeny)"
  by (auto simp: validateDecideInput_def split: if_splits)

lemma locked_decision_evolves:
  assumes "ok s" "validateDecideInput org inp = Inr u" "as_lock_request st i org s = Inr r"
    and "decideLocked enc st clock vid r inp s = Inr (out, s')"
  shows "evolves s s'"
  by (rule decideLocked_evolves [OF assms(1) locked(1) [OF assms(1,3)] assms(4)])
    (use validateDecideInput_Inr [OF assms(2)] in blast)+

lemma Decide_evolves:
  assumes "ok s"
  shows "evolves s (snd (Decide enc st clock vid org i inp s))"
proof (cases "validateDecideInput org inp")
  case (Inr u)
  have "evolves s (snd (Within (\<lambda>s. rbind (as_lock_request st i org s) (\<lambda>req.
            decideLocked enc st clock vid req inp s)) s))"
    by (rule evolves_Within [OF assms]) (auto simp only: rbind_eq_Inr intro: locked_decision_evolves [OF assms Inr])
  then show ?thesis by (simp add: Decide_def Inr)
qed (simp add: Decide_def evolves_refl assms)

lemma DecideReviewed_evolves:
  assumes "ok s"
  shows "evolves s (snd (DecideReviewedApproval enc st clock vid org i inp s))"
proof (cases "validateDecideInput org inp")
  case (Inr u)
  have "evolves s s'" if "(if \<not> approvalVisibleTo req (di_decider inp) then Inl ErrTypeNotFound
            else
              rbind (decideLocked enc st clock vid req inp s) (\<lambda>(_, s).
              rbind (as_get_request st i org s) (\<lambda>after.
              rbind (approvalReviewOf enc st after s) (\<lambda>review.
              Inr (review, s))))) = Inr (x, s')" and "as_lock_request st i org s = Inr req" for req x s'
    using that
    by (auto simp: rbind_eq_Inr split: if_splits intro: locked_decision_evolves [OF assms Inr])
  then show ?thesis
    unfolding DecideReviewedApproval_def Inr sum.case if_distrib [of snd] snd_conv
    using evolves_refl [OF assms] by (auto simp only: rbind_eq_Inr intro!: evolves_Within [OF assms] split: if_split)
qed (simp add: DecideReviewedApproval_def evolves_refl assms)

lemma Cancel_evolves:
  assumes "ok s"
  shows "evolves s (snd (CancelApprovalRequest st org i reason s))"
proof -
  have "evolves s s'" if "(if \<not> IsDecidable req then Inl ErrTypeConflict
        else
          rbind (as_update_state st i org ApprovalCancelled reason False s) (\<lambda>s.
          rbind (as_emit st (approval_event ''system'' ''system'' ''saas.approval.cancelled'' i org
                   [(''reason'', reason)]) s) (\<lambda>s.
          Inr ((), s)))) = Inr (x, s')" and "as_lock_request st i org s = Inr req" for req x s'
    using that by (auto simp: rbind_eq_Inr split: if_splits intro: update_close [OF assms])
  then show ?thesis
    unfolding CancelApprovalRequest_def if_distrib [of snd] snd_conv
    using evolves_refl [OF assms] by (auto simp only: rbind_eq_Inr intro!: evolves_Within [OF assms] split: if_split)
qed

lemma Sweep_evolves:
  assumes "ok s"
  shows "evolves s (snd (SweepApprovalRequest st org i now s))"
proof -
  have "evolves s s'" if "sweepLocked st now org i req s = Inr (x, s')" and "as_lock_request st i org s = Inr req" for req x s'
    using that evolves_refl [OF assms]
    by (auto simp: sweepLocked_def rbind_eq_Inr split: if_splits intro: update_close [OF assms])
  then show ?thesis
    unfolding SweepApprovalRequest_def if_distrib [of snd] snd_conv
    using evolves_refl [OF assms] by (auto simp only: rbind_eq_Inr intro!: evolves_Within [OF assms] split: if_split)
qed

lemma Create_evolves:
  assumes "ok s"
  shows "evolves s (snd (CreateApprovalRequest st new_id inp s))"
proof (cases "validateCreate inp")
  case (Inr u)
  have wf: "wf s" using assms by (simp add: ok_def)
  have "evolves s s'" if i: "as_insert_request st (new_request new_id inp) s = Inr s1" and e: "as_emit st ev s1 = Inr s'" for s1 s' ev
  proof -
    let ?r = "new_request new_id inp"
    note n = insert_request [OF wf i]
    obtain c where c: "head s1 = (head s)(ar_id ?r \<mapsto> ?r\<lparr>ar_created_at := c, ar_updated_at := c\<rparr>)" using n by blast
    have "wf s'" "head s' = head s1" "votes s' = votes s" using n emit [OF _ e] by auto
    moreover have "ballot_ok (?r\<lparr>ar_created_at := c, ar_updated_at := c\<rparr>) []"
      using n by (simp add: ballot_ok_def votes_ok_def tally_ok_def new_request_def)
    ultimately show ?thesis using assms n c by (auto simp: evolves_def ok_def)
  qed
  then show ?thesis
    unfolding CreateApprovalRequest_def Inr sum.case
    by (auto simp: rbind_eq_Inr intro!: evolves_Within [OF assms])
qed (simp add: CreateApprovalRequest_def evolves_refl assms)

end

section \<open>Resume jobs\<close>

text \<open>
  A store that also keeps the outbox: \<^verbatim>\<open>resumed s r\<close> says that the job which resumes the
  request \<^verbatim>\<open>r\<close> is there.  No call takes a resume job away, and enqueueing one puts it there.
\<close>

definition awaits_resume :: "approval_request \<Rightarrow> bool" where
  "awaits_resume r \<longleftrightarrow> ar_state r = ApprovalApproved \<and> rr_queue (ar_resume r) \<noteq> []"

locale resuming_ballot_box = ballot_box +
  fixes resumed :: "'a \<Rightarrow> approval_request \<Rightarrow> bool"
  assumes insert_request_resumed: "as_insert_request st r s = Inr s' \<Longrightarrow> resumed s' = resumed s"
    and insert_decision_resumed: "as_insert_decision st d s = Inr s' \<Longrightarrow> resumed s' = resumed s"
    and update_resumed: "as_update_state st i org to reason dec s = Inr s' \<Longrightarrow> resumed s' = resumed s"
    and emit_resumed: "as_emit st e s = Inr s' \<Longrightarrow> resumed s' = resumed s"
    and enqueue_resumed: "as_enqueue st = Some enq \<Longrightarrow> enq org job s = Inr s' \<Longrightarrow> resumed s r \<Longrightarrow> resumed s' r"
    and enqueue_resumes: "as_enqueue st = Some enq \<Longrightarrow> enq (ar_org_id r) (resume_job r payload) s = Inr s' \<Longrightarrow> resumed s' r"
    and resumed_terms: "same_terms r r' \<Longrightarrow> resumed s r \<Longrightarrow> resumed s r'"
begin

lemmas quiet_calls = insert_request_resumed insert_decision_resumed update_resumed emit_resumed

definition delivered :: "'a \<Rightarrow> bool" where
  "delivered s \<longleftrightarrow> (\<forall>i r. head s i = Some r \<longrightarrow> awaits_resume r \<longrightarrow> resumed s r)"

lemma delivered_step:
  assumes "delivered s" "\<And>r. resumed s r \<Longrightarrow> resumed s' r"
    and "\<And>j r. head s' j = Some r \<Longrightarrow> awaits_resume r \<Longrightarrow> head s j = Some r \<or> resumed s' r"
  shows "delivered s'"
  using assms unfolding delivered_def by blast

lemma resume_delivers:
  assumes "enqueueApprovalResume enc st r k d s = Inr s'"
  shows "rr_queue (ar_resume r) \<noteq> [] \<Longrightarrow> resumed s' r" "resumed s r' \<Longrightarrow> resumed s' r'"
proof -
  have "(rr_queue (ar_resume r) = [] \<and> s' = s) \<or>
    (\<exists>enq payload. as_enqueue st = Some enq \<and> enq (ar_org_id r) (resume_job r payload) s = Inr s')"
    using assms by (auto simp: enqueueApprovalResume_def split: if_splits option.splits)
  then show "rr_queue (ar_resume r) \<noteq> [] \<Longrightarrow> resumed s' r" "resumed s r' \<Longrightarrow> resumed s' r'"
    using enqueue_resumes enqueue_resumed by blast+
qed

lemma decideLocked_resumed:
  assumes "decideLocked enc st clock vid r inp s = Inr (out, s')"
  shows "resumed s r' \<Longrightarrow> resumed s' r'"
    and "do_state out = ApprovalApproved \<Longrightarrow> IsDecidable r \<Longrightarrow> rr_queue (ar_resume r) \<noteq> [] \<Longrightarrow> resumed s' r"
proof -
  from assms have "(resumed s r' \<longrightarrow> resumed s' r') \<and>
    (do_state out = ApprovalApproved \<and> IsDecidable r \<and> rr_queue (ar_resume r) \<noteq> [] \<longrightarrow> resumed s' r)"
  proof (cases rule: decideLocked_cases)
    case (denied s1 s2 s3)
    have "resumed s' = resumed s"
      using insert_decision_resumed [OF denied(2)] emit_resumed [OF denied(3)] update_resumed [OF denied(5)]
        emit_resumed [OF denied(6)] by simp
    then show ?thesis using denied(7) by simp
  next
    case (approved s1 s2 n s3 s4)
    have "resumed s3 = resumed s" "resumed s' = resumed s4"
      using insert_decision_resumed [OF approved(2)] emit_resumed [OF approved(3)] update_resumed [OF approved(7)]
        emit_resumed [OF approved(9)] by simp_all
    then show ?thesis using resume_delivers [OF approved(8)] by auto
  next
    case (counted s1 n)
    have "resumed s' = resumed s"
      using insert_decision_resumed [OF counted(2)] emit_resumed [OF counted(3)] by simp
    then show ?thesis using counted(7) by (auto simp: IsDecidable_def)
  qed
  then show "resumed s r' \<Longrightarrow> resumed s' r'"
    and "do_state out = ApprovalApproved \<Longrightarrow> IsDecidable r \<Longrightarrow> rr_queue (ar_resume r) \<noteq> [] \<Longrightarrow> resumed s' r"
    by blast+
qed

lemma decideLocked_delivered:
  assumes "ok s" "delivered s" "validateDecideInput org inp = Inr u" "as_lock_request st i org s = Inr r"
    and dec: "decideLocked enc st clock vid r inp s = Inr (out, s')"
  shows "delivered s'"
proof (rule delivered_step [OF assms(2)])
  note v = validateDecideInput_Inr [OF assms(3)]
  note l = locked [OF assms(1,4)]
  have "voted s s' i r vid inp out" by (rule decideLocked_voted [OF assms(1) l(1) dec]) (use v in blast)
  then obtain x y z where h: "head s' = (head s)(i \<mapsto> r\<lparr>ar_state := do_state out, ar_decision_reason := x,
       ar_decided_at := y, ar_updated_at := z\<rparr>)" (is "_ = (head s)(i \<mapsto> ?r)")
    unfolding voted_def by blast
  have o: "IsDecidable r" using decideLocked_checked [OF dec] by (simp add: decision_checks_Inr)
  show "resumed s' r'" if "resumed s r'" for r' by (rule decideLocked_resumed(1) [OF dec that])
  have new: "resumed s' ?r" if "awaits_resume ?r"
    using resumed_terms [OF same_terms_update] decideLocked_resumed(2) [OF dec _ o] that by (simp add: awaits_resume_def)
  show "head s j = Some r' \<or> resumed s' r'" if "head s' j = Some r'" "awaits_resume r'" for j r'
    using that h new by (metis fun_upd_other fun_upd_same option.inject)
qed

lemma delivered_Within:
  "delivered s \<Longrightarrow> (\<And>x s'. fn s = Inr (x, s') \<Longrightarrow> delivered s') \<Longrightarrow> delivered (snd (Within fn s))"
  by (cases "fn s") (auto simp: Within_def)

lemma Decide_delivered:
  assumes "ok s" "delivered s"
  shows "delivered (snd (Decide enc st clock vid org i inp s))"
proof (cases "validateDecideInput org inp")
  case (Inr u)
  have "delivered (snd (Within (\<lambda>s. rbind (as_lock_request st i org s) (\<lambda>req.
            decideLocked enc st clock vid req inp s)) s))"
    by (rule delivered_Within [OF assms(2)])
      (auto simp only: rbind_eq_Inr intro: decideLocked_delivered [OF assms Inr])
  then show ?thesis by (simp add: Decide_def Inr)
qed (simp add: Decide_def assms)

lemma DecideReviewed_delivered:
  assumes "ok s" "delivered s"
  shows "delivered (snd (DecideReviewedApproval enc st clock vid org i inp s))"
proof (cases "validateDecideInput org inp")
  case (Inr u)
  have "delivered s'" if "(if \<not> approvalVisibleTo req (di_decider inp) then Inl ErrTypeNotFound
            else
              rbind (decideLocked enc st clock vid req inp s) (\<lambda>(_, s).
              rbind (as_get_request st i org s) (\<lambda>after.
              rbind (approvalReviewOf enc st after s) (\<lambda>review.
              Inr (review, s))))) = Inr (x, s')" and "as_lock_request st i org s = Inr req" for req x s'
    using that
    by (auto simp: rbind_eq_Inr split: if_splits intro: decideLocked_delivered [OF assms Inr])
  then show ?thesis
    unfolding DecideReviewedApproval_def Inr sum.case if_distrib [of snd] snd_conv
    using assms(2) by (auto simp only: rbind_eq_Inr intro!: delivered_Within split: if_split)
qed (simp add: DecideReviewedApproval_def assms)

lemma close_delivered:
  assumes "ok s" "delivered s"
    and "as_update_state st i org to reason False s = Inr s1" "as_emit st e s1 = Inr s'"
    and "to \<noteq> ApprovalApproved"
  shows "delivered s'"
proof -
  have wf: "wf s" using assms(1) by (simp add: ok_def)
  note u = update [OF wf assms(3)]
  obtain r where h: "head s' = (head s)(i \<mapsto> r)" "ar_state r = to" using u emit [OF _ assms(4)] by auto
  have q: "resumed s' = resumed s" using quiet_calls assms(3,4) by metis
  show ?thesis
    by (rule delivered_step [OF assms(2)]) (use h q assms(5) in \<open>auto simp: awaits_resume_def split: if_splits\<close>)
qed

lemma Cancel_delivered:
  assumes "ok s" "delivered s"
  shows "delivered (snd (CancelApprovalRequest st org i reason s))"
  unfolding CancelApprovalRequest_def if_distrib [of snd] snd_conv
  using assms(2)
  by (auto simp: rbind_eq_Inr intro!: delivered_Within split: if_splits intro: close_delivered [OF assms])

lemma Sweep_delivered:
  assumes "ok s" "delivered s"
  shows "delivered (snd (SweepApprovalRequest st org i now s))"
  unfolding SweepApprovalRequest_def if_distrib [of snd] snd_conv
  using assms(2)
  by (auto simp: rbind_eq_Inr sweepLocked_def intro!: delivered_Within split: if_splits intro: close_delivered [OF assms])

lemma Create_delivered:
  assumes "ok s" "delivered s"
  shows "delivered (snd (CreateApprovalRequest st new_id inp s))"
proof (cases "validateCreate inp")
  case (Inr u)
  have wf: "wf s" using assms(1) by (simp add: ok_def)
  have "delivered s'" if i: "as_insert_request st (new_request new_id inp) s = Inr s1" and e: "as_emit st ev s1 = Inr s'" for s1 s' ev
  proof (rule delivered_step [OF assms(2)])
    note n = insert_request [OF wf i]
    show "resumed s' r" if "resumed s r" for r using that quiet_calls i e by metis
    show "head s j = Some r \<or> resumed s' r" if "head s' j = Some r" "awaits_resume r" for j r
      using n emit [OF _ e] that by (auto simp: awaits_resume_def new_request_def split: if_splits)
  qed
  then show ?thesis
    unfolding CreateApprovalRequest_def Inr sum.case
    by (auto simp: rbind_eq_Inr intro!: delivered_Within [OF assms(2)])
qed (simp add: CreateApprovalRequest_def assms)

end

end
