(* ===== verification/Approval_Store.thy ===== *)
theory Approval_Store
  imports Approval_Ballots
begin

text \<open>
  The PostgreSQL store meets the contract of \<^verbatim>\<open>Approval_Ballots\<close>, so its laws hold of every
  run of the approval service: any interleaving of its operations with each other and with
  the job store that drains the resume queue.
\<close>

section \<open>What the tables say\<close>

definition ap_wf :: "approval_db \<Rightarrow> bool" where
  "ap_wf db \<longleftrightarrow>
     distinct (map ar_id (approval_requests db)) \<and>
     (\<forall>d \<in> set (approval_decisions db). \<exists>r \<in> set (approval_requests db).
        ar_id r = ad_request_id d \<and> ar_org_id r = ad_org_id d)"

definition ap_head :: "approval_db \<Rightarrow> uuid \<Rightarrow> approval_request option" where
  "ap_head db i = select_first (\<lambda>r. ar_id r = i) (approval_requests db)"

definition ap_votes :: "approval_db \<Rightarrow> uuid \<Rightarrow> approval_decision list" where
  "ap_votes db i = filter (\<lambda>d. ad_request_id d = i) (approval_decisions db)"

definition resume_spec :: "approval_request \<Rightarrow> job_spec \<Rightarrow> bool" where
  "resume_spec r sp \<longleftrightarrow>
     js_direction sp = ''outbox'' \<and> js_scope_kind sp = ''tenant'' \<and>
     js_organization_id sp = Some (ar_org_id r) \<and> js_subject_id sp = None \<and>
     js_queue sp = rr_queue (ar_resume r) \<and> js_source sp = ''approvals'' \<and>
     js_idempotency_key sp = ''approval-resume:'' @ ar_id r"

definition ap_resumed :: "approval_db \<Rightarrow> approval_request \<Rightarrow> bool" where
  "ap_resumed db r \<longleftrightarrow> (\<exists>j sp. (j, sp) \<in> set (keyed (approval_jobs db)) \<and> resume_spec r sp)"

lemma ap_wf_ids: "ap_wf db \<Longrightarrow> distinct (map ar_id (approval_requests db))"
  by (simp add: ap_wf_def)

lemma ap_wf_request:
  assumes "ap_wf db" "d \<in> set (approval_decisions db)"
  obtains r where "r \<in> set (approval_requests db)" "ar_id r = ad_request_id d" "ar_org_id r = ad_org_id d"
  using assms unfolding ap_wf_def by blast

lemma ap_head_Some:
  assumes "ap_wf db"
  shows "ap_head db i = Some r \<longleftrightarrow> r \<in> set (approval_requests db) \<and> ar_id r = i"
proof
  assume "ap_head db i = Some r"
  from select_first_Some [OF this [unfolded ap_head_def]]
  show "r \<in> set (approval_requests db) \<and> ar_id r = i" by blast
next
  assume "r \<in> set (approval_requests db) \<and> ar_id r = i"
  then show "ap_head db i = Some r"
    unfolding ap_head_def by (intro select_first_unique [OF ap_wf_ids [OF assms]]) auto
qed

lemma ap_head_None: "ap_head db i = None \<longleftrightarrow> i \<notin> ar_id ` set (approval_requests db)"
  by (auto simp: ap_head_def select_first_None)

lemma unknown_id_no_votes:
  assumes "ap_wf db" "i \<notin> ar_id ` set (approval_requests db)"
  shows "ap_votes db i = []"
  unfolding ap_votes_def filter_empty_conv
  by (intro ballI notI) (metis ap_wf_request [OF assms(1)] image_eqI assms(2))

lemma by_id_and_org_first:
  assumes "ap_wf db"
  shows "select_first (by_id_and_org i org) (approval_requests db) = Some r \<longleftrightarrow>
    ap_head db i = Some r \<and> ar_org_id r = org"
proof
  assume "select_first (by_id_and_org i org) (approval_requests db) = Some r"
  from select_first_Some [OF this] show "ap_head db i = Some r \<and> ar_org_id r = org"
    using ap_head_Some [OF assms] by (simp add: by_id_and_org_def)
next
  assume "ap_head db i = Some r \<and> ar_org_id r = org"
  then have "r \<in> set (approval_requests db)" "by_id_and_org i org r"
    using ap_head_Some [OF assms] by (simp_all add: by_id_and_org_def)
  moreover have "distinct (map ar_id (approval_requests db))" using assms by (simp add: ap_wf_def)
  ultimately show "select_first (by_id_and_org i org) (approval_requests db) = Some r"
    by (intro select_first_unique [where k = ar_id]) (auto simp: by_id_and_org_def)
qed

section \<open>The laws\<close>

lemma InsertApprovalRequest_law:
  assumes "ap_wf db" "InsertApprovalRequest env r db = Inr db'"
  shows "ap_wf db' \<and> ap_votes db' = ap_votes db \<and> ap_head db (ar_id r) = None \<and> ap_votes db (ar_id r) = [] \<and>
    1 \<le> ar_quorum r \<and> (\<exists>c. ap_head db' = (ap_head db)(ar_id r \<mapsto> r\<lparr>ar_created_at := c, ar_updated_at := c\<rparr>))"
proof -
  let ?r = "r\<lparr>ar_created_at := ap_now env, ar_updated_at := ap_now env\<rparr>"
  have new: "ar_id r \<notin> ar_id ` set (approval_requests db)" "1 \<le> ar_quorum r"
    and db': "db' = db\<lparr>approval_requests := approval_requests db @ [?r]\<rparr>"
    using assms(2) by (auto simp: InsertApprovalRequest_def split: if_splits)
  have "ap_wf db'" using assms(1) new by (auto simp: ap_wf_def db')
  moreover have "ap_votes db (ar_id r) = []" by (rule unknown_id_no_votes [OF assms(1) new(1)])
  moreover have "ap_head db (ar_id r) = None" using new(1) by (simp add: ap_head_None)
  moreover have "ap_head db' j = ((ap_head db)(ar_id r \<mapsto> ?r)) j" for j
    using calculation(3)
    by (cases "j = ar_id r"; cases "ap_head db j")
      (simp_all add: ap_head_def db' select_first_append, simp_all add: select_first_def)
  then have "ap_head db' = (ap_head db)(ar_id r \<mapsto> ?r)" by blast
  ultimately show ?thesis using new(2) by (auto simp: ap_votes_def db')
qed

lemma InsertDecision_law:
  assumes "ap_wf db" "ap_head db (ad_request_id d) = Some r" "ad_org_id d = ar_org_id r"
    and "InsertDecision env d db = Inr db'"
  shows "ap_wf db' \<and> ap_head db' = ap_head db \<and> ad_decider d \<notin> ad_decider ` set (ap_votes db (ad_request_id d)) \<and>
    (\<exists>t. ap_votes db' = (ap_votes db)(ad_request_id d := ap_votes db (ad_request_id d) @ [d\<lparr>ad_decided_at := t\<rparr>]))"
proof -
  have db': "db' = db\<lparr>approval_decisions := approval_decisions db @ [d\<lparr>ad_decided_at := ap_now env\<rparr>]\<rparr>"
    and new: "\<forall>old \<in> set (approval_decisions db). \<not> (ad_request_id old = ad_request_id d \<and> ad_decider old = ad_decider d)"
    using assms(4) by (auto simp: InsertDecision_def split: if_splits)
  have "ap_wf db'" using assms(1-3) ap_head_Some [OF assms(1)] by (auto simp: ap_wf_def db')
  then show ?thesis using new by (auto simp: ap_votes_def ap_head_def db' fun_eq_iff)
qed

lemma CountApprovals_law:
  assumes "ap_wf db" "ap_head db i = Some r" "CountApprovals i (ar_org_id r) db = Inr n"
  shows "n = length (approving (ap_votes db i))"
proof -
  have "ad_org_id d = ar_org_id r" if d: "d \<in> set (approval_decisions db)" "ad_request_id d = i" for d
  proof -
    obtain r' where "r' \<in> set (approval_requests db)" "ar_id r' = i" "ar_org_id r' = ad_org_id d"
      using ap_wf_request [OF assms(1) d(1)] d(2) by metis
    then show ?thesis using assms(2) ap_head_Some [OF assms(1)] by (metis option.inject)
  qed
  then have "filter (\<lambda>d. ad_request_id d = i \<and> ad_org_id d = ar_org_id r \<and> ad_decision d = DecisionApprove) (approval_decisions db)
      = approving (ap_votes db i)"
    by (auto simp: ap_votes_def conj_commute intro!: filter_cong)
  then show ?thesis using assms(3) by (simp add: CountApprovals_def)
qed

lemma UpdateApprovalState_law:
  assumes "ap_wf db" "UpdateApprovalState env i org to reason dec db = Inr db'"
  shows "ap_wf db' \<and> ap_votes db' = ap_votes db \<and> (\<exists>r t. ap_head db i = Some r \<and> ar_org_id r = org \<and>
    ap_head db' = (ap_head db)(i \<mapsto> r\<lparr>ar_state := to, ar_decision_reason := reason,
      ar_decided_at := (if dec then Some t else ar_decided_at r), ar_updated_at := t\<rparr>))"
proof -
  let ?f = "\<lambda>r. r\<lparr>ar_state := to, ar_decision_reason := reason,
      ar_decided_at := (if dec then Some (ap_now env) else ar_decided_at r), ar_updated_at := ap_now env\<rparr>"
  let ?p = "by_id_and_org i org"
  have db': "db' = db\<lparr>approval_requests := update_where ?p ?f (approval_requests db)\<rparr>"
    and some: "\<exists>r \<in> set (approval_requests db). ?p r"
    using assms(2) by (auto simp: UpdateApprovalState_def rows_affected_zero split: if_splits)
  obtain r where r: "r \<in> set (approval_requests db)" "?p r" using some by blast
  then have hd: "ap_head db i = Some r" "ar_org_id r = org" using ap_head_Some [OF assms(1)] by (simp_all add: by_id_and_org_def)
  have ids: "map ar_id (approval_requests db') = map ar_id (approval_requests db)"
    by (simp add: db' map_update_where)
  have mem: "set (approval_requests db') = (\<lambda>r. if ?p r then ?f r else r) ` set (approval_requests db)"
    by (simp add: db' set_update_where)
  have "\<exists>r' \<in> set (approval_requests db'). ar_id r' = ad_request_id d \<and> ar_org_id r' = ad_org_id d"
    if d: "d \<in> set (approval_decisions db)" for d
  proof -
    obtain q where "q \<in> set (approval_requests db)" "ar_id q = ad_request_id d" "ar_org_id q = ad_org_id d"
      by (rule ap_wf_request [OF assms(1) d])
    then show ?thesis unfolding mem by (intro bexI [of _ "if ?p q then ?f q else q"]) auto
  qed
  then have wf': "ap_wf db'" using assms(1) ids by (simp add: ap_wf_def) (simp add: db')
  have "ap_head db' j = ((ap_head db)(i \<mapsto> ?f r)) j" for j
  proof (cases "j = i")
    case True
    have "?f r \<in> set (approval_requests db')" using r unfolding mem by force
    then show ?thesis using True r(2) ap_head_Some [OF wf'] by (simp add: by_id_and_org_def)
  next
    case False
    have "select_first (\<lambda>r. ar_id r = j) (update_where ?p ?f rs) = select_first (\<lambda>r. ar_id r = j) rs" for rs
      by (induction rs) (use False in \<open>auto simp: select_first_def by_id_and_org_def\<close>)
    then show ?thesis using False by (simp add: ap_head_def db')
  qed
  then have "ap_head db' = (ap_head db)(i \<mapsto> ?f r)" by blast
  then show ?thesis using hd wf' by (auto simp: ap_votes_def db')
qed

lemma emit_on_tx_law:
  assumes "emit_on_tx env e db = Inr db'"
  shows "ap_wf db' = ap_wf db" "ap_head db' = ap_head db" "ap_votes db' = ap_votes db" "approval_jobs db' = approval_jobs db"
  using assms by (auto simp: emit_on_tx_def rbind_eq_Inr ap_wf_def ap_head_def ap_votes_def)

lemma enqueue_on_tx_Inr:
  assumes "enqueue_on_tx env penv jenv org job db = Inr db'"
  obtains j disp jobs where
    "EnqueueJob penv jenv (Some \<lparr>ses_role = ''app_tenant'', ses_org = Some org, ses_user = None\<rparr>)
       (ap_now env) (ap_job_id env) (ap_job_seq env) job (approval_jobs db) = (Inr (j, disp), jobs)"
    "db' = db\<lparr>approval_jobs := jobs\<rparr>"
  using assms by (auto simp: enqueue_on_tx_def split: prod.splits sum.splits)

lemma enqueue_on_tx_law:
  assumes "enqueue_on_tx env penv jenv org job db = Inr db'"
  shows "ap_wf db' = ap_wf db" "ap_head db' = ap_head db" "ap_votes db' = ap_votes db"
    "appends (approval_jobs db) (approval_jobs db')"
proof -
  obtain j disp jobs where e: "EnqueueJob penv jenv (Some \<lparr>ses_role = ''app_tenant'', ses_org = Some org, ses_user = None\<rparr>)
       (ap_now env) (ap_job_id env) (ap_job_seq env) job (approval_jobs db) = (Inr (j, disp), jobs)"
    and db': "db' = db\<lparr>approval_jobs := jobs\<rparr>"
    by (rule enqueue_on_tx_Inr [OF assms])
  show "ap_wf db' = ap_wf db" "ap_head db' = ap_head db" "ap_votes db' = ap_votes db"
    by (simp_all add: db' ap_wf_def ap_head_def ap_votes_def fun_eq_iff)
  show "appends (approval_jobs db) (approval_jobs db')" using appends_EnqueueJob e by (simp add: db') (metis snd_conv)
qed

lemma appends_keyed: "appends a b \<Longrightarrow> set (keyed a) \<subseteq> set (keyed b)"
  by (auto simp: appends_def)

lemma enqueue_resume_law:
  assumes "enqueue_on_tx env penv jenv (ar_org_id r) (resume_job r payload) db = Inr db'"
  shows "ap_resumed db' r"
proof -
  let ?ses = "\<lparr>ses_role = ''app_tenant'', ses_org = Some (ar_org_id r), ses_user = None\<rparr>"
  obtain j disp jobs where e: "EnqueueJob penv jenv (Some ?ses)
       (ap_now env) (ap_job_id env) (ap_job_seq env) (resume_job r payload) (approval_jobs db) = (Inr (j, disp), jobs)"
    and db': "db' = db\<lparr>approval_jobs := jobs\<rparr>"
    by (rule enqueue_on_tx_Inr [OF assms])
  obtain sp available_at where sp: "prepareJobEnqueue penv (resume_job r payload) = Inr (sp, available_at)"
    and ins: "insertPreparedJob ?ses (ap_now env) (ap_job_id env) (ap_job_seq env) sp available_at (approval_jobs db) = (Inr (j, disp), jobs)"
    by (rule EnqueueJob_Inr [OF e]) blast
  have "js_queue sp = rr_queue (ar_resume r)" "js_source sp = ''approvals''" "js_direction sp = ''outbox''"
    "js_idempotency_key sp = ''approval-resume:'' @ ar_id r" "js_scope_kind sp = ''tenant''"
    using sp by (auto simp: prepareJobEnqueue_def resume_job_def rbind_eq_Inr DatabaseDirection_def
        enqueueScopeValues_def split: option.splits)
  moreover note k = insertPreparedJob_Inr [OF ins]
  ultimately have "resume_spec r sp" by (auto simp: resume_spec_def may_enqueue_def)
  moreover obtain sp' where "(j, sp') \<in> set (keyed jobs)" "same_idempotency sp' sp" using k(2) by blast
  ultimately show ?thesis by (auto simp: ap_resumed_def db' resume_spec_def same_idempotency_def)
qed

lemmas pg_approvals_calls [simp] = pg_approvals_def [THEN arg_cong [where f = as_insert_request], simplified]
  pg_approvals_def [THEN arg_cong [where f = as_get_request], simplified]
  pg_approvals_def [THEN arg_cong [where f = as_lock_request], simplified]
  pg_approvals_def [THEN arg_cong [where f = as_insert_decision], simplified]
  pg_approvals_def [THEN arg_cong [where f = as_list_decisions], simplified]
  pg_approvals_def [THEN arg_cong [where f = as_count_approvals], simplified]
  pg_approvals_def [THEN arg_cong [where f = as_update_state], simplified]
  pg_approvals_def [THEN arg_cong [where f = as_emit], simplified]
  pg_approvals_def [THEN arg_cong [where f = as_enqueue], simplified]

lemma pg_enqueue:
  assumes "as_enqueue (pg_approvals env) = Some enq" "enq org job s = Inr s'"
  obtains penv jenv where "enqueue_on_tx env penv jenv org job s = Inr s'"
  using assms by (auto split: prod.splits)

interpretation pg_ballots: ballot_box "pg_approvals env" ap_wf ap_head ap_votes for env
proof
  show "as_lock_request (pg_approvals env) i org s = Inr r \<longleftrightarrow> ap_head s i = Some r \<and> ar_org_id r = org"
    if "ap_wf s" for s i org r
    using by_id_and_org_first [OF that, of i org r] by (auto simp: getApprovalRequest_def split: option.splits)
  show "ar_id r = i" if "ap_wf s" "ap_head s i = Some r" for s i r
    using that ap_head_Some by blast
  show "ap_wf s' \<and> ap_head s' = ap_head s \<and> ap_votes s' = ap_votes s"
    if "ap_wf s" "as_enqueue (pg_approvals env) = Some enq" "enq org job s = Inr s'" for s enq org job s'
    by (rule pg_enqueue [OF that(2,3)]) (simp add: enqueue_on_tx_law that(1))
qed (unfold pg_approvals_calls,
    (rule InsertApprovalRequest_law InsertDecision_law CountApprovals_law UpdateApprovalState_law; assumption |
     metis emit_on_tx_law(1-3))+)

lemma ap_resumed_cong: "approval_jobs s' = approval_jobs s \<Longrightarrow> ap_resumed s' = ap_resumed s"
  by (rule ext) (simp add: ap_resumed_def)

lemma calls_keep_jobs:
  "InsertApprovalRequest env r s = Inr s' \<Longrightarrow> approval_jobs s' = approval_jobs s"
  "InsertDecision env d s = Inr s' \<Longrightarrow> approval_jobs s' = approval_jobs s"
  "UpdateApprovalState env i org to reason dec s = Inr s' \<Longrightarrow> approval_jobs s' = approval_jobs s"
  by (auto simp: InsertApprovalRequest_def InsertDecision_def UpdateApprovalState_def split: if_splits)

interpretation pg_resumes: resuming_ballot_box "pg_approvals env" ap_wf ap_head ap_votes ap_resumed for env
proof
  show "ap_resumed s r'" if "same_terms r r'" "ap_resumed s r" for r r' s
    using that(2) same_termsD [OF that(1)] by (simp add: ap_resumed_def resume_spec_def)
  show "ap_resumed s' r" if e: "as_enqueue (pg_approvals env) = Some enq" "enq org job s = Inr s'" "ap_resumed s r" for enq org job s s' r
  proof (rule pg_enqueue [OF e(1,2)])
    fix penv jenv assume "enqueue_on_tx env penv jenv org job s = Inr s'"
    from appends_keyed [OF enqueue_on_tx_law(4) [OF this]] show ?thesis using e(3) by (auto simp: ap_resumed_def)
  qed
  show "ap_resumed s' r" if e: "as_enqueue (pg_approvals env) = Some enq" "enq (ar_org_id r) (resume_job r payload) s = Inr s'"
    for enq r payload s s'
    by (rule pg_enqueue [OF e]) (rule enqueue_resume_law)
qed (unfold pg_approvals_calls, (rule ap_resumed_cong, (rule calls_keep_jobs emit_on_tx_law(4); assumption))+)

end
