(* ===== verification/Approval_Properties.thy ===== *)
theory Approval_Properties
  imports Approval_Store
begin

text \<open>
  Every run of the approval service: its operations in any order and interleaving, each with its
  own clock, ids and emitter, and the job store draining the outbox between them.
\<close>

section \<open>Runs\<close>

text \<open>
  A producer, where one is wired, validates the attempt budget of what it enqueues, and the
  database gives the job a fresh id.
\<close>

definition producer_ready :: "approval_env \<Rightarrow> approval_db \<Rightarrow> bool" where
  "producer_ready env db \<longleftrightarrow>
     (\<forall>penv jenv. ap_producer env = Some (penv, jenv) \<longrightarrow> validates_budget penv) \<and>
     (\<forall>m \<in> set (job_messages (approval_jobs db)). jm_id m \<noteq> ap_job_id env)"

inductive approval_step :: "approval_db \<Rightarrow> approval_db \<Rightarrow> bool" where
  asked: "approval_step db (snd (CreateApprovalRequest (pg_approvals env) new_id inp db))"
| decided: "producer_ready env db \<Longrightarrow>
    approval_step db (snd (Decide enc (pg_approvals env) clock vid org i dec db))"
| reviewed: "producer_ready env db \<Longrightarrow>
    approval_step db (snd (DecideReviewedApproval enc (pg_approvals env) clock vid org i dec db))"
| withdrawn: "approval_step db (snd (CancelApprovalRequest (pg_approvals env) org i reason db))"
| swept: "approval_step db (snd (SweepApprovalRequest (pg_approvals env) org i now db))"
| drained: "store_step (approval_jobs db) jobs \<Longrightarrow> approval_step db (db\<lparr>approval_jobs := jobs\<rparr>)"

definition no_approvals :: approval_db where
  "no_approvals = \<lparr>approval_requests = [], approval_decisions = [], audit_events = [], approval_jobs = empty_db\<rparr>"

definition approval_reachable :: "approval_db \<Rightarrow> bool" where
  "approval_reachable db \<longleftrightarrow> approval_step\<^sup>*\<^sup>* no_approvals db"

definition ap_ok :: "approval_db \<Rightarrow> bool" where
  "ap_ok db \<longleftrightarrow> pg_ballots.ok db \<and> pg_resumes.delivered db"

lemma ap_ok_D: "ap_ok db \<Longrightarrow> pg_ballots.ok db" "ap_ok db \<Longrightarrow> pg_resumes.delivered db"
  by (simp_all add: ap_ok_def)

lemma ap_evolves_ok: "pg_ballots.evolves db db' \<Longrightarrow> pg_ballots.ok db'"
  by (simp add: pg_ballots.evolves_def)

lemma drained_evolves:
  assumes "ap_ok db" "store_step (approval_jobs db) jobs"
  shows "pg_ballots.evolves db (db\<lparr>approval_jobs := jobs\<rparr>)" "pg_resumes.delivered (db\<lparr>approval_jobs := jobs\<rparr>)"
proof -
  let ?db = "db\<lparr>approval_jobs := jobs\<rparr>"
  have same: "ap_wf ?db = ap_wf db" "ap_head ?db = ap_head db" "ap_votes ?db = ap_votes db"
    by (simp_all add: ap_wf_def ap_head_def ap_votes_def fun_eq_iff)
  have "pg_ballots.ok ?db" using ap_ok_D(1) [OF assms(1)] by (simp add: pg_ballots.ok_def same)
  then show "pg_ballots.evolves db ?db" by (simp add: pg_ballots.evolves_def same)
  have "set (keyed (approval_jobs db)) \<subseteq> set (keyed jobs)"
    by (rule appends_keyed [OF store_step_appends [OF assms(2)]])
  then show "pg_resumes.delivered ?db"
    using ap_ok_D(2) [OF assms(1)] unfolding pg_resumes.delivered_def same ap_resumed_def by simp blast
qed

lemma approval_step_evolves:
  assumes "approval_step db db'" "ap_ok db"
  shows "pg_ballots.evolves db db' \<and> pg_resumes.delivered db'"
  using assms
proof (induction rule: approval_step.induct)
  case drained
  then show ?case using drained_evolves by blast
qed (simp_all add: ap_ok_D pg_ballots.Create_evolves pg_ballots.Decide_evolves pg_ballots.DecideReviewed_evolves
    pg_ballots.Cancel_evolves pg_ballots.Sweep_evolves pg_resumes.Create_delivered pg_resumes.Decide_delivered
    pg_resumes.DecideReviewed_delivered pg_resumes.Cancel_delivered pg_resumes.Sweep_delivered)

lemma ap_ok_step: "approval_step db db' \<Longrightarrow> ap_ok db \<Longrightarrow> ap_ok db'"
  by (metis ap_ok_def approval_step_evolves ap_evolves_ok)

lemma no_approvals_ok: "ap_ok no_approvals"
  by (simp add: ap_ok_def pg_ballots.ok_def pg_resumes.delivered_def ap_wf_def ap_head_def no_approvals_def select_first_def)

lemma ap_ok_steps: "approval_step\<^sup>*\<^sup>* db db' \<Longrightarrow> ap_ok db \<Longrightarrow> ap_ok db'"
  by (induction rule: rtranclp_induct) (simp_all add: ap_ok_step)

lemma approval_reachable_ok: "approval_reachable db \<Longrightarrow> ap_ok db"
  using ap_ok_steps no_approvals_ok by (auto simp: approval_reachable_def)

lemma reachable_head:
  assumes "ap_ok db" "r \<in> set (approval_requests db)"
  shows "ap_head db (ar_id r) = Some r" "ballot_ok r (ap_votes db (ar_id r))"
proof -
  have "ap_wf db" using assms(1) by (simp add: ap_ok_def pg_ballots.ok_def)
  then show h: "ap_head db (ar_id r) = Some r" using ap_head_Some assms(2) by simp
  show "ballot_ok r (ap_votes db (ar_id r))"
    using assms(1) h by (simp add: ap_ok_def pg_ballots.ok_def)
qed

text \<open>
  C21.  Quorum is exact.  In every reachable state a request's decisions come from distinct people,
  each entitled to decide it (not the requester unless self-approval was allowed, and one of
  the assigned approvers where there are any); a request is approved exactly when as many of
  them as its quorum approved and nobody denied, and an open request is below its quorum.
\<close>

theorem approval_quorum_exact:
  assumes "approval_reachable db" "r \<in> set (approval_requests db)"
    and "ds = filter (\<lambda>d. ad_request_id d = ar_id r) (approval_decisions db)"
  shows "distinct (map ad_decider ds) \<and> (\<forall>d \<in> set ds. entitled r (ad_decider d)) \<and> 1 \<le> ar_quorum r \<and>
    (ar_state r = ApprovalApproved \<longleftrightarrow> int (length (approving ds)) = ar_quorum r \<and> denying ds = []) \<and>
    (ar_state r = ApprovalDenied \<longleftrightarrow> denying ds \<noteq> []) \<and>
    (\<not> ApprovalIsTerminal r \<longrightarrow> int (length (approving ds)) < ar_quorum r) \<and>
    (ar_decided_at r \<noteq> None \<longleftrightarrow> ar_state r = ApprovalApproved \<or> ar_state r = ApprovalDenied)"
proof -
  have ds: "ds = ap_votes db (ar_id r)" by (simp add: assms(3) ap_votes_def)
  have "ballot_ok r ds" unfolding ds by (rule reachable_head(2) [OF approval_reachable_ok [OF assms(1)] assms(2)])
  then show ?thesis
    by (cases "ar_state r") (auto simp: ballot_ok_def votes_ok_def tally_ok_def ApprovalIsTerminal_def)
qed

text \<open>
  C24.  A settled request stays settled.  Whatever happens later, the terms of a request (its
  subject, quorum, policy and resume target) never change and its decisions are only added
  to; once it is approved, denied, expired or cancelled neither its row nor its decisions change.
\<close>

theorem approval_settled_is_final:
  assumes "approval_reachable db" "approval_step\<^sup>*\<^sup>* db db'" "r \<in> set (approval_requests db)"
  shows "\<exists>r' \<in> set (approval_requests db'). same_terms r r' \<and>
    (\<exists>later. ap_votes db' (ar_id r) = ap_votes db (ar_id r) @ later \<and>
       (ApprovalIsTerminal r \<longrightarrow> r' = r \<and> later = []))"
proof -
  let ?i = "ar_id r"
  have ok: "ap_ok db" by (rule approval_reachable_ok [OF assms(1)])
  from assms(2) have "\<exists>r' later. ap_head db' ?i = Some r' \<and> same_terms r r' \<and>
      ap_votes db' ?i = ap_votes db ?i @ later \<and> (ApprovalIsTerminal r \<longrightarrow> r' = r \<and> later = [])"
  proof (induction rule: rtranclp_induct)
    case base
    then show ?case using reachable_head(1) [OF ok assms(3)] by simp
  next
    case (step db1 db2)
    then obtain r1 later where 1: "ap_head db1 ?i = Some r1" "same_terms r r1"
      "ap_votes db1 ?i = ap_votes db ?i @ later" "ApprovalIsTerminal r \<longrightarrow> r1 = r \<and> later = []" by blast
    have "pg_ballots.evolves db1 db2"
      using approval_step_evolves [OF step.hyps(2)] ap_ok_steps [OF step.hyps(1) ok] by blast
    then obtain r2 later2 where 2: "ap_head db2 ?i = Some r2" "same_terms r1 r2"
      "ap_votes db2 ?i = ap_votes db1 ?i @ later2" "ApprovalIsTerminal r1 \<longrightarrow> r2 = r1 \<and> later2 = []"
      using 1(1) unfolding pg_ballots.evolves_def by blast
    show ?case using 1 2 same_terms_trans [OF 1(2) 2(2)] by auto
  qed
  then obtain r' later where h: "ap_head db' ?i = Some r'" "same_terms r r'"
    "ap_votes db' ?i = ap_votes db ?i @ later" "ApprovalIsTerminal r \<longrightarrow> r' = r \<and> later = []" by blast
  have "r' \<in> set (approval_requests db')" using h(1) select_first_Some by (fastforce simp: ap_head_def)
  then show ?thesis using h by blast
qed

section \<open>The resume job\<close>

lemma enqueue_on_tx_step:
  assumes "enqueue_on_tx env penv jenv org job db = Inr db'" "producer_ready env db" "validates_budget penv"
  shows "store_step (approval_jobs db) (approval_jobs db')"
proof -
  let ?ses = "\<lparr>ses_role = ''app_tenant'', ses_org = Some org, ses_user = None\<rparr>"
  obtain j disp jobs where e: "EnqueueJob penv jenv (Some ?ses) (ap_now env) (ap_job_id env) (ap_job_seq env) job
      (approval_jobs db) = (Inr (j, disp), jobs)" and db': "db' = db\<lparr>approval_jobs := jobs\<rparr>"
    by (rule enqueue_on_tx_Inr [OF assms(1)])
  have "store_step (approval_jobs db) (snd (EnqueueJob penv jenv (Some ?ses) (ap_now env) (ap_job_id env)
      (ap_job_seq env) job (approval_jobs db)))"
    using assms(2,3) by (intro store_step.enqueue) (simp_all add: producer_ready_def)
  then show ?thesis by (simp add: e db')
qed

lemma resume_job_step:
  assumes "enqueueApprovalResume enc (pg_approvals env) r k d db = Inr db'" "producer_ready env db"
  shows "store_step\<^sup>*\<^sup>* (approval_jobs db) (approval_jobs db')"
proof (cases "rr_queue (ar_resume r) = []")
  case False
  then obtain penv jenv payload where e: "ap_producer env = Some (penv, jenv)"
    "enqueue_on_tx env penv jenv (ar_org_id r) (resume_job r payload) db = Inr db'"
    using assms(1) by (auto simp: enqueueApprovalResume_def split: option.splits)
  then show ?thesis using enqueue_on_tx_step [OF e(2) assms(2)] assms(2) by (auto simp: producer_ready_def)
qed (use assms(1) in \<open>simp add: enqueueApprovalResume_def\<close>)

lemma decideLocked_jobs:
  assumes "decideLocked enc (pg_approvals env) clock vid r inp db = Inr (out, db')" "producer_ready env db"
  shows "store_step\<^sup>*\<^sup>* (approval_jobs db) (approval_jobs db')"
  using assms(1)
proof (cases rule: decideLocked_cases)
  case (denied s1 s2 s3)
  then have "approval_jobs db' = approval_jobs db" by (metis calls_keep_jobs emit_on_tx_law(4) pg_approvals_calls)
  then show ?thesis by simp
next
  case (approved s1 s2 n s3 s4)
  then have "approval_jobs s3 = approval_jobs db" "approval_jobs db' = approval_jobs s4"
    by (metis calls_keep_jobs emit_on_tx_law(4) pg_approvals_calls)+
  then show ?thesis
    using resume_job_step [OF approved(8)] assms(2) by (simp add: producer_ready_def)
next
  case (counted s1 n)
  then have "approval_jobs db' = approval_jobs db" by (metis calls_keep_jobs emit_on_tx_law(4) pg_approvals_calls)
  then show ?thesis by simp
qed

lemma quiet_jobs:
  assumes "\<And>x s'. fn db = Inr (x, s') \<Longrightarrow> store_step\<^sup>*\<^sup>* (approval_jobs db) (approval_jobs s')"
  shows "store_step\<^sup>*\<^sup>* (approval_jobs db) (approval_jobs (snd (Within fn db)))"
  using assms by (cases "fn db") (auto simp: Within_def)

lemma Decide_jobs:
  assumes "producer_ready env db"
  shows "store_step\<^sup>*\<^sup>* (approval_jobs db) (approval_jobs (snd (Decide enc (pg_approvals env) clock vid org i inp db)))"
  by (cases "validateDecideInput org inp")
    (auto simp: Decide_def rbind_eq_Inr simp del: pg_approvals_calls intro!: quiet_jobs intro: decideLocked_jobs [OF _ assms])

lemma DecideReviewed_jobs:
  assumes "producer_ready env db"
  shows "store_step\<^sup>*\<^sup>* (approval_jobs db)
    (approval_jobs (snd (DecideReviewedApproval enc (pg_approvals env) clock vid org i inp db)))"
  by (cases "validateDecideInput org inp")
    (auto simp: DecideReviewedApproval_def rbind_eq_Inr simp del: pg_approvals_calls split: if_splits
      intro!: quiet_jobs intro: decideLocked_jobs [OF _ assms])

lemma close_keeps_jobs:
  assumes "UpdateApprovalState env i org to reason dec db = Inr s1" "emit_on_tx env e s1 = Inr s'"
  shows "store_step\<^sup>*\<^sup>* (approval_jobs db) (approval_jobs s')"
  using calls_keep_jobs(3) [OF assms(1)] emit_on_tx_law(4) [OF assms(2)] by simp

lemma Cancel_jobs:
  "store_step\<^sup>*\<^sup>* (approval_jobs db) (approval_jobs (snd (CancelApprovalRequest (pg_approvals env) org i reason db)))"
  by (auto simp: CancelApprovalRequest_def rbind_eq_Inr split: if_splits intro!: quiet_jobs intro: close_keeps_jobs)

lemma Sweep_jobs:
  "store_step\<^sup>*\<^sup>* (approval_jobs db) (approval_jobs (snd (SweepApprovalRequest (pg_approvals env) org i now db)))"
  by (auto simp: SweepApprovalRequest_def sweepLocked_def rbind_eq_Inr split: if_splits intro!: quiet_jobs intro: close_keeps_jobs)

lemma Create_jobs:
  "store_step\<^sup>*\<^sup>* (approval_jobs db) (approval_jobs (snd (CreateApprovalRequest (pg_approvals env) new_id inp db)))"
proof -
  have "store_step\<^sup>*\<^sup>* (approval_jobs db) (approval_jobs s')"
    if "InsertApprovalRequest env r db = Inr s1" "emit_on_tx env e s1 = Inr s'" for r s1 e s'
    using calls_keep_jobs(1) [OF that(1)] emit_on_tx_law(4) [OF that(2)] by simp
  then show ?thesis
    by (auto simp: CreateApprovalRequest_def rbind_eq_Inr split: sum.splits intro!: quiet_jobs)
qed

lemma approval_step_jobs: "approval_step db db' \<Longrightarrow> store_step\<^sup>*\<^sup>* (approval_jobs db) (approval_jobs db')"
  by (induction rule: approval_step.induct)
    (simp_all add: Create_jobs Decide_jobs DecideReviewed_jobs Cancel_jobs Sweep_jobs)

lemma approval_jobs_reachable: "approval_reachable db \<Longrightarrow> reachable (approval_jobs db)"
proof -
  have "approval_step\<^sup>*\<^sup>* db0 db \<Longrightarrow> store_step\<^sup>*\<^sup>* (approval_jobs db0) (approval_jobs db)" for db0
    by (induction rule: rtranclp_induct) (auto dest: approval_step_jobs intro: rtranclp_trans)
  then show "approval_reachable db \<Longrightarrow> reachable (approval_jobs db)"
    unfolding approval_reachable_def reachable_def by (fastforce simp: no_approvals_def)
qed

lemma resume_spec_identity: "resume_spec r a \<Longrightarrow> resume_spec r b \<Longrightarrow> same_idempotency a b"
  by (simp add: resume_spec_def same_idempotency_def)

lemma identity_once:
  assumes "identities_unique (keyed db)" "m \<in> set (job_messages db)" "m' \<in> set (job_messages db)"
    and "same_idempotency (jm_spec m) (jm_spec m')"
  shows "m = m'"
proof -
  have "same_idempotency (jm_spec m') (jm_spec m)" using assms(4) by (rule same_idempotency_sym)
  moreover have "sorted_wrt (\<lambda>a b. \<not> same_idempotency (jm_spec a) (jm_spec b)) (job_messages db)"
    using assms(1) by (simp add: identities_unique_def keyed_def sorted_wrt_map)
  ultimately show ?thesis
    using assms(2-4) by (metis in_set_conv_nth linorder_neqE_nat sorted_wrt_nth_less)
qed


section \<open>Refinement of an abstract ballot\<close>

text \<open>What the primitive promises: a ballot is its quorum, its state and who has approved so far.\<close>

record ballot =
  b_quorum :: int
  b_state :: approval_state
  b_approvers :: "string set"

definition cast_vote :: "decision_kind \<Rightarrow> string \<Rightarrow> ballot \<Rightarrow> ballot" where
  "cast_vote k who b =
     (if k = DecisionDeny then b\<lparr>b_state := ApprovalDenied\<rparr>
      else let approvers = insert who (b_approvers b)
           in b\<lparr>b_approvers := approvers,
                b_state := (if b_quorum b \<le> int (card approvers) then ApprovalApproved else b_state b)\<rparr>)"

definition ballot_of :: "approval_db \<Rightarrow> uuid \<Rightarrow> ballot option" where
  "ballot_of db i = map_option (\<lambda>r.
     \<lparr>b_quorum = ar_quorum r, b_state = ar_state r, b_approvers = ad_decider ` set (approving (ap_votes db i))\<rparr>)
     (ap_head db i)"

lemma approvers_card:
  assumes "distinct (map ad_decider ds)"
  shows "card (ad_decider ` set (approving ds)) = length (approving ds)"
proof -
  have "distinct (map ad_decider (approving ds))" using assms by (simp add: distinct_map_filter)
  then show ?thesis by (metis distinct_card length_map set_map)
qed

lemma voted_refines:
  assumes ok: "pg_ballots.ok db" and r: "ap_head db i = Some r"
    and v: "pg_ballots.voted db db' i r vid inp out"
    and k: "di_decision inp = DecisionApprove \<or> di_decision inp = DecisionDeny"
    and b: "ballot_of db i = Some b"
  shows "ballot_of db' i = Some (cast_vote (di_decision inp) (di_decider inp) b)"
    and "do_state out = b_state (cast_vote (di_decision inp) (di_decider inp) b)"
    and "j \<noteq> i \<Longrightarrow> ballot_of db' j = ballot_of db j"
proof -
  let ?ds = "ap_votes db i"
  have "ballot_ok r ?ds" using ok r by (simp add: pg_ballots.ok_def)
  then have dist: "distinct (map ad_decider ?ds)" by (simp add: ballot_ok_def votes_ok_def)
  have bq: "b = \<lparr>b_quorum = ar_quorum r, b_state = ar_state r, b_approvers = ad_decider ` set (approving ?ds)\<rparr>"
    using b r by (simp add: ballot_of_def)
  obtain t x y z where e: "di_decider inp \<notin> ad_decider ` set ?ds"
    "ap_votes db' = (ap_votes db)(i := ?ds @ [(new_decision vid r inp)\<lparr>ad_decided_at := t\<rparr>])"
    "do_state out = pg_ballots.decided_state db i r inp"
    "ap_head db' = (ap_head db)(i \<mapsto> r\<lparr>ar_state := do_state out, ar_decision_reason := x, ar_decided_at := y, ar_updated_at := z\<rparr>)"
    using v unfolding pg_ballots.voted_def by blast
  have "di_decider inp \<notin> ad_decider ` set (approving ?ds)" using e(1) by auto
  then have card: "card (insert (di_decider inp) (ad_decider ` set (approving ?ds))) = length (approving ?ds) + 1"
    using approvers_card [OF dist] by simp
  show st: "do_state out = b_state (cast_vote (di_decision inp) (di_decider inp) b)"
    using k card by (auto simp: e(3) bq pg_ballots.decided_state_def cast_vote_def Let_def)
  then show "ballot_of db' i = Some (cast_vote (di_decision inp) (di_decider inp) b)"
    using k by (auto simp: ballot_of_def e(2,4) bq cast_vote_def Let_def new_decision_def)
  show "j \<noteq> i \<Longrightarrow> ballot_of db' j = ballot_of db j" by (simp add: ballot_of_def e(2,4))
qed

text \<open>
  C22.  \<^verbatim>\<open>Decide\<close> implements the abstract ballot: an accepted decision casts one vote of the decider
  on the ballot of that request and reports its new state, every other ballot stays as it
  was, and a refused decision changes nothing at all.
\<close>

theorem decide_refines_ballot:
  assumes "approval_reachable db"
    and "Decide enc (pg_approvals env) clock vid org i inp db = (result, db')"
  shows "case result of
      Inl _ \<Rightarrow> db' = db
    | Inr out \<Rightarrow> \<exists>b. ballot_of db i = Some b \<and> di_decider inp \<notin> b_approvers b \<and>
        (b_state b = ApprovalPending \<or> b_state b = ApprovalEscalated) \<and>
        ballot_of db' i = Some (cast_vote (di_decision inp) (di_decider inp) b) \<and>
        do_state out = b_state (cast_vote (di_decision inp) (di_decider inp) b) \<and>
        (\<forall>j. j \<noteq> i \<longrightarrow> ballot_of db' j = ballot_of db j)"
proof (cases result)
  case (Inl e)
  then show ?thesis
    using assms(2) by (auto simp: Decide_def Within_def split: sum.splits)
next
  case (Inr out)
  have ok: "pg_ballots.ok db" by (rule ap_ok_D(1) [OF approval_reachable_ok [OF assms(1)]])
  obtain u where u: "validateDecideInput org inp = Inr u"
    using assms(2) Inr by (cases "validateDecideInput org inp") (auto simp: Decide_def)
  then have "Within (\<lambda>s. rbind (as_lock_request (pg_approvals env) i org s) (\<lambda>req.
      decideLocked enc (pg_approvals env) clock vid req inp s)) db = (Inr out, db')"
    using assms(2) Inr by (simp add: Decide_def)
  then obtain r where l: "as_lock_request (pg_approvals env) i org db = Inr r"
    and dec: "decideLocked enc (pg_approvals env) clock vid r inp db = Inr (out, db')"
    by (auto simp: Within_Inr rbind_eq_Inr)
  note v = pg_ballots.validateDecideInput_Inr [OF u]
  note h = pg_ballots.locked [OF ok l]
  have k: "di_decision inp = DecisionApprove \<or> di_decision inp = DecisionDeny" using v by blast
  note vt = pg_ballots.decideLocked_voted [OF ok h(1) dec k]
  have o: "IsDecidable r" using pg_ballots.decideLocked_checked [OF dec] by (simp add: decision_checks_Inr)
  obtain b where b: "ballot_of db i = Some b" using h(1) by (simp add: ballot_of_def)
  have "di_decider inp \<notin> b_approvers b" "b_state b = ar_state r"
    using b h(1) vt by (auto simp: ballot_of_def pg_ballots.voted_def)
  then show ?thesis
    using voted_refines [OF ok h(1) vt k b] b o Inr by (simp add: IsDecidable_def)
qed

end
