(* ===== verification/Approval_Outcomes.thy ===== *)
theory Approval_Outcomes
  imports Approval_Properties
begin

text \<open>
  What the operations of the approval service give their callers: a well-posed request can be
  approved, deadlines are applied once, a request is shown only to the people it names, and
  the listing returns every request.
\<close>

section \<open>An accepted request can be approved\<close>

definition approve_vote :: "string \<Rightarrow> decide_input" where
  "approve_vote d = \<lparr>di_expected_subject_hash = [], di_decider = d, di_decision = DecisionApprove,
     di_reason = [], di_delegation_grant_id = []\<rparr>"

fun decide_each ::
  "encoders \<Rightarrow> 's approval_store \<Rightarrow> time \<Rightarrow> uuid \<Rightarrow> uuid \<Rightarrow> (string \<times> uuid) list \<Rightarrow> 's \<Rightarrow> 's" where
  "decide_each enc st clock org i [] s = s"
| "decide_each enc st clock org i ((d, vid) # votes) s =
     decide_each enc st clock org i votes (snd (Decide enc st clock vid org i (approve_vote d) s))"

definition audit_accepts :: "approval_env \<Rightarrow> bool" where
  "audit_accepts env \<longleftrightarrow> (\<forall>e trail. is_ok (emitTx (ap_audit env) e trail))"

definition resume_accepted ::
  "encoders \<Rightarrow> approval_env \<Rightarrow> job_db \<Rightarrow> uuid \<Rightarrow> uuid \<Rightarrow> resume_ref \<Rightarrow> bool" where
  "resume_accepted enc env jobs i org ref \<longleftrightarrow>
     (\<forall>q d s. ar_id q = i \<and> ar_org_id q = org \<and> ar_resume q = ref \<and> approval_jobs s = jobs \<longrightarrow>
        is_ok (enqueueApprovalResume enc (pg_approvals env) q DecisionApprove d s))"

lemma is_ok_obtain: "is_ok x \<Longrightarrow> \<exists>y. x = Inr y"
  by (cases x) auto

lemma emit_accepted: "audit_accepts env \<Longrightarrow> \<exists>s'. emit_on_tx env e s = Inr s'"
  by (auto simp: audit_accepts_def emit_on_tx_def rbind_eq_Inr dest!: spec dest: is_ok_obtain)

lemma update_accepted: "ap_wf s \<Longrightarrow> ap_head s i = Some r \<Longrightarrow> \<exists>s'. UpdateApprovalState env i (ar_org_id r) to reason dec s = Inr s'"
  by (auto simp: UpdateApprovalState_def rows_affected_zero ap_head_Some by_id_and_org_def)

lemma decision_accepted:
  assumes "ap_wf s" "ap_head s i = Some r" "d \<notin> ad_decider ` set (ap_votes s i)"
    and "vid \<notin> ad_id ` set (approval_decisions s)" "ap_organization_exists env (ar_org_id r)"
  shows "\<exists>s'. InsertDecision env (new_decision vid r (approve_vote d)) s = Inr s'"
  using assms by (auto simp: InsertDecision_def new_decision_def approve_vote_def ap_votes_def ap_head_Some)

lemma decideLocked_succeeds:
  assumes ok: "pg_ballots.ok s" and r: "ap_head s i = Some r"
    and checks: "decision_checks enc clock r (approve_vote d) = Inr ()"
    and new: "d \<notin> ad_decider ` set (ap_votes s i)" "vid \<notin> ad_id ` set (approval_decisions s)"
    and env: "ap_organization_exists env (ar_org_id r)" "audit_accepts env"
    and resume: "resume_accepted enc env (approval_jobs s) i (ar_org_id r) (ar_resume r)"
  shows "\<exists>out s'. decideLocked enc (pg_approvals env) clock vid r (approve_vote d) s = Inr (out, s')"
proof -
  have wf: "ap_wf s" using ok by (simp add: pg_ballots.ok_def)
  have id: "ar_id r = i" by (rule pg_ballots.head_id [OF wf r])
  let ?event = "\<lambda>name payload. approval_event d ''user'' name i (ar_org_id r) payload"
  obtain s1 where s1: "InsertDecision env (new_decision vid r (approve_vote d)) s = Inr s1"
    using decision_accepted [OF wf r new env(1)] by blast
  obtain s2 where s2: "emit_on_tx env (?event ''saas.approval.decision_recorded'' [(''decision'', ''approve'')]) s1 = Inr s2"
    using emit_accepted [OF env(2)] by blast
  have v: "ap_wf s2" "ap_head s2 = ap_head s" "approval_jobs s2 = approval_jobs s"
    using pg_ballots.record_vote [OF ok r, of env, unfolded pg_approvals_calls, OF s1 s2]
      calls_keep_jobs(2) [OF s1] emit_on_tx_law(4) [OF s2] by simp_all
  obtain n where n: "CountApprovals i (ar_org_id r) s2 = Inr n" by (simp add: CountApprovals_def)
  obtain s3 where s3: "UpdateApprovalState env i (ar_org_id r) ApprovalApproved [] True s2 = Inr s3"
    using update_accepted [OF v(1)] r v(2) by metis
  have "approval_jobs s3 = approval_jobs s" using calls_keep_jobs(3) [OF s3] v(3) by simp
  then obtain s4 where s4: "enqueueApprovalResume enc (pg_approvals env) r DecisionApprove d s3 = Inr s4"
    using resume id is_ok_obtain unfolding resume_accepted_def by blast
  obtain s5 where s5: "emit_on_tx env (?event ''saas.approval.approved''
      [(''resource'', ar_resource r), (''action'', ar_action r)]) s4 = Inr s5"
    using emit_accepted [OF env(2)] by blast
  show ?thesis
    using checks s1 s2 n s3 s4 s5 by (simp add: decideLocked_def Let_def id decision_text_def approve_vote_def)
qed

lemma votes_decisions: "set (approval_decisions s) = (\<Union>i. set (ap_votes s i))"
  by (auto simp: ap_votes_def)

lemma voted_ids:
  assumes "pg_ballots.voted s s' i r vid inp out"
  shows "ad_id ` set (approval_decisions s') = insert vid (ad_id ` set (approval_decisions s))"
proof -
  obtain t where v: "ap_votes s' = (ap_votes s)(i := ap_votes s i @ [(new_decision vid r inp)\<lparr>ad_decided_at := t\<rparr>])"
    using assms unfolding pg_ballots.voted_def by blast
  have "set (approval_decisions s') = insert ((new_decision vid r inp)\<lparr>ad_decided_at := t\<rparr>) (set (approval_decisions s))"
    unfolding votes_decisions v by (auto split: if_splits)
  then show ?thesis by (simp add: new_decision_def)
qed

lemma pending_keeps_jobs:
  assumes "decideLocked enc (pg_approvals env) clock vid r inp s = Inr (out, s')" "do_state out \<noteq> ApprovalApproved"
  shows "approval_jobs s' = approval_jobs s"
  using assms(1)
proof (cases rule: decideLocked_cases)
  case (denied s1 s2 s3)
  then show ?thesis by (metis calls_keep_jobs emit_on_tx_law(4) pg_approvals_calls)
next
  case (counted s1 n)
  then show ?thesis by (metis calls_keep_jobs emit_on_tx_law(4) pg_approvals_calls)
qed (use assms(2) in simp)

text \<open>The votes still missing, cast one after the other, approve the request.\<close>

lemma missing_votes_approve:
  assumes "pg_ballots.ok s" "ap_head s i = Some r" "IsDecidable r" "ar_org_id r \<noteq> []"
    and "\<not> window_over clock (ar_expires_at r)" "\<forall>d \<in> fst ` set votes. entitled r d"
    and "distinct (map fst votes)" "fst ` set votes \<inter> ad_decider ` set (ap_votes s i) = {}"
    and "distinct (map snd votes)" "snd ` set votes \<inter> ad_id ` set (approval_decisions s) = {}"
    and "int (length (approving (ap_votes s i)) + length votes) = ar_quorum r"
    and "ap_organization_exists env (ar_org_id r)" "audit_accepts env"
    and "resume_accepted enc env (approval_jobs s) i (ar_org_id r) (ar_resume r)"
  shows "\<exists>r'. ap_head (decide_each enc (pg_approvals env) clock (ar_org_id r) i votes s) i = Some r' \<and>
    ar_state r' = ApprovalApproved"
  using assms
proof (induction votes arbitrary: s r)
  case Nil
  then have "ballot_ok r (ap_votes s i)" by (simp add: pg_ballots.ok_def)
  then show ?case using Nil.prems(3,11) by (auto simp: ballot_ok_def tally_ok_def IsDecidable_def)
next
  case (Cons v votes)
  obtain d vid where dv: "v = (d, vid)" by fastforce
  have wf: "ap_wf s" using Cons.prems(1) by (simp add: pg_ballots.ok_def)
  have ent: "entitled r d" using Cons.prems(6) dv by simp
  have checks: "decision_checks enc clock r (approve_vote d) = Inr ()"
    using Cons.prems(3,5) ent by (simp add: decision_checks_Inr subject_matches_def approve_vote_def entitled_def)
  obtain out s' where dec: "decideLocked enc (pg_approvals env) clock vid r (approve_vote d) s = Inr (out, s')"
    using decideLocked_succeeds [OF Cons.prems(1,2) checks _ _ Cons.prems(12-14), of vid] Cons.prems(8,10)
    by (auto simp: dv)
  have vt: "pg_ballots.voted s s' i r vid (approve_vote d) out"
    by (rule pg_ballots.decideLocked_voted [OF Cons.prems(1,2) dec]) (simp add: approve_vote_def)
  have ok': "pg_ballots.ok s'"
    by (rule ap_evolves_ok [OF pg_ballots.decideLocked_evolves [OF Cons.prems(1,2) dec]])
      (use ent in \<open>simp_all add: approve_vote_def entitled_def\<close>)
  have "as_lock_request (pg_approvals env) i (ar_org_id r) s = Inr r"
    using pg_ballots.lock [OF wf] Cons.prems(2) by blast
  then have step: "snd (Decide enc (pg_approvals env) clock vid (ar_org_id r) i (approve_vote d) s) = s'"
    using dec Cons.prems(4) ent
    by (simp add: Decide_def validateDecideInput_def approve_vote_def entitled_def Within_def del: pg_approvals_calls)
  obtain t x y z where e: "ap_votes s' = (ap_votes s)(i := ap_votes s i @ [(new_decision vid r (approve_vote d))\<lparr>ad_decided_at := t\<rparr>])"
    "do_state out = pg_ballots.decided_state s i r (approve_vote d)"
    "ap_head s' = (ap_head s)(i \<mapsto> r\<lparr>ar_state := do_state out, ar_decision_reason := x, ar_decided_at := y, ar_updated_at := z\<rparr>)"
    using vt unfolding pg_ballots.voted_def by blast
  let ?r = "r\<lparr>ar_state := do_state out, ar_decision_reason := x, ar_decided_at := y, ar_updated_at := z\<rparr>"
  show ?case
  proof (cases "votes = []")
    case True
    then have "do_state out = ApprovalApproved"
      using Cons.prems(11) by (simp add: e(2) pg_ballots.decided_state_def approve_vote_def)
    then show ?thesis using True dv step by (simp add: e(3))
  next
    case False
    then have st: "do_state out = ar_state r"
      using Cons.prems(11) by (cases votes) (simp_all add: e(2) pg_ballots.decided_state_def approve_vote_def)
    then have jobs: "approval_jobs s' = approval_jobs s"
      using pending_keeps_jobs [OF dec] Cons.prems(3) by (auto simp: IsDecidable_def)
    have "\<exists>r'. ap_head (decide_each enc (pg_approvals env) clock (ar_org_id ?r) i votes s') i = Some r' \<and>
      ar_state r' = ApprovalApproved"
    proof (rule Cons.IH [OF ok'])
      show "ap_head s' i = Some ?r" by (simp add: e(3))
      show "IsDecidable ?r" using Cons.prems(3) st by (simp add: IsDecidable_def)
      show "snd ` set votes \<inter> ad_id ` set (approval_decisions s') = {}"
        using Cons.prems(9,10) dv unfolding voted_ids [OF vt] by auto
      show "fst ` set votes \<inter> ad_decider ` set (ap_votes s' i) = {}"
        using Cons.prems(7,8) dv by (auto simp: e(1) new_decision_def approve_vote_def)
      show "resume_accepted enc env (approval_jobs s') i (ar_org_id ?r) (ar_resume ?r)"
        using Cons.prems(14) jobs by simp
    qed (use Cons.prems dv in \<open>simp_all add: e(1) entitled_def new_decision_def approve_vote_def\<close>)
    then show ?thesis using dv step by simp
  qed
qed

lemma collect_eligible_set:
  "collect_eligible allow_self requester as eligible =
     eligible \<union> {a \<in> set as. allow_self \<or> a \<noteq> requester}"
  by (induction as arbitrary: eligible) auto

lemma created_head:
  assumes "CreateApprovalRequest (pg_approvals env) new_id inp db = (Inr i, db1)"
  obtains c where "i = new_id" "\<forall>old \<in> set (approval_requests db). ar_id old \<noteq> new_id" "validateCreate inp = Inr ()" "ap_organization_exists env (ci_org_id inp)"
    "approval_requests db1 = approval_requests db @ [(new_request new_id inp)\<lparr>ar_created_at := c, ar_updated_at := c\<rparr>]"
    "approval_decisions db1 = approval_decisions db" "approval_jobs db1 = approval_jobs db"
  using assms
  by (auto simp: CreateApprovalRequest_def Within_Inr rbind_eq_Inr InsertApprovalRequest_def emit_on_tx_def
      new_request_def split: sum.splits if_splits)

text \<open>
  C25.  No accepted request is stuck.  A request created with assigned approvers, none of them the
  empty name, has among them enough entitled people to reach its quorum: when these approve one
  after the other inside the decision window, and audit and outbox accept the writes, the
  request is approved.
\<close>

theorem approval_attainable:
  assumes "approval_reachable db"
    and "CreateApprovalRequest (pg_approvals env) new_id inp db = (Inr i, db1)"
    and "ApproverSet (ci_policy inp) \<noteq> []" "[] \<notin> set (ApproverSet (ci_policy inp))"
    and "\<not> window_over clock (ci_expires_at inp)" "audit_accepts env"
    and "resume_accepted enc env (approval_jobs db) i (ci_org_id inp) (ci_resume inp)"
  shows "\<exists>voters. set voters \<subseteq> set (ApproverSet (ci_policy inp)) \<and>
    int (length voters) = resolvedQuorum (ci_quorum inp) \<and>
    (\<forall>vids. length vids = length voters \<and> distinct vids \<and> set vids \<inter> ad_id ` set (approval_decisions db) = {} \<longrightarrow>
      (\<exists>r. ap_head (decide_each enc (pg_approvals env) clock (ci_org_id inp) i (zip voters vids) db1) i = Some r \<and>
         ar_state r = ApprovalApproved))"
proof -
  obtain c where c: "i = new_id" "\<forall>old \<in> set (approval_requests db). ar_id old \<noteq> new_id" "validateCreate inp = Inr ()"
    "ap_organization_exists env (ci_org_id inp)"
    "approval_requests db1 = approval_requests db @ [(new_request new_id inp)\<lparr>ar_created_at := c, ar_updated_at := c\<rparr>]"
    "approval_decisions db1 = approval_decisions db" "approval_jobs db1 = approval_jobs db"
    by (rule created_head [OF assms(2)]) blast
  let ?r = "(new_request new_id inp)\<lparr>ar_created_at := c, ar_updated_at := c\<rparr>"
  let ?E = "collect_eligible (AllowSelf (ci_policy inp)) (ci_requested_by inp) (ApproverSet (ci_policy inp)) {}"
  let ?q = "resolvedQuorum (ci_quorum inp)"
  have v: "ci_org_id inp \<noteq> []" "0 < ?q" "?q \<le> int (card ?E)"
    using c(3) assms(3) by (auto simp: validateCreate_def Let_def not_less resolvedQuorum_def split: if_splits)
  have "finite ?E" by (simp add: collect_eligible_set)
  then obtain voters where voters: "set voters \<subseteq> ?E" "distinct voters" "int (length voters) = ?q"
    using v(2,3) by (metis distinct_card finite_distinct_list finite_subset int_nat_eq
        less_imp_le nat_le_iff obtain_subset_with_card_n)
  have ok1: "ap_ok db1"
    using ap_ok_step [OF approval_step.asked approval_reachable_ok [OF assms(1)]] assms(2) by (metis snd_conv)
  have id: "ar_id ?r = i" by (simp add: new_request_def c(1))
  have head: "ap_head db1 i = Some ?r" using reachable_head(1) [OF ok1, of ?r] c(5) id by simp
  have none: "ap_votes db1 i = []"
    using unknown_id_no_votes [of db i] approval_reachable_ok [OF assms(1)] c(1,2,6)
    by (auto simp: ap_votes_def ap_ok_def pg_ballots.ok_def)
  have ent: "entitled ?r d" if "d \<in> set voters" for d
    using that voters(1) assms(4) by (auto simp: entitled_def new_request_def collect_eligible_set)
  have "\<exists>r. ap_head (decide_each enc (pg_approvals env) clock (ar_org_id ?r) i (zip voters vids) db1) i = Some r \<and>
         ar_state r = ApprovalApproved"
    if vids: "length vids = length voters" "distinct vids" "set vids \<inter> ad_id ` set (approval_decisions db) = {}" for vids
  proof (rule missing_votes_approve [OF ap_ok_D(1) [OF ok1] head])
    show "\<forall>d \<in> fst ` set (zip voters vids). entitled ?r d" using ent by (auto dest: set_zip_leftD)
    show "snd ` set (zip voters vids) \<inter> ad_id ` set (approval_decisions db1) = {}"
      using vids(3) by (auto simp: c(6) dest: set_zip_rightD)
    show "int (length (approving (ap_votes db1 i)) + length (zip voters vids)) = ar_quorum ?r"
      using vids(1) voters(3) by (simp add: none new_request_def)
    show "resume_accepted enc env (approval_jobs db1) i (ar_org_id ?r) (ar_resume ?r)"
      using assms(7) c(7) by (simp add: new_request_def)
  qed (use v c(4) vids voters assms(5,6) in \<open>simp_all add: new_request_def IsDecidable_def none\<close>)
  then show ?thesis
    using voters by (intro exI [of _ voters]) (auto simp: collect_eligible_set new_request_def)
qed

text \<open>
  The empty name counts as an eligible approver when a request is created, but nobody can decide
  under it: such a request passes validation and can never be decided.
\<close>

lemma blank_approver_never_decides:
  assumes "ap_wf db" "ap_head db i = Some r" "ApproverSet (ar_policy r) = [[]]"
  shows "isl (fst (Decide enc (pg_approvals env) clock vid org i inp db))"
proof (cases "validateDecideInput org inp")
  case (Inr u)
  have "di_decider inp \<noteq> []" using pg_ballots.validateDecideInput_Inr [OF Inr] by blast
  then have "decision_checks enc clock r inp \<noteq> Inr ()" using assms(3) by (simp add: decision_checks_Inr)
  then have "isl (decision_checks enc clock r inp)" by (cases "decision_checks enc clock r inp") auto
  moreover have "isl (as_lock_request (pg_approvals env) i org db) \<or> as_lock_request (pg_approvals env) i org db = Inr r"
    using pg_ballots.lock [OF assms(1), of env i org] assms(2)
    by (cases "as_lock_request (pg_approvals env) i org db") auto
  ultimately have "isl (rbind (as_lock_request (pg_approvals env) i org db) (\<lambda>req.
      decideLocked enc (pg_approvals env) clock vid req inp db))"
    by (auto simp: decideLocked_def Let_def isl_def simp del: pg_approvals_calls)
  then show ?thesis by (auto simp: Decide_def Inr Within_def isl_def simp del: pg_approvals_calls)
qed (simp add: Decide_def)

section \<open>Deadlines\<close>

definition swept_state :: "time \<Rightarrow> approval_request \<Rightarrow> approval_state" where
  "swept_state now r =
     (if ApprovalIsTerminal r then ar_state r
      else if window_over now (ar_expires_at r) then ApprovalExpired
      else if window_over now (ar_escalate_at r) then ApprovalEscalated
      else ar_state r)"

lemma same_terms_deadlines: "same_terms r r' \<Longrightarrow> ar_expires_at r' = ar_expires_at r \<and> ar_escalate_at r' = ar_escalate_at r"
  by (cases r; cases r') (simp add: same_terms_def)

lemma sweepLocked_state:
  assumes "pg_ballots.ok db" "ap_head db i = Some r" "sweepLocked (pg_approvals env) now (ar_org_id r) i r db = Inr (st, db')"
  shows "st = swept_state now r"
    "\<exists>r'. ap_head db' i = Some r' \<and> same_terms r r' \<and> ar_state r' = st"
proof -
  have wf: "ap_wf db" using assms(1) by (simp add: pg_ballots.ok_def)
  have upd: "\<exists>r'. ap_head s' i = Some r' \<and> same_terms r r' \<and> ar_state r' = to"
    if u: "UpdateApprovalState env i (ar_org_id r) to reason False db = Inr s1" and e: "emit_on_tx env ev s1 = Inr s'"
    for to reason s1 ev s'
    using UpdateApprovalState_law [OF wf u] emit_on_tx_law(2) [OF e] assms(2)
    by (auto simp: same_terms_def)
  show "st = swept_state now r"
    using assms(3)
    by (cases "ar_state r")
      (auto simp: sweepLocked_def swept_state_def rbind_eq_Inr IsDecidable_def ApprovalIsTerminal_def split: if_splits)
  show "\<exists>r'. ap_head db' i = Some r' \<and> same_terms r r' \<and> ar_state r' = st"
    using assms(2,3) upd by (auto simp: sweepLocked_def rbind_eq_Inr split: if_splits)
qed

lemma swept_state_stable:
  assumes "same_terms r r'" "ar_state r' = swept_state now r"
  shows "sweepLocked st now org i r' s = Inr (ar_state r', s)"
  using assms(2) same_terms_deadlines [OF assms(1)]
  by (cases "ar_state r")
    (auto simp: swept_state_def sweepLocked_def IsDecidable_def ApprovalIsTerminal_def split: if_splits)

text \<open>
   A sweep applies each deadline once.  It moves an open request past its expiry to expired, an
  open one past its escalation time to escalated, and leaves every other request alone; a
  second sweep at the same instant, as an at-least-once job may do, finds nothing to do and
  writes nothing, not even an audit record.
\<close>

theorem sweep_applies_deadlines_once:
  assumes "approval_reachable db"
    and "SweepApprovalRequest (pg_approvals env) org i now db = (Inr st, db')"
  shows "\<exists>r r'. ap_head db i = Some r \<and> ap_head db' i = Some r' \<and> same_terms r r' \<and>
    ar_state r' = swept_state now r \<and> st = swept_state now r \<and>
    SweepApprovalRequest (pg_approvals env') org i now db' = (Inr st, db')"
proof -
  have ok: "ap_ok db" by (rule approval_reachable_ok [OF assms(1)])
  have org: "org \<noteq> []" using assms(2) by (auto simp: SweepApprovalRequest_def split: if_splits)
  obtain r where l: "as_lock_request (pg_approvals env) i org db = Inr r"
    and sw: "sweepLocked (pg_approvals env) now org i r db = Inr (st, db')"
    using assms(2) by (auto simp: SweepApprovalRequest_def Within_Inr rbind_eq_Inr simp del: pg_approvals_calls split: if_splits)
  note h = pg_ballots.locked [OF ap_ok_D(1) [OF ok] l]
  note s = sweepLocked_state [OF ap_ok_D(1) [OF ok] h(1)]
  obtain r' where r': "ap_head db' i = Some r'" "same_terms r r'" "ar_state r' = st" and st: "st = swept_state now r"
    using s sw h(2) by metis
  have "ap_ok db'" using ap_ok_step [OF approval_step.swept ok] assms(2) by (metis snd_conv)
  then have "ap_wf db'" by (simp add: ap_ok_def pg_ballots.ok_def)
  then have "as_lock_request (pg_approvals env') i org db' = Inr r'"
    using pg_ballots.lock r'(1) same_termsD(2) [OF r'(2)] h(2) by blast
  then have "SweepApprovalRequest (pg_approvals env') org i now db' = (Inr st, db')"
    using swept_state_stable [OF r'(2) r'(3) [unfolded st], of "pg_approvals env'" org i db'] r'(3) org
    by (simp add: SweepApprovalRequest_def Within_def del: pg_approvals_calls)
  then show ?thesis using h r' st by blast
qed

section \<open>Review\<close>

text \<open>
  A request is shown to, and can be decided after review by, only the people it names.  To
  everyone else it does not exist: reviewing or deciding it answers \<^verbatim>\<open>not found\<close>, as for an unknown
  id, and changes nothing; and whoever is shown a review is its requester or an assigned approver.
\<close>

theorem approval_review_confined:
  assumes "approval_reachable db" "org \<noteq> []" "actor \<noteq> []"
  shows "(\<forall>v db'. ReviewApproval enc (pg_approvals env) org i actor db = (Inr v, db') \<longrightarrow>
      db' = db \<and> av_request v \<in> set (approval_requests db) \<and> ar_org_id (av_request v) = org \<and>
      (ar_requested_by (av_request v) = actor \<or> actor \<in> set (ApproverSet (ar_policy (av_request v))))) \<and>
    ((\<nexists>r. r \<in> set (approval_requests db) \<and> ar_id r = i \<and> ar_org_id r = org \<and>
        (ar_requested_by r = actor \<or> actor \<in> set (ApproverSet (ar_policy r)))) \<longrightarrow>
      ReviewApproval enc (pg_approvals env) org i actor db = (Inl ErrTypeNotFound, db) \<and>
      (di_decider inp = actor \<and> di_expected_subject_hash inp \<noteq> [] \<and> is_ok (validateDecideInput org inp) \<longrightarrow>
        DecideReviewedApproval enc (pg_approvals env) clock vid org i inp db = (Inl ErrTypeNotFound, db)))"
proof -
  have wf: "ap_wf db" using approval_reachable_ok [OF assms(1)] by (simp add: ap_ok_def pg_ballots.ok_def)
  have get: "getApprovalRequest i org db =
      (case select_first (by_id_and_org i org) (approval_requests db) of None \<Rightarrow> Inl ErrTypeNotFound | Some r \<Rightarrow> Inr r)"
    by (simp add: getApprovalRequest_def)
  have shown: "db' = db \<and> av_request v \<in> set (approval_requests db) \<and> ar_org_id (av_request v) = org \<and>
      (ar_requested_by (av_request v) = actor \<or> actor \<in> set (ApproverSet (ar_policy (av_request v))))"
    if rev: "ReviewApproval enc (pg_approvals env) org i actor db = (Inr v, db')" for v db'
  proof -
    obtain r where r: "getApprovalRequest i org db = Inr r"
      using rev assms(2,3) by (cases "getApprovalRequest i org db") (simp_all add: ReviewApproval_def Within_def read_only_def)
    have vis: "approvalVisibleTo r actor"
      using rev assms(2,3) r by (cases "approvalVisibleTo r actor") (simp_all add: ReviewApproval_def Within_def read_only_def)
    then have "approvalReviewOf enc (pg_approvals env) r db = Inr v" "db' = db"
      using rev assms(2,3) r by (auto simp: ReviewApproval_def Within_Inr read_only_def rbind_eq_Inr)
    moreover from this have "av_request v = r"
      by (cases "ApprovalSubjectHash enc (ar_subject r)") (auto simp: approvalReviewOf_def rbind_eq_Inr)
    moreover have "select_first (by_id_and_org i org) (approval_requests db) = Some r" using r by (simp add: get split: option.splits)
    note select_first_Some [OF this]
    ultimately show ?thesis
      using vis by (auto simp: approvalVisibleTo_def containsString_set by_id_and_org_def)
  qed
  have hidden: "getApprovalRequest i org db = Inl ErrTypeNotFound \<or>
      (\<exists>r. getApprovalRequest i org db = Inr r \<and> \<not> approvalVisibleTo r actor)"
    if "\<nexists>r. r \<in> set (approval_requests db) \<and> ar_id r = i \<and> ar_org_id r = org \<and>
        (ar_requested_by r = actor \<or> actor \<in> set (ApproverSet (ar_policy r)))"
    using that select_first_Some [of "by_id_and_org i org" "approval_requests db"]
    by (cases "select_first (by_id_and_org i org) (approval_requests db)")
      (auto simp: get approvalVisibleTo_def containsString_set by_id_and_org_def)
  have "ReviewApproval enc (pg_approvals env) org i actor db = (Inl ErrTypeNotFound, db)"
    and "di_decider inp = actor \<and> di_expected_subject_hash inp \<noteq> [] \<and> is_ok (validateDecideInput org inp) \<Longrightarrow>
        DecideReviewedApproval enc (pg_approvals env) clock vid org i inp db = (Inl ErrTypeNotFound, db)"
    if h: "getApprovalRequest i org db = Inl ErrTypeNotFound \<or>
      (\<exists>r. getApprovalRequest i org db = Inr r \<and> \<not> approvalVisibleTo r actor)"
    using h assms(2,3)
    by (auto simp: ReviewApproval_def DecideReviewedApproval_def Within_def read_only_def split: sum.splits)
  then show ?thesis using shown hidden by blast
qed

section \<open>Listing\<close>

definition listed :: "uuid \<Rightarrow> approval_state option \<Rightarrow> approval_request \<Rightarrow> bool" where
  "listed org state r \<longleftrightarrow> ar_org_id r = org \<and> (case state of None \<Rightarrow> True | Some st \<Rightarrow> ar_state r = st)"

definition ids_in_time_order :: "approval_db \<Rightarrow> bool" where
  "ids_in_time_order db \<longleftrightarrow> (\<forall>a \<in> set (approval_requests db). \<forall>b \<in> set (approval_requests db).
     ar_id a < ar_id b \<longrightarrow> ar_created_at a \<le> ar_created_at b)"

lemma ordered_by_id:
  assumes "ids_in_time_order db" "ap_wf db"
  shows "ordered_desc (\<lambda>r. (ar_created_at r, ar_id r)) p (approval_requests db) = ordered_desc ar_id p (approval_requests db)"
proof -
  let ?xs = "filter p (approval_requests db)"
  let ?s = "sort_key ar_id ?xs"
  have dist: "distinct ?xs" "inj_on ar_id (set ?xs)"
    using ap_wf_ids [OF assms(2)] by (auto simp: distinct_map inj_on_def)
  have "sorted (map ar_id ?s)" by simp
  then have "sorted_wrt (\<lambda>a b. ar_id a \<le> ar_id b) ?s" by (simp add: sorted_wrt_map)
  then have "sorted_wrt (\<lambda>a b. (ar_created_at a, ar_id a) \<le> (ar_created_at b, ar_id b)) ?s"
  proof (rule sorted_wrt_mono_rel [rotated])
    fix a b assume ab: "a \<in> set ?s" "b \<in> set ?s" "ar_id a \<le> ar_id b"
    show "(ar_created_at a, ar_id a) \<le> (ar_created_at b, ar_id b)"
    proof (cases "ar_id a = ar_id b")
      case True
      then have "a = b" using ab(1,2) dist(2) by (auto simp: inj_on_def)
      then show ?thesis by simp
    next
      case False
      then have "ar_created_at a \<le> ar_created_at b"
        using ab assms(1) by (auto simp: ids_in_time_order_def)
      then show ?thesis using ab(3) by auto
    qed
  qed
  then have "sorted (map (\<lambda>r. (ar_created_at r, ar_id r)) ?s)" by (simp add: sorted_wrt_map)
  then have "?s = sort_key (\<lambda>r. (ar_created_at r, ar_id r)) ?xs"
    by (intro sort_slice_unique) (use dist in \<open>auto simp: inj_on_def\<close>)
  then show ?thesis by (simp add: ordered_desc_def)
qed

text \<open>
   Where ids were issued in the order the rows were created, following the page tokens of the
  approval listing returns every request of the organization in the state asked for exactly once,
  newest first, whatever the page size.
\<close>

theorem approval_pages_cover:
  assumes "approval_reachable db" "ids_in_time_order db"
  shows "walk (length (approval_requests db) + 1) (\<lambda>token. ListApprovalRequests org state requested token db) None =
    Some (ordered_desc ar_id (listed org state) (approval_requests db))"
proof -
  let ?n = "nat (if requested \<le> 0 \<or> 200 < requested then 50 else requested)"
  have wf: "ap_wf db" using approval_reachable_ok [OF assms(1)] by (simp add: ap_ok_def pg_ballots.ok_def)
  have n: "0 < ?n" by simp
  have "ListApprovalRequests org state requested token db = seek ar_id (listed org state) ?n token (approval_requests db)" for token
  proof -
    let ?due = "fetch ar_id (listed org state) ?n token (approval_requests db)"
    have due: "take (?n + 1) (ordered_desc (\<lambda>r. (ar_created_at r, ar_id r))
        (\<lambda>r. ar_org_id r = org \<and> (case state of None \<Rightarrow> True | Some st \<Rightarrow> ar_state r = st) \<and> below ar_id token r)
        (approval_requests db)) = ?due"
      unfolding ordered_by_id [OF assms(2) wf] fetch_def by (simp add: listed_def conj_assoc)
    have last: "?due ! (?n - 1) = last (take ?n ?due)" if "?n < length ?due"
      using that n by (subst last_conv_nth) (auto simp: min_def)
    show ?thesis
      unfolding ListApprovalRequests_def Let_def due seek_def using last by simp
  qed
  then have "(\<lambda>token. ListApprovalRequests org state requested token db) =
      (\<lambda>token. seek ar_id (listed org state) ?n token (approval_requests db))" by blast
  moreover have "inj_on ar_id (set (approval_requests db))" "distinct (approval_requests db)"
    using ap_wf_ids [OF wf] by (simp_all add: distinct_map)
  ultimately show ?thesis using walk_seek [OF _ _ n, of ar_id "approval_requests db"] by (simp only: less_add_one)
qed

end
