(* ===== verification/Approval_Examples.thy ===== *)
theory Approval_Examples
  imports Approval_Outcomes Job_Examples
begin

text \<open>
  A two-of-two approval that resumes a job, on which the theorems about approvals are
  instantiated; and the listing of two requests whose ids and creation times disagree.
\<close>

definition ax_env :: "time \<Rightarrow> approval_env" where
  "ax_env now = \<lparr>ap_now = now, ap_organization_exists = (\<lambda>_. True), ap_grant_exists = (\<lambda>_. False),
     ap_audit = TxAudit (\<lambda>_. True), ap_producer = Some (ex_penv, ex_env), ap_job_id = ''j9'', ap_job_seq = 1\<rparr>"

definition ax_enc :: encoders where
  "ax_enc = \<lparr>json_marshal = (\<lambda>_. Some ''{}''), json_resume = (\<lambda>p. Some (rp_approval_id p)), sha256 = (\<lambda>s. s)\<rparr>"

definition ax_input :: create_approval_input where
  "ax_input = \<lparr>ci_org_id = ''o1'', ci_resource = ''doc'', ci_action = ''drop'', ci_subject = Map.empty,
     ci_requested_by = ''a'', ci_quorum = 2,
     ci_policy = \<lparr>ApproverSet = [''b'', ''a'', ''b'', ''c''], AllowSelf = False, DecidePermission = ''p''\<rparr>,
     ci_resume = \<lparr>rr_mode = [], rr_job_kind = [], rr_payload = Map.empty, rr_queue = ''q'', rr_topic = []\<rparr>,
     ci_expires_at = Some 100, ci_escalate_at = Some 50\<rparr>"

definition ax_req :: approval_request where
  "ax_req = (new_request ''r1'' ax_input)\<lparr>ar_created_at := 1, ar_updated_at := 1\<rparr>"

definition ax_db1 :: approval_db where
  "ax_db1 = snd (CreateApprovalRequest (pg_approvals (ax_env 1)) ''r1'' ax_input no_approvals)"

definition ax_db2 :: approval_db where
  "ax_db2 = snd (Decide ax_enc (pg_approvals (ax_env 2)) 2 ''v1'' ''o1'' ''r1'' (approve_vote ''b'') ax_db1)"

definition ax_run3 :: "(store_error + decide_outcome) \<times> approval_db" where
  "ax_run3 = Decide ax_enc (pg_approvals (ax_env 3)) 3 ''v2'' ''o1'' ''r1'' (approve_vote ''c'') ax_db2"

definition ax_db3 :: approval_db where
  "ax_db3 = snd ax_run3"

lemmas ax_store = InsertApprovalRequest_def getApprovalRequest_def InsertDecision_def CountApprovals_def
  UpdateApprovalState_def ListApprovalDecisions_def emit_on_tx_def emitTx_def emitEntryTx_def
  by_id_and_org_def select_first_def rows_affected_def ax_env_def

lemmas ax_engine = CreateApprovalRequest_def validateCreate_def Let_def resolvedQuorum_def Within_def
  Decide_def validateDecideInput_def decideLocked_def decision_checks_def subject_matches_def guard_def
  IsDecidable_def window_over_def new_decision_def approve_vote_def decision_text_def

lemma ax_created:
  "CreateApprovalRequest (pg_approvals (ax_env 1)) ''r1'' ax_input no_approvals = (Inr ''r1'', ax_db1)"
  "approval_requests ax_db1 = [ax_req]" "approval_decisions ax_db1 = []" "approval_jobs ax_db1 = empty_db"
  unfolding ax_db1_def
  by (simp_all add: ax_engine ax_store ax_input_def no_approvals_def ax_req_def new_request_def)

lemma ax_req_simps [simp]:
  "ar_id ax_req = ''r1''" "ar_org_id ax_req = ''o1''" "ar_state ax_req = ApprovalPending"
  "ar_expires_at ax_req = Some 100" "ar_quorum ax_req = 2" "ar_requested_by ax_req = ''a''"
  "ar_policy ax_req = \<lparr>ApproverSet = [''b'', ''a'', ''b'', ''c''], AllowSelf = False, DecidePermission = ''p''\<rparr>"
  "ar_resume ax_req = \<lparr>rr_mode = [], rr_job_kind = [], rr_payload = Map.empty, rr_queue = ''q'', rr_topic = []\<rparr>"
  by (simp_all add: ax_req_def new_request_def ax_input_def resolvedQuorum_def)

definition ax_vote :: "uuid \<Rightarrow> string \<Rightarrow> time \<Rightarrow> approval_decision" where
  "ax_vote vid d t = (new_decision vid ax_req (approve_vote d))\<lparr>ad_decided_at := t\<rparr>"

lemma ax_voted:
  "approval_requests ax_db2 = [ax_req]" "approval_decisions ax_db2 = [ax_vote ''v1'' ''b'' 2]"
  "approval_jobs ax_db2 = empty_db"
  unfolding ax_db2_def
  by (simp_all add: ax_engine ax_store ax_created(2-4) ax_vote_def)

lemma ax_vote_simps [simp]:
  "ad_id (ax_vote vid d t) = vid" "ad_request_id (ax_vote vid d t) = ''r1''" "ad_org_id (ax_vote vid d t) = ''o1''"
  "ad_decider (ax_vote vid d t) = d" "ad_decision (ax_vote vid d t) = DecisionApprove"
  by (simp_all add: ax_vote_def new_decision_def approve_vote_def)

lemmas ax_outbox = enqueueApprovalResume_def ax_enc_def enqueue_on_tx_def resume_job_def EnqueueJob_def
  prepareJobEnqueue_def ex_penv_def ex_env_def DatabaseDirection_def enqueueScopeValues_def CanonicalOrderingKey_def
  enqueuePreparedJob_def coalesce_def insertPreparedJob_def enqueue_response_def enqueue_job_message_def
  may_enqueue_def insert_or_find_def empty_db_def

definition ax_done :: approval_request where
  "ax_done = ax_req\<lparr>ar_state := ApprovalApproved, ar_decision_reason := [], ar_decided_at := Some 3, ar_updated_at := 3\<rparr>"

lemma ax_approved:
  "map_sum (\<lambda>_. ()) do_state (fst ax_run3) = Inr ApprovalApproved"
  "approval_requests ax_db3 = [ax_done]" "approval_decisions ax_db3 = [ax_vote ''v1'' ''b'' 2, ax_vote ''v2'' ''c'' 3]"
  unfolding ax_db3_def ax_run3_def
  by (simp_all add: ax_engine ax_store ax_outbox ax_voted ax_done_def ax_vote_def [of "''v2''"])

lemma ax_ready: "producer_ready (ax_env t) db" if "approval_jobs db = empty_db"
  using that by (auto simp: producer_ready_def ax_env_def validates_budget_def ex_penv_def empty_db_def split: if_splits)

lemma ax_steps: "approval_step no_approvals ax_db1" "approval_step ax_db1 ax_db2" "approval_step ax_db2 ax_db3"
  unfolding ax_db1_def ax_db2_def ax_db3_def ax_run3_def
  by (rule approval_step.asked approval_step.decided ax_ready
      | simp add: ax_created ax_voted flip: ax_db1_def ax_db2_def)+

lemma ax_reachable:
  "approval_reachable no_approvals" "approval_reachable ax_db1" "approval_reachable ax_db2" "approval_reachable ax_db3"
proof -
  show 0: "approval_reachable no_approvals" by (simp add: approval_reachable_def)
  show 1: "approval_reachable ax_db1"
    using 0 ax_steps(1) by (auto simp: approval_reachable_def intro: rtranclp.rtrancl_into_rtrancl)
  show 2: "approval_reachable ax_db2"
    using 1 ax_steps(2) by (auto simp: approval_reachable_def intro: rtranclp.rtrancl_into_rtrancl)
  show "approval_reachable ax_db3"
    using 2 ax_steps(3) by (auto simp: approval_reachable_def intro: rtranclp.rtrancl_into_rtrancl)
qed

lemma ax_done_simps [simp]:
  "ar_id ax_done = ''r1''" "ar_state ax_done = ApprovalApproved" "ar_quorum ax_done = 2"
  "ar_resume ax_done = ar_resume ax_req"
  by (simp_all add: ax_done_def)

section \<open>Witnesses\<close>

theorem approval_quorum_exact_witness:
  "distinct (map ad_decider [ax_vote ''v1'' ''b'' 2, ax_vote ''v2'' ''c'' 3]) \<and>
   entitled ax_done ''b'' \<and> entitled ax_done ''c'' \<and> ar_state ax_done = ApprovalApproved"
  using approval_quorum_exact [OF ax_reachable(4), of ax_done, OF _ refl] by (simp add: ax_approved)

theorem approval_settled_is_final_witness:
  "\<exists>r' \<in> set (approval_requests ax_db3). same_terms ax_req r' \<and> ap_votes ax_db2 ''r1'' \<noteq> []"
proof -
  have "approval_step\<^sup>*\<^sup>* ax_db2 ax_db3" using ax_steps(3) by blast
  from approval_settled_is_final [OF ax_reachable(3) this, of ax_req]
  show ?thesis by (simp add: ax_voted ax_approved ap_votes_def)
qed


theorem decide_refines_ballot_witness:
  "\<exists>b. ballot_of ax_db2 ''r1'' = Some b \<and> ballot_of ax_db3 ''r1'' = Some (cast_vote DecisionApprove ''c'' b)"
proof -
  obtain out where run: "Decide ax_enc (pg_approvals (ax_env 3)) 3 ''v2'' ''o1'' ''r1'' (approve_vote ''c'') ax_db2 = (Inr out, ax_db3)"
    using ax_approved(1) by (cases "fst ax_run3") (auto simp: ax_db3_def ax_run3_def prod_eq_iff)
  from decide_refines_ballot [OF ax_reachable(3) run] show ?thesis by (auto simp: approve_vote_def)
qed

lemma ax_resume: "resume_accepted ax_enc (ax_env t) empty_db ''r1'' ''o1'' (ci_resume ax_input)"
  by (auto simp: resume_accepted_def ax_outbox ax_env_def ax_input_def select_first_def split: prod.splits)

theorem approval_attainable_witness:
  "\<exists>voters. set voters \<subseteq> {''b'', ''a'', ''c''} \<and> length voters = 2 \<and>
     (\<exists>r. ap_head (decide_each ax_enc (pg_approvals (ax_env 1)) 7 ''o1'' ''r1'' (zip voters [''v1'', ''v2'']) ax_db1) ''r1'' = Some r \<and>
        ar_state r = ApprovalApproved)"
proof -
  have "audit_accepts (ax_env 1)" by (simp add: audit_accepts_def ax_env_def emitTx_def emitEntryTx_def)
  moreover have "resume_accepted ax_enc (ax_env 1) (approval_jobs no_approvals) ''r1'' (ci_org_id ax_input) (ci_resume ax_input)"
    using ax_resume by (simp add: no_approvals_def ax_input_def)
  ultimately obtain voters where v: "set voters \<subseteq> set (ApproverSet (ci_policy ax_input))"
    "int (length voters) = resolvedQuorum (ci_quorum ax_input)"
    "\<forall>vids. length vids = length voters \<and> distinct vids \<and> set vids \<inter> ad_id ` set (approval_decisions no_approvals) = {} \<longrightarrow>
      (\<exists>r. ap_head (decide_each ax_enc (pg_approvals (ax_env 1)) 7 (ci_org_id ax_input) ''r1'' (zip voters vids) ax_db1) ''r1'' = Some r \<and>
         ar_state r = ApprovalApproved)"
    using approval_attainable [OF ax_reachable(1) ax_created(1), of 7 ax_enc] by (auto simp: ax_input_def window_over_def)
  have "length voters = 2" using v(2) by (simp add: ax_input_def resolvedQuorum_def)
  then show ?thesis
    using v(1,3) by (intro exI [of _ voters]) (auto simp: ax_input_def no_approvals_def dest!: spec [of _ "[''v1'', ''v2'']"])
qed

theorem sweep_applies_deadlines_once_witness:
  "swept_state 60 ax_req = ApprovalEscalated \<and>
   (\<exists>db'. SweepApprovalRequest (pg_approvals (ax_env 60)) ''o1'' ''r1'' 60 ax_db1 = (Inr ApprovalEscalated, db') \<and>
      SweepApprovalRequest (pg_approvals (ax_env 61)) ''o1'' ''r1'' 60 db' = (Inr ApprovalEscalated, db'))"
proof -
  have "ar_escalate_at ax_req = Some 50" by (simp add: ax_req_def new_request_def ax_input_def)
  then obtain db' where "SweepApprovalRequest (pg_approvals (ax_env 60)) ''o1'' ''r1'' 60 ax_db1 = (Inr ApprovalEscalated, db')"
    by (simp add: SweepApprovalRequest_def sweepLocked_def ax_engine ax_store ax_created)
  moreover from sweep_applies_deadlines_once [OF ax_reachable(2) this, of "ax_env 61"]
  have "SweepApprovalRequest (pg_approvals (ax_env 61)) ''o1'' ''r1'' 60 db' = (Inr ApprovalEscalated, db')" by blast
  ultimately show ?thesis
    using \<open>ar_escalate_at ax_req = Some 50\<close> by (simp add: swept_state_def ApprovalIsTerminal_def window_over_def)
qed

theorem approval_review_confined_witness:
  "ReviewApproval ax_enc (pg_approvals (ax_env 9)) ''o1'' ''r1'' ''mallory'' ax_db1 = (Inl ErrTypeNotFound, ax_db1)"
  using approval_review_confined [OF ax_reachable(2), of "''o1''" "''mallory''" ax_enc "ax_env 9" "''r1''"]
  by (simp add: ax_created)

theorem approval_pages_cover_witness:
  "walk 2 (\<lambda>token. ListApprovalRequests ''o1'' None 1 token ax_db1) None = Some [ax_req]"
  using approval_pages_cover [OF ax_reachable(2), of "''o1''" None 1]
  by (simp add: numeral_2_eq_2 ax_created ids_in_time_order_def ordered_desc_def listed_def)

section \<open>Ids out of time order\<close>

text \<open>
  Two requests created one after the other, the second under the smaller id: asked for pages of
  one, the listing returns the newer request with its id as the token, and the older one, whose
  id is above the token, is on no page.
\<close>

definition ax_later :: approval_db where
  "ax_later = snd (CreateApprovalRequest (pg_approvals (ax_env 5)) ''r0'' ax_input ax_db1)"

lemma ax_later_reachable: "approval_reachable ax_later"
proof -
  have "approval_step ax_db1 ax_later" unfolding ax_later_def by (rule approval_step.asked)
  then show ?thesis using ax_reachable(2) by (auto simp: approval_reachable_def intro: rtranclp.rtrancl_into_rtrancl)
qed

lemma approval_page_skips_request:
  "map_option (map ar_id) (walk 3 (\<lambda>token. ListApprovalRequests ''o1'' None 1 token ax_later) None) = Some [''r0'']"
  "ar_id ` set (approval_requests ax_later) = {''r0'', ''r1''}"
proof -
  have rows: "approval_requests ax_later =
      [ax_req, (new_request ''r0'' ax_input)\<lparr>ar_created_at := 5, ar_updated_at := 5\<rparr>]"
    unfolding ax_later_def
    by (simp add: ax_engine ax_store ax_input_def ax_created new_request_def)
  then show "ar_id ` set (approval_requests ax_later) = {''r0'', ''r1''}" by (auto simp: new_request_def)
  show "map_option (map ar_id) (walk 3 (\<lambda>token. ListApprovalRequests ''o1'' None 1 token ax_later) None) = Some [''r0'']"
    by (simp add: numeral_3_eq_3 ListApprovalRequests_def Let_def rows ordered_desc_def below_def ax_req_def new_request_def
        ax_input_def less_eq_char_def less_char_def)
qed

end
