(* ===== verification/Delegation.thy ===== *)
theory Delegation
  imports Service_Core
begin

text \<open>
  \<^verbatim>\<open>pkg/business/delegation_grants.go\<close> and \<^verbatim>\<open>pkg/infra/postgres_delegation_grants.go\<close>: an actor asks
  for authority, a grantor decides, and pattern grants approve a class of requests in advance.
  \<^verbatim>\<open>RequestDelegation\<close> runs up to three transactions; \<^verbatim>\<open>others k\<close> is what the rest of the system
  commits between its \<^verbatim>\<open>k\<close>-th and its next one.  SHA-256 is an argument; a resource, grantor, reason or
  token that is NULL in the table is the empty text, as every query reads it.
\<close>

section \<open>Types\<close>

datatype grant_status =
    GrantStatusPending
  | GrantStatusApproved
  | GrantStatusDenied
  | GrantStatusExpired
  | GrantStatusCancelled
  | GrantStatusActive

datatype grant_kind = GrantKindOneShot | GrantKindPattern

record delegation_grant =
  dg_id :: uuid
  dg_org_id :: uuid
  dg_actor :: uuid
  dg_grantor :: uuid
  dg_action :: string
  dg_resource :: string
  dg_resource_id :: string
  dg_justification :: string
  dg_context :: json_object
  dg_risk_level :: string
  dg_kind :: grant_kind
  dg_status :: grant_status
  dg_created_at :: time
  dg_decided_at :: "time option"
  dg_reason :: string
  dg_expires_at :: time
  dg_action_pattern :: string
  dg_resource_pattern :: string
  dg_max_uses :: "nat option"
  dg_use_count :: nat
  dg_minted_token_id :: string
  dg_request_hash :: "string option"

definition GrantIsTerminal :: "delegation_grant \<Rightarrow> bool" where
  "GrantIsTerminal g =
     (case dg_status g of
        GrantStatusApproved \<Rightarrow> True | GrantStatusDenied \<Rightarrow> True | GrantStatusExpired \<Rightarrow> True
      | GrantStatusCancelled \<Rightarrow> True | _ \<Rightarrow> False)"

record request_input =
  ri_org_id :: uuid
  ri_actor :: uuid
  ri_action :: string
  ri_resource :: string
  ri_resource_id :: string
  ri_justification :: string
  ri_context :: json_object
  ri_risk_level :: string
  ri_timeout :: duration
  ri_grantor :: string
  ri_request_hash :: string

definition risk_levels :: "string list" where
  "risk_levels = [''low'', ''medium'', ''high'', ''critical'']"

definition ValidateRequest :: "request_input \<Rightarrow> store_error + unit" where
  "ValidateRequest inp =
     (if ri_org_id inp = [] then Inl ErrPlain
      else if ri_actor inp = [] then Inl ErrPlain
      else if ri_action inp = [] then Inl ErrPlain
      else if TrimSpace (ri_justification inp) = [] then Inl ErrPlain
      else if ri_timeout inp \<le> 0 then Inl ErrPlain
      else if ri_risk_level inp = [] \<or> ri_risk_level inp \<in> set risk_levels then Inr ()
      else Inl ErrPlain)"

definition ComputeRequestHash :: "(string \<Rightarrow> string) \<Rightarrow> request_input \<Rightarrow> string" where
  "ComputeRequestHash sha inp =
     hex_EncodeToString (sha
       (ri_org_id inp @ [CHR 0x00] @ ri_actor inp @ [CHR 0x00] @ ri_action inp @ [CHR 0x00] @
        ri_resource inp @ [CHR 0x00] @ TrimSpace (ri_justification inp)))"

definition request_identity :: "(string \<Rightarrow> string) \<Rightarrow> request_input \<Rightarrow> string" where
  "request_identity sha inp =
     (if ri_request_hash inp = [] then ComputeRequestHash sha inp else ri_request_hash inp)"

section \<open>Store\<close>

record delegation_db =
  delegation_grants :: "delegation_grant list"
  delegation_audit :: "audit_entry list"

text \<open>How the transaction itself ends: it may fail to begin, or to commit what its function did.\<close>

datatype tx_outcome = Commits | BeginFails | CommitFails

record delegation_env =
  dn_tx :: tx_outcome
  dn_now :: time
  dn_new_id :: uuid
  dn_organization_exists :: "uuid \<Rightarrow> bool"
  dn_principal_exists :: "uuid \<Rightarrow> bool"
  dn_marshals :: "json_object \<Rightarrow> bool"
  dn_query_ok :: bool
  dn_audit :: audit_emitter

definition grant_key :: "uuid \<Rightarrow> uuid \<Rightarrow> delegation_grant \<Rightarrow> bool" where
  "grant_key i org g \<longleftrightarrow> dg_id g = i \<and> dg_org_id g = org"

definition GetDelegationGrant :: "uuid \<Rightarrow> uuid \<Rightarrow> delegation_db \<Rightarrow> store_error + delegation_grant" where
  "GetDelegationGrant i org db =
     (case select_first (grant_key i org) (delegation_grants db) of
        None \<Rightarrow> Inl ErrTypeNotFound
      | Some g \<Rightarrow> Inr g)"

definition same_request :: "uuid \<Rightarrow> string \<Rightarrow> delegation_grant \<Rightarrow> bool" where
  "same_request org hash g \<longleftrightarrow> dg_org_id g = org \<and> dg_request_hash g = Some hash"

text \<open>
  \<^verbatim>\<open>INSERT .. ON CONFLICT (org_id, request_hash) DO UPDATE SET id = id RETURNING id\<close>: the row that
  holds the identity answers, unchanged, and otherwise the new row is added, subject to the
  table's constraints.
\<close>

definition insert_grant :: "delegation_env \<Rightarrow> delegation_grant \<Rightarrow> delegation_db \<Rightarrow> store_error + uuid \<times> delegation_db" where
  "insert_grant env g db =
     (if (\<forall>c \<in> set (dg_justification g). c = CHR '' '') \<or> dg_risk_level g \<notin> set risk_levels then Inl ErrConstraint
      else case select_first (same_request (dg_org_id g) (the (dg_request_hash g))) (delegation_grants db) of
        Some old \<Rightarrow> Inr (dg_id old, db)
      | None \<Rightarrow>
          if (\<exists>old \<in> set (delegation_grants db). dg_id old = dg_id g) \<or>
             \<not> dn_organization_exists env (dg_org_id g) \<or> \<not> dn_principal_exists env (dg_actor g) \<or>
             (dg_grantor g \<noteq> [] \<and> \<not> dn_principal_exists env (dg_grantor g))
          then Inl ErrConstraint
          else Inr (dg_id g, db\<lparr>delegation_grants := delegation_grants db @ [g]\<rparr>))"

definition requested_grant :: "delegation_env \<Rightarrow> request_input \<Rightarrow> string \<Rightarrow> time \<Rightarrow> delegation_grant" where
  "requested_grant env inp hash expires =
     \<lparr>dg_id = dn_new_id env, dg_org_id = ri_org_id inp, dg_actor = ri_actor inp, dg_grantor = [],
      dg_action = ri_action inp, dg_resource = ri_resource inp, dg_resource_id = ri_resource_id inp,
      dg_justification = ri_justification inp, dg_context = ri_context inp,
      dg_risk_level = (if ri_risk_level inp = [] then ''low'' else ri_risk_level inp),
      dg_kind = GrantKindOneShot, dg_status = GrantStatusPending, dg_created_at = dn_now env,
      dg_decided_at = None, dg_reason = [], dg_expires_at = expires,
      dg_action_pattern = [], dg_resource_pattern = [], dg_max_uses = None, dg_use_count = 0,
      dg_minted_token_id = [], dg_request_hash = Some hash\<rparr>"

definition Insert :: "delegation_env \<Rightarrow> request_input \<Rightarrow> string \<Rightarrow> time \<Rightarrow> delegation_db \<Rightarrow>
   store_error + uuid \<times> delegation_db" where
  "Insert env inp hash expires db =
     (if ri_context inp \<noteq> Map.empty \<and> \<not> dn_marshals env (ri_context inp) then Inl ErrPlain
      else insert_grant env (requested_grant env inp hash expires) db)"

text \<open>The JSON text of an id, which has no character to escape.\<close>

definition json_id :: "uuid \<Rightarrow> string" where
  "json_id i = CHR 0x22 # i @ [CHR 0x22]"

definition caveated_context :: "request_input \<Rightarrow> delegation_grant \<Rightarrow> json_object" where
  "caveated_context inp viaPattern =
     (ri_context inp)(''via_pattern'' \<mapsto> json_id (dg_id viaPattern), ''pattern_grantor'' \<mapsto> json_id (dg_grantor viaPattern))"

definition InsertAutoApproved :: "delegation_env \<Rightarrow> request_input \<Rightarrow> string \<Rightarrow> time \<Rightarrow> delegation_grant \<Rightarrow>
   delegation_db \<Rightarrow> store_error + uuid \<times> delegation_db" where
  "InsertAutoApproved env inp hash expires viaPattern db =
     (if \<not> dn_marshals env (caveated_context inp viaPattern) then Inl ErrPlain
      else if dg_grantor viaPattern = [] then Inl ErrConstraint
      else insert_grant env
        ((requested_grant env inp hash expires)\<lparr>dg_context := caveated_context inp viaPattern,
           dg_status := GrantStatusApproved, dg_grantor := dg_grantor viaPattern,
           dg_decided_at := Some (dn_now env)\<rparr>) db)"

definition decidable_grant :: "uuid \<Rightarrow> uuid \<Rightarrow> delegation_grant \<Rightarrow> bool" where
  "decidable_grant i org g \<longleftrightarrow> grant_key i org g \<and> dg_status g = GrantStatusPending"

definition decided_grant :: "delegation_env \<Rightarrow> uuid \<Rightarrow> grant_status \<Rightarrow> string \<Rightarrow> delegation_grant \<Rightarrow> delegation_grant" where
  "decided_grant env grantor status reason g =
     g\<lparr>dg_status := status, dg_reason := reason, dg_decided_at := Some (dn_now env), dg_grantor := grantor\<rparr>"

definition DecideGrant :: "delegation_env \<Rightarrow> uuid \<Rightarrow> uuid \<Rightarrow> uuid \<Rightarrow> grant_status \<Rightarrow> string \<Rightarrow> delegation_db \<Rightarrow>
   store_error + delegation_grant \<times> delegation_db" where
  "DecideGrant env i org grantor status reason db =
     (case select_first (decidable_grant i org) (delegation_grants db) of
        Some g \<Rightarrow>
          if \<not> dn_principal_exists env grantor then Inl ErrConstraint
          else Inr (decided_grant env grantor status reason g,
            db\<lparr>delegation_grants := update_where (decidable_grant i org)
              (decided_grant env grantor status reason) (delegation_grants db)\<rparr>)
      | None \<Rightarrow>
          rbind (GetDelegationGrant i org db) (\<lambda>existing.
          if GrantIsTerminal existing then Inl ErrTypeConflict else Inl ErrPlain))"

definition SetMintedTokenRow :: "uuid \<Rightarrow> uuid \<Rightarrow> string \<Rightarrow> delegation_db \<Rightarrow> store_error + delegation_db" where
  "SetMintedTokenRow i org token db =
     (if rows_affected (grant_key i org) (delegation_grants db) = 0 then Inl ErrTypeNotFound
      else Inr (db\<lparr>delegation_grants := update_where (grant_key i org)
        (\<lambda>g. g\<lparr>dg_minted_token_id := token\<rparr>) (delegation_grants db)\<rparr>))"

definition globMatchPattern :: "string \<Rightarrow> string \<Rightarrow> bool" where
  "globMatchPattern pattern s =
     (if pattern = [] \<or> pattern = ''*'' then True
      else if pattern = s then True
      else if length pattern > 0 \<and> pattern ! (length pattern - 1) = CHR ''*'' then
        (let prefix = take (length pattern - 1) pattern
         in length s \<ge> length prefix \<and> take (length prefix) s = prefix)
      else False)"

definition pattern_candidates :: "delegation_env \<Rightarrow> uuid \<Rightarrow> uuid \<Rightarrow> delegation_db \<Rightarrow> delegation_grant list" where
  "pattern_candidates env org actor db =
     select_ordered (\<lambda>g. - dg_created_at g)
       (\<lambda>g. dg_org_id g = org \<and> dg_actor g = actor \<and> dg_kind g = GrantKindPattern \<and>
            dg_status g = GrantStatusActive \<and> dn_now env < dg_expires_at g) 50 (delegation_grants db)"

definition MatchPattern :: "delegation_env \<Rightarrow> uuid \<Rightarrow> uuid \<Rightarrow> string \<Rightarrow> string \<Rightarrow> delegation_db \<Rightarrow>
   store_error + delegation_grant option" where
  "MatchPattern env org actor action resource db =
     (if \<not> dn_query_ok env then Inl ErrPlain
      else Inr (select_first
        (\<lambda>g. globMatchPattern (dg_action_pattern g) action \<and> globMatchPattern (dg_resource_pattern g) resource)
        (pattern_candidates env org actor db)))"

definition usable_pattern :: "uuid \<Rightarrow> uuid \<Rightarrow> delegation_grant \<Rightarrow> bool" where
  "usable_pattern i org g \<longleftrightarrow>
     grant_key i org g \<and> dg_kind g = GrantKindPattern \<and> dg_status g = GrantStatusActive \<and>
     (case dg_max_uses g of None \<Rightarrow> True | Some m \<Rightarrow> dg_use_count g < m)"

definition use_pattern :: "delegation_grant \<Rightarrow> delegation_grant" where
  "use_pattern g = g\<lparr>dg_use_count := dg_use_count g + 1\<rparr>"

definition IncrementPatternUse :: "uuid \<Rightarrow> uuid \<Rightarrow> delegation_db \<Rightarrow> store_error + delegation_grant \<times> delegation_db" where
  "IncrementPatternUse i org db =
     (case select_first (usable_pattern i org) (delegation_grants db) of
        None \<Rightarrow> Inl ErrTypeConflict
      | Some g \<Rightarrow>
          if 2 ^ 31 \<le> dg_use_count g + 1 then Inl ErrConstraint
          else Inr (use_pattern g,
            db\<lparr>delegation_grants := update_where (usable_pattern i org) use_pattern (delegation_grants db)\<rparr>))"

definition risk_rank :: "string \<Rightarrow> nat" where
  "risk_rank risk =
     (if risk = ''critical'' then 0 else if risk = ''high'' then 1 else if risk = ''medium'' then 2 else 3)"

definition ListPending :: "uuid \<Rightarrow> nat \<Rightarrow> uuid option \<Rightarrow> delegation_db \<Rightarrow> delegation_grant list \<times> uuid option" where
  "ListPending org pageSize token db =
     (let grants = select_ordered (\<lambda>g. (risk_rank (dg_risk_level g), - dg_created_at g))
            (\<lambda>g. dg_org_id g = org \<and> dg_status g = GrantStatusPending \<and>
                 (case token of None \<Rightarrow> True | Some c \<Rightarrow> dg_id g < c)) (pageSize + 1) (delegation_grants db)
      in if pageSize < length grants then (take pageSize grants, Some (dg_id (grants ! (pageSize - 1))))
         else (grants, None))"

section \<open>Service\<close>

definition delegation_event :: "string \<Rightarrow> string \<Rightarrow> string \<Rightarrow> uuid \<Rightarrow> uuid \<Rightarrow> audit_entry" where
  "delegation_event actor actor_type event i org =
     \<lparr>ae_actor_id = actor, ae_actor_type = actor_type, ae_event_type = event,
      ae_resource = ''delegation_grant'', ae_resource_id = i, ae_org_id = org, ae_payload = []\<rparr>"

definition emit_delegation :: "delegation_env \<Rightarrow> audit_entry \<Rightarrow> delegation_db \<Rightarrow> store_error + delegation_db" where
  "emit_delegation env entry db =
     rbind (emitTx (dn_audit env) entry (delegation_audit db)) (\<lambda>trail. Inr (db\<lparr>delegation_audit := trail\<rparr>))"

definition within_tx :: "delegation_env \<Rightarrow> ('s \<Rightarrow> store_error + 'a \<times> 's) \<Rightarrow> 's \<Rightarrow> (store_error + 'a) \<times> 's" where
  "within_tx env fn s = (if dn_tx env = Commits then Within fn s
     else (case dn_tx env of CommitFails \<Rightarrow> (case fn s of Inl e \<Rightarrow> (Inl e, s) | Inr _ \<Rightarrow> (Inl ErrPlain, s))
           | _ \<Rightarrow> (Inl ErrPlain, s)))"

text \<open>
  The transaction that spends a use of the pattern.  The caller drops the transaction's own error
  and looks only at the one its function stored, \<^verbatim>\<open>incErr\<close>: nil also when the function never ran.
\<close>

definition spend_use :: "delegation_env \<Rightarrow> uuid \<Rightarrow> uuid \<Rightarrow> delegation_db \<Rightarrow> (store_error + unit) \<times> delegation_db" where
  "spend_use env i org db =
     (case dn_tx env of
        BeginFails \<Rightarrow> (Inr (), db)
      | CommitFails \<Rightarrow> (case IncrementPatternUse i org db of Inl e \<Rightarrow> (Inl e, db) | Inr _ \<Rightarrow> (Inr (), db))
      | Commits \<Rightarrow> (case IncrementPatternUse i org db of Inl e \<Rightarrow> (Inl e, db) | Inr (_, db') \<Rightarrow> (Inr (), db')))"

text \<open>The two transactions that file a request: for a person to decide, or as approved by a pattern.\<close>

definition file_request :: "delegation_env \<Rightarrow> request_input \<Rightarrow> string \<Rightarrow> time \<Rightarrow> delegation_db \<Rightarrow>
   (store_error + uuid) \<times> delegation_db" where
  "file_request env inp hash expires =
     within_tx env (\<lambda>s. rbind (Insert env inp hash expires s) (\<lambda>(i, s).
       rbind (emit_delegation env
         (delegation_event (ri_actor inp) ''agent'' ''saas.delegation.requested'' i (ri_org_id inp)) s) (\<lambda>s.
       Inr (i, s))))"

definition file_auto_approved :: "delegation_env \<Rightarrow> request_input \<Rightarrow> string \<Rightarrow> time \<Rightarrow> delegation_grant \<Rightarrow> delegation_db \<Rightarrow>
   (store_error + uuid) \<times> delegation_db" where
  "file_auto_approved env inp hash expires pattern =
     within_tx env (\<lambda>s. rbind (InsertAutoApproved env inp hash expires pattern s) (\<lambda>(i, s).
       rbind (emit_delegation env
         (delegation_event (ri_actor inp) ''agent'' ''saas.delegation.auto_approved'' i (ri_org_id inp)) s) (\<lambda>s.
       Inr (i, s))))"

definition RequestDelegation ::
  "(string \<Rightarrow> string) \<Rightarrow> (nat \<Rightarrow> delegation_env) \<Rightarrow> time \<Rightarrow> (nat \<Rightarrow> delegation_db \<Rightarrow> delegation_db) \<Rightarrow> request_input \<Rightarrow>
   delegation_db \<Rightarrow> (store_error + uuid) \<times> delegation_db" where
  "RequestDelegation sha envs clock others inp db =
     (case ValidateRequest inp of
        Inl e \<Rightarrow> (Inl e, db)
      | Inr _ \<Rightarrow>
          let hash = request_identity sha inp;
              expires = clock + ri_timeout inp;
              human = file_request (envs 3) inp hash expires
          in case MatchPattern (envs 0) (ri_org_id inp) (ri_actor inp) (ri_action inp) (ri_resource inp) db of
               Inr (Some pattern) \<Rightarrow>
                 (case spend_use (envs 1) (dg_id pattern) (ri_org_id inp) (others 0 db) of
                    (Inr _, db1) \<Rightarrow> file_auto_approved (envs 2) inp hash expires pattern (others 1 db1)
                  | (Inl _, db1) \<Rightarrow> human (others 1 db1))
             | _ \<Rightarrow> human (others 0 db))"

definition DecideDelegation ::
  "delegation_env \<Rightarrow> uuid \<Rightarrow> uuid \<Rightarrow> uuid \<Rightarrow> grant_status \<Rightarrow> string \<Rightarrow> delegation_db \<Rightarrow>
   (store_error + delegation_grant) \<times> delegation_db" where
  "DecideDelegation env i org grantor decision reason db =
     (if i = [] then (Inl ErrPlain, db)
      else if grantor = [] then (Inl ErrPlain, db)
      else if decision \<noteq> GrantStatusApproved \<and> decision \<noteq> GrantStatusDenied then (Inl ErrPlain, db)
      else if decision = GrantStatusDenied \<and> TrimSpace reason = [] then (Inl ErrPlain, db)
      else
        let event = (if decision = GrantStatusDenied then ''saas.delegation.denied'' else ''saas.delegation.approved'')
        in within_tx env (\<lambda>s. rbind (DecideGrant env i org grantor decision reason s) (\<lambda>(g, s).
             rbind (emit_delegation env (delegation_event grantor ''user'' event (dg_id g) (dg_org_id g)) s) (\<lambda>s.
             Inr (g, s)))) db)"

definition SetMintedToken :: "delegation_env \<Rightarrow> uuid \<Rightarrow> uuid \<Rightarrow> string \<Rightarrow> delegation_db \<Rightarrow> (store_error + unit) \<times> delegation_db" where
  "SetMintedToken env i org token db =
     (if token = [] then (Inl ErrPlain, db)
      else within_tx env (\<lambda>s. rbind (SetMintedTokenRow i org token s) (\<lambda>s. Inr ((), s))) db)"

definition GetDelegation :: "uuid \<Rightarrow> uuid \<Rightarrow> delegation_db \<Rightarrow> store_error + delegation_grant" where
  "GetDelegation i org db = (if i = [] then Inl ErrPlain else GetDelegationGrant i org db)"

definition ListPendingDelegations :: "uuid \<Rightarrow> int \<Rightarrow> uuid option \<Rightarrow> delegation_db \<Rightarrow>
   store_error + delegation_grant list \<times> uuid option" where
  "ListPendingDelegations org requested token db =
     (if org = [] then Inl ErrPlain
      else let pageSize = (if requested \<le> 0 then 50 else requested);
               pageSize = (if 200 < pageSize then 200 else pageSize)
           in Inr (ListPending org (nat pageSize) token db))"

section \<open>Waiting for a decision\<close>

record decision_event =
  de_grant_id :: uuid
  de_status :: grant_status
  de_decided_at :: "time option"
  de_reason :: string
  de_grantor_id :: uuid
  de_token_set :: bool

text \<open>
  The event channel holds four events; \<^verbatim>\<open>taken\<close> is how many the consumer has received so far, and
  an event that finds the channel full is dropped.
\<close>

definition delegation_decision :: "delegation_grant \<Rightarrow> decision_event" where
  "delegation_decision g =
     \<lparr>de_grant_id = dg_id g, de_status = dg_status g, de_decided_at = dg_decided_at g, de_reason = dg_reason g,
      de_grantor_id = dg_grantor g, de_token_set = (dg_minted_token_id g \<noteq> [])\<rparr>"

definition emitDelegationEvent :: "nat \<Rightarrow> delegation_grant \<Rightarrow> decision_event list \<Rightarrow> decision_event list" where
  "emitDelegationEvent taken g sent =
     (if length sent < taken + 4 then sent @ [delegation_decision g] else sent)"

text \<open>The update trigger of the table: it notifies the grant's channel when the status changed.\<close>

definition notify_decided :: "delegation_grant \<Rightarrow> delegation_grant \<Rightarrow> bool" where
  "notify_decided old new \<longleftrightarrow> dg_status new \<noteq> dg_status old"

text \<open>
  The goroutine of \<^verbatim>\<open>Subscribe\<close>: its first read after LISTEN is the snapshot, then one read per
  notification delivered; a read that fails is \<^verbatim>\<open>None\<close>.  The events it sends, in order.
\<close>

fun on_notifications :: "decision_event list \<Rightarrow> (nat \<times> delegation_grant option) list \<Rightarrow> decision_event list" where
  "on_notifications sent [] = sent"
| "on_notifications sent ((taken, None) # reads) = on_notifications sent reads"
| "on_notifications sent ((taken, Some latest) # reads) =
     (let sent = emitDelegationEvent taken latest sent
      in if GrantIsTerminal latest then sent else on_notifications sent reads)"

definition Subscribe :: "delegation_grant option \<Rightarrow> (nat \<times> delegation_grant option) list \<Rightarrow> decision_event list" where
  "Subscribe snapshot reads =
     (case snapshot of
        None \<Rightarrow> []
      | Some g \<Rightarrow> if GrantIsTerminal g then emitDelegationEvent 0 g [] else on_notifications [] reads)"

definition WaitForDelegation :: "uuid \<Rightarrow> delegation_grant option \<Rightarrow> (nat \<times> delegation_grant option) list \<Rightarrow>
   store_error + decision_event list" where
  "WaitForDelegation i snapshot reads = (if i = [] then Inl ErrPlain else Inr (Subscribe snapshot reads))"

end
