(* ===== verification/Delegation_Properties.thy ===== *)
theory Delegation_Properties
  imports Delegation
begin

text \<open>
  Runs of the delegation service.  A request that matches a pattern spends one use of it in a first
  transaction and files the approved grant in a second; the credits of a run are the uses spent by
  requests still between the two, so every interleaving of requests, decisions and crashes is a
  path of \<^verbatim>\<open>delegation_step\<close>.
\<close>

section \<open>Rows and identities\<close>

definition identity_clash :: "delegation_grant \<Rightarrow> delegation_grant \<Rightarrow> bool" where
  "identity_clash a b \<longleftrightarrow>
     dg_id a = dg_id b \<or>
     (dg_org_id a = dg_org_id b \<and> dg_request_hash a = dg_request_hash b \<and> dg_request_hash a \<noteq> None)"

text \<open>The primary key and the unique index of the table, and that no pattern is overdrawn.\<close>

definition grants_wf :: "delegation_grant list \<Rightarrow> bool" where
  "grants_wf gs \<longleftrightarrow>
     sorted_wrt (\<lambda>a b. \<not> identity_clash a b) gs \<and>
     (\<forall>g \<in> set gs. \<forall>m. dg_max_uses g = Some m \<longrightarrow> dg_use_count g \<le> m)"

lemma identity_clash_sym: "identity_clash a b \<Longrightarrow> identity_clash b a"
  unfolding identity_clash_def by metis

lemma wf_unique:
  assumes "grants_wf gs" "a \<in> set gs" "b \<in> set gs" "identity_clash a b"
  shows "a = b"
  using assms identity_clash_sym unfolding grants_wf_def
  by (metis in_set_conv_nth linorder_neqE_nat sorted_wrt_nth_less)

lemma wf_first:
  assumes "grants_wf gs" "g \<in> set gs" "p g" "\<And>h. p h \<Longrightarrow> identity_clash h g"
  shows "select_first p gs = Some g"
proof -
  obtain h where h: "select_first p gs = Some h"
    using assms(2,3) by (cases "select_first p gs") (auto simp: select_first_None)
  then show ?thesis using wf_unique [OF assms(1)] select_first_Some [OF h] assms(2,4) by blast
qed

section \<open>What one transaction does to the grants\<close>

definition grant_evolves :: "delegation_grant \<Rightarrow> delegation_grant \<Rightarrow> bool" where
  "grant_evolves g g' \<longleftrightarrow>
     (dg_id g', dg_org_id g', dg_request_hash g', dg_kind g', dg_max_uses g', dg_context g') =
       (dg_id g, dg_org_id g, dg_request_hash g, dg_kind g, dg_max_uses g, dg_context g) \<and>
     (dg_actor g', dg_action g', dg_resource g', dg_resource_id g') =
       (dg_actor g, dg_action g, dg_resource g, dg_resource_id g) \<and>
     dg_use_count g \<le> dg_use_count g' \<and>
     (\<forall>m. dg_max_uses g = Some m \<longrightarrow> dg_use_count g \<le> m \<longrightarrow> dg_use_count g' \<le> m) \<and>
     (dg_status g = GrantStatusPending \<longrightarrow>
        dg_status g' \<in> {GrantStatusPending, GrantStatusApproved, GrantStatusDenied}) \<and>
     (dg_status g \<noteq> GrantStatusPending \<longrightarrow>
        (dg_status g', dg_reason g', dg_decided_at g', dg_grantor g') =
          (dg_status g, dg_reason g, dg_decided_at g, dg_grantor g))"

lemma grant_evolves_refl [simp]: "grant_evolves g g"
  by (simp add: grant_evolves_def)

lemma grant_evolvesD:
  assumes "grant_evolves g g'"
  shows "dg_id g' = dg_id g" "dg_org_id g' = dg_org_id g" "dg_request_hash g' = dg_request_hash g"
    "dg_context g' = dg_context g" "dg_use_count g \<le> dg_use_count g'"
    "dg_status g \<noteq> GrantStatusPending \<Longrightarrow> dg_status g' = dg_status g \<and> dg_reason g' = dg_reason g \<and>
       dg_decided_at g' = dg_decided_at g \<and> dg_grantor g' = dg_grantor g"
  using assms by (simp_all add: grant_evolves_def)

lemma grant_evolves_status:
  "grant_evolves g g' \<Longrightarrow> dg_status g = GrantStatusPending \<Longrightarrow> dg_status g' \<noteq> GrantStatusPending \<Longrightarrow> GrantIsTerminal g'"
  by (auto simp: grant_evolves_def GrantIsTerminal_def)

lemma grant_evolves_trans: "grant_evolves a b \<Longrightarrow> grant_evolves b c \<Longrightarrow> grant_evolves a c"
  unfolding grant_evolves_def by (intro conjI allI impI) auto

lemma grant_evolves_clash:
  assumes "grant_evolves a a'" "grant_evolves b b'"
  shows "identity_clash a' b' \<longleftrightarrow> identity_clash a b"
  using assms by (simp add: grant_evolves_def identity_clash_def)

definition rows_evolve :: "delegation_grant list \<Rightarrow> delegation_grant list \<Rightarrow> bool" where
  "rows_evolve gs gs' \<longleftrightarrow>
     (\<exists>old new. gs' = old @ new \<and> list_all2 grant_evolves gs old) \<and> (grants_wf gs \<longrightarrow> grants_wf gs')"

lemma rows_evolve_refl [simp]: "rows_evolve gs gs"
  unfolding rows_evolve_def by (metis append_Nil2 grant_evolves_refl list_all2_refl)

lemma rows_evolve_trans:
  assumes "rows_evolve a b" "rows_evolve b c"
  shows "rows_evolve a c"
proof -
  obtain b1 b2 where b: "b = b1 @ b2" "list_all2 grant_evolves a b1" using assms(1) by (auto simp: rows_evolve_def)
  obtain c1 c2 where c: "c = c1 @ c2" "list_all2 grant_evolves b c1" using assms(2) by (auto simp: rows_evolve_def)
  obtain d1 d2 where d: "c1 = d1 @ d2" "list_all2 grant_evolves b1 d1"
    using c(2) unfolding b(1) list_all2_append1 by blast
  have "list_all2 grant_evolves a d1" by (rule list_all2_trans [OF _ b(2) d(2)]) (rule grant_evolves_trans)
  then show ?thesis using assms c(1) d(1) unfolding rows_evolve_def by (metis append_assoc)
qed

lemma evolve_in_place:
  assumes "\<And>g. p g \<Longrightarrow> grant_evolves g (f g)"
  shows "rows_evolve gs (update_where p f gs)"
proof -
  let ?u = "\<lambda>g. if p g then f g else g"
  have u: "grant_evolves g (?u g)" for g using assms by simp
  have "list_all2 grant_evolves gs (map ?u gs)" by (simp add: list_all2_map2 list_all2_refl u)
  moreover have "grants_wf (map ?u gs)" if wf: "grants_wf gs"
  proof -
    have "dg_use_count (?u g) \<le> m" if "g \<in> set gs" "dg_max_uses (?u g) = Some m" for g m
      using u [of g] that wf unfolding grant_evolves_def grants_wf_def by auto
    moreover have "sorted_wrt (\<lambda>a b. \<not> identity_clash a b) (map ?u gs)"
      using wf unfolding grants_wf_def sorted_wrt_map grant_evolves_clash [OF u u] by blast
    ultimately show ?thesis unfolding grants_wf_def set_map by blast
  qed
  ultimately show ?thesis
    unfolding rows_evolve_def update_where_def by (intro conjI exI [of _ "map ?u gs"] exI [of _ "[]"]) simp_all
qed

lemma evolve_append:
  assumes "\<And>h. h \<in> set gs \<Longrightarrow> \<not> identity_clash h g" "dg_max_uses g = None"
  shows "rows_evolve gs (gs @ [g])"
proof -
  have "grants_wf (gs @ [g])" if "grants_wf gs"
    using that assms unfolding grants_wf_def by (auto simp: sorted_wrt_append)
  then show ?thesis unfolding rows_evolve_def by (metis grant_evolves_refl list_all2_refl)
qed

lemma rows_evolve_row:
  assumes "rows_evolve gs gs'" "g \<in> set gs"
  shows "\<exists>g' \<in> set gs'. grant_evolves g g'"
proof -
  obtain old new where "gs' = old @ new" "list_all2 grant_evolves gs old" using assms(1) by (auto simp: rows_evolve_def)
  moreover from this(2) obtain g' where "g' \<in> set old" "grant_evolves g g'"
    using assms(2) by (metis in_set_conv_nth list_all2_conv_all_nth)
  ultimately show ?thesis by auto
qed

section \<open>The transactions\<close>

lemma within_tx_Inr: "within_tx env fn s = (Inr x, s') \<longleftrightarrow> dn_tx env = Commits \<and> fn s = Inr (x, s')"
  by (auto simp: within_tx_def Within_Inr split: if_splits tx_outcome.splits sum.splits)

lemma within_tx_Inl: "within_tx env fn s = (Inl e, s') \<Longrightarrow> s' = s"
  by (auto simp: within_tx_def Within_Inl split: if_splits tx_outcome.splits sum.splits)

lemma within_tx_evolves:
  assumes "\<And>x s'. fn s = Inr (x, s') \<Longrightarrow> rows_evolve (delegation_grants s) (delegation_grants s')"
  shows "rows_evolve (delegation_grants s) (delegation_grants (snd (within_tx env fn s)))"
  using assms by (auto simp: within_tx_def Within_def split: tx_outcome.splits sum.splits)

lemma emit_delegation_grants: "emit_delegation env e db = Inr db' \<Longrightarrow> delegation_grants db' = delegation_grants db"
  by (auto simp: emit_delegation_def rbind_eq_Inr)

lemma insert_grant_cases:
  assumes "insert_grant env g db = Inr (i, db')"
  obtains old where "select_first (same_request (dg_org_id g) (the (dg_request_hash g))) (delegation_grants db) = Some old"
      "i = dg_id old" "db' = db"
  | "i = dg_id g" "db' = db\<lparr>delegation_grants := delegation_grants db @ [g]\<rparr>"
      "\<forall>old \<in> set (delegation_grants db). dg_id old \<noteq> dg_id g \<and>
         \<not> same_request (dg_org_id g) (the (dg_request_hash g)) old"
  using assms by (auto simp: insert_grant_def select_first_None split: if_splits option.splits)

lemma insert_grant_evolves:
  assumes "insert_grant env g db = Inr (i, db')" "dg_max_uses g = None" "dg_request_hash g = Some hash"
  shows "rows_evolve (delegation_grants db) (delegation_grants db')"
  using assms(1)
proof (cases rule: insert_grant_cases)
  case 2
  then show ?thesis
    using assms(2,3) by (auto intro!: evolve_append simp: identity_clash_def same_request_def)
qed simp

lemma requested_grant_simps [simp]:
  "dg_id (requested_grant env inp hash expires) = dn_new_id env"
  "dg_org_id (requested_grant env inp hash expires) = ri_org_id inp"
  "dg_request_hash (requested_grant env inp hash expires) = Some hash"
  "dg_max_uses (requested_grant env inp hash expires) = None"
  "dg_kind (requested_grant env inp hash expires) = GrantKindOneShot"
  by (simp_all add: requested_grant_def)

lemma file_request_evolves:
  "rows_evolve (delegation_grants db) (delegation_grants (snd (file_request env inp hash expires db)))"
  unfolding file_request_def
  by (rule within_tx_evolves)
    (auto simp: rbind_eq_Inr Insert_def emit_delegation_grants split: if_splits dest!: insert_grant_evolves)

lemma file_auto_approved_evolves:
  "rows_evolve (delegation_grants db) (delegation_grants (snd (file_auto_approved env inp hash expires pattern db)))"
  unfolding file_auto_approved_def
  by (rule within_tx_evolves)
    (auto simp: rbind_eq_Inr InsertAutoApproved_def emit_delegation_grants split: if_splits dest!: insert_grant_evolves)

lemma decided_evolves:
  "decidable_grant i org g \<Longrightarrow> status = GrantStatusApproved \<or> status = GrantStatusDenied \<Longrightarrow>
    grant_evolves g (decided_grant env grantor status reason g)"
  by (simp add: grant_evolves_def decided_grant_def decidable_grant_def)

lemma DecideDelegation_evolves:
  "rows_evolve (delegation_grants db) (delegation_grants (snd (DecideDelegation env i org grantor decision reason db)))"
  unfolding DecideDelegation_def Let_def
  by (auto simp: rbind_eq_Inr DecideGrant_def emit_delegation_grants split: if_splits option.splits
      intro!: within_tx_evolves evolve_in_place decided_evolves)

lemma SetMintedToken_evolves:
  "rows_evolve (delegation_grants db) (delegation_grants (snd (SetMintedToken env i org token db)))"
  unfolding SetMintedToken_def
  by (auto simp: rbind_eq_Inr SetMintedTokenRow_def grant_evolves_def split: if_splits
      intro!: within_tx_evolves evolve_in_place)

lemma use_evolves: "usable_pattern i org g \<Longrightarrow> grant_evolves g (use_pattern g)"
  by (auto simp: grant_evolves_def use_pattern_def usable_pattern_def split: option.splits)

lemma IncrementPatternUse_evolves:
  "IncrementPatternUse i org db = Inr (g, db') \<Longrightarrow> rows_evolve (delegation_grants db) (delegation_grants db')"
  by (auto simp: IncrementPatternUse_def split: option.splits if_splits intro!: evolve_in_place use_evolves)

lemma spend_use_evolves:
  "rows_evolve (delegation_grants db) (delegation_grants (snd (spend_use env i org db)))"
  by (auto simp: spend_use_def split: tx_outcome.splits sum.splits dest: IncrementPatternUse_evolves)

section \<open>Runs\<close>

record delegation_sys =
  sy_db :: delegation_db
  sy_credits :: "uuid multiset"
  sy_auto :: "(uuid \<times> uuid) list"

text \<open>
  \<^verbatim>\<open>sy_auto\<close> lists the grants that patterns approved, each with its pattern; a retry that is answered
  with an existing row approves nothing.
\<close>

definition auto_approvals :: "delegation_db \<Rightarrow> delegation_db \<Rightarrow> uuid \<Rightarrow> uuid \<Rightarrow> (uuid \<times> uuid) list" where
  "auto_approvals db db' pattern i = (if delegation_grants db' = delegation_grants db then [] else [(pattern, i)])"

inductive delegation_step :: "delegation_sys \<Rightarrow> delegation_sys \<Rightarrow> bool" where
  reserve: "IncrementPatternUse p org (sy_db s) = Inr (g, db') \<Longrightarrow>
    delegation_step s (s\<lparr>sy_db := db', sy_credits := add_mset p (sy_credits s)\<rparr>)"
| redeem: "p \<in># sy_credits s \<Longrightarrow> dg_id pattern = p \<Longrightarrow>
    file_auto_approved env inp hash expires pattern (sy_db s) = (Inr i, db') \<Longrightarrow>
    delegation_step s (s\<lparr>sy_db := db', sy_credits := sy_credits s - {#p#},
      sy_auto := auto_approvals (sy_db s) db' p i @ sy_auto s\<rparr>)"
| abandon: "p \<in># sy_credits s \<Longrightarrow> delegation_step s (s\<lparr>sy_credits := sy_credits s - {#p#}\<rparr>)"
| ask: "delegation_step s (s\<lparr>sy_db := snd (file_request env inp hash expires (sy_db s))\<rparr>)"
| decide: "delegation_step s (s\<lparr>sy_db := snd (DecideDelegation env i org grantor decision reason (sy_db s))\<rparr>)"
| mint: "delegation_step s (s\<lparr>sy_db := snd (SetMintedToken env i org token (sy_db s))\<rparr>)"

definition delegation_start :: "delegation_db \<Rightarrow> delegation_sys" where
  "delegation_start db = \<lparr>sy_db = db, sy_credits = {#}, sy_auto = []\<rparr>"

lemma step_evolves:
  assumes "delegation_step s s'"
  shows "rows_evolve (delegation_grants (sy_db s)) (delegation_grants (sy_db s'))"
  using assms
proof (cases rule: delegation_step.cases)
  case (reserve p org g db')
  then show ?thesis using IncrementPatternUse_evolves by simp
next
  case (redeem p pattern env inp hash expires i db')
  then show ?thesis using file_auto_approved_evolves [of "sy_db s" env inp hash expires pattern] by simp
qed (simp_all add: file_request_evolves DecideDelegation_evolves SetMintedToken_evolves)

lemma run_evolves: "delegation_step\<^sup>*\<^sup>* s s' \<Longrightarrow> rows_evolve (delegation_grants (sy_db s)) (delegation_grants (sy_db s'))"
  by (induction rule: rtranclp_induct) (auto intro: rows_evolve_trans step_evolves)

section \<open>The budget of a pattern\<close>

definition uses_of :: "uuid \<Rightarrow> delegation_sys \<Rightarrow> nat" where
  "uses_of p s = count (sy_credits s) p + length (filter (\<lambda>a. fst a = p) (sy_auto s))"

definition auto_rows :: "delegation_sys \<Rightarrow> bool" where
  "auto_rows s \<longleftrightarrow> (\<forall>(p, i) \<in> set (sy_auto s). \<exists>h \<in> set (delegation_grants (sy_db s)).
        dg_id h = i \<and> dg_context h ''via_pattern'' = Some (json_id p) \<and> dg_status h = GrantStatusApproved) \<and>
     distinct (map snd (sy_auto s))"

definition within_budget :: "delegation_sys \<Rightarrow> bool" where
  "within_budget s \<longleftrightarrow> (\<forall>p. 0 < uses_of p s \<longrightarrow>
     (\<exists>g \<in> set (delegation_grants (sy_db s)). dg_id g = p \<and> uses_of p s \<le> dg_use_count g))"

lemma within_budget_evolves:
  assumes "within_budget s" "rows_evolve (delegation_grants (sy_db s)) (delegation_grants (sy_db s'))"
    and "\<And>p. uses_of p s' \<le> uses_of p s"
  shows "within_budget s'"
  unfolding within_budget_def
proof (intro allI impI)
  fix p assume pos: "0 < uses_of p s'"
  then have "0 < uses_of p s" using assms(3) [of p] by linarith
  then obtain g where g: "g \<in> set (delegation_grants (sy_db s))" "dg_id g = p" "uses_of p s \<le> dg_use_count g"
    using assms(1) unfolding within_budget_def by blast
  obtain g' where g': "g' \<in> set (delegation_grants (sy_db s'))" "grant_evolves g g'"
    using rows_evolve_row [OF assms(2) g(1)] by blast
  then show "\<exists>g \<in> set (delegation_grants (sy_db s')). dg_id g = p \<and> uses_of p s' \<le> dg_use_count g"
    using g assms(3) [of p] grant_evolvesD(1,5) [OF g'(2)] by (intro bexI [of _ g']) auto
qed

lemma reserve_spends:
  assumes "IncrementPatternUse p org db = Inr (g, db')" "grants_wf (delegation_grants db)"
    and "h \<in> set (delegation_grants db)" "dg_id h = p"
  shows "\<exists>h' \<in> set (delegation_grants db'). dg_id h' = p \<and> dg_use_count h' = dg_use_count h + 1"
proof -
  obtain q where q: "select_first (usable_pattern p org) (delegation_grants db) = Some q"
    and db': "db' = db\<lparr>delegation_grants := update_where (usable_pattern p org) use_pattern (delegation_grants db)\<rparr>"
    using assms(1) by (auto simp: IncrementPatternUse_def split: option.splits if_splits)
  note f = select_first_Some [OF q]
  have "dg_id q = p" using f(2) by (simp add: usable_pattern_def grant_key_def)
  then have "h = q" using wf_unique [OF assms(2,3) f(1)] assms(4) by (simp add: identity_clash_def)
  then have "use_pattern h \<in> set (delegation_grants db')"
    using f by (auto simp: db' set_update_where)
  then show ?thesis using assms(4) by (auto simp: use_pattern_def intro!: bexI [of _ "use_pattern h"])
qed

lemma reserve_exists:
  assumes "IncrementPatternUse p org db = Inr (g, db')"
  shows "\<exists>h \<in> set (delegation_grants db). dg_id h = p"
  using assms select_first_Some
  by (fastforce simp: IncrementPatternUse_def usable_pattern_def grant_key_def split: option.splits if_splits)

lemma auto_approved_row:
  assumes "file_auto_approved env inp hash expires pattern db = (Inr i, db')"
    and "delegation_grants db' \<noteq> delegation_grants db"
  shows "\<exists>h. delegation_grants db' = delegation_grants db @ [h] \<and> dg_id h = i \<and>
      dg_context h ''via_pattern'' = Some (json_id (dg_id pattern)) \<and> dg_status h = GrantStatusApproved \<and>
      (\<forall>old \<in> set (delegation_grants db). dg_id old \<noteq> i)"
proof -
  obtain s1 where ins: "InsertAutoApproved env inp hash expires pattern db = Inr (i, s1)"
    and g: "delegation_grants db' = delegation_grants s1"
    using assms(1) by (auto simp: file_auto_approved_def within_tx_Inr rbind_eq_Inr dest: emit_delegation_grants)
  let ?g = "(requested_grant env inp hash expires)\<lparr>dg_context := caveated_context inp pattern,
           dg_status := GrantStatusApproved, dg_grantor := dg_grantor pattern, dg_decided_at := Some (dn_now env)\<rparr>"
  have "insert_grant env ?g db = Inr (i, s1)" using ins by (simp add: InsertAutoApproved_def split: if_splits)
  then show ?thesis
    by (cases rule: insert_grant_cases) (use assms(2) g in \<open>auto simp: caveated_context_def\<close>)
qed

lemma within_budget_step:
  assumes "delegation_step s s'" "within_budget s" "grants_wf (delegation_grants (sy_db s))"
  shows "within_budget s'"
proof -
  note ev = step_evolves [OF assms(1)]
  from assms(1) show ?thesis
  proof (cases rule: delegation_step.cases)
    case (reserve p org g db')
    show ?thesis
      unfolding within_budget_def
    proof (intro allI impI)
      fix q assume pos: "0 < uses_of q s'"
      show "\<exists>g \<in> set (delegation_grants (sy_db s')). dg_id g = q \<and> uses_of q s' \<le> dg_use_count g"
      proof (cases "q = p")
        case True
        obtain h where h: "h \<in> set (delegation_grants (sy_db s))" "dg_id h = p" "uses_of p s \<le> dg_use_count h"
          using assms(2) reserve_exists [OF reserve(2)] unfolding within_budget_def by (cases "0 < uses_of p s") auto
        have "uses_of p s' = uses_of p s + 1" by (simp add: reserve(1) uses_of_def)
        then show ?thesis
          using reserve_spends [OF reserve(2) assms(3) h(1,2)] h(3) True by (auto simp: reserve(1))
      next
        case False
        then have same: "uses_of q s' = uses_of q s" by (simp add: reserve(1) uses_of_def)
        then obtain g where g: "g \<in> set (delegation_grants (sy_db s))" "dg_id g = q" "uses_of q s \<le> dg_use_count g"
          using assms(2) pos unfolding within_budget_def by auto
        obtain g' where g': "g' \<in> set (delegation_grants (sy_db s'))" "grant_evolves g g'"
          using rows_evolve_row [OF ev g(1)] by blast
        then show ?thesis using g same grant_evolvesD(1,5) [OF g'(2)] by (intro bexI [of _ g']) auto
      qed
    qed
  next
    case (redeem p pattern env inp hash expires i db')
    have "uses_of q s' \<le> uses_of q s" for q
      using redeem(2) by (auto simp: redeem(1) uses_of_def auto_approvals_def not_in_iff)
    then show ?thesis using within_budget_evolves [OF assms(2) ev] by blast
  next
    case (abandon p)
    then have "uses_of q s' \<le> uses_of q s" for q by (simp add: uses_of_def)
    then show ?thesis using within_budget_evolves [OF assms(2) ev] by blast
  qed (use within_budget_evolves [OF assms(2) ev] in \<open>simp_all add: uses_of_def\<close>)
qed

lemma auto_rows_step:
  assumes "delegation_step s s'" "auto_rows s"
  shows "auto_rows s'"
proof -
  note ev = step_evolves [OF assms(1)]
  have kept: "\<exists>h \<in> set (delegation_grants (sy_db s')). dg_id h = i \<and> dg_context h ''via_pattern'' = Some (json_id p) \<and>
      dg_status h = GrantStatusApproved" if a: "(p, i) \<in> set (sy_auto s)" for p i
  proof -
    obtain h where h: "h \<in> set (delegation_grants (sy_db s))" "dg_id h = i" "dg_context h ''via_pattern'' = Some (json_id p)"
      "dg_status h = GrantStatusApproved" using assms(2) a unfolding auto_rows_def by fastforce
    obtain h' where h': "h' \<in> set (delegation_grants (sy_db s'))" "grant_evolves h h'"
      using rows_evolve_row [OF ev h(1)] by blast
    then show ?thesis using h(2-4) grant_evolvesD(1,4,6) [OF h'(2)] by (intro bexI [of _ h']) auto
  qed
  from assms(1) show ?thesis
  proof (cases rule: delegation_step.cases)
    case (redeem p pattern env inp hash expires i db')
    show ?thesis
    proof (cases "delegation_grants db' = delegation_grants (sy_db s)")
      case True
      then show ?thesis using kept assms(2) by (auto simp: redeem(1) auto_rows_def auto_approvals_def)
    next
      case False
      obtain h where h: "delegation_grants db' = delegation_grants (sy_db s) @ [h]" "dg_id h = i"
        "dg_context h ''via_pattern'' = Some (json_id p)" "dg_status h = GrantStatusApproved"
        "\<forall>old \<in> set (delegation_grants (sy_db s)). dg_id old \<noteq> i"
        using auto_approved_row [OF redeem(4) False] redeem(3) by blast
      have "i \<notin> snd ` set (sy_auto s)" using assms(2) h(5) unfolding auto_rows_def by fastforce
      then show ?thesis using kept assms(2) h False by (auto simp: redeem(1) auto_rows_def auto_approvals_def)
    qed
  qed (use kept assms(2) in \<open>auto simp: auto_rows_def\<close>)
qed

lemma run_budget:
  assumes "delegation_step\<^sup>*\<^sup>* (delegation_start db) s" "grants_wf (delegation_grants db)"
  shows "within_budget s \<and> auto_rows s \<and> grants_wf (delegation_grants (sy_db s))"
  using assms(1)
proof (induction rule: rtranclp_induct)
  case base
  then show ?case
    using assms(2) by (simp add: delegation_start_def within_budget_def auto_rows_def uses_of_def)
next
  case (step s1 s2)
  then show ?case
    using within_budget_step auto_rows_step step_evolves [OF step.hyps(2)] by (auto simp: rows_evolve_def)
qed

text \<open>
  C26.  A pattern grant approves no more requests than its \<^verbatim>\<open>max_uses\<close>, whatever requests race for
  it: in every run whose transactions commit, the grants filed as approved through one pattern,
  together with the uses spent by requests that have not filed theirs yet, never exceed the
  cap, and each such grant is a row that names the pattern it came from.
\<close>

theorem pattern_budget_respected:
  assumes "grants_wf (delegation_grants db)" "delegation_step\<^sup>*\<^sup>* (delegation_start db) s"
    and "g \<in> set (delegation_grants (sy_db s))" "dg_max_uses g = Some m"
  shows "length (filter (\<lambda>a. fst a = dg_id g) (sy_auto s)) + count (sy_credits s) (dg_id g) \<le> m \<and>
    distinct (map snd (sy_auto s)) \<and>
    (\<forall>(p, i) \<in> set (sy_auto s). \<exists>h \<in> set (delegation_grants (sy_db s)).
       dg_id h = i \<and> dg_context h ''via_pattern'' = Some (json_id p) \<and> dg_status h = GrantStatusApproved)"
proof -
  have b: "within_budget s" "auto_rows s" "grants_wf (delegation_grants (sy_db s))"
    using run_budget [OF assms(2,1)] by blast+
  have "uses_of (dg_id g) s \<le> m"
  proof (cases "0 < uses_of (dg_id g) s")
    case True
    then obtain h where h: "h \<in> set (delegation_grants (sy_db s))" "dg_id h = dg_id g" "uses_of (dg_id g) s \<le> dg_use_count h"
      using b(1) unfolding within_budget_def by blast
    have "h = g" using wf_unique [OF b(3) h(1) assms(3)] h(2) by (simp add: identity_clash_def)
    then show ?thesis using h(3) b(3) assms(3,4) unfolding grants_wf_def by fastforce
  qed simp
  then show ?thesis using b(2) by (simp add: uses_of_def auto_rows_def)
qed

text \<open>What a pattern matches: anything, itself, or every text with the prefix before its final star.\<close>

lemma globMatchPattern_iff:
  "globMatchPattern pattern s \<longleftrightarrow>
     pattern = [] \<or> pattern = s \<or> (\<exists>prefix rest. pattern = prefix @ ''*'' \<and> s = prefix @ rest)"
proof (cases pattern rule: rev_cases)
  case (snoc prefix c)
  have "(length prefix \<le> length s \<and> take (length prefix) s = prefix) \<longleftrightarrow> (\<exists>rest. s = prefix @ rest)"
    by (metis append_eq_conv_conj append_take_drop_id length_append le_add1)
  then show ?thesis by (auto simp: globMatchPattern_def snoc Let_def)
qed (simp add: globMatchPattern_def)

lemma MatchPattern_sound:
  assumes "MatchPattern env org actor action resource db = Inr (Some g)"
  shows "g \<in> set (delegation_grants db) \<and> dg_org_id g = org \<and> dg_actor g = actor \<and> dg_kind g = GrantKindPattern \<and>
    dg_status g = GrantStatusActive \<and> dn_now env < dg_expires_at g \<and>
    globMatchPattern (dg_action_pattern g) action \<and> globMatchPattern (dg_resource_pattern g) resource"
proof -
  have f: "select_first (\<lambda>g. globMatchPattern (dg_action_pattern g) action \<and> globMatchPattern (dg_resource_pattern g) resource)
      (pattern_candidates env org actor db) = Some g"
    using assms by (simp add: MatchPattern_def split: if_splits)
  show ?thesis
    using select_first_Some [OF f] select_orderedD [of g, OF select_first_Some(1) [OF f, unfolded pattern_candidates_def]] by blast
qed

section \<open>One decision\<close>

lemma DecideDelegation_Inr:
  assumes "DecideDelegation env i org grantor decision reason db = (Inr g, db')"
  obtains g0 where "g0 \<in> set (delegation_grants db)" "dg_id g0 = i" "dg_org_id g0 = org" "dg_status g0 = GrantStatusPending"
    "g = decided_grant env grantor decision reason g0" "g \<in> set (delegation_grants db')"
    "decision = GrantStatusApproved \<or> decision = GrantStatusDenied"
proof -
  obtain s1 where d: "DecideGrant env i org grantor decision reason db = Inr (g, s1)"
    and g: "delegation_grants db' = delegation_grants s1"
    and k: "decision = GrantStatusApproved \<or> decision = GrantStatusDenied"
    using assms by (auto simp: DecideDelegation_def Let_def within_tx_Inr rbind_eq_Inr emit_delegation_grants split: if_splits)
  obtain g0 where f: "select_first (decidable_grant i org) (delegation_grants db) = Some g0"
    and s1: "g = decided_grant env grantor decision reason g0"
      "s1 = db\<lparr>delegation_grants := update_where (decidable_grant i org) (decided_grant env grantor decision reason) (delegation_grants db)\<rparr>"
    using d by (auto simp: DecideGrant_def rbind_eq_Inr split: option.splits if_splits)
  note f = select_first_Some [OF f]
  have "g \<in> set (delegation_grants db')" unfolding g s1 using f by (auto simp: set_update_where)
  then show thesis using that [of g0] f s1(1) k by (simp add: decidable_grant_def grant_key_def)
qed

lemma decided_grant_refused:
  assumes "grants_wf (delegation_grants db)" "g \<in> set (delegation_grants db)" "dg_id g = i" "GrantIsTerminal g"
  shows "\<exists>e. DecideDelegation env i org grantor decision reason db = (Inl e, db)"
    and "dg_org_id g = org \<Longrightarrow> i \<noteq> [] \<Longrightarrow> grantor \<noteq> [] \<Longrightarrow> dn_tx env = Commits \<Longrightarrow>
      decision = GrantStatusApproved \<or> (decision = GrantStatusDenied \<and> TrimSpace reason \<noteq> []) \<Longrightarrow>
      DecideDelegation env i org grantor decision reason db = (Inl ErrTypeConflict, db)"
proof -
  have only: "h = g" if "h \<in> set (delegation_grants db)" "dg_id h = i" for h
    using wf_unique [OF assms(1) that(1) assms(2)] that(2) assms(3) by (simp add: identity_clash_def)
  have none: "select_first (decidable_grant i org) (delegation_grants db) = None"
    using only assms(4) by (auto simp: select_first_None decidable_grant_def grant_key_def GrantIsTerminal_def)
  then have "\<exists>e. DecideGrant env i org grantor decision reason db = Inl e"
    by (cases "select_first (grant_key i org) (delegation_grants db)") (simp_all add: DecideGrant_def GetDelegationGrant_def)
  then obtain e where e: "DecideGrant env i org grantor decision reason db = Inl e" by (rule exE)
  then show "\<exists>e. DecideDelegation env i org grantor decision reason db = (Inl e, db)"
    by (auto simp: DecideDelegation_def Let_def within_tx_def Within_def split: tx_outcome.splits)
  show "DecideDelegation env i org grantor decision reason db = (Inl ErrTypeConflict, db)"
    if v: "dg_org_id g = org" "i \<noteq> []" "grantor \<noteq> []" "dn_tx env = Commits"
      "decision = GrantStatusApproved \<or> (decision = GrantStatusDenied \<and> TrimSpace reason \<noteq> [])"
  proof -
    have "select_first (grant_key i org) (delegation_grants db) = Some g"
      by (rule wf_first [OF assms(1,2)]) (use assms(3) v(1) in \<open>auto simp: grant_key_def identity_clash_def\<close>)
    then have "DecideGrant env i org grantor decision reason db = Inl ErrTypeConflict"
      using none assms(4) by (simp add: DecideGrant_def GetDelegationGrant_def)
    then show ?thesis using v by (auto simp: DecideDelegation_def Let_def within_tx_def Within_def)
  qed
qed

text \<open>
  C31.  A delegation request is decided once.  Whatever the service does afterwards, the grant keeps
  the status, grantor, reason and time of its first decision, and every further decision on it,
  by whomever, is refused without effect, as a conflict when it is otherwise well formed.
\<close>

theorem delegation_decided_once:
  assumes "grants_wf (delegation_grants db)"
    and "DecideDelegation env i org grantor decision reason db = (Inr g, sy_db s)"
    and "delegation_step\<^sup>*\<^sup>* s s'"
  shows "(\<exists>g' \<in> set (delegation_grants (sy_db s')). dg_id g' = i \<and> dg_status g' = decision \<and> dg_grantor g' = grantor \<and>
      dg_reason g' = reason \<and> dg_decided_at g' = Some (dn_now env)) \<and>
    (\<exists>e. DecideDelegation env' i org grantor' decision' reason' (sy_db s') = (Inl e, sy_db s') \<and>
      (i \<noteq> [] \<and> grantor' \<noteq> [] \<and> dn_tx env' = Commits \<and>
       (decision' = GrantStatusApproved \<or> (decision' = GrantStatusDenied \<and> TrimSpace reason' \<noteq> [])) \<longrightarrow>
       e = ErrTypeConflict))"
proof -
  obtain g0 where g0: "g0 \<in> set (delegation_grants db)" "dg_id g0 = i" "dg_org_id g0 = org"
    "g = decided_grant env grantor decision reason g0" "g \<in> set (delegation_grants (sy_db s))"
    "decision = GrantStatusApproved \<or> decision = GrantStatusDenied"
    by (rule DecideDelegation_Inr [OF assms(2)]) blast
  have "rows_evolve (delegation_grants db) (delegation_grants (sy_db s))"
    using DecideDelegation_evolves [of db env i org grantor decision reason] assms(2) by simp
  then have ev: "rows_evolve (delegation_grants db) (delegation_grants (sy_db s'))"
    using run_evolves [OF assms(3)] rows_evolve_trans by blast
  then have wf: "grants_wf (delegation_grants (sy_db s'))" using assms(1) by (simp add: rows_evolve_def)
  obtain g' where g': "g' \<in> set (delegation_grants (sy_db s'))" "grant_evolves g g'"
    using rows_evolve_row [OF run_evolves [OF assms(3)] g0(5)] by blast
  have st: "dg_status g = decision" "dg_status g \<noteq> GrantStatusPending" using g0(4,6) by (auto simp: decided_grant_def)
  have kept: "dg_id g' = i" "dg_org_id g' = org" "dg_status g' = decision" "dg_grantor g' = grantor" "dg_reason g' = reason"
      "dg_decided_at g' = Some (dn_now env)"
    using grant_evolvesD [OF g'(2)] st g0(2-4) by (simp_all add: decided_grant_def)
  have settled: "GrantIsTerminal g'" using g0(6) kept(3) by (auto simp: GrantIsTerminal_def)
  show ?thesis
    using decided_grant_refused [OF wf g'(1) kept(1) settled,
      where env = env' and org = org and grantor = grantor' and decision = decision' and reason = reason'] kept g'(1)
    by (metis Inl_inject Pair_inject)
qed

section \<open>Requests\<close>

definition other_runs :: "(nat \<Rightarrow> delegation_db \<Rightarrow> delegation_db) \<Rightarrow> bool" where
  "other_runs others \<longleftrightarrow> (\<forall>k db. \<exists>s s'. sy_db s = db \<and> delegation_step\<^sup>*\<^sup>* s s' \<and> sy_db s' = others k db)"

lemma other_runs_evolve: "other_runs others \<Longrightarrow> rows_evolve (delegation_grants db) (delegation_grants (others k db))"
  unfolding other_runs_def using run_evolves by metis

lemma insert_grant_files:
  assumes "insert_grant env g db = Inr (i, db')" "dg_request_hash g = Some hash"
  shows "\<exists>h \<in> set (delegation_grants db'). dg_id h = i \<and> same_request (dg_org_id g) hash h"
  using assms(1)
proof (cases rule: insert_grant_cases)
  case (1 old)
  then show ?thesis using select_first_Some [OF 1(1)] assms(2) by auto
next
  case 2
  then show ?thesis using assms(2) by (auto simp: same_request_def)
qed

lemma file_request_files:
  assumes "file_request env inp hash expires db = (Inr i, db')"
  shows "\<exists>h \<in> set (delegation_grants db'). dg_id h = i \<and> same_request (ri_org_id inp) hash h"
  using assms insert_grant_files [of env "requested_grant env inp hash expires" db i]
  by (auto simp: file_request_def within_tx_Inr rbind_eq_Inr Insert_def emit_delegation_grants split: if_splits)

lemma file_auto_approved_files:
  assumes "file_auto_approved env inp hash expires pattern db = (Inr i, db')"
  shows "\<exists>h \<in> set (delegation_grants db'). dg_id h = i \<and> same_request (ri_org_id inp) hash h"
proof -
  obtain s1 where ins: "InsertAutoApproved env inp hash expires pattern db = Inr (i, s1)"
    and g: "delegation_grants db' = delegation_grants s1"
    using assms by (auto simp: file_auto_approved_def within_tx_Inr rbind_eq_Inr dest: emit_delegation_grants)
  show ?thesis
    unfolding g using ins by (auto simp: InsertAutoApproved_def split: if_splits dest!: insert_grant_files)
qed

text \<open>How a request ends: filed for a person, or filed as approved after spending a use.\<close>

lemma RequestDelegation_Inr:
  assumes "RequestDelegation sha envs clock others inp db = (Inr i, db')" "other_runs others"
  obtains db1 where "rows_evolve (delegation_grants db) (delegation_grants db1)"
      "file_request (envs 3) inp (request_identity sha inp) (clock + ri_timeout inp) db1 = (Inr i, db')"
  | pattern db1 where "rows_evolve (delegation_grants db) (delegation_grants db1)"
      "file_auto_approved (envs 2) inp (request_identity sha inp) (clock + ri_timeout inp) pattern db1 = (Inr i, db')"
proof -
  note ev = other_runs_evolve [OF assms(2)]
  have spent: "rows_evolve (delegation_grants db) (delegation_grants (others 1 (snd (spend_use env p org (others 0 db)))))" for env p org
    using ev [of db 0] spend_use_evolves ev rows_evolve_trans by meson
  show thesis
  proof (cases "MatchPattern (envs 0) (ri_org_id inp) (ri_actor inp) (ri_action inp) (ri_resource inp) db")
    case (Inl e)
    then show thesis using assms(1) that(1) [OF ev] by (auto simp: RequestDelegation_def Let_def split: sum.splits)
  next
    case (Inr found)
    show thesis
    proof (cases found)
      case None
      then show thesis using Inr assms(1) that(1) [OF ev] by (auto simp: RequestDelegation_def Let_def split: sum.splits)
    next
      case (Some pattern)
      obtain r db1 where r: "spend_use (envs 1) (dg_id pattern) (ri_org_id inp) (others 0 db) = (r, db1)" by fastforce
      have ev1: "rows_evolve (delegation_grants db) (delegation_grants (others 1 db1))"
        using spent [of "envs 1" "dg_id pattern" "ri_org_id inp"] r by simp
      obtain u where v: "ValidateRequest inp = Inr u"
        using assms(1) by (cases "ValidateRequest inp") (simp_all add: RequestDelegation_def)
      show thesis
        using Inr Some r v assms(1) that(1) [OF ev1] that(2) [OF ev1]
        by (cases r) (simp_all add: RequestDelegation_def Let_def)
    qed
  qed
qed

lemma RequestDelegation_files:
  assumes "RequestDelegation sha envs clock others inp db = (Inr i, db')" "other_runs others"
  shows "rows_evolve (delegation_grants db) (delegation_grants db')"
    and "\<exists>h \<in> set (delegation_grants db'). dg_id h = i \<and> same_request (ri_org_id inp) (request_identity sha inp) h"
proof -
  have "rows_evolve (delegation_grants db) (delegation_grants db') \<and>
    (\<exists>h \<in> set (delegation_grants db'). dg_id h = i \<and> same_request (ri_org_id inp) (request_identity sha inp) h)"
    using assms
  proof (cases rule: RequestDelegation_Inr)
    case (1 db1)
    then show ?thesis using file_request_evolves file_request_files [OF 1(2)] by (metis rows_evolve_trans snd_conv)
  next
    case (2 pattern db1)
    then show ?thesis using file_auto_approved_evolves file_auto_approved_files [OF 2(2)] by (metis rows_evolve_trans snd_conv)
  qed
  then show "rows_evolve (delegation_grants db) (delegation_grants db')"
    and "\<exists>h \<in> set (delegation_grants db'). dg_id h = i \<and> same_request (ri_org_id inp) (request_identity sha inp) h" by blast+
qed

text \<open>
  C33.  Requesting is idempotent.  A request that was accepted and is made again, at any later time and
  interleaved with anything else, under the same organization and the same identity, is
  answered with the first grant's id; and there is only one grant under that identity.
\<close>

theorem delegation_request_idempotent:
  assumes "grants_wf (delegation_grants db)" "other_runs others" "other_runs others'"
    and "RequestDelegation sha envs clock others inp db = (Inr i, sy_db s)"
    and "delegation_step\<^sup>*\<^sup>* s s'"
    and "ri_org_id inp' = ri_org_id inp" "request_identity sha inp' = request_identity sha inp"
    and "RequestDelegation sha envs' clock' others' inp' (sy_db s') = (Inr j, db'')"
  shows "j = i \<and> (\<exists>g. {h \<in> set (delegation_grants db''). same_request (ri_org_id inp) (request_identity sha inp) h} = {g} \<and> dg_id g = i)"
proof -
  note first = RequestDelegation_files [OF assms(4,2)]
  note second = RequestDelegation_files [OF assms(8,3)]
  have ev: "rows_evolve (delegation_grants (sy_db s)) (delegation_grants db'')"
    using run_evolves [OF assms(5)] second(1) rows_evolve_trans by blast
  then have wf: "grants_wf (delegation_grants db'')"
    using first(1) assms(1) rows_evolve_trans unfolding rows_evolve_def by blast
  obtain h where h: "h \<in> set (delegation_grants (sy_db s))" "dg_id h = i" "same_request (ri_org_id inp) (request_identity sha inp) h"
    using first(2) by blast
  obtain h' where h': "h' \<in> set (delegation_grants db'')" "grant_evolves h h'" using rows_evolve_row [OF ev h(1)] by blast
  then have same: "same_request (ri_org_id inp) (request_identity sha inp) h'" "dg_id h' = i"
    using h grant_evolvesD [OF h'(2)] by (simp_all add: same_request_def)
  have only: "k = h'" if "k \<in> set (delegation_grants db'')" "same_request (ri_org_id inp) (request_identity sha inp) k" for k
    using wf_unique [OF wf that(1) h'(1)] that(2) same(1) by (simp add: same_request_def identity_clash_def)
  have "j = i" using second(2) only same(2) unfolding assms(6,7) by blast
  then show ?thesis using h'(1) same only by blast
qed

end
