(* ===== verification/Delegation_Outcomes.thy ===== *)
theory Delegation_Outcomes
  imports Delegation_Properties
begin

text \<open>
  The stream of \<^verbatim>\<open>WaitForDelegation\<close> against the runs of the service, that a request is itself a
  run, and what the pattern path does when its transactions fail or its identity is taken.
\<close>

section \<open>A request is a run\<close>

lemma auto_approval_runs:
  assumes "p \<in># sy_credits s" "dg_id pattern = p"
  shows "\<exists>s'. delegation_step\<^sup>*\<^sup>* s s' \<and> sy_db s' = snd (file_auto_approved env inp hash expires pattern (sy_db s))"
proof -
  obtain r db' where r: "file_auto_approved env inp hash expires pattern (sy_db s) = (r, db')" by fastforce
  show ?thesis
  proof (cases r)
    case (Inl e)
    then have "db' = sy_db s" using r by (auto simp: file_auto_approved_def dest: within_tx_Inl)
    then show ?thesis using r by auto
  next
    case (Inr i)
    then show ?thesis using delegation_step.redeem [OF assms, of env inp hash expires i db'] r by auto
  qed
qed

lemma spend_runs:
  assumes "dn_tx env = Commits" "spend_use env p org (sy_db s) = (Inr u, db1)"
  shows "\<exists>s1. delegation_step s s1 \<and> sy_db s1 = db1 \<and> p \<in># sy_credits s1"
proof -
  obtain g where "IncrementPatternUse p org (sy_db s) = Inr (g, db1)"
    using assms by (auto simp: spend_use_def split: sum.splits)
  from delegation_step.reserve [OF this] show ?thesis by fastforce
qed

lemma ask_runs: "\<exists>s'. delegation_step\<^sup>*\<^sup>* s s' \<and> sy_db s' = snd (file_request env inp hash expires (sy_db s))"
proof -
  let ?s = "s\<lparr>sy_db := snd (file_request env inp hash expires (sy_db s))\<rparr>"
  have "delegation_step s ?s" by (rule delegation_step.ask)
  then show ?thesis by (intro exI [of _ ?s]) auto
qed

lemma RequestDelegation_runs:
  assumes "dn_tx (envs 1) = Commits"
  shows "\<exists>s'. delegation_step\<^sup>*\<^sup>* s s' \<and>
    sy_db s' = snd (RequestDelegation sha envs clock (\<lambda>_ db. db) inp (sy_db s))"
proof (cases "ValidateRequest inp")
  case (Inl e)
  then show ?thesis by (auto simp: RequestDelegation_def)
next
  case valid: (Inr u)
  let ?m = "MatchPattern (envs 0) (ri_org_id inp) (ri_actor inp) (ri_action inp) (ri_resource inp) (sy_db s)"
  let ?asks = "snd (file_request (envs 3) inp (request_identity sha inp) (clock + ri_timeout inp) (sy_db s))"
  show ?thesis
  proof (cases "\<exists>pattern. ?m = Inr (Some pattern)")
    case False
    then have "snd (RequestDelegation sha envs clock (\<lambda>_ db. db) inp (sy_db s)) = ?asks"
      using valid by (auto simp: RequestDelegation_def Let_def split: sum.split option.split)
    then show ?thesis using ask_runs by simp
  next
    case True
    then obtain pattern where m: "?m = Inr (Some pattern)" by blast
    obtain r db1 where r: "spend_use (envs 1) (dg_id pattern) (ri_org_id inp) (sy_db s) = (r, db1)" by fastforce
    show ?thesis
    proof (cases r)
      case (Inl e)
      then have "db1 = sy_db s" using r by (auto simp: spend_use_def split: tx_outcome.splits sum.splits)
      then show ?thesis using valid m r Inl ask_runs by (simp add: RequestDelegation_def Let_def)
    next
      case (Inr v)
      then obtain s1 where s1: "delegation_step s s1" "sy_db s1 = db1" "dg_id pattern \<in># sy_credits s1"
        using spend_runs [OF assms] r by blast
      obtain s2 where "delegation_step\<^sup>*\<^sup>* s1 s2" "sy_db s2 =
          snd (file_auto_approved (envs 2) inp (request_identity sha inp) (clock + ri_timeout inp) pattern (sy_db s1))"
        using auto_approval_runs [OF s1(3) refl] by blast
      then show ?thesis
        using valid m r Inr s1 by (auto simp: RequestDelegation_def Let_def intro: converse_rtranclp_into_rtranclp)
    qed
  qed
qed

section \<open>Waking the waiting requester\<close>

definition grant_at :: "uuid \<Rightarrow> uuid \<Rightarrow> delegation_sys \<Rightarrow> delegation_grant" where
  "grant_at i org s = the (select_first (grant_key i org) (delegation_grants (sy_db s)))"

text \<open>The commits of a run that notify the grant's channel: positions whose update the trigger reports.\<close>

definition notifications :: "uuid \<Rightarrow> uuid \<Rightarrow> delegation_sys list \<Rightarrow> nat list" where
  "notifications i org ss =
     filter (\<lambda>k. notify_decided (grant_at i org (ss ! (k - 1))) (grant_at i org (ss ! k))) [1..<length ss]"

lemma get_evolves:
  assumes "grants_wf (delegation_grants a)" "rows_evolve (delegation_grants a) (delegation_grants b)"
    and "GetDelegationGrant i org a = Inr g"
  shows "\<exists>g'. GetDelegationGrant i org b = Inr g' \<and> grant_evolves g g'"
proof -
  have f: "select_first (grant_key i org) (delegation_grants a) = Some g"
    using assms(3) by (simp add: GetDelegationGrant_def split: option.splits)
  note f = select_first_Some [OF f]
  obtain g' where g': "g' \<in> set (delegation_grants b)" "grant_evolves g g'" using rows_evolve_row [OF assms(2) f(1)] by blast
  have "grants_wf (delegation_grants b)" using assms(1,2) by (simp add: rows_evolve_def)
  then have "select_first (grant_key i org) (delegation_grants b) = Some g'"
    by (rule wf_first [OF _ g'(1)]) (use f(2) grant_evolvesD [OF g'(2)] in \<open>auto simp: grant_key_def identity_clash_def\<close>)
  then show ?thesis using g'(2) by (simp add: GetDelegationGrant_def)
qed

lemma steps_between:
  assumes "successively delegation_step ss" "j \<le> k" "k < length ss"
  shows "delegation_step\<^sup>*\<^sup>* (ss ! j) (ss ! k)"
  using assms(2,3)
proof (induction k rule: dec_induct)
  case (step n)
  then show ?case
    using assms(1) by (auto simp: successively_conv_nth intro: rtranclp.rtrancl_into_rtrancl)
qed simp

lemma versions:
  assumes "grants_wf (delegation_grants (sy_db (hd ss)))" "successively delegation_step ss"
    and "GetDelegationGrant i org (sy_db (hd ss)) = Inr g" "j \<le> k" "k < length ss"
  shows "GetDelegationGrant i org (sy_db (ss ! k)) = Inr (grant_at i org (ss ! k))"
    and "grant_evolves (grant_at i org (ss ! j)) (grant_at i org (ss ! k))"
proof -
  have hd: "hd ss = ss ! 0" using assms(5) by (cases ss) simp_all
  have at: "x = grant_at i org s" if "GetDelegationGrant i org (sy_db s) = Inr x" for s x
    using that by (simp add: GetDelegationGrant_def grant_at_def split: option.splits)
  have ev: "rows_evolve (delegation_grants (sy_db (ss ! a))) (delegation_grants (sy_db (ss ! b)))"
    if "a \<le> b" "b < length ss" for a b
    using run_evolves [OF steps_between [OF assms(2) that]] .
  have wf: "grants_wf (delegation_grants (sy_db (ss ! a)))" if "a < length ss" for a
    using ev [of 0 a] assms(1) that unfolding hd rows_evolve_def by simp
  have get: "GetDelegationGrant i org (sy_db (ss ! a)) = Inr (grant_at i org (ss ! a))" if "a < length ss" for a
    using get_evolves [OF _ ev [of 0 a]] assms(1,3) at that unfolding hd by fastforce
  show "GetDelegationGrant i org (sy_db (ss ! k)) = Inr (grant_at i org (ss ! k))" by (rule get [OF assms(5)])
  show "grant_evolves (grant_at i org (ss ! j)) (grant_at i org (ss ! k))"
    using get_evolves [OF wf ev [OF assms(4,5)] get] get [OF assms(5)] assms(4,5) by auto
qed

lemma filter_upt_single:
  assumes "a \<le> m" "m < b" "\<And>k. a \<le> k \<Longrightarrow> k < b \<Longrightarrow> P k \<longleftrightarrow> k = m"
  shows "filter P [a..<b] = [m]"
proof -
  have "[a..<b] = [a..<m] @ m # [Suc m..<b]"
    using assms(1,2) by (metis less_imp_le_nat upt_add_eq_append upt_conv_Cons le_add_diff_inverse)
  moreover have "filter P [a..<m] = []" "filter P [Suc m..<b] = []" "P m"
    using assms by (auto simp: filter_empty_conv)
  ultimately show ?thesis by simp
qed

lemma terminal_not_pending: "GrantIsTerminal g \<Longrightarrow> dg_status g \<noteq> GrantStatusPending"
  by (auto simp: GrantIsTerminal_def)

text \<open>A grant leaves the pending state at most once, so its channel is notified at most once.\<close>

lemma single_notification:
  assumes "grants_wf (delegation_grants (sy_db (hd ss)))" "successively delegation_step ss"
    and "GetDelegationGrant i org (sy_db (hd ss)) = Inr g" "j < length ss"
    and "dg_status (grant_at i org (ss ! j)) = GrantStatusPending"
    and "dg_status (grant_at i org (last ss)) \<noteq> GrantStatusPending"
  shows "\<exists>m. notifications i org ss = [m] \<and> j < m \<and> m < length ss \<and>
    (\<forall>k. m \<le> k \<and> k < length ss \<longrightarrow> GrantIsTerminal (grant_at i org (ss ! k)))"
proof -
  let ?S = "\<lambda>k. dg_status (grant_at i org (ss ! k))"
  let ?n = "length ss - 1"
  have last: "last ss = ss ! ?n" using assms(4) by (cases ss rule: rev_cases) auto
  note ev = versions(2) [OF assms(1-3)]
  have frozen: "?S k = ?S a" if "a \<le> k" "k < length ss" "?S a \<noteq> GrantStatusPending" for a k
    using grant_evolvesD(6) [OF ev [OF that(1,2)] that(3)] by simp
  define m where "m = (LEAST k. ?S k \<noteq> GrantStatusPending)"
  have n: "?S ?n \<noteq> GrantStatusPending" using assms(6) last by simp
  have m: "?S m \<noteq> GrantStatusPending" unfolding m_def using n by (rule LeastI)
  have below: "?S k = GrantStatusPending" if "k < m" for k using that not_less_Least unfolding m_def by blast
  have "m \<le> ?n" unfolding m_def using n by (rule Least_le)
  then have mn: "m < length ss" using assms(4) by simp
  have jm: "j < m" using frozen [of m j] m assms(4,5) by (metis not_le)
  have "notifications i org ss = [m]"
    unfolding notifications_def
  proof (rule filter_upt_single)
    show "1 \<le> m" "m < length ss" using jm mn by simp_all
    show "notify_decided (grant_at i org (ss ! (k - 1))) (grant_at i org (ss ! k)) \<longleftrightarrow> k = m"
      if "1 \<le> k" "k < length ss" for k
      using below [of k] below [of "k - 1"] frozen [of m "k - 1"] frozen [of m k] m that
      by (cases k m rule: linorder_cases) (auto simp: notify_decided_def)
  qed
  moreover have "GrantIsTerminal (grant_at i org (ss ! k))" if "m \<le> k" "k < length ss" for k
    using grant_evolves_status [OF ev [of j k]] frozen [OF that m] m jm that assms(5) by auto
  ultimately show ?thesis using jm mn by blast
qed

lemma no_notification:
  assumes "grants_wf (delegation_grants (sy_db (hd ss)))" "successively delegation_step ss"
    and "GetDelegationGrant i org (sy_db (hd ss)) = Inr g" "\<not> GrantIsTerminal (grant_at i org (last ss))"
  shows "notifications i org ss = []" and "\<And>k. k < length ss \<Longrightarrow> \<not> GrantIsTerminal (grant_at i org (ss ! k))"
proof -
  note ev = versions(2) [OF assms(1-3)]
  show undecided: "\<not> GrantIsTerminal (grant_at i org (ss ! k))" if "k < length ss" for k
  proof
    assume t: "GrantIsTerminal (grant_at i org (ss ! k))"
    have "grant_evolves (grant_at i org (ss ! k)) (grant_at i org (last ss))"
      using ev [of k "length ss - 1"] that by (cases ss rule: rev_cases) auto
    from grant_evolvesD(6) [OF this] terminal_not_pending [OF t] t assms(4) show False by (simp add: GrantIsTerminal_def)
  qed
  have "\<not> notify_decided (grant_at i org (ss ! (k - 1))) (grant_at i org (ss ! k))" if "1 \<le> k" "k < length ss" for k
    using grant_evolves_status [OF ev [of "k - 1" k]] grant_evolvesD(6) [OF ev [of "k - 1" k]] undecided [of k] that
    by (cases "dg_status (grant_at i org (ss ! (k - 1))) = GrantStatusPending") (auto simp: notify_decided_def)
  then show "notifications i org ss = []" by (auto simp: notifications_def filter_empty_conv)
qed

lemma event_tells_decision:
  assumes "grants_wf (delegation_grants (sy_db (hd ss)))" "successively delegation_step ss"
    and "GetDelegationGrant i org (sy_db (hd ss)) = Inr g"
    and "k < length ss" "GrantIsTerminal (grant_at i org (ss ! k))" "e = delegation_decision (grant_at i org (ss ! k))"
    and "g' = grant_at i org (last ss)"
  shows "de_grant_id e = i \<and> de_status e = dg_status g' \<and> de_decided_at e = dg_decided_at g' \<and>
    de_reason e = dg_reason g' \<and> de_grantor_id e = dg_grantor g'"
proof -
  note v = versions [OF assms(1-3)]
  have "last ss = ss ! (length ss - 1)" using assms(4) by (cases ss rule: rev_cases) auto
  then have "grant_evolves (grant_at i org (ss ! k)) g'" using v(2) [of k "length ss - 1"] assms(4,7) by simp
  note D = grant_evolvesD [OF this]
  have "dg_id (grant_at i org (ss ! k)) = i"
    using v(1) [of k k] assms(4) by (auto simp: GetDelegationGrant_def grant_key_def split: option.splits dest: select_first_Some)
  then show ?thesis using D(6) [OF terminal_not_pending [OF assms(5)]] unfolding assms(6) delegation_decision_def by simp
qed

definition read_grant :: "uuid \<Rightarrow> uuid \<Rightarrow> delegation_sys \<Rightarrow> delegation_grant option" where
  "read_grant i org s = (case GetDelegationGrant i org (sy_db s) of Inl _ \<Rightarrow> None | Inr g \<Rightarrow> Some g)"

text \<open>
  C32.  Waiting for a decision neither misses it nor repeats it.  Listening starts at the first state of
  a run, the snapshot is read at any later one, and each notification of the run is answered by
  one read at or after the commit that sent it.  Once the grant is decided, the requester has been
  sent exactly one event, with the status, time, reason and grantor of the decision; before
  that, none.
\<close>

theorem delegation_wait_sees_decision:
  assumes "grants_wf (delegation_grants (sy_db (hd ss)))" "successively delegation_step ss"
    and "GetDelegationGrant i org (sy_db (hd ss)) = Inr g" "j < length ss"
    and "\<forall>k \<in> set (notifications i org ss). k \<le> read_at k \<and> read_at k < length ss"
    and "GetDelegationGrant i org (sy_db (last ss)) = Inr g'"
    and "WaitForDelegation i (read_grant i org (ss ! j))
      (map (\<lambda>k. (taken k, read_grant i org (ss ! read_at k))) (notifications i org ss)) = Inr events"
  shows "if GrantIsTerminal g' then
      \<exists>e. events = [e] \<and> de_grant_id e = i \<and> de_status e = dg_status g' \<and> de_decided_at e = dg_decided_at g' \<and>
        de_reason e = dg_reason g' \<and> de_grantor_id e = dg_grantor g'
    else events = []"
proof -
  note v = versions [OF assms(1-3)]
  have events: "events = Subscribe (read_grant i org (ss ! j))
      (map (\<lambda>k. (taken k, read_grant i org (ss ! read_at k))) (notifications i org ss))"
    using assms(7) by (simp add: WaitForDelegation_def split: if_splits)
  have read: "read_grant i org (ss ! k) = Some (grant_at i org (ss ! k))" if "k < length ss" for k
    using v(1) [of k k] that by (simp add: read_grant_def)
  have last: "last ss = ss ! (length ss - 1)" using assms(4) by (cases ss rule: rev_cases) auto
  have g': "g' = grant_at i org (last ss)" using v(1) [of j "length ss - 1"] assms(4,6) unfolding last by simp
  show ?thesis
  proof (cases "GrantIsTerminal g'")
    case False
    then have "notifications i org ss = []" "\<not> GrantIsTerminal (grant_at i org (ss ! j))"
      using no_notification [OF assms(1-3)] assms(4) g' by blast+
    then show ?thesis using False read [OF assms(4)] events by (simp add: Subscribe_def)
  next
    case True
    show ?thesis
    proof (cases "GrantIsTerminal (grant_at i org (ss ! j))")
      case now: True
      then have "events = [delegation_decision (grant_at i org (ss ! j))]"
        using events read [OF assms(4)] by (simp add: Subscribe_def emitDelegationEvent_def)
      then show ?thesis using True event_tells_decision [OF assms(1-4) now refl g'] by simp
    next
      case later: False
      have "grant_evolves (grant_at i org (ss ! j)) g'" using v(2) [of j "length ss - 1"] assms(4) g' last by simp
      then have pending: "dg_status (grant_at i org (ss ! j)) = GrantStatusPending"
        using later True grant_evolvesD(6) by (fastforce simp: GrantIsTerminal_def)
      have "dg_status (grant_at i org (last ss)) \<noteq> GrantStatusPending"
        using True g' by (auto simp: GrantIsTerminal_def)
      then obtain m where m: "notifications i org ss = [m]" "m < length ss"
          "\<forall>k. m \<le> k \<and> k < length ss \<longrightarrow> GrantIsTerminal (grant_at i org (ss ! k))"
        using single_notification [OF assms(1-4) pending] by blast
      have r: "read_at m < length ss" "GrantIsTerminal (grant_at i org (ss ! read_at m))" using m assms(5) by auto
      then have "events = [delegation_decision (grant_at i org (ss ! read_at m))]"
        using events read [OF assms(4)] read [OF r(1)] later m(1) by (simp add: Subscribe_def emitDelegationEvent_def)
      then show ?thesis using True event_tells_decision [OF assms(1-3) r refl g'] by simp
    qed
  qed
qed

end
