(* ===== verification/Delegation_Examples.thy ===== *)
theory Delegation_Examples
  imports Delegation_Outcomes
begin

text \<open>
  A pattern with one use, two requests under it and one for a person: the instances of the theorems
  about delegation, and what the pattern path does when the transaction that spends the use fails
  or the request's identity is already taken.
\<close>

definition dx_env :: "time \<Rightarrow> uuid \<Rightarrow> delegation_env" where
  "dx_env now i = \<lparr>dn_tx = Commits, dn_now = now, dn_new_id = i, dn_organization_exists = (\<lambda>_. True),
     dn_principal_exists = (\<lambda>_. True), dn_marshals = (\<lambda>_. True), dn_query_ok = True, dn_audit = TxAudit (\<lambda>_. True)\<rparr>"

definition dx_input :: "string \<Rightarrow> request_input" where
  "dx_input why = \<lparr>ri_org_id = ''o'', ri_actor = ''a'', ri_action = ''repo.merge'', ri_resource = ''repo:x'', ri_resource_id = [],
     ri_justification = why, ri_context = Map.empty, ri_risk_level = ''high'', ri_timeout = 60, ri_grantor = [], ri_request_hash = why\<rparr>"

definition dx_pattern :: "nat \<Rightarrow> delegation_grant" where
  "dx_pattern used = (requested_grant (dx_env 0 ''p'') (dx_input ''trust'') ''trust'' 1000)
     \<lparr>dg_kind := GrantKindPattern, dg_status := GrantStatusActive, dg_grantor := ''g'', dg_action_pattern := ''repo.*'',
      dg_resource_pattern := ''repo:*'', dg_max_uses := Some 1, dg_use_count := used, dg_request_hash := None\<rparr>"

definition dx_db :: "nat \<Rightarrow> delegation_db" where
  "dx_db used = \<lparr>delegation_grants = [dx_pattern used], delegation_audit = []\<rparr>"

lemmas dx_defs = dx_env_def dx_input_def dx_pattern_def dx_db_def requested_grant_def

lemmas dx_store = select_first_def update_where_def rows_affected_def insert_grant_def same_request_def risk_levels_def json_id_def
  InsertAutoApproved_def caveated_context_def Insert_def grant_key_def decidable_grant_def decided_grant_def
  usable_pattern_def use_pattern_def emit_delegation_def emitTx_def emitEntryTx_def rbind_def within_tx_def Within_def

definition dx_row :: "delegation_grant" where
  "dx_row = (requested_grant (dx_env 5 ''r1'') (dx_input ''why'') ''why'' 65)
     \<lparr>dg_context := caveated_context (dx_input ''why'') (dx_pattern 0), dg_status := GrantStatusApproved,
      dg_grantor := ''g'', dg_decided_at := Some 5\<rparr>"

lemma dx_reserved: "IncrementPatternUse ''p'' ''o'' (dx_db 0) = Inr (dx_pattern 1, dx_db 1)"
  by (simp add: IncrementPatternUse_def dx_store dx_defs)

lemma dx_filed:
  "\<exists>trail. file_auto_approved (dx_env 5 ''r1'') (dx_input ''why'') ''why'' 65 (dx_pattern 0) (dx_db 1) =
     (Inr ''r1'', \<lparr>delegation_grants = [dx_pattern 1, dx_row], delegation_audit = trail\<rparr>)"
  by (simp add: file_auto_approved_def dx_store dx_defs dx_row_def)

section \<open>One use, one approval\<close>

definition dx_done :: delegation_db where
  "dx_done = snd (file_auto_approved (dx_env 5 ''r1'') (dx_input ''why'') ''why'' 65 (dx_pattern 0) (dx_db 1))"

lemma dx_done: "file_auto_approved (dx_env 5 ''r1'') (dx_input ''why'') ''why'' 65 (dx_pattern 0) (dx_db 1) = (Inr ''r1'', dx_done)"
  "delegation_grants dx_done = [dx_pattern 1, dx_row]"
  using dx_filed by (auto simp: dx_done_def)

lemma dx_pattern_simps [simp]:
  "dg_id (dx_pattern n) = ''p''" "dg_max_uses (dx_pattern n) = Some 1" "dg_use_count (dx_pattern n) = n"
  "dg_request_hash (dx_pattern n) = None" "dx_pattern n = dx_pattern m \<longleftrightarrow> n = m"
  by (auto simp: dx_defs)

lemma dx_wf: "n \<le> 1 \<Longrightarrow> grants_wf (delegation_grants (dx_db n))"
  by (simp add: grants_wf_def dx_db_def)

definition dx_end :: delegation_sys where
  "dx_end = \<lparr>sy_db = dx_done, sy_credits = {#}, sy_auto = [(''p'', ''r1'')]\<rparr>"

lemma dx_run: "delegation_step\<^sup>*\<^sup>* (delegation_start (dx_db 0)) dx_end"
proof -
  let ?s = "(delegation_start (dx_db 0))\<lparr>sy_db := dx_db 1, sy_credits := {#''p''#}\<rparr>"
  have "delegation_step (delegation_start (dx_db 0)) ?s"
    using delegation_step.reserve [of "''p''" "''o''" "delegation_start (dx_db 0)", OF _] dx_reserved
    by (auto simp: delegation_start_def)
  moreover have "delegation_step ?s dx_end"
    using delegation_step.redeem [of "''p''" ?s "dx_pattern 0" _ _ _ _ "''r1''" dx_done] dx_done
    by (simp add: delegation_start_def dx_end_def auto_approvals_def dx_db_def)
  ultimately show ?thesis by auto
qed

theorem pattern_budget_respected_witness:
  "length (filter (\<lambda>a. fst a = ''p'') (sy_auto dx_end)) + count (sy_credits dx_end) ''p'' \<le> 1 \<and>
   (\<exists>h \<in> set (delegation_grants dx_done). dg_id h = ''r1'' \<and> dg_context h ''via_pattern'' = Some (json_id ''p'') \<and>
      dg_status h = GrantStatusApproved)"
  using pattern_budget_respected [OF dx_wf dx_run, of "dx_pattern 1" 1]
  by (simp add: dx_end_def dx_done)

section \<open>A person decides\<close>

definition dx_ask :: "delegation_db \<Rightarrow> (store_error + uuid) \<times> delegation_db" where
  "dx_ask = RequestDelegation (\<lambda>s. s) (\<lambda>_. dx_env 5 ''r1'') 5 (\<lambda>_ db. db) (dx_input ''why'')"

definition dx_asked :: delegation_sys where
  "dx_asked = delegation_start (snd (dx_ask (dx_db 1)))"

definition dx_pending :: delegation_grant where
  "dx_pending = requested_grant (dx_env 5 ''r1'') (dx_input ''why'') ''why'' 65"

lemmas dx_request = RequestDelegation_def ValidateRequest_def Let_def request_identity_def MatchPattern_def
  pattern_candidates_def select_ordered_def globMatchPattern_def spend_use_def file_request_def IncrementPatternUse_def

lemma dx_words: "TrimSpace ''why'' = ''why''" "TrimSpace ''no'' = ''no''"
  by (simp_all add: TrimSpace_def utf8_spaces_def strip_front.simps)

lemma dx_asks: "dx_ask (dx_db 1) = (Inr ''r1'', sy_db dx_asked)"
    "delegation_grants (sy_db dx_asked) = [dx_pattern 1, dx_pending]"
  unfolding dx_asked_def dx_ask_def
  by (simp_all add: dx_request dx_store dx_defs dx_words dx_pending_def delegation_start_def)

lemma dx_asked_wf: "grants_wf (delegation_grants (sy_db dx_asked))"
  by (simp add: dx_asks grants_wf_def identity_clash_def dx_pending_def dx_env_def)

definition dx_decided :: delegation_sys where
  "dx_decided = dx_asked\<lparr>sy_db := snd (DecideDelegation (dx_env 100 []) ''r1'' ''o'' ''g'' GrantStatusDenied ''no'' (sy_db dx_asked))\<rparr>"

definition dx_denied :: delegation_grant where
  "dx_denied = decided_grant (dx_env 100 []) ''g'' GrantStatusDenied ''no'' dx_pending"

lemma dx_decides:
  "DecideDelegation (dx_env 100 []) ''r1'' ''o'' ''g'' GrantStatusDenied ''no'' (sy_db dx_asked) = (Inr dx_denied, sy_db dx_decided)"
  "delegation_grants (sy_db dx_decided) = [dx_pattern 1, dx_denied]"
  by (simp_all add: dx_decided_def DecideDelegation_def DecideGrant_def Let_def dx_words dx_asks dx_store dx_defs
      dx_pending_def dx_denied_def)

lemma dx_other_runs: "other_runs (\<lambda>_ db. db)"
  unfolding other_runs_def by (metis delegation_sys.select_convs(1) rtranclp.rtrancl_refl)

theorem delegation_decided_once_witness:
  "DecideDelegation (dx_env 200 []) ''r1'' ''o'' ''h'' GrantStatusApproved [] (sy_db dx_decided) =
     (Inl ErrTypeConflict, sy_db dx_decided)"
  using delegation_decided_once [OF dx_asked_wf dx_decides(1) rtranclp.rtrancl_refl,
      of "dx_env 200 []" "''h''" GrantStatusApproved "[]"]
  by (auto simp: dx_env_def)

lemma dx_asks_again:
  "\<exists>db. RequestDelegation (\<lambda>s. s) (\<lambda>_. dx_env 9 ''r2'') 9 (\<lambda>_ db. db) (dx_input ''why'') (sy_db dx_decided) = (Inr ''r1'', db)"
  by (simp add: dx_request dx_store dx_words dx_decides dx_denied_def dx_pending_def dx_defs)

theorem delegation_request_idempotent_witness:
  "fst (RequestDelegation (\<lambda>s. s) (\<lambda>_. dx_env 9 ''r2'') 9 (\<lambda>_ db. db) (dx_input ''why'') (sy_db dx_decided)) = Inr ''r1''"
proof -
  obtain db where db: "RequestDelegation (\<lambda>s. s) (\<lambda>_. dx_env 9 ''r2'') 9 (\<lambda>_ db. db) (dx_input ''why'') (sy_db dx_decided) = (Inr ''r1'', db)"
    using dx_asks_again by blast
  have "delegation_step\<^sup>*\<^sup>* dx_asked dx_decided"
    unfolding dx_decided_def by (rule r_into_rtranclp) (rule delegation_step.decide)
  from delegation_request_idempotent [OF dx_wf dx_other_runs dx_other_runs dx_asks(1) [unfolded dx_ask_def] this refl refl db]
  show ?thesis using db by simp
qed

theorem delegation_wait_sees_decision_witness:
  "\<exists>e. WaitForDelegation ''r1'' (read_grant ''r1'' ''o'' dx_asked) (map (\<lambda>k. (0, read_grant ''r1'' ''o'' ([dx_asked, dx_decided] ! k)))
     (notifications ''r1'' ''o'' [dx_asked, dx_decided])) = Inr [e] \<and> de_status e = GrantStatusDenied \<and> de_reason e = ''no''"
proof -
  have run: "successively delegation_step [dx_asked, dx_decided]" by (simp add: dx_decided_def delegation_step.decide)
  have get: "GetDelegationGrant ''r1'' ''o'' (sy_db dx_asked) = Inr dx_pending"
      "GetDelegationGrant ''r1'' ''o'' (sy_db dx_decided) = Inr dx_denied"
    by (simp_all add: GetDelegationGrant_def dx_asks dx_decides dx_store dx_pending_def dx_denied_def dx_defs)
  have reads: "\<forall>k \<in> set (notifications ''r1'' ''o'' [dx_asked, dx_decided]). k \<le> k \<and> k < length [dx_asked, dx_decided]"
    by (auto simp: notifications_def)
  have denied: "dg_status dx_denied = GrantStatusDenied" "dg_reason dx_denied = ''no''" "GrantIsTerminal dx_denied"
    by (simp_all add: dx_denied_def decided_grant_def GrantIsTerminal_def)
  have "WaitForDelegation ''r1'' (read_grant ''r1'' ''o'' ([dx_asked, dx_decided] ! 0)) (map (\<lambda>k. (0, read_grant ''r1'' ''o'' ([dx_asked, dx_decided] ! k)))
      (notifications ''r1'' ''o'' [dx_asked, dx_decided])) = Inr (Subscribe (read_grant ''r1'' ''o'' dx_asked)
      (map (\<lambda>k. (0, read_grant ''r1'' ''o'' ([dx_asked, dx_decided] ! k))) (notifications ''r1'' ''o'' [dx_asked, dx_decided])))"
    by (simp add: WaitForDelegation_def)
  from delegation_wait_sees_decision [of "[dx_asked, dx_decided]", OF _ run _ _ reads _ this] dx_asked_wf get denied
  show ?thesis by (auto simp: WaitForDelegation_def)
qed

section \<open>Where the code falls short of its comments\<close>

text \<open>
  A transaction that never begins spends no use, and the request is approved through an exhausted
  pattern; and a retry of a denied request spends a use and reports an approval of a grant that
  stays denied.
\<close>

lemma exhausted_pattern_approves:
  "\<exists>db. RequestDelegation (\<lambda>s. s) (\<lambda>k. (dx_env 5 ''r1'')\<lparr>dn_tx := if k = 1 then BeginFails else Commits\<rparr>) 5 (\<lambda>_ db. db)
     (dx_input ''why'') (dx_db 1) = (Inr ''r1'', db) \<and> dx_row \<in> set (delegation_grants db)"
  by (simp add: dx_request dx_store dx_words dx_defs dx_row_def file_auto_approved_def)

lemma denied_request_reported_approved:
  "\<exists>db entry. RequestDelegation (\<lambda>s. s) (\<lambda>_. dx_env 9 ''r2'') 9 (\<lambda>_ db. db) (dx_input ''why'')
     \<lparr>delegation_grants = [dx_pattern 0, dx_denied], delegation_audit = []\<rparr> = (Inr ''r1'', db) \<and>
     delegation_grants db = [dx_pattern 1, dx_denied] \<and> delegation_audit db = [entry] \<and>
     ae_event_type entry = ''saas.delegation.auto_approved''"
  by (simp add: dx_request dx_store dx_words dx_defs dx_denied_def dx_pending_def file_auto_approved_def delegation_event_def)

text \<open>A request can still be granted after it expired, and a page can lose a request of lower risk.\<close>

lemma expired_request_granted:
  "dg_expires_at dx_pending < 100 \<and>
   (\<exists>g. fst (DecideDelegation (dx_env 100 []) ''r1'' ''o'' ''g'' GrantStatusApproved [] (sy_db dx_asked)) = Inr g \<and>
      dg_status g = GrantStatusApproved)"
  by (simp add: DecideDelegation_def DecideGrant_def Let_def dx_asks dx_store dx_defs dx_pending_def)

lemma pending_page_skips_request:
  fixes db
  defines "db \<equiv> \<lparr>delegation_grants = [dx_pending, dx_pending\<lparr>dg_id := ''r2'', dg_risk_level := ''low''\<rparr>], delegation_audit = []\<rparr>"
  shows "ListPending ''o'' 1 None db = ([dx_pending], Some ''r1'')" "ListPending ''o'' 1 (Some ''r1'') db = ([], None)"
  unfolding db_def by (simp_all add: ListPending_def Let_def select_ordered_def risk_rank_def dx_pending_def dx_defs)

text \<open>
  A requester woken by the approval reads the grant before the token is recorded: recording it
  changes no status, so no later notification tells of it.
\<close>

lemma token_never_announced:
  "\<not> notify_decided g (g\<lparr>dg_minted_token_id := token\<rparr>) \<and>
   (GrantIsTerminal g \<and> dg_minted_token_id g = [] \<longrightarrow>
     (\<exists>e. Subscribe (Some g) reads = [e] \<and> \<not> de_token_set e))"
  by (simp add: notify_decided_def Subscribe_def emitDelegationEvent_def delegation_decision_def)

end
