(* ===== verification/Role_Catalog.thy ===== *)
theory Role_Catalog
  imports Service_Core Job_State
begin

text \<open>
  The import of built-in roles: \<^verbatim>\<open>pkg/rolecatalog/catalog.go\<close> checks and canonicalizes a catalog
  document, \<^verbatim>\<open>pkg/rolecatalog/plan.go\<close> compares it with the roles in the database, and
  \<^verbatim>\<open>pkg/infra/postgres_role_catalog.go\<close> applies the difference in one transaction.  The JSON
  decoder and encoder and SHA-256 are arguments.
\<close>

section \<open>The catalog document\<close>

record permission =
  pm_resource :: string
  pm_action :: string

record role =
  ro_name :: string
  ro_description :: string
  ro_scope :: string
  ro_permissions :: "permission list"

record catalog =
  ct_version :: nat
  ct_roles :: "role list"

definition SupportedVersion :: nat where
  "SupportedVersion = 1"

definition permission_text :: "permission \<Rightarrow> string" where
  "permission_text p = pm_resource p @ '':'' @ pm_action p"

definition permission_less :: "permission \<Rightarrow> permission \<Rightarrow> bool" where
  "permission_less a b =
     (if pm_resource a \<noteq> pm_resource b then pm_resource a < pm_resource b else pm_action a < pm_action b)"

text \<open>\<^verbatim>\<open>sort.Slice\<close> by \<^verbatim>\<open>less\<close> is the sort by the pair of the two fields.\<close>

definition permission_key :: "permission \<Rightarrow> string \<times> string" where
  "permission_key p = (pm_resource p, pm_action p)"

lemma permission_less_iff: "permission_less a b \<longleftrightarrow> permission_key a < permission_key b"
  by (auto simp: permission_less_def permission_key_def)

lemma permission_key_inj: "permission_key a = permission_key b \<longleftrightarrow> a = b"
  by (cases a; cases b) (simp add: permission_key_def)

definition name_start :: "char \<Rightarrow> bool" where
  "name_start c \<longleftrightarrow> (CHR ''A'' \<le> c \<and> c \<le> CHR ''Z'') \<or> (CHR ''a'' \<le> c \<and> c \<le> CHR ''z'') \<or> (CHR ''0'' \<le> c \<and> c \<le> CHR ''9'')"

definition namePattern :: "string \<Rightarrow> bool" where
  "namePattern s =
     (case s of [] \<Rightarrow> False | c # cs \<Rightarrow> name_start c \<and> list_all (\<lambda>c. name_start c \<or> c \<in> set '':_./-'') cs)"

definition tokenPattern :: "string \<Rightarrow> bool" where
  "tokenPattern s \<longleftrightarrow> s = ''*'' \<or> namePattern s"

datatype catalog_error =
    DecodeFailed
  | TrailingContent
  | UnsupportedVersion nat
  | BadRoleName string
  | DuplicateRole string
  | BadScope string string
  | BadResource string string
  | BadAction string string
  | DuplicatePermission string permission

fun check_permissions :: "string \<Rightarrow> permission set \<Rightarrow> permission list \<Rightarrow> catalog_error + unit" where
  "check_permissions name perms [] = Inr ()"
| "check_permissions name perms (perm # rest) =
     (if \<not> tokenPattern (pm_resource perm) then Inl (BadResource name (pm_resource perm))
      else if \<not> tokenPattern (pm_action perm) then Inl (BadAction name (pm_action perm))
      else if perm \<in> perms then Inl (DuplicatePermission name perm)
      else check_permissions name (insert perm perms) rest)"

definition canonicalizePermissions :: "role \<Rightarrow> catalog_error + role" where
  "canonicalizePermissions r =
     rbind (check_permissions (ro_name r) {} (ro_permissions r)) (\<lambda>_.
     Inr (r\<lparr>ro_permissions := sort_key permission_key (ro_permissions r)\<rparr>))"

fun canonicalize_roles :: "string set \<Rightarrow> role list \<Rightarrow> catalog_error + role list" where
  "canonicalize_roles seen [] = Inr []"
| "canonicalize_roles seen (r # rest) =
     (if \<not> namePattern (ro_name r) then Inl (BadRoleName (ro_name r))
      else if ro_name r \<in> seen then Inl (DuplicateRole (ro_name r))
      else if ro_scope r \<noteq> [] \<and> \<not> namePattern (ro_scope r) then Inl (BadScope (ro_name r) (ro_scope r))
      else
        rbind (canonicalizePermissions r) (\<lambda>r'.
        rbind (canonicalize_roles (insert (ro_name r) seen) rest) (\<lambda>rest'. Inr (r' # rest'))))"

text \<open>The decoder answers the document and whether anything follows it.\<close>

definition Parse :: "(string \<Rightarrow> (catalog \<times> bool) option) \<Rightarrow> string \<Rightarrow> catalog_error + catalog" where
  "Parse decode document =
     (case decode document of
        None \<Rightarrow> Inl DecodeFailed
      | Some (cat, trailing) \<Rightarrow>
          if trailing then Inl TrailingContent
          else if ct_version cat \<noteq> SupportedVersion then Inl (UnsupportedVersion (ct_version cat))
          else
            rbind (canonicalize_roles {} (ct_roles cat)) (\<lambda>roles.
            Inr (cat\<lparr>ct_roles := sort_key ro_name roles\<rparr>)))"

definition Fingerprint :: "(catalog \<Rightarrow> string option) \<Rightarrow> (string \<Rightarrow> string) \<Rightarrow> catalog \<Rightarrow> string" where
  "Fingerprint marshal sha cat =
     (case marshal cat of None \<Rightarrow> [] | Some encoded \<Rightarrow> hex_EncodeToString (sha encoded))"

section \<open>The plan\<close>

record state_role =
  sr_id :: uuid
  sr_name :: string
  sr_description :: string
  sr_scope :: string
  sr_catalog_managed :: bool
  sr_permissions :: "permission list"
  sr_assignment_count :: nat

record role_update =
  ru_role_id :: uuid
  ru_name :: string
  ru_adopt_managed :: bool
  ru_description_change :: "(string \<times> string) option"
  ru_scope_change :: "(string \<times> string) option"
  ru_add_permissions :: "permission list"
  ru_remove_permissions :: "permission list"
  ru_desired_description :: string
  ru_desired_scope :: string

definition RowChanged :: "role_update \<Rightarrow> bool" where
  "RowChanged u \<longleftrightarrow> ru_adopt_managed u \<or> ru_description_change u \<noteq> None \<or> ru_scope_change u \<noteq> None"

record role_remove =
  rm_role_id :: uuid
  rm_name :: string
  rm_assignment_count :: nat
  rm_permissions :: "permission list"

record plan =
  pl_creates :: "role list"
  pl_updates :: "role_update list"
  pl_removes :: "role_remove list"

definition plan_Empty :: "plan \<Rightarrow> bool" where
  "plan_Empty p \<longleftrightarrow> length (pl_creates p) = 0 \<and> length (pl_updates p) = 0 \<and> length (pl_removes p) = 0"

definition OrphaningRemovals :: "plan \<Rightarrow> role_remove list" where
  "OrphaningRemovals p = filter (\<lambda>r. rm_assignment_count r > 0) (pl_removes p)"

definition diffPermissions :: "permission list \<Rightarrow> permission list \<Rightarrow> permission list \<times> permission list" where
  "diffPermissions current want =
     (sort_key permission_key (filter (\<lambda>p. p \<notin> set current) want),
      sort_key permission_key (filter (\<lambda>p. p \<notin> set want) current))"

definition string_change :: "string \<Rightarrow> string \<Rightarrow> (string \<times> string) option" where
  "string_change current want = (if current \<noteq> want then Some (current, want) else None)"

definition diffRole :: "state_role \<Rightarrow> role \<Rightarrow> role_update \<times> bool" where
  "diffRole current want =
     (let (add, remove) = diffPermissions (sr_permissions current) (ro_permissions want);
          update = \<lparr>ru_role_id = sr_id current, ru_name = sr_name current,
            ru_adopt_managed = (\<not> sr_catalog_managed current),
            ru_description_change = string_change (sr_description current) (ro_description want),
            ru_scope_change = string_change (sr_scope current) (ro_scope want),
            ru_add_permissions = add, ru_remove_permissions = remove,
            ru_desired_description = ro_description want, ru_desired_scope = ro_scope want\<rparr>
      in (update, \<not> sr_catalog_managed current \<or> sr_description current \<noteq> ro_description want \<or>
            sr_scope current \<noteq> ro_scope want \<or> length add > 0 \<or> length remove > 0))"

text \<open>\<^verbatim>\<open>byName\<close>, filled in order, so a later role of the same name replaces an earlier one.\<close>

definition by_name :: "state_role list \<Rightarrow> string \<rightharpoonup> state_role" where
  "by_name roles = map_of (rev (map (\<lambda>r. (sr_name r, r)) roles))"

definition diff_updates :: "state_role list \<Rightarrow> role list \<Rightarrow> role_update list" where
  "diff_updates roles wants =
     concat (map (\<lambda>want. case by_name roles (ro_name want) of
        None \<Rightarrow> []
      | Some current \<Rightarrow> let (update, changed) = diffRole current want in if changed then [update] else []) wants)"

definition Diff :: "state_role list \<Rightarrow> catalog \<Rightarrow> plan" where
  "Diff state cat =
     \<lparr>pl_creates = sort_key ro_name (filter (\<lambda>want. by_name state (ro_name want) = None) (ct_roles cat)),
      pl_updates = sort_key ru_name (diff_updates state (ct_roles cat)),
      pl_removes = sort_key rm_name
        (map (\<lambda>current. \<lparr>rm_role_id = sr_id current, rm_name = sr_name current,
            rm_assignment_count = sr_assignment_count current, rm_permissions = sr_permissions current\<rparr>)
          (filter (\<lambda>current. sr_catalog_managed current \<and> sr_name current \<notin> ro_name ` set (ct_roles cat)) state))\<rparr>"

section \<open>The tables\<close>

record role_row =
  rl_id :: uuid
  rl_name :: string
  rl_description :: "string option"
  rl_built_in :: bool
  rl_org_id :: "uuid option"
  rl_scope :: "string option"
  rl_catalog_managed :: bool
  rl_derived_from :: "string option"

text \<open>
  A permission of a role, and the rows that hold a role: its assignments, the scope grants and the
  record shares, each with its own id.  All four go with the role, by \<^verbatim>\<open>ON DELETE CASCADE\<close>.
\<close>

record role_db =
  roles :: "role_row list"
  role_permissions :: "(uuid \<times> permission) list"
  role_assignments :: "(uuid \<times> uuid) list"
  scope_grants :: "(uuid \<times> uuid) list"
  record_shares :: "(uuid \<times> uuid) list"
  role_audit :: "audit_entry list"

record import_env =
  im_new_id :: "string \<Rightarrow> uuid"
  im_accepts_audit :: "audit_entry \<Rightarrow> bool"
  im_fingerprint :: "catalog \<Rightarrow> string"

definition nilIfEmpty :: "string \<Rightarrow> string option" where
  "nilIfEmpty s = (if s = [] then None else Some s)"

definition text_of :: "string option \<Rightarrow> string" where
  "text_of s = (case s of None \<Rightarrow> [] | Some t \<Rightarrow> t)"

definition is_builtin :: "role_row \<Rightarrow> bool" where
  "is_builtin r \<longleftrightarrow> rl_derived_from r = None \<and> rl_org_id r = None \<and> rl_built_in r"

definition permissions_of :: "uuid \<Rightarrow> role_db \<Rightarrow> permission list" where
  "permissions_of i db = map snd (filter (\<lambda>rp. fst rp = i) (role_permissions db))"

definition assignment_count :: "uuid \<Rightarrow> role_db \<Rightarrow> nat" where
  "assignment_count i db = length (filter (\<lambda>a. snd a = i) (role_assignments db))"

text \<open>
  The rows of the join come ordered by role name, which no two of these roles share, so the rows of
  one role are adjacent and grouping them by id lists the roles by name.
\<close>

definition snapshot_role :: "role_db \<Rightarrow> role_row \<Rightarrow> state_role" where
  "snapshot_role db r =
     \<lparr>sr_id = rl_id r, sr_name = rl_name r, sr_description = text_of (rl_description r), sr_scope = text_of (rl_scope r),
      sr_catalog_managed = rl_catalog_managed r,
      sr_permissions = sort_key permission_key (permissions_of (rl_id r) db),
      sr_assignment_count = (if rl_catalog_managed r then assignment_count (rl_id r) db else 0)\<rparr>"

definition snapshotBuiltinRoles :: "role_db \<Rightarrow> state_role list" where
  "snapshotBuiltinRoles db = map (snapshot_role db) (sort_key rl_name (filter is_builtin (roles db)))"

section \<open>Applying a plan\<close>

definition emitCatalogAudit :: "import_env \<Rightarrow> string \<Rightarrow> uuid \<Rightarrow> (string \<times> string) list \<Rightarrow> (string \<times> string) list \<Rightarrow>
   role_db \<Rightarrow> store_error + role_db" where
  "emitCatalogAudit env event i metadata provenance db =
     (let entry = \<lparr>ae_actor_id = [], ae_actor_type = ''system'', ae_event_type = event, ae_resource = ''role'',
                   ae_resource_id = i, ae_org_id = [], ae_payload = metadata @ provenance\<rparr>
      in if im_accepts_audit env entry then Inr (db\<lparr>role_audit := role_audit db @ [entry]\<rparr>) else Inl ErrAudit)"

definition insertRolePermission :: "uuid \<Rightarrow> permission \<Rightarrow> role_db \<Rightarrow> store_error + role_db" where
  "insertRolePermission i perm db =
     (if (i, perm) \<in> set (role_permissions db) \<or> i \<notin> rl_id ` set (roles db) then Inl ErrConstraint
      else Inr (db\<lparr>role_permissions := role_permissions db @ [(i, perm)]\<rparr>))"

fun insert_permissions :: "uuid \<Rightarrow> permission list \<Rightarrow> role_db \<Rightarrow> store_error + role_db" where
  "insert_permissions i [] db = Inr db"
| "insert_permissions i (perm # rest) db = rbind (insertRolePermission i perm db) (insert_permissions i rest)"

definition insert_role :: "role_row \<Rightarrow> role_db \<Rightarrow> store_error + role_db" where
  "insert_role r db =
     (if \<exists>old \<in> set (roles db). rl_id old = rl_id r \<or> (rl_org_id old = None \<and> rl_name old = rl_name r)
      then Inl ErrConstraint
      else Inr (db\<lparr>roles := roles db @ [r]\<rparr>))"

definition created_role :: "uuid \<Rightarrow> role \<Rightarrow> role_row" where
  "created_role i r =
     \<lparr>rl_id = i, rl_name = ro_name r, rl_description = nilIfEmpty (ro_description r), rl_built_in = True, rl_org_id = None,
      rl_scope = nilIfEmpty (ro_scope r), rl_catalog_managed = True, rl_derived_from = None\<rparr>"

definition apply_create :: "import_env \<Rightarrow> (string \<times> string) list \<Rightarrow> role \<Rightarrow> role_db \<Rightarrow> store_error + role_db" where
  "apply_create env provenance r db =
     (let i = im_new_id env (ro_name r) in
      rbind (insert_role (created_role i r) db) (\<lambda>db.
      rbind (insert_permissions i (ro_permissions r) db) (\<lambda>db.
      emitCatalogAudit env ''saas.role.created'' i
        [(''name'', ro_name r), (''permissions_added'', decimal_digits (length (ro_permissions r)))] provenance db)))"

definition update_role_row :: "role_update \<Rightarrow> role_db \<Rightarrow> role_db" where
  "update_role_row u db =
     (if RowChanged u then
        db\<lparr>roles := update_where (\<lambda>r. rl_id r = ru_role_id u)
          (\<lambda>r. r\<lparr>rl_description := nilIfEmpty (ru_desired_description u), rl_scope := nilIfEmpty (ru_desired_scope u),
                 rl_catalog_managed := True\<rparr>) (roles db)\<rparr>
      else db)"

definition remove_permissions :: "uuid \<Rightarrow> permission list \<Rightarrow> role_db \<Rightarrow> role_db" where
  "remove_permissions i perms db =
     fold (\<lambda>perm db. db\<lparr>role_permissions := filter (\<lambda>rp. rp \<noteq> (i, perm)) (role_permissions db)\<rparr>) perms db"

definition apply_update :: "import_env \<Rightarrow> (string \<times> string) list \<Rightarrow> role_update \<Rightarrow> role_db \<Rightarrow> store_error + role_db" where
  "apply_update env provenance u db =
     (let i = ru_role_id u in
      rbind (insert_permissions i (ru_add_permissions u) (remove_permissions i (ru_remove_permissions u) (update_role_row u db))) (\<lambda>db.
      emitCatalogAudit env ''saas.role.updated'' i
        [(''name'', ru_name u), (''permissions_added'', decimal_digits (length (ru_add_permissions u))),
         (''permissions_removed'', decimal_digits (length (ru_remove_permissions u)))] provenance db))"

definition delete_role :: "uuid \<Rightarrow> role_db \<Rightarrow> role_db" where
  "delete_role i db =
     db\<lparr>roles := filter (\<lambda>r. rl_id r \<noteq> i) (roles db),
        role_permissions := filter (\<lambda>rp. fst rp \<noteq> i) (role_permissions db),
        role_assignments := filter (\<lambda>a. snd a \<noteq> i) (role_assignments db),
        scope_grants := filter (\<lambda>g. snd g \<noteq> i) (scope_grants db),
        record_shares := filter (\<lambda>s. snd s \<noteq> i) (record_shares db)\<rparr>"

definition apply_remove :: "import_env \<Rightarrow> (string \<times> string) list \<Rightarrow> role_remove \<Rightarrow> role_db \<Rightarrow> store_error + role_db" where
  "apply_remove env provenance r db =
     emitCatalogAudit env ''saas.role.deleted'' (rm_role_id r)
       [(''name'', rm_name r), (''assignments_removed'', decimal_digits (rm_assignment_count r))] provenance
       (delete_role (rm_role_id r) db)"

fun apply_each :: "('c \<Rightarrow> role_db \<Rightarrow> store_error + role_db) \<Rightarrow> 'c list \<Rightarrow> role_db \<Rightarrow> store_error + role_db" where
  "apply_each f [] db = Inr db"
| "apply_each f (c # rest) db = rbind (f c db) (apply_each f rest)"

definition applyRoleCatalogPlan :: "import_env \<Rightarrow> plan \<Rightarrow> (string \<times> string) list \<Rightarrow> role_db \<Rightarrow> store_error + role_db" where
  "applyRoleCatalogPlan env p provenance db =
     rbind (apply_each (apply_create env provenance) (pl_creates p) db) (\<lambda>db.
     rbind (apply_each (apply_update env provenance) (pl_updates p) db) (\<lambda>db.
     apply_each (apply_remove env provenance) (pl_removes p) db))"

section \<open>The import\<close>

record import_options =
  op_dry_run :: bool
  op_force :: bool
  op_source :: string

record import_result =
  ir_plan :: plan
  ir_applied :: bool
  ir_refused :: bool
  ir_refusal_reason :: string

definition refuseImport :: "catalog \<Rightarrow> plan \<Rightarrow> bool \<Rightarrow> string \<times> bool" where
  "refuseImport cat p force =
     (if force then ([], False)
      else if length (ct_roles cat) = 0 \<and> length (pl_removes p) > 0 then
        (''catalog declares no roles; applying it would remove all '' @ decimal_digits (length (pl_removes p)) @
         '' catalog-managed role(s). Rerun with force to confirm.'', True)
      else if length (OrphaningRemovals p) > 0 then
        (decimal_digits (length (OrphaningRemovals p)) @
         '' role removal(s) would orphan existing assignments. Rerun with force to apply.'', True)
      else ([], False))"

definition catalogProvenance :: "import_env \<Rightarrow> catalog \<Rightarrow> string \<Rightarrow> (string \<times> string) list" where
  "catalogProvenance env cat source =
     [(''catalog_sha256'', im_fingerprint env cat)] @ (if source \<noteq> [] then [(''catalog_source'', source)] else [])"

definition ImportRoleCatalog :: "import_env \<Rightarrow> catalog \<Rightarrow> import_options \<Rightarrow> role_db \<Rightarrow>
   (store_error + import_result) \<times> role_db" where
  "ImportRoleCatalog env cat opts =
     Within (\<lambda>db.
       let p = Diff (snapshotBuiltinRoles db) cat;
           result = \<lparr>ir_plan = p, ir_applied = False, ir_refused = False, ir_refusal_reason = []\<rparr>
       in if op_dry_run opts then Inr (result, db)
          else let (reason, refused) = refuseImport cat p (op_force opts) in
            if refused then Inr (result\<lparr>ir_refused := True, ir_refusal_reason := reason\<rparr>, db)
            else rbind (applyRoleCatalogPlan env p (catalogProvenance env cat (op_source opts)) db) (\<lambda>db'.
              Inr (result\<lparr>ir_applied := True\<rparr>, db')))"

end
