(* ===== verification/Role_Catalog_Properties.thy ===== *)
theory Role_Catalog_Properties
  imports Role_Catalog
begin

text \<open>
  What an import of the role catalog does to the tables.  Each change of a plan touches one role;
  \<^verbatim>\<open>row_at\<close> and \<^verbatim>\<open>perms_at\<close> read the tables role by role, so the effect of a plan is a function
  update at the ids it names.
\<close>

section \<open>Reading the tables by role\<close>

definition row_at :: "role_db \<Rightarrow> uuid \<Rightarrow> role_row option" where
  "row_at db i = select_first (\<lambda>r. rl_id r = i) (roles db)"

definition perms_at :: "role_db \<Rightarrow> uuid \<Rightarrow> permission set" where
  "perms_at db i = {p. (i, p) \<in> set (role_permissions db)}"

text \<open>The keys of the tables and the reference of a permission to its role.\<close>

definition tables_wf :: "role_row list \<Rightarrow> (uuid \<times> permission) list \<Rightarrow> bool" where
  "tables_wf rows perms \<longleftrightarrow>
     distinct (map rl_id rows) \<and> distinct (map rl_name (filter (\<lambda>r. rl_org_id r = None) rows)) \<and>
     distinct perms \<and> fst ` set perms \<subseteq> rl_id ` set rows"

definition roles_wf :: "role_db \<Rightarrow> bool" where
  "roles_wf db \<longleftrightarrow> tables_wf (roles db) (role_permissions db)"

lemma wf_add_permission:
  "tables_wf rows perms \<Longrightarrow> i \<in> rl_id ` set rows \<Longrightarrow> (i, p) \<notin> set perms \<Longrightarrow> tables_wf rows (perms @ [(i, p)])"
  by (simp add: tables_wf_def)

lemma wf_drop_permissions: "tables_wf rows perms \<Longrightarrow> tables_wf rows (filter P perms)"
  unfolding tables_wf_def by (metis distinct_filter filter_is_subset image_mono subset_trans)

lemma wf_add_role:
  assumes "tables_wf rows perms" "rl_id r \<notin> rl_id ` set rows"
    and "\<And>old. old \<in> set rows \<Longrightarrow> rl_org_id old = None \<Longrightarrow> rl_name old \<noteq> rl_name r"
  shows "tables_wf (rows @ [r]) perms"
proof -
  have "rl_name r \<notin> set (map rl_name (filter (\<lambda>r. rl_org_id r = None) rows))" using assms(3) by fastforce
  then show ?thesis using assms(1,2) unfolding tables_wf_def by (simp add: subset_insertI2)
qed

lemma wf_drop_role:
  assumes "tables_wf rows perms"
  shows "tables_wf (filter (\<lambda>r. rl_id r \<noteq> i) rows) (filter (\<lambda>rp. fst rp \<noteq> i) perms)"
proof -
  have swap: "filter (\<lambda>r. rl_org_id r = None) (filter (\<lambda>r. rl_id r \<noteq> i) rows) =
      filter (\<lambda>r. rl_id r \<noteq> i) (filter (\<lambda>r. rl_org_id r = None) rows)" by (simp add: conj_commute)
  have fk: "fst ` set (filter (\<lambda>rp. fst rp \<noteq> i) perms) \<subseteq> rl_id ` set (filter (\<lambda>r. rl_id r \<noteq> i) rows)"
  proof
    fix j assume "j \<in> fst ` set (filter (\<lambda>rp. fst rp \<noteq> i) perms)"
    then have "j \<in> fst ` set perms" "j \<noteq> i" by auto
    then obtain r where "r \<in> set rows" "rl_id r = j" using assms unfolding tables_wf_def by (metis imageE subsetD)
    then show "j \<in> rl_id ` set (filter (\<lambda>r. rl_id r \<noteq> i) rows)" using \<open>j \<noteq> i\<close> by (intro image_eqI [of _ _ r]) auto
  qed
  have "distinct (map rl_name (filter (\<lambda>r. rl_org_id r = None) (filter (\<lambda>r. rl_id r \<noteq> i) rows)))"
    using assms distinct_map_filter swap unfolding tables_wf_def by metis
  then show ?thesis
    using assms fk unfolding tables_wf_def by (blast intro: distinct_map_filter distinct_filter)
qed

lemma row_at_permissions [simp]: "row_at (db\<lparr>role_permissions := perms\<rparr>) = row_at db"
  by (simp add: row_at_def fun_eq_iff)

lemma row_at_None: "row_at db i = None \<longleftrightarrow> i \<notin> rl_id ` set (roles db)"
  by (auto simp: row_at_def select_first_None)

lemma row_at_Some:
  assumes "row_at db i = Some r"
  shows "r \<in> set (roles db)" "rl_id r = i"
  using select_first_Some [OF assms [unfolded row_at_def]] by simp_all

lemma row_at_iff:
  assumes "roles_wf db"
  shows "row_at db i = Some r \<longleftrightarrow> r \<in> set (roles db) \<and> rl_id r = i"
proof
  assume "r \<in> set (roles db) \<and> rl_id r = i"
  then show "row_at db i = Some r"
    unfolding row_at_def using assms by (intro select_first_unique [where k = rl_id]) (simp_all add: roles_wf_def tables_wf_def)
qed (simp add: row_at_Some)

lemma perms_at_unlisted: "roles_wf db \<Longrightarrow> row_at db i = None \<Longrightarrow> perms_at db i = {}"
  unfolding roles_wf_def tables_wf_def row_at_None perms_at_def by (metis (mono_tags, lifting) Collect_empty_eq fst_conv imageI subsetD)

lemma set_permissions_of [simp]: "set (permissions_of i db) = perms_at db i"
  by (force simp: permissions_of_def perms_at_def)

lemma global_name_unique:
  assumes "roles_wf db" "a \<in> set (roles db)" "b \<in> set (roles db)" "rl_org_id a = None" "rl_org_id b = None" "rl_name a = rl_name b"
  shows "a = b"
  using assms by (auto simp: roles_wf_def tables_wf_def distinct_map inj_on_def)

section \<open>One change\<close>

definition holders_same :: "role_db \<Rightarrow> role_db \<Rightarrow> bool" where
  "holders_same db db' \<longleftrightarrow>
     role_assignments db' = role_assignments db \<and> scope_grants db' = scope_grants db \<and> record_shares db' = record_shares db"

lemma holders_same_trans: "holders_same a b \<Longrightarrow> holders_same b c \<Longrightarrow> holders_same a c"
  by (simp add: holders_same_def)

lemma emitCatalogAudit_Inr:
  assumes "emitCatalogAudit env event i md prov db = Inr db'"
  shows "row_at db' = row_at db" "perms_at db' = perms_at db" "roles_wf db' = roles_wf db" "holders_same db db'"
    "roles db' = roles db"
proof -
  obtain trail where "db' = db\<lparr>role_audit := trail\<rparr>"
    using assms by (auto simp: emitCatalogAudit_def Let_def split: if_splits)
  then show "row_at db' = row_at db" "perms_at db' = perms_at db" "roles_wf db' = roles_wf db" "holders_same db db'" "roles db' = roles db"
    by (simp_all add: row_at_def perms_at_def roles_wf_def holders_same_def fun_eq_iff)
qed

lemma insert_permissions_Inr:
  assumes "insert_permissions i ps db = Inr db'" "roles_wf db"
  shows "roles_wf db' \<and> row_at db' = row_at db \<and> perms_at db' = (perms_at db)(i := perms_at db i \<union> set ps) \<and> holders_same db db'"
  using assms
proof (induction ps arbitrary: db)
  case Nil
  then show ?case by (simp add: holders_same_def)
next
  case (Cons p ps)
  obtain db1 where db1: "insertRolePermission i p db = Inr db1" "insert_permissions i ps db1 = Inr db'"
    using Cons.prems(1) by (auto simp: rbind_eq_Inr)
  have one: "roles_wf db1" "row_at db1 = row_at db" "holders_same db db1" "perms_at db1 = (perms_at db)(i := insert p (perms_at db i))"
    using db1(1) Cons.prems(2)
    by (auto simp: insertRolePermission_def roles_wf_def row_at_def perms_at_def holders_same_def wf_add_permission split: if_splits)
  note rest = Cons.IH [OF db1(2) one(1)]
  have "perms_at db' j = ((perms_at db)(i := perms_at db i \<union> set (p # ps))) j" for j using rest one(4) by simp
  then have "perms_at db' = (perms_at db)(i := perms_at db i \<union> set (p # ps))" ..
  moreover have "holders_same db db'" using holders_same_trans [OF one(3)] rest by simp
  ultimately show ?case using rest one(2) by (simp only: simp_thms)
qed

lemma insert_role_Inr:
  assumes "insert_role r db = Inr db'" "roles_wf db"
  shows "row_at db (rl_id r) = None" "row_at db' = (row_at db)(rl_id r \<mapsto> r)" "perms_at db' = perms_at db" "holders_same db db'"
    "rl_org_id r = None \<Longrightarrow> roles_wf db'"
proof -
  have new: "\<forall>old \<in> set (roles db). rl_id old \<noteq> rl_id r \<and> (rl_org_id old = None \<longrightarrow> rl_name old \<noteq> rl_name r)"
    and db': "db' = db\<lparr>roles := roles db @ [r]\<rparr>"
    using assms(1) by (auto simp: insert_role_def split: if_splits)
  show none: "row_at db (rl_id r) = None" using new by (auto simp: row_at_None)
  show "row_at db' = (row_at db)(rl_id r \<mapsto> r)"
  proof
    fix i
    show "row_at db' i = ((row_at db)(rl_id r \<mapsto> r)) i"
      using none by (cases "row_at db i") (auto simp: db' row_at_def select_first_append, auto simp: select_first_def)
  qed
  show "perms_at db' = perms_at db" "holders_same db db'" by (simp_all add: db' perms_at_def fun_eq_iff holders_same_def)
  show "roles_wf db'" if "rl_org_id r = None"
    using assms(2) new unfolding roles_wf_def db' by (auto intro!: wf_add_role)
qed

lemma apply_create_Inr:
  assumes "apply_create env prov r db = Inr db'" "roles_wf db"
  defines "i \<equiv> im_new_id env (ro_name r)"
  shows "roles_wf db' \<and> row_at db i = None \<and> row_at db' = (row_at db)(i \<mapsto> created_role i r) \<and>
    perms_at db' = (perms_at db)(i := set (ro_permissions r)) \<and> holders_same db db'"
proof -
  obtain db1 db2 where 1: "insert_role (created_role i r) db = Inr db1" and 2: "insert_permissions i (ro_permissions r) db1 = Inr db2"
    and 3: "emitCatalogAudit env ''saas.role.created'' i
        [(''name'', ro_name r), (''permissions_added'', decimal_digits (length (ro_permissions r)))] prov db2 = Inr db'"
    using assms(1) unfolding apply_create_def Let_def i_def by (auto simp: rbind_eq_Inr)
  note c1 = insert_role_Inr [OF 1 assms(2)]
  have wf1: "roles_wf db1" using c1(5) by (simp add: created_role_def)
  note c2 = insert_permissions_Inr [OF 2 wf1] and c3 = emitCatalogAudit_Inr [OF 3]
  have "rl_id (created_role i r) = i" by (simp add: created_role_def)
  moreover from this have "perms_at db i = {}" using perms_at_unlisted [OF assms(2)] c1(1) by simp
  ultimately show ?thesis using c1 c2 c3 by (auto simp: holders_same_def)
qed

definition updated_role :: "role_update \<Rightarrow> role_row \<Rightarrow> role_row" where
  "updated_role u r =
     (if RowChanged u then r\<lparr>rl_description := nilIfEmpty (ru_desired_description u), rl_scope := nilIfEmpty (ru_desired_scope u),
        rl_catalog_managed := True\<rparr> else r)"

lemma updated_role_simps [simp]:
  "rl_id (updated_role u r) = rl_id r" "rl_name (updated_role u r) = rl_name r" "rl_org_id (updated_role u r) = rl_org_id r"
  "is_builtin (updated_role u r) = is_builtin r"
  by (simp_all add: updated_role_def is_builtin_def)

lemma update_role_row_alt:
  "update_role_row u db = db\<lparr>roles := map (\<lambda>r. if rl_id r = ru_role_id u then updated_role u r else r) (roles db)\<rparr>"
  by (simp add: update_role_row_def updated_role_def update_where_def map_idI)

lemma update_role_row_props:
  assumes "roles_wf db"
  shows "roles_wf (update_role_row u db)" "perms_at (update_role_row u db) = perms_at db" "holders_same db (update_role_row u db)"
    "row_at (update_role_row u db) = (row_at db)(ru_role_id u := map_option (updated_role u) (row_at db (ru_role_id u)))"
proof -
  let ?u = "\<lambda>r. if rl_id r = ru_role_id u then updated_role u r else r"
  have ids: "map rl_id (map ?u rs) = map rl_id rs" for rs by simp
  have names: "map rl_name (filter (\<lambda>r. rl_org_id r = None) (map ?u rs)) = map rl_name (filter (\<lambda>r. rl_org_id r = None) rs)" for rs
    by (induction rs) auto
  have "rl_id ` set (map ?u rs) = rl_id ` set rs" for rs using ids [of rs] by (metis set_map)
  then have "tables_wf (map ?u (roles db)) (role_permissions db)"
    using assms unfolding roles_wf_def tables_wf_def names ids by blast
  then show "roles_wf (update_role_row u db)" by (simp add: roles_wf_def update_role_row_alt)
  show "perms_at (update_role_row u db) = perms_at db" "holders_same db (update_role_row u db)"
    by (simp_all add: update_role_row_alt perms_at_def holders_same_def fun_eq_iff)
  have "select_first (\<lambda>r. rl_id r = i) (map ?u rs) =
      (if i = ru_role_id u then map_option (updated_role u) (select_first (\<lambda>r. rl_id r = i) rs) else select_first (\<lambda>r. rl_id r = i) rs)" for i rs
    by (induction rs) (auto simp: select_first_def)
  then show "row_at (update_role_row u db) = (row_at db)(ru_role_id u := map_option (updated_role u) (row_at db (ru_role_id u)))"
    by (auto simp: row_at_def update_role_row_alt fun_eq_iff)
qed

lemma remove_permissions_alt:
  "remove_permissions i ps db = db\<lparr>role_permissions := filter (\<lambda>rp. \<not> (fst rp = i \<and> snd rp \<in> set ps)) (role_permissions db)\<rparr>"
proof (induction ps arbitrary: db)
  case Nil
  then show ?case by (simp add: remove_permissions_def)
next
  case (Cons p ps)
  have "filter (\<lambda>rp. \<not> (fst rp = i \<and> snd rp \<in> set ps)) (filter (\<lambda>rp. rp \<noteq> (i, p)) rows) =
      filter (\<lambda>rp. \<not> (fst rp = i \<and> snd rp \<in> set (p # ps))) rows" for rows
    by (induction rows) auto
  then show ?case
    using Cons.IH [of "db\<lparr>role_permissions := filter (\<lambda>rp. rp \<noteq> (i, p)) (role_permissions db)\<rparr>"]
    by (simp add: remove_permissions_def)
qed

lemma perms_at_filter:
  "perms_at (db\<lparr>role_permissions := filter (\<lambda>rp. fst rp = i \<longrightarrow> snd rp \<notin> X) (role_permissions db)\<rparr>) = (perms_at db)(i := perms_at db i - X)"
  by (rule ext) (auto simp: perms_at_def)

lemma remove_permissions_props:
  assumes "roles_wf db"
  shows "roles_wf (remove_permissions i ps db)" "perms_at (remove_permissions i ps db) = (perms_at db)(i := perms_at db i - set ps)"
    "holders_same db (remove_permissions i ps db)" "row_at (remove_permissions i ps db) = row_at db"
  using assms by (simp_all add: remove_permissions_alt roles_wf_def holders_same_def wf_drop_permissions perms_at_filter)

lemma apply_update_Inr:
  assumes "apply_update env prov u db = Inr db'" "roles_wf db"
  defines "i \<equiv> ru_role_id u"
  shows "roles_wf db' \<and> row_at db' = (row_at db)(i := map_option (updated_role u) (row_at db i)) \<and>
    perms_at db' = (perms_at db)(i := perms_at db i - set (ru_remove_permissions u) \<union> set (ru_add_permissions u)) \<and> holders_same db db'"
proof -
  let ?db1 = "update_role_row u db" let ?db2 = "remove_permissions i (ru_remove_permissions u) ?db1"
  obtain db3 md where 3: "insert_permissions i (ru_add_permissions u) ?db2 = Inr db3"
    and 4: "emitCatalogAudit env ''saas.role.updated'' i md prov db3 = Inr db'"
    using assms(1) unfolding apply_update_def Let_def i_def by (auto simp: rbind_eq_Inr)
  note c1 = update_role_row_props [OF assms(2), of u]
  note c2 = remove_permissions_props [OF c1(1), of i "ru_remove_permissions u"]
  note c3 = insert_permissions_Inr [OF 3 c2(1)] and c4 = emitCatalogAudit_Inr [OF 4]
  show ?thesis using c1 c2 c3 c4 by (auto simp: i_def holders_same_def)
qed

lemma select_first_others:
  "select_first (\<lambda>r. k r = j) (filter (\<lambda>r. k r \<noteq> i) rs) = (if j = i then None else select_first (\<lambda>r. k r = j) rs)"
  by (induction rs) (auto simp: select_first_def)

lemma apply_remove_Inr:
  assumes "apply_remove env prov r db = Inr db'" "roles_wf db"
  defines "i \<equiv> rm_role_id r"
  shows "roles_wf db' \<and> row_at db' = (row_at db)(i := None) \<and> perms_at db' = (perms_at db)(i := {}) \<and>
    role_assignments db' = filter (\<lambda>a. snd a \<noteq> i) (role_assignments db)"
proof -
  let ?db = "delete_role i db"
  obtain md where e: "emitCatalogAudit env ''saas.role.deleted'' i md prov ?db = Inr db'"
    using assms(1) unfolding apply_remove_def i_def by blast
  have "row_at ?db j = ((row_at db)(i := None)) j" for j
    unfolding row_at_def delete_role_def by (simp add: select_first_others)
  then have "row_at ?db = (row_at db)(i := None)" ..
  moreover have "roles_wf ?db"
    using assms(2) by (simp add: roles_wf_def delete_role_def wf_drop_role)
  moreover have "perms_at ?db = (perms_at db)(i := {})" by (auto simp: perms_at_def delete_role_def fun_eq_iff)
  ultimately show ?thesis using emitCatalogAudit_Inr [OF e] by (auto simp: holders_same_def delete_role_def)
qed

section \<open>A whole plan\<close>

lemma creates_Inr:
  assumes "apply_each (apply_create env prov) rs db = Inr db'" "roles_wf db"
  defines "new \<equiv> \<lambda>r. im_new_id env (ro_name r)"
  shows "roles_wf db' \<and> holders_same db db' \<and>
    (\<forall>r \<in> set rs. row_at db (new r) = None \<and> row_at db' (new r) = Some (created_role (new r) r) \<and>
       perms_at db' (new r) = set (ro_permissions r)) \<and>
    (\<forall>i. i \<notin> new ` set rs \<longrightarrow> row_at db' i = row_at db i \<and> perms_at db' i = perms_at db i)"
  using assms(1,2)
proof (induction rs arbitrary: db)
  case Nil
  then show ?case by (simp add: holders_same_def)
next
  case (Cons r rs)
  obtain db1 where db1: "apply_create env prov r db = Inr db1" "apply_each (apply_create env prov) rs db1 = Inr db'"
    using Cons.prems(1) by (auto simp: rbind_eq_Inr)
  note one = apply_create_Inr [OF db1(1) Cons.prems(2), folded new_def]
  have at1: "row_at db1 (new r) = Some (created_role (new r) r)" "perms_at db1 (new r) = set (ro_permissions r)"
      "\<And>i. i \<noteq> new r \<Longrightarrow> row_at db1 i = row_at db i \<and> perms_at db1 i = perms_at db i"
    using one by (simp_all add: new_def)
  have wf1: "roles_wf db1" using one by (simp add: new_def)
  note rest = Cons.IH [OF db1(2) wf1]
  have fresh: "new r \<notin> new ` set rs" using rest at1(1) by force
  then have same: "row_at db' (new r) = row_at db1 (new r)" "perms_at db' (new r) = perms_at db1 (new r)" using rest by blast+
  have "row_at db (new r) = None" using one by (simp add: new_def)
  moreover have "row_at db (new x) = None" if "x \<in> set rs" for x
    using rest at1(1) at1(3) [of "new x"] that by (metis option.distinct(1))
  moreover have "row_at db' i = row_at db i \<and> perms_at db' i = perms_at db i" if "i \<notin> new ` set (r # rs)" for i
    using rest at1(3) [of i] that by simp
  moreover have "holders_same db db'" using one rest by (auto simp: holders_same_def)
  ultimately show ?case using rest at1 same by simp
qed

lemma updates_Inr:
  assumes "apply_each (apply_update env prov) us db = Inr db'" "roles_wf db" "distinct (map ru_role_id us)"
  shows "roles_wf db' \<and> holders_same db db' \<and>
    (\<forall>u \<in> set us. row_at db' (ru_role_id u) = map_option (updated_role u) (row_at db (ru_role_id u)) \<and>
       perms_at db' (ru_role_id u) =
         perms_at db (ru_role_id u) - set (ru_remove_permissions u) \<union> set (ru_add_permissions u)) \<and>
    (\<forall>i. i \<notin> ru_role_id ` set us \<longrightarrow> row_at db' i = row_at db i \<and> perms_at db' i = perms_at db i)"
  using assms
proof (induction us arbitrary: db)
  case Nil
  then show ?case by (simp add: holders_same_def)
next
  case (Cons u us)
  obtain db1 where db1: "apply_update env prov u db = Inr db1" "apply_each (apply_update env prov) us db1 = Inr db'"
    using Cons.prems(1) by (auto simp: rbind_eq_Inr)
  note one = apply_update_Inr [OF db1(1) Cons.prems(2)]
  have at1: "row_at db1 (ru_role_id u) = map_option (updated_role u) (row_at db (ru_role_id u))"
      "perms_at db1 (ru_role_id u) = perms_at db (ru_role_id u) - set (ru_remove_permissions u) \<union> set (ru_add_permissions u)"
      "\<And>i. i \<noteq> ru_role_id u \<Longrightarrow> row_at db1 i = row_at db i \<and> perms_at db1 i = perms_at db i"
    using one by simp_all
  have d: "distinct (map ru_role_id us)" "ru_role_id u \<notin> ru_role_id ` set us" using Cons.prems(3) by auto
  note rest = Cons.IH [OF db1(2) _ d(1)]
  have "roles_wf db1" using one by simp
  note rest = rest [OF this]
  have same: "row_at db' (ru_role_id u) = row_at db1 (ru_role_id u)" "perms_at db' (ru_role_id u) = perms_at db1 (ru_role_id u)"
    using rest d(2) by blast+
  have "row_at db1 (ru_role_id x) = row_at db (ru_role_id x) \<and> perms_at db1 (ru_role_id x) = perms_at db (ru_role_id x)"
    if "x \<in> set us" for x using at1(3) that d(2) by (metis imageI)
  moreover have "row_at db' i = row_at db i \<and> perms_at db' i = perms_at db i" if "i \<notin> ru_role_id ` set (u # us)" for i
    using rest at1(3) [of i] that by simp
  moreover have "holders_same db db'" using one rest by (auto simp: holders_same_def)
  ultimately show ?case using rest at1(1,2) same by simp
qed

lemma removes_Inr:
  assumes "apply_each (apply_remove env prov) rs db = Inr db'" "roles_wf db"
  shows "roles_wf db' \<and> (\<forall>i. row_at db' i = (if i \<in> rm_role_id ` set rs then None else row_at db i)) \<and>
    (\<forall>i. perms_at db' i = (if i \<in> rm_role_id ` set rs then {} else perms_at db i)) \<and>
    role_assignments db' = filter (\<lambda>a. snd a \<notin> rm_role_id ` set rs) (role_assignments db)"
  using assms
proof (induction rs arbitrary: db)
  case (Cons r rs)
  obtain db1 where db1: "apply_remove env prov r db = Inr db1" "apply_each (apply_remove env prov) rs db1 = Inr db'"
    using Cons.prems(1) by (auto simp: rbind_eq_Inr)
  note one = apply_remove_Inr [OF db1(1) Cons.prems(2)]
  have "roles_wf db1" using one by simp
  note rest = Cons.IH [OF db1(2) this]
  show ?case using one rest by (auto intro!: filter_cong)
qed simp

section \<open>The plan of a difference\<close>

lemma map_of_rev_distinct: "distinct (map fst xs) \<Longrightarrow> map_of (rev xs) = map_of xs"
  by (simp add: map_of_inject_set rev_map [symmetric])

lemma by_name_snapshot:
  assumes "roles_wf db"
  shows "by_name (snapshotBuiltinRoles db) n = None \<longleftrightarrow> \<not> (\<exists>r \<in> set (roles db). is_builtin r \<and> rl_name r = n)"
    and "by_name (snapshotBuiltinRoles db) n = Some c \<longleftrightarrow> (\<exists>r \<in> set (roles db). is_builtin r \<and> rl_name r = n \<and> c = snapshot_role db r)"
proof -
  let ?rs = "sort_key rl_name (filter is_builtin (roles db))"
  have keys: "map (\<lambda>r. (sr_name r, r)) (snapshotBuiltinRoles db) = map (\<lambda>r. (rl_name r, snapshot_role db r)) ?rs"
    by (simp add: snapshotBuiltinRoles_def snapshot_role_def)
  have set: "set ?rs = {r \<in> set (roles db). is_builtin r}" by auto
  have "inj_on rl_name (set ?rs)" using global_name_unique [OF assms] unfolding set inj_on_def is_builtin_def by blast
  moreover have "distinct ?rs" using assms by (simp add: roles_wf_def tables_wf_def distinct_map)
  ultimately have "distinct (map fst (map (\<lambda>r. (rl_name r, snapshot_role db r)) ?rs))" by (simp add: distinct_map comp_def)
  then have look: "by_name (snapshotBuiltinRoles db) = map_of (map (\<lambda>r. (rl_name r, snapshot_role db r)) ?rs)"
    unfolding by_name_def keys by (rule map_of_rev_distinct)
  show "by_name (snapshotBuiltinRoles db) n = None \<longleftrightarrow> \<not> (\<exists>r \<in> set (roles db). is_builtin r \<and> rl_name r = n)"
    unfolding look map_of_eq_None_iff using set by force
  have "by_name (snapshotBuiltinRoles db) n = Some c \<longleftrightarrow> (n, c) \<in> set (map (\<lambda>r. (rl_name r, snapshot_role db r)) ?rs)"
    unfolding look by (rule map_of_eq_Some_iff) fact
  then show "by_name (snapshotBuiltinRoles db) n = Some c \<longleftrightarrow> (\<exists>r \<in> set (roles db). is_builtin r \<and> rl_name r = n \<and> c = snapshot_role db r)"
    using set by force
qed

text \<open>Which roles a plan creates, updates and removes.\<close>

abbreviation wanted :: "catalog \<Rightarrow> string set" where
  "wanted cat \<equiv> ro_name ` set (ct_roles cat)"

abbreviation role_diff :: "role_db \<Rightarrow> role_row \<Rightarrow> role \<Rightarrow> role_update" where
  "role_diff db r want \<equiv> fst (diffRole (snapshot_role db r) want)"

lemma diffRole_simps [simp]:
  "ru_role_id (fst (diffRole c want)) = sr_id c" "ru_name (fst (diffRole c want)) = sr_name c"
  by (simp_all add: diffRole_def Let_def diffPermissions_def)

lemma snapshot_role_id [simp]: "sr_id (snapshot_role db r) = rl_id r"
  by (simp add: snapshot_role_def)

lemma Diff_creates:
  assumes "roles_wf db"
  shows "set (pl_creates (Diff (snapshotBuiltinRoles db) cat)) =
    {want \<in> set (ct_roles cat). \<not> (\<exists>r \<in> set (roles db). is_builtin r \<and> rl_name r = ro_name want)}"
  using by_name_snapshot(1) [OF assms] by (auto simp: Diff_def)

lemma diff_updates_alt:
  "diff_updates st wants =
     map (\<lambda>want. fst (diffRole (the (by_name st (ro_name want))) want))
       (filter (\<lambda>want. case by_name st (ro_name want) of None \<Rightarrow> False | Some c \<Rightarrow> snd (diffRole c want)) wants)"
  by (induction wants) (auto simp: diff_updates_def split: option.splits prod.splits)

lemma Diff_updates:
  assumes "roles_wf db"
  shows "set (pl_updates (Diff (snapshotBuiltinRoles db) cat)) =
    {u. \<exists>want \<in> set (ct_roles cat). \<exists>r \<in> set (roles db). is_builtin r \<and> rl_name r = ro_name want \<and>
       snd (diffRole (snapshot_role db r) want) \<and> u = role_diff db r want}" (is "?l = ?r")
proof -
  let ?st = "snapshotBuiltinRoles db"
  have "u \<in> ?l \<longleftrightarrow> (\<exists>want \<in> set (ct_roles cat). \<exists>c. by_name ?st (ro_name want) = Some c \<and> snd (diffRole c want) \<and> u = fst (diffRole c want))" for u
    unfolding Diff_def diff_updates_alt by (simp add: image_iff Bex_def) (auto split: option.splits)
  then show ?thesis unfolding by_name_snapshot(2) [OF assms] by blast
qed

lemma Diff_removes:
  "rm_role_id ` set (pl_removes (Diff (snapshotBuiltinRoles db) cat)) =
     rl_id ` {r \<in> set (roles db). is_builtin r \<and> rl_catalog_managed r \<and> rl_name r \<notin> wanted cat}"
  by (force simp: Diff_def snapshotBuiltinRoles_def snapshot_role_def)

lemma distinct_map_sort_key: "distinct (map f (sort_key k xs)) \<longleftrightarrow> distinct (map f xs)"
  by (simp add: distinct_map)

lemma Diff_updates_distinct:
  assumes "roles_wf db" "distinct (map ro_name (ct_roles cat))"
  shows "distinct (map ru_role_id (pl_updates (Diff (snapshotBuiltinRoles db) cat)))"
proof -
  let ?st = "snapshotBuiltinRoles db"
  let ?ws = "filter (\<lambda>want. case by_name ?st (ro_name want) of None \<Rightarrow> False | Some c \<Rightarrow> snd (diffRole c want)) (ct_roles cat)"
  have "inj_on (\<lambda>want. sr_id (the (by_name ?st (ro_name want)))) (set ?ws)"
  proof (rule inj_onI)
    fix a b assume ab: "a \<in> set ?ws" "b \<in> set ?ws" and eq: "sr_id (the (by_name ?st (ro_name a))) = sr_id (the (by_name ?st (ro_name b)))"
    obtain ra where ra: "ra \<in> set (roles db)" "rl_name ra = ro_name a" "by_name ?st (ro_name a) = Some (snapshot_role db ra)"
      using ab(1) by_name_snapshot(2) [OF assms(1)] by (auto split: option.splits)
    obtain rb where rb: "rb \<in> set (roles db)" "rl_name rb = ro_name b" "by_name ?st (ro_name b) = Some (snapshot_role db rb)"
      using ab(2) by_name_snapshot(2) [OF assms(1)] by (auto split: option.splits)
    have "row_at db (rl_id ra) = Some ra" "row_at db (rl_id rb) = Some rb" using ra(1) rb(1) row_at_iff [OF assms(1)] by blast+
    moreover have "rl_id ra = rl_id rb" using eq unfolding ra(3) rb(3) option.sel snapshot_role_id .
    ultimately have "ra = rb" by (metis option.inject)
    moreover have "inj_on ro_name (set (ct_roles cat))" using assms(2) by (simp add: distinct_map)
    ultimately show "a = b" using ra(2) rb(2) ab by (intro inj_onD [of ro_name "set (ct_roles cat)"]) simp_all
  qed
  moreover have "distinct ?ws" using assms(2) by (simp add: distinct_map)
  ultimately have "distinct (map (\<lambda>want. sr_id (the (by_name ?st (ro_name want)))) ?ws)" unfolding distinct_map by blast
  moreover have "map (\<lambda>want. sr_id (the (by_name ?st (ro_name want)))) ?ws = map ru_role_id (diff_updates ?st (ct_roles cat))"
    unfolding diff_updates_alt by simp
  ultimately show ?thesis unfolding Diff_def by (simp add: distinct_map_sort_key del: map_map)
qed

lemma unchanged_role:
  assumes "\<not> snd (diffRole c want)"
  shows "updated_role (fst (diffRole c want)) r = r" "ru_add_permissions (fst (diffRole c want)) = []"
    "ru_remove_permissions (fst (diffRole c want)) = []"
proof -
  let ?d = "diffPermissions (sr_permissions c) (ro_permissions want)"
  have c: "sr_catalog_managed c" "sr_description c = ro_description want" "sr_scope c = ro_scope want" "fst ?d = []" "snd ?d = []"
    using assms by (auto simp: diffRole_def Let_def split: prod.splits)
  then show "ru_add_permissions (fst (diffRole c want)) = []" "ru_remove_permissions (fst (diffRole c want)) = []"
    by (auto simp: diffRole_def Let_def split: prod.splits)
  show "updated_role (fst (diffRole c want)) r = r"
    using c by (auto simp: updated_role_def RowChanged_def diffRole_def Let_def string_change_def split: prod.splits)
qed

lemma changed_role:
  assumes "u = role_diff db r want"
  shows "text_of (rl_description (updated_role u r)) = ro_description want" "text_of (rl_scope (updated_role u r)) = ro_scope want"
    "rl_catalog_managed (updated_role u r)"
    "perms_at db (rl_id r) - set (ru_remove_permissions u) \<union> set (ru_add_permissions u) = set (ro_permissions want)"
proof -
  have t: "text_of (nilIfEmpty s) = s" for s by (simp add: text_of_def nilIfEmpty_def)
  note d = assms diffRole_def Let_def diffPermissions_def snapshot_role_def
  show "perms_at db (rl_id r) - set (ru_remove_permissions u) \<union> set (ru_add_permissions u) = set (ro_permissions want)"
    by (auto simp: d)
  show "text_of (rl_description (updated_role u r)) = ro_description want" "text_of (rl_scope (updated_role u r)) = ro_scope want"
    "rl_catalog_managed (updated_role u r)"
    by (auto simp: d t updated_role_def RowChanged_def string_change_def)
qed

section \<open>The tables an import leaves\<close>

text \<open>The catalog-managed built-in roles are the roles of the catalog, with its texts and permissions.\<close>

definition reconciled :: "catalog \<Rightarrow> role_db \<Rightarrow> bool" where
  "reconciled cat db \<longleftrightarrow>
     (\<forall>want \<in> set (ct_roles cat). \<exists>r \<in> set (roles db). is_builtin r \<and> rl_catalog_managed r \<and> rl_name r = ro_name want \<and>
        text_of (rl_description r) = ro_description want \<and> text_of (rl_scope r) = ro_scope want \<and>
        perms_at db (rl_id r) = set (ro_permissions want)) \<and>
     (\<forall>r \<in> set (roles db). is_builtin r \<and> rl_catalog_managed r \<longrightarrow> rl_name r \<in> wanted cat)"

definition missing :: "catalog \<Rightarrow> role_db \<Rightarrow> role set" where
  "missing cat db = {want \<in> set (ct_roles cat). \<not> (\<exists>r \<in> set (roles db). is_builtin r \<and> rl_name r = ro_name want)}"

definition dropped :: "catalog \<Rightarrow> role_row \<Rightarrow> bool" where
  "dropped cat r \<longleftrightarrow> is_builtin r \<and> rl_catalog_managed r \<and> rl_name r \<notin> wanted cat"

definition drifted :: "catalog \<Rightarrow> role_db \<Rightarrow> (role_row \<times> role) set" where
  "drifted cat db = {(r, want). r \<in> set (roles db) \<and> want \<in> set (ct_roles cat) \<and> is_builtin r \<and> rl_name r = ro_name want \<and>
     snd (diffRole (snapshot_role db r) want)}"

text \<open>A plan that was applied, and the tables after its creations and after its updates.\<close>

definition applied :: "import_env \<Rightarrow> catalog \<Rightarrow> (string \<times> string) list \<Rightarrow> role_db \<Rightarrow> role_db \<Rightarrow> bool" where
  "applied env cat prov db db' \<longleftrightarrow>
     roles_wf db \<and> distinct (map ro_name (ct_roles cat)) \<and>
     applyRoleCatalogPlan env (Diff (snapshotBuiltinRoles db) cat) prov db = Inr db'"

lemma plan_sets:
  assumes "roles_wf db"
  shows "set (pl_creates (Diff (snapshotBuiltinRoles db) cat)) = missing cat db"
    and "set (pl_updates (Diff (snapshotBuiltinRoles db) cat)) = (\<lambda>(r, want). role_diff db r want) ` drifted cat db"
    and "rm_role_id ` set (pl_removes (Diff (snapshotBuiltinRoles db) cat)) = rl_id ` {r \<in> set (roles db). dropped cat r}"
  by (auto simp: Diff_creates [OF assms] missing_def Diff_updates [OF assms] drifted_def Diff_removes dropped_def)

lemma drifted_ids: "ru_role_id ` (\<lambda>(r, want). role_diff db r want) ` drifted cat db = (rl_id \<circ> fst) ` drifted cat db"
  by (simp add: image_image split_beta)

lemma applied_effect:
  assumes "applied env cat prov db db'"
  shows "roles_wf db'"
    and "role_assignments db' = filter (\<lambda>a. snd a \<notin> rl_id ` {r \<in> set (roles db). dropped cat r}) (role_assignments db)"
    and "w \<in> missing cat db \<Longrightarrow> row_at db' (im_new_id env (ro_name w)) = Some (created_role (im_new_id env (ro_name w)) w) \<and>
       perms_at db' (im_new_id env (ro_name w)) = set (ro_permissions w)"
    and "r \<in> set (roles db) \<Longrightarrow> dropped cat r \<Longrightarrow> row_at db' (rl_id r) = None"
    and "(r, want) \<in> drifted cat db \<Longrightarrow> row_at db' (rl_id r) = Some (updated_role (role_diff db r want) r) \<and>
       perms_at db' (rl_id r) = set (ro_permissions want)"
    and "r \<in> set (roles db) \<Longrightarrow> \<not> dropped cat r \<Longrightarrow> (\<And>want. (r, want) \<notin> drifted cat db) \<Longrightarrow>
       row_at db' (rl_id r) = Some r \<and> perms_at db' (rl_id r) = perms_at db (rl_id r)"
    and "row_at db' i = Some r' \<Longrightarrow> i \<in> rl_id ` set (roles db) \<or> (\<exists>w \<in> missing cat db. i = im_new_id env (ro_name w))"
proof -
  let ?p = "Diff (snapshotBuiltinRoles db) cat" and ?new = "\<lambda>w. im_new_id env (ro_name w)"
  let ?gone = "rl_id ` {r \<in> set (roles db). dropped cat r}" and ?drift = "(rl_id \<circ> fst) ` drifted cat db"
  have wf: "roles_wf db" and names: "distinct (map ro_name (ct_roles cat))" using assms by (simp_all add: applied_def)
  obtain db1 db2 where a: "apply_each (apply_create env prov) (pl_creates ?p) db = Inr db1"
    "apply_each (apply_update env prov) (pl_updates ?p) db1 = Inr db2"
    "apply_each (apply_remove env prov) (pl_removes ?p) db2 = Inr db'"
    using assms by (auto simp: applied_def applyRoleCatalogPlan_def rbind_eq_Inr)
  note c = creates_Inr [OF a(1) wf, unfolded plan_sets(1) [OF wf]]
  then have wf1: "roles_wf db1" by blast
  note u = updates_Inr [OF a(2) wf1 Diff_updates_distinct [OF wf names], unfolded plan_sets(2) [OF wf] drifted_ids]
  then have wf2: "roles_wf db2" by blast
  note r = removes_Inr [OF a(3) wf2, unfolded plan_sets(3) [OF wf]]
  have row: "row_at db (rl_id r) = Some r" if "r \<in> set (roles db)" for r using row_at_iff [OF wf] that by blast
  have one: "x = y" if "x \<in> set (roles db)" "y \<in> set (roles db)" "rl_id x = rl_id y" for x y using row that by (metis option.inject)
  have old: "row_at db1 (rl_id r) = Some r \<and> perms_at db1 (rl_id r) = perms_at db (rl_id r)" if "r \<in> set (roles db)" for r
    using c row [OF that] by (metis (no_types, lifting) imageE option.distinct(1))
  have kept: "rl_id r \<notin> ?gone" if "r \<in> set (roles db)" "\<not> dropped cat r" for r using one that by blast
  show "roles_wf db'" using r by blast
  show "role_assignments db' = filter (\<lambda>a. snd a \<notin> ?gone) (role_assignments db)" using c u r by (simp add: holders_same_def)
  show "row_at db' (?new w) = Some (created_role (?new w) w) \<and> perms_at db' (?new w) = set (ro_permissions w)" if "w \<in> missing cat db"
  proof -
    have "?new w \<notin> rl_id ` set (roles db)" using c that row_at_None by blast
    then have "?new w \<notin> ?drift" "?new w \<notin> ?gone" by (auto simp: drifted_def)
    then show ?thesis using c u r that by simp
  qed
  show "row_at db' (rl_id r) = None" if "r \<in> set (roles db)" "dropped cat r" using r that by simp
  show "row_at db' (rl_id r) = Some (updated_role (role_diff db r want) r) \<and> perms_at db' (rl_id r) = set (ro_permissions want)"
    if d: "(r, want) \<in> drifted cat db"
  proof -
    have "r \<in> set (roles db)" "\<not> dropped cat r" using d by (auto simp: drifted_def dropped_def)
    then show ?thesis
      using u [THEN conjunct2, THEN conjunct2, THEN conjunct1, THEN bspec, OF imageI [OF d]] old [of r] kept [of r] r changed_role(4) [OF refl, of db r want]
      by simp
  qed
  show "row_at db' (rl_id r) = Some r \<and> perms_at db' (rl_id r) = perms_at db (rl_id r)"
    if "r \<in> set (roles db)" "\<not> dropped cat r" "\<And>want. (r, want) \<notin> drifted cat db"
  proof -
    have "rl_id r \<notin> ?drift"
    proof
      assume "rl_id r \<in> ?drift"
      then obtain x want where x: "(x, want) \<in> drifted cat db" "rl_id r = rl_id x" by auto
      then have "x = r" using one [of x r] that(1) by (simp add: drifted_def)
      then show False using x(1) that(3) by simp
    qed
    then show ?thesis using u r old [OF that(1)] kept [OF that(1,2)] by simp
  qed
  show "i \<in> rl_id ` set (roles db) \<or> (\<exists>w \<in> missing cat db. i = ?new w)" if "row_at db' i = Some r'"
  proof (rule ccontr)
    assume no: "\<not> ?thesis"
    then have "row_at db i = None" "i \<notin> ?new ` missing cat db" "i \<notin> ?drift" by (auto simp: row_at_None drifted_def)
    then have "row_at db' i = None" using c u r by (simp split: if_splits)
    then show False using that by simp
  qed
qed

lemma applied_named:
  assumes "applied env cat prov db db'" "r \<in> set (roles db)" "is_builtin r" "want \<in> set (ct_roles cat)" "rl_name r = ro_name want"
  shows "row_at db' (rl_id r) = Some (updated_role (role_diff db r want) r) \<and> perms_at db' (rl_id r) = set (ro_permissions want)"
proof (cases "snd (diffRole (snapshot_role db r) want)")
  case True
  then show ?thesis using applied_effect(5) [OF assms(1), of r want] assms(2-5) by (simp add: drifted_def)
next
  case False
  have "inj_on ro_name (set (ct_roles cat))" using assms(1) by (simp add: applied_def distinct_map)
  then have "(r, w) \<notin> drifted cat db" for w using False assms(4,5) by (auto simp: drifted_def dest: inj_onD)
  moreover have "\<not> dropped cat r" using assms(4,5) by (simp add: dropped_def)
  ultimately have "row_at db' (rl_id r) = Some r \<and> perms_at db' (rl_id r) = perms_at db (rl_id r)"
    using applied_effect(6) [OF assms(1,2)] by blast
  then show ?thesis using unchanged_role [OF False] changed_role(4) [OF refl, of db r want] by simp
qed

lemma applied_reconciles:
  assumes "applied env cat prov db db'"
  shows "reconciled cat db'"
  unfolding reconciled_def
proof (intro conjI ballI impI)
  fix want assume w: "want \<in> set (ct_roles cat)"
  have t: "text_of (nilIfEmpty s) = s" for s by (simp add: text_of_def nilIfEmpty_def)
  show "\<exists>r \<in> set (roles db'). is_builtin r \<and> rl_catalog_managed r \<and> rl_name r = ro_name want \<and>
      text_of (rl_description r) = ro_description want \<and> text_of (rl_scope r) = ro_scope want \<and>
      perms_at db' (rl_id r) = set (ro_permissions want)"
  proof (cases "want \<in> missing cat db")
    case True
    let ?i = "im_new_id env (ro_name want)"
    note new = applied_effect(3) [OF assms True]
    show ?thesis
      by (rule bexI [of _ "created_role ?i want"]) (use new row_at_Some(1) [of db' ?i] in \<open>auto simp: created_role_def is_builtin_def t\<close>)
  next
    case False
    then obtain r where r: "r \<in> set (roles db)" "is_builtin r" "rl_name r = ro_name want" using w by (auto simp: missing_def)
    let ?r = "updated_role (role_diff db r want) r"
    note old = applied_named [OF assms r(1,2) w r(3)]
    show ?thesis
      by (rule bexI [of _ ?r]) (use old row_at_Some(1) [of db' "rl_id r" ?r] changed_role [OF refl, of db r want] r in auto)
  qed
next
  fix r assume r: "r \<in> set (roles db')" "is_builtin r \<and> rl_catalog_managed r"
  have at: "row_at db' (rl_id r) = Some r" using row_at_iff [OF applied_effect(1) [OF assms]] r(1) by blast
  consider r0 where "r0 \<in> set (roles db)" "rl_id r = rl_id r0" | w where "w \<in> missing cat db" "rl_id r = im_new_id env (ro_name w)"
    using applied_effect(7) [OF assms at] by blast
  then show "rl_name r \<in> wanted cat"
  proof cases
    case (1 r0)
    show ?thesis
    proof (cases "\<exists>want. (r0, want) \<in> drifted cat db")
      case True
      then obtain want where d: "(r0, want) \<in> drifted cat db" by blast
      then show ?thesis using applied_effect(5) [OF assms d] at 1(2) by (auto simp: drifted_def)
    next
      case False
      then have "r = r0" "\<not> dropped cat r0" using applied_effect(4,6) [OF assms 1(1)] at 1(2) by auto
      then show ?thesis using r(2) by (auto simp: dropped_def)
    qed
  next
    case (2 w)
    then show ?thesis using applied_effect(3) [OF assms 2(1)] at by (auto simp: created_role_def missing_def)
  qed
qed

lemma applied_others:
  assumes "applied env cat prov db db'" "r \<in> set (roles db)" "\<not> (is_builtin r \<and> (rl_catalog_managed r \<or> rl_name r \<in> wanted cat))"
  shows "r \<in> set (roles db') \<and> perms_at db' (rl_id r) = perms_at db (rl_id r)"
proof -
  have "\<not> dropped cat r" "\<And>want. (r, want) \<notin> drifted cat db" using assms(3) by (auto simp: dropped_def drifted_def)
  then show ?thesis using applied_effect(6) [OF assms(1,2)] row_at_Some(1) by blast
qed

text \<open>Once reconciled there is nothing left to plan.\<close>

lemma reconciled_no_plan:
  assumes "roles_wf db" "reconciled cat db"
  shows "Diff (snapshotBuiltinRoles db) cat = \<lparr>pl_creates = [], pl_updates = [], pl_removes = []\<rparr>"
proof -
  let ?p = "Diff (snapshotBuiltinRoles db) cat"
  have "missing cat db = {}" using assms(2) by (fastforce simp: missing_def reconciled_def)
  then have c: "pl_creates ?p = []" using plan_sets(1) [OF assms(1), of cat] by simp
  have "{r \<in> set (roles db). dropped cat r} = {}" using assms(2) by (auto simp: dropped_def reconciled_def)
  then have r: "pl_removes ?p = []" using plan_sets(3) [OF assms(1), of cat] by (simp del: Collect_empty_eq)
  have "(r, want) \<notin> drifted cat db" for r want
  proof
    assume d: "(r, want) \<in> drifted cat db"
    then have want: "want \<in> set (ct_roles cat)" by (simp add: drifted_def)
    obtain r' where r': "r' \<in> set (roles db)" "is_builtin r'" "rl_catalog_managed r'" "rl_name r' = ro_name want"
        "text_of (rl_description r') = ro_description want" "text_of (rl_scope r') = ro_scope want"
        "perms_at db (rl_id r') = set (ro_permissions want)"
      using assms(2) want unfolding reconciled_def by blast
    then have "r' = r" using d global_name_unique [OF assms(1), of r' r] by (simp add: drifted_def is_builtin_def)
    then show False
      using d r' by (auto simp: drifted_def diffRole_def diffPermissions_def snapshot_role_def)
  qed
  then have "set (pl_updates ?p) = {}" unfolding plan_sets(2) [OF assms(1)] by auto
  then have "pl_updates ?p = []" by simp
  then show ?thesis using c r by simp
qed

section \<open>Parsing\<close>

lemma check_permissions_distinct:
  "check_permissions name seen ps = Inr u \<Longrightarrow> distinct ps \<and> set ps \<inter> seen = {}"
  by (induction ps arbitrary: seen) (auto split: if_splits)

lemma canonicalize_roles_Inr:
  "canonicalize_roles seen rs = Inr rs' \<Longrightarrow>
   map ro_name rs' = map ro_name rs \<and> distinct (map ro_name rs) \<and> ro_name ` set rs \<inter> seen = {} \<and> (\<forall>r \<in> set rs'. distinct (ro_permissions r))"
proof (induction rs arbitrary: seen rs')
  case (Cons r rs)
  obtain r' rest where r': "canonicalizePermissions r = Inr r'" "canonicalize_roles (insert (ro_name r) seen) rs = Inr rest" "rs' = r' # rest"
    and new: "ro_name r \<notin> seen"
    using Cons.prems by (auto simp: rbind_eq_Inr split: if_splits)
  have "ro_name r' = ro_name r" "distinct (ro_permissions r')"
    using r'(1) check_permissions_distinct by (auto simp: canonicalizePermissions_def rbind_eq_Inr)
  then show ?case using Cons.IH [OF r'(2)] r'(3) new by auto
qed simp

lemma Parse_canonical:
  assumes "Parse decode document = Inr cat"
  shows "distinct (map ro_name (ct_roles cat))" "\<And>r. r \<in> set (ct_roles cat) \<Longrightarrow> distinct (ro_permissions r)"
proof -
  obtain cat0 trailing where d: "decode document = Some (cat0, trailing)"
    using assms by (cases "decode document") (auto simp: Parse_def)
  obtain rs where "canonicalize_roles {} (ct_roles cat0) = Inr rs" "ct_roles cat = sort_key ro_name rs"
    using assms by (auto simp: Parse_def d rbind_eq_Inr split: if_splits)
  then show "distinct (map ro_name (ct_roles cat))" "\<And>r. r \<in> set (ct_roles cat) \<Longrightarrow> distinct (ro_permissions r)"
    using canonicalize_roles_Inr [of "{}" "ct_roles cat0" rs] by (auto simp: distinct_map_sort_key)
qed

section \<open>An import that is not refused succeeds\<close>

text \<open>
  The new ids are new, the audit trail takes every entry, and every global role is one of those the
  import reads.
\<close>

definition import_ready :: "import_env \<Rightarrow> catalog \<Rightarrow> role_db \<Rightarrow> bool" where
  "import_ready env cat db \<longleftrightarrow>
     inj_on (im_new_id env) (wanted cat) \<and> (\<forall>n \<in> wanted cat. row_at db (im_new_id env n) = None) \<and>
     (\<forall>e. im_accepts_audit env e) \<and> (\<forall>r \<in> set (roles db). rl_org_id r = None \<longrightarrow> is_builtin r)"

lemma audit_ok: "\<forall>e. im_accepts_audit env e \<Longrightarrow> \<exists>db'. emitCatalogAudit env event i md prov db = Inr db'"
  by (simp add: emitCatalogAudit_def Let_def)

lemma insert_permissions_ok:
  assumes "row_at db i \<noteq> None" "distinct ps" "set ps \<inter> perms_at db i = {}"
  shows "\<exists>db'. insert_permissions i ps db = Inr db'"
  using assms
proof (induction ps arbitrary: db)
  case (Cons p ps)
  let ?db = "db\<lparr>role_permissions := role_permissions db @ [(i, p)]\<rparr>"
  have "insertRolePermission i p db = Inr ?db"
    using Cons.prems by (auto simp: insertRolePermission_def perms_at_def row_at_None)
  moreover have "perms_at ?db i = insert p (perms_at db i)" by (auto simp: perms_at_def)
  moreover have "\<exists>db'. insert_permissions i ps ?db = Inr db'" by (rule Cons.IH) (use Cons.prems in \<open>auto simp: perms_at_def\<close>)
  ultimately show ?case by simp
qed simp

lemma apply_create_ok:
  assumes "roles_wf db" "\<forall>e. im_accepts_audit env e" "row_at db (im_new_id env (ro_name w)) = None" "distinct (ro_permissions w)"
    and "\<forall>r \<in> set (roles db). rl_org_id r = None \<longrightarrow> rl_name r \<noteq> ro_name w"
  shows "\<exists>db'. apply_create env prov w db = Inr db'"
proof -
  let ?i = "im_new_id env (ro_name w)"
  have "\<not> (\<exists>old \<in> set (roles db). rl_id old = ?i \<or> (rl_org_id old = None \<and> rl_name old = ro_name w))"
    using assms(3,5) by (auto simp: row_at_None image_iff)
  then obtain db1 where 1: "insert_role (created_role ?i w) db = Inr db1"
    by (auto simp: insert_role_def created_role_def)
  note new = insert_role_Inr [OF 1 assms(1)]
  have i: "rl_id (created_role ?i w) = ?i" by (simp add: created_role_def)
  have "row_at db1 ?i \<noteq> None" "perms_at db1 ?i = {}"
    using new(2,3) perms_at_unlisted [OF assms(1,3)] i by simp_all
  then obtain db2 where 2: "insert_permissions ?i (ro_permissions w) db1 = Inr db2"
    using insert_permissions_ok assms(4) by (metis inf_bot_right)
  show ?thesis unfolding apply_create_def Let_def using 1 2 audit_ok [OF assms(2)] by simp
qed

lemma creates_ok:
  assumes "roles_wf db" "\<forall>e. im_accepts_audit env e" "\<forall>w \<in> set ws. distinct (ro_permissions w)"
    and "distinct (map ro_name ws)" "inj_on (im_new_id env) (ro_name ` set ws)"
    and "\<forall>w \<in> set ws. row_at db (im_new_id env (ro_name w)) = None \<and> (\<forall>r \<in> set (roles db). rl_org_id r = None \<longrightarrow> rl_name r \<noteq> ro_name w)"
  shows "\<exists>db'. apply_each (apply_create env prov) ws db = Inr db'"
  using assms
proof (induction ws arbitrary: db)
  case (Cons w ws)
  obtain db1 where 1: "apply_create env prov w db = Inr db1" using apply_create_ok [of db env w prov] Cons.prems by auto
  let ?i = "im_new_id env (ro_name w)"
  note eff = apply_create_Inr [OF 1 Cons.prems(1)]
  have "row_at db1 (im_new_id env (ro_name x)) = None \<and> (\<forall>r \<in> set (roles db1). rl_org_id r = None \<longrightarrow> rl_name r \<noteq> ro_name x)"
    if x: "x \<in> set ws" for x
  proof (intro conjI ballI impI)
    have ne: "ro_name x \<noteq> ro_name w" using Cons.prems(4) x by (auto simp: image_iff)
    then have "im_new_id env (ro_name x) \<noteq> ?i" using inj_on_eq_iff [OF Cons.prems(5), of "ro_name x" "ro_name w"] x by simp
    then show "row_at db1 (im_new_id env (ro_name x)) = None" using eff Cons.prems(6) x by simp
    fix r assume r: "r \<in> set (roles db1)" "rl_org_id r = None"
    have wf1: "roles_wf db1" using eff by simp
    have "row_at db1 (rl_id r) = Some r" using row_at_iff [OF wf1] r(1) by blast
    then have "r = created_role ?i w \<or> r \<in> set (roles db)" using eff row_at_Some(1) by (auto split: if_splits)
    then show "rl_name r \<noteq> ro_name x" using ne Cons.prems(6) x r(2) by (auto simp: created_role_def)
  qed
  then have "\<exists>db'. apply_each (apply_create env prov) ws db1 = Inr db'"
    using Cons.prems eff by (intro Cons.IH) (auto intro: inj_on_subset)
  then show ?case using 1 by simp
qed simp

lemma updates_ok:
  assumes "roles_wf db" "\<forall>e. im_accepts_audit env e" "distinct (map ru_role_id us)"
    and "\<forall>u \<in> set us. row_at db (ru_role_id u) \<noteq> None \<and> distinct (ru_add_permissions u) \<and>
       set (ru_add_permissions u) \<inter> perms_at db (ru_role_id u) = {}"
  shows "\<exists>db'. apply_each (apply_update env prov) us db = Inr db'"
  using assms
proof (induction us arbitrary: db)
  case (Cons u us)
  let ?i = "ru_role_id u"
  let ?db = "remove_permissions ?i (ru_remove_permissions u) (update_role_row u db)"
  note c1 = update_role_row_props [OF Cons.prems(1), of u]
  note c2 = remove_permissions_props [OF c1(1), of ?i "ru_remove_permissions u"]
  have "row_at ?db ?i \<noteq> None" "set (ru_add_permissions u) \<inter> perms_at ?db ?i = {}"
    using c1 c2 Cons.prems(4) by auto
  then obtain db2 where "insert_permissions ?i (ru_add_permissions u) ?db = Inr db2"
    using insert_permissions_ok Cons.prems(4) by (metis list.set_intros(1))
  then have "\<exists>db1. apply_update env prov u db = Inr db1"
    unfolding apply_update_def Let_def by (simp add: audit_ok [OF Cons.prems(2)])
  then obtain db1 where 1: "apply_update env prov u db = Inr db1" by (rule exE)
  note eff = apply_update_Inr [OF 1 Cons.prems(1)]
  have "ru_role_id x \<noteq> ?i" if "x \<in> set us" for x using Cons.prems(3) that by (auto simp: image_iff)
  then have "\<exists>db'. apply_each (apply_update env prov) us db1 = Inr db'"
    using Cons.prems eff by (intro Cons.IH) auto
  then show ?case using 1 by simp
qed simp

lemma removes_ok: "\<forall>e. im_accepts_audit env e \<Longrightarrow> \<exists>db'. apply_each (apply_remove env prov) rs db = Inr db'"
proof (induction rs arbitrary: db)
  case (Cons r rs)
  obtain db1 where "apply_remove env prov r db = Inr db1" using audit_ok [OF Cons.prems] unfolding apply_remove_def by blast
  then show ?case using Cons by simp
qed simp

lemma plan_applies:
  assumes "roles_wf db" "distinct (map ro_name (ct_roles cat))" "\<And>w. w \<in> set (ct_roles cat) \<Longrightarrow> distinct (ro_permissions w)"
    and "import_ready env cat db"
  shows "\<exists>db'. applyRoleCatalogPlan env (Diff (snapshotBuiltinRoles db) cat) prov db = Inr db'"
proof -
  let ?p = "Diff (snapshotBuiltinRoles db) cat"
  have audit: "\<forall>e. im_accepts_audit env e" using assms(4) by (simp add: import_ready_def)
  have sub: "missing cat db \<subseteq> set (ct_roles cat)" by (auto simp: missing_def)
  have "\<exists>db1. apply_each (apply_create env prov) (pl_creates ?p) db = Inr db1"
  proof (rule creates_ok [OF assms(1) audit])
    show "\<forall>w \<in> set (pl_creates ?p). distinct (ro_permissions w)" unfolding plan_sets(1) [OF assms(1)] using sub assms(3) by blast
    show "distinct (map ro_name (pl_creates ?p))" using assms(2) by (simp add: Diff_def distinct_map_sort_key distinct_map_filter)
    show "inj_on (im_new_id env) (ro_name ` set (pl_creates ?p))"
      unfolding plan_sets(1) [OF assms(1)] using assms(4) sub unfolding import_ready_def by (meson image_mono inj_on_subset)
    show "\<forall>w \<in> set (pl_creates ?p). row_at db (im_new_id env (ro_name w)) = None \<and>
        (\<forall>r \<in> set (roles db). rl_org_id r = None \<longrightarrow> rl_name r \<noteq> ro_name w)"
      unfolding plan_sets(1) [OF assms(1)] using assms(4) by (auto simp: import_ready_def missing_def)
  qed
  then obtain db1 where 1: "apply_each (apply_create env prov) (pl_creates ?p) db = Inr db1" by blast
  note c = creates_Inr [OF 1 assms(1), unfolded plan_sets(1) [OF assms(1)]]
  have old: "row_at db1 (rl_id r) \<noteq> None \<and> perms_at db1 (rl_id r) = perms_at db (rl_id r)" if "r \<in> set (roles db)" for r
    using c row_at_iff [OF assms(1), of "rl_id r" r] that by (metis (no_types, lifting) imageE option.distinct(1))
  have "distinct (ru_add_permissions (role_diff db r w)) \<and> set (ru_add_permissions (role_diff db r w)) \<inter> perms_at db (rl_id r) = {}"
    if "w \<in> set (ct_roles cat)" for r w
    using assms(3) [OF that] by (auto simp: diffRole_def Let_def diffPermissions_def snapshot_role_def)
  then have "\<forall>u \<in> set (pl_updates ?p). row_at db1 (ru_role_id u) \<noteq> None \<and> distinct (ru_add_permissions u) \<and>
       set (ru_add_permissions u) \<inter> perms_at db1 (ru_role_id u) = {}"
    unfolding plan_sets(2) [OF assms(1)] using old by (auto simp: drifted_def)
  then obtain db2 where 2: "apply_each (apply_update env prov) (pl_updates ?p) db1 = Inr db2"
    using updates_ok [OF _ audit Diff_updates_distinct [OF assms(1,2)]] c by blast
  obtain db3 where "apply_each (apply_remove env prov) (pl_removes ?p) db2 = Inr db3" using removes_ok [OF audit] by blast
  then show ?thesis using 1 2 by (simp add: applyRoleCatalogPlan_def)
qed

section \<open>The import\<close>

lemma ImportRoleCatalog_cases:
  assumes "ImportRoleCatalog env cat opts db = (out, db')"
  obtains "db' = db" "\<And>res. out = Inr res \<Longrightarrow> \<not> ir_applied res"
  | res where "out = Inr res" "ir_applied res" "\<not> snd (refuseImport cat (Diff (snapshotBuiltinRoles db) cat) (op_force opts))"
      "applyRoleCatalogPlan env (Diff (snapshotBuiltinRoles db) cat) (catalogProvenance env cat (op_source opts)) db = Inr db'"
proof -
  let ?p = "Diff (snapshotBuiltinRoles db) cat" and ?prov = "catalogProvenance env cat (op_source opts)"
  let ?res = "\<lparr>ir_plan = ?p, ir_applied = False, ir_refused = False, ir_refusal_reason = []\<rparr>"
  obtain reason refused where ref: "refuseImport cat ?p (op_force opts) = (reason, refused)" by fastforce
  consider "op_dry_run opts \<or> refused" | e where "\<not> op_dry_run opts" "\<not> refused" "applyRoleCatalogPlan env ?p ?prov db = Inl e"
    | db1 where "\<not> op_dry_run opts" "\<not> refused" "applyRoleCatalogPlan env ?p ?prov db = Inr db1"
    by (cases "applyRoleCatalogPlan env ?p ?prov db") auto
  then show thesis
  proof cases
    case 1
    then have "db' = db" "out = Inr ?res \<or> out = Inr (?res\<lparr>ir_refused := True, ir_refusal_reason := reason\<rparr>)"
      using assms ref by (auto simp: ImportRoleCatalog_def Within_def Let_def split: if_splits)
    then show thesis using that(1) by auto
  next
    case (2 e)
    then have "db' = db" "out = Inl e" using assms ref by (auto simp: ImportRoleCatalog_def Within_def Let_def)
    then show thesis using that(1) by simp
  next
    case (3 db1)
    then have "db' = db1" "out = Inr (?res\<lparr>ir_applied := True\<rparr>)" using assms ref by (auto simp: ImportRoleCatalog_def Within_def Let_def)
    then show thesis using that(2) 3 ref by simp
  qed
qed

lemma import_runs:
  assumes "\<not> op_dry_run opts" "\<not> snd (refuseImport cat (Diff (snapshotBuiltinRoles db) cat) (op_force opts))"
    and "applyRoleCatalogPlan env (Diff (snapshotBuiltinRoles db) cat) (catalogProvenance env cat (op_source opts)) db = Inr db'"
  shows "\<exists>res. ImportRoleCatalog env cat opts db = (Inr res, db') \<and> ir_applied res"
  using assms by (auto simp: ImportRoleCatalog_def Within_def Let_def split_beta)

text \<open>
  C34.  An import leaves exactly the catalog.  After it was applied, the catalog-managed built-in roles
  are the roles of the document, each with its description, scope and permissions; a role that
  is not built in, or neither managed nor named, keeps its row and its permissions; and importing
  the same catalog again plans nothing and changes nothing.
\<close>

theorem catalog_import_reconciles:
  assumes "roles_wf db" "Parse decode document = Inr cat"
    and "ImportRoleCatalog env cat opts db = (Inr res, db')" "ir_applied res"
  shows "reconciled cat db' \<and>
    (\<forall>r \<in> set (roles db). \<not> (is_builtin r \<and> (rl_catalog_managed r \<or> rl_name r \<in> wanted cat)) \<longrightarrow>
       r \<in> set (roles db') \<and> perms_at db' (rl_id r) = perms_at db (rl_id r)) \<and>
    (\<exists>res'. ImportRoleCatalog env' cat opts' db' = (Inr res', db') \<and> plan_Empty (ir_plan res') \<and> \<not> ir_refused res')"
proof -
  have a: "applied env cat (catalogProvenance env cat (op_source opts)) db db'"
    using ImportRoleCatalog_cases [OF assms(3)] assms(1,4) Parse_canonical(1) [OF assms(2)] by (auto simp: applied_def)
  note rec = applied_reconciles [OF a]
  have "\<exists>res'. ImportRoleCatalog env' cat opts' db' = (Inr res', db') \<and> plan_Empty (ir_plan res') \<and> \<not> ir_refused res'"
    using reconciled_no_plan [OF applied_effect(1) [OF a] rec]
    by (simp add: ImportRoleCatalog_def Within_def Let_def refuseImport_def OrphaningRemovals_def applyRoleCatalogPlan_def plan_Empty_def)
  then show ?thesis using rec applied_others [OF a] by blast
qed

text \<open>
  C35.  Without force an import takes no role from anybody: every role assignment survives it, and a
  catalog without roles removes none.  An import that is not applied, because it was a dry run, was
  refused or failed, changes nothing.
\<close>

theorem catalog_import_keeps_assignments:
  assumes "roles_wf db" "Parse decode document = Inr cat" "ImportRoleCatalog env cat opts db = (out, db')"
  shows "(\<not> op_force opts \<longrightarrow> role_assignments db' = role_assignments db \<and> (ct_roles cat = [] \<longrightarrow> roles db' = roles db)) \<and>
    ((\<forall>res. out = Inr res \<longrightarrow> \<not> ir_applied res) \<longrightarrow> db' = db)"
  using assms(3)
proof (cases rule: ImportRoleCatalog_cases)
  case (2 res)
  let ?p = "Diff (snapshotBuiltinRoles db) cat"
  have a: "applied env cat (catalogProvenance env cat (op_source opts)) db db'"
    using 2(4) assms(1) Parse_canonical(1) [OF assms(2)] by (simp add: applied_def)
  have "role_assignments db' = role_assignments db \<and> (ct_roles cat = [] \<longrightarrow> roles db' = roles db)" if "\<not> op_force opts"
  proof -
    have none: "OrphaningRemovals ?p = []" and empty: "ct_roles cat = [] \<longrightarrow> pl_removes ?p = []"
      using 2(3) that by (auto simp: refuseImport_def split: if_splits)
    have "assignment_count (rl_id r) db = 0" if "r \<in> set (roles db)" "dropped cat r" for r
      using none that by (auto simp: OrphaningRemovals_def Diff_def filter_empty_conv snapshotBuiltinRoles_def snapshot_role_def dropped_def)
    then have "\<forall>x \<in> set (role_assignments db). snd x \<notin> rl_id ` {r \<in> set (roles db). dropped cat r}"
      by (auto simp: assignment_count_def filter_empty_conv)
    then have "role_assignments db' = role_assignments db" unfolding applied_effect(2) [OF a] by (simp add: filter_id_conv)
    moreover have "roles db' = roles db" if "ct_roles cat = []"
      using 2(4) empty that by (simp add: applyRoleCatalogPlan_def Diff_def diff_updates_def)
    ultimately show ?thesis by blast
  qed
  then show ?thesis using 2(1,2) by blast
qed simp

text \<open>
   An import that no guard refuses succeeds: with fresh ids for the roles to create and an audit
  trail that takes its entries, every statement of the plan goes through and the catalog is
  reached.
\<close>

theorem catalog_import_applies:
  assumes "roles_wf db" "Parse decode document = Inr cat" "import_ready env cat db" "\<not> op_dry_run opts"
    and "\<not> snd (refuseImport cat (Diff (snapshotBuiltinRoles db) cat) (op_force opts))"
  shows "\<exists>res db'. ImportRoleCatalog env cat opts db = (Inr res, db') \<and> ir_applied res \<and> reconciled cat db'"
proof -
  let ?p = "Diff (snapshotBuiltinRoles db) cat" and ?prov = "catalogProvenance env cat (op_source opts)"
  note canon = Parse_canonical [OF assms(2)]
  obtain db' where db': "applyRoleCatalogPlan env ?p ?prov db = Inr db'" using plan_applies [OF assms(1) canon assms(3)] by blast
  then have "reconciled cat db'" using assms(1) canon(1) by (intro applied_reconciles) (simp add: applied_def)
  then show ?thesis using import_runs [OF assms(4,5) db'] by blast
qed

end
