(* ===== verification/Role_Catalog_Examples.thy ===== *)
theory Role_Catalog_Examples
  imports Role_Catalog_Properties
begin

text \<open>
  A catalog of two roles imported over three: one it updates and adopts, one it removes, and one it
  leaves alone.  The last lemma shows what the orphan guard does not look at.
\<close>

definition rx_read :: permission where
  "rx_read = \<lparr>pm_resource = ''doc'', pm_action = ''read''\<rparr>"

definition rx_any :: permission where
  "rx_any = \<lparr>pm_resource = ''*'', pm_action = ''*''\<rparr>"

definition rx_catalog :: catalog where
  "rx_catalog = \<lparr>ct_version = 1, ct_roles =
     [\<lparr>ro_name = ''viewer'', ro_description = ''reads'', ro_scope = [], ro_permissions = [rx_read]\<rparr>,
      \<lparr>ro_name = ''admin'', ro_description = [], ro_scope = [], ro_permissions = [rx_read, rx_any]\<rparr>]\<rparr>"

definition rx_role :: "uuid \<Rightarrow> string \<Rightarrow> bool \<Rightarrow> role_row" where
  "rx_role i n managed = \<lparr>rl_id = i, rl_name = n, rl_description = None, rl_built_in = True, rl_org_id = None, rl_scope = None,
     rl_catalog_managed = managed, rl_derived_from = None\<rparr>"

definition rx_db :: role_db where
  "rx_db = \<lparr>roles = [rx_role ''1'' ''admin'' False, rx_role ''2'' ''old'' True, rx_role ''3'' ''mine'' False],
     role_permissions = [(''1'', rx_any)], role_assignments = [(''a'', ''1'')], scope_grants = [(''s'', ''2'')],
     record_shares = [], role_audit = []\<rparr>"

definition rx_env :: import_env where
  "rx_env = \<lparr>im_new_id = (\<lambda>n. n), im_accepts_audit = (\<lambda>_. True), im_fingerprint = (\<lambda>_. ''f'')\<rparr>"

definition rx_opts :: import_options where
  "rx_opts = \<lparr>op_dry_run = False, op_force = False, op_source = []\<rparr>"

definition rx_parsed :: catalog where
  "rx_parsed = \<lparr>ct_version = 1, ct_roles =
     [\<lparr>ro_name = ''admin'', ro_description = [], ro_scope = [], ro_permissions = [rx_any, rx_read]\<rparr>,
      \<lparr>ro_name = ''viewer'', ro_description = ''reads'', ro_scope = [], ro_permissions = [rx_read]\<rparr>]\<rparr>"

lemma rx_parse: "Parse (\<lambda>_. Some (rx_catalog, False)) [] = Inr rx_parsed"
  by (simp add: Parse_def rx_catalog_def rx_parsed_def SupportedVersion_def canonicalizePermissions_def namePattern_def
      tokenPattern_def name_start_def permission_key_def rx_read_def rx_any_def less_eq_char_def)

lemma rx_wf: "roles_wf rx_db"
  by (simp add: roles_wf_def tables_wf_def rx_db_def rx_role_def)

lemma rx_ready: "import_ready rx_env rx_parsed rx_db"
  by (auto simp: import_ready_def rx_env_def rx_parsed_def rx_db_def rx_role_def row_at_def select_first_def is_builtin_def)

lemmas rx_plan = refuseImport_def Diff_def snapshotBuiltinRoles_def snapshot_role_def rx_db_def rx_role_def is_builtin_def
  rx_opts_def OrphaningRemovals_def assignment_count_def rx_parsed_def

lemma rx_not_refused: "\<not> snd (refuseImport rx_parsed (Diff (snapshotBuiltinRoles rx_db) rx_parsed) (op_force rx_opts))"
  by (simp add: rx_plan)

theorem catalog_import_applies_witness:
  "\<exists>res db'. ImportRoleCatalog rx_env rx_parsed rx_opts rx_db = (Inr res, db') \<and> ir_applied res \<and> reconciled rx_parsed db'"
  using catalog_import_applies [OF rx_wf rx_parse rx_ready _ rx_not_refused] by (simp add: rx_opts_def)

lemma rx_imports: "\<exists>res db'. ImportRoleCatalog rx_env rx_parsed rx_opts rx_db = (Inr res, db') \<and> ir_applied res"
  using plan_applies [OF rx_wf Parse_canonical [OF rx_parse] rx_ready] import_runs [OF _ rx_not_refused]
  by (metis import_options.select_convs(1) rx_opts_def)

theorem catalog_import_reconciles_witness:
  "\<exists>res db'. ImportRoleCatalog rx_env rx_parsed rx_opts rx_db = (Inr res, db') \<and> rx_role ''3'' ''mine'' False \<in> set (roles db') \<and>
     (\<exists>res'. ImportRoleCatalog rx_env rx_parsed rx_opts db' = (Inr res', db') \<and> plan_Empty (ir_plan res'))"
proof -
  obtain res db' where r: "ImportRoleCatalog rx_env rx_parsed rx_opts rx_db = (Inr res, db')" "ir_applied res" using rx_imports by blast
  have "rx_role ''3'' ''mine'' False \<in> set (roles rx_db)"
      "\<not> (is_builtin (rx_role ''3'' ''mine'' False) \<and> (rl_catalog_managed (rx_role ''3'' ''mine'' False) \<or>
          rl_name (rx_role ''3'' ''mine'' False) \<in> wanted rx_parsed))"
    by (simp_all add: rx_db_def rx_role_def rx_parsed_def)
  then show ?thesis using catalog_import_reconciles [OF rx_wf rx_parse r, of rx_env rx_opts] r(1) by blast
qed

theorem catalog_import_keeps_assignments_witness:
  "role_assignments (snd (ImportRoleCatalog rx_env rx_parsed rx_opts rx_db)) = [(''a'', ''1'')]"
  using catalog_import_keeps_assignments [OF rx_wf rx_parse prod.collapse [symmetric], of rx_opts rx_env]
  by (simp add: rx_opts_def rx_db_def)

text \<open>
  The guard counts assignments only: the role of a scope grant is removed without force, and the
  grant goes with it.
\<close>

lemma import_drops_scope_grant:
  fixes db cat
  defines "db \<equiv> \<lparr>roles = [rx_role ''1'' ''admin'' True, rx_role ''2'' ''old'' True], role_permissions = [], role_assignments = [],
      scope_grants = [(''s'', ''2'')], record_shares = [(''h'', ''2'')], role_audit = []\<rparr>"
    and "cat \<equiv> \<lparr>ct_version = 1, ct_roles = [\<lparr>ro_name = ''admin'', ro_description = [], ro_scope = [], ro_permissions = []\<rparr>]\<rparr>"
  shows "scope_grants (snd (ImportRoleCatalog rx_env cat rx_opts db)) = []" "record_shares (snd (ImportRoleCatalog rx_env cat rx_opts db)) = []"
  by (simp_all add: db_def cat_def ImportRoleCatalog_def Within_def Let_def rx_plan applyRoleCatalogPlan_def apply_remove_def
      delete_role_def emitCatalogAudit_def rx_env_def diff_updates_def by_name_def diffRole_def diffPermissions_def permissions_of_def text_of_def)

end
