(* ===== verification/Access_Tables.thy ===== *)
theory Access_Tables
  imports Role_Catalog
begin

text \<open>
  What the authorization operations share: scope paths (\<^verbatim>\<open>ltree\<close>), the tables of roles, grants,
  shares and memberships, the row-level security policies that confine a tenant session, and the
  two transactions \<^verbatim>\<open>WithOrgTx\<close> and \<^verbatim>\<open>WithControlPlane\<close> of \<^verbatim>\<open>pkg/infra/tenant_tx.go\<close>.
\<close>

section \<open>Scope paths\<close>

text \<open>
  An \<^verbatim>\<open>ltree\<close> is the list of its labels.  PostgreSQL compares two of them label by label, a shorter
  one first, which is the lexicographic order of the lists, and \<^verbatim>\<open>a @> b\<close> says that \<^verbatim>\<open>a\<close> is a prefix.
\<close>

type_synonym ltree = "string list"

definition is_ancestor :: "ltree \<Rightarrow> ltree \<Rightarrow> bool" where
  "is_ancestor a b \<longleftrightarrow> take (length a) b = a"

fun split_dots :: "string \<Rightarrow> string list" where
  "split_dots [] = [[]]"
| "split_dots (c # cs) =
     (if c = CHR ''.'' then [] # split_dots cs
      else case split_dots cs of [] \<Rightarrow> [[c]] | l # ls \<Rightarrow> (c # l) # ls)"

fun ltree_out :: "ltree \<Rightarrow> string" where
  "ltree_out [] = []"
| "ltree_out [l] = l"
| "ltree_out (l # ls) = l @ ''.'' @ ltree_out ls"

definition lower_or_digit :: "char \<Rightarrow> bool" where
  "lower_or_digit c \<longleftrightarrow> (CHR ''a'' \<le> c \<and> c \<le> CHR ''z'') \<or> (CHR ''0'' \<le> c \<and> c \<le> CHR ''9'')"

definition label_char :: "char \<Rightarrow> bool" where
  "label_char c \<longleftrightarrow> lower_or_digit c \<or> c = CHR ''_''"

definition scope_label :: "string \<Rightarrow> bool" where
  "scope_label l \<longleftrightarrow> l \<noteq> [] \<and> list_all label_char l"

definition scopePathPattern :: "string \<Rightarrow> bool" where
  "scopePathPattern path = list_all scope_label (split_dots path)"

text \<open>
  The cast from text: an empty text is the path of no labels; a label is not empty, has at most
  1000 characters and is made of letters, digits, underscores and hyphens; a path has at most
  65535 labels.
\<close>

definition ltree_char :: "char \<Rightarrow> bool" where
  "ltree_char c \<longleftrightarrow> label_char c \<or> (CHR ''A'' \<le> c \<and> c \<le> CHR ''Z'') \<or> c = CHR ''-''"

definition ltree_label :: "string \<Rightarrow> bool" where
  "ltree_label l \<longleftrightarrow> l \<noteq> [] \<and> length l \<le> 1000 \<and> list_all ltree_char l"

definition ltree_in :: "string \<Rightarrow> ltree option" where
  "ltree_in s =
     (if s = [] then Some []
      else if list_all ltree_label (split_dots s) \<and> length (split_dots s) \<le> 65535 then Some (split_dots s)
      else None)"

definition scopeParentPath :: "string \<Rightarrow> string" where
  "scopeParentPath path = rev (tl (dropWhile (\<lambda>c. c \<noteq> CHR ''.'') (rev path)))"

lemma split_dots_nonempty [simp]: "split_dots s \<noteq> []"
  by (induction s) (auto split: list.splits)

lemma split_dots_plain: "CHR ''.'' \<notin> set l \<Longrightarrow> split_dots l = [l]"
  by (induction l) auto

lemma split_dots_append: "CHR ''.'' \<notin> set l \<Longrightarrow> split_dots (l @ ''.'' @ s) = l # split_dots s"
  by (induction l) auto

lemma split_dots_ltree_out:
  assumes "ls \<noteq> []" "\<forall>l \<in> set ls. CHR ''.'' \<notin> set l"
  shows "split_dots (ltree_out ls) = ls"
  using assms
proof (induction ls rule: ltree_out.induct)
  case (3 l l' ls)
  then show ?case using split_dots_append [of l "ltree_out (l' # ls)"] by simp
qed (simp_all add: split_dots_plain)

lemma ltree_out_split_dots: "ltree_out (split_dots s) = s"
proof (induction s)
  case (Cons c cs)
  obtain l ls where ls: "split_dots cs = l # ls" by (cases "split_dots cs") simp_all
  then show ?case using Cons by (cases ls) auto
qed simp

lemma split_dots_no_dot: "l \<in> set (split_dots s) \<Longrightarrow> CHR ''.'' \<notin> set l"
  by (induction s arbitrary: l) (auto split: if_splits list.splits)

lemma label_char_no_dot: "\<not> ltree_char (CHR ''.'')" "\<not> label_char (CHR ''.'')"
  by (simp_all add: ltree_char_def label_char_def lower_or_digit_def less_eq_char_def)

lemma ltree_in_out:
  assumes "list_all ltree_label p" "length p \<le> 65535"
  shows "ltree_in (ltree_out p) = Some p"
proof (cases "p = []")
  case False
  have dots: "\<forall>l \<in> set p. CHR ''.'' \<notin> set l"
    using assms(1) label_char_no_dot by (auto simp: list_all_iff ltree_label_def)
  have "ltree_out p \<noteq> []"
    using False assms(1) by (cases p rule: ltree_out.cases) (auto simp: ltree_label_def)
  then show ?thesis using split_dots_ltree_out [OF False dots] assms by (simp add: ltree_in_def)
qed (simp add: ltree_in_def)

lemma ltree_in_Some: "ltree_in s = Some p \<Longrightarrow> ltree_out p = s"
  by (auto simp: ltree_in_def ltree_out_split_dots split: if_splits)

lemma ltree_in_labels: "ltree_in s = Some p \<Longrightarrow> list_all ltree_label p \<and> length p \<le> 65535"
  by (auto simp: ltree_in_def split: if_splits)

lemma rev_rsplit:
  assumes "CHR ''.'' \<notin> set l"
  shows "rev (tl (dropWhile (\<lambda>c. c \<noteq> CHR ''.'') (rev (p @ ''.'' @ l)))) = p"
proof -
  have "dropWhile (\<lambda>c. c \<noteq> CHR ''.'') (rev l @ CHR ''.'' # rev p) = CHR ''.'' # rev p"
    using assms by (subst dropWhile_append2) auto
  then show ?thesis by simp
qed

lemma ltree_out_snoc: "p \<noteq> [] \<Longrightarrow> ltree_out (p @ [l]) = ltree_out p @ ''.'' @ l"
  by (induction p rule: ltree_out.induct) auto

lemma no_dot_dropWhile: "CHR ''.'' \<notin> set l \<Longrightarrow> dropWhile (\<lambda>c. c \<noteq> CHR ''.'') (rev l) = []"
  by (auto simp: dropWhile_eq_Nil_conv)

text \<open>The parent of a registered path is the path without its last label.\<close>

lemma scopeParentPath_labels:
  assumes "p \<noteq> []" "\<forall>l \<in> set p. CHR ''.'' \<notin> set l"
  shows "scopeParentPath (ltree_out p) = ltree_out (butlast p)"
proof (cases "butlast p")
  case Nil
  then obtain l where "p = [l]" using assms(1) by (metis append_Nil append_butlast_last_id)
  then show ?thesis using assms(2) by (simp add: scopeParentPath_def no_dot_dropWhile)
next
  case (Cons a as)
  have p: "p = butlast p @ [last p]" using assms(1) by simp
  have "CHR ''.'' \<notin> set (last p)" using assms by (meson last_in_set)
  then show ?thesis
    using ltree_out_snoc [of "butlast p" "last p"] p Cons rev_rsplit [of "last p" "ltree_out (butlast p)"]
    by (simp add: scopeParentPath_def)
qed

lemma is_ancestor_refl [simp]: "is_ancestor p p"
  by (simp add: is_ancestor_def)

lemma is_ancestor_append: "is_ancestor a b \<longleftrightarrow> (\<exists>c. b = a @ c)"
  by (auto simp: is_ancestor_def) (metis append_take_drop_id)

lemma is_ancestor_trans: "is_ancestor a b \<Longrightarrow> is_ancestor b c \<Longrightarrow> is_ancestor a c"
  by (auto simp: is_ancestor_append)

section \<open>The tables\<close>

datatype SubjectKind =
    SUBJECT_KIND_UNSPECIFIED
  | SUBJECT_KIND_PRINCIPAL
  | SUBJECT_KIND_TEAM
  | SUBJECT_KIND_unknown nat

record scope_node =
  sn_id :: uuid
  sn_org_id :: uuid
  sn_scope_path :: ltree
  sn_kind :: string
  sn_label :: string
  sn_resource_type :: "string option"
  sn_resource_id :: "string option"
  sn_created_at :: time

record scope_grant =
  sg_id :: uuid
  sg_org_id :: uuid
  sg_subject_id :: uuid
  sg_subject_kind :: string
  sg_scope_path :: ltree
  sg_role_id :: uuid
  sg_granted_by :: "uuid option"
  sg_expires_at :: "time option"
  sg_derived_from :: "uuid option"
  sg_created_at :: time

record record_share =
  sh_id :: uuid
  sh_org_id :: uuid
  sh_resource_type :: string
  sh_resource_id :: string
  sh_subject_id :: uuid
  sh_subject_kind :: string
  sh_role_id :: uuid
  sh_granted_by :: "uuid option"
  sh_expires_at :: "time option"
  sh_created_at :: time

record role_assignment =
  ra_id :: uuid
  ra_subject_id :: uuid
  ra_subject_kind :: string
  ra_role_id :: uuid
  ra_org_id :: "uuid option"
  ra_scope :: "string option"
  ra_assigned_at :: time

record principal =
  pr_id :: uuid
  pr_kind :: string
  pr_org_id :: "uuid option"
  pr_revoked_at :: "time option"

record installation =
  in_id :: uuid
  in_org_id :: uuid
  in_target_id :: string
  in_root_scope_node_id :: uuid
  in_agent_principal_id :: uuid
  in_status :: string
  in_no_standing_authority :: bool

text \<open>An event of the transactional outbox, with the fields its producers set.\<close>

record domain_event =
  de_type :: string
  de_tenant_id :: uuid
  de_boundary_id :: string
  de_actor :: string
  de_data :: "(string \<times> string) list"

text \<open>
  Memberships are pairs: \<^verbatim>\<open>team_members\<close> of a team and a user, \<^verbatim>\<open>organization_members\<close> of an organization
  and a user, \<^verbatim>\<open>platform_admins\<close> of a user and the platform role.
\<close>

record access_db =
  az_roles :: "role_row list"
  az_role_permissions :: "(uuid \<times> permission) list"
  az_role_assignments :: "role_assignment list"
  az_scope_nodes :: "scope_node list"
  az_scope_grants :: "scope_grant list"
  az_record_shares :: "record_share list"
  az_teams :: "(uuid \<times> uuid) list"
  az_team_members :: "(uuid \<times> uuid) list"
  az_organization_members :: "(uuid \<times> uuid) list"
  az_principals :: "principal list"
  az_platform_admins :: "(uuid \<times> string) list"
  az_installations :: "installation list"
  az_audit :: "audit_entry list"
  az_events :: "domain_event list"

datatype precondition =
    ParentNotRegistered
  | ScopeNotRegistered
  | RoleNotVisible
  | RoleDerived
  | GrantOfOtherCause
  | RoleBuiltIn

text \<open>gRPC codes, errors of the store, and what the database refuses; messages are left out.\<close>

datatype access_error =
    InvalidArgument
  | FailedPrecondition precondition
  | PermissionDenied
  | NotFound
  | EmptyOrgID
  | UnsupportedKind
  | StoreError store_error

text \<open>
  The request and the service it reaches: the clock, whether the request is impersonated, new ids
  in the order they are drawn, the parser of \<^verbatim>\<open>google/uuid\<close>, the audit emitter, the event transport
  with the envelopes it accepts, and the organizations the foreign keys look up.
\<close>

record access_env =
  ax_now :: time
  ax_impersonated :: bool
  ax_new_id :: "nat \<Rightarrow> uuid"
  ax_parse_id :: "string \<Rightarrow> uuid option"
  ax_audit :: audit_emitter
  ax_transport :: "(domain_event \<Rightarrow> bool) option"
  ax_org_exists :: "uuid \<Rightarrow> bool"

section \<open>Row-level security\<close>

datatype db_session = TenantTx uuid | ControlPlaneTx

definition in_tenant :: "db_session \<Rightarrow> uuid \<Rightarrow> bool" where
  "in_tenant s org = (case s of TenantTx t \<Rightarrow> org = t | ControlPlaneTx \<Rightarrow> True)"

definition global_or_in_tenant :: "db_session \<Rightarrow> uuid option \<Rightarrow> bool" where
  "global_or_in_tenant s org = (case org of None \<Rightarrow> True | Some o' \<Rightarrow> in_tenant s o')"

text \<open>The \<^verbatim>\<open>WITH CHECK\<close> of the polymorphic policies: a tenant writes no global row.\<close>

definition may_write_org :: "db_session \<Rightarrow> uuid option \<Rightarrow> bool" where
  "may_write_org s org = (case s of TenantTx t \<Rightarrow> org = Some t | ControlPlaneTx \<Rightarrow> True)"

definition visible_nodes :: "db_session \<Rightarrow> access_db \<Rightarrow> scope_node list" where
  "visible_nodes s db = filter (\<lambda>n. in_tenant s (sn_org_id n)) (az_scope_nodes db)"

definition visible_grants :: "db_session \<Rightarrow> access_db \<Rightarrow> scope_grant list" where
  "visible_grants s db = filter (\<lambda>g. in_tenant s (sg_org_id g)) (az_scope_grants db)"

definition visible_shares :: "db_session \<Rightarrow> access_db \<Rightarrow> record_share list" where
  "visible_shares s db = filter (\<lambda>h. in_tenant s (sh_org_id h)) (az_record_shares db)"

definition visible_roles :: "db_session \<Rightarrow> access_db \<Rightarrow> role_row list" where
  "visible_roles s db = filter (\<lambda>r. global_or_in_tenant s (rl_org_id r)) (az_roles db)"

definition visible_permissions :: "db_session \<Rightarrow> access_db \<Rightarrow> (uuid \<times> permission) list" where
  "visible_permissions s db =
     (case s of
        TenantTx t \<Rightarrow> filter (\<lambda>rp. fst rp \<in> rl_id ` set (visible_roles s db)) (az_role_permissions db)
      | ControlPlaneTx \<Rightarrow> az_role_permissions db)"

definition visible_assignments :: "db_session \<Rightarrow> access_db \<Rightarrow> role_assignment list" where
  "visible_assignments s db = filter (\<lambda>a. global_or_in_tenant s (ra_org_id a)) (az_role_assignments db)"

definition visible_teams :: "db_session \<Rightarrow> access_db \<Rightarrow> (uuid \<times> uuid) list" where
  "visible_teams s db = filter (\<lambda>t. in_tenant s (snd t)) (az_teams db)"

definition visible_team_members :: "db_session \<Rightarrow> access_db \<Rightarrow> (uuid \<times> uuid) list" where
  "visible_team_members s db =
     (case s of
        TenantTx t \<Rightarrow> filter (\<lambda>m. fst m \<in> fst ` set (visible_teams s db)) (az_team_members db)
      | ControlPlaneTx \<Rightarrow> az_team_members db)"

definition visible_members :: "db_session \<Rightarrow> access_db \<Rightarrow> (uuid \<times> uuid) list" where
  "visible_members s db = filter (\<lambda>m. in_tenant s (fst m)) (az_organization_members db)"

text \<open>A principal is visible to its own organization and to those it is a member of.\<close>

definition visible_principals :: "db_session \<Rightarrow> access_db \<Rightarrow> principal list" where
  "visible_principals s db =
     (case s of
        TenantTx t \<Rightarrow> filter (\<lambda>p. pr_org_id p = Some t \<or> pr_id p \<in> snd ` set (visible_members s db)) (az_principals db)
      | ControlPlaneTx \<Rightarrow> az_principals db)"

definition visible_installations :: "db_session \<Rightarrow> access_db \<Rightarrow> installation list" where
  "visible_installations s db = filter (\<lambda>i. in_tenant s (in_org_id i)) (az_installations db)"

section \<open>Transactions, audit and events\<close>

definition WithOrgTx :: "uuid \<Rightarrow> (db_session \<Rightarrow> 's \<Rightarrow> access_error + 'a \<times> 's) \<Rightarrow> 's \<Rightarrow> (access_error + 'a) \<times> 's" where
  "WithOrgTx org fn s = (if org = [] then (Inl EmptyOrgID, s) else Within (fn (TenantTx org)) s)"

definition WithControlPlane :: "(db_session \<Rightarrow> 's \<Rightarrow> access_error + 'a \<times> 's) \<Rightarrow> 's \<Rightarrow> (access_error + 'a) \<times> 's" where
  "WithControlPlane fn s = Within (fn ControlPlaneTx) s"

definition narrow :: "(db_session \<Rightarrow> 's \<Rightarrow> access_error + 'a \<times> 's) \<Rightarrow> 's \<Rightarrow> (access_error + 'a) \<times> 's" where
  "narrow apply_change s = WithControlPlane apply_change s"

definition from_store :: "store_error + 'a \<Rightarrow> access_error + 'a" where
  "from_store r = (case r of Inl e \<Rightarrow> Inl (StoreError e) | Inr x \<Rightarrow> Inr x)"

definition access_emitTx :: "access_env \<Rightarrow> string \<Rightarrow> string \<Rightarrow> string \<Rightarrow> string \<Rightarrow> string \<Rightarrow> (string \<times> string) list \<Rightarrow>
   access_db \<Rightarrow> access_error + access_db" where
  "access_emitTx env actor event resource resource_id org payload db =
     rbind (from_store (emitTx (ax_audit env)
       \<lparr>ae_actor_id = actor, ae_actor_type = ''user'', ae_event_type = event, ae_resource = resource,
        ae_resource_id = resource_id, ae_org_id = org, ae_payload = payload\<rparr> (az_audit db))) (\<lambda>trail.
     Inr (db\<lparr>az_audit := trail\<rparr>))"

definition publishLifecycleEvent :: "access_env \<Rightarrow> string \<Rightarrow> uuid \<Rightarrow> string \<Rightarrow> string \<Rightarrow> (string \<times> string) list \<Rightarrow>
   access_db \<Rightarrow> access_error + access_db" where
  "publishLifecycleEvent env event_type tenant boundary actor data db =
     (let envelope = \<lparr>de_type = event_type, de_tenant_id = tenant, de_boundary_id = boundary, de_actor = actor, de_data = data\<rparr>
      in case ax_transport env of
           None \<Rightarrow> Inr db
         | Some accepts \<Rightarrow>
             if accepts envelope then Inr (db\<lparr>az_events := az_events db @ [envelope]\<rparr>) else Inl (StoreError ErrPlain))"

lemma from_store_eq: "from_store r = Inr x \<longleftrightarrow> r = Inr x" "from_store r = Inl e \<longleftrightarrow> (\<exists>e'. r = Inl e' \<and> e = StoreError e')"
  by (auto simp: from_store_def split: sum.splits)

lemma access_emitTx_Inr: "access_emitTx env actor event resource i org payload db = Inr db' \<Longrightarrow> \<exists>trail. db' = db\<lparr>az_audit := trail\<rparr>"
  by (auto simp: access_emitTx_def rbind_eq_Inr)

lemma publishLifecycleEvent_Inr: "publishLifecycleEvent env ty tenant boundary actor data db = Inr db' \<Longrightarrow>
    \<exists>events. db' = db\<lparr>az_events := events\<rparr>"
proof (induction "ax_transport env")
  case None
  then show ?case by (auto simp: publishLifecycleEvent_def intro: exI [of _ "az_events db"])
next
  case (Some accepts)
  then show ?case by (auto simp: publishLifecycleEvent_def Let_def split: if_splits option.splits)
qed

end
