(* ===== verification/Permissions.thy ===== *)
theory Permissions
  imports Access_Tables
begin

text \<open>
  Roles, their permissions and who holds them: \<^verbatim>\<open>business/permissions.go\<close>, the role operations of
  \<^verbatim>\<open>business/service.go\<close>, \<^verbatim>\<open>business/subject_tenancy.go\<close> and \<^verbatim>\<open>infra/postgres_permissions.go\<close>.
\<close>

section \<open>Who a subject is\<close>

definition subjectKindColumn :: "SubjectKind \<Rightarrow> access_error + string" where
  "subjectKindColumn kind =
     (case kind of
        SUBJECT_KIND_PRINCIPAL \<Rightarrow> Inr ''principal''
      | SUBJECT_KIND_TEAM \<Rightarrow> Inr ''team''
      | _ \<Rightarrow> Inl InvalidArgument)"

text \<open>
  Whether a row naming \<^verbatim>\<open>subject_kind\<close> and \<^verbatim>\<open>subject_id\<close> belongs to the asking subject: a principal also
  has the rows of the teams it is a member of.
\<close>

definition subject_matches :: "SubjectKind \<Rightarrow> uuid \<Rightarrow> (uuid \<times> uuid) list \<Rightarrow> access_error \<Rightarrow>
   access_error + (string \<Rightarrow> uuid \<Rightarrow> bool)" where
  "subject_matches kind subject members unsupported =
     (case kind of
        SUBJECT_KIND_PRINCIPAL \<Rightarrow>
          Inr (\<lambda>k i. (k = ''principal'' \<and> i = subject) \<or> (k = ''team'' \<and> (i, subject) \<in> set members))
      | SUBJECT_KIND_TEAM \<Rightarrow> Inr (\<lambda>k i. k = ''team'' \<and> i = subject)
      | _ \<Rightarrow> Inl unsupported)"

definition assignmentSubjectPredicate :: "SubjectKind \<Rightarrow> uuid \<Rightarrow> (uuid \<times> uuid) list \<Rightarrow> access_error + (role_assignment \<Rightarrow> bool)" where
  "assignmentSubjectPredicate kind subject members =
     rbind (subject_matches kind subject members UnsupportedKind) (\<lambda>m. Inr (\<lambda>a. m (ra_subject_kind a) (ra_subject_id a)))"

definition ParseID :: "access_env \<Rightarrow> string \<Rightarrow> uuid option" where
  "ParseID env s = (if s = [] then None else ax_parse_id env s)"

definition canonicalSubjectTenancyIDs :: "access_env \<Rightarrow> string \<Rightarrow> string \<Rightarrow> access_error + uuid \<times> uuid" where
  "canonicalSubjectTenancyIDs env org subject =
     (case ParseID env org of
        None \<Rightarrow> Inl InvalidArgument
      | Some o' \<Rightarrow> (case ParseID env subject of None \<Rightarrow> Inl InvalidArgument | Some u \<Rightarrow> Inr (o', u)))"

definition OrgMemberExists :: "db_session \<Rightarrow> uuid \<Rightarrow> uuid \<Rightarrow> access_db \<Rightarrow> bool" where
  "OrgMemberExists s org user db \<longleftrightarrow> (org, user) \<in> set (visible_members s db)"

definition GetTeamOrgID :: "db_session \<Rightarrow> uuid \<Rightarrow> access_db \<Rightarrow> uuid" where
  "GetTeamOrgID s team db = (case select_first (\<lambda>t. fst t = team) (visible_teams s db) of None \<Rightarrow> [] | Some t \<Rightarrow> snd t)"

definition GetPrincipal :: "db_session \<Rightarrow> uuid \<Rightarrow> access_db \<Rightarrow> principal option" where
  "GetPrincipal s i db = select_first (\<lambda>p. pr_id p = i) (visible_principals s db)"

definition IsRevoked :: "principal \<Rightarrow> bool" where
  "IsRevoked p \<longleftrightarrow> pr_revoked_at p \<noteq> None"

definition requireSubjectInOrgTx :: "access_env \<Rightarrow> db_session \<Rightarrow> string \<Rightarrow> string \<Rightarrow> SubjectKind \<Rightarrow> access_db \<Rightarrow> access_error + unit" where
  "requireSubjectInOrgTx env s raw_org raw_subject kind db =
     rbind (canonicalSubjectTenancyIDs env raw_org raw_subject) (\<lambda>(org, subject).
     case kind of
       SUBJECT_KIND_PRINCIPAL \<Rightarrow>
         if OrgMemberExists s org subject db then Inr ()
         else (case GetPrincipal s subject db of
                 None \<Rightarrow> Inl PermissionDenied
               | Some p \<Rightarrow> guard (pr_org_id p = Some org \<and> \<not> IsRevoked p) PermissionDenied)
     | SUBJECT_KIND_TEAM \<Rightarrow> guard (GetTeamOrgID s subject db = org) PermissionDenied
     | _ \<Rightarrow> Inl InvalidArgument)"

section \<open>Which roles may be conferred\<close>

definition requireVisibleRole :: "db_session \<Rightarrow> uuid \<Rightarrow> access_db \<Rightarrow> access_error + unit" where
  "requireVisibleRole s role db = guard (role \<in> rl_id ` set (visible_roles s db)) (FailedPrecondition RoleNotVisible)"

text \<open>The outer option says whether the role exists, the string is empty where nothing derived it.\<close>

definition derivedRoleProvenance :: "db_session \<Rightarrow> uuid \<Rightarrow> access_db \<Rightarrow> string option" where
  "derivedRoleProvenance s role db =
     map_option (\<lambda>r. text_of (rl_derived_from r)) (select_first (\<lambda>r. rl_id r = role) (visible_roles s db))"

definition requireNotDerivedRole :: "db_session \<Rightarrow> uuid \<Rightarrow> access_db \<Rightarrow> access_error + unit" where
  "requireNotDerivedRole s role db =
     (case derivedRoleProvenance s role db of
        None \<Rightarrow> Inl (FailedPrecondition RoleNotVisible)
      | Some provenance \<Rightarrow> guard (provenance = []) (FailedPrecondition RoleDerived))"

section \<open>Roles\<close>

record api_role =
  ar_id :: uuid
  ar_name :: string
  ar_description :: string
  ar_permissions :: "permission list"
  ar_built_in :: bool
  ar_org_id :: string

text \<open>
  \<^verbatim>\<open>INSERT INTO roles\<close>: a fresh id, a name new among the roles of its organization or among the global
  ones, and for a tenant its own organization.
\<close>

definition role_name_taken :: "role_row \<Rightarrow> access_db \<Rightarrow> bool" where
  "role_name_taken r db \<longleftrightarrow> (\<exists>old \<in> set (az_roles db). rl_org_id old = rl_org_id r \<and> rl_name old = rl_name r)"

definition insert_role_row :: "access_env \<Rightarrow> db_session \<Rightarrow> role_row \<Rightarrow> access_db \<Rightarrow> access_error + access_db" where
  "insert_role_row env s r db =
     (if may_write_org s (rl_org_id r) \<and> rl_id r \<notin> rl_id ` set (az_roles db) \<and> \<not> role_name_taken r db \<and>
         (case rl_org_id r of None \<Rightarrow> True | Some org \<Rightarrow> ax_org_exists env org)
      then Inr (db\<lparr>az_roles := az_roles db @ [r]\<rparr>)
      else Inl (StoreError ErrConstraint))"

text \<open>\<^verbatim>\<open>INSERT INTO role_permissions .. ON CONFLICT DO NOTHING\<close>, once per permission.\<close>

definition add_permission :: "uuid \<Rightarrow> permission \<Rightarrow> access_db \<Rightarrow> access_db" where
  "add_permission role perm db =
     (if (role, perm) \<in> set (az_role_permissions db) then db
      else db\<lparr>az_role_permissions := az_role_permissions db @ [(role, perm)]\<rparr>)"

definition add_permissions :: "uuid \<Rightarrow> permission list \<Rightarrow> access_db \<Rightarrow> access_db" where
  "add_permissions role perms db = fold (add_permission role) perms db"

definition store_CreateRole :: "access_env \<Rightarrow> db_session \<Rightarrow> api_role \<Rightarrow> access_db \<Rightarrow> access_error + access_db" where
  "store_CreateRole env s r db =
     rbind (insert_role_row env s
       \<lparr>rl_id = ar_id r, rl_name = ar_name r, rl_description = Some (ar_description r), rl_built_in = ar_built_in r,
        rl_org_id = nilIfEmpty (ar_org_id r), rl_scope = None, rl_catalog_managed = False, rl_derived_from = None\<rparr> db) (\<lambda>db.
     Inr (add_permissions (ar_id r) (ar_permissions r) db))"

text \<open>
  The rows of the listing's join come ordered by \<^verbatim>\<open>built_in\<close>, name, resource and action; a role without
  permissions has one row without one, which sorts last.  The client folds them by role id, keeping the order in
  which ids first appear.
\<close>

type_synonym role_join = "role_row \<times> permission option"

definition role_joins :: "db_session \<Rightarrow> access_db \<Rightarrow> role_row \<Rightarrow> role_join list" where
  "role_joins s db r =
     (let perms = map snd (filter (\<lambda>rp. fst rp = rl_id r) (visible_permissions s db))
      in if perms = [] then [(r, None)] else map (\<lambda>p. (r, Some p)) perms)"

definition join_before :: "role_join \<Rightarrow> bool \<times> string \<times> bool \<times> string \<times> string" where
  "join_before j =
     (\<not> rl_built_in (fst j), rl_name (fst j), snd j = None,
      (case snd j of None \<Rightarrow> ([], []) | Some p \<Rightarrow> permission_key p))"

definition fold_role :: "role_join \<Rightarrow> api_role list \<Rightarrow> api_role list" where
  "fold_role j acc =
     (let perms = (case snd j of None \<Rightarrow> [] | Some p \<Rightarrow> [p])
      in if rl_id (fst j) \<in> ar_id ` set acc then
           update_where (\<lambda>r. ar_id r = rl_id (fst j)) (\<lambda>r. r\<lparr>ar_permissions := ar_permissions r @ perms\<rparr>) acc
         else acc @ [\<lparr>ar_id = rl_id (fst j), ar_name = rl_name (fst j), ar_description = text_of (rl_description (fst j)),
           ar_permissions = perms, ar_built_in = rl_built_in (fst j), ar_org_id = text_of (rl_org_id (fst j))\<rparr>])"

definition listed_role :: "string \<Rightarrow> role_row \<Rightarrow> bool" where
  "listed_role org r \<longleftrightarrow> rl_derived_from r = None \<and>
     (rl_org_id r = None \<or> (org \<noteq> [] \<and> rl_org_id r = Some org))"

definition store_ListRoles :: "db_session \<Rightarrow> string \<Rightarrow> access_db \<Rightarrow> api_role list" where
  "store_ListRoles s org db =
     fold fold_role
       (sort_key join_before (concat (map (role_joins s db) (filter (listed_role org) (visible_roles s db))))) []"

text \<open>\<^verbatim>\<open>SELECT resource, action .. ORDER BY resource, action\<close>.\<close>

definition stored_permissions :: "db_session \<Rightarrow> uuid \<Rightarrow> access_db \<Rightarrow> permission list" where
  "stored_permissions s role db =
     sort_key permission_key (map snd (filter (\<lambda>rp. fst rp = role) (visible_permissions s db)))"

definition clear_permissions :: "uuid \<Rightarrow> access_db \<Rightarrow> access_db" where
  "clear_permissions role db = db\<lparr>az_role_permissions := filter (\<lambda>rp. fst rp \<noteq> role) (az_role_permissions db)\<rparr>"

definition set_role_description :: "uuid \<Rightarrow> string \<Rightarrow> access_db \<Rightarrow> access_db" where
  "set_role_description role description db =
     db\<lparr>az_roles := update_where (\<lambda>r. rl_id r = role) (\<lambda>r. r\<lparr>rl_description := Some description\<rparr>) (az_roles db)\<rparr>"

definition store_UpdateRole :: "db_session \<Rightarrow> uuid \<Rightarrow> string \<Rightarrow> string \<Rightarrow> permission list \<Rightarrow> access_db \<Rightarrow>
   access_error + api_role \<times> access_db" where
  "store_UpdateRole s role org description perms db =
     (case select_first (\<lambda>r. rl_id r = role \<and> rl_org_id r = nilIfEmpty org) (visible_roles s db) of
        None \<Rightarrow> Inl NotFound
      | Some r \<Rightarrow>
          if rl_built_in r then Inl (FailedPrecondition RoleBuiltIn)
          else if rl_derived_from r \<noteq> None then Inl (FailedPrecondition RoleDerived)
          else
            let db' = add_permissions role perms (clear_permissions role (set_role_description role description db))
            in Inr (\<lparr>ar_id = role, ar_name = rl_name r, ar_description = description,
                     ar_permissions = stored_permissions s role db', ar_built_in = False, ar_org_id = org\<rparr>, db'))"

text \<open>
  Rows that reference a deleted row go with it.  A scope grant may have caused others, and so on:
  the cascade follows \<^verbatim>\<open>derived_from_grant_id\<close> until nothing more depends on what was deleted.
\<close>

definition caused_by :: "uuid set \<Rightarrow> scope_grant \<Rightarrow> bool" where
  "caused_by dead g = (case sg_derived_from g of None \<Rightarrow> False | Some c \<Rightarrow> c \<in> dead)"

lemma cascade_shrinks:
  assumes "filter (caused_by dead) gs \<noteq> []"
  shows "length (filter (\<lambda>g. \<not> caused_by dead g) gs) < length gs"
  using assms by (metis (mono_tags, lifting) filter_empty_conv length_filter_less)

function cascade_grants :: "uuid set \<Rightarrow> scope_grant list \<Rightarrow> scope_grant list" where
  "cascade_grants dead gs =
     (let gone = filter (caused_by dead) gs
      in if gone = [] then gs else cascade_grants (sg_id ` set gone) (filter (\<lambda>g. \<not> caused_by dead g) gs))"
  by pat_completeness auto
termination
  by (relation "measure (\<lambda>(dead, gs). length gs)") (auto intro: cascade_shrinks)

declare cascade_grants.simps [simp del]

definition delete_grants :: "(scope_grant \<Rightarrow> bool) \<Rightarrow> scope_grant list \<Rightarrow> scope_grant list" where
  "delete_grants p gs = cascade_grants (sg_id ` set (filter p gs)) (filter (\<lambda>g. \<not> p g) gs)"

definition delete_role_row :: "uuid \<Rightarrow> access_db \<Rightarrow> access_db" where
  "delete_role_row role db =
     db\<lparr>az_roles := filter (\<lambda>r. rl_id r \<noteq> role) (az_roles db),
        az_role_permissions := filter (\<lambda>rp. fst rp \<noteq> role) (az_role_permissions db),
        az_role_assignments := filter (\<lambda>a. ra_role_id a \<noteq> role) (az_role_assignments db),
        az_scope_grants := delete_grants (\<lambda>g. sg_role_id g = role) (az_scope_grants db),
        az_record_shares := filter (\<lambda>h. sh_role_id h \<noteq> role) (az_record_shares db)\<rparr>"

definition store_DeleteRole :: "db_session \<Rightarrow> uuid \<Rightarrow> access_db \<Rightarrow> access_error + access_db" where
  "store_DeleteRole s role db =
     (case select_first (\<lambda>r. rl_id r = role) (visible_roles s db) of
        None \<Rightarrow> Inl (StoreError ErrPlain)
      | Some r \<Rightarrow>
          if rl_built_in r then Inl (StoreError ErrPlain)
          else if rl_derived_from r \<noteq> None then Inl (FailedPrecondition RoleDerived)
          else Inr (delete_role_row role db))"

section \<open>Assignments\<close>

text \<open>
  The unique key of an assignment has no effect on rows without organization or scope, since no
  two NULLs are equal to it.
\<close>

definition assignment_conflicts :: "role_assignment \<Rightarrow> role_assignment \<Rightarrow> bool" where
  "assignment_conflicts a old \<longleftrightarrow> ra_id old = ra_id a \<or>
     (ra_subject_id old = ra_subject_id a \<and> ra_role_id old = ra_role_id a \<and>
      ra_org_id old = ra_org_id a \<and> ra_org_id a \<noteq> None \<and> ra_scope old = ra_scope a \<and> ra_scope a \<noteq> None)"

definition store_AssignRole :: "access_env \<Rightarrow> db_session \<Rightarrow> uuid \<Rightarrow> uuid \<Rightarrow> SubjectKind \<Rightarrow> uuid \<Rightarrow> string \<Rightarrow> string \<Rightarrow> access_db \<Rightarrow>
   access_error + access_db" where
  "store_AssignRole env s i subject kind role org scope db =
     rbind (case subjectKindColumn kind of Inl e \<Rightarrow> Inl UnsupportedKind | Inr k \<Rightarrow> Inr k) (\<lambda>column.
     rbind (requireVisibleRole s role db) (\<lambda>_.
     rbind (requireNotDerivedRole s role db) (\<lambda>_.
       let row = \<lparr>ra_id = i, ra_subject_id = subject, ra_subject_kind = column, ra_role_id = role,
                  ra_org_id = nilIfEmpty org, ra_scope = nilIfEmpty scope, ra_assigned_at = ax_now env\<rparr>
       in if \<not> may_write_org s (ra_org_id row) then Inl (StoreError ErrConstraint)
          else if \<exists>old \<in> set (az_role_assignments db). assignment_conflicts row old then Inr db
          else if org \<noteq> [] \<and> \<not> ax_org_exists env org then Inl (StoreError ErrConstraint)
          else Inr (db\<lparr>az_role_assignments := az_role_assignments db @ [row]\<rparr>))))"

definition kind_filter :: "SubjectKind \<Rightarrow> access_error + (string \<Rightarrow> bool)" where
  "kind_filter kind =
     (case kind of
        SUBJECT_KIND_UNSPECIFIED \<Rightarrow> Inr (\<lambda>_. True)
      | SUBJECT_KIND_PRINCIPAL \<Rightarrow> Inr (\<lambda>k. k = ''principal'')
      | SUBJECT_KIND_TEAM \<Rightarrow> Inr (\<lambda>k. k = ''team'')
      | SUBJECT_KIND_unknown n \<Rightarrow> Inl UnsupportedKind)"

definition store_ListRoleAssignments :: "db_session \<Rightarrow> string \<Rightarrow> string \<Rightarrow> SubjectKind \<Rightarrow> access_db \<Rightarrow> access_error + role_assignment list" where
  "store_ListRoleAssignments s org subject kind db =
     rbind (kind_filter kind) (\<lambda>of_kind.
       let rows = sort_key (\<lambda>a. - ra_assigned_at a)
             (filter (\<lambda>a. (org = [] \<or> ra_org_id a = Some org) \<and> (subject = [] \<or> ra_subject_id a = subject) \<and> of_kind (ra_subject_kind a))
               (visible_assignments s db))
       in if list_all (\<lambda>a. ra_subject_kind a \<in> {''principal'', ''team''}) rows then Inr rows else Inl UnsupportedKind)"

definition revoked_assignment :: "uuid \<Rightarrow> uuid \<Rightarrow> string \<Rightarrow> string \<Rightarrow> role_assignment \<Rightarrow> bool" where
  "revoked_assignment subject role org scope a \<longleftrightarrow>
     ra_subject_id a = subject \<and> ra_role_id a = role \<and> ra_org_id a = nilIfEmpty org \<and> ra_scope a = nilIfEmpty scope"

definition store_RevokeRole :: "db_session \<Rightarrow> uuid \<Rightarrow> uuid \<Rightarrow> string \<Rightarrow> string \<Rightarrow> access_db \<Rightarrow> access_error + access_db" where
  "store_RevokeRole s subject role org scope db =
     (let p = (\<lambda>a. global_or_in_tenant s (ra_org_id a) \<and> revoked_assignment subject role org scope a)
      in if rows_affected p (az_role_assignments db) = 0 then Inl NotFound
         else Inr (db\<lparr>az_role_assignments := filter (\<lambda>a. \<not> p a) (az_role_assignments db)\<rparr>))"

section \<open>Decisions\<close>

definition permits :: "(uuid \<times> permission) list \<Rightarrow> uuid \<Rightarrow> string \<Rightarrow> string \<Rightarrow> bool" where
  "permits perms role resource action \<longleftrightarrow>
     (\<exists>rp \<in> set perms. fst rp = role \<and> (pm_resource (snd rp) = ''*'' \<or> pm_resource (snd rp) = resource) \<and>
        (pm_action (snd rp) = ''*'' \<or> pm_action (snd rp) = action))"

definition scope_answers :: "string \<Rightarrow> role_assignment \<Rightarrow> bool" where
  "scope_answers scope a \<longleftrightarrow> ra_scope a = None \<or> (scope \<noteq> [] \<and> ra_scope a = Some scope)"

definition org_answers :: "string \<Rightarrow> role_assignment \<Rightarrow> bool" where
  "org_answers org a \<longleftrightarrow> ra_org_id a = None \<or> (org \<noteq> [] \<and> ra_org_id a = Some org)"

definition role_of_assignment :: "db_session \<Rightarrow> access_db \<Rightarrow> role_assignment \<Rightarrow> role_row option" where
  "role_of_assignment s db a = select_first (\<lambda>r. rl_id r = ra_role_id a) (visible_roles s db)"

definition assignment_grants :: "db_session \<Rightarrow> string \<Rightarrow> string \<Rightarrow> access_db \<Rightarrow> role_assignment \<Rightarrow> bool" where
  "assignment_grants s resource action db a \<longleftrightarrow>
     role_of_assignment s db a \<noteq> None \<and> permits (visible_permissions s db) (ra_role_id a) resource action"

definition store_CheckPermission :: "db_session \<Rightarrow> uuid \<Rightarrow> SubjectKind \<Rightarrow> string \<Rightarrow> string \<Rightarrow> string \<Rightarrow> string \<Rightarrow> access_db \<Rightarrow>
   access_error + bool \<times> string" where
  "store_CheckPermission s subject kind resource action org scope db =
     rbind (assignmentSubjectPredicate kind subject (visible_team_members s db)) (\<lambda>of_subject.
       case select_first (\<lambda>a. of_subject a \<and> assignment_grants s resource action db a \<and> org_answers org a \<and> scope_answers scope a)
              (visible_assignments s db) of
         None \<Rightarrow> Inr (False, ''no matching permission found'')
       | Some a \<Rightarrow> Inr (True, ''granted via role: '' @ (case role_of_assignment s db a of None \<Rightarrow> [] | Some r \<Rightarrow> rl_name r)))"

definition store_ScopesGrantingPermission :: "db_session \<Rightarrow> uuid \<Rightarrow> SubjectKind \<Rightarrow> string \<Rightarrow> string \<Rightarrow> string \<Rightarrow> access_db \<Rightarrow>
   access_error + string list" where
  "store_ScopesGrantingPermission s subject kind resource action org db =
     rbind (assignmentSubjectPredicate kind subject (visible_team_members s db)) (\<lambda>of_subject.
     Inr (sort (remdups (List.map_filter ra_scope
       (filter (\<lambda>a. of_subject a \<and> assignment_grants s resource action db a \<and> (ra_org_id a = None \<or> ra_org_id a = Some org))
         (visible_assignments s db))))))"

section \<open>The service\<close>

definition ScopedTx :: "string \<Rightarrow> (db_session \<Rightarrow> 's \<Rightarrow> access_error + 'a \<times> 's) \<Rightarrow> 's \<Rightarrow> (access_error + 'a) \<times> 's" where
  "ScopedTx org wrap = (if org = [] then WithControlPlane wrap else WithOrgTx org wrap)"

definition ListRoles :: "string \<Rightarrow> access_db \<Rightarrow> (access_error + api_role list) \<times> access_db" where
  "ListRoles org = ScopedTx org (\<lambda>s. read_only (\<lambda>db. Inr (store_ListRoles s org db)))"

definition CreateRole :: "access_env \<Rightarrow> string \<Rightarrow> string \<Rightarrow> string \<Rightarrow> permission list \<Rightarrow> string \<Rightarrow> access_db \<Rightarrow>
   (access_error + api_role) \<times> access_db" where
  "CreateRole env actor name description perms org =
     (let role = \<lparr>ar_id = ax_new_id env 0, ar_name = name, ar_description = description, ar_permissions = perms,
                  ar_built_in = False, ar_org_id = org\<rparr>
      in ScopedTx org (\<lambda>s db.
           rbind (store_CreateRole env s role db) (\<lambda>db.
           rbind (access_emitTx env actor ''saas.role.created'' ''role'' (ar_id role) org [] db) (\<lambda>db.
           Inr (role, db)))))"

definition permissionLabels :: "permission list \<Rightarrow> string list" where
  "permissionLabels perms = map permission_text perms"

definition UpdateRole :: "access_env \<Rightarrow> string \<Rightarrow> uuid \<Rightarrow> string \<Rightarrow> string \<Rightarrow> permission list \<Rightarrow> access_db \<Rightarrow>
   (access_error + api_role) \<times> access_db" where
  "UpdateRole env actor role org description perms =
     ScopedTx org (\<lambda>s db.
       rbind (store_UpdateRole s role org description perms db) (\<lambda>(r, db).
       rbind (access_emitTx env actor ''saas.role.updated'' ''role'' (ar_id r) org
         ((''name'', ar_name r) # map (\<lambda>l. (''permissions'', l)) (permissionLabels (ar_permissions r))) db) (\<lambda>db.
       Inr (r, db))))"

definition DeleteRole :: "access_env \<Rightarrow> string \<Rightarrow> uuid \<Rightarrow> access_db \<Rightarrow> (access_error + unit) \<times> access_db" where
  "DeleteRole env actor role =
     WithControlPlane (\<lambda>s db.
       rbind (store_DeleteRole s role db) (\<lambda>db.
       rbind (access_emitTx env actor ''saas.role.deleted'' ''role'' role [] [] db) (\<lambda>db.
       Inr ((), db))))"

definition AssignRole :: "access_env \<Rightarrow> string \<Rightarrow> SubjectKind \<Rightarrow> uuid \<Rightarrow> string \<Rightarrow> string \<Rightarrow> access_db \<Rightarrow>
   (access_error + uuid) \<times> access_db" where
  "AssignRole env raw_subject kind role raw_org scope db0 =
     (case (if raw_org = [] then Inr (raw_org, raw_subject) else canonicalSubjectTenancyIDs env raw_org raw_subject) of
        Inl e \<Rightarrow> (Inl e, db0)
      | Inr (org, subject) \<Rightarrow>
          ScopedTx org (\<lambda>s db.
            rbind (if org = [] then Inr () else requireSubjectInOrgTx env s org subject kind db) (\<lambda>_.
            rbind (store_AssignRole env s (ax_new_id env 0) subject kind role org scope db) (\<lambda>db.
            rbind (access_emitTx env subject ''saas.role.assigned'' ''role'' role org [] db) (\<lambda>db.
            Inr (ax_new_id env 0, db))))) db0)"

definition ListRoleAssignments :: "string \<Rightarrow> string \<Rightarrow> SubjectKind \<Rightarrow> access_db \<Rightarrow> (access_error + role_assignment list) \<times> access_db" where
  "ListRoleAssignments org subject kind = WithOrgTx org (\<lambda>s. read_only (store_ListRoleAssignments s org subject kind))"

definition RevokeRole :: "access_env \<Rightarrow> string \<Rightarrow> uuid \<Rightarrow> uuid \<Rightarrow> string \<Rightarrow> string \<Rightarrow> access_db \<Rightarrow> (access_error + unit) \<times> access_db" where
  "RevokeRole env actor subject role org scope =
     narrow (\<lambda>s db.
       rbind (store_RevokeRole s subject role org scope db) (\<lambda>db.
       rbind (access_emitTx env actor ''saas.role.revoked'' ''role'' role org [] db) (\<lambda>db.
       Inr ((), db))))"

definition CheckPermission :: "uuid \<Rightarrow> SubjectKind \<Rightarrow> string \<Rightarrow> string \<Rightarrow> string \<Rightarrow> string \<Rightarrow> access_db \<Rightarrow>
   (access_error + bool \<times> string) \<times> access_db" where
  "CheckPermission subject kind resource action org scope =
     ScopedTx org (\<lambda>s. read_only (store_CheckPermission s subject kind resource action org scope))"

definition ExplainPermission :: "uuid \<Rightarrow> SubjectKind \<Rightarrow> string \<Rightarrow> string \<Rightarrow> string \<Rightarrow> string \<Rightarrow> access_db \<Rightarrow>
   (access_error + (bool \<times> string) \<times> string list) \<times> access_db" where
  "ExplainPermission subject kind resource action org scope =
     WithOrgTx org (\<lambda>s. read_only (\<lambda>db.
       rbind (store_CheckPermission s subject kind resource action org scope db) (\<lambda>verdict.
       rbind (store_ScopesGrantingPermission s subject kind resource action org db) (\<lambda>scopes.
       Inr (verdict, scopes)))))"

end
