(* ===== verification/Layered_Access.thy ===== *)
theory Layered_Access
  imports Permissions
begin

text \<open>
  Hierarchical and per-record authorization: \<^verbatim>\<open>business/layered_access.go\<close>,
  \<^verbatim>\<open>infra/postgres_layered_access.go\<close> and \<^verbatim>\<open>infra/platform_read_authority.go\<close>.  A scope grant confers a role
  on a node of the scope tree and everything below it, a share on one record; the three questions
  (one record, all nodes, some records) read the same tables.
\<close>

section \<open>Decisions\<close>

definition platformReadRole :: string where
  "platformReadRole = ''super_admin''"

definition PlatformReadBasis :: string where
  "PlatformReadBasis = ''granted via platform_administrator''"

definition platformReadAdmissible :: "access_env \<Rightarrow> SubjectKind \<Rightarrow> string \<Rightarrow> bool" where
  "platformReadAdmissible env kind action \<longleftrightarrow>
     kind = SUBJECT_KIND_PRINCIPAL \<and> action = ''read'' \<and> \<not> ax_impersonated env"

definition platformReadPredicate :: "bool \<Rightarrow> uuid \<Rightarrow> access_db \<Rightarrow> bool" where
  "platformReadPredicate admissible subject db \<longleftrightarrow>
     admissible \<and> (\<exists>pa \<in> set (az_platform_admins db). fst pa = subject \<and> snd pa = platformReadRole)"

definition layeredSubjectPredicate :: "SubjectKind \<Rightarrow> uuid \<Rightarrow> (uuid \<times> uuid) list \<Rightarrow> access_error + (string \<Rightarrow> uuid \<Rightarrow> bool)" where
  "layeredSubjectPredicate kind subject members = subject_matches kind subject members InvalidArgument"

definition unexpired :: "time \<Rightarrow> time option \<Rightarrow> bool" where
  "unexpired now expiry = (case expiry of None \<Rightarrow> True | Some e \<Rightarrow> now < e)"

definition grant_confers :: "access_env \<Rightarrow> db_session \<Rightarrow> (string \<Rightarrow> uuid \<Rightarrow> bool) \<Rightarrow> string \<Rightarrow> string \<Rightarrow> access_db \<Rightarrow> ltree \<Rightarrow> scope_grant \<Rightarrow> bool" where
  "grant_confers env s of_subject rtype action db path g \<longleftrightarrow>
     of_subject (sg_subject_kind g) (sg_subject_id g) \<and> is_ancestor (sg_scope_path g) path \<and>
     unexpired (ax_now env) (sg_expires_at g) \<and> permits (visible_permissions s db) (sg_role_id g) rtype action"

definition share_confers :: "access_env \<Rightarrow> db_session \<Rightarrow> (string \<Rightarrow> uuid \<Rightarrow> bool) \<Rightarrow> string \<Rightarrow> string \<Rightarrow> access_db \<Rightarrow> string \<Rightarrow> record_share \<Rightarrow> bool" where
  "share_confers env s of_subject rtype action db rid h \<longleftrightarrow>
     of_subject (sh_subject_kind h) (sh_subject_id h) \<and> sh_resource_type h = rtype \<and> sh_resource_id h = rid \<and>
     unexpired (ax_now env) (sh_expires_at h) \<and> permits (visible_permissions s db) (sh_role_id h) rtype action"

definition placed_record :: "db_session \<Rightarrow> string \<Rightarrow> string \<Rightarrow> access_db \<Rightarrow> scope_node option" where
  "placed_record s rtype rid db =
     select_first (\<lambda>n. sn_resource_type n = Some rtype \<and> sn_resource_id n = Some rid) (visible_nodes s db)"

definition store_CheckAccess :: "access_env \<Rightarrow> db_session \<Rightarrow> uuid \<Rightarrow> SubjectKind \<Rightarrow> string \<Rightarrow> string \<Rightarrow> string \<Rightarrow> access_db \<Rightarrow>
   access_error + bool \<times> string" where
  "store_CheckAccess env s subject kind rtype rid action db =
     rbind (layeredSubjectPredicate kind subject (visible_team_members s db)) (\<lambda>of_subject.
       let place = placed_record s rtype rid db;
           via = (case place of None \<Rightarrow> False
             | Some n \<Rightarrow> (\<exists>g \<in> set (visible_grants s db). grant_confers env s of_subject rtype action db (sn_scope_path n) g));
           shared = (\<exists>h \<in> set (visible_shares s db). share_confers env s of_subject rtype action db rid h);
           platform = place \<noteq> None \<and> platformReadPredicate (platformReadAdmissible env kind action) subject db
       in if via then Inr (True, ''granted via scope'')
          else if shared then Inr (True, ''granted via share'')
          else if platform then Inr (True, ''granted via platform_administrator'')
          else Inr (False, ''no scope grant or record share''))"

datatype access_basis = ACCESS_BASIS_GRANT | ACCESS_BASIS_PLATFORM_ADMINISTRATOR

text \<open>
  The rows of the union, grouped by node: a node reached by a grant or a share, or by the platform
  role, and whether it is reached by the platform role only.
\<close>

definition node_granted :: "access_env \<Rightarrow> db_session \<Rightarrow> (string \<Rightarrow> uuid \<Rightarrow> bool) \<Rightarrow> string \<Rightarrow> string \<Rightarrow> uuid \<Rightarrow> access_db \<Rightarrow> scope_node \<Rightarrow> bool" where
  "node_granted env s of_subject rtype action org db n \<longleftrightarrow>
     (\<exists>g \<in> set (visible_grants s db). sg_org_id g = org \<and> grant_confers env s of_subject rtype action db (sn_scope_path n) g)"

definition node_shared :: "access_env \<Rightarrow> db_session \<Rightarrow> (string \<Rightarrow> uuid \<Rightarrow> bool) \<Rightarrow> string \<Rightarrow> string \<Rightarrow> uuid \<Rightarrow> access_db \<Rightarrow> scope_node \<Rightarrow> bool" where
  "node_shared env s of_subject rtype action org db n \<longleftrightarrow>
     (\<exists>h \<in> set (visible_shares s db). sh_org_id h = org \<and> sn_resource_type n = Some (sh_resource_type h) \<and>
        sn_resource_id n = Some (sh_resource_id h) \<and> share_confers env s of_subject rtype action db (sh_resource_id h) h)"

definition accessibleScopesQuery :: "access_env \<Rightarrow> db_session \<Rightarrow> uuid \<Rightarrow> SubjectKind \<Rightarrow> string \<Rightarrow> string \<Rightarrow> uuid \<Rightarrow>
   (scope_node \<Rightarrow> bool) \<Rightarrow> access_db \<Rightarrow> access_error + (scope_node \<times> bool) list" where
  "accessibleScopesQuery env s subject kind rtype action org node_predicate db =
     rbind (layeredSubjectPredicate kind subject (visible_team_members s db)) (\<lambda>of_subject.
       let direct = (\<lambda>n. node_granted env s of_subject rtype action org db n \<or> node_shared env s of_subject rtype action org db n);
           platform = platformReadPredicate (platformReadAdmissible env kind action) subject db
       in Inr (map (\<lambda>n. (n, \<not> direct n))
            (filter (\<lambda>n. sn_org_id n = org \<and> node_predicate n \<and> (direct n \<or> platform)) (visible_nodes s db))))"

definition store_CanReadScopeNode :: "access_env \<Rightarrow> db_session \<Rightarrow> uuid \<Rightarrow> uuid \<Rightarrow> SubjectKind \<Rightarrow> string \<Rightarrow> string \<Rightarrow> string \<Rightarrow> access_db \<Rightarrow>
   access_error + bool" where
  "store_CanReadScopeNode env s org subject kind rtype action node_id db =
     (let node = (case ax_parse_id env node_id of None \<Rightarrow> node_id | Some parsed \<Rightarrow> parsed)
      in rbind (accessibleScopesQuery env s subject kind rtype action org (\<lambda>n. sn_id n = node) db) (\<lambda>rows.
         Inr (rows \<noteq> [])))"

record accessible_scope =
  as_node_id :: uuid
  as_scope_path :: string
  as_kind :: string
  as_label :: string
  as_basis :: access_basis

definition accessible_row :: "scope_node \<times> bool \<Rightarrow> accessible_scope" where
  "accessible_row r =
     \<lparr>as_node_id = sn_id (fst r), as_scope_path = ltree_out (sn_scope_path (fst r)), as_kind = sn_kind (fst r),
      as_label = sn_label (fst r),
      as_basis = (if snd r then ACCESS_BASIS_PLATFORM_ADMINISTRATOR else ACCESS_BASIS_GRANT)\<rparr>"

definition after_cursor :: "ltree option \<Rightarrow> scope_node \<Rightarrow> bool" where
  "after_cursor cursor n = (case cursor of None \<Rightarrow> True | Some c \<Rightarrow> c < sn_scope_path n)"

definition path_cursor :: "string \<Rightarrow> access_error + ltree option" where
  "path_cursor after_path =
     (if after_path = [] then Inr None
      else case ltree_in after_path of None \<Rightarrow> Inl (StoreError ErrPlain) | Some c \<Rightarrow> Inr (Some c))"

definition store_ListAccessibleScopes :: "access_env \<Rightarrow> db_session \<Rightarrow> uuid \<Rightarrow> uuid \<Rightarrow> SubjectKind \<Rightarrow> string \<Rightarrow> string \<Rightarrow> string \<Rightarrow> nat \<Rightarrow>
   access_db \<Rightarrow> access_error + accessible_scope list" where
  "store_ListAccessibleScopes env s org subject kind rtype action after_path limit db =
     rbind (layeredSubjectPredicate kind subject (visible_team_members s db)) (\<lambda>_.
     rbind (path_cursor after_path) (\<lambda>cursor.
     rbind (accessibleScopesQuery env s subject kind rtype action org (after_cursor cursor) db) (\<lambda>rows.
     Inr (map accessible_row (take limit (sort_key (\<lambda>r. sn_scope_path (fst r)) rows))))))"

definition store_ListAccessibleResourceIDs :: "access_env \<Rightarrow> db_session \<Rightarrow> uuid \<Rightarrow> uuid \<Rightarrow> SubjectKind \<Rightarrow> string \<Rightarrow> string \<Rightarrow> string list \<Rightarrow>
   access_db \<Rightarrow> access_error + string list" where
  "store_ListAccessibleResourceIDs env s org subject kind rtype action candidates db =
     (if candidates = [] then Inr []
      else rbind (accessibleScopesQuery env s subject kind rtype action org
             (\<lambda>n. sn_resource_type n = Some rtype \<and> (\<exists>c \<in> set candidates. sn_resource_id n = Some c)) db) (\<lambda>rows.
           Inr (map (\<lambda>r. text_of (sn_resource_id (fst r))) rows)))"

section \<open>The scope tree\<close>

record api_node =
  an_id :: uuid
  an_org_id :: uuid
  an_scope_path :: string
  an_kind :: string
  an_label :: string
  an_resource_type :: string
  an_resource_id :: string
  an_created_at :: "time option"

definition validateScopePath :: "string \<Rightarrow> access_error + unit" where
  "validateScopePath path = guard (scopePathPattern path) InvalidArgument"

definition cast_ltree :: "string \<Rightarrow> access_error + ltree" where
  "cast_ltree path = (case ltree_in path of None \<Rightarrow> Inl (StoreError ErrPlain) | Some p \<Rightarrow> Inr p)"

definition node_at :: "db_session \<Rightarrow> ltree \<Rightarrow> access_db \<Rightarrow> bool" where
  "node_at s path db \<longleftrightarrow> path \<in> sn_scope_path ` set (visible_nodes s db)"

text \<open>\<^verbatim>\<open>INSERT INTO scope_nodes\<close> with its checks, unique keys and the tenant policy.\<close>

definition same_resource :: "scope_node \<Rightarrow> scope_node \<Rightarrow> bool" where
  "same_resource a b \<longleftrightarrow> sn_org_id a = sn_org_id b \<and> sn_resource_id a \<noteq> None \<and>
     sn_resource_type a = sn_resource_type b \<and> sn_resource_id a = sn_resource_id b"

definition node_admitted :: "access_env \<Rightarrow> db_session \<Rightarrow> scope_node \<Rightarrow> access_db \<Rightarrow> bool" where
  "node_admitted env s n db \<longleftrightarrow>
     in_tenant s (sn_org_id n) \<and> ax_org_exists env (sn_org_id n) \<and>
     sn_scope_path n \<noteq> [] \<and> list_all scope_label (sn_scope_path n) \<and>
     (sn_resource_type n = None \<longleftrightarrow> sn_resource_id n = None) \<and>
     (\<forall>old \<in> set (az_scope_nodes db). sn_id old \<noteq> sn_id n \<and>
        \<not> (sn_org_id old = sn_org_id n \<and> sn_scope_path old = sn_scope_path n) \<and> \<not> same_resource old n)"

definition store_RegisterScopeNode :: "access_env \<Rightarrow> db_session \<Rightarrow> api_node \<Rightarrow> access_db \<Rightarrow> access_error + api_node \<times> access_db" where
  "store_RegisterScopeNode env s node db =
     rbind (validateScopePath (an_scope_path node)) (\<lambda>_.
     rbind (let parent = scopeParentPath (an_scope_path node) in
            if parent = [] then Inr ()
            else rbind (cast_ltree parent) (\<lambda>p. guard (node_at s p db) (FailedPrecondition ParentNotRegistered))) (\<lambda>_.
     rbind (guard ((an_resource_type node = [] \<and> an_resource_id node = []) \<or>
              (an_resource_type node \<noteq> [] \<and> an_resource_id node \<noteq> [])) InvalidArgument) (\<lambda>_.
     rbind (cast_ltree (an_scope_path node)) (\<lambda>path.
       let row = \<lparr>sn_id = an_id node, sn_org_id = an_org_id node, sn_scope_path = path, sn_kind = an_kind node,
                  sn_label = an_label node, sn_resource_type = nilIfEmpty (an_resource_type node),
                  sn_resource_id = nilIfEmpty (an_resource_id node), sn_created_at = ax_now env\<rparr>
       in if node_admitted env s row db
          then Inr (node\<lparr>an_created_at := Some (ax_now env)\<rparr>, db\<lparr>az_scope_nodes := az_scope_nodes db @ [row]\<rparr>)
          else Inl (StoreError ErrConstraint)))))"

definition store_GetOrCreateCollectionNode :: "access_env \<Rightarrow> db_session \<Rightarrow> api_node \<Rightarrow> access_db \<Rightarrow> access_error + uuid \<times> access_db" where
  "store_GetOrCreateCollectionNode env s node db =
     rbind (validateScopePath (an_scope_path node)) (\<lambda>_.
       case select_ordered sn_created_at
              (\<lambda>n. sn_org_id n = an_org_id node \<and> sn_kind n = an_kind node \<and> sn_label n = an_label node) 1 (visible_nodes s db) of
         n # _ \<Rightarrow> Inr (sn_id n, db)
       | [] \<Rightarrow> rbind (store_RegisterScopeNode env s node db) (\<lambda>(node, db). Inr (an_id node, db)))"

definition node_view :: "scope_node \<Rightarrow> api_node" where
  "node_view n =
     \<lparr>an_id = sn_id n, an_org_id = sn_org_id n, an_scope_path = ltree_out (sn_scope_path n), an_kind = sn_kind n,
      an_label = sn_label n, an_resource_type = text_of (sn_resource_type n), an_resource_id = text_of (sn_resource_id n),
      an_created_at = Some (sn_created_at n)\<rparr>"

definition store_PlaceRecordNode :: "access_env \<Rightarrow> db_session \<Rightarrow> api_node \<Rightarrow> access_db \<Rightarrow> access_error + api_node \<times> access_db" where
  "store_PlaceRecordNode env s node db =
     (if an_resource_type node = [] \<or> an_resource_id node = [] then Inl InvalidArgument
      else case placed_record s (an_resource_type node) (an_resource_id node) db of
             Some n \<Rightarrow> Inr ((node_view n)\<lparr>an_org_id := an_org_id node\<rparr>, db)
           | None \<Rightarrow> store_RegisterScopeNode env s node db)"

definition store_ScopeNodeExists :: "db_session \<Rightarrow> uuid \<Rightarrow> access_db \<Rightarrow> bool" where
  "store_ScopeNodeExists s node_id db \<longleftrightarrow> node_id \<in> sn_id ` set (visible_nodes s db)"

section \<open>Grants\<close>

record api_grant =
  ag_id :: uuid
  ag_org_id :: uuid
  ag_subject_id :: uuid
  ag_subject_kind :: SubjectKind
  ag_scope_path :: string
  ag_role_id :: uuid
  ag_granted_by :: string
  ag_expires_at :: "time option"
  ag_derived_from :: string
  ag_created_at :: "time option"

text \<open>\<^verbatim>\<open>strings.Cut\<close>: what is before and after the first separator.\<close>

fun cut :: "string \<Rightarrow> string \<Rightarrow> (string \<times> string) option" where
  "cut sep [] = (if sep = [] then Some ([], []) else None)"
| "cut sep (c # cs) =
     (if take (length sep) (c # cs) = sep then Some ([], drop (length sep) (c # cs))
      else map_option (\<lambda>(before, after). (c # before, after)) (cut sep cs))"

definition SolutionRoleOrigin :: "string \<Rightarrow> (string \<times> string) option" where
  "SolutionRoleOrigin provenance =
     (if take 4 provenance \<noteq> ''org='' then None
      else case cut '';solution='' (drop 4 provenance) of
             None \<Rightarrow> None
           | Some (org, rest) \<Rightarrow>
               (case cut '';role='' rest of
                  None \<Rightarrow> None
                | Some (target, role) \<Rightarrow> if org = [] \<or> target = [] then None else Some (org, target)))"

definition installation_at :: "db_session \<Rightarrow> uuid \<Rightarrow> ltree \<Rightarrow> access_db \<Rightarrow> installation \<Rightarrow> bool" where
  "installation_at s org path db i \<longleftrightarrow> i \<in> set (visible_installations s db) \<and> in_org_id i = org \<and>
     (\<exists>n \<in> set (visible_nodes s db). sn_id n = in_root_scope_node_id i \<and> sn_scope_path n = path)"

definition requireSolutionRoot :: "db_session \<Rightarrow> string \<Rightarrow> string \<Rightarrow> api_grant \<Rightarrow> ltree \<Rightarrow> access_db \<Rightarrow> bool" where
  "requireSolutionRoot s org target grant path db \<longleftrightarrow>
     org = ag_org_id grant \<and>
     (\<exists>n \<in> set (visible_nodes s db). sn_org_id n = ag_org_id grant \<and> sn_scope_path n = path \<and> sn_kind n = ''solution'') \<and>
     (\<forall>i \<in> set (az_installations db). installation_at s (ag_org_id grant) path db i \<longrightarrow> in_target_id i = target) \<and>
     (\<exists>i \<in> set (az_installations db). installation_at s (ag_org_id grant) path db i) \<and>
     (ag_subject_kind grant = SUBJECT_KIND_TEAM \<or>
      (\<exists>p \<in> set (visible_principals s db). pr_id p = ag_subject_id grant \<and> pr_kind p = ''agent'' \<and> pr_org_id p = Some (ag_org_id grant) \<and>
         (\<exists>i \<in> set (az_installations db). installation_at s (ag_org_id grant) path db i \<and>
            in_agent_principal_id i = pr_id p \<and> in_target_id i = target)))"

definition requireNotDerivedRoleOrSolutionRoot :: "db_session \<Rightarrow> api_grant \<Rightarrow> access_db \<Rightarrow> access_error + unit" where
  "requireNotDerivedRoleOrSolutionRoot s grant db =
     (case derivedRoleProvenance s (ag_role_id grant) db of
        None \<Rightarrow> requireNotDerivedRole s (ag_role_id grant) db
      | Some provenance \<Rightarrow>
          (case SolutionRoleOrigin provenance of
             None \<Rightarrow> requireNotDerivedRole s (ag_role_id grant) db
           | Some (org, target) \<Rightarrow>
               rbind (cast_ltree (ag_scope_path grant)) (\<lambda>path.
               guard (requireSolutionRoot s org target grant path db) (FailedPrecondition RoleDerived))))"

text \<open>The trigger \<^verbatim>\<open>installation_no_standing_grant\<close> refuses a standing grant to such an agent.\<close>

definition no_standing_grant :: "db_session \<Rightarrow> scope_grant \<Rightarrow> access_db \<Rightarrow> bool" where
  "no_standing_grant s g db \<longleftrightarrow> sg_subject_kind g = ''principal'' \<and>
     (\<exists>i \<in> set (az_installations db). installation_at s (sg_org_id g) (sg_scope_path g) db i \<and>
        in_agent_principal_id i = sg_subject_id g \<and> in_no_standing_authority i \<and> in_status i \<noteq> ''revoked'')"

definition same_grant :: "scope_grant \<Rightarrow> scope_grant \<Rightarrow> bool" where
  "same_grant a b \<longleftrightarrow> sg_org_id a = sg_org_id b \<and> sg_subject_id a = sg_subject_id b \<and> sg_subject_kind a = sg_subject_kind b \<and>
     sg_scope_path a = sg_scope_path b \<and> sg_role_id a = sg_role_id b"

definition principal_exists :: "uuid option \<Rightarrow> access_db \<Rightarrow> bool" where
  "principal_exists p db = (case p of None \<Rightarrow> True | Some i \<Rightarrow> i \<in> pr_id ` set (az_principals db))"

definition grant_admitted :: "access_env \<Rightarrow> scope_grant \<Rightarrow> access_db \<Rightarrow> bool" where
  "grant_admitted env g db \<longleftrightarrow>
     sg_id g \<notin> sg_id ` set (az_scope_grants db) \<and> ax_org_exists env (sg_org_id g) \<and> sg_role_id g \<in> rl_id ` set (az_roles db) \<and>
     principal_exists (sg_granted_by g) db \<and>
     (case sg_derived_from g of None \<Rightarrow> True | Some c \<Rightarrow> c \<noteq> sg_id g \<and> c \<in> sg_id ` set (az_scope_grants db))"

definition upsert_grant :: "access_env \<Rightarrow> db_session \<Rightarrow> scope_grant \<Rightarrow> access_db \<Rightarrow> access_error + scope_grant \<times> access_db" where
  "upsert_grant env s row db =
     (if \<not> in_tenant s (sg_org_id row) \<or> no_standing_grant s row db then Inl (StoreError ErrConstraint)
      else case select_first (same_grant row) (az_scope_grants db) of
             Some old \<Rightarrow>
               if sg_derived_from old \<noteq> sg_derived_from row then Inl (FailedPrecondition GrantOfOtherCause)
               else if \<not> principal_exists (sg_granted_by row) db then Inl (StoreError ErrConstraint)
               else
                 let refreshed = old\<lparr>sg_granted_by := sg_granted_by row, sg_expires_at := sg_expires_at row\<rparr>
                 in Inr (refreshed, db\<lparr>az_scope_grants := update_where (same_grant row)
                      (\<lambda>g. g\<lparr>sg_granted_by := sg_granted_by row, sg_expires_at := sg_expires_at row\<rparr>) (az_scope_grants db)\<rparr>)
           | None \<Rightarrow>
               if grant_admitted env row db then Inr (row, db\<lparr>az_scope_grants := az_scope_grants db @ [row]\<rparr>)
               else Inl (StoreError ErrConstraint))"

definition store_GrantScope :: "access_env \<Rightarrow> db_session \<Rightarrow> api_grant \<Rightarrow> access_db \<Rightarrow> access_error + api_grant \<times> access_db" where
  "store_GrantScope env s grant db =
     rbind (validateScopePath (ag_scope_path grant)) (\<lambda>_.
     rbind (subjectKindColumn (ag_subject_kind grant)) (\<lambda>kind.
     rbind (requireVisibleRole s (ag_role_id grant) db) (\<lambda>_.
     rbind (if ag_derived_from grant = [] then requireNotDerivedRoleOrSolutionRoot s grant db else Inr ()) (\<lambda>_.
     rbind (cast_ltree (ag_scope_path grant)) (\<lambda>path.
     rbind (guard (node_at s path db) (FailedPrecondition ScopeNotRegistered)) (\<lambda>_.
     rbind (upsert_grant env s
       \<lparr>sg_id = ag_id grant, sg_org_id = ag_org_id grant, sg_subject_id = ag_subject_id grant, sg_subject_kind = kind,
        sg_scope_path = path, sg_role_id = ag_role_id grant, sg_granted_by = nilIfEmpty (ag_granted_by grant),
        sg_expires_at = ag_expires_at grant, sg_derived_from = nilIfEmpty (ag_derived_from grant), sg_created_at = ax_now env\<rparr> db) (\<lambda>(row, db).
     Inr (grant\<lparr>ag_id := sg_id row, ag_created_at := Some (sg_created_at row)\<rparr>, db))))))))"

definition named_grant :: "uuid \<Rightarrow> uuid \<Rightarrow> string \<Rightarrow> ltree \<Rightarrow> uuid \<Rightarrow> scope_grant \<Rightarrow> bool" where
  "named_grant org subject kind path role g \<longleftrightarrow>
     sg_org_id g = org \<and> sg_subject_id g = subject \<and> sg_subject_kind g = kind \<and> sg_scope_path g = path \<and> sg_role_id g = role"

definition store_RevokeScope :: "db_session \<Rightarrow> uuid \<Rightarrow> uuid \<Rightarrow> SubjectKind \<Rightarrow> string \<Rightarrow> uuid \<Rightarrow> access_db \<Rightarrow> access_error + access_db" where
  "store_RevokeScope s org subject kind scope_path role db =
     rbind (subjectKindColumn kind) (\<lambda>column.
     rbind (cast_ltree scope_path) (\<lambda>path.
     Inr (db\<lparr>az_scope_grants :=
       delete_grants (\<lambda>g. in_tenant s (sg_org_id g) \<and> named_grant org subject column path role g) (az_scope_grants db)\<rparr>)))"

section \<open>Shares\<close>

record api_share =
  ah_id :: uuid
  ah_org_id :: uuid
  ah_resource_type :: string
  ah_resource_id :: string
  ah_subject_id :: uuid
  ah_subject_kind :: SubjectKind
  ah_role_id :: uuid
  ah_granted_by :: string
  ah_expires_at :: "time option"
  ah_created_at :: "time option"

definition same_share :: "record_share \<Rightarrow> record_share \<Rightarrow> bool" where
  "same_share a b \<longleftrightarrow> sh_org_id a = sh_org_id b \<and> sh_resource_type a = sh_resource_type b \<and> sh_resource_id a = sh_resource_id b \<and>
     sh_subject_id a = sh_subject_id b \<and> sh_subject_kind a = sh_subject_kind b \<and> sh_role_id a = sh_role_id b"

definition upsert_share :: "access_env \<Rightarrow> db_session \<Rightarrow> record_share \<Rightarrow> access_db \<Rightarrow> access_error + record_share \<times> access_db" where
  "upsert_share env s row db =
     (if \<not> in_tenant s (sh_org_id row) \<or> \<not> principal_exists (sh_granted_by row) db then Inl (StoreError ErrConstraint)
      else case select_first (same_share row) (az_record_shares db) of
             Some old \<Rightarrow>
               Inr (old\<lparr>sh_granted_by := sh_granted_by row, sh_expires_at := sh_expires_at row\<rparr>,
                 db\<lparr>az_record_shares := update_where (same_share row)
                   (\<lambda>h. h\<lparr>sh_granted_by := sh_granted_by row, sh_expires_at := sh_expires_at row\<rparr>) (az_record_shares db)\<rparr>)
           | None \<Rightarrow>
               if sh_id row \<notin> sh_id ` set (az_record_shares db) \<and> ax_org_exists env (sh_org_id row) \<and> sh_role_id row \<in> rl_id ` set (az_roles db)
               then Inr (row, db\<lparr>az_record_shares := az_record_shares db @ [row]\<rparr>)
               else Inl (StoreError ErrConstraint))"

definition store_ShareRecord :: "access_env \<Rightarrow> db_session \<Rightarrow> api_share \<Rightarrow> access_db \<Rightarrow> access_error + api_share \<times> access_db" where
  "store_ShareRecord env s share db =
     rbind (subjectKindColumn (ah_subject_kind share)) (\<lambda>kind.
     rbind (requireVisibleRole s (ah_role_id share) db) (\<lambda>_.
     rbind (requireNotDerivedRole s (ah_role_id share) db) (\<lambda>_.
     rbind (upsert_share env s
       \<lparr>sh_id = ah_id share, sh_org_id = ah_org_id share, sh_resource_type = ah_resource_type share, sh_resource_id = ah_resource_id share,
        sh_subject_id = ah_subject_id share, sh_subject_kind = kind, sh_role_id = ah_role_id share,
        sh_granted_by = nilIfEmpty (ah_granted_by share), sh_expires_at = ah_expires_at share, sh_created_at = ax_now env\<rparr> db) (\<lambda>(row, db).
     Inr (share\<lparr>ah_id := sh_id row, ah_created_at := Some (sh_created_at row)\<rparr>, db)))))"

definition store_RevokeShare :: "db_session \<Rightarrow> uuid \<Rightarrow> string \<Rightarrow> string \<Rightarrow> uuid \<Rightarrow> SubjectKind \<Rightarrow> uuid \<Rightarrow> access_db \<Rightarrow> access_error + access_db" where
  "store_RevokeShare s org rtype rid subject kind role db =
     rbind (subjectKindColumn kind) (\<lambda>column.
     Inr (db\<lparr>az_record_shares := filter (\<lambda>h. \<not> (in_tenant s (sh_org_id h) \<and> sh_org_id h = org \<and> sh_resource_type h = rtype \<and>
        sh_resource_id h = rid \<and> sh_subject_id h = subject \<and> sh_subject_kind h = column \<and> sh_role_id h = role)) (az_record_shares db)\<rparr>))"

definition share_view :: "record_share \<Rightarrow> api_share option" where
  "share_view h =
     map_option (\<lambda>kind. \<lparr>ah_id = sh_id h, ah_org_id = sh_org_id h, ah_resource_type = sh_resource_type h, ah_resource_id = sh_resource_id h,
        ah_subject_id = sh_subject_id h, ah_subject_kind = kind, ah_role_id = sh_role_id h, ah_granted_by = text_of (sh_granted_by h),
        ah_expires_at = sh_expires_at h, ah_created_at = Some (sh_created_at h)\<rparr>)
       (if sh_subject_kind h = ''principal'' then Some SUBJECT_KIND_PRINCIPAL
        else if sh_subject_kind h = ''team'' then Some SUBJECT_KIND_TEAM else None)"

definition store_ListShares :: "db_session \<Rightarrow> uuid \<Rightarrow> string \<Rightarrow> string \<Rightarrow> access_db \<Rightarrow> access_error + api_share list" where
  "store_ListShares s org rtype rid db =
     (let rows = sort_key (\<lambda>h. - sh_created_at h)
            (filter (\<lambda>h. sh_org_id h = org \<and> sh_resource_type h = rtype \<and> sh_resource_id h = rid) (visible_shares s db))
      in if list_all (\<lambda>h. share_view h \<noteq> None) rows then Inr (List.map_filter share_view rows) else Inl (StoreError ErrPlain))"

section \<open>Collections\<close>

text \<open>
  A collection with the grants that confer read on its content; the display labels of a grant are
  left out, but the join with its role is not.
\<close>

record collection_access =
  ca_id :: uuid
  ca_scope_path :: string
  ca_label :: string
  ca_read_grants :: "scope_grant list"

definition read_grant :: "access_env \<Rightarrow> db_session \<Rightarrow> uuid \<Rightarrow> string list \<Rightarrow> access_db \<Rightarrow> ltree \<Rightarrow> scope_grant \<Rightarrow> bool" where
  "read_grant env s org read_resources db path g \<longleftrightarrow>
     sg_org_id g = org \<and> is_ancestor (sg_scope_path g) path \<and> unexpired (ax_now env) (sg_expires_at g) \<and>
     sg_role_id g \<in> rl_id ` set (visible_roles s db) \<and>
     (\<exists>rp \<in> set (visible_permissions s db). fst rp = sg_role_id g \<and>
        (pm_resource (snd rp) \<in> set read_resources \<or> pm_resource (snd rp) = ''*'') \<and> pm_action (snd rp) \<in> {''read'', ''*''})"

definition store_ListCollectionAccess :: "access_env \<Rightarrow> db_session \<Rightarrow> uuid \<Rightarrow> string \<Rightarrow> nat \<Rightarrow> string list \<Rightarrow> access_db \<Rightarrow>
   collection_access list" where
  "store_ListCollectionAccess env s org after_path limit read_resources db =
     map (\<lambda>n. \<lparr>ca_id = sn_id n, ca_scope_path = ltree_out (sn_scope_path n), ca_label = sn_label n,
        ca_read_grants = sort_key (\<lambda>g. (sg_created_at g, sg_id g))
          (filter (read_grant env s org read_resources db (sn_scope_path n)) (visible_grants s db))\<rparr>)
       (select_ordered (\<lambda>n. ltree_out (sn_scope_path n))
         (\<lambda>n. sn_org_id n = org \<and> sn_kind n = ''collection'' \<and> after_path < ltree_out (sn_scope_path n)) limit (visible_nodes s db))"

section \<open>The service\<close>

definition CheckAccess :: "access_env \<Rightarrow> uuid \<Rightarrow> uuid \<Rightarrow> SubjectKind \<Rightarrow> string \<Rightarrow> string \<Rightarrow> string \<Rightarrow> access_db \<Rightarrow>
   (access_error + bool \<times> string) \<times> access_db" where
  "CheckAccess env org subject kind rtype rid action =
     WithOrgTx org (\<lambda>s. read_only (store_CheckAccess env s subject kind rtype rid action))"

definition listAccessibleScopesDefaultPageSize :: int where
  "listAccessibleScopesDefaultPageSize = 500"

definition listAccessibleScopesMaxPageSize :: int where
  "listAccessibleScopesMaxPageSize = 1000"

definition scopes_page_size :: "int \<Rightarrow> nat" where
  "scopes_page_size requested =
     (let size = (if requested \<le> 0 then listAccessibleScopesDefaultPageSize else requested)
      in nat (if size > listAccessibleScopesMaxPageSize then listAccessibleScopesMaxPageSize else size))"

definition ListAccessibleScopes :: "access_env \<Rightarrow> uuid \<Rightarrow> uuid \<Rightarrow> SubjectKind \<Rightarrow> string \<Rightarrow> string \<Rightarrow> string \<Rightarrow> int \<Rightarrow> access_db \<Rightarrow>
   (access_error + accessible_scope list \<times> string) \<times> access_db" where
  "ListAccessibleScopes env org subject kind rtype action page_token requested =
     (let page_size = scopes_page_size requested in
      WithOrgTx org (\<lambda>s. read_only (\<lambda>db.
        rbind (store_ListAccessibleScopes env s org subject kind rtype action page_token (page_size + 1) db) (\<lambda>scopes.
        Inr (if page_size < length scopes then (take page_size scopes, as_scope_path (scopes ! (page_size - 1)))
             else (scopes, []))))))"

definition RegisterScopeNode :: "access_env \<Rightarrow> string \<Rightarrow> api_node \<Rightarrow> access_db \<Rightarrow> (access_error + api_node) \<times> access_db" where
  "RegisterScopeNode env actor req =
     (let node = req\<lparr>an_id := ax_new_id env 0, an_created_at := None\<rparr> in
      WithOrgTx (an_org_id req) (\<lambda>s db.
        rbind (store_RegisterScopeNode env s node db) (\<lambda>(node, db).
        rbind (access_emitTx env actor ''saas.scope.node_registered'' ''scope_node'' (an_id node) (an_org_id req)
          [(''scope_path'', an_scope_path node), (''kind'', an_kind node)] db) (\<lambda>db.
        Inr (node, db)))))"

text \<open>The cause is the id of the grant this one is derived from, empty for a grant written by hand.\<close>

definition grantScopeTx :: "access_env \<Rightarrow> nat \<Rightarrow> db_session \<Rightarrow> string \<Rightarrow> api_grant \<Rightarrow> string \<Rightarrow> access_db \<Rightarrow> access_error + api_grant \<times> access_db" where
  "grantScopeTx env k s actor req cause db =
     rbind (requireSubjectInOrgTx env s (ag_org_id req) (ag_subject_id req) (ag_subject_kind req) db) (\<lambda>_.
       let grant = req\<lparr>ag_id := ax_new_id env k, ag_granted_by := actor, ag_derived_from := cause, ag_created_at := None\<rparr> in
       rbind (store_GrantScope env s grant db) (\<lambda>(grant, db).
       rbind (publishLifecycleEvent env ''saas.scope.granted'' (ag_org_id req) (ag_scope_path req) actor
         [(''scope_grant_id'', ag_id grant), (''role_id'', ag_role_id req), (''subject_id'', ag_subject_id req), (''scope_path'', ag_scope_path req)] db) (\<lambda>db.
       rbind (access_emitTx env actor ''saas.scope.granted'' ''scope_grant'' (ag_id grant) (ag_org_id req)
         [(''role_id'', ag_role_id req), (''subject_id'', ag_subject_id req), (''scope_path'', ag_scope_path req)] db) (\<lambda>db.
       Inr (grant, db)))))"

definition GrantScope :: "access_env \<Rightarrow> string \<Rightarrow> api_grant \<Rightarrow> access_db \<Rightarrow> (access_error + api_grant) \<times> access_db" where
  "GrantScope env actor req = WithOrgTx (ag_org_id req) (\<lambda>s. grantScopeTx env 0 s actor req [])"

definition revokeScopeApply :: "access_env \<Rightarrow> db_session \<Rightarrow> string \<Rightarrow> uuid \<Rightarrow> uuid \<Rightarrow> SubjectKind \<Rightarrow> string \<Rightarrow> uuid \<Rightarrow> access_db \<Rightarrow>
   access_error + access_db" where
  "revokeScopeApply env s actor org subject kind scope_path role db =
     rbind (store_RevokeScope s org subject kind scope_path role db) (\<lambda>db.
     rbind (publishLifecycleEvent env ''saas.scope.revoked'' org scope_path actor
       [(''role_id'', role), (''subject_id'', subject), (''scope_path'', scope_path)] db) (\<lambda>db.
     access_emitTx env actor ''saas.scope.revoked'' ''scope_grant'' role org
       [(''subject_id'', subject), (''scope_path'', scope_path)] db))"

definition RevokeScope :: "access_env \<Rightarrow> string \<Rightarrow> uuid \<Rightarrow> uuid \<Rightarrow> SubjectKind \<Rightarrow> string \<Rightarrow> uuid \<Rightarrow> access_db \<Rightarrow>
   (access_error + unit) \<times> access_db" where
  "RevokeScope env actor org subject kind scope_path role =
     narrow (\<lambda>s db. rbind (revokeScopeApply env s actor org subject kind scope_path role db) (\<lambda>db. Inr ((), db)))"

definition ShareRecord :: "access_env \<Rightarrow> string \<Rightarrow> api_share \<Rightarrow> access_db \<Rightarrow> (access_error + api_share) \<times> access_db" where
  "ShareRecord env actor req db0 =
     (case canonicalSubjectTenancyIDs env (ah_org_id req) (ah_subject_id req) of
        Inl e \<Rightarrow> (Inl e, db0)
      | Inr (org, subject) \<Rightarrow>
          let share = req\<lparr>ah_id := ax_new_id env 0, ah_org_id := org, ah_subject_id := subject, ah_granted_by := actor, ah_created_at := None\<rparr> in
          WithOrgTx org (\<lambda>s db.
            rbind (requireSubjectInOrgTx env s org subject (ah_subject_kind req) db) (\<lambda>_.
            rbind (store_ShareRecord env s share db) (\<lambda>(share, db).
            rbind (access_emitTx env actor ''saas.record.shared'' (ah_resource_type req) (ah_resource_id req) org
              [(''role_id'', ah_role_id req), (''subject_id'', subject)] db) (\<lambda>db.
            Inr (share, db))))) db0)"

definition RevokeShare :: "access_env \<Rightarrow> string \<Rightarrow> uuid \<Rightarrow> string \<Rightarrow> string \<Rightarrow> uuid \<Rightarrow> SubjectKind \<Rightarrow> uuid \<Rightarrow> access_db \<Rightarrow>
   (access_error + unit) \<times> access_db" where
  "RevokeShare env actor org rtype rid subject kind role =
     narrow (\<lambda>s db.
       rbind (store_RevokeShare s org rtype rid subject kind role db) (\<lambda>db.
       rbind (access_emitTx env actor ''saas.record.share_revoked'' rtype rid org [(''role_id'', role), (''subject_id'', subject)] db) (\<lambda>db.
       Inr ((), db))))"

definition ListShares :: "uuid \<Rightarrow> string \<Rightarrow> string \<Rightarrow> access_db \<Rightarrow> (access_error + api_share list) \<times> access_db" where
  "ListShares org rtype rid = WithOrgTx org (\<lambda>s. read_only (store_ListShares s org rtype rid))"

definition ListCollectionAccess :: "access_env \<Rightarrow> uuid \<Rightarrow> string \<Rightarrow> int \<Rightarrow> string list \<Rightarrow> access_db \<Rightarrow>
   (access_error + collection_access list \<times> string) \<times> access_db" where
  "ListCollectionAccess env org page_token requested content_resources =
     (let page_size = nat (if requested \<le> 0 \<or> requested > 100 then 100 else requested) in
      WithOrgTx org (\<lambda>s. read_only (\<lambda>db.
        let collections = store_ListCollectionAccess env s org page_token (page_size + 1) content_resources db in
        Inr (if page_size < length collections then (take page_size collections, ca_scope_path (collections ! (page_size - 1)))
             else (collections, [])))))"

end
