(* ===== verification/Carried_Access.thy ===== *)
theory Carried_Access
  imports Layered_Access
begin

text \<open>
  A grant of a solution to a team carries the access the solution declares on the modules it
  reaches: \<^verbatim>\<open>business/derived_module_access.go\<close>, the grant and revocation of
  \<^verbatim>\<open>business/installation_exposure.go\<close> and \<^verbatim>\<open>infra/postgres_derived_module_access.go\<close>.
\<close>

section \<open>What is declared\<close>

record module_scope =
  ms_resource_kind :: string
  ms_actions :: "string list"
  ms_resource_ids :: "string list"

record reached_module =
  rm_audience :: string
  rm_installation_id :: string
  rm_invoke_scopes :: "module_scope list"

datatype readiness_kind =
    REACHED_MODULE_NOT_INSTALLED
  | CARRIED_MODULE_ACCESS_NOT_DERIVED

record readiness_condition =
  rc_kind :: readiness_kind
  rc_subject :: string

record carried_plan =
  cp_audience :: string
  cp_installation_id :: string
  cp_declared :: "module_scope list"

definition namedResourceScopes :: "module_scope list \<Rightarrow> module_scope list" where
  "namedResourceScopes scopes = filter (\<lambda>sc. length (ms_resource_ids sc) > 0) scopes"

fun planCarriedModuleAccess :: "reached_module list \<Rightarrow> carried_plan list \<times> readiness_condition list" where
  "planCarriedModuleAccess [] = ([], [])"
| "planCarriedModuleAccess (m # rest) =
     (let (plans, unmet) = planCarriedModuleAccess rest in
      if rm_installation_id m = [] then
        (plans, \<lparr>rc_kind = REACHED_MODULE_NOT_INSTALLED, rc_subject = rm_audience m\<rparr> # unmet)
      else if length (namedResourceScopes (rm_invoke_scopes m)) > 0 then
        (plans, \<lparr>rc_kind = CARRIED_MODULE_ACCESS_NOT_DERIVED, rc_subject = rm_audience m\<rparr> # unmet)
      else
        (\<lparr>cp_audience = rm_audience m, cp_installation_id = rm_installation_id m, cp_declared = rm_invoke_scopes m\<rparr> # plans, unmet))"

text \<open>
  The pairs of a declaration, each text \<^verbatim>\<open>kind:action\<close> once, ordered by kind and action.  The two
  slices the code returns are the two columns of the list.
\<close>

fun first_of_each :: "string set \<Rightarrow> (string \<times> string) list \<Rightarrow> (string \<times> string) list" where
  "first_of_each seen [] = []"
| "first_of_each seen (p # ps) =
     (let key = fst p @ '':'' @ snd p in
      if key \<in> seen then first_of_each seen ps else p # first_of_each (insert key seen) ps)"

definition declaredPairs :: "module_scope list \<Rightarrow> (string \<times> string) list" where
  "declaredPairs scopes =
     sort (first_of_each {} (concat (map (\<lambda>sc. map (\<lambda>a. (ms_resource_kind sc, a)) (ms_actions sc)) scopes)))"

definition declaredLabels :: "(string \<times> string) list \<Rightarrow> string list" where
  "declaredLabels pairs = map (\<lambda>p. fst p @ '':'' @ snd p) pairs"

definition rolePermitsPredicate :: "db_session \<Rightarrow> uuid \<Rightarrow> access_db \<Rightarrow> string \<times> string \<Rightarrow> bool" where
  "rolePermitsPredicate s role db p \<longleftrightarrow>
     role \<in> rl_id ` set (visible_roles s db) \<and> permits (visible_permissions s db) role (fst p) (snd p)"

definition RolePermittedScopes :: "db_session \<Rightarrow> uuid \<Rightarrow> (string \<times> string) list \<Rightarrow> access_db \<Rightarrow> bool list" where
  "RolePermittedScopes s role pairs db = map (rolePermitsPredicate s role db) pairs"

definition RolePermits :: "db_session \<Rightarrow> uuid \<Rightarrow> string \<Rightarrow> string \<Rightarrow> access_db \<Rightarrow> bool" where
  "RolePermits s role resource action db =
     (let permitted = RolePermittedScopes s role [(resource, action)] db in length permitted = 1 \<and> permitted ! 0)"

section \<open>The derived role\<close>

record derived_role =
  dr_org_id :: uuid
  dr_derived_from :: string
  dr_name :: string
  dr_description :: string
  dr_permissions :: "permission list"

text \<open>The row found under the provenance, or the one inserted, refreshed to the description.\<close>

definition ensure_role_row :: "access_env \<Rightarrow> nat \<Rightarrow> db_session \<Rightarrow> derived_role \<Rightarrow> access_db \<Rightarrow> access_error + uuid \<times> access_db" where
  "ensure_role_row env k s role db =
     (case select_first (\<lambda>r. rl_derived_from r = Some (dr_derived_from role)) (visible_roles s db) of
        None \<Rightarrow>
          if \<exists>r \<in> set (az_roles db). rl_derived_from r = Some (dr_derived_from role) then Inl (StoreError ErrConstraint)
          else
            rbind (insert_role_row env s
              \<lparr>rl_id = ax_new_id env k, rl_name = dr_name role, rl_description = Some (dr_description role), rl_built_in = False,
               rl_org_id = Some (dr_org_id role), rl_scope = None, rl_catalog_managed = False,
               rl_derived_from = Some (dr_derived_from role)\<rparr> db) (\<lambda>db.
            Inr (ax_new_id env k, db))
      | Some r \<Rightarrow>
          Inr (rl_id r, if text_of (rl_description r) \<noteq> dr_description role
                        then set_role_description (rl_id r) (dr_description role) db else db))"

text \<open>Permissions no longer declared are deleted, new ones inserted.\<close>

definition reconcile_permissions :: "db_session \<Rightarrow> uuid \<Rightarrow> permission list \<Rightarrow> access_db \<Rightarrow> access_db" where
  "reconcile_permissions s role perms db =
     (let held = map snd (filter (\<lambda>rp. fst rp = role) (visible_permissions s db));
          kept = filter (\<lambda>rp. \<not> (fst rp = role \<and> snd rp \<in> set held \<and> snd rp \<notin> set perms)) (az_role_permissions db)
      in db\<lparr>az_role_permissions := kept @ map (Pair role) (remdups (filter (\<lambda>p. p \<notin> set held) perms))\<rparr>)"

definition EnsureDerivedRole :: "access_env \<Rightarrow> nat \<Rightarrow> db_session \<Rightarrow> derived_role \<Rightarrow> access_db \<Rightarrow> access_error + uuid \<times> access_db" where
  "EnsureDerivedRole env k s role db =
     (if dr_derived_from role = [] then Inl (StoreError ErrPlain)
      else rbind (ensure_role_row env k s role db) (\<lambda>(i, db).
           Inr (i, reconcile_permissions s i (dr_permissions role) db)))"

definition carried_provenance :: "uuid \<Rightarrow> string \<Rightarrow> uuid \<Rightarrow> string" where
  "carried_provenance installation audience chosen =
     ''installation='' @ installation @ '';audience='' @ audience @ '';role='' @ chosen"

definition derivedRoleName :: "string \<Rightarrow> string" where
  "derivedRoleName provenance = ''carried module access '' @ [CHR 0xC2, CHR 0xB7] @ '' '' @ provenance"

section \<open>Granting\<close>

definition ResourceTypeSolution :: string where "ResourceTypeSolution = ''solution''"
definition ActionUseSolution :: string where "ActionUseSolution = ''use''"

definition reach_permission :: permission where
  "reach_permission = \<lparr>pm_resource = ResourceTypeSolution, pm_action = ActionUseSolution\<rparr>"

definition InstallationRootScopePath :: "db_session \<Rightarrow> uuid \<Rightarrow> string \<Rightarrow> access_db \<Rightarrow> access_error + string" where
  "InstallationRootScopePath s org installation db =
     (case List.map_filter (\<lambda>i. map_option (\<lambda>n. ltree_out (sn_scope_path n))
              (select_first (\<lambda>n. sn_id n = in_root_scope_node_id i) (visible_nodes s db)))
            (filter (\<lambda>i. in_org_id i = org \<and> in_id i = installation \<and> in_status i = ''active'') (visible_installations s db)) of
        [] \<Rightarrow> Inl (StoreError ErrTypeNotFound)
      | path # _ \<Rightarrow> Inr path)"

record carried_module =
  cm_audience :: string
  cm_installation_id :: string
  cm_scope_path :: string
  cm_role_id :: uuid
  cm_scopes :: "string list"

definition carried_permissions :: "(string \<times> string) list \<Rightarrow> bool list \<Rightarrow> permission list" where
  "carried_permissions pairs permitted =
     reach_permission # map (\<lambda>p. \<lparr>pm_resource = fst (fst p), pm_action = snd (fst p)\<rparr>) (filter snd (zip pairs permitted))"

definition team_request :: "uuid \<Rightarrow> uuid \<Rightarrow> string \<Rightarrow> uuid \<Rightarrow> api_grant" where
  "team_request org team path role =
     \<lparr>ag_id = [], ag_org_id = org, ag_subject_id = team, ag_subject_kind = SUBJECT_KIND_TEAM, ag_scope_path = path,
      ag_role_id = role, ag_granted_by = [], ag_expires_at = None, ag_derived_from = [], ag_created_at = None\<rparr>"

definition carried_role :: "uuid \<Rightarrow> uuid \<Rightarrow> string \<Rightarrow> uuid \<Rightarrow> string \<Rightarrow> permission list \<Rightarrow> derived_role" where
  "carried_role org installation audience chosen description perms =
     (let provenance = carried_provenance installation audience chosen in
      \<lparr>dr_org_id = org, dr_derived_from = provenance, dr_name = derivedRoleName provenance,
       dr_description = description, dr_permissions = perms\<rparr>)"

text \<open>
  What one cause carries.  The description is a function of the audience; new ids are numbered
  from the counter, two for each plan.
\<close>

fun carryModuleAccessTx :: "access_env \<Rightarrow> nat \<Rightarrow> db_session \<Rightarrow> string \<Rightarrow> uuid \<Rightarrow> uuid \<Rightarrow> uuid \<Rightarrow> (string \<Rightarrow> string) \<Rightarrow> uuid \<Rightarrow> uuid \<Rightarrow>
   carried_plan list \<Rightarrow> access_db \<Rightarrow> access_error + (carried_module list \<times> readiness_condition list) \<times> access_db" where
  "carryModuleAccessTx env k s actor org installation team describe chosen cause [] db = Inr (([], []), db)"
| "carryModuleAccessTx env k s actor org installation team describe chosen cause (plan # plans) db =
     (let pairs = declaredPairs (cp_declared plan);
          perms = carried_permissions pairs (RolePermittedScopes s chosen pairs db)
      in if length perms = 1 \<and> length pairs > 0 then
           rbind (carryModuleAccessTx env (Suc (Suc k)) s actor org installation team describe chosen cause plans db) (\<lambda>((carried, unmet), db).
           Inr ((carried, \<lparr>rc_kind = CARRIED_MODULE_ACCESS_NOT_DERIVED, rc_subject = cp_audience plan\<rparr> # unmet), db))
         else
           rbind (InstallationRootScopePath s org (cp_installation_id plan) db) (\<lambda>path.
           rbind (EnsureDerivedRole env k s
             (carried_role org installation (cp_audience plan) chosen (describe (cp_audience plan)) perms) db) (\<lambda>(role, db).
           rbind (grantScopeTx env (Suc k) s actor (team_request org team path role) cause db) (\<lambda>(grant, db).
           rbind (carryModuleAccessTx env (Suc (Suc k)) s actor org installation team describe chosen cause plans db) (\<lambda>((carried, unmet), db).
           Inr ((\<lparr>cm_audience = cp_audience plan, cm_installation_id = cp_installation_id plan, cm_scope_path = ag_scope_path grant,
                  cm_role_id = role, cm_scopes = map permission_text perms\<rparr> # carried, unmet), db))))))"

text \<open>The standing role of an installation: the one role its agent holds at its root.\<close>

definition standing_grants :: "db_session \<Rightarrow> uuid \<Rightarrow> uuid \<Rightarrow> ltree \<Rightarrow> access_db \<Rightarrow> scope_grant list" where
  "standing_grants s org agent path db =
     filter (\<lambda>g. sg_org_id g = org \<and> sg_subject_kind g = ''principal'' \<and> sg_subject_id g = agent \<and> sg_scope_path g = path) (visible_grants s db)"

definition InstallationRoleRevision :: "db_session \<Rightarrow> uuid \<Rightarrow> string \<Rightarrow> access_db \<Rightarrow> access_error + uuid" where
  "InstallationRoleRevision s org installation db =
     (case select_first (\<lambda>i. in_id i = installation \<and> in_org_id i = org \<and> in_status i \<noteq> ''revoked'') (visible_installations s db) of
        None \<Rightarrow> Inl (StoreError ErrPlain)
      | Some i \<Rightarrow>
          if in_no_standing_authority i then Inr []
          else (case select_first (\<lambda>n. sn_id n = in_root_scope_node_id i) (visible_nodes s db) of
                  None \<Rightarrow> Inl (StoreError ErrPlain)
                | Some n \<Rightarrow>
                    (case standing_grants s org (in_agent_principal_id i) (sn_scope_path n) db of
                       [g] \<Rightarrow> if sg_role_id g \<in> rl_id ` set (visible_roles s db) then Inr (sg_role_id g) else Inl (StoreError ErrPlain)
                     | _ \<Rightarrow> Inl (StoreError ErrPlain))))"

record installation_grant =
  ig_grant :: api_grant
  ig_carried :: "carried_module list"
  ig_unmet :: "readiness_condition list"

definition expose_installation :: "access_env \<Rightarrow> string \<Rightarrow> uuid \<Rightarrow> uuid \<Rightarrow> uuid \<Rightarrow> uuid \<Rightarrow> (string \<Rightarrow> string) \<Rightarrow> carried_plan list \<Rightarrow>
   readiness_condition list \<Rightarrow> db_session \<Rightarrow> access_db \<Rightarrow> access_error + installation_grant \<times> access_db" where
  "expose_installation env actor org installation team role describe plans unmet s db =
     rbind (InstallationRootScopePath s org installation db) (\<lambda>path.
     rbind (if role \<noteq> [] then Inr role
            else rbind (InstallationRoleRevision s org installation db) (\<lambda>r. if r = [] then Inl (StoreError ErrTypeValidation) else Inr r)) (\<lambda>role.
     rbind (guard (RolePermits s role ResourceTypeSolution ActionUseSolution db) (StoreError ErrTypeValidation)) (\<lambda>_.
     rbind (grantScopeTx env 0 s actor (team_request org team path role) [] db) (\<lambda>(grant, db).
     rbind (carryModuleAccessTx env 1 s actor org installation team describe role (ag_id grant) plans db) (\<lambda>((carried, carry_unmet), db).
     Inr (\<lparr>ig_grant = grant, ig_carried = carried, ig_unmet = unmet @ carry_unmet\<rparr>, db))))))"

text \<open>
  The installation's row of the organization's listing and, when no role is named, the role the
  solution exposes are read from the applied declaration, which is not modelled: they are arguments.
\<close>

definition GrantInstallationToTeam :: "access_env \<Rightarrow> access_error + reached_module list \<Rightarrow> access_error + uuid \<Rightarrow> (string \<Rightarrow> string) \<Rightarrow>
   string \<Rightarrow> uuid \<Rightarrow> uuid \<Rightarrow> uuid \<Rightarrow> uuid \<Rightarrow> access_db \<Rightarrow> (access_error + installation_grant) \<times> access_db" where
  "GrantInstallationToTeam env listing exposure_role describe actor org installation team role db0 =
     (case listing of
        Inl e \<Rightarrow> (Inl e, db0)
      | Inr reached \<Rightarrow>
          let (plans, unmet) = planCarriedModuleAccess reached in
          (case (if role = [] then exposure_role else Inr role) of
             Inl e \<Rightarrow> (Inl e, db0)
           | Inr role \<Rightarrow> WithOrgTx org (expose_installation env actor org installation team role describe plans unmet) db0))"

section \<open>Revoking\<close>

definition DerivedScopeGrants :: "db_session \<Rightarrow> uuid \<Rightarrow> string \<Rightarrow> string \<Rightarrow> access_db \<Rightarrow> access_error + scope_grant list" where
  "DerivedScopeGrants s org cause cause_node db =
     (if cause = [] \<and> cause_node = [] then Inl (StoreError ErrPlain)
      else Inr (sort_key (\<lambda>d. (sg_scope_path d, sg_role_id d, sg_subject_id d))
        (filter (\<lambda>d. sg_org_id d = org \<and>
           (\<exists>c \<in> set (visible_grants s db). sg_derived_from d = Some (sg_id c) \<and> sg_org_id c = org \<and>
              (cause = [] \<or> sg_derived_from d = Some cause) \<and>
              (cause_node = [] \<or> (\<exists>n \<in> set (visible_nodes s db). sn_id n = cause_node \<and> sn_org_id n = org \<and> sn_scope_path n = sg_scope_path c))))
          (visible_grants s db))))"

definition stored_kind :: "string \<Rightarrow> SubjectKind" where
  "stored_kind k = (if k = ''team'' then SUBJECT_KIND_TEAM else SUBJECT_KIND_PRINCIPAL)"

fun revoke_each :: "access_env \<Rightarrow> db_session \<Rightarrow> string \<Rightarrow> uuid \<Rightarrow> scope_grant list \<Rightarrow> access_db \<Rightarrow> access_error + access_db" where
  "revoke_each env s actor org [] db = Inr db"
| "revoke_each env s actor org (g # gs) db =
     rbind (revokeScopeApply env s actor org (sg_subject_id g) (stored_kind (sg_subject_kind g)) (ltree_out (sg_scope_path g)) (sg_role_id g) db)
       (revoke_each env s actor org gs)"

definition revokeDerivedGrantsTx :: "access_env \<Rightarrow> db_session \<Rightarrow> string \<Rightarrow> uuid \<Rightarrow> string \<Rightarrow> string \<Rightarrow> access_db \<Rightarrow> access_error + access_db" where
  "revokeDerivedGrantsTx env s actor org cause cause_node db =
     rbind (DerivedScopeGrants s org cause cause_node db) (\<lambda>derived. revoke_each env s actor org derived db)"

text \<open>The team grants at the root of an active installation, as the exposure listing reads them.\<close>

definition granted_teams :: "access_env \<Rightarrow> db_session \<Rightarrow> uuid \<Rightarrow> ltree \<Rightarrow> access_db \<Rightarrow> scope_grant list" where
  "granted_teams env s org root db =
     sort_key (\<lambda>g. (sg_created_at g, sg_id g))
       (filter (\<lambda>g. sg_org_id g = org \<and> sg_subject_kind g = ''team'' \<and> sg_scope_path g = root \<and> unexpired (ax_now env) (sg_expires_at g) \<and>
          sg_role_id g \<in> rl_id ` set (visible_roles s db)) (visible_grants s db))"

definition find_cause :: "access_env \<Rightarrow> uuid \<Rightarrow> uuid \<Rightarrow> uuid \<Rightarrow> uuid \<Rightarrow> db_session \<Rightarrow> access_db \<Rightarrow> access_error + (string \<times> string) \<times> access_db" where
  "find_cause env org installation team role s db =
     rbind (InstallationRootScopePath s org installation db) (\<lambda>path.
     rbind (requireSubjectInOrgTx env s org team SUBJECT_KIND_TEAM db) (\<lambda>_.
     rbind (cast_ltree path) (\<lambda>root.
       let causes = filter (\<lambda>g. sg_subject_id g = team \<and> sg_role_id g = role) (granted_teams env s org root db)
       in Inr ((path, if causes = [] then [] else sg_id (last causes)), db))))"

definition revoke_with_carried :: "access_env \<Rightarrow> string \<Rightarrow> uuid \<Rightarrow> uuid \<Rightarrow> uuid \<Rightarrow> string \<Rightarrow> string \<Rightarrow> access_db \<Rightarrow>
   (access_error + unit) \<times> access_db" where
  "revoke_with_carried env actor org team role path cause =
     narrow (\<lambda>s db.
       rbind (if cause = [] then Inr db else revokeDerivedGrantsTx env s actor org cause [] db) (\<lambda>db.
       rbind (revokeScopeApply env s actor org team SUBJECT_KIND_TEAM path role db) (\<lambda>db.
       Inr ((), db))))"

text \<open>Two transactions: the grant to remove is looked up in the first; what others commit before the second is an argument.\<close>

definition RevokeInstallationFromTeam :: "access_env \<Rightarrow> (access_db \<Rightarrow> access_db) \<Rightarrow> string \<Rightarrow> uuid \<Rightarrow> uuid \<Rightarrow> uuid \<Rightarrow> uuid \<Rightarrow> access_db \<Rightarrow>
   (access_error + unit) \<times> access_db" where
  "RevokeInstallationFromTeam env meanwhile actor org installation team role db0 =
     (case WithOrgTx org (find_cause env org installation team role) db0 of
        (Inl e, db) \<Rightarrow> (Inl e, db)
      | (Inr (path, cause), db) \<Rightarrow> revoke_with_carried env actor org team role path cause (meanwhile db))"

end
