(* ===== verification/Access_Changes.thy ===== *)
theory Access_Changes
  imports Carried_Access
begin

text \<open>
  Every operation of the authorization service is a sequence of a few changes of the tables, each
  under a guard the operation has checked.  This theory names these changes, with the
  organization they belong to, and shows for each operation that it is such a sequence; invariants
  are then proved once for each change, in \<^verbatim>\<open>Access_Invariants\<close>.
\<close>

section \<open>Changes\<close>

definition hand_grantable :: "uuid \<Rightarrow> uuid \<Rightarrow> access_db \<Rightarrow> bool" where
  "hand_grantable t role db =
     (case select_first (\<lambda>r. rl_id r = role) (visible_roles (TenantTx t) db) of
        None \<Rightarrow> False
      | Some r \<Rightarrow> text_of (rl_derived_from r) = [] \<or> SolutionRoleOrigin (text_of (rl_derived_from r)) \<noteq> None)"

definition plain_role :: "db_session \<Rightarrow> uuid \<Rightarrow> access_db \<Rightarrow> bool" where
  "plain_role s role db =
     (case select_first (\<lambda>r. rl_id r = role) (visible_roles s db) of
        None \<Rightarrow> False
      | Some r \<Rightarrow> text_of (rl_derived_from r) = [])"

definition hand_cause :: "uuid \<Rightarrow> uuid \<Rightarrow> access_db \<Rightarrow> bool" where
  "hand_cause t cause db \<longleftrightarrow> (\<exists>c \<in> set (az_scope_grants db). sg_id c = cause \<and> sg_org_id c = t \<and> sg_derived_from c = None)"

definition derived_here :: "uuid \<Rightarrow> uuid \<Rightarrow> access_db \<Rightarrow> bool" where
  "derived_here t role db \<longleftrightarrow> (\<exists>r \<in> set (az_roles db). rl_id r = role \<and> rl_org_id r = Some t \<and> rl_derived_from r \<noteq> None)"

definition grantable :: "uuid \<Rightarrow> scope_grant \<Rightarrow> access_db \<Rightarrow> bool" where
  "grantable t g db =
     (case sg_derived_from g of
        None \<Rightarrow> hand_grantable t (sg_role_id g) db
      | Some c \<Rightarrow> hand_cause t c db \<and> derived_here t (sg_role_id g) db)"

definition placed_in :: "uuid \<Rightarrow> ltree \<Rightarrow> access_db \<Rightarrow> bool" where
  "placed_in t path db \<longleftrightarrow> (\<exists>m \<in> set (az_scope_nodes db). sn_org_id m = t \<and> sn_scope_path m = path)"

definition refresh_grant :: "scope_grant \<Rightarrow> scope_grant \<Rightarrow> scope_grant" where
  "refresh_grant row g = g\<lparr>sg_granted_by := sg_granted_by row, sg_expires_at := sg_expires_at row\<rparr>"

definition refresh_share :: "record_share \<Rightarrow> record_share \<Rightarrow> record_share" where
  "refresh_share row h = h\<lparr>sh_granted_by := sh_granted_by row, sh_expires_at := sh_expires_at row\<rparr>"

definition stored_kinds :: "string set" where
  "stored_kinds = {''principal'', ''team''}"

inductive access_change :: "uuid option \<Rightarrow> access_db \<Rightarrow> access_db \<Rightarrow> bool" for w where
  logged: "access_change w db (db\<lparr>az_audit := trail, az_events := evs\<rparr>)"
| node_added: "access_change w db (db\<lparr>az_scope_nodes := az_scope_nodes db @ [n]\<rparr>)"
    if "w = Some t" "sn_org_id n = t" "node_admitted env (TenantTx t) n db" "list_all ltree_label (sn_scope_path n)"
      "length (sn_scope_path n) \<le> 65535" "butlast (sn_scope_path n) = [] \<or> placed_in t (butlast (sn_scope_path n)) db"
| grant_added: "access_change w db (db\<lparr>az_scope_grants := az_scope_grants db @ [g]\<rparr>)"
    if "w = Some t" "sg_org_id g = t" "select_first (same_grant g) (az_scope_grants db) = None" "grant_admitted env g db"
      "placed_in t (sg_scope_path g) db" "sg_subject_kind g \<in> stored_kinds" "grantable t g db"
| grant_refreshed: "access_change w db (db\<lparr>az_scope_grants := update_where (same_grant row) (refresh_grant row) (az_scope_grants db)\<rparr>)"
    if "w = Some t" "sg_org_id row = t"
| grants_deleted: "access_change w db (db\<lparr>az_scope_grants := delete_grants p (az_scope_grants db)\<rparr>)"
    if "w = Some t" "\<And>g. p g \<Longrightarrow> sg_org_id g = t"
| share_added: "access_change w db (db\<lparr>az_record_shares := az_record_shares db @ [h]\<rparr>)"
    if "w = Some t" "sh_org_id h = t" "select_first (same_share h) (az_record_shares db) = None" "sh_id h \<notin> sh_id ` set (az_record_shares db)"
      "sh_subject_kind h \<in> stored_kinds" "plain_role (TenantTx t) (sh_role_id h) db"
| share_refreshed: "access_change w db (db\<lparr>az_record_shares := update_where (same_share row) (refresh_share row) (az_record_shares db)\<rparr>)"
    if "w = Some t" "sh_org_id row = t"
| shares_deleted: "access_change w db (db\<lparr>az_record_shares := filter (\<lambda>h. \<not> p h) (az_record_shares db)\<rparr>)"
    if "w = Some t" "\<And>h. p h \<Longrightarrow> sh_org_id h = t"
| role_added: "access_change w db (db\<lparr>az_roles := az_roles db @ [r]\<rparr>)"
    if "rl_org_id r = w" "rl_id r \<notin> rl_id ` set (az_roles db)" "rl_derived_from r \<noteq> Some []"
      "rl_derived_from r \<noteq> None \<Longrightarrow> w \<noteq> None \<and> (\<forall>old \<in> set (az_roles db). rl_derived_from old \<noteq> rl_derived_from r)"
| role_described: "access_change w db (set_role_description role description db)"
    if "\<exists>r \<in> set (az_roles db). rl_id r = role \<and> rl_org_id r = w"
| permissions_set: "access_change w db (db\<lparr>az_role_permissions := perms\<rparr>)"
    if "\<exists>r \<in> set (az_roles db). rl_id r = role \<and> rl_org_id r = w"
      "filter (\<lambda>rp. fst rp \<noteq> role) perms = filter (\<lambda>rp. fst rp \<noteq> role) (az_role_permissions db)"
      "distinct (az_role_permissions db) \<Longrightarrow> distinct perms"
| role_deleted: "access_change w db (delete_role_row role db)" if "w = None"
| assignment_added: "access_change w db (db\<lparr>az_role_assignments := az_role_assignments db @ [a]\<rparr>)"
    if "ra_org_id a = w" "ra_id a \<notin> ra_id ` set (az_role_assignments db)"
      "plain_role (case w of None \<Rightarrow> ControlPlaneTx | Some t \<Rightarrow> TenantTx t) (ra_role_id a) db"
| assignments_deleted: "access_change w db (db\<lparr>az_role_assignments := filter (\<lambda>a. \<not> p a) (az_role_assignments db)\<rparr>)"
    if "\<And>a. p a \<Longrightarrow> ra_org_id a = w"

abbreviation access_changes :: "uuid option \<Rightarrow> access_db \<Rightarrow> access_db \<Rightarrow> bool" where
  "access_changes w \<equiv> (access_change w)\<^sup>*\<^sup>*"

lemma changes_single: "access_change w db db' \<Longrightarrow> access_changes w db db'"
  by (rule r_into_rtranclp)

lemma changes_audited:
  assumes "access_emitTx env actor event resource i org payload db = Inr db'"
  shows "access_changes w db db'"
proof -
  obtain trail where "db' = db\<lparr>az_audit := trail\<rparr>" using access_emitTx_Inr [OF assms] by blast
  then show ?thesis using access_change.logged [where trail = trail and evs = "az_events db" and db = db and w = w] by (simp add: changes_single)
qed

lemma changes_published:
  assumes "publishLifecycleEvent env ty tenant boundary actor data db = Inr db'"
  shows "access_changes w db db'"
proof -
  obtain evs where "db' = db\<lparr>az_events := evs\<rparr>" using publishLifecycleEvent_Inr [OF assms] by blast
  then show ?thesis using access_change.logged [where trail = "az_audit db" and evs = evs and db = db and w = w] by (simp add: changes_single)
qed

lemma changes_Within:
  assumes "\<And>x db'. fn db = Inr (x, db') \<Longrightarrow> access_changes w db db'"
  shows "access_changes w db (snd (Within fn db))"
  by (rule snd_Within [where P = "access_changes w db"]) (use assms in auto)

lemma changes_WithOrgTx:
  assumes "\<And>x db'. org \<noteq> [] \<Longrightarrow> fn (TenantTx org) db = Inr (x, db') \<Longrightarrow> access_changes w db db'"
  shows "access_changes w db (snd (WithOrgTx org fn db))"
  using assms by (auto simp: WithOrgTx_def intro: changes_Within)

lemma changes_WithControlPlane:
  assumes "\<And>x db'. fn ControlPlaneTx db = Inr (x, db') \<Longrightarrow> access_changes w db db'"
  shows "access_changes w db (snd (WithControlPlane fn db))"
  using assms by (auto simp: WithControlPlane_def intro: changes_Within)

definition owner_of :: "string \<Rightarrow> uuid option" where
  "owner_of org = (if org = [] then None else Some org)"

lemma owner_of_nilIfEmpty: "owner_of org = nilIfEmpty org"
  by (simp add: owner_of_def nilIfEmpty_def)

definition session_of :: "string \<Rightarrow> db_session" where
  "session_of org = (if org = [] then ControlPlaneTx else TenantTx org)"

lemma changes_ScopedTx:
  assumes "\<And>x db'. fn (session_of org) db = Inr (x, db') \<Longrightarrow> access_changes w db db'"
  shows "access_changes w db (snd (ScopedTx org fn db))"
  using assms by (auto simp: ScopedTx_def session_of_def intro: changes_WithOrgTx changes_WithControlPlane)

lemma read_only_changes: "read_only f db = Inr (x, db') \<Longrightarrow> access_changes w db db'"
  by (auto simp: read_only_def rbind_eq_Inr)

section \<open>Roles and assignments\<close>

lemma in_tenant_simps [simp]: "in_tenant (TenantTx t) org \<longleftrightarrow> org = t" "in_tenant ControlPlaneTx org"
  by (simp_all add: in_tenant_def)

lemma may_write_org_simps [simp]: "may_write_org (TenantTx t) org \<longleftrightarrow> org = Some t" "may_write_org ControlPlaneTx org"
  by (simp_all add: may_write_org_def)

lemma add_permissions_perms:
  "\<exists>ps. add_permissions role perms db = db\<lparr>az_role_permissions := ps\<rparr> \<and>
     filter (\<lambda>rp. fst rp \<noteq> role) ps = filter (\<lambda>rp. fst rp \<noteq> role) (az_role_permissions db) \<and>
     set ps = set (az_role_permissions db) \<union> Pair role ` set perms \<and>
     (distinct (az_role_permissions db) \<longrightarrow> distinct ps)"
proof (induction perms arbitrary: db)
  case Nil
  show ?case by (rule exI [of _ "az_role_permissions db"]) (simp add: add_permissions_def)
next
  case (Cons p perms)
  define q where "q = (if (role, p) \<in> set (az_role_permissions db) then az_role_permissions db else az_role_permissions db @ [(role, p)])"
  have one: "add_permission role p db = db\<lparr>az_role_permissions := q\<rparr>"
    by (simp add: add_permission_def q_def)
  obtain ps where ps: "add_permissions role perms (db\<lparr>az_role_permissions := q\<rparr>) = (db\<lparr>az_role_permissions := q\<rparr>)\<lparr>az_role_permissions := ps\<rparr>"
    "filter (\<lambda>rp. fst rp \<noteq> role) ps = filter (\<lambda>rp. fst rp \<noteq> role) q" "set ps = set q \<union> Pair role ` set perms" "distinct q \<longrightarrow> distinct ps"
    using Cons [of "db\<lparr>az_role_permissions := q\<rparr>"] by auto
  have "add_permissions role (p # perms) db = db\<lparr>az_role_permissions := ps\<rparr>"
    using ps(1) one by (simp add: add_permissions_def)
  moreover have "filter (\<lambda>rp. fst rp \<noteq> role) q = filter (\<lambda>rp. fst rp \<noteq> role) (az_role_permissions db)"
    "set q = insert (role, p) (set (az_role_permissions db))" "distinct (az_role_permissions db) \<longrightarrow> distinct q"
    by (auto simp: q_def)
  ultimately show ?case using ps(2-) by (intro exI [of _ ps]) auto
qed

lemma changes_add_permissions:
  assumes "\<exists>r \<in> set (az_roles db). rl_id r = role \<and> rl_org_id r = w"
  shows "access_changes w db (add_permissions role perms db)"
proof -
  obtain ps where ps: "add_permissions role perms db = db\<lparr>az_role_permissions := ps\<rparr>"
    "filter (\<lambda>rp. fst rp \<noteq> role) ps = filter (\<lambda>rp. fst rp \<noteq> role) (az_role_permissions db)" "distinct (az_role_permissions db) \<longrightarrow> distinct ps"
    using add_permissions_perms by blast
  show ?thesis unfolding ps(1) using assms ps(2,3) by (intro changes_single access_change.permissions_set) auto
qed

lemma changes_insert_role_row:
  assumes "insert_role_row env s r db = Inr db'" "rl_org_id r = w" "rl_derived_from r \<noteq> Some []"
    and "rl_derived_from r \<noteq> None \<Longrightarrow> w \<noteq> None \<and> (\<forall>old \<in> set (az_roles db). rl_derived_from old \<noteq> rl_derived_from r)"
  shows "access_changes w db db'" "db' = db\<lparr>az_roles := az_roles db @ [r]\<rparr>"
proof -
  show db': "db' = db\<lparr>az_roles := az_roles db @ [r]\<rparr>" using assms(1) by (auto simp: insert_role_row_def split: if_splits)
  have "rl_id r \<notin> rl_id ` set (az_roles db)" using assms(1) by (auto simp: insert_role_row_def split: if_splits)
  then show "access_changes w db db'"
    unfolding db' using assms(2-) by (intro changes_single access_change.role_added) auto
qed

lemma changes_store_CreateRole:
  assumes "store_CreateRole env s r db = Inr db'"
  shows "access_changes (owner_of (ar_org_id r)) db db'"
proof -
  let ?row = "\<lparr>rl_id = ar_id r, rl_name = ar_name r, rl_description = Some (ar_description r), rl_built_in = ar_built_in r,
        rl_org_id = nilIfEmpty (ar_org_id r), rl_scope = None, rl_catalog_managed = False, rl_derived_from = None\<rparr>"
  obtain db1 where i: "insert_role_row env s ?row db = Inr db1" and db': "db' = add_permissions (ar_id r) (ar_permissions r) db1"
    using assms by (auto simp: store_CreateRole_def rbind_eq_Inr)
  note c = changes_insert_role_row [OF i, of "owner_of (ar_org_id r)"]
  have "access_changes (owner_of (ar_org_id r)) db db1" by (rule c(1)) (simp_all add: owner_of_nilIfEmpty)
  moreover have "\<exists>x \<in> set (az_roles db1). rl_id x = ar_id r \<and> rl_org_id x = owner_of (ar_org_id r)"
    using c(2) by (simp add: owner_of_nilIfEmpty)
  ultimately show ?thesis unfolding db' using changes_add_permissions rtranclp_trans by meson
qed

lemma CreateRole_changes: "access_changes (owner_of org) db (snd (CreateRole env actor name description perms org db))"
  unfolding CreateRole_def Let_def
  by (rule changes_ScopedTx)
    (auto simp: rbind_eq_Inr dest!: changes_store_CreateRole intro: rtranclp_trans [OF _ changes_audited])

lemma changes_clear_permissions:
  assumes "\<exists>r \<in> set (az_roles db). rl_id r = role \<and> rl_org_id r = w"
  shows "access_changes w db (clear_permissions role db)"
  unfolding clear_permissions_def using assms by (intro changes_single access_change.permissions_set) auto

lemma role_kept:
  "\<exists>r \<in> set (az_roles db). rl_id r = role \<and> rl_org_id r = w \<Longrightarrow>
   \<exists>r \<in> set (az_roles (set_role_description i d db)). rl_id r = role \<and> rl_org_id r = w"
  "az_roles (clear_permissions i db) = az_roles db"
proof -
  assume "\<exists>r \<in> set (az_roles db). rl_id r = role \<and> rl_org_id r = w"
  then obtain r where r: "r \<in> set (az_roles db)" "rl_id r = role" "rl_org_id r = w" by blast
  then have "(if rl_id r = i then r\<lparr>rl_description := Some d\<rparr> else r) \<in> set (az_roles (set_role_description i d db))"
    by (auto simp: set_role_description_def set_update_where)
  then show "\<exists>r \<in> set (az_roles (set_role_description i d db)). rl_id r = role \<and> rl_org_id r = w"
    using r by (metis (no_types, lifting) role_row.select_convs(1,5) role_row.surjective role_row.update_convs(3))
qed (simp add: clear_permissions_def)

lemma changes_store_UpdateRole:
  assumes "store_UpdateRole s role org description perms db = Inr (r, db')"
  shows "access_changes (owner_of org) db db'"
proof -
  obtain x where x: "select_first (\<lambda>r. rl_id r = role \<and> rl_org_id r = nilIfEmpty org) (visible_roles s db) = Some x"
    and db': "db' = add_permissions role perms (clear_permissions role (set_role_description role description db))"
    using assms by (auto simp: store_UpdateRole_def Let_def split: option.splits if_splits)
  have here: "\<exists>r \<in> set (az_roles db). rl_id r = role \<and> rl_org_id r = owner_of org"
    using select_first_Some [OF x] by (auto simp: visible_roles_def owner_of_nilIfEmpty)
  then have "access_changes (owner_of org) db (set_role_description role description db)"
    by (intro changes_single access_change.role_described)
  moreover have "access_changes (owner_of org) (set_role_description role description db)
      (clear_permissions role (set_role_description role description db))"
    using role_kept(1) [OF here] by (rule changes_clear_permissions)
  moreover have "access_changes (owner_of org) (clear_permissions role (set_role_description role description db)) db'"
    unfolding db' using role_kept(1) [OF here] by (intro changes_add_permissions) (simp add: role_kept(2))
  ultimately show ?thesis by (meson rtranclp_trans)
qed

lemma UpdateRole_changes: "access_changes (owner_of org) db (snd (UpdateRole env actor role org description perms db))"
  unfolding UpdateRole_def
  by (rule changes_ScopedTx)
    (auto simp: rbind_eq_Inr dest!: changes_store_UpdateRole intro: rtranclp_trans [OF _ changes_audited])

lemma DeleteRole_changes: "access_changes None db (snd (DeleteRole env actor role db))"
proof -
  have "access_changes None db db'" if "store_DeleteRole s role db = Inr db'" for s db'
    using that by (auto simp: store_DeleteRole_def split: option.splits if_splits intro: changes_single access_change.role_deleted)
  then show ?thesis
    unfolding DeleteRole_def
    by (intro changes_WithControlPlane) (auto simp: rbind_eq_Inr intro: rtranclp_trans [OF _ changes_audited])
qed

lemma requireNotDerivedRole_plain: "requireNotDerivedRole s role db = Inr u \<Longrightarrow> plain_role s role db"
  by (auto simp: requireNotDerivedRole_def derivedRoleProvenance_def plain_role_def split: option.splits)

lemma changes_store_AssignRole:
  assumes "store_AssignRole env (session_of org) i subject kind role org scope db = Inr db'"
  shows "access_changes (owner_of org) db db'"
proof -
  let ?s = "session_of org"
  obtain column where plain: "plain_role ?s role db"
    and rest: "db' = db \<or> (db' = db\<lparr>az_role_assignments := az_role_assignments db @
        [\<lparr>ra_id = i, ra_subject_id = subject, ra_subject_kind = column, ra_role_id = role, ra_org_id = nilIfEmpty org,
          ra_scope = nilIfEmpty scope, ra_assigned_at = ax_now env\<rparr>]\<rparr> \<and> i \<notin> ra_id ` set (az_role_assignments db))"
    using assms
    by (auto simp: store_AssignRole_def rbind_eq_Inr Let_def assignment_conflicts_def requireNotDerivedRole_plain split: sum.splits if_splits)
  have "plain_role (case owner_of org of None \<Rightarrow> ControlPlaneTx | Some t \<Rightarrow> TenantTx t) role db"
    using plain by (auto simp: owner_of_def session_of_def split: if_splits)
  then show ?thesis
    using rest changes_single [OF access_change.assignment_added] by (auto simp: owner_of_nilIfEmpty)
qed

definition canonical_org :: "access_env \<Rightarrow> string \<Rightarrow> string" where
  "canonical_org env raw = (case ParseID env raw of None \<Rightarrow> [] | Some org \<Rightarrow> org)"

lemma AssignRole_changes: "access_changes (owner_of (canonical_org env org)) db (snd (AssignRole env subject kind role org scope db))"
proof (cases "if org = [] then Inr (org, subject) else canonicalSubjectTenancyIDs env org subject")
  case (Inr p)
  obtain o' u where p: "p = (o', u)" by (cases p)
  have o': "canonical_org env org = o'"
    using Inr by (auto simp: p canonicalSubjectTenancyIDs_def canonical_org_def ParseID_def split: if_splits option.splits)
  have "access_changes (owner_of o') db (snd (ScopedTx o' (\<lambda>s db.
            rbind (if o' = [] then Inr () else requireSubjectInOrgTx env s o' u kind db) (\<lambda>_.
            rbind (store_AssignRole env s (ax_new_id env 0) u kind role o' scope db) (\<lambda>db.
            rbind (access_emitTx env u ''saas.role.assigned'' ''role'' role o' [] db) (\<lambda>db.
            Inr (ax_new_id env 0, db))))) db))"
    by (rule changes_ScopedTx)
      (auto simp: rbind_eq_Inr dest!: changes_store_AssignRole intro: rtranclp_trans [OF _ changes_audited])
  then show ?thesis using Inr o' by (simp add: AssignRole_def p)
qed (simp add: AssignRole_def)

lemma RevokeRole_changes: "access_changes (owner_of org) db (snd (RevokeRole env actor subject role org scope db))"
proof -
  have "access_changes (owner_of org) db db'" if r: "store_RevokeRole s subject role org scope db = Inr db'" for s db'
  proof -
    let ?p = "\<lambda>a. global_or_in_tenant s (ra_org_id a) \<and> revoked_assignment subject role org scope a"
    have "db' = db\<lparr>az_role_assignments := filter (\<lambda>a. \<not> ?p a) (az_role_assignments db)\<rparr>"
      using r by (simp add: store_RevokeRole_def Let_def split: if_splits)
    then show ?thesis
      using access_change.assignments_deleted [where p = ?p and w = "owner_of org"]
      by (simp add: changes_single revoked_assignment_def owner_of_nilIfEmpty)
  qed
  then show ?thesis
    unfolding RevokeRole_def narrow_def
    by (intro changes_WithControlPlane) (auto simp: rbind_eq_Inr intro: rtranclp_trans [OF _ changes_audited])
qed

section \<open>Scope nodes\<close>

lemma label_no_dot: "scope_label l \<Longrightarrow> CHR ''.'' \<notin> set l"
  using label_char_no_dot by (auto simp: scope_label_def list_all_iff)

lemma cast_ltree_Inr: "cast_ltree path = Inr p \<longleftrightarrow> ltree_in path = Some p"
  by (auto simp: cast_ltree_def split: option.splits)

lemma parent_registered:
  assumes "scopePathPattern path" "ltree_in path = Some p" "butlast p \<noteq> []"
  shows "scopeParentPath path = ltree_out (butlast p)" "ltree_out (butlast p) \<noteq> []" "ltree_in (scopeParentPath path) = Some (butlast p)"
proof -
  have path: "ltree_out p = path" using ltree_in_Some [OF assms(2)] .
  have labels: "list_all ltree_label p" "length p \<le> 65535" using ltree_in_labels [OF assms(2)] by auto
  have dots: "\<forall>l \<in> set p. CHR ''.'' \<notin> set l"
    using labels(1) label_char_no_dot by (auto simp: list_all_iff ltree_label_def)
  have "p \<noteq> []" using assms(3) by auto
  then show eq: "scopeParentPath path = ltree_out (butlast p)" using scopeParentPath_labels [OF _ dots] path by simp
  have "list_all ltree_label (butlast p)" "length (butlast p) \<le> 65535"
    using labels by (auto simp: list_all_iff dest: in_set_butlastD)
  then show "ltree_in (scopeParentPath path) = Some (butlast p)" using ltree_in_out eq by simp
  then show "ltree_out (butlast p) \<noteq> []" using assms(3) eq by (auto simp: ltree_in_def split: if_splits)
qed

definition registered_row :: "access_env \<Rightarrow> api_node \<Rightarrow> ltree \<Rightarrow> scope_node" where
  "registered_row env node path =
     \<lparr>sn_id = an_id node, sn_org_id = an_org_id node, sn_scope_path = path, sn_kind = an_kind node,
      sn_label = an_label node, sn_resource_type = nilIfEmpty (an_resource_type node),
      sn_resource_id = nilIfEmpty (an_resource_id node), sn_created_at = ax_now env\<rparr>"

lemma store_RegisterScopeNode_Inr:
  assumes "store_RegisterScopeNode env s node db = Inr (node', db')"
  obtains path where "scopePathPattern (an_scope_path node)" "ltree_in (an_scope_path node) = Some path"
    "db' = db\<lparr>az_scope_nodes := az_scope_nodes db @ [registered_row env node path]\<rparr>"
    "node_admitted env s (registered_row env node path) db" "butlast path = [] \<or> node_at s (butlast path) db"
    "node' = node\<lparr>an_created_at := Some (ax_now env)\<rparr>"
proof -
  obtain path where path: "scopePathPattern (an_scope_path node)" "ltree_in (an_scope_path node) = Some path"
      "db' = db\<lparr>az_scope_nodes := az_scope_nodes db @ [registered_row env node path]\<rparr>"
      "node_admitted env s (registered_row env node path) db" "node' = node\<lparr>an_created_at := Some (ax_now env)\<rparr>"
    and parent: "scopeParentPath (an_scope_path node) = [] \<or> (\<exists>p. ltree_in (scopeParentPath (an_scope_path node)) = Some p \<and> node_at s p db)"
    using assms
    by (auto simp: store_RegisterScopeNode_def validateScopePath_def registered_row_def rbind_eq_Inr Let_def cast_ltree_Inr split: if_splits)
  have "butlast path = [] \<or> node_at s (butlast path) db"
    using parent parent_registered [OF path(1,2)] by (cases "butlast path = []") auto
  with path show thesis using that by blast
qed

lemma node_at_placed: "node_at (TenantTx t) path db \<longleftrightarrow> placed_in t path db"
  by (auto simp: node_at_def placed_in_def visible_nodes_def)

lemma changes_store_RegisterScopeNode:
  assumes "store_RegisterScopeNode env (TenantTx t) node db = Inr (node', db')"
  shows "access_changes (Some t) db db'"
proof -
  obtain path where p: "ltree_in (an_scope_path node) = Some path"
    "db' = db\<lparr>az_scope_nodes := az_scope_nodes db @ [registered_row env node path]\<rparr>"
    "node_admitted env (TenantTx t) (registered_row env node path) db" "butlast path = [] \<or> node_at (TenantTx t) (butlast path) db"
    using store_RegisterScopeNode_Inr [OF assms] by blast
  have "sn_org_id (registered_row env node path) = t" using p(3) by (simp add: node_admitted_def)
  then show ?thesis
    unfolding p(2) using p(3,4) ltree_in_labels [OF p(1)]
    by (intro changes_single access_change.node_added [where t = t and env = env]) (simp_all add: registered_row_def node_at_placed)
qed

lemma RegisterScopeNode_changes: "access_changes (Some (an_org_id req)) db (snd (RegisterScopeNode env actor req db))"
  unfolding RegisterScopeNode_def Let_def
  by (rule changes_WithOrgTx)
    (auto simp: rbind_eq_Inr dest!: changes_store_RegisterScopeNode intro: rtranclp_trans [OF _ changes_audited])

section \<open>Grants\<close>

lemma hand_grantable_guard:
  assumes "requireNotDerivedRoleOrSolutionRoot (TenantTx t) grant db = Inr u"
  shows "hand_grantable t (ag_role_id grant) db"
proof -
  have "hand_grantable t (ag_role_id grant) db" if "requireNotDerivedRole (TenantTx t) (ag_role_id grant) db = Inr u"
    using requireNotDerivedRole_plain [OF that] by (auto simp: plain_role_def hand_grantable_def split: option.splits)
  then show ?thesis
    using assms
    by (auto simp: requireNotDerivedRoleOrSolutionRoot_def derivedRoleProvenance_def hand_grantable_def split: option.splits)
qed

lemma subjectKindColumn_stored: "subjectKindColumn kind = Inr k \<Longrightarrow> k \<in> stored_kinds"
  by (auto simp: subjectKindColumn_def stored_kinds_def split: SubjectKind.splits)

definition granted_row :: "access_env \<Rightarrow> api_grant \<Rightarrow> string \<Rightarrow> ltree \<Rightarrow> scope_grant" where
  "granted_row env grant kind path =
     \<lparr>sg_id = ag_id grant, sg_org_id = ag_org_id grant, sg_subject_id = ag_subject_id grant, sg_subject_kind = kind,
      sg_scope_path = path, sg_role_id = ag_role_id grant, sg_granted_by = nilIfEmpty (ag_granted_by grant),
      sg_expires_at = ag_expires_at grant, sg_derived_from = nilIfEmpty (ag_derived_from grant), sg_created_at = ax_now env\<rparr>"

lemma upsert_grant_Inr:
  assumes "upsert_grant env s row db = Inr (g, db')"
  obtains (refreshed) old where "select_first (same_grant row) (az_scope_grants db) = Some old" "sg_derived_from old = sg_derived_from row"
      "in_tenant s (sg_org_id row)" "g = refresh_grant row old"
      "db' = db\<lparr>az_scope_grants := update_where (same_grant row) (refresh_grant row) (az_scope_grants db)\<rparr>"
  | (added) "select_first (same_grant row) (az_scope_grants db) = None" "grant_admitted env row db" "in_tenant s (sg_org_id row)" "g = row"
      "db' = db\<lparr>az_scope_grants := az_scope_grants db @ [row]\<rparr>"
proof (cases "select_first (same_grant row) (az_scope_grants db)")
  case None
  then show thesis using assms added by (auto simp: upsert_grant_def split: if_splits)
next
  case (Some old)
  have "refresh_grant row = (\<lambda>g. g\<lparr>sg_granted_by := sg_granted_by row, sg_expires_at := sg_expires_at row\<rparr>)"
    by (simp add: refresh_grant_def fun_eq_iff)
  then show thesis using assms Some refreshed by (auto simp: upsert_grant_def refresh_grant_def Let_def split: if_splits)
qed

lemma store_GrantScope_Inr:
  assumes "store_GrantScope env s grant db = Inr (grant', db')"
  obtains kind path g where "subjectKindColumn (ag_subject_kind grant) = Inr kind" "ltree_in (ag_scope_path grant) = Some path"
    "scopePathPattern (ag_scope_path grant)" "requireVisibleRole s (ag_role_id grant) db = Inr ()"
    "ag_derived_from grant = [] \<Longrightarrow> requireNotDerivedRoleOrSolutionRoot s grant db = Inr ()"
    "node_at s path db" "upsert_grant env s (granted_row env grant kind path) db = Inr (g, db')"
    "grant' = grant\<lparr>ag_id := sg_id g, ag_created_at := Some (sg_created_at g)\<rparr>"
  using assms by (auto simp: store_GrantScope_def validateScopePath_def granted_row_def rbind_eq_Inr cast_ltree_Inr split: if_splits)

text \<open>
  A grant written through the store is one change; a grant with a cause needs the cause to be a
  grant made by hand and its role to be one derived in this organization.
\<close>

lemma changes_store_GrantScope:
  assumes g: "store_GrantScope env (TenantTx t) grant db = Inr (grant', db')"
    and caused: "ag_derived_from grant \<noteq> [] \<Longrightarrow> hand_cause t (ag_derived_from grant) db \<and> derived_here t (ag_role_id grant) db"
  shows "access_changes (Some t) db db'"
    "\<exists>x \<in> set (az_scope_grants db'). sg_id x = ag_id grant' \<and> sg_org_id x = t \<and> sg_derived_from x = nilIfEmpty (ag_derived_from grant)"
proof -
  obtain kind path x where r: "subjectKindColumn (ag_subject_kind grant) = Inr kind"
    "ag_derived_from grant = [] \<Longrightarrow> requireNotDerivedRoleOrSolutionRoot (TenantTx t) grant db = Inr ()" "node_at (TenantTx t) path db"
    and u: "upsert_grant env (TenantTx t) (granted_row env grant kind path) db = Inr (x, db')"
    and grant': "grant' = grant\<lparr>ag_id := sg_id x, ag_created_at := Some (sg_created_at x)\<rparr>"
    using store_GrantScope_Inr [OF g] by metis
  let ?row = "granted_row env grant kind path"
  have able: "grantable t ?row db"
    using caused hand_grantable_guard r(2) by (auto simp: grantable_def granted_row_def nilIfEmpty_def)
  have kind: "sg_subject_kind ?row \<in> stored_kinds" using subjectKindColumn_stored [OF r(1)] by (simp add: granted_row_def)
  have place: "placed_in t (sg_scope_path ?row) db" using r(3) by (simp add: node_at_placed granted_row_def)
  from u show "access_changes (Some t) db db'"
  proof (cases rule: upsert_grant_Inr)
    case (refreshed old)
    then show ?thesis using access_change.grant_refreshed [where w = "Some t" and t = t and row = ?row and db = db] by (simp add: changes_single)
  next
    case added
    then show ?thesis
      using access_change.grant_added [where w = "Some t" and t = t and g = ?row and env = env] able kind place by (simp add: changes_single)
  qed
  from u show "\<exists>x \<in> set (az_scope_grants db'). sg_id x = ag_id grant' \<and> sg_org_id x = t \<and> sg_derived_from x = nilIfEmpty (ag_derived_from grant)"
  proof (cases rule: upsert_grant_Inr)
    case (refreshed old)
    have old: "old \<in> set (az_scope_grants db)" "same_grant ?row old" using select_first_Some [OF refreshed(1)] by auto
    then have "refresh_grant ?row old \<in> set (az_scope_grants db')" by (auto simp: refreshed(5) set_update_where)
    then show ?thesis
      using refreshed(2,3,4) old(2) by (intro bexI [of _ "refresh_grant ?row old"]) (auto simp: grant' refresh_grant_def same_grant_def granted_row_def)
  qed (auto simp: grant' granted_row_def)
qed

lemma changes_grantScopeTx:
  assumes g: "grantScopeTx env k (TenantTx t) actor req cause db = Inr (grant', db')"
    and caused: "cause \<noteq> [] \<Longrightarrow> hand_cause t cause db \<and> derived_here t (ag_role_id req) db"
  shows "access_changes (Some t) db db'"
    "\<exists>x \<in> set (az_scope_grants db'). sg_id x = ag_id grant' \<and> sg_org_id x = t \<and> sg_derived_from x = nilIfEmpty cause"
proof -
  obtain db1 db2 where g1: "store_GrantScope env (TenantTx t)
      (req\<lparr>ag_id := ax_new_id env k, ag_granted_by := actor, ag_derived_from := cause, ag_created_at := None\<rparr>) db = Inr (grant', db1)"
    and g2: "publishLifecycleEvent env ''saas.scope.granted'' (ag_org_id req) (ag_scope_path req) actor
         [(''scope_grant_id'', ag_id grant'), (''role_id'', ag_role_id req), (''subject_id'', ag_subject_id req), (''scope_path'', ag_scope_path req)] db1 = Inr db2"
    and g3: "access_emitTx env actor ''saas.scope.granted'' ''scope_grant'' (ag_id grant') (ag_org_id req)
         [(''role_id'', ag_role_id req), (''subject_id'', ag_subject_id req), (''scope_path'', ag_scope_path req)] db2 = Inr db'"
    using g by (auto simp: grantScopeTx_def rbind_eq_Inr Let_def)
  note one = changes_store_GrantScope [OF g1, simplified]
  have "access_changes (Some t) db db1" by (rule one(1)) (use caused in simp_all)
  then show "access_changes (Some t) db db'" using changes_published [OF g2] changes_audited [OF g3] by (meson rtranclp_trans)
  have "\<exists>x \<in> set (az_scope_grants db1). sg_id x = ag_id grant' \<and> sg_org_id x = t \<and> sg_derived_from x = nilIfEmpty cause"
    by (rule one(2)) (use caused in simp_all)
  moreover have "az_scope_grants db' = az_scope_grants db1"
    using publishLifecycleEvent_Inr [OF g2] access_emitTx_Inr [OF g3] by auto
  ultimately show "\<exists>x \<in> set (az_scope_grants db'). sg_id x = ag_id grant' \<and> sg_org_id x = t \<and> sg_derived_from x = nilIfEmpty cause" by simp
qed

lemma GrantScope_changes: "access_changes (Some (ag_org_id req)) db (snd (GrantScope env actor req db))"
  unfolding GrantScope_def by (rule changes_WithOrgTx) (use changes_grantScopeTx(1) in blast)

lemma changes_store_RevokeScope:
  assumes "store_RevokeScope s org subject kind path role db = Inr db'"
  shows "access_changes (Some org) db db'"
proof -
  obtain column p where "db' = db\<lparr>az_scope_grants :=
       delete_grants (\<lambda>g. in_tenant s (sg_org_id g) \<and> named_grant org subject column p role g) (az_scope_grants db)\<rparr>"
    using assms by (auto simp: store_RevokeScope_def rbind_eq_Inr)
  then show ?thesis
    using access_change.grants_deleted [where t = org and w = "Some org" and
        p = "\<lambda>g. in_tenant s (sg_org_id g) \<and> named_grant org subject column p role g"]
    by (simp add: changes_single named_grant_def)
qed

lemma changes_revokeScopeApply:
  assumes "revokeScopeApply env s actor org subject kind path role db = Inr db'"
  shows "access_changes (Some org) db db'"
  using assms changes_store_RevokeScope changes_published changes_audited
  by (auto simp: revokeScopeApply_def rbind_eq_Inr) (meson rtranclp_trans)

lemma RevokeScope_changes: "access_changes (Some org) db (snd (RevokeScope env actor org subject kind path role db))"
  unfolding RevokeScope_def narrow_def
  by (rule changes_WithControlPlane) (auto simp: rbind_eq_Inr dest: changes_revokeScopeApply)

section \<open>Shares\<close>

lemma changes_store_ShareRecord:
  assumes "store_ShareRecord env (TenantTx t) share db = Inr (share', db')"
  shows "access_changes (Some t) db db'"
proof -
  obtain kind row x where k: "subjectKindColumn (ah_subject_kind share) = Inr kind" "requireNotDerivedRole (TenantTx t) (ah_role_id share) db = Inr ()"
    and u: "upsert_share env (TenantTx t) row db = Inr (x, db')" and row: "sh_subject_kind row = kind" "sh_role_id row = ah_role_id share"
    using assms by (auto simp: store_ShareRecord_def rbind_eq_Inr)
  have f: "refresh_share row = (\<lambda>h. h\<lparr>sh_granted_by := sh_granted_by row, sh_expires_at := sh_expires_at row\<rparr>)"
    by (simp add: refresh_share_def fun_eq_iff)
  have org: "sh_org_id row = t" using u by (auto simp: upsert_share_def split: if_splits)
  have kind: "sh_subject_kind row \<in> stored_kinds" "plain_role (TenantTx t) (sh_role_id row) db"
    using subjectKindColumn_stored [OF k(1)] requireNotDerivedRole_plain [OF k(2)] row by simp_all
  show ?thesis
  proof (cases "select_first (same_share row) (az_record_shares db)")
    case None
    then have "sh_id row \<notin> sh_id ` set (az_record_shares db)" "db' = db\<lparr>az_record_shares := az_record_shares db @ [row]\<rparr>"
      using u by (auto simp: upsert_share_def split: if_splits)
    then show ?thesis using access_change.share_added [where w = "Some t" and t = t and h = row] None org kind by (simp add: changes_single)
  next
    case (Some old)
    then have "db' = db\<lparr>az_record_shares := update_where (same_share row) (refresh_share row) (az_record_shares db)\<rparr>"
      using u by (auto simp: upsert_share_def f split: if_splits)
    then show ?thesis using access_change.share_refreshed [where w = "Some t" and t = t and row = row] org by (simp add: changes_single)
  qed
qed

lemma ShareRecord_changes: "access_changes (Some (canonical_org env (ah_org_id req))) db (snd (ShareRecord env actor req db))"
proof (cases "canonicalSubjectTenancyIDs env (ah_org_id req) (ah_subject_id req)")
  case (Inr p)
  obtain o' u where p: "p = (o', u)" by (cases p)
  show ?thesis
  proof (cases "o' = []")
    case True
    then show ?thesis using Inr p by (simp add: ShareRecord_def Let_def WithOrgTx_def)
  next
    case False
    have parsed: "ParseID env (ah_org_id req) = Some o'"
      using Inr by (auto simp: p canonicalSubjectTenancyIDs_def split: option.splits)
    show ?thesis
      unfolding canonical_org_def parsed option.case ShareRecord_def Inr p sum.case prod.case Let_def
      by (rule changes_WithOrgTx)
        (auto simp: rbind_eq_Inr dest!: changes_store_ShareRecord intro: rtranclp_trans [OF _ changes_audited])
  qed
qed (simp add: ShareRecord_def)

lemma RevokeShare_changes: "access_changes (Some org) db (snd (RevokeShare env actor org rtype rid subject kind role db))"
proof -
  have "access_changes (Some org) db db'" if r: "store_RevokeShare s org rtype rid subject kind role db = Inr db'" for s db'
  proof -
    obtain column where "db' = db\<lparr>az_record_shares := filter (\<lambda>h. \<not> (in_tenant s (sh_org_id h) \<and> sh_org_id h = org \<and> sh_resource_type h = rtype \<and>
        sh_resource_id h = rid \<and> sh_subject_id h = subject \<and> sh_subject_kind h = column \<and> sh_role_id h = role)) (az_record_shares db)\<rparr>"
      using r by (auto simp: store_RevokeShare_def rbind_eq_Inr)
    then show ?thesis
      by (simp only:) (rule changes_single, rule access_change.shares_deleted [where t = org], simp_all)
  qed
  then show ?thesis
    unfolding RevokeShare_def narrow_def
    by (intro changes_WithControlPlane) (auto simp: rbind_eq_Inr intro: rtranclp_trans [OF _ changes_audited])
qed

lemma PlaceRecordNode_changes: "access_changes (Some org) db (snd (WithOrgTx org (\<lambda>s. store_PlaceRecordNode env s node) db))"
  by (rule changes_WithOrgTx)
    (auto simp: store_PlaceRecordNode_def split: if_splits option.splits dest: changes_store_RegisterScopeNode)

lemma GetOrCreateCollectionNode_changes:
  "access_changes (Some org) db (snd (WithOrgTx org (\<lambda>s. store_GetOrCreateCollectionNode env s node) db))"
  by (rule changes_WithOrgTx)
    (auto simp: store_GetOrCreateCollectionNode_def rbind_eq_Inr split: list.splits dest: changes_store_RegisterScopeNode)

section \<open>Carried access\<close>

definition derived_owned :: "access_db \<Rightarrow> bool" where
  "derived_owned db \<longleftrightarrow> (\<forall>r \<in> set (az_roles db). rl_derived_from r \<noteq> None \<longrightarrow> rl_org_id r \<noteq> None)"

lemma derived_owned_change: "access_change w db db' \<Longrightarrow> derived_owned db \<Longrightarrow> derived_owned db'"
proof (induction rule: access_change.induct)
  case (role_described db role description)
  then show ?case by (auto simp: derived_owned_def set_role_description_def set_update_where)
qed (auto simp: derived_owned_def delete_role_row_def)

lemma derived_owned_changes: "access_changes w db db' \<Longrightarrow> derived_owned db \<Longrightarrow> derived_owned db'"
  by (induction rule: rtranclp_induct) (auto intro: derived_owned_change)

lemma changes_ensure_role_row:
  assumes e: "ensure_role_row env k (TenantTx t) role db = Inr (i, db')" and org: "dr_org_id role = t" "dr_derived_from role \<noteq> []"
    and owned: "derived_owned db"
  shows "access_changes (Some t) db db'" "\<exists>r \<in> set (az_roles db'). rl_id r = i \<and> rl_org_id r = Some t \<and> rl_derived_from r = Some (dr_derived_from role)"
    "az_scope_grants db' = az_scope_grants db"
proof -
  let ?found = "select_first (\<lambda>r. rl_derived_from r = Some (dr_derived_from role)) (visible_roles (TenantTx t) db)"
  have "access_changes (Some t) db db' \<and> (\<exists>r \<in> set (az_roles db'). rl_id r = i \<and> rl_org_id r = Some t \<and> rl_derived_from r = Some (dr_derived_from role)) \<and>
      az_scope_grants db' = az_scope_grants db"
  proof (cases ?found)
    case None
    let ?row = "\<lparr>rl_id = ax_new_id env k, rl_name = dr_name role, rl_description = Some (dr_description role), rl_built_in = False,
               rl_org_id = Some (dr_org_id role), rl_scope = None, rl_catalog_managed = False, rl_derived_from = Some (dr_derived_from role)\<rparr>"
    have fresh: "\<forall>old \<in> set (az_roles db). rl_derived_from old \<noteq> rl_derived_from ?row"
      and ins: "insert_role_row env (TenantTx t) ?row db = Inr db'" and i: "i = ax_new_id env k"
      using e None by (auto simp: ensure_role_row_def rbind_eq_Inr split: if_splits)
    note c = changes_insert_role_row [OF ins, of "Some t"]
    have "access_changes (Some t) db db'" by (rule c(1)) (use org fresh in simp_all)
    moreover have "db' = db\<lparr>az_roles := az_roles db @ [?row]\<rparr>" by (rule c(2)) (use org fresh in simp_all)
    ultimately show ?thesis using org(1) i by simp
  next
    case (Some r)
    note r = select_first_Some [OF Some]
    have here: "r \<in> set (az_roles db)" "rl_org_id r = Some t"
      using r owned by (auto simp: visible_roles_def global_or_in_tenant_def derived_owned_def split: option.splits)
    have i: "i = rl_id r" and db': "db' = (if text_of (rl_description r) \<noteq> dr_description role then set_role_description (rl_id r) (dr_description role) db else db)"
      using e Some by (auto simp: ensure_role_row_def)
    have "access_changes (Some t) db db'"
      unfolding db' using here by (auto intro!: changes_single access_change.role_described)
    moreover have "\<exists>x \<in> set (az_roles db'). rl_id x = i \<and> rl_org_id x = Some t \<and> rl_derived_from x = Some (dr_derived_from role)"
    proof (cases "text_of (rl_description r) \<noteq> dr_description role")
      case True
      then have "r\<lparr>rl_description := Some (dr_description role)\<rparr> \<in> set (az_roles db')"
        using here by (force simp: db' set_role_description_def set_update_where)
      then show ?thesis using here r i by (intro bexI) auto
    qed (use here r i db' in auto)
    ultimately show ?thesis by (simp add: db' set_role_description_def)
  qed
  then show "access_changes (Some t) db db'" "\<exists>r \<in> set (az_roles db'). rl_id r = i \<and> rl_org_id r = Some t \<and> rl_derived_from r = Some (dr_derived_from role)"
    "az_scope_grants db' = az_scope_grants db" by blast+
qed

lemma reconcile_distinct:
  assumes "distinct (az_role_permissions db)" "role \<in> rl_id ` set (visible_roles s db)"
  shows "distinct (az_role_permissions (reconcile_permissions s role perms db))"
proof -
  have "rp \<in> set (visible_permissions s db)" if "rp \<in> set (az_role_permissions db)" "fst rp = role" for rp
    using that assms(2) by (cases s) (auto simp: visible_permissions_def)
  then show ?thesis
    using assms(1) by (force simp: reconcile_permissions_def Let_def distinct_map inj_on_def image_iff)
qed

lemma changes_reconcile:
  assumes "\<exists>r \<in> set (az_roles db). rl_id r = role \<and> rl_org_id r = Some t"
  shows "access_changes (Some t) db (reconcile_permissions (TenantTx t) role perms db)"
proof -
  have vis: "role \<in> rl_id ` set (visible_roles (TenantTx t) db)"
    using assms by (force simp: visible_roles_def global_or_in_tenant_def)
  have shape: "reconcile_permissions (TenantTx t) role perms db =
      db\<lparr>az_role_permissions := az_role_permissions (reconcile_permissions (TenantTx t) role perms db)\<rparr>"
    by (simp add: reconcile_permissions_def Let_def)
  have "filter (\<lambda>rp. fst rp \<noteq> role) (az_role_permissions (reconcile_permissions (TenantTx t) role perms db)) =
      filter (\<lambda>rp. fst rp \<noteq> role) (az_role_permissions db)"
  proof -
    have "filter (\<lambda>rp. fst rp \<noteq> role) (filter q rps) = filter (\<lambda>rp. fst rp \<noteq> role) rps"
      if "\<And>rp. fst rp \<noteq> role \<Longrightarrow> q rp" for q and rps :: "(uuid \<times> permission) list"
      using that by (induction rps) auto
    then show ?thesis by (simp add: reconcile_permissions_def Let_def del: filter_filter)
  qed
  then have "access_change (Some t) db (db\<lparr>az_role_permissions := az_role_permissions (reconcile_permissions (TenantTx t) role perms db)\<rparr>)"
    using access_change.permissions_set [OF assms _ reconcile_distinct [OF _ vis]] by blast
  then show ?thesis using shape by (metis changes_single)
qed

lemma changes_EnsureDerivedRole:
  assumes e: "EnsureDerivedRole env k (TenantTx t) role db = Inr (i, db')" and org: "dr_org_id role = t" and owned: "derived_owned db"
  shows "access_changes (Some t) db db'" "derived_here t i db'" "az_scope_grants db' = az_scope_grants db"
proof -
  obtain db1 where e1: "ensure_role_row env k (TenantTx t) role db = Inr (i, db1)" "dr_derived_from role \<noteq> []"
    and db': "db' = reconcile_permissions (TenantTx t) i (dr_permissions role) db1"
    using e by (auto simp: EnsureDerivedRole_def rbind_eq_Inr split: if_splits)
  note c = changes_ensure_role_row [OF e1(1) org e1(2) owned]
  have "access_changes (Some t) db1 db'" unfolding db' using c(2) by (intro changes_reconcile) blast
  then show "access_changes (Some t) db db'" using c(1) by (meson rtranclp_trans)
  show "derived_here t i db'" "az_scope_grants db' = az_scope_grants db"
    using c(2,3) by (auto simp: derived_here_def db' reconcile_permissions_def Let_def)
qed

lemma hand_cause_kept:
  assumes g: "grantScopeTx env k s actor req cause' db = Inr (grant', db')" and c: "hand_cause t cause db"
  shows "hand_cause t cause db'"
proof -
  obtain grant db1 where g1: "store_GrantScope env s grant db = Inr (grant', db1)" and same: "az_scope_grants db' = az_scope_grants db1"
    using g by (auto simp: grantScopeTx_def rbind_eq_Inr Let_def dest!: publishLifecycleEvent_Inr access_emitTx_Inr)
  obtain row x where u: "upsert_grant env s row db = Inr (x, db1)" using store_GrantScope_Inr [OF g1] by metis
  obtain y where y: "y \<in> set (az_scope_grants db)" "sg_id y = cause" "sg_org_id y = t" "sg_derived_from y = None"
    using c by (auto simp: hand_cause_def)
  from u show ?thesis
  proof (cases rule: upsert_grant_Inr)
    case (refreshed old)
    then have "(if same_grant row y then refresh_grant row y else y) \<in> set (az_scope_grants db')"
      using y(1) by (simp add: same set_update_where)
    then show ?thesis unfolding hand_cause_def using y by (intro bexI) (auto simp: refresh_grant_def)
  qed (use y in \<open>auto simp: hand_cause_def same\<close>)
qed

lemma carry_cases:
  assumes "carryModuleAccessTx env k s actor org installation team describe chosen cause (plan # plans) db = Inr ((carried, unmet), db')"
  obtains (skipped) unmet' where
      "carried_permissions (declaredPairs (cp_declared plan)) (RolePermittedScopes s chosen (declaredPairs (cp_declared plan)) db) = [reach_permission]"
      "declaredPairs (cp_declared plan) \<noteq> []"
      "carryModuleAccessTx env (Suc (Suc k)) s actor org installation team describe chosen cause plans db = Inr ((carried, unmet'), db')"
      "unmet = \<lparr>rc_kind = CARRIED_MODULE_ACCESS_NOT_DERIVED, rc_subject = cp_audience plan\<rparr> # unmet'"
  | (carried) path role db1 grant db2 carried' perms where
      "perms = carried_permissions (declaredPairs (cp_declared plan)) (RolePermittedScopes s chosen (declaredPairs (cp_declared plan)) db)"
      "InstallationRootScopePath s org (cp_installation_id plan) db = Inr path"
      "EnsureDerivedRole env k s (carried_role org installation (cp_audience plan) chosen (describe (cp_audience plan)) perms) db = Inr (role, db1)"
      "grantScopeTx env (Suc k) s actor (team_request org team path role) cause db1 = Inr (grant, db2)"
      "carryModuleAccessTx env (Suc (Suc k)) s actor org installation team describe chosen cause plans db2 = Inr ((carried', unmet), db')"
      "carried = \<lparr>cm_audience = cp_audience plan, cm_installation_id = cp_installation_id plan, cm_scope_path = ag_scope_path grant,
         cm_role_id = role, cm_scopes = map permission_text perms\<rparr> # carried'"
proof -
  let ?pairs = "declaredPairs (cp_declared plan)"
  let ?perms = "carried_permissions ?pairs (RolePermittedScopes s chosen ?pairs db)"
  show thesis
  proof (cases "length ?perms = 1 \<and> length ?pairs > 0")
    case True
    have "?perms = [reach_permission]" using True by (simp add: carried_permissions_def)
    then show thesis using assms True skipped by (auto simp: Let_def rbind_eq_Inr)
  next
    case False
    then show thesis
      using assms carried [OF refl]
      by (simp only: carryModuleAccessTx.simps Let_def if_False rbind_eq_Inr) (auto simp: rbind_eq_Inr)
  qed
qed

lemma team_request_simps [simp]:
  "ag_org_id (team_request org team path role) = org" "ag_subject_id (team_request org team path role) = team"
  "ag_subject_kind (team_request org team path role) = SUBJECT_KIND_TEAM" "ag_scope_path (team_request org team path role) = path"
  "ag_role_id (team_request org team path role) = role" "ag_expires_at (team_request org team path role) = None"
  by (simp_all add: team_request_def)

lemma carried_role_simps [simp]:
  "dr_org_id (carried_role org installation audience chosen description perms) = org"
  "dr_derived_from (carried_role org installation audience chosen description perms) = carried_provenance installation audience chosen"
  "dr_permissions (carried_role org installation audience chosen description perms) = perms"
  by (simp_all add: carried_role_def Let_def)

lemma changes_carryModuleAccessTx:
  assumes "carryModuleAccessTx env k (TenantTx t) actor t installation team describe chosen cause plans db = Inr ((carried, unmet), db')"
    and "derived_owned db" "cause \<noteq> [] \<Longrightarrow> hand_cause t cause db"
  shows "access_changes (Some t) db db'"
  using assms
proof (induction plans arbitrary: k db carried unmet)
  case (Cons plan plans)
  from Cons.prems(1) show ?case
  proof (cases rule: carry_cases)
    case (skipped unmet')
    then show ?thesis using Cons.IH Cons.prems(2,3) by blast
  next
    case (carried path role db1 grant db2 carried' perms)
    note e = changes_EnsureDerivedRole [OF carried(3) _ Cons.prems(2), simplified]
    have cause1: "hand_cause t cause db1" if "cause \<noteq> []" using Cons.prems(3) [OF that] e(3) by (simp add: hand_cause_def)
    have g: "access_changes (Some t) db1 db2"
      by (rule changes_grantScopeTx(1) [OF carried(4)]) (use cause1 e(2) in simp_all)
    have "derived_owned db2" using derived_owned_changes [OF rtranclp_trans [OF e(1) g] Cons.prems(2)] .
    moreover have "hand_cause t cause db2" if "cause \<noteq> []" using hand_cause_kept [OF carried(4) cause1 [OF that]] .
    ultimately have "access_changes (Some t) db2 db'" using Cons.IH [OF carried(5)] by blast
    then show ?thesis using e(1) g by (meson rtranclp_trans)
  qed
qed simp

lemma expose_installation_Inr:
  assumes "expose_installation env actor org installation team role describe plans unmet s db = Inr (out, db')"
  obtains path r grant db1 carried carry_unmet where "InstallationRootScopePath s org installation db = Inr path" "role \<noteq> [] \<Longrightarrow> r = role"
    "RolePermits s r ResourceTypeSolution ActionUseSolution db" "grantScopeTx env 0 s actor (team_request org team path r) [] db = Inr (grant, db1)"
    "carryModuleAccessTx env 1 s actor org installation team describe r (ag_id grant) plans db1 = Inr ((carried, carry_unmet), db')"
    "out = \<lparr>ig_grant = grant, ig_carried = carried, ig_unmet = unmet @ carry_unmet\<rparr>"
  using assms by (auto simp: expose_installation_def rbind_eq_Inr split: if_splits)

lemma changes_expose_installation:
  assumes e: "expose_installation env actor t installation team role describe plans unmet (TenantTx t) db = Inr (out, db')" and owned: "derived_owned db"
  shows "access_changes (Some t) db db'"
proof -
  obtain path r grant db1 carried carry_unmet where
    g: "grantScopeTx env 0 (TenantTx t) actor (team_request t team path r) [] db = Inr (grant, db1)"
    and c: "carryModuleAccessTx env 1 (TenantTx t) actor t installation team describe r (ag_id grant) plans db1 = Inr ((carried, carry_unmet), db')"
    using expose_installation_Inr [OF e] by metis
  note g' = changes_grantScopeTx [OF g, simplified]
  have "hand_cause t (ag_id grant) db1" using g'(2) by (auto simp: hand_cause_def nilIfEmpty_def)
  then show ?thesis
    using changes_carryModuleAccessTx [OF c derived_owned_changes [OF g'(1) owned]] g'(1) by (meson rtranclp_trans)
qed

lemma GrantInstallationToTeam_changes:
  assumes "derived_owned db"
  shows "access_changes (Some org) db (snd (GrantInstallationToTeam env listing exposure_role describe actor org installation team role db))"
proof -
  have "access_changes (Some org) db (snd (WithOrgTx org (expose_installation env actor org installation team r describe plans unmet) db))" for r plans unmet
    by (rule changes_WithOrgTx) (use changes_expose_installation [OF _ assms] in blast)
  then show ?thesis by (auto simp: GrantInstallationToTeam_def Let_def split: sum.splits prod.splits)
qed

lemma changes_revoke_each: "revoke_each env s actor org gs db = Inr db' \<Longrightarrow> access_changes (Some org) db db'"
proof (induction gs arbitrary: db)
  case (Cons g gs)
  then show ?case using changes_revokeScopeApply by (auto simp: rbind_eq_Inr) (meson rtranclp_trans)
qed simp

lemma find_cause_reads: "snd (WithOrgTx org (find_cause env org installation team role) db) = db"
  by (auto simp: WithOrgTx_def Within_def find_cause_def rbind_def Let_def split: sum.splits)

lemma revoke_with_carried_changes: "access_changes (Some org) db (snd (revoke_with_carried env actor org team role path cause db))"
  unfolding revoke_with_carried_def narrow_def
proof (rule changes_WithControlPlane)
  fix x db'
  assume "rbind (if cause = [] then Inr db else revokeDerivedGrantsTx env ControlPlaneTx actor org cause [] db) (\<lambda>db.
        rbind (revokeScopeApply env ControlPlaneTx actor org team SUBJECT_KIND_TEAM path role db) (\<lambda>db. Inr ((), db))) = Inr (x, db')"
  then obtain db2 where "(if cause = [] then Inr db else revokeDerivedGrantsTx env ControlPlaneTx actor org cause [] db) = Inr db2"
    and last_step: "revokeScopeApply env ControlPlaneTx actor org team SUBJECT_KIND_TEAM path role db2 = Inr db'"
    by (auto simp: rbind_eq_Inr)
  then have "access_changes (Some org) db db2"
    by (auto simp: revokeDerivedGrantsTx_def rbind_eq_Inr split: if_splits dest: changes_revoke_each)
  then show "access_changes (Some org) db db'" using changes_revokeScopeApply [OF last_step] by (meson rtranclp_trans)
qed

end
