(* ===== verification/Access_Invariants.thy ===== *)
theory Access_Invariants
  imports Access_Changes
begin

text \<open>
  The invariant of the authorization tables and that every change keeps it: the scope tree is
  connected and its keys are unique, a grant stands on a registered node with a role that exists,
  a grant with a cause goes with the grant that caused it, and a role derived for one solution is
  held only through a cause.
\<close>

section \<open>The invariant\<close>

definition nodes_inv :: "scope_node list \<Rightarrow> bool" where
  "nodes_inv ns \<longleftrightarrow>
     distinct (map sn_id ns) \<and> distinct (map (\<lambda>n. (sn_org_id n, sn_scope_path n)) ns) \<and>
     (\<forall>n \<in> set ns. sn_scope_path n \<noteq> [] \<and> list_all scope_label (sn_scope_path n) \<and>
        list_all ltree_label (sn_scope_path n) \<and> length (sn_scope_path n) \<le> 65535 \<and>
        (sn_resource_type n = None \<longleftrightarrow> sn_resource_id n = None)) \<and>
     (\<forall>n \<in> set ns. \<forall>m \<in> set ns. same_resource n m \<longrightarrow> n = m) \<and>
     (\<forall>n \<in> set ns. butlast (sn_scope_path n) \<noteq> [] \<longrightarrow>
        (\<exists>m \<in> set ns. sn_org_id m = sn_org_id n \<and> sn_scope_path m = butlast (sn_scope_path n)))"

definition roles_inv :: "role_row list \<Rightarrow> bool" where
  "roles_inv rs \<longleftrightarrow>
     distinct (map rl_id rs) \<and> (\<forall>r \<in> set rs. rl_derived_from r \<noteq> Some []) \<and>
     (\<forall>r \<in> set rs. rl_derived_from r \<noteq> None \<longrightarrow> rl_org_id r \<noteq> None) \<and>
     (\<forall>r \<in> set rs. \<forall>r' \<in> set rs. rl_derived_from r \<noteq> None \<longrightarrow> rl_derived_from r = rl_derived_from r' \<longrightarrow> r = r')"

definition is_derived :: "role_row list \<Rightarrow> uuid \<Rightarrow> bool" where
  "is_derived rs role \<longleftrightarrow> (\<exists>r \<in> set rs. rl_id r = role \<and> rl_derived_from r \<noteq> None)"

text \<open>Derived from what a solution declares, as opposed to being a role of the solution itself.\<close>

definition carried_only :: "role_row list \<Rightarrow> uuid \<Rightarrow> bool" where
  "carried_only rs role \<longleftrightarrow> (\<exists>r \<in> set rs. rl_id r = role \<and> (\<exists>p. rl_derived_from r = Some p \<and> SolutionRoleOrigin p = None))"

definition grant_key :: "scope_grant \<Rightarrow> uuid \<times> uuid \<times> string \<times> ltree \<times> uuid" where
  "grant_key g = (sg_org_id g, sg_subject_id g, sg_subject_kind g, sg_scope_path g, sg_role_id g)"

definition share_key :: "record_share \<Rightarrow> uuid \<times> string \<times> string \<times> uuid \<times> string \<times> uuid" where
  "share_key h = (sh_org_id h, sh_resource_type h, sh_resource_id h, sh_subject_id h, sh_subject_kind h, sh_role_id h)"

definition cause_inv :: "role_row list \<Rightarrow> scope_grant list \<Rightarrow> scope_grant \<Rightarrow> bool" where
  "cause_inv rs gs g =
     (case sg_derived_from g of
        None \<Rightarrow> \<not> carried_only rs (sg_role_id g)
      | Some c \<Rightarrow> is_derived rs (sg_role_id g) \<and>
          (\<exists>cause \<in> set gs. sg_id cause = c \<and> sg_org_id cause = sg_org_id g \<and> sg_derived_from cause = None))"

definition grants_inv :: "scope_node list \<Rightarrow> role_row list \<Rightarrow> scope_grant list \<Rightarrow> bool" where
  "grants_inv ns rs gs \<longleftrightarrow>
     distinct (map sg_id gs) \<and> distinct (map grant_key gs) \<and>
     (\<forall>g \<in> set gs. sg_subject_kind g \<in> stored_kinds \<and> sg_role_id g \<in> rl_id ` set rs \<and>
        (\<exists>n \<in> set ns. sn_org_id n = sg_org_id g \<and> sn_scope_path n = sg_scope_path g) \<and> cause_inv rs gs g)"

definition shares_inv :: "role_row list \<Rightarrow> record_share list \<Rightarrow> bool" where
  "shares_inv rs hs \<longleftrightarrow>
     distinct (map sh_id hs) \<and> distinct (map share_key hs) \<and>
     (\<forall>h \<in> set hs. sh_subject_kind h \<in> stored_kinds \<and> sh_role_id h \<in> rl_id ` set rs \<and> \<not> is_derived rs (sh_role_id h))"

definition assignments_inv :: "role_row list \<Rightarrow> role_assignment list \<Rightarrow> bool" where
  "assignments_inv rs as \<longleftrightarrow>
     distinct (map ra_id as) \<and> (\<forall>a \<in> set as. ra_role_id a \<in> rl_id ` set rs \<and> \<not> is_derived rs (ra_role_id a))"

definition access_wf :: "access_db \<Rightarrow> bool" where
  "access_wf db \<longleftrightarrow>
     nodes_inv (az_scope_nodes db) \<and> roles_inv (az_roles db) \<and> distinct (az_role_permissions db) \<and>
     grants_inv (az_scope_nodes db) (az_roles db) (az_scope_grants db) \<and>
     shares_inv (az_roles db) (az_record_shares db) \<and> assignments_inv (az_roles db) (az_role_assignments db)"

section \<open>Deleting grants\<close>

lemma caused_by_iff: "caused_by dead g \<longleftrightarrow> (\<exists>c \<in> dead. sg_derived_from g = Some c)"
  by (auto simp: caused_by_def split: option.splits)

text \<open>Causes have no cause of their own, so the cascade ends after one round.\<close>

lemma cascade_one_round:
  assumes "\<forall>g \<in> set gs. sg_derived_from g \<noteq> None \<longrightarrow> sg_derived_from g \<notin> Some ` sg_id ` {h \<in> set gs. sg_derived_from h \<noteq> None}"
  shows "cascade_grants dead gs = filter (\<lambda>g. \<not> caused_by dead g) gs"
proof -
  let ?gone = "filter (caused_by dead) gs"
  have "filter (caused_by (sg_id ` set ?gone)) (filter (\<lambda>g. \<not> caused_by dead g) gs) = []"
    using assms by (auto simp: filter_empty_conv caused_by_iff)
  then have "cascade_grants (sg_id ` set ?gone) (filter (\<lambda>g. \<not> caused_by dead g) gs) = filter (\<lambda>g. \<not> caused_by dead g) gs"
    by (subst cascade_grants.simps) (simp only: Let_def refl if_True)
  moreover have "filter (\<lambda>g. \<not> caused_by dead g) gs = gs" if "?gone = []"
    using that by (simp add: filter_empty_conv)
  ultimately show ?thesis by (subst cascade_grants.simps) (simp add: Let_def)
qed

lemma cause_is_hand:
  assumes "grants_inv ns rs gs" "g \<in> set gs" "h \<in> set gs" "sg_derived_from g = Some (sg_id h)"
  shows "sg_derived_from h = None" "sg_org_id h = sg_org_id g"
proof -
  obtain c where "c \<in> set gs" "sg_id c = sg_id h" "sg_org_id c = sg_org_id g" "sg_derived_from c = None"
    using assms(1,2,4) by (auto simp: grants_inv_def cause_inv_def split: option.splits)
  moreover then have "c = h" using assms(1,3) by (auto simp: grants_inv_def distinct_map inj_on_def)
  ultimately show "sg_derived_from h = None" "sg_org_id h = sg_org_id g" by auto
qed

lemma delete_grants_inv:
  assumes "grants_inv ns rs gs"
  shows "delete_grants p gs = filter (\<lambda>g. \<not> p g \<and> \<not> caused_by (sg_id ` {h \<in> set gs. p h}) g) gs"
proof -
  have "sg_derived_from g \<notin> Some ` sg_id ` {h \<in> set (filter (\<lambda>g. \<not> p g) gs). sg_derived_from h \<noteq> None}"
    if "g \<in> set (filter (\<lambda>g. \<not> p g) gs)" for g
    using cause_is_hand(1) [OF assms, of g] that by auto
  then show ?thesis
    unfolding delete_grants_def by (subst cascade_one_round) (auto simp: conj_commute)
qed

lemma grants_inv_filter:
  assumes inv: "grants_inv ns rs gs" and keeps: "\<And>g c. \<lbrakk>g \<in> set gs; q g; c \<in> set gs; sg_derived_from g = Some (sg_id c)\<rbrakk> \<Longrightarrow> q c"
  shows "grants_inv ns rs (filter q gs)"
proof -
  have "cause_inv rs (filter q gs) g" if g: "g \<in> set gs" "q g" for g
  proof (cases "sg_derived_from g")
    case (Some c)
    then obtain cause where "cause \<in> set gs" "sg_id cause = c" "sg_org_id cause = sg_org_id g" "sg_derived_from cause = None"
        "is_derived rs (sg_role_id g)"
      using inv g by (auto simp: grants_inv_def cause_inv_def split: option.splits)
    then show ?thesis using keeps [OF g] Some by (auto simp: cause_inv_def)
  next
    case None
    then show ?thesis using inv g by (auto simp: grants_inv_def cause_inv_def split: option.splits)
  qed
  then show ?thesis using inv by (auto simp: grants_inv_def distinct_map intro: inj_on_subset)
qed

lemma grants_inv_delete: "grants_inv ns rs gs \<Longrightarrow> grants_inv ns rs (delete_grants p gs)"
  by (simp add: delete_grants_inv) (rule grants_inv_filter, auto simp: caused_by_iff dest: cause_is_hand)

section \<open>Every change keeps it\<close>

lemma nodes_inv_added:
  assumes "nodes_inv ns" "node_admitted env s n db" "ns = az_scope_nodes db" "list_all ltree_label (sn_scope_path n)" "length (sn_scope_path n) \<le> 65535"
    and "butlast (sn_scope_path n) = [] \<or> (\<exists>m \<in> set ns. sn_org_id m = sn_org_id n \<and> sn_scope_path m = butlast (sn_scope_path n))"
  shows "nodes_inv (ns @ [n])"
proof -
  have new: "sn_id n \<notin> sn_id ` set ns" "(sn_org_id n, sn_scope_path n) \<notin> (\<lambda>n. (sn_org_id n, sn_scope_path n)) ` set ns"
    "\<forall>m \<in> set ns. \<not> same_resource m n" "\<forall>m \<in> set ns. \<not> same_resource n m"
    "sn_scope_path n \<noteq> []" "list_all scope_label (sn_scope_path n)" "sn_resource_type n = None \<longleftrightarrow> sn_resource_id n = None"
    using assms(2,3) by (auto simp: node_admitted_def same_resource_def image_iff)
  show ?thesis
    unfolding nodes_inv_def
  proof (intro conjI)
    show "distinct (map sn_id (ns @ [n]))" "distinct (map (\<lambda>n. (sn_org_id n, sn_scope_path n)) (ns @ [n]))"
      using assms(1) new(1,2) by (auto simp: nodes_inv_def)
    show "\<forall>n' \<in> set (ns @ [n]). \<forall>m \<in> set (ns @ [n]). same_resource n' m \<longrightarrow> n' = m"
      using assms(1) new(3,4) by (auto simp: nodes_inv_def)
    show "\<forall>n' \<in> set (ns @ [n]). butlast (sn_scope_path n') \<noteq> [] \<longrightarrow>
        (\<exists>m \<in> set (ns @ [n]). sn_org_id m = sn_org_id n' \<and> sn_scope_path m = butlast (sn_scope_path n'))"
      using assms(1,6) by (auto simp: nodes_inv_def)
  qed (use assms(1,4,5) new(5-) in \<open>auto simp: nodes_inv_def\<close>)
qed

lemma grants_inv_nodes: "grants_inv ns rs gs \<Longrightarrow> grants_inv (ns @ [n]) rs gs"
  by (auto simp: grants_inv_def)

lemma same_grant_key: "same_grant a b \<longleftrightarrow> grant_key a = grant_key b"
  by (auto simp: same_grant_def grant_key_def)

lemma same_share_key: "same_share a b \<longleftrightarrow> share_key a = share_key b"
  by (auto simp: same_share_def share_key_def)

lemma refresh_grant_simps [simp]:
  "sg_id (refresh_grant row g) = sg_id g" "sg_org_id (refresh_grant row g) = sg_org_id g" "grant_key (refresh_grant row g) = grant_key g"
  "sg_subject_id (refresh_grant row g) = sg_subject_id g"
  "sg_subject_kind (refresh_grant row g) = sg_subject_kind g" "sg_scope_path (refresh_grant row g) = sg_scope_path g"
  "sg_role_id (refresh_grant row g) = sg_role_id g" "sg_derived_from (refresh_grant row g) = sg_derived_from g"
  by (simp_all add: refresh_grant_def grant_key_def)

lemma refresh_share_simps [simp]:
  "sh_id (refresh_share row h) = sh_id h" "sh_org_id (refresh_share row h) = sh_org_id h" "share_key (refresh_share row h) = share_key h"
  "sh_subject_kind (refresh_share row h) = sh_subject_kind h" "sh_role_id (refresh_share row h) = sh_role_id h"
  by (simp_all add: refresh_share_def share_key_def)

lemma grants_inv_refreshed:
  assumes "grants_inv ns rs gs"
  shows "grants_inv ns rs (update_where p (refresh_grant row) gs)"
proof -
  let ?gs = "update_where p (refresh_grant row) gs"
  have keys: "map sg_id ?gs = map sg_id gs" "map grant_key ?gs = map grant_key gs" by (simp_all add: map_update_where)
  have cause: "\<exists>x \<in> set ?gs. sg_id x = sg_id c \<and> sg_org_id x = sg_org_id c \<and> sg_derived_from x = sg_derived_from c" if "c \<in> set gs" for c
    using that by (intro bexI [of _ "if p c then refresh_grant row c else c"]) (auto simp: set_update_where)
  have "cause_inv rs ?gs g" if "cause_inv rs gs g" for g
    using that cause by (auto simp: cause_inv_def split: option.splits) metis
  moreover have "cause_inv rs ?gs (refresh_grant row g) = cause_inv rs ?gs g" for g by (simp add: cause_inv_def split: option.splits)
  ultimately show ?thesis using assms keys by (auto simp: grants_inv_def set_update_where)
qed

lemma grants_inv_added:
  assumes "grants_inv ns rs gs" "sg_id g \<notin> sg_id ` set gs" "select_first (same_grant g) gs = None" "sg_subject_kind g \<in> stored_kinds"
    "sg_role_id g \<in> rl_id ` set rs" "\<exists>n \<in> set ns. sn_org_id n = sg_org_id g \<and> sn_scope_path n = sg_scope_path g" "cause_inv rs gs g"
  shows "grants_inv ns rs (gs @ [g])"
proof -
  have "grant_key g \<notin> grant_key ` set gs" using assms(3) by (auto simp: select_first_None same_grant_key)
  moreover have "cause_inv rs (gs @ [g]) x" if "cause_inv rs gs x" for x using that by (auto simp: cause_inv_def split: option.splits)
  ultimately show ?thesis using assms by (auto simp: grants_inv_def)
qed

lemma shares_inv_added:
  assumes "shares_inv rs hs" "sh_id h \<notin> sh_id ` set hs" "select_first (same_share h) hs = None" "sh_subject_kind h \<in> stored_kinds"
    "sh_role_id h \<in> rl_id ` set rs" "\<not> is_derived rs (sh_role_id h)"
  shows "shares_inv rs (hs @ [h])"
proof -
  have "share_key h \<notin> share_key ` set hs" using assms(3) by (auto simp: select_first_None same_share_key)
  then show ?thesis using assms by (auto simp: shares_inv_def)
qed

lemma shares_inv_refreshed: "shares_inv rs hs \<Longrightarrow> shares_inv rs (update_where p (refresh_share row) hs)"
  by (auto simp: shares_inv_def map_update_where set_update_where)

lemma shares_inv_filter: "shares_inv rs hs \<Longrightarrow> shares_inv rs (filter q hs)"
  by (auto simp: shares_inv_def distinct_map intro: inj_on_subset)

lemma assignments_inv_filter: "assignments_inv rs as \<Longrightarrow> assignments_inv rs (filter q as)"
  by (auto simp: assignments_inv_def distinct_map intro: inj_on_subset)

lemma role_found:
  assumes "roles_inv rs" "r \<in> set rs" "r' \<in> set rs" "rl_id r = rl_id r'"
  shows "r = r'"
  using assms by (auto simp: roles_inv_def distinct_map inj_on_def)

lemma plain_role_not_derived:
  assumes "roles_inv (az_roles db)" "plain_role s role db"
  shows "role \<in> rl_id ` set (az_roles db)" "\<not> is_derived (az_roles db) role"
proof -
  obtain r where r: "select_first (\<lambda>r. rl_id r = role) (visible_roles s db) = Some r" "text_of (rl_derived_from r) = []"
    using assms(2) by (auto simp: plain_role_def split: option.splits)
  have mem: "r \<in> set (az_roles db)" "rl_id r = role" using select_first_Some [OF r(1)] by (auto simp: visible_roles_def)
  have "rl_derived_from r \<noteq> Some []" using assms(1) mem(1) unfolding roles_inv_def by blast
  then have "rl_derived_from r = None" using r(2) by (cases "rl_derived_from r") (simp_all add: text_of_def)
  then have "rl_derived_from r' = None" if "r' \<in> set (az_roles db)" "rl_id r' = role" for r'
    using role_found [OF assms(1) mem(1) that(1)] mem(2) that(2) by simp
  then show "\<not> is_derived (az_roles db) role" by (simp add: is_derived_def)
  show "role \<in> rl_id ` set (az_roles db)" using mem by blast
qed

lemma hand_grantable_not_carried:
  assumes "roles_inv (az_roles db)" "hand_grantable t role db"
  shows "\<not> carried_only (az_roles db) role"
proof -
  obtain r where r: "select_first (\<lambda>r. rl_id r = role) (visible_roles (TenantTx t) db) = Some r"
    "text_of (rl_derived_from r) = [] \<or> SolutionRoleOrigin (text_of (rl_derived_from r)) \<noteq> None"
    using assms(2) by (auto simp: hand_grantable_def split: option.splits)
  have mem: "r \<in> set (az_roles db)" "rl_id r = role" using select_first_Some [OF r(1)] by (auto simp: visible_roles_def)
  have "\<not> (\<exists>p. rl_derived_from r = Some p \<and> SolutionRoleOrigin p = None)"
    using r(2) assms(1) mem(1) unfolding roles_inv_def by (cases "rl_derived_from r") (auto simp: text_of_def)
  then have "\<not> (\<exists>p. rl_derived_from r' = Some p \<and> SolutionRoleOrigin p = None)" if "r' \<in> set (az_roles db)" "rl_id r' = role" for r'
    using role_found [OF assms(1) mem(1) that(1)] mem(2) that(2) by simp
  then show ?thesis by (simp add: carried_only_def)
qed

text \<open>The other tables look at the id and the provenance of a role only.\<close>

definition provenance :: "role_row list \<Rightarrow> (uuid \<times> string option) list" where
  "provenance rs = map (\<lambda>r. (rl_id r, rl_derived_from r)) rs"

lemma provenance_facts:
  "is_derived rs role \<longleftrightarrow> (\<exists>p. (role, Some p) \<in> set (provenance rs))"
  "carried_only rs role \<longleftrightarrow> (\<exists>p. (role, Some p) \<in> set (provenance rs) \<and> SolutionRoleOrigin p = None)"
  "rl_id ` set rs = fst ` set (provenance rs)"
proof -
  have in_prov: "(role, p) \<in> set (provenance rs) \<longleftrightarrow> (\<exists>r \<in> set rs. rl_id r = role \<and> rl_derived_from r = p)" for p
    by (auto simp: provenance_def)
  then show "is_derived rs role \<longleftrightarrow> (\<exists>p. (role, Some p) \<in> set (provenance rs))"
    "carried_only rs role \<longleftrightarrow> (\<exists>p. (role, Some p) \<in> set (provenance rs) \<and> SolutionRoleOrigin p = None)"
    by (auto simp: is_derived_def carried_only_def)
  show "rl_id ` set rs = fst ` set (provenance rs)" by (simp add: provenance_def image_image)
qed

lemma invs_provenance:
  assumes "provenance rs = provenance rs'"
  shows "grants_inv ns rs gs = grants_inv ns rs' gs" "shares_inv rs hs = shares_inv rs' hs" "assignments_inv rs as = assignments_inv rs' as"
proof -
  have e: "is_derived rs = is_derived rs'" "carried_only rs = carried_only rs'" "rl_id ` set rs = rl_id ` set rs'"
    using assms by (simp_all add: provenance_facts fun_eq_iff)
  show "grants_inv ns rs gs = grants_inv ns rs' gs" "shares_inv rs hs = shares_inv rs' hs" "assignments_inv rs as = assignments_inv rs' as"
    by (simp_all only: grants_inv_def shares_inv_def assignments_inv_def cause_inv_def e)
qed

lemma invs_role_added:
  assumes "rl_id r \<notin> rl_id ` set rs"
  shows "grants_inv ns rs gs \<Longrightarrow> grants_inv ns (rs @ [r]) gs" "shares_inv rs hs \<Longrightarrow> shares_inv (rs @ [r]) hs"
    "assignments_inv rs as \<Longrightarrow> assignments_inv (rs @ [r]) as"
proof -
  have e: "is_derived (rs @ [r]) role = is_derived rs role" "carried_only (rs @ [r]) role = carried_only rs role" if "role \<in> rl_id ` set rs" for role
    using that assms by (auto simp: is_derived_def carried_only_def)
  have "cause_inv (rs @ [r]) gs g = cause_inv rs gs g" if "sg_role_id g \<in> rl_id ` set rs" for gs g
    using e [OF that] by (simp add: cause_inv_def split: option.splits)
  then show "grants_inv ns rs gs \<Longrightarrow> grants_inv ns (rs @ [r]) gs" by (auto simp: grants_inv_def)
  show "shares_inv rs hs \<Longrightarrow> shares_inv (rs @ [r]) hs" "assignments_inv rs as \<Longrightarrow> assignments_inv (rs @ [r]) as"
    using e by (auto simp: shares_inv_def assignments_inv_def)
qed

lemma invs_role_deleted:
  fixes role :: uuid
  assumes "roles_inv rs"
  defines "rs' \<equiv> filter (\<lambda>r. rl_id r \<noteq> role) rs"
  shows "roles_inv rs'"
    "grants_inv ns rs gs \<Longrightarrow> grants_inv ns rs' (delete_grants (\<lambda>g. sg_role_id g = role) gs)"
    "shares_inv rs hs \<Longrightarrow> shares_inv rs' (filter (\<lambda>h. sh_role_id h \<noteq> role) hs)"
    "assignments_inv rs as \<Longrightarrow> assignments_inv rs' (filter (\<lambda>a. ra_role_id a \<noteq> role) as)"
proof -
  show "roles_inv rs'" using assms(1) by (auto simp: roles_inv_def rs'_def distinct_map intro: inj_on_subset)
  have e: "is_derived rs' i = is_derived rs i" "carried_only rs' i = carried_only rs i" "i \<in> rl_id ` set rs' \<longleftrightarrow> i \<in> rl_id ` set rs"
    if "i \<noteq> role" for i
    using that by (auto simp: is_derived_def carried_only_def rs'_def)
  have cause: "cause_inv rs' gs g = cause_inv rs gs g" if "sg_role_id g \<noteq> role" for gs g
    using e [OF that] by (simp add: cause_inv_def split: option.splits)
  show "grants_inv ns rs' (delete_grants (\<lambda>g. sg_role_id g = role) gs)" if inv: "grants_inv ns rs gs"
  proof -
    have "grants_inv ns rs (delete_grants (\<lambda>g. sg_role_id g = role) gs)" using inv by (rule grants_inv_delete)
    moreover have "\<forall>g \<in> set (delete_grants (\<lambda>g. sg_role_id g = role) gs). sg_role_id g \<noteq> role"
      using inv by (auto simp: delete_grants_inv)
    ultimately show ?thesis using e(3) cause by (auto simp: grants_inv_def)
  qed
  show "shares_inv rs hs \<Longrightarrow> shares_inv rs' (filter (\<lambda>h. sh_role_id h \<noteq> role) hs)"
    "assignments_inv rs as \<Longrightarrow> assignments_inv rs' (filter (\<lambda>a. ra_role_id a \<noteq> role) as)"
    using e by (auto simp: shares_inv_def assignments_inv_def distinct_map intro: inj_on_subset)
qed

lemma set_role_description_roles:
  assumes "roles_inv (az_roles db)"
  shows "provenance (az_roles (set_role_description role d db)) = provenance (az_roles db)" "roles_inv (az_roles (set_role_description role d db))"
proof -
  let ?f = "\<lambda>r. r\<lparr>rl_description := Some d\<rparr>"
  show "provenance (az_roles (set_role_description role d db)) = provenance (az_roles db)"
    unfolding provenance_def set_role_description_def by (simp add: map_update_where)
  have ids: "map rl_id (az_roles (set_role_description role d db)) = map rl_id (az_roles db)"
    by (simp add: set_role_description_def map_update_where)
  have in_new: "\<exists>r0 \<in> set (az_roles db). r = (if rl_id r0 = role then ?f r0 else r0)" if "r \<in> set (az_roles (set_role_description role d db))" for r
    using that by (auto simp: set_role_description_def set_update_where)
  have prov: "rl_derived_from (if rl_id r0 = role then ?f r0 else r0) = rl_derived_from r0" "rl_org_id (if rl_id r0 = role then ?f r0 else r0) = rl_org_id r0" for r0
    by simp_all
  have "r = r'" if r: "r \<in> set (az_roles (set_role_description role d db))" "r' \<in> set (az_roles (set_role_description role d db))"
    "rl_derived_from r \<noteq> None" "rl_derived_from r = rl_derived_from r'" for r r'
  proof -
    obtain r0 r1 where "r0 \<in> set (az_roles db)" "r = (if rl_id r0 = role then ?f r0 else r0)"
      "r1 \<in> set (az_roles db)" "r' = (if rl_id r1 = role then ?f r1 else r1)"
      using in_new r by metis
    moreover then have "r0 = r1" using assms r(3,4) by (auto simp: roles_inv_def split: if_splits)
    ultimately show ?thesis by simp
  qed
  moreover have "\<forall>r \<in> set (az_roles (set_role_description role d db)). rl_derived_from r \<noteq> Some [] \<and> (rl_derived_from r \<noteq> None \<longrightarrow> rl_org_id r \<noteq> None)"
    using in_new prov assms unfolding roles_inv_def by metis
  ultimately show "roles_inv (az_roles (set_role_description role d db))"
    using assms ids unfolding roles_inv_def by metis
qed

lemma access_wf_change: "access_change w db db' \<Longrightarrow> access_wf db \<Longrightarrow> access_wf db'"
proof (induction rule: access_change.induct)
  case (node_added t n env db)
  have "nodes_inv (az_scope_nodes db @ [n])"
    using node_added nodes_inv_added [OF _ node_added(3) refl] by (auto simp: access_wf_def placed_in_def)
  then show ?case using node_added by (simp add: access_wf_def grants_inv_nodes)
next
  case (grant_added t g db env)
  have roles: "roles_inv (az_roles db)" using grant_added by (simp add: access_wf_def)
  have "cause_inv (az_roles db) (az_scope_grants db) g"
    using grant_added(2,7) hand_grantable_not_carried [OF roles]
    by (auto simp: cause_inv_def grantable_def hand_cause_def derived_here_def is_derived_def split: option.splits)
  then have "grants_inv (az_scope_nodes db) (az_roles db) (az_scope_grants db @ [g])"
    using grant_added by (intro grants_inv_added) (auto simp: access_wf_def grant_admitted_def placed_in_def)
  then show ?case using grant_added by (simp add: access_wf_def)
next
  case (share_added t h db)
  then show ?case using plain_role_not_derived [of db "TenantTx t" "sh_role_id h"] by (simp add: access_wf_def shares_inv_added)
next
  case (role_added r db)
  then show ?case using invs_role_added [of r "az_roles db"] by (auto simp: access_wf_def roles_inv_def)
next
  case (role_described db role description)
  then have "roles_inv (az_roles db)" by (simp add: access_wf_def)
  note d = set_role_description_roles [OF this, of role description]
  then show ?case using role_described(2) invs_provenance [OF d(1)]
    by (simp add: access_wf_def) (simp add: set_role_description_def)
next
  case (role_deleted db role)
  then show ?case using invs_role_deleted [where rs = "az_roles db" and role = role] by (simp add: access_wf_def delete_role_row_def)
next
  case (assignment_added a db)
  then show ?case using plain_role_not_derived [OF _ assignment_added(3)] by (auto simp: access_wf_def assignments_inv_def)
qed (simp_all add: access_wf_def grants_inv_refreshed grants_inv_delete shares_inv_refreshed shares_inv_filter assignments_inv_filter)

lemma access_wf_changes: "access_changes w db db' \<Longrightarrow> access_wf db \<Longrightarrow> access_wf db'"
  by (induction rule: rtranclp_induct) (auto intro: access_wf_change)

lemma access_wf_owned: "access_wf db \<Longrightarrow> derived_owned db"
  by (auto simp: access_wf_def roles_inv_def derived_owned_def)

end
