(* ===== verification/Access_System.thy ===== *)
theory Access_System
  imports Access_Invariants
begin

text \<open>
  Runs of the authorization service: the operations of any organization and of the platform in any
  order, with anything the rest of the service does to memberships, principals, platform roles and
  installations in between.
\<close>

section \<open>Steps\<close>

inductive access_op :: "uuid option \<Rightarrow> access_db \<Rightarrow> access_db \<Rightarrow> bool" where
  op_register: "access_op (Some (an_org_id req)) db (snd (RegisterScopeNode env actor req db))"
| op_place: "access_op (Some org) db (snd (WithOrgTx org (\<lambda>s. store_PlaceRecordNode env s node) db))"
| op_collection: "access_op (Some org) db (snd (WithOrgTx org (\<lambda>s. store_GetOrCreateCollectionNode env s node) db))"
| op_grant: "access_op (Some (ag_org_id grant)) db (snd (GrantScope env actor grant db))"
| op_revoke: "access_op (Some org) db (snd (RevokeScope env actor org subject kind path role db))"
| op_share: "access_op (Some (canonical_org env (ah_org_id share))) db (snd (ShareRecord env actor share db))"
| op_unshare: "access_op (Some org) db (snd (RevokeShare env actor org rtype rid subject kind role db))"
| op_create_role: "access_op (owner_of org) db (snd (CreateRole env actor name description perms org db))"
| op_update_role: "access_op (owner_of org) db (snd (UpdateRole env actor role org description perms db))"
| op_delete_role: "access_op None db (snd (DeleteRole env actor role db))"
| op_assign: "access_op (owner_of (canonical_org env org)) db (snd (AssignRole env subject kind role org scope db))"
| op_unassign: "access_op (owner_of org) db (snd (RevokeRole env actor subject role org scope db))"
| op_expose: "access_op (Some org) db (snd (GrantInstallationToTeam env reached exposed describe actor org installation team role db))"
| op_unexpose: "access_op (Some org) db (snd (revoke_with_carried env actor org team role path cause db))"

definition elsewhere :: "access_db \<Rightarrow> access_db \<Rightarrow> bool" where
  "elsewhere db db' \<longleftrightarrow>
     az_scope_nodes db' = az_scope_nodes db \<and> az_roles db' = az_roles db \<and> az_role_permissions db' = az_role_permissions db \<and>
     az_scope_grants db' = az_scope_grants db \<and> az_record_shares db' = az_record_shares db \<and> az_role_assignments db' = az_role_assignments db"

inductive access_step :: "access_db \<Rightarrow> access_db \<Rightarrow> bool" where
  step_op: "access_op w db db' \<Longrightarrow> access_step db db'"
| step_elsewhere: "elsewhere db db' \<Longrightarrow> access_step db db'"

definition access_start :: "access_db \<Rightarrow> bool" where
  "access_start db \<longleftrightarrow>
     az_scope_nodes db = [] \<and> az_scope_grants db = [] \<and> az_record_shares db = [] \<and> az_role_assignments db = [] \<and>
     distinct (map rl_id (az_roles db)) \<and> list_all (\<lambda>r. rl_derived_from r = None) (az_roles db) \<and> distinct (az_role_permissions db)"

definition access_reachable :: "access_db \<Rightarrow> bool" where
  "access_reachable db \<longleftrightarrow> (\<exists>start. access_start start \<and> access_step\<^sup>*\<^sup>* start db)"

inductive_cases access_stepE: "access_step db db'"

lemma access_op_changes:
  assumes "access_op w db db'" "access_wf db"
  shows "access_changes w db db'"
  using assms(1)
proof (cases rule: access_op.cases)
  case op_expose
  then show ?thesis using GrantInstallationToTeam_changes [OF access_wf_owned [OF assms(2)]] by simp
qed (simp_all add: RegisterScopeNode_changes PlaceRecordNode_changes GetOrCreateCollectionNode_changes GrantScope_changes
    RevokeScope_changes ShareRecord_changes RevokeShare_changes CreateRole_changes UpdateRole_changes DeleteRole_changes
    AssignRole_changes RevokeRole_changes revoke_with_carried_changes)

lemma access_wf_start: "access_start db \<Longrightarrow> access_wf db"
  by (auto simp: access_start_def access_wf_def nodes_inv_def roles_inv_def grants_inv_def shares_inv_def assignments_inv_def list_all_iff)

lemma access_wf_elsewhere: "elsewhere db db' \<Longrightarrow> access_wf db \<Longrightarrow> access_wf db'"
  by (simp add: elsewhere_def access_wf_def)

lemma access_wf_step: "access_step db db' \<Longrightarrow> access_wf db \<Longrightarrow> access_wf db'"
  by (elim access_stepE) (auto dest: access_op_changes access_wf_changes access_wf_elsewhere)

lemma access_reachable_wf:
  assumes "access_reachable db"
  shows "access_wf db"
proof -
  obtain start where start: "access_start start" "access_step\<^sup>*\<^sup>* start db" using assms by (auto simp: access_reachable_def)
  from start(2) show ?thesis
    by (induction rule: rtranclp_induct) (auto intro: access_wf_start [OF start(1)] access_wf_step)
qed

lemma access_reachable_op: "access_reachable db \<Longrightarrow> access_op w db db' \<Longrightarrow> access_reachable db'"
  unfolding access_reachable_def by (meson rtranclp.rtrancl_into_rtrancl step_op)

section \<open>What a tenant session sees\<close>

text \<open>Every answer to a tenant is a function of the rows its session sees and of the platform roles.\<close>

definition same_view :: "uuid \<Rightarrow> access_db \<Rightarrow> access_db \<Rightarrow> bool" where
  "same_view t db db' \<longleftrightarrow>
     visible_nodes (TenantTx t) db' = visible_nodes (TenantTx t) db \<and> visible_grants (TenantTx t) db' = visible_grants (TenantTx t) db \<and>
     visible_shares (TenantTx t) db' = visible_shares (TenantTx t) db \<and> visible_roles (TenantTx t) db' = visible_roles (TenantTx t) db \<and>
     visible_permissions (TenantTx t) db' = visible_permissions (TenantTx t) db \<and>
     visible_assignments (TenantTx t) db' = visible_assignments (TenantTx t) db \<and>
     visible_team_members (TenantTx t) db' = visible_team_members (TenantTx t) db \<and> az_platform_admins db' = az_platform_admins db"

lemma same_view_refl: "same_view t db db"
  by (simp add: same_view_def)

lemma same_view_trans: "same_view t db db1 \<Longrightarrow> same_view t db1 db2 \<Longrightarrow> same_view t db db2"
  by (simp add: same_view_def)

lemma visible_permissions_congI:
  assumes "visible_roles (TenantTx t) db' = visible_roles (TenantTx t) db"
    and "\<And>i. i \<in> rl_id ` set (visible_roles (TenantTx t) db) \<Longrightarrow> i \<noteq> role"
    and "filter (\<lambda>rp. fst rp \<noteq> role) (az_role_permissions db') = filter (\<lambda>rp. fst rp \<noteq> role) (az_role_permissions db)"
  shows "visible_permissions (TenantTx t) db' = visible_permissions (TenantTx t) db"
proof -
  let ?ids = "rl_id ` set (visible_roles (TenantTx t) db)"
  have only: "filter (\<lambda>rp. fst rp \<in> ?ids) rps = filter (\<lambda>rp. fst rp \<in> ?ids) (filter (\<lambda>rp. fst rp \<noteq> role) rps)" for rps :: "(uuid \<times> permission) list"
    using assms(2) by (induction rps) auto
  have "filter (\<lambda>rp. fst rp \<in> ?ids) (az_role_permissions db') = filter (\<lambda>rp. fst rp \<in> ?ids) (filter (\<lambda>rp. fst rp \<noteq> role) (az_role_permissions db'))"
    by (rule only)
  also have "\<dots> = filter (\<lambda>rp. fst rp \<in> ?ids) (az_role_permissions db)"
    unfolding assms(3) by (rule only [symmetric])
  finally show ?thesis by (simp only: visible_permissions_def db_session.case assms(1))
qed

lemma filter_update_outside:
  assumes "\<And>r. p r \<Longrightarrow> \<not> q r" "\<And>r. p r \<Longrightarrow> \<not> q (f r)"
  shows "filter q (update_where p f rows) = filter q rows"
  using assms by (induction rows) auto

lemma change_same_view:
  assumes "access_change (Some a) db db'" "access_wf db" "a \<noteq> t"
  shows "same_view t db db'"
  using assms
proof (induction rule: access_change.cases)
  case (grants_deleted x p db)
  have inv: "grants_inv (az_scope_nodes db) (az_roles db) (az_scope_grants db)" using grants_deleted by (simp add: access_wf_def)
  have "\<not> (p g \<or> caused_by (sg_id ` {h \<in> set (az_scope_grants db). p h}) g)" if "g \<in> set (az_scope_grants db)" "sg_org_id g = t" for g
    using grants_deleted that cause_is_hand(2) [OF inv that(1)] by (auto simp: caused_by_iff)
  then have "filter (\<lambda>g. sg_org_id g = t) (delete_grants p (az_scope_grants db)) = filter (\<lambda>g. sg_org_id g = t) (az_scope_grants db)"
    by (auto simp: delete_grants_inv [OF inv] intro!: filter_cong)
  then show ?case
    using grants_deleted by (simp add: same_view_def visible_nodes_def visible_grants_def visible_shares_def visible_roles_def
        visible_permissions_def visible_assignments_def visible_team_members_def visible_teams_def)
next
  case (role_added r db)
  have roles: "visible_roles (TenantTx t) db' = visible_roles (TenantTx t) db"
    using role_added by (simp add: visible_roles_def global_or_in_tenant_def)
  then show ?case
    using role_added by (simp add: same_view_def visible_nodes_def visible_grants_def visible_shares_def
        visible_permissions_def visible_assignments_def visible_team_members_def visible_teams_def)
next
  case (role_described db role description)
  obtain r where r: "r \<in> set (az_roles db)" "rl_id r = role" "rl_org_id r = Some a" using role_described by blast
  have "roles_inv (az_roles db)" using role_described by (simp add: access_wf_def)
  then have only: "rl_org_id x = Some a" if "x \<in> set (az_roles db)" "rl_id x = role" for x
    using role_found [OF _ r(1) that(1)] r that(2) by simp
  have upd: "filter (\<lambda>x. global_or_in_tenant (TenantTx t) (rl_org_id x)) (update_where (\<lambda>r. rl_id r = role) (\<lambda>r. r\<lparr>rl_description := Some description\<rparr>) rs) =
      filter (\<lambda>x. global_or_in_tenant (TenantTx t) (rl_org_id x)) rs"
    if "\<And>x. x \<in> set rs \<Longrightarrow> rl_id x = role \<Longrightarrow> rl_org_id x = Some a" for rs
    using that role_described(3,5) by (induction rs) (auto simp: global_or_in_tenant_def)
  have roles: "visible_roles (TenantTx t) db' = visible_roles (TenantTx t) db"
    using upd [OF only] role_described(2) by (simp add: visible_roles_def set_role_description_def)
  then show ?case
    using role_described by (simp add: same_view_def visible_nodes_def visible_grants_def visible_shares_def set_role_description_def
        visible_permissions_def visible_assignments_def visible_team_members_def visible_teams_def)
next
  case (permissions_set db role perms)
  obtain r where r: "r \<in> set (az_roles db)" "rl_id r = role" "rl_org_id r = Some a" using permissions_set by blast
  have "roles_inv (az_roles db)" using permissions_set by (simp add: access_wf_def)
  then have only: "rl_org_id x = Some a" if "x \<in> set (az_roles db)" "rl_id x = role" for x
    using role_found [OF _ r(1) that(1)] r that(2) by simp
  have "i \<noteq> role" if i: "i \<in> rl_id ` set (visible_roles (TenantTx t) db)" for i
  proof
    assume "i = role"
    then obtain x where "x \<in> set (az_roles db)" "rl_id x = role" "global_or_in_tenant (TenantTx t) (rl_org_id x)"
      using i by (auto simp: visible_roles_def)
    then show False using only [of x] assms(3) by (simp add: global_or_in_tenant_def)
  qed
  then have "visible_permissions (TenantTx t) db' = visible_permissions (TenantTx t) db"
    using permissions_set by (intro visible_permissions_congI [of t db' db role]) (simp_all add: visible_roles_def)
  then show ?case
    using permissions_set by (simp add: same_view_def visible_nodes_def visible_grants_def visible_shares_def visible_roles_def
        visible_assignments_def visible_team_members_def visible_teams_def)
next
  case (grant_refreshed x row db)
  have "filter (\<lambda>g. sg_org_id g = t) (update_where (same_grant row) (refresh_grant row) (az_scope_grants db)) = filter (\<lambda>g. sg_org_id g = t) (az_scope_grants db)"
    using grant_refreshed by (intro filter_update_outside) (auto simp: same_grant_def)
  then show ?case
    using grant_refreshed by (simp add: same_view_def visible_nodes_def visible_grants_def visible_shares_def visible_roles_def
        visible_permissions_def visible_assignments_def visible_team_members_def visible_teams_def)
next
  case (share_refreshed x row db)
  have "filter (\<lambda>h. sh_org_id h = t) (update_where (same_share row) (refresh_share row) (az_record_shares db)) = filter (\<lambda>h. sh_org_id h = t) (az_record_shares db)"
    using share_refreshed by (intro filter_update_outside) (auto simp: same_share_def)
  then show ?case
    using share_refreshed by (simp add: same_view_def visible_nodes_def visible_grants_def visible_shares_def visible_roles_def
        visible_permissions_def visible_assignments_def visible_team_members_def visible_teams_def)
next
  case (shares_deleted x p db)
  have "filter (\<lambda>h. sh_org_id h = t) (filter (\<lambda>h. \<not> p h) (az_record_shares db)) = filter (\<lambda>h. sh_org_id h = t) (az_record_shares db)"
    using shares_deleted by (auto intro!: filter_cong)
  then show ?case
    using shares_deleted by (simp add: same_view_def visible_nodes_def visible_grants_def visible_shares_def visible_roles_def
        visible_permissions_def visible_assignments_def visible_team_members_def visible_teams_def)
next
  case (assignments_deleted p db)
  have "filter (\<lambda>x. global_or_in_tenant (TenantTx t) (ra_org_id x)) (filter (\<lambda>x. \<not> p x) (az_role_assignments db)) =
      filter (\<lambda>x. global_or_in_tenant (TenantTx t) (ra_org_id x)) (az_role_assignments db)"
    using assignments_deleted by (auto simp: global_or_in_tenant_def intro!: filter_cong)
  then show ?case
    using assignments_deleted by (simp add: same_view_def visible_nodes_def visible_grants_def visible_shares_def visible_roles_def
        visible_permissions_def visible_assignments_def visible_team_members_def visible_teams_def)
qed (auto simp: same_view_def visible_nodes_def visible_grants_def visible_shares_def visible_roles_def global_or_in_tenant_def
    visible_permissions_def visible_assignments_def visible_team_members_def visible_teams_def)

lemma changes_same_view:
  assumes "access_changes (Some a) db db'" "access_wf db" "a \<noteq> t"
  shows "same_view t db db'"
  using assms(1)
proof (induction rule: rtranclp_induct)
  case (step db1 db2)
  then show ?case using change_same_view [OF step(2) access_wf_changes [OF step(1) assms(2)] assms(3)] same_view_trans by blast
qed (rule same_view_refl)

end
