(* ===== verification/Token_Paging.thy ===== *)
theory Token_Paging
  imports Prelude
begin

text \<open>
  The interface of a listing with page tokens, as its callers use it: a page has at most the
  requested number of rows, its token names the last row, an empty token says there is no more,
  and the page of a token holds the rows after the row it names.
\<close>

fun follow_tokens :: "nat \<Rightarrow> (string \<Rightarrow> 'e + 'r list \<times> string) \<Rightarrow> string \<Rightarrow> 'r list option" where
  "follow_tokens 0 page token = None"
| "follow_tokens (Suc fuel) page token =
     (case page token of
        Inl e \<Rightarrow> None
      | Inr (rows, next_token) \<Rightarrow>
          if next_token = [] then Some rows else map_option (\<lambda>rest. rows @ rest) (follow_tokens fuel page next_token))"

definition cut_page :: "('r \<Rightarrow> string) \<Rightarrow> nat \<Rightarrow> 'r list \<Rightarrow> 'r list \<times> string" where
  "cut_page token n due = (if n < length due then (take n due, token (due ! (n - 1))) else (due, []))"

locale token_listing =
  fixes valid :: "'q \<Rightarrow> bool" and listing :: "'q \<Rightarrow> 'r list" and token :: "'r \<Rightarrow> string"
    and page_size :: "'q \<Rightarrow> nat" and page :: "'q \<Rightarrow> string \<Rightarrow> 'e + 'r list \<times> string"
  assumes token_nonempty: "valid q \<Longrightarrow> r \<in> set (listing q) \<Longrightarrow> token r \<noteq> []"
    and page_size_pos: "valid q \<Longrightarrow> 0 < page_size q"
    and first_page: "valid q \<Longrightarrow> page q [] = Inr (cut_page token (page_size q) (listing q))"
    and next_page: "valid q \<Longrightarrow> listing q = xs @ r # ys \<Longrightarrow> page q (token r) = Inr (cut_page token (page_size q) ys)"
begin

lemma page_bounded: "page q [] = Inr (rows, t) \<Longrightarrow> valid q \<Longrightarrow> length rows \<le> page_size q"
  by (auto simp: first_page cut_page_def split: if_splits)

lemma follow_from:
  assumes "valid q" "listing q = xs @ zs" "page q t = Inr (cut_page token (page_size q) zs)" "length zs < fuel"
  shows "follow_tokens fuel (page q) t = Some zs"
  using assms
proof (induction fuel arbitrary: xs zs t)
  case (Suc fuel)
  let ?n = "page_size q"
  have n: "0 < ?n" using page_size_pos Suc.prems(1) .
  show ?case
  proof (cases "?n < length zs")
    case False
    then show ?thesis using Suc.prems(3) by (simp add: cut_page_def)
  next
    case True
    let ?r = "zs ! (?n - 1)"
    have split: "zs = take (?n - 1) zs @ ?r # drop ?n zs" using True n id_take_nth_drop [of "?n - 1" zs] by simp
    have list: "listing q = (xs @ take (?n - 1) zs) @ ?r # drop ?n zs" using Suc.prems(2) split by simp
    have "token ?r \<noteq> []" using token_nonempty [OF Suc.prems(1)] list by simp
    moreover have "follow_tokens fuel (page q) (token ?r) = Some (drop ?n zs)"
    proof (rule Suc.IH [OF Suc.prems(1)])
      show "listing q = (xs @ take (?n - 1) zs @ [?r]) @ drop ?n zs" using list by simp
      show "page q (token ?r) = Inr (cut_page token ?n (drop ?n zs))" using next_page [OF Suc.prems(1) list] .
      show "length (drop ?n zs) < fuel" using Suc.prems(4) n True by simp
    qed
    ultimately show ?thesis using Suc.prems(3) True by (simp add: cut_page_def)
  qed
qed simp

lemma follow_all:
  assumes "valid q" "length (listing q) < fuel"
  shows "follow_tokens fuel (page q) [] = Some (listing q)"
  using follow_from [of q "[]" "listing q" "[]" fuel] first_page assms by simp

end

text \<open>Rows in strictly increasing key order: the rows above the key of one of them are those after it.\<close>

lemma filter_above:
  fixes key :: "'r \<Rightarrow> 'k::linorder"
  assumes "sorted_wrt (\<lambda>a b. key a < key b) (xs @ r # ys)"
  shows "filter (\<lambda>x. key r < key x) (xs @ r # ys) = ys"
proof -
  have "filter (\<lambda>x. key r < key x) xs = []" using assms by (auto simp: sorted_wrt_append filter_empty_conv)
  moreover have "filter (\<lambda>x. key r < key x) ys = ys" using assms by (auto simp: sorted_wrt_append)
  ultimately show ?thesis by simp
qed

lemma sort_key_strict:
  fixes key :: "'r \<Rightarrow> 'k::linorder"
  assumes "distinct (map key rows)"
  shows "sorted_wrt (\<lambda>a b. key a < key b) (sort_key key rows)"
proof -
  have "distinct (map key (sort_key key rows))"
    using assms by (simp add: distinct_map)
  then have "sorted_wrt (<) (map key (sort_key key rows))" by (simp add: strict_sorted_iff)
  then show ?thesis by (simp add: sorted_wrt_map)
qed

lemma filter_above_sort:
  fixes key :: "'r \<Rightarrow> 'k::linorder"
  assumes "distinct (map key rows)" "sort_key key rows = xs @ r # ys"
  shows "sort_key key (filter (\<lambda>x. key r < key x) rows) = ys"
  using filter_above [of key xs r ys] sort_key_strict [OF assms(1)] assms(2) by (simp flip: filter_sort)

end
