(* ===== verification/Access_Oracles.thy ===== *)
theory Access_Oracles
  imports Access_System Token_Paging
begin

text \<open>
  The three questions about access have one answer: the decision on a record, the listing of
  nodes over all its pages, and the filter of candidate ids.
\<close>

section \<open>The rows behind every listing\<close>

definition accessible_rows :: "access_env \<Rightarrow> uuid \<Rightarrow> uuid \<Rightarrow> SubjectKind \<Rightarrow> string \<Rightarrow> string \<Rightarrow> access_db \<Rightarrow> (scope_node \<times> bool) list" where
  "accessible_rows env org subject kind rtype action db =
     (case accessibleScopesQuery env (TenantTx org) subject kind rtype action org (\<lambda>_. True) db of Inl e \<Rightarrow> [] | Inr rows \<Rightarrow> rows)"

definition asking_kind :: "SubjectKind \<Rightarrow> bool" where
  "asking_kind kind \<longleftrightarrow> kind = SUBJECT_KIND_PRINCIPAL \<or> kind = SUBJECT_KIND_TEAM"

definition subject_of :: "SubjectKind \<Rightarrow> uuid \<Rightarrow> (uuid \<times> uuid) list \<Rightarrow> string \<Rightarrow> uuid \<Rightarrow> bool" where
  "subject_of kind subject members k i \<longleftrightarrow>
     (if kind = SUBJECT_KIND_PRINCIPAL then (k = ''principal'' \<and> i = subject) \<or> (k = ''team'' \<and> (i, subject) \<in> set members)
      else k = ''team'' \<and> i = subject)"

lemma layeredSubject_ok:
  assumes "asking_kind kind"
  shows "layeredSubjectPredicate kind subject members = Inr (subject_of kind subject members)"
  using assms by (auto simp: asking_kind_def layeredSubjectPredicate_def subject_matches_def subject_of_def fun_eq_iff)

lemma layeredSubject_bad:
  assumes "\<not> asking_kind kind"
  shows "layeredSubjectPredicate kind subject members = Inl InvalidArgument"
  using assms by (cases kind) (auto simp: asking_kind_def layeredSubjectPredicate_def subject_matches_def)

lemma accessibleScopesQuery_rows:
  assumes "asking_kind kind"
  shows "accessibleScopesQuery env (TenantTx org) subject kind rtype action org p db =
    Inr (filter (\<lambda>r. p (fst r)) (accessible_rows env org subject kind rtype action db))"
proof -
  have "map g (filter (\<lambda>n. a n \<and> p n \<and> b n) ns) = filter (\<lambda>r. p (fst r)) (map g (filter (\<lambda>n. a n \<and> b n) ns))"
    if "\<And>n. fst (g n) = n" for a b and g :: "scope_node \<Rightarrow> scope_node \<times> bool" and ns
    using that by (induction ns) auto
  then show ?thesis
    using layeredSubject_ok [OF assms] by (simp add: accessible_rows_def accessibleScopesQuery_def Let_def)
qed

definition node_direct :: "access_env \<Rightarrow> uuid \<Rightarrow> uuid \<Rightarrow> SubjectKind \<Rightarrow> string \<Rightarrow> string \<Rightarrow> access_db \<Rightarrow> scope_node \<Rightarrow> bool" where
  "node_direct env org subject kind rtype action db n \<longleftrightarrow>
     (let of_subject = subject_of kind subject (visible_team_members (TenantTx org) db) in
      node_granted env (TenantTx org) of_subject rtype action org db n \<or> node_shared env (TenantTx org) of_subject rtype action org db n)"

definition platform_reads :: "access_env \<Rightarrow> uuid \<Rightarrow> SubjectKind \<Rightarrow> string \<Rightarrow> access_db \<Rightarrow> bool" where
  "platform_reads env subject kind action db = platformReadPredicate (platformReadAdmissible env kind action) subject db"

lemma in_accessible_rows:
  assumes "asking_kind kind"
  shows "(n, b) \<in> set (accessible_rows env org subject kind rtype action db) \<longleftrightarrow>
    n \<in> set (az_scope_nodes db) \<and> sn_org_id n = org \<and> b = (\<not> node_direct env org subject kind rtype action db n) \<and>
    (node_direct env org subject kind rtype action db n \<or> platform_reads env subject kind action db)"
  using layeredSubject_ok [OF assms]
  by (auto simp: accessible_rows_def accessibleScopesQuery_def Let_def visible_nodes_def node_direct_def platform_reads_def)

lemma rows_in_nodes:
  assumes "nodes_inv (az_scope_nodes db)"
  shows "distinct (map (\<lambda>r. sn_scope_path (fst r)) (accessible_rows env org subject kind rtype action db))"
    "r \<in> set (accessible_rows env org subject kind rtype action db) \<Longrightarrow> fst r \<in> set (az_scope_nodes db) \<and> sn_org_id (fst r) = org"
proof -
  have d: "distinct (map sn_scope_path (filter (\<lambda>n. sn_org_id n = org \<and> q n) (az_scope_nodes db)))" for q
  proof -
    have k: "distinct (map (\<lambda>n. (sn_org_id n, sn_scope_path n)) (az_scope_nodes db))" using assms by (simp add: nodes_inv_def)
    then have "distinct (az_scope_nodes db)" by (simp add: distinct_map)
    moreover have "inj_on sn_scope_path (set (filter (\<lambda>n. sn_org_id n = org \<and> q n) (az_scope_nodes db)))"
      using k by (auto simp: inj_on_def distinct_map)
    ultimately show ?thesis by (simp add: distinct_map)
  qed
  have shape: "\<exists>q g. accessible_rows env org subject kind rtype action db =
      map (\<lambda>n. (n, g n)) (filter (\<lambda>n. sn_org_id n = org \<and> q n) (az_scope_nodes db))"
  proof (cases "asking_kind kind")
    case True
    have "filter (\<lambda>n. sn_org_id n = org \<and> q n) (filter (\<lambda>n. sn_org_id n = org) ns) = filter (\<lambda>n. sn_org_id n = org \<and> q n) ns"
      for q and ns :: "scope_node list" by (induction ns) auto
    then show ?thesis
      using layeredSubject_ok [OF True]
      by (auto simp: accessible_rows_def accessibleScopesQuery_def Let_def visible_nodes_def simp del: filter_filter)
  qed (auto simp: accessible_rows_def accessibleScopesQuery_def layeredSubject_bad intro: exI [of _ "\<lambda>_. False"])
  then obtain q g where "accessible_rows env org subject kind rtype action db =
      map (\<lambda>n. (n, g n)) (filter (\<lambda>n. sn_org_id n = org \<and> q n) (az_scope_nodes db))" by blast
  then show "distinct (map (\<lambda>r. sn_scope_path (fst r)) (accessible_rows env org subject kind rtype action db))"
    "r \<in> set (accessible_rows env org subject kind rtype action db) \<Longrightarrow> fst r \<in> set (az_scope_nodes db) \<and> sn_org_id (fst r) = org"
    using d by (auto simp: comp_def)
qed

section \<open>Pages\<close>

type_synonym scopes_query = "access_env \<times> uuid \<times> uuid \<times> SubjectKind \<times> string \<times> string \<times> int \<times> access_db"

fun scopes_valid :: "scopes_query \<Rightarrow> bool" where
  "scopes_valid (env, org, subject, kind, rtype, action, requested, db) \<longleftrightarrow> access_wf db \<and> org \<noteq> [] \<and> asking_kind kind"

fun scopes_listing :: "scopes_query \<Rightarrow> accessible_scope list" where
  "scopes_listing (env, org, subject, kind, rtype, action, requested, db) =
     map accessible_row (sort_key (\<lambda>r. sn_scope_path (fst r)) (accessible_rows env org subject kind rtype action db))"

fun scopes_size :: "scopes_query \<Rightarrow> nat" where
  "scopes_size (env, org, subject, kind, rtype, action, requested, db) = scopes_page_size requested"

fun scopes_page :: "scopes_query \<Rightarrow> string \<Rightarrow> access_error + accessible_scope list \<times> string" where
  "scopes_page (env, org, subject, kind, rtype, action, requested, db) token =
     fst (ListAccessibleScopes env org subject kind rtype action token requested db)"

lemma scopes_page_size_bounds: "0 < scopes_page_size requested" "scopes_page_size requested \<le> 1000"
  by (auto simp: scopes_page_size_def Let_def listAccessibleScopesDefaultPageSize_def listAccessibleScopesMaxPageSize_def)

lemma cut_fetched:
  "(if n < length (take (n + 1) due) then (take n (take (n + 1) due), token (take (n + 1) due ! (n - 1))) else (take (n + 1) due, [])) =
    cut_page token n due" if "0 < n"
  using that by (auto simp: cut_page_def min_def)

lemma ListAccessibleScopes_page:
  assumes "org \<noteq> []" "asking_kind kind" "path_cursor token = Inr cursor"
  shows "ListAccessibleScopes env org subject kind rtype action token requested db =
    (Inr (cut_page as_scope_path (scopes_page_size requested)
      (map accessible_row (sort_key (\<lambda>r. sn_scope_path (fst r))
        (filter (\<lambda>r. after_cursor cursor (fst r)) (accessible_rows env org subject kind rtype action db))))), db)"
proof -
  let ?due = "map accessible_row (sort_key (\<lambda>r. sn_scope_path (fst r))
        (filter (\<lambda>r. after_cursor cursor (fst r)) (accessible_rows env org subject kind rtype action db)))"
  have "store_ListAccessibleScopes env (TenantTx org) org subject kind rtype action token (scopes_page_size requested + 1) db =
      Inr (take (scopes_page_size requested + 1) ?due)"
    by (simp only: store_ListAccessibleScopes_def layeredSubject_ok [OF assms(2)] assms(3) rbind_simps accessibleScopesQuery_rows [OF assms(2)] take_map)
  then show ?thesis
    using cut_fetched [OF scopes_page_size_bounds(1), of requested ?due as_scope_path] assms(1)
    by (simp only: ListAccessibleScopes_def Let_def WithOrgTx_def read_only_def Within_def rbind_simps if_False sum.case prod.case)
qed

lemma node_path_text:
  assumes "nodes_inv ns" "n \<in> set ns"
  shows "ltree_out (sn_scope_path n) \<noteq> []" "path_cursor (ltree_out (sn_scope_path n)) = Inr (Some (sn_scope_path n))"
proof -
  have p: "sn_scope_path n \<noteq> []" "list_all ltree_label (sn_scope_path n)" "length (sn_scope_path n) \<le> 65535"
    using assms by (auto simp: nodes_inv_def)
  have "ltree_in (ltree_out (sn_scope_path n)) = Some (sn_scope_path n)" using ltree_in_out [OF p(2,3)] .
  moreover then show "ltree_out (sn_scope_path n) \<noteq> []" using p(1) by (auto simp: ltree_in_def split: if_splits)
  ultimately show "path_cursor (ltree_out (sn_scope_path n)) = Inr (Some (sn_scope_path n))" by (simp add: path_cursor_def)
qed

lemma as_scope_path_row [simp]: "as_scope_path (accessible_row r) = ltree_out (sn_scope_path (fst r))" "as_node_id (accessible_row r) = sn_id (fst r)"
  by (simp_all add: accessible_row_def)

interpretation scopes: token_listing scopes_valid scopes_listing as_scope_path scopes_size scopes_page
proof
  fix q :: scopes_query
  assume v: "scopes_valid q"
  obtain env org subject kind rtype action requested db where q: "q = (env, org, subject, kind, rtype, action, requested, db)"
    by (cases q) auto
  have ok: "access_wf db" "org \<noteq> []" "asking_kind kind" using v by (simp_all add: q)
  then have inv: "nodes_inv (az_scope_nodes db)" by (simp add: access_wf_def)
  let ?rows = "accessible_rows env org subject kind rtype action db"
  note facts = rows_in_nodes [OF inv, where env = env and org = org and subject = subject and kind = kind and rtype = rtype and action = action]
  show "0 < scopes_size q" by (simp add: q scopes_page_size_bounds)
  show "as_scope_path r \<noteq> []" if r: "r \<in> set (scopes_listing q)" for r
    using r facts(2) node_path_text(1) [OF inv] by (auto simp: q)
  show "scopes_page q [] = Inr (cut_page as_scope_path (scopes_size q) (scopes_listing q))"
    using ListAccessibleScopes_page [OF ok(2,3), of "[]" None] by (simp add: q path_cursor_def after_cursor_def)
  show "scopes_page q (as_scope_path r) = Inr (cut_page as_scope_path (scopes_size q) ys)" if l: "scopes_listing q = xs @ r # ys" for xs r ys
  proof -
    obtain xs' r' ys' where s: "sort_key (\<lambda>r. sn_scope_path (fst r)) ?rows = xs' @ r' # ys'" "r = accessible_row r'" "ys = map accessible_row ys'"
      using l by (auto simp: q map_eq_append_conv Cons_eq_map_conv)
    have "r' \<in> set (sort_key (\<lambda>r. sn_scope_path (fst r)) ?rows)" by (simp only: s(1)) simp
    then have r': "r' \<in> set ?rows" by simp
    then have node: "fst r' \<in> set (az_scope_nodes db)" using facts(2) by blast
    have "sort_key (\<lambda>r. sn_scope_path (fst r)) (filter (\<lambda>x. sn_scope_path (fst r') < sn_scope_path (fst x)) ?rows) = ys'"
      using filter_above_sort [OF facts(1) s(1)] .
    then show ?thesis
      using ListAccessibleScopes_page [OF ok(2,3) node_path_text(2) [OF inv node]]
      by (simp add: q s(2,3) after_cursor_def)
  qed
qed

definition listed_scopes :: "access_env \<Rightarrow> uuid \<Rightarrow> uuid \<Rightarrow> SubjectKind \<Rightarrow> string \<Rightarrow> string \<Rightarrow> int \<Rightarrow> access_db \<Rightarrow> accessible_scope list option" where
  "listed_scopes env org subject kind rtype action requested db =
     follow_tokens (Suc (length (az_scope_nodes db)))
       (\<lambda>token. fst (ListAccessibleScopes env org subject kind rtype action token requested db)) []"

lemma length_accessible_rows: "length (accessible_rows env org subject kind rtype action db) \<le> length (az_scope_nodes db)"
proof (cases "asking_kind kind")
  case True
  have "length (filter p (filter q ns)) \<le> length ns" for p q and ns :: "scope_node list"
    by (meson le_trans length_filter_le)
  then show ?thesis
    using layeredSubject_ok [OF True] by (simp add: accessible_rows_def accessibleScopesQuery_def Let_def visible_nodes_def del: filter_filter)
qed (simp add: accessible_rows_def accessibleScopesQuery_def layeredSubject_bad)

lemma listed_scopes_follow:
  "listed_scopes env org subject kind rtype action requested db =
    follow_tokens (Suc (length (az_scope_nodes db))) (scopes_page (env, org, subject, kind, rtype, action, requested, db)) []"
proof -
  have "scopes_page (env, org, subject, kind, rtype, action, requested, db) =
      (\<lambda>token. fst (ListAccessibleScopes env org subject kind rtype action token requested db))" by (simp add: fun_eq_iff)
  then show ?thesis by (simp only: listed_scopes_def)
qed

lemma listed_scopes_rows:
  assumes "access_wf db" "org \<noteq> []" "asking_kind kind"
  shows "listed_scopes env org subject kind rtype action requested db =
    Some (map accessible_row (sort_key (\<lambda>r. sn_scope_path (fst r)) (accessible_rows env org subject kind rtype action db)))"
proof -
  let ?q = "(env, org, subject, kind, rtype, action, requested, db)"
  have "scopes_valid ?q" "length (scopes_listing ?q) < Suc (length (az_scope_nodes db))"
    using assms length_accessible_rows [of env org subject kind rtype action db] by simp_all
  from scopes.follow_all [OF this] show ?thesis by (simp only: listed_scopes_follow scopes_listing.simps)
qed

end
