(* ===== verification/Access_Properties.thy ===== *)
theory Access_Properties
  imports Access_Oracles
begin

text \<open>
  What the layered authorization promises to its callers.
\<close>

section \<open>One answer\<close>

lemma node_unique:
  assumes "access_wf db" "n \<in> set (az_scope_nodes db)" "m \<in> set (az_scope_nodes db)" "sn_id m = sn_id n"
  shows "m = n"
  using assms by (auto simp: access_wf_def nodes_inv_def distinct_map inj_on_def)

lemma record_unique:
  assumes "access_wf db" "n \<in> set (az_scope_nodes db)" "m \<in> set (az_scope_nodes db)" "sn_org_id m = sn_org_id n"
    "sn_resource_type n = Some rtype" "sn_resource_id n = Some rid" "sn_resource_type m = Some rtype" "sn_resource_id m = Some rid"
  shows "m = n"
proof -
  have "same_resource n m" using assms(4-8) by (simp add: same_resource_def)
  moreover have "\<forall>n \<in> set (az_scope_nodes db). \<forall>m \<in> set (az_scope_nodes db). same_resource n m \<longrightarrow> n = m"
    using assms(1) by (simp add: access_wf_def nodes_inv_def)
  ultimately show ?thesis using assms(2,3) by metis
qed

lemma placed_record_found:
  assumes "access_wf db" "n \<in> set (az_scope_nodes db)" "sn_org_id n = org"
    "sn_resource_type n = Some rtype" "sn_resource_id n = Some rid"
  shows "placed_record (TenantTx org) rtype rid db = Some n"
proof -
  let ?p = "\<lambda>n. sn_resource_type n = Some rtype \<and> sn_resource_id n = Some rid"
  have "n \<in> set (visible_nodes (TenantTx org) db)" using assms by (simp add: visible_nodes_def)
  then obtain m where m: "select_first ?p (visible_nodes (TenantTx org) db) = Some m"
    using assms(4,5) select_first_None [of ?p "visible_nodes (TenantTx org) db"] by (cases "select_first ?p (visible_nodes (TenantTx org) db)") auto
  have m': "m \<in> set (az_scope_nodes db)" "sn_org_id m = org" "sn_resource_type m = Some rtype" "sn_resource_id m = Some rid"
    using select_first_Some [OF m] by (auto simp: visible_nodes_def)
  have "m = n" using record_unique [OF assms(1,2) m'(1)] m' assms by simp
  then show ?thesis using m by (simp add: placed_record_def)
qed

lemma placed_node_direct:
  assumes "access_wf db" "n \<in> set (az_scope_nodes db)" "sn_org_id n = org"
    "sn_resource_type n = Some rtype" "sn_resource_id n = Some rid"
  shows "node_direct env org subject kind rtype action db n \<longleftrightarrow>
    (let of_subject = subject_of kind subject (visible_team_members (TenantTx org) db) in
     (\<exists>g \<in> set (visible_grants (TenantTx org) db). grant_confers env (TenantTx org) of_subject rtype action db (sn_scope_path n) g) \<or>
     (\<exists>h \<in> set (visible_shares (TenantTx org) db). share_confers env (TenantTx org) of_subject rtype action db rid h))"
  using assms(3-5)
  by (auto simp: node_direct_def node_granted_def node_shared_def visible_grants_def visible_shares_def share_confers_def Let_def)

lemma CheckAccess_placed:
  assumes "access_wf db" "org \<noteq> []" "asking_kind kind" "n \<in> set (az_scope_nodes db)" "sn_org_id n = org"
    "sn_resource_type n = Some rtype" "sn_resource_id n = Some rid"
  shows "\<exists>reason. CheckAccess env org subject kind rtype rid action db =
      (Inr (node_direct env org subject kind rtype action db n \<or> platform_reads env subject kind action db, reason), db) \<and>
    (reason = PlatformReadBasis \<longleftrightarrow> \<not> node_direct env org subject kind rtype action db n \<and> platform_reads env subject kind action db)"
proof -
  define of_subject where "of_subject = subject_of kind subject (visible_team_members (TenantTx org) db)"
  define via where "via = (\<exists>g \<in> set (visible_grants (TenantTx org) db). grant_confers env (TenantTx org) of_subject rtype action db (sn_scope_path n) g)"
  define shared where "shared = (\<exists>h \<in> set (visible_shares (TenantTx org) db). share_confers env (TenantTx org) of_subject rtype action db rid h)"
  have d: "node_direct env org subject kind rtype action db n = (via \<or> shared)"
    using placed_node_direct [OF assms(1,4-7), of env subject kind action] by (simp add: Let_def via_def shared_def of_subject_def)
  have "CheckAccess env org subject kind rtype rid action db =
      (if via then Inr (True, ''granted via scope'') else if shared then Inr (True, ''granted via share'')
       else if platform_reads env subject kind action db then Inr (True, ''granted via platform_administrator'')
       else Inr (False, ''no scope grant or record share''), db)"
    using placed_record_found [OF assms(1,4-7)] layeredSubject_ok [OF assms(3)] assms(2)
    by (simp add: CheckAccess_def store_CheckAccess_def WithOrgTx_def Within_def read_only_def Let_def platform_reads_def
        via_def shared_def of_subject_def)
  then show ?thesis
    unfolding d by (cases via; cases shared; cases "platform_reads env subject kind action db") (simp_all add: PlatformReadBasis_def)
qed

lemma node_listed:
  assumes "access_wf db" "org \<noteq> []" "asking_kind kind" "n \<in> set (az_scope_nodes db)" "sn_org_id n = org"
  obtains scopes where "listed_scopes env org subject kind rtype action requested db = Some scopes"
    "sn_id n \<in> as_node_id ` set scopes \<longleftrightarrow> node_direct env org subject kind rtype action db n \<or> platform_reads env subject kind action db"
    "(\<exists>r \<in> set scopes. as_node_id r = sn_id n \<and> as_basis r = ACCESS_BASIS_PLATFORM_ADMINISTRATOR) \<longleftrightarrow>
      \<not> node_direct env org subject kind rtype action db n \<and> platform_reads env subject kind action db"
proof -
  let ?rows = "accessible_rows env org subject kind rtype action db"
  let ?scopes = "map accessible_row (sort_key (\<lambda>r. sn_scope_path (fst r)) ?rows)"
  note row = in_accessible_rows [OF assms(3), where env = env and org = org and subject = subject and rtype = rtype and action = action and db = db]
  have only: "m = n" if "(m, b) \<in> set ?rows" "sn_id m = sn_id n" for m b
    using that node_unique [OF assms(1,4)] by (simp add: row)
  have "sn_id n \<in> as_node_id ` set ?scopes \<longleftrightarrow> (\<exists>b. (n, b) \<in> set ?rows)"
    using only by (simp add: image_iff) (metis fst_conv surj_pair)
  then have 1: "sn_id n \<in> as_node_id ` set ?scopes \<longleftrightarrow> node_direct env org subject kind rtype action db n \<or> platform_reads env subject kind action db"
    using assms(4,5) by (auto simp: row)
  have "(\<exists>r \<in> set ?scopes. as_node_id r = sn_id n \<and> as_basis r = ACCESS_BASIS_PLATFORM_ADMINISTRATOR) \<longleftrightarrow> (n, True) \<in> set ?rows"
    using only by (simp add: accessible_row_def) (metis fst_conv snd_conv surj_pair)
  then have 2: "(\<exists>r \<in> set ?scopes. as_node_id r = sn_id n \<and> as_basis r = ACCESS_BASIS_PLATFORM_ADMINISTRATOR) \<longleftrightarrow>
      \<not> node_direct env org subject kind rtype action db n \<and> platform_reads env subject kind action db"
    using assms(4,5) by (auto simp: row)
  show thesis using that [OF listed_scopes_rows [OF assms(1-3)] 1 2] .
qed

lemma CanReadScopeNode_node:
  assumes "access_wf db" "asking_kind kind" "n \<in> set (az_scope_nodes db)" "sn_org_id n = org" "ax_parse_id env text = Some (sn_id n)"
  shows "store_CanReadScopeNode env (TenantTx org) org subject kind rtype action text db =
    Inr (node_direct env org subject kind rtype action db n \<or> platform_reads env subject kind action db)"
proof -
  let ?rows = "accessible_rows env org subject kind rtype action db"
  have "filter (\<lambda>r. sn_id (fst r) = sn_id n) ?rows \<noteq> [] \<longleftrightarrow> (\<exists>b. (n, b) \<in> set ?rows)"
  proof
    assume "filter (\<lambda>r. sn_id (fst r) = sn_id n) ?rows \<noteq> []"
    then obtain m b where m: "(m, b) \<in> set ?rows" "sn_id m = sn_id n" by (auto simp: filter_empty_conv)
    then have "m = n" using node_unique [OF assms(1,3)] in_accessible_rows [OF assms(2), of m b env org subject rtype action db] by simp
    then show "\<exists>b. (n, b) \<in> set ?rows" using m by auto
  qed (force simp: filter_empty_conv)
  then show ?thesis
    using assms(3-5) in_accessible_rows [OF assms(2), of n _ env org subject rtype action db]
    by (simp add: store_CanReadScopeNode_def accessibleScopesQuery_rows [OF assms(2)])
qed

lemma ListAccessibleResourceIDs_placed:
  assumes "access_wf db" "asking_kind kind" "n \<in> set (az_scope_nodes db)" "sn_org_id n = org"
    "sn_resource_type n = Some rtype" "sn_resource_id n = Some rid"
  obtains ids where "store_ListAccessibleResourceIDs env (TenantTx org) org subject kind rtype action candidates db = Inr ids"
    "rid \<in> set ids \<longleftrightarrow> rid \<in> set candidates \<and> (node_direct env org subject kind rtype action db n \<or> platform_reads env subject kind action db)"
proof (cases "candidates = []")
  case True
  then show ?thesis using that [of "[]"] by (simp add: store_ListAccessibleResourceIDs_def)
next
  case False
  let ?rows = "accessible_rows env org subject kind rtype action db"
  let ?p = "\<lambda>n. sn_resource_type n = Some rtype \<and> (\<exists>c \<in> set candidates. sn_resource_id n = Some c)"
  let ?ids = "map (\<lambda>r. text_of (sn_resource_id (fst r))) (filter (\<lambda>r. ?p (fst r)) ?rows)"
  note row = in_accessible_rows [OF assms(2), where env = env and org = org and subject = subject and rtype = rtype and action = action and db = db]
  have only: "m = n" if "(m, b) \<in> set ?rows" "sn_resource_type m = Some rtype" "sn_resource_id m = Some rid" for m b
    using that record_unique [OF assms(1,3) _ _ assms(5,6), of m] assms(4) by (simp add: row)
  have "rid \<in> set ?ids \<longleftrightarrow> rid \<in> set candidates \<and> (\<exists>b. (n, b) \<in> set ?rows)"
  proof
    assume "rid \<in> set ?ids"
    then obtain m b where m: "(m, b) \<in> set ?rows" "sn_resource_type m = Some rtype" "sn_resource_id m = Some rid" "rid \<in> set candidates"
      by (auto simp: text_of_def)
    then show "rid \<in> set candidates \<and> (\<exists>b. (n, b) \<in> set ?rows)" using only [OF m(1-3)] by auto
  next
    assume "rid \<in> set candidates \<and> (\<exists>b. (n, b) \<in> set ?rows)"
    then show "rid \<in> set ?ids" using assms(5,6) by (auto simp: text_of_def image_iff intro!: bexI)
  qed
  moreover have "(\<exists>b. (n, b) \<in> set ?rows) \<longleftrightarrow> node_direct env org subject kind rtype action db n \<or> platform_reads env subject kind action db"
    using assms(3,4) by (auto simp: row)
  moreover have "store_ListAccessibleResourceIDs env (TenantTx org) org subject kind rtype action candidates db = Inr ?ids"
    using False by (simp add: store_ListAccessibleResourceIDs_def accessibleScopesQuery_rows [OF assms(2)])
  ultimately show ?thesis using that by blast
qed

text \<open>
  C5. The three questions about access have one answer.  For a record that is placed in the scope
  tree of its organization, in every reachable state: the decision on the record, the listing of
  accessible nodes followed over all its pages, the check of its node by id and the filter of
  candidate ids agree, and the decision names the platform administrator as its basis exactly when
  the listing labels the node so.
\<close>

theorem access_oracles_agree:
  assumes "access_reachable db" "org \<noteq> []" "asking_kind kind"
    and "n \<in> set (az_scope_nodes db)" "sn_org_id n = org" "sn_resource_type n = Some rtype" "sn_resource_id n = Some rid"
    and "ax_parse_id env (sn_id n) = Some (sn_id n)" "rid \<in> set candidates"
  shows "\<exists>allowed reason scopes ids.
    fst (CheckAccess env org subject kind rtype rid action db) = Inr (allowed, reason) \<and>
    listed_scopes env org subject kind rtype action requested db = Some scopes \<and>
    (sn_id n \<in> as_node_id ` set scopes \<longleftrightarrow> allowed) \<and>
    store_CanReadScopeNode env (TenantTx org) org subject kind rtype action (sn_id n) db = Inr allowed \<and>
    store_ListAccessibleResourceIDs env (TenantTx org) org subject kind rtype action candidates db = Inr ids \<and>
    (rid \<in> set ids \<longleftrightarrow> allowed) \<and>
    (reason = PlatformReadBasis \<longleftrightarrow>
      (\<exists>r \<in> set scopes. as_node_id r = sn_id n \<and> as_basis r = ACCESS_BASIS_PLATFORM_ADMINISTRATOR))"
proof -
  have wf: "access_wf db" using assms(1) by (rule access_reachable_wf)
  let ?allowed = "node_direct env org subject kind rtype action db n \<or> platform_reads env subject kind action db"
  obtain reason where r: "fst (CheckAccess env org subject kind rtype rid action db) = Inr (?allowed, reason)"
    "reason = PlatformReadBasis \<longleftrightarrow> \<not> node_direct env org subject kind rtype action db n \<and> platform_reads env subject kind action db"
    using CheckAccess_placed [OF wf assms(2-7), of env subject action] by (metis fst_conv)
  obtain scopes where s: "listed_scopes env org subject kind rtype action requested db = Some scopes"
    "sn_id n \<in> as_node_id ` set scopes \<longleftrightarrow> ?allowed"
    "(\<exists>r \<in> set scopes. as_node_id r = sn_id n \<and> as_basis r = ACCESS_BASIS_PLATFORM_ADMINISTRATOR) \<longleftrightarrow>
      \<not> node_direct env org subject kind rtype action db n \<and> platform_reads env subject kind action db"
    by (rule node_listed [OF wf assms(2-5)])
  obtain ids where i: "store_ListAccessibleResourceIDs env (TenantTx org) org subject kind rtype action candidates db = Inr ids"
    "rid \<in> set ids \<longleftrightarrow> rid \<in> set candidates \<and> ?allowed"
    by (rule ListAccessibleResourceIDs_placed [OF wf assms(3-7)])
  show ?thesis
    using r s i CanReadScopeNode_node [OF wf assms(3-5,8)] assms(9) by (intro exI [of _ ?allowed] exI [of _ reason] exI [of _ scopes] exI [of _ ids]) simp
qed

section \<open>Pages\<close>

text \<open>
  Following the page tokens of the listing ends and yields every accessible node of the
  organization exactly once, in the order of the tree, whatever page size is asked for; no page
  holds more than a thousand rows.
\<close>

theorem accessible_scope_pages_cover:
  assumes "access_reachable db" "org \<noteq> []" "asking_kind kind"
  shows "(\<exists>ns scopes. listed_scopes env org subject kind rtype action requested db = Some scopes \<and>
      map as_node_id scopes = map sn_id ns \<and> sorted_wrt (\<lambda>a b. sn_scope_path a < sn_scope_path b) ns \<and>
      set ns = {n \<in> set (az_scope_nodes db). sn_org_id n = org \<and>
        (node_direct env org subject kind rtype action db n \<or> platform_reads env subject kind action db)}) \<and>
    (\<exists>rows token. fst (ListAccessibleScopes env org subject kind rtype action [] requested db) = Inr (rows, token) \<and> length rows \<le> 1000)"
proof
  have wf: "access_wf db" using assms(1) by (rule access_reachable_wf)
  then have inv: "nodes_inv (az_scope_nodes db)" by (simp add: access_wf_def)
  let ?rows = "accessible_rows env org subject kind rtype action db"
  let ?sorted = "sort_key (\<lambda>r. sn_scope_path (fst r)) ?rows"
  have "sorted_wrt (\<lambda>a b. sn_scope_path a < sn_scope_path b) (map fst ?sorted)"
    using sort_key_strict [OF rows_in_nodes(1) [OF inv]] by (simp add: sorted_wrt_map)
  moreover have "set (map fst ?sorted) = {n \<in> set (az_scope_nodes db). sn_org_id n = org \<and>
        (node_direct env org subject kind rtype action db n \<or> platform_reads env subject kind action db)}"
    using in_accessible_rows [OF assms(3), where env = env and org = org and subject = subject and rtype = rtype and action = action and db = db]
    by (simp add: set_eq_iff image_iff) (metis fst_conv surj_pair)
  ultimately show "\<exists>ns scopes. listed_scopes env org subject kind rtype action requested db = Some scopes \<and>
      map as_node_id scopes = map sn_id ns \<and> sorted_wrt (\<lambda>a b. sn_scope_path a < sn_scope_path b) ns \<and>
      set ns = {n \<in> set (az_scope_nodes db). sn_org_id n = org \<and>
        (node_direct env org subject kind rtype action db n \<or> platform_reads env subject kind action db)}"
    using listed_scopes_rows [OF wf assms(2,3)] by (intro exI [of _ "map fst ?sorted"] exI [of _ "map accessible_row ?sorted"]) simp
  let ?q = "(env, org, subject, kind, rtype, action, requested, db)"
  have "scopes_valid ?q" using wf assms(2,3) by simp
  moreover obtain rows token where "scopes_page ?q [] = Inr (rows, token)"
    using scopes.first_page [OF \<open>scopes_valid ?q\<close>] by (metis surj_pair)
  moreover have "scopes_size ?q \<le> 1000" by (simp add: scopes_page_size_bounds)
  ultimately have "length rows \<le> 1000" using scopes.page_bounded [of ?q rows token] by simp
  moreover have "fst (ListAccessibleScopes env org subject kind rtype action [] requested db) = Inr (rows, token)"
    using \<open>scopes_page ?q [] = Inr (rows, token)\<close> by simp
  ultimately show "\<exists>rows token. fst (ListAccessibleScopes env org subject kind rtype action [] requested db) = Inr (rows, token) \<and> length rows \<le> 1000"
    by blast
qed

section \<open>The scope tree\<close>

lemma ancestors_registered:
  assumes "nodes_inv ns" "n \<in> set ns" "sn_scope_path n = p @ q" "p \<noteq> []"
  shows "\<exists>m \<in> set ns. sn_org_id m = sn_org_id n \<and> sn_scope_path m = p"
  using assms(2,3)
proof (induction q arbitrary: n rule: rev_induct)
  case (snoc l q)
  then have "butlast (sn_scope_path n) = p @ q" by (simp add: butlast_append)
  then obtain m where "m \<in> set ns" "sn_org_id m = sn_org_id n" "sn_scope_path m = p @ q"
    using assms(1,4) snoc.prems(1) by (auto simp: nodes_inv_def)
  then show ?case using snoc.IH [of m] by auto
qed auto

text \<open>
  C10. The scope tree is always a tree: in every reachable state, each ancestor path of a registered
  node is the path of exactly one node of the same organization, a record is placed at most once,
  and every grant stands on a registered node of its own organization and confers a role that
  exists.
\<close>

theorem scope_tree_connected:
  assumes "access_reachable db"
  shows "(\<forall>n \<in> set (az_scope_nodes db). \<forall>p. is_ancestor p (sn_scope_path n) \<and> p \<noteq> [] \<longrightarrow>
      (\<exists>!m. m \<in> set (az_scope_nodes db) \<and> sn_org_id m = sn_org_id n \<and> sn_scope_path m = p)) \<and>
    (\<forall>n \<in> set (az_scope_nodes db). \<forall>m \<in> set (az_scope_nodes db). same_resource n m \<longrightarrow> n = m) \<and>
    (\<forall>g \<in> set (az_scope_grants db).
      (\<exists>!m. m \<in> set (az_scope_nodes db) \<and> sn_org_id m = sg_org_id g \<and> sn_scope_path m = sg_scope_path g) \<and>
      sg_role_id g \<in> rl_id ` set (az_roles db))"
proof (intro conjI ballI allI impI)
  have wf: "access_wf db" using assms by (rule access_reachable_wf)
  then have inv: "nodes_inv (az_scope_nodes db)" by (simp add: access_wf_def)
  have once: "m = m'" if "m \<in> set (az_scope_nodes db)" "m' \<in> set (az_scope_nodes db)"
      "sn_org_id m = sn_org_id m'" "sn_scope_path m = sn_scope_path m'" for m m'
    using inv that by (auto simp: nodes_inv_def distinct_map inj_on_def)
  show "\<exists>!m. m \<in> set (az_scope_nodes db) \<and> sn_org_id m = sn_org_id n \<and> sn_scope_path m = p"
    if "n \<in> set (az_scope_nodes db)" "is_ancestor p (sn_scope_path n) \<and> p \<noteq> []" for n p
  proof -
    note n = that
    obtain m where "m \<in> set (az_scope_nodes db)" "sn_org_id m = sn_org_id n" "sn_scope_path m = p"
      using ancestors_registered [OF inv n(1)] n(2) by (auto simp: is_ancestor_append)
    then show ?thesis using once by (intro ex1I [of _ m]) simp_all
  qed
  show "n = m" if "n \<in> set (az_scope_nodes db)" "m \<in> set (az_scope_nodes db)" "same_resource n m" for n m
    using inv that unfolding nodes_inv_def by metis
  fix g
  assume g: "g \<in> set (az_scope_grants db)"
  have gi: "grants_inv (az_scope_nodes db) (az_roles db) (az_scope_grants db)" using wf by (simp add: access_wf_def)
  then show "sg_role_id g \<in> rl_id ` set (az_roles db)" using g by (simp add: grants_inv_def)
  show "\<exists>!m. m \<in> set (az_scope_nodes db) \<and> sn_org_id m = sg_org_id g \<and> sn_scope_path m = sg_scope_path g"
    using gi g once unfolding grants_inv_def by metis
qed

text \<open>
  A record keeps its place.  Once a record was placed for an organization, every later attempt
  to place it, under whatever path, kind or label, returns the first placement and changes nothing.
\<close>

theorem placement_is_stable:
  assumes "WithOrgTx org (\<lambda>s. store_PlaceRecordNode env s node) db = (Inr out, db1)" "an_org_id node = org"
    and "an_org_id node' = org" "an_resource_type node' = an_resource_type node" "an_resource_id node' = an_resource_id node"
  shows "WithOrgTx org (\<lambda>s. store_PlaceRecordNode env' s node') db1 = (Inr out, db1)"
proof -
  let ?p = "\<lambda>n. sn_resource_type n = Some (an_resource_type node) \<and> sn_resource_id n = Some (an_resource_id node)"
  have org: "org \<noteq> []" and p: "store_PlaceRecordNode env (TenantTx org) node db = Inr (out, db1)"
    using assms(1) by (auto simp: WithOrgTx_def Within_Inr split: if_splits)
  have named: "an_resource_type node \<noteq> []" "an_resource_id node \<noteq> []" using p by (auto simp: store_PlaceRecordNode_def split: if_splits)
  obtain n where n: "placed_record (TenantTx org) (an_resource_type node) (an_resource_id node) db1 = Some n" "out = (node_view n)\<lparr>an_org_id := org\<rparr>"
  proof (cases "placed_record (TenantTx org) (an_resource_type node) (an_resource_id node) db")
    case (Some n)
    then show thesis using p named assms(2) that by (auto simp: store_PlaceRecordNode_def)
  next
    case None
    then have "store_RegisterScopeNode env (TenantTx org) node db = Inr (out, db1)" using p named by (simp add: store_PlaceRecordNode_def)
    then obtain path where path: "ltree_in (an_scope_path node) = Some path" and out: "out = node\<lparr>an_created_at := Some (ax_now env)\<rparr>"
      and db1: "db1 = db\<lparr>az_scope_nodes := az_scope_nodes db @ [registered_row env node path]\<rparr>"
      by (rule store_RegisterScopeNode_Inr)
    have "?p (registered_row env node path)" "sn_org_id (registered_row env node path) = org"
      using named assms(2) by (simp_all add: registered_row_def nilIfEmpty_def)
    then have "placed_record (TenantTx org) (an_resource_type node) (an_resource_id node) db1 = Some (registered_row env node path)"
      using None by (simp add: placed_record_def visible_nodes_def db1 select_first_append) (simp add: select_first_def)
    moreover have "out = (node_view (registered_row env node path))\<lparr>an_org_id := org\<rparr>"
      using named assms(2) ltree_in_Some [OF path] by (simp add: out node_view_def registered_row_def nilIfEmpty_def text_of_def)
    ultimately show thesis using that by blast
  qed
  have "store_PlaceRecordNode env' (TenantTx org) node' db1 = Inr (out, db1)"
    using n named assms(3-5) by (simp add: store_PlaceRecordNode_def)
  then show ?thesis using org by (simp add: WithOrgTx_def Within_def)
qed


section \<open>Roles a solution carries\<close>

text \<open>
  C7. A role the service derived for one solution on one module is never held otherwise than through
  its cause: in every reachable state it is in no share and in no assignment, and each grant of it
  names as its cause a grant of the same organization that was made by hand and still stands.
\<close>

theorem derived_access_needs_cause:
  assumes "access_reachable db" "carried_only (az_roles db) role"
  shows "(\<forall>g \<in> set (az_scope_grants db). sg_role_id g = role \<longrightarrow>
      (\<exists>cause \<in> set (az_scope_grants db). sg_derived_from g = Some (sg_id cause) \<and> sg_org_id cause = sg_org_id g \<and>
        sg_derived_from cause = None \<and> \<not> carried_only (az_roles db) (sg_role_id cause))) \<and>
    (\<forall>h \<in> set (az_record_shares db). sh_role_id h \<noteq> role) \<and> (\<forall>a \<in> set (az_role_assignments db). ra_role_id a \<noteq> role)"
proof (intro conjI ballI impI)
  have wf: "access_wf db" using assms(1) by (rule access_reachable_wf)
  have derived: "is_derived (az_roles db) role" using assms(2) by (auto simp: carried_only_def is_derived_def)
  have gi: "grants_inv (az_scope_nodes db) (az_roles db) (az_scope_grants db)" using wf by (simp add: access_wf_def)
  show "sh_role_id h \<noteq> role" if "h \<in> set (az_record_shares db)" for h
    using wf that derived by (auto simp: access_wf_def shares_inv_def)
  show "ra_role_id a \<noteq> role" if "a \<in> set (az_role_assignments db)" for a
    using wf that derived by (auto simp: access_wf_def assignments_inv_def)
  fix g
  assume g: "g \<in> set (az_scope_grants db)" "sg_role_id g = role"
  have ci: "cause_inv (az_roles db) (az_scope_grants db) x" if "x \<in> set (az_scope_grants db)" for x
    using gi that by (simp add: grants_inv_def)
  obtain c where "sg_derived_from g = Some c" using ci [OF g(1)] g(2) assms(2) by (cases "sg_derived_from g") (auto simp: cause_inv_def)
  then obtain cause where c: "cause \<in> set (az_scope_grants db)" "sg_derived_from g = Some (sg_id cause)" "sg_org_id cause = sg_org_id g" "sg_derived_from cause = None"
    using ci [OF g(1)] by (auto simp: cause_inv_def)
  then have "\<not> carried_only (az_roles db) (sg_role_id cause)" using ci [OF c(1)] by (simp add: cause_inv_def)
  then show "\<exists>cause \<in> set (az_scope_grants db). sg_derived_from g = Some (sg_id cause) \<and> sg_org_id cause = sg_org_id g \<and>
        sg_derived_from cause = None \<and> \<not> carried_only (az_roles db) (sg_role_id cause)" using c by blast
qed

section \<open>Tenants\<close>

lemma fst_read [simp]:
  "fst (Within (read_only f) db) = f db"
  "org \<noteq> [] \<Longrightarrow> fst (WithOrgTx org (\<lambda>s. read_only (h s)) db) = h (TenantTx org) db"
  by (cases "f db"; simp add: Within_def read_only_def) (cases "h (TenantTx org) db"; simp add: WithOrgTx_def Within_def read_only_def)

lemma same_view_store:
  assumes "same_view t db db'"
  shows "store_CheckAccess env (TenantTx t) subject kind rtype rid action db' = store_CheckAccess env (TenantTx t) subject kind rtype rid action db"
    and "accessibleScopesQuery env (TenantTx t) subject kind rtype action t pred db' = accessibleScopesQuery env (TenantTx t) subject kind rtype action t pred db"
    and "store_CheckPermission (TenantTx t) subject kind rtype action t scope db' = store_CheckPermission (TenantTx t) subject kind rtype action t scope db"
    and "store_ListShares (TenantTx t) t rtype rid db' = store_ListShares (TenantTx t) t rtype rid db"
    and "store_ListRoleAssignments (TenantTx t) t text kind db' = store_ListRoleAssignments (TenantTx t) t text kind db"
    and "store_ListRoles (TenantTx t) t db' = store_ListRoles (TenantTx t) t db"
proof -
  note v = assms [unfolded same_view_def]
  have p: "platformReadPredicate b subject db' = platformReadPredicate b subject db" for b using v by (simp add: platformReadPredicate_def)
  have g: "grant_confers env (TenantTx t) of_subject rtype action db' = grant_confers env (TenantTx t) of_subject rtype action db"
    "share_confers env (TenantTx t) of_subject rtype action db' = share_confers env (TenantTx t) of_subject rtype action db" for of_subject
    using v by (simp_all add: grant_confers_def share_confers_def fun_eq_iff)
  show "store_CheckAccess env (TenantTx t) subject kind rtype rid action db' = store_CheckAccess env (TenantTx t) subject kind rtype rid action db"
  proof -
    have "placed_record (TenantTx t) rtype rid db' = placed_record (TenantTx t) rtype rid db" using v by (simp add: placed_record_def)
    then show ?thesis using v by (simp only: store_CheckAccess_def p g Let_def)
  qed
  show "accessibleScopesQuery env (TenantTx t) subject kind rtype action t pred db' = accessibleScopesQuery env (TenantTx t) subject kind rtype action t pred db"
    using v by (simp add: accessibleScopesQuery_def p node_granted_def node_shared_def g)
  show "store_CheckPermission (TenantTx t) subject kind rtype action t scope db' = store_CheckPermission (TenantTx t) subject kind rtype action t scope db"
  proof -
    have "role_of_assignment (TenantTx t) db' a = role_of_assignment (TenantTx t) db a" for a using v by (simp add: role_of_assignment_def)
    then show ?thesis using v by (simp only: store_CheckPermission_def assignment_grants_def)
  qed
  show "store_ListShares (TenantTx t) t rtype rid db' = store_ListShares (TenantTx t) t rtype rid db"
    using v by (simp add: store_ListShares_def)
  show "store_ListRoleAssignments (TenantTx t) t text kind db' = store_ListRoleAssignments (TenantTx t) t text kind db"
    using v by (simp add: store_ListRoleAssignments_def)
  have "role_joins (TenantTx t) db' = role_joins (TenantTx t) db" using v by (simp add: role_joins_def fun_eq_iff)
  then show "store_ListRoles (TenantTx t) t db' = store_ListRoles (TenantTx t) t db"
    using v by (simp add: store_ListRoles_def)
qed

text \<open>
  C6. Organizations do not see each other's changes.  Whatever operation an organization performs,
  successful or refused, the answers another organization gets to its questions about access and
  permissions and its listings of nodes, shares, assignments and roles are the same before and
  after.
\<close>

theorem tenant_access_confined:
  assumes "access_reachable db" "access_op (Some a) db db'" "a \<noteq> t" "t \<noteq> []"
  shows "fst (CheckAccess env t subject kind rtype rid action db') = fst (CheckAccess env t subject kind rtype rid action db) \<and>
    fst (ListAccessibleScopes env t subject kind rtype action token requested db') =
      fst (ListAccessibleScopes env t subject kind rtype action token requested db) \<and>
    fst (CheckPermission subject kind rtype action t scope db') = fst (CheckPermission subject kind rtype action t scope db) \<and>
    fst (ListShares t rtype rid db') = fst (ListShares t rtype rid db) \<and>
    fst (ListRoleAssignments t text kind db') = fst (ListRoleAssignments t text kind db) \<and>
    fst (ListRoles t db') = fst (ListRoles t db)"
proof -
  have wf: "access_wf db" using assms(1) by (rule access_reachable_wf)
  have "same_view t db db'" using changes_same_view [OF access_op_changes [OF assms(2) wf] wf assms(3)] .
  note same = same_view_store [OF this]
  have "store_ListAccessibleScopes env (TenantTx t) t subject kind rtype action token n db' =
      store_ListAccessibleScopes env (TenantTx t) t subject kind rtype action token n db" for n
    using \<open>same_view t db db'\<close> by (simp only: store_ListAccessibleScopes_def same same_view_def)
  with same assms(4) show ?thesis
    by (simp add: CheckAccess_def ListAccessibleScopes_def CheckPermission_def ListShares_def ListRoleAssignments_def ListRoles_def ScopedTx_def Let_def)
qed

end
