(* ===== verification/Grant_Properties.thy ===== *)
theory Grant_Properties
  imports Access_Properties
begin

text \<open>
  What granting, sharing and revoking do to the tables, and what the decisions answer afterwards.
\<close>

section \<open>Granting\<close>

definition authority_tables :: "access_db \<Rightarrow> access_db \<Rightarrow> bool" where
  "authority_tables db db' \<longleftrightarrow>
     az_roles db' = az_roles db \<and> az_role_permissions db' = az_role_permissions db \<and> az_role_assignments db' = az_role_assignments db \<and>
     az_scope_nodes db' = az_scope_nodes db \<and> az_teams db' = az_teams db \<and> az_team_members db' = az_team_members db \<and>
     az_organization_members db' = az_organization_members db \<and> az_principals db' = az_principals db \<and>
     az_platform_admins db' = az_platform_admins db \<and> az_installations db' = az_installations db"

lemma authority_tables_views:
  assumes "authority_tables db db'"
  shows "visible_nodes s db' = visible_nodes s db" "visible_roles s db' = visible_roles s db" "visible_permissions s db' = visible_permissions s db"
    "visible_team_members s db' = visible_team_members s db" "visible_installations s db' = visible_installations s db"
  using assms by (cases s; simp add: authority_tables_def visible_nodes_def visible_roles_def visible_permissions_def visible_teams_def
      visible_team_members_def visible_installations_def)+

lemma grantScopeTx_Inr:
  assumes "grantScopeTx env k s actor req cause db = Inr (out, db')"
  obtains kind path row g where "subjectKindColumn (ag_subject_kind req) = Inr kind" "ltree_in (ag_scope_path req) = Some path"
    "row = granted_row env (req\<lparr>ag_id := ax_new_id env k, ag_granted_by := actor, ag_derived_from := cause, ag_created_at := None\<rparr>) kind path"
    "upsert_grant env s row db = Inr (g, db\<lparr>az_scope_grants := az_scope_grants db'\<rparr>)"
    "out = req\<lparr>ag_id := sg_id g, ag_granted_by := actor, ag_derived_from := cause, ag_created_at := Some (sg_created_at g)\<rparr>"
    "authority_tables db db'" "az_record_shares db' = az_record_shares db"
    "requireSubjectInOrgTx env s (ag_org_id req) (ag_subject_id req) (ag_subject_kind req) db = Inr ()" "node_at s path db"
    "ag_role_id req \<in> rl_id ` set (visible_roles s db)"
proof -
  let ?req = "req\<lparr>ag_id := ax_new_id env k, ag_granted_by := actor, ag_derived_from := cause, ag_created_at := None\<rparr>"
  obtain db1 db2 where g1: "store_GrantScope env s ?req db = Inr (out, db1)"
    and g2: "publishLifecycleEvent env ''saas.scope.granted'' (ag_org_id req) (ag_scope_path req) actor
         [(''scope_grant_id'', ag_id out), (''role_id'', ag_role_id req), (''subject_id'', ag_subject_id req), (''scope_path'', ag_scope_path req)] db1 = Inr db2"
    and g3: "access_emitTx env actor ''saas.scope.granted'' ''scope_grant'' (ag_id out) (ag_org_id req)
         [(''role_id'', ag_role_id req), (''subject_id'', ag_subject_id req), (''scope_path'', ag_scope_path req)] db2 = Inr db'"
    and member: "requireSubjectInOrgTx env s (ag_org_id req) (ag_subject_id req) (ag_subject_kind req) db = Inr ()"
    using assms by (auto simp: grantScopeTx_def rbind_eq_Inr Let_def)
  obtain trail events where db': "db' = db1\<lparr>az_events := events, az_audit := trail\<rparr>"
    using publishLifecycleEvent_Inr [OF g2] access_emitTx_Inr [OF g3] by auto
  from g1 show thesis
  proof (rule store_GrantScope_Inr)
    fix kind path g
    assume r: "subjectKindColumn (ag_subject_kind ?req) = Inr kind" "ltree_in (ag_scope_path ?req) = Some path"
      "requireVisibleRole s (ag_role_id ?req) db = Inr ()" "node_at s path db"
      "upsert_grant env s (granted_row env ?req kind path) db = Inr (g, db1)"
      "out = ?req\<lparr>ag_id := sg_id g, ag_created_at := Some (sg_created_at g)\<rparr>"
    from r(5) have db1: "db1 = db\<lparr>az_scope_grants := az_scope_grants db1\<rparr>" by (cases rule: upsert_grant_Inr) simp_all
    have same: "az_scope_grants db1 = az_scope_grants db'" using db' by simp
    have "authority_tables db (db\<lparr>az_scope_grants := az_scope_grants db1, az_events := events, az_audit := trail\<rparr>)" by (simp add: authority_tables_def)
    then have "authority_tables db db'" unfolding db' by (subst db1) simp
    moreover have "az_record_shares db' = az_record_shares db" unfolding db' by (subst db1) simp
    ultimately show thesis
      using that [OF _ _ refl] r member db1 same by (simp add: requireVisibleRole_def)
  qed
qed

lemma refresh_grant_row:
  "sg_expires_at (refresh_grant row g) = sg_expires_at row" "sg_granted_by (refresh_grant row g) = sg_granted_by row"
  by (simp_all add: refresh_grant_def)

lemma grant_key_refresh: "grant_key (refresh_grant row g) = grant_key g"
  by (simp add: grant_key_def)

lemma upsert_grant_rows:
  assumes "upsert_grant env s row db = Inr (g, db1)" "distinct (map grant_key (az_scope_grants db))"
  shows "{x \<in> set (az_scope_grants db1). grant_key x = grant_key row} = {g}"
    "filter (\<lambda>x. grant_key x \<noteq> grant_key row) (az_scope_grants db1) = filter (\<lambda>x. grant_key x \<noteq> grant_key row) (az_scope_grants db)"
    "sg_expires_at g = sg_expires_at row" "sg_granted_by g = sg_granted_by row" "sg_derived_from g = sg_derived_from row"
    "\<forall>old \<in> set (az_scope_grants db). grant_key old = grant_key row \<longrightarrow>
      sg_id g = sg_id old \<and> sg_created_at g = sg_created_at old \<and> sg_derived_from old = sg_derived_from row"
proof -
  have once: "a = b" if "a \<in> set (az_scope_grants db)" "b \<in> set (az_scope_grants db)" "grant_key a = grant_key b" for a b
    using assms(2) that by (auto simp: distinct_map inj_on_def)
  from assms(1) show "{x \<in> set (az_scope_grants db1). grant_key x = grant_key row} = {g}"
  proof (cases rule: upsert_grant_Inr)
    case (refreshed old)
    have old: "old \<in> set (az_scope_grants db)" "grant_key old = grant_key row"
      using select_first_Some [OF refreshed(1)] by (simp_all add: same_grant_key)
    have "{x \<in> set (az_scope_grants db1). grant_key x = grant_key row} = refresh_grant row ` {x \<in> set (az_scope_grants db). grant_key x = grant_key row}"
      by (auto simp: refreshed(5) set_update_where same_grant_key grant_key_refresh)
    also have "{x \<in> set (az_scope_grants db). grant_key x = grant_key row} = {old}" using once old by auto
    finally show ?thesis by (simp add: refreshed(4))
  next
    case added
    then show ?thesis by (auto simp: select_first_None same_grant_key)
  qed
  from assms(1) show "filter (\<lambda>x. grant_key x \<noteq> grant_key row) (az_scope_grants db1) = filter (\<lambda>x. grant_key x \<noteq> grant_key row) (az_scope_grants db)"
  proof (cases rule: upsert_grant_Inr)
    case (refreshed old)
    show ?thesis unfolding refreshed(5) by (simp, rule filter_update_outside) (auto simp: same_grant_key grant_key_refresh)
  qed simp
  from assms(1) show "sg_expires_at g = sg_expires_at row" by (cases rule: upsert_grant_Inr) (simp_all add: refresh_grant_row)
  from assms(1) show "sg_granted_by g = sg_granted_by row" by (cases rule: upsert_grant_Inr) (simp_all add: refresh_grant_row)
  from assms(1) show "sg_derived_from g = sg_derived_from row" by (cases rule: upsert_grant_Inr) simp_all
  from assms(1) show "\<forall>old \<in> set (az_scope_grants db). grant_key old = grant_key row \<longrightarrow>
      sg_id g = sg_id old \<and> sg_created_at g = sg_created_at old \<and> sg_derived_from old = sg_derived_from row"
  proof (cases rule: upsert_grant_Inr)
    case (refreshed old)
    have old: "old \<in> set (az_scope_grants db)" "grant_key old = grant_key row"
      using select_first_Some [OF refreshed(1)] by (simp_all add: same_grant_key)
    then have "x = old" if "x \<in> set (az_scope_grants db)" "grant_key x = grant_key row" for x using once that by simp
    then show ?thesis using refreshed by (auto simp: refresh_grant_def)
  next
    case added
    then show ?thesis by (auto simp: select_first_None same_grant_key)
  qed
qed

lemma grants_keyed: "access_wf db \<Longrightarrow> distinct (map grant_key (az_scope_grants db))"
  by (simp add: access_wf_def grants_inv_def)

lemma granted_row_key: "grant_key (granted_row env req kind path) = (ag_org_id req, ag_subject_id req, kind, path, ag_role_id req)"
  by (simp add: grant_key_def granted_row_def)

text \<open>
  Granting a role on a scope writes exactly one row.  When it succeeds, the grant of that
  subject, scope and role is the only one, carries the requested expiry and grantor and no cause;
  an earlier row keeps its id and its creation time and had no cause either, so that a grant by
  hand never takes over one that a solution carries; every other grant and every other table of the
  authorization is as before.
\<close>

theorem grant_scope_writes_one_row:
  assumes "access_reachable db" "GrantScope env actor req db = (Inr out, db')"
  shows "\<exists>kind path g. subjectKindColumn (ag_subject_kind req) = Inr kind \<and> ltree_in (ag_scope_path req) = Some path \<and>
    (let key = (ag_org_id req, ag_subject_id req, kind, path, ag_role_id req) in
     {x \<in> set (az_scope_grants db'). grant_key x = key} = {g} \<and>
     sg_id g = ag_id out \<and> sg_expires_at g = ag_expires_at req \<and> sg_granted_by g = nilIfEmpty actor \<and> sg_derived_from g = None \<and>
     (\<forall>old \<in> set (az_scope_grants db). grant_key old = key \<longrightarrow>
        sg_id g = sg_id old \<and> sg_created_at g = sg_created_at old \<and> sg_derived_from old = None) \<and>
     filter (\<lambda>x. grant_key x \<noteq> key) (az_scope_grants db') = filter (\<lambda>x. grant_key x \<noteq> key) (az_scope_grants db) \<and>
     authority_tables db db' \<and> az_record_shares db' = az_record_shares db)"
proof -
  have g: "grantScopeTx env 0 (TenantTx (ag_org_id req)) actor req [] db = Inr (out, db')"
    using assms(2) by (auto simp: GrantScope_def WithOrgTx_def Within_Inr split: if_splits)
  obtain kind path row g where r: "subjectKindColumn (ag_subject_kind req) = Inr kind" "ltree_in (ag_scope_path req) = Some path"
    "row = granted_row env (req\<lparr>ag_id := ax_new_id env 0, ag_granted_by := actor, ag_derived_from := [], ag_created_at := None\<rparr>) kind path"
    "upsert_grant env (TenantTx (ag_org_id req)) row db = Inr (g, db\<lparr>az_scope_grants := az_scope_grants db'\<rparr>)"
    "out = req\<lparr>ag_id := sg_id g, ag_granted_by := actor, ag_derived_from := [], ag_created_at := Some (sg_created_at g)\<rparr>"
    "authority_tables db db'" "az_record_shares db' = az_record_shares db"
    using grantScopeTx_Inr [OF g] by metis
  note rows = upsert_grant_rows [OF r(4) grants_keyed [OF access_reachable_wf [OF assms(1)]]]
  have row: "grant_key row = (ag_org_id req, ag_subject_id req, kind, path, ag_role_id req)" "sg_derived_from row = None"
    "sg_expires_at row = ag_expires_at req" "sg_granted_by row = nilIfEmpty actor" "ag_id out = sg_id g"
    by (simp_all add: r(3,5) granted_row_key) (simp_all add: granted_row_def nilIfEmpty_def)
  show ?thesis
    using rows r(1,2,6,7) row by (intro exI [of _ kind] exI [of _ path] exI [of _ g]) (simp add: Let_def)
qed

lemma CheckAccess_via_grant:
  assumes "access_wf db" "org \<noteq> []" "asking_kind kind" "n \<in> set (az_scope_nodes db)" "sn_org_id n = org"
    "sn_resource_type n = Some rtype" "sn_resource_id n = Some rid"
    and "g \<in> set (az_scope_grants db)" "sg_org_id g = org"
    and "grant_confers env (TenantTx org) (subject_of kind asker (visible_team_members (TenantTx org) db)) rtype action db (sn_scope_path n) g"
  shows "fst (CheckAccess env org asker kind rtype rid action db) = Inr (True, ''granted via scope'')"
proof -
  have "g \<in> set (visible_grants (TenantTx org) db)" using assms(8,9) by (simp add: visible_grants_def)
  then have "\<exists>g \<in> set (visible_grants (TenantTx org) db). grant_confers env (TenantTx org)
      (subject_of kind asker (visible_team_members (TenantTx org) db)) rtype action db (sn_scope_path n) g" using assms(10) by blast
  then show ?thesis
    using placed_record_found [OF assms(1,4-7)] layeredSubject_ok [OF assms(3)] assms(2)
    by (simp add: CheckAccess_def store_CheckAccess_def Let_def)
qed

text \<open>
  C28. A grant takes effect at once and for everything below it.  After a grant of a role on a scope,
  a record placed at the scope or anywhere below it may be used by the subject, and by every member
  of the subject when it is a team, for every action the role permits on its type, until the grant
  expires.
\<close>

theorem granted_scope_allows:
  assumes "access_reachable db" "GrantScope env actor req db = (Inr out, db')" "org = ag_org_id req"
    and "n \<in> set (az_scope_nodes db)" "sn_org_id n = org" "sn_resource_type n = Some rtype" "sn_resource_id n = Some rid"
    and "ltree_in (ag_scope_path req) = Some path" "is_ancestor path (sn_scope_path n)"
    and "permits (visible_permissions (TenantTx org) db) (ag_role_id req) rtype action"
    and "unexpired (ax_now later) (ag_expires_at req)"
    and "kind = ag_subject_kind req \<and> asker = ag_subject_id req \<or>
      ag_subject_kind req = SUBJECT_KIND_TEAM \<and> kind = SUBJECT_KIND_PRINCIPAL \<and>
      (ag_subject_id req, asker) \<in> set (visible_team_members (TenantTx org) db)"
  shows "fst (CheckAccess later org asker kind rtype rid action db') = Inr (True, ''granted via scope'')"
proof -
  have org: "ag_org_id req \<noteq> []" using assms(2) by (auto simp: GrantScope_def WithOrgTx_def split: if_splits)
  have g: "grantScopeTx env 0 (TenantTx org) actor req [] db = Inr (out, db')"
    using assms(2,3) by (auto simp: GrantScope_def WithOrgTx_def Within_Inr split: if_splits)
  obtain column row g where r: "subjectKindColumn (ag_subject_kind req) = Inr column"
    "row = granted_row env (req\<lparr>ag_id := ax_new_id env 0, ag_granted_by := actor, ag_derived_from := [], ag_created_at := None\<rparr>) column path"
    "upsert_grant env (TenantTx org) row db = Inr (g, db\<lparr>az_scope_grants := az_scope_grants db'\<rparr>)" "authority_tables db db'"
    using grantScopeTx_Inr [OF g] assms(8) by (metis option.inject)
  note rows = upsert_grant_rows [OF r(3) grants_keyed [OF access_reachable_wf [OF assms(1)]]]
  note same = authority_tables_views [OF r(4)]
  have key: "sg_org_id g = org" "sg_subject_id g = ag_subject_id req" "sg_subject_kind g = column" "sg_scope_path g = path" "sg_role_id g = ag_role_id req"
    using rows(1) assms(3) r(2) by (auto simp: grant_key_def granted_row_def)
  have "subject_of kind asker (visible_team_members (TenantTx org) db') column (ag_subject_id req)" "asking_kind kind"
    using assms(12) r(1) by (auto simp: subject_of_def asking_kind_def same subjectKindColumn_def split: SubjectKind.splits)
  moreover have "sg_expires_at g = ag_expires_at req" using rows(3) by (simp add: r(2) granted_row_def)
  ultimately have "grant_confers later (TenantTx org) (subject_of kind asker (visible_team_members (TenantTx org) db')) rtype action db' (sn_scope_path n) g"
    using assms(9-11) by (simp add: grant_confers_def key same)
  moreover have "g \<in> set (az_scope_grants db')" "n \<in> set (az_scope_nodes db')" using rows(1) assms(4) r(4) by (auto simp: authority_tables_def)
  moreover have "access_wf db'"
    using access_reachable_wf [OF access_reachable_op [OF assms(1) op_grant [where env = env and actor = actor and grant = req]]] assms(2) by simp
  ultimately show ?thesis
    using CheckAccess_via_grant [of db' org kind n rtype rid g later asker action] \<open>asking_kind kind\<close> org assms(3,5-7) key(1) by simp
qed

section \<open>Revoking\<close>

lemma revokeScopeApply_Inr:
  assumes "revokeScopeApply env s actor org subject kind scope_path role db = Inr db'"
  obtains column path where "subjectKindColumn kind = Inr column" "ltree_in scope_path = Some path"
    "az_scope_grants db' = delete_grants (\<lambda>g. in_tenant s (sg_org_id g) \<and> named_grant org subject column path role g) (az_scope_grants db)"
    "authority_tables db db'" "az_record_shares db' = az_record_shares db"
  using assms
  by (auto simp: revokeScopeApply_def store_RevokeScope_def rbind_eq_Inr cast_ltree_Inr authority_tables_def
      dest!: publishLifecycleEvent_Inr access_emitTx_Inr)

text \<open>
  C29. Revoking a grant removes it and everything it caused, and nothing else: the grants that remain
  are exactly those that are neither the named one nor derived from it, in their order, and no
  other table of the authorization changes.
\<close>

theorem revoke_scope_exact:
  assumes "access_reachable db" "RevokeScope env actor org subject kind scope_path role db = (Inr u, db')"
  shows "\<exists>column path. subjectKindColumn kind = Inr column \<and> ltree_in scope_path = Some path \<and>
    (let named = named_grant org subject column path role in
     az_scope_grants db' = filter (\<lambda>g. \<not> named g \<and> \<not> (\<exists>c \<in> set (az_scope_grants db). named c \<and> sg_derived_from g = Some (sg_id c))) (az_scope_grants db)) \<and>
    authority_tables db db' \<and> az_record_shares db' = az_record_shares db"
proof -
  have "revokeScopeApply env ControlPlaneTx actor org subject kind scope_path role db = Inr db'"
    using assms(2) by (auto simp: RevokeScope_def narrow_def WithControlPlane_def Within_Inr rbind_eq_Inr)
  then obtain column path where r: "subjectKindColumn kind = Inr column" "ltree_in scope_path = Some path"
    "az_scope_grants db' = delete_grants (\<lambda>g. in_tenant ControlPlaneTx (sg_org_id g) \<and> named_grant org subject column path role g) (az_scope_grants db)"
    "authority_tables db db'" "az_record_shares db' = az_record_shares db"
    by (rule revokeScopeApply_Inr)
  have inv: "grants_inv (az_scope_nodes db) (az_roles db) (az_scope_grants db)"
    using access_reachable_wf [OF assms(1)] by (simp add: access_wf_def)
  have "az_scope_grants db' = filter (\<lambda>g. \<not> named_grant org subject column path role g \<and>
      \<not> (\<exists>c \<in> set (az_scope_grants db). named_grant org subject column path role c \<and> sg_derived_from g = Some (sg_id c))) (az_scope_grants db)"
    unfolding r(3) delete_grants_inv [OF inv] by (rule filter_cong) (auto simp: caused_by_iff)
  then show ?thesis using r(1,2,4,5) by (intro exI [of _ column] exI [of _ path]) (simp add: Let_def)
qed

section \<open>Sharing\<close>

definition shared_row :: "access_env \<Rightarrow> api_share \<Rightarrow> string \<Rightarrow> record_share" where
  "shared_row env share kind =
     \<lparr>sh_id = ah_id share, sh_org_id = ah_org_id share, sh_resource_type = ah_resource_type share, sh_resource_id = ah_resource_id share,
      sh_subject_id = ah_subject_id share, sh_subject_kind = kind, sh_role_id = ah_role_id share,
      sh_granted_by = nilIfEmpty (ah_granted_by share), sh_expires_at = ah_expires_at share, sh_created_at = ax_now env\<rparr>"

lemma ShareRecord_Inr:
  assumes "ShareRecord env actor req db = (Inr out, db')"
  obtains org subject kind row share where "canonicalSubjectTenancyIDs env (ah_org_id req) (ah_subject_id req) = Inr (org, subject)" "org \<noteq> []"
    "subjectKindColumn (ah_subject_kind req) = Inr kind" "requireSubjectInOrgTx env (TenantTx org) org subject (ah_subject_kind req) db = Inr ()"
    "share_key row = (org, ah_resource_type req, ah_resource_id req, subject, kind, ah_role_id req)" "sh_expires_at row = ah_expires_at req"
    "upsert_share env (TenantTx org) row db = Inr (share, db\<lparr>az_record_shares := az_record_shares db'\<rparr>)"
    "authority_tables db db'" "az_scope_grants db' = az_scope_grants db"
proof -
  obtain org subject where c: "canonicalSubjectTenancyIDs env (ah_org_id req) (ah_subject_id req) = Inr (org, subject)"
    using assms by (auto simp: ShareRecord_def split: sum.splits)
  let ?share = "req\<lparr>ah_id := ax_new_id env 0, ah_org_id := org, ah_subject_id := subject, ah_granted_by := actor, ah_created_at := None\<rparr>"
  obtain db1 where org: "org \<noteq> []" and m: "requireSubjectInOrgTx env (TenantTx org) org subject (ah_subject_kind req) db = Inr ()"
    and s: "store_ShareRecord env (TenantTx org) ?share db = Inr (out, db1)"
    and e: "access_emitTx env actor ''saas.record.shared'' (ah_resource_type req) (ah_resource_id req) org
              [(''role_id'', ah_role_id req), (''subject_id'', subject)] db1 = Inr db'"
    using assms c by (auto simp: ShareRecord_def Let_def WithOrgTx_def Within_Inr rbind_eq_Inr split: if_splits)
  obtain trail where db': "db' = db1\<lparr>az_audit := trail\<rparr>" using access_emitTx_Inr [OF e] by blast
  obtain kind row share where k: "subjectKindColumn (ah_subject_kind req) = Inr kind" and u: "upsert_share env (TenantTx org) row db = Inr (share, db1)"
    and row: "share_key row = (org, ah_resource_type req, ah_resource_id req, subject, kind, ah_role_id req)" "sh_expires_at row = ah_expires_at req"
  proof -
    obtain kind share where k: "subjectKindColumn (ah_subject_kind req) = Inr kind"
      and u: "upsert_share env (TenantTx org) (shared_row env ?share kind) db = Inr (share, db1)"
      using s by (auto simp: store_ShareRecord_def rbind_eq_Inr shared_row_def)
    show thesis by (rule that [OF k u]) (simp_all add: shared_row_def share_key_def)
  qed
  have db1: "db1 = db\<lparr>az_record_shares := az_record_shares db1\<rparr>"
    using u by (auto simp: upsert_share_def split: if_splits option.splits)
  have "az_record_shares db1 = az_record_shares db'" using db' by simp
  moreover have "authority_tables db db'" unfolding db' by (subst db1) (simp add: authority_tables_def)
  moreover have "az_scope_grants db' = az_scope_grants db" unfolding db' by (subst db1) simp
  ultimately show thesis using that c org k m row u db1 by simp
qed

lemma upsert_share_row:
  assumes "upsert_share env s row db = Inr (share, db1)"
  shows "\<exists>h \<in> set (az_record_shares db1). share_key h = share_key row \<and> sh_expires_at h = sh_expires_at row"
    and "\<forall>h \<in> set (az_record_shares db). share_key h \<noteq> share_key row \<Longrightarrow> az_record_shares db1 = az_record_shares db @ [row]"
proof -
  show "\<exists>h \<in> set (az_record_shares db1). share_key h = share_key row \<and> sh_expires_at h = sh_expires_at row"
  proof (cases "select_first (same_share row) (az_record_shares db)")
    case None
    then show ?thesis using assms by (auto simp: upsert_share_def split: if_splits)
  next
    case (Some old)
    let ?f = "\<lambda>h. h\<lparr>sh_granted_by := sh_granted_by row, sh_expires_at := sh_expires_at row\<rparr>"
    have old: "old \<in> set (az_record_shares db)" "same_share row old" using select_first_Some [OF Some] by auto
    have "az_record_shares db1 = update_where (same_share row) ?f (az_record_shares db)"
      using assms Some by (auto simp: upsert_share_def split: if_splits)
    then have "?f old \<in> set (az_record_shares db1)" using old by (auto simp: set_update_where)
    then show ?thesis using old(2) by (intro bexI [of _ "?f old"]) (simp_all add: same_share_key share_key_def)
  qed
  show "az_record_shares db1 = az_record_shares db @ [row]" if "\<forall>h \<in> set (az_record_shares db). share_key h \<noteq> share_key row"
  proof -
    have "select_first (same_share row) (az_record_shares db) = None" using that by (auto simp: select_first_None same_share_key)
    then show ?thesis using assms by (auto simp: upsert_share_def split: if_splits)
  qed
qed

text \<open>
  Sharing a record and revoking the share are inverse.  A share takes effect at once: its
  subject may do with the record what the role permits until it expires, wherever the record is
  placed and even when it is not placed.  When the subject had no such share before, revoking it
  leaves the shares exactly as they were.
\<close>

theorem share_then_revoke:
  assumes "access_reachable db" "ShareRecord env actor req db = (Inr out, db1)"
    and "canonicalSubjectTenancyIDs env (ah_org_id req) (ah_subject_id req) = Inr (org, subject)"
  shows "(permits (visible_permissions (TenantTx org) db) (ah_role_id req) (ah_resource_type req) action \<and> unexpired (ax_now later) (ah_expires_at req) \<longrightarrow>
      (\<exists>reason. fst (CheckAccess later org subject (ah_subject_kind req) (ah_resource_type req) (ah_resource_id req) action db1) = Inr (True, reason))) \<and>
    (\<forall>u db2. (\<forall>h \<in> set (az_record_shares db). \<not> (sh_org_id h = org \<and> sh_resource_type h = ah_resource_type req \<and> sh_resource_id h = ah_resource_id req \<and>
        sh_subject_id h = subject \<and> sh_role_id h = ah_role_id req)) \<longrightarrow>
      RevokeShare later actor' org (ah_resource_type req) (ah_resource_id req) subject (ah_subject_kind req) (ah_role_id req) db1 = (Inr u, db2) \<longrightarrow>
      az_record_shares db2 = az_record_shares db)"
proof (intro conjI allI impI)
  from assms(2) obtain kind row share where r: "org \<noteq> []" "subjectKindColumn (ah_subject_kind req) = Inr kind"
    "share_key row = (org, ah_resource_type req, ah_resource_id req, subject, kind, ah_role_id req)" "sh_expires_at row = ah_expires_at req"
    "upsert_share env (TenantTx org) row db = Inr (share, db\<lparr>az_record_shares := az_record_shares db1\<rparr>)" "authority_tables db db1"
    by (rule ShareRecord_Inr) (use assms(3) in auto)
  note same = authority_tables_views [OF r(6)]
  {
    assume ok: "permits (visible_permissions (TenantTx org) db) (ah_role_id req) (ah_resource_type req) action \<and> unexpired (ax_now later) (ah_expires_at req)"
    obtain h where h: "h \<in> set (az_record_shares db1)" "share_key h = share_key row" "sh_expires_at h = sh_expires_at row"
      using upsert_share_row(1) [OF r(5)] by auto
    have kind: "asking_kind (ah_subject_kind req)"
      using r(2) by (auto simp: asking_kind_def subjectKindColumn_def split: SubjectKind.splits)
    have "subject_of (ah_subject_kind req) subject (visible_team_members (TenantTx org) db1) kind subject"
      using r(2) by (auto simp: subject_of_def subjectKindColumn_def split: SubjectKind.splits)
    then have "share_confers later (TenantTx org) (subject_of (ah_subject_kind req) subject (visible_team_members (TenantTx org) db1))
        (ah_resource_type req) action db1 (ah_resource_id req) h"
      using ok h(2,3) r(3,4) by (auto simp: share_confers_def share_key_def same)
    moreover have "h \<in> set (visible_shares (TenantTx org) db1)" using h(1,2) r(3) by (auto simp: visible_shares_def share_key_def)
    ultimately have shared: "\<exists>h \<in> set (visible_shares (TenantTx org) db1). share_confers later (TenantTx org)
        (subject_of (ah_subject_kind req) subject (visible_team_members (TenantTx org) db1)) (ah_resource_type req) action db1 (ah_resource_id req) h" by blast
    then show "\<exists>reason. fst (CheckAccess later org subject (ah_subject_kind req) (ah_resource_type req) (ah_resource_id req) action db1) = Inr (True, reason)"
      using layeredSubject_ok [OF kind] r(1) by (simp add: CheckAccess_def store_CheckAccess_def Let_def)
  }
  fix u db2
  assume new: "\<forall>h \<in> set (az_record_shares db). \<not> (sh_org_id h = org \<and> sh_resource_type h = ah_resource_type req \<and> sh_resource_id h = ah_resource_id req \<and>
        sh_subject_id h = subject \<and> sh_role_id h = ah_role_id req)"
    and rev: "RevokeShare later actor' org (ah_resource_type req) (ah_resource_id req) subject (ah_subject_kind req) (ah_role_id req) db1 = (Inr u, db2)"
  have "az_record_shares db1 = az_record_shares db @ [row]"
    using upsert_share_row(2) [OF r(5)] new r(3) by (auto simp: share_key_def)
  moreover have "az_record_shares db2 = filter (\<lambda>h. \<not> (sh_org_id h = org \<and> sh_resource_type h = ah_resource_type req \<and>
        sh_resource_id h = ah_resource_id req \<and> sh_subject_id h = subject \<and> sh_subject_kind h = kind \<and> sh_role_id h = ah_role_id req)) (az_record_shares db1)"
    using rev r(2) by (auto simp: RevokeShare_def narrow_def WithControlPlane_def Within_Inr store_RevokeShare_def rbind_eq_Inr dest!: access_emitTx_Inr)
  ultimately show "az_record_shares db2 = az_record_shares db" using new r(3) by (auto simp: share_key_def filter_id_conv)
qed

end
