(* ===== verification/Carried_Properties.thy ===== *)
theory Carried_Properties
  imports Grant_Properties
begin

text \<open>
  What a team holds after a solution was granted to it, and what is left after the grant is
  revoked.
\<close>

section \<open>A derived role after it was ensured\<close>

definition permissions_held :: "uuid \<Rightarrow> access_db \<Rightarrow> permission set" where
  "permissions_held role db = {p. (role, p) \<in> set (az_role_permissions db)}"

lemma permits_held:
  "permits (az_role_permissions db) role resource action \<longleftrightarrow>
    (\<exists>p \<in> permissions_held role db. (pm_resource p = ''*'' \<or> pm_resource p = resource) \<and> (pm_action p = ''*'' \<or> pm_action p = action))"
  by (force simp: permits_def permissions_held_def)

lemma permits_visible:
  assumes "role \<in> rl_id ` set (visible_roles s db)"
  shows "permits (visible_permissions s db) role resource action = permits (az_role_permissions db) role resource action"
proof -
  have "rp \<in> set (visible_permissions s db) \<longleftrightarrow> rp \<in> set (az_role_permissions db)" if "fst rp = role" for rp
    using assms that by (cases s) (auto simp: visible_permissions_def)
  then show ?thesis unfolding permits_def by blast
qed

lemma rolePermits_held:
  "rolePermitsPredicate s role db p \<longleftrightarrow> role \<in> rl_id ` set (visible_roles s db) \<and> permits (az_role_permissions db) role (fst p) (snd p)"
  using permits_visible [of role s db] by (auto simp: rolePermitsPredicate_def)

definition role_row_kept :: "role_row \<Rightarrow> role_row \<Rightarrow> bool" where
  "role_row_kept r r' \<longleftrightarrow> rl_id r' = rl_id r \<and> rl_org_id r' = rl_org_id r \<and> rl_derived_from r' = rl_derived_from r"

lemma role_row_kept_trans: "role_row_kept r r' \<Longrightarrow> role_row_kept r' r'' \<Longrightarrow> role_row_kept r r''"
  by (simp add: role_row_kept_def)

definition roles_kept :: "access_db \<Rightarrow> access_db \<Rightarrow> bool" where
  "roles_kept db db' \<longleftrightarrow> (\<forall>r \<in> set (az_roles db). \<exists>r' \<in> set (az_roles db'). role_row_kept r r')"

lemma roles_kept_refl: "roles_kept db db"
  by (auto simp: roles_kept_def role_row_kept_def)

lemma roles_kept_trans: "roles_kept db db1 \<Longrightarrow> roles_kept db1 db2 \<Longrightarrow> roles_kept db db2"
  unfolding roles_kept_def by (meson role_row_kept_trans)

lemma roles_kept_ids:
  assumes "roles_kept db db'" "j \<in> rl_id ` set (az_roles db)"
  shows "j \<in> rl_id ` set (az_roles db')"
proof -
  obtain r where "r \<in> set (az_roles db)" "rl_id r = j" using assms(2) by blast
  then obtain r' where "r' \<in> set (az_roles db')" "rl_id r' = j" using assms(1) by (auto simp: roles_kept_def role_row_kept_def)
  then show ?thesis by blast
qed

lemma reconcile_held:
  assumes "role \<in> rl_id ` set (visible_roles s db)"
  shows "permissions_held i (reconcile_permissions s role perms db) = (if i = role then set perms else permissions_held i db)"
proof -
  have "(role, p) \<in> set (visible_permissions s db) \<longleftrightarrow> (role, p) \<in> set (az_role_permissions db)" for p
    using assms by (cases s) (auto simp: visible_permissions_def)
  then show ?thesis
    by (force simp: permissions_held_def reconcile_permissions_def Let_def image_iff)
qed

definition only_roles_changed :: "access_db \<Rightarrow> access_db \<Rightarrow> bool" where
  "only_roles_changed db db' \<longleftrightarrow> az_scope_nodes db' = az_scope_nodes db \<and> az_scope_grants db' = az_scope_grants db \<and>
     az_record_shares db' = az_record_shares db \<and> az_role_assignments db' = az_role_assignments db \<and> az_teams db' = az_teams db \<and>
     az_team_members db' = az_team_members db \<and> az_organization_members db' = az_organization_members db \<and>
     az_principals db' = az_principals db \<and> az_platform_admins db' = az_platform_admins db \<and> az_installations db' = az_installations db"

lemma ensure_role_row_effect:
  assumes "ensure_role_row env k (TenantTx t) role db = Inr (i, db')" "dr_org_id role = t"
  shows "only_roles_changed db db'" "az_role_permissions db' = az_role_permissions db" "roles_kept db db'"
    "\<exists>r \<in> set (az_roles db'). rl_id r = i \<and> rl_derived_from r = Some (dr_derived_from role) \<and> r \<in> set (visible_roles (TenantTx t) db')"
    "i \<in> rl_id ` set (az_roles db) \<Longrightarrow> \<exists>r \<in> set (az_roles db). rl_id r = i \<and> rl_derived_from r = Some (dr_derived_from role)"
proof -
  let ?found = "select_first (\<lambda>r. rl_derived_from r = Some (dr_derived_from role)) (visible_roles (TenantTx t) db)"
  have "only_roles_changed db db' \<and> az_role_permissions db' = az_role_permissions db \<and> roles_kept db db' \<and>
    (\<exists>r \<in> set (az_roles db'). rl_id r = i \<and> rl_derived_from r = Some (dr_derived_from role) \<and> r \<in> set (visible_roles (TenantTx t) db')) \<and>
    (i \<in> rl_id ` set (az_roles db) \<longrightarrow> (\<exists>r \<in> set (az_roles db). rl_id r = i \<and> rl_derived_from r = Some (dr_derived_from role)))"
  proof (cases ?found)
    case None
    obtain row where db': "db' = db\<lparr>az_roles := az_roles db @ [row]\<rparr>" and row: "rl_id row = i" "rl_derived_from row = Some (dr_derived_from role)"
        "rl_org_id row = Some t" "i \<notin> rl_id ` set (az_roles db)"
      using assms None by (auto simp: ensure_role_row_def insert_role_row_def rbind_eq_Inr split: if_splits)
    have "only_roles_changed db db'" by (simp add: only_roles_changed_def db')
    then show ?thesis using row by (auto simp: db' roles_kept_def role_row_kept_def visible_roles_def global_or_in_tenant_def)
  next
    case (Some r)
    note r = select_first_Some [OF Some]
    let ?f = "\<lambda>r. r\<lparr>rl_description := Some (dr_description role)\<rparr>"
    have i: "i = rl_id r" and db': "db' = (if text_of (rl_description r) \<noteq> dr_description role then set_role_description (rl_id r) (dr_description role) db else db)"
      using assms Some by (auto simp: ensure_role_row_def)
    define rs where "rs = (if text_of (rl_description r) \<noteq> dr_description role then update_where (\<lambda>x. rl_id x = rl_id r) ?f (az_roles db) else az_roles db)"
    have db'': "db' = db\<lparr>az_roles := rs\<rparr>" by (simp add: db' rs_def set_role_description_def)
    have upd: "(if text_of (rl_description r) \<noteq> dr_description role \<and> rl_id x = rl_id r then ?f x else x) \<in> set rs" if "x \<in> set (az_roles db)" for x
      using that by (auto simp: rs_def set_update_where)
    have "only_roles_changed db db'" by (simp add: only_roles_changed_def db'')
    moreover have "roles_kept db db'"
      unfolding roles_kept_def
    proof
      fix x
      assume "x \<in> set (az_roles db)"
      from upd [OF this] show "\<exists>x' \<in> set (az_roles db'). role_row_kept x x'"
        by (intro bexI) (auto simp: role_row_kept_def db'')
    qed
    moreover have "\<exists>x \<in> set (az_roles db'). rl_id x = i \<and> rl_derived_from x = Some (dr_derived_from role) \<and> x \<in> set (visible_roles (TenantTx t) db')"
    proof -
      have here: "r \<in> set (az_roles db)" "global_or_in_tenant (TenantTx t) (rl_org_id r)" using r(1) by (simp_all add: visible_roles_def)
      from upd [OF here(1)] show ?thesis using r(2) i here(2) by (intro bexI) (auto simp: db'' visible_roles_def)
    qed
    ultimately show ?thesis using r i by (auto simp: db'' visible_roles_def)
  qed
  then show "only_roles_changed db db'" "az_role_permissions db' = az_role_permissions db" "roles_kept db db'"
    "\<exists>r \<in> set (az_roles db'). rl_id r = i \<and> rl_derived_from r = Some (dr_derived_from role) \<and> r \<in> set (visible_roles (TenantTx t) db')"
    "i \<in> rl_id ` set (az_roles db) \<Longrightarrow> \<exists>r \<in> set (az_roles db). rl_id r = i \<and> rl_derived_from r = Some (dr_derived_from role)"
    by blast+
qed

text \<open>Ensuring a derived role gives it exactly the requested permissions and touches no other role.\<close>

lemma EnsureDerivedRole_effect:
  assumes "EnsureDerivedRole env k (TenantTx t) role db = Inr (i, db')" "dr_org_id role = t"
  shows "only_roles_changed db db'" "roles_kept db db'"
    "permissions_held j db' = (if j = i then set (dr_permissions role) else permissions_held j db)"
    "\<exists>r \<in> set (visible_roles (TenantTx t) db'). rl_id r = i \<and> rl_derived_from r = Some (dr_derived_from role)"
    "i \<in> rl_id ` set (az_roles db) \<Longrightarrow> \<exists>r \<in> set (az_roles db). rl_id r = i \<and> rl_derived_from r = Some (dr_derived_from role)"
proof -
  obtain db1 where e1: "ensure_role_row env k (TenantTx t) role db = Inr (i, db1)" and db': "db' = reconcile_permissions (TenantTx t) i (dr_permissions role) db1"
    using assms(1) by (auto simp: EnsureDerivedRole_def rbind_eq_Inr split: if_splits)
  note e = ensure_role_row_effect [OF e1 assms(2)]
  have roles: "az_roles db' = az_roles db1" by (simp add: db' reconcile_permissions_def Let_def)
  show "only_roles_changed db db'" 
    using e(1) by (simp add: only_roles_changed_def db' reconcile_permissions_def Let_def)
  show "roles_kept db db'" using e(3) by (simp add: roles_kept_def roles)
  have "permissions_held j db1 = permissions_held j db" using e(2) by (simp add: permissions_held_def)
  then show "permissions_held j db' = (if j = i then set (dr_permissions role) else permissions_held j db)"
    using e(4) unfolding db' by (subst reconcile_held) auto
  show "\<exists>r \<in> set (visible_roles (TenantTx t) db'). rl_id r = i \<and> rl_derived_from r = Some (dr_derived_from role)"
    using e(4) by (auto simp: visible_roles_def roles)
  show "i \<in> rl_id ` set (az_roles db) \<Longrightarrow> \<exists>r \<in> set (az_roles db). rl_id r = i \<and> rl_derived_from r = Some (dr_derived_from role)" by (rule e(5))
qed

section \<open>What is carried\<close>

definition carried_bound :: "(string \<times> string \<Rightarrow> bool) \<Rightarrow> string \<Rightarrow> carried_plan list \<Rightarrow> permission set \<Rightarrow> bool" where
  "carried_bound allowed audience plans held \<longleftrightarrow> reach_permission \<in> held \<and>
     (\<forall>p \<in> held. p = reach_permission \<or> (\<exists>plan \<in> set plans. cp_audience plan = audience \<and>
        (pm_resource p, pm_action p) \<in> set (declaredPairs (cp_declared plan)) \<and> allowed (pm_resource p, pm_action p)))"

lemma carried_bound_mono: "carried_bound allowed audience plans held \<Longrightarrow> set plans \<subseteq> set plans' \<Longrightarrow> carried_bound allowed audience plans' held"
  unfolding carried_bound_def by blast

lemma carried_permissions_bound:
  assumes "plan \<in> set plans"
  shows "carried_bound (rolePermitsPredicate s chosen db) (cp_audience plan) plans
    (set (carried_permissions (declaredPairs (cp_declared plan)) (RolePermittedScopes s chosen (declaredPairs (cp_declared plan)) db)))"
  using assms by (force simp: carried_bound_def carried_permissions_def RolePermittedScopes_def set_zip)

definition kept_open :: "access_db \<Rightarrow> access_db \<Rightarrow> bool" where
  "kept_open db db' \<longleftrightarrow> (\<forall>g \<in> set (az_scope_grants db). sg_expires_at g = None \<longrightarrow>
     (\<exists>g' \<in> set (az_scope_grants db'). grant_key g' = grant_key g \<and> sg_expires_at g' = None \<and> sg_derived_from g' = sg_derived_from g \<and> sg_id g' = sg_id g))"

lemma kept_open_refl: "kept_open db db"
  by (auto simp: kept_open_def)

lemma kept_open_trans: "kept_open db db1 \<Longrightarrow> kept_open db1 db2 \<Longrightarrow> kept_open db db2"
  unfolding kept_open_def by metis

lemma upsert_kept_open:
  assumes "upsert_grant env s row db = Inr (g, db1)" "distinct (map grant_key (az_scope_grants db))" "sg_expires_at row = None"
  shows "kept_open db db1"
  unfolding kept_open_def
proof (intro ballI impI)
  fix x
  assume x: "x \<in> set (az_scope_grants db)" "sg_expires_at x = None"
  note rows = upsert_grant_rows [OF assms(1,2)]
  show "\<exists>g' \<in> set (az_scope_grants db1). grant_key g' = grant_key x \<and> sg_expires_at g' = None \<and> sg_derived_from g' = sg_derived_from x \<and> sg_id g' = sg_id x"
  proof (cases "grant_key x = grant_key row")
    case True
    have "g \<in> set (az_scope_grants db1)" "grant_key g = grant_key row" using rows(1) by auto
    then show ?thesis using True x(1) rows(3,5,6) assms(3) by (intro bexI [of _ g]) auto
  next
    case False
    have "x \<in> set (filter (\<lambda>x. grant_key x \<noteq> grant_key row) (az_scope_grants db1))" using False x(1) rows(2) by simp
    then show ?thesis using x(2) by auto
  qed
qed

lemma team_grant_effect:
  assumes "grantScopeTx env k (TenantTx t) actor (team_request t team path role) cause db = Inr (grant, db')" "access_wf db"
  shows "authority_tables db db'" "kept_open db db'" "ag_scope_path grant = path" "ag_role_id grant = role"
    "\<exists>root g. ltree_in path = Some root \<and> g \<in> set (az_scope_grants db') \<and> grant_key g = (t, team, ''team'', root, role) \<and>
      sg_expires_at g = None \<and> sg_derived_from g = nilIfEmpty cause \<and> sg_id g = ag_id grant"
proof -
  let ?req = "team_request t team path role"
  obtain kind root row g where r: "subjectKindColumn (ag_subject_kind ?req) = Inr kind" "ltree_in (ag_scope_path ?req) = Some root"
    "row = granted_row env (?req\<lparr>ag_id := ax_new_id env k, ag_granted_by := actor, ag_derived_from := cause, ag_created_at := None\<rparr>) kind root"
    "upsert_grant env (TenantTx t) row db = Inr (g, db\<lparr>az_scope_grants := az_scope_grants db'\<rparr>)"
    "grant = ?req\<lparr>ag_id := sg_id g, ag_granted_by := actor, ag_derived_from := cause, ag_created_at := Some (sg_created_at g)\<rparr>"
    "authority_tables db db'"
    using grantScopeTx_Inr [OF assms(1)] by metis
  note rows = upsert_grant_rows [OF r(4) grants_keyed [OF assms(2)]]
  have row: "grant_key row = (t, team, ''team'', root, role)" "sg_expires_at row = None" "sg_derived_from row = nilIfEmpty cause"
    using r(1) by (simp_all add: r(3) granted_row_key subjectKindColumn_def) (simp_all add: granted_row_def)
  show "authority_tables db db'" by (rule r(6))
  show "kept_open db db'" using upsert_kept_open [OF r(4) grants_keyed [OF assms(2)] row(2)] by (simp add: kept_open_def)
  show "ag_scope_path grant = path" "ag_role_id grant = role" by (simp_all add: r(5))
  have "g \<in> set (az_scope_grants db')" "grant_key g = grant_key row" using rows(1) by auto
  then show "\<exists>root g. ltree_in path = Some root \<and> g \<in> set (az_scope_grants db') \<and> grant_key g = (t, team, ''team'', root, role) \<and>
      sg_expires_at g = None \<and> sg_derived_from g = nilIfEmpty cause \<and> sg_id g = ag_id grant"
    using r(2,5) rows(3,5) row by (intro exI [of _ root] exI [of _ g]) simp
qed

lemma carried_provenance_inj: "carried_provenance i a c = carried_provenance i a' c \<longleftrightarrow> a = a'"
  by (simp add: carried_provenance_def)

definition not_carried :: "uuid \<Rightarrow> uuid \<Rightarrow> access_db \<Rightarrow> bool" where
  "not_carried installation chosen db \<longleftrightarrow> (\<exists>r \<in> set (az_roles db). rl_id r = chosen \<and>
     (\<forall>aud. rl_derived_from r \<noteq> Some (carried_provenance installation aud chosen)))"

lemma not_carried_kept: "not_carried installation chosen db \<Longrightarrow> roles_kept db db' \<Longrightarrow> not_carried installation chosen db'"
  unfolding not_carried_def roles_kept_def role_row_kept_def by metis

lemma role_once: "access_wf db \<Longrightarrow> r \<in> set (az_roles db) \<Longrightarrow> r' \<in> set (az_roles db) \<Longrightarrow> rl_id r = rl_id r' \<Longrightarrow> r = r'"
  by (auto simp: access_wf_def roles_inv_def distinct_map inj_on_def)

lemma visible_role_iff:
  assumes "access_wf db" "r \<in> set (az_roles db)"
  shows "rl_id r \<in> rl_id ` set (visible_roles s db) \<longleftrightarrow> global_or_in_tenant s (rl_org_id r)"
proof
  assume "rl_id r \<in> rl_id ` set (visible_roles s db)"
  then obtain x where x: "x \<in> set (az_roles db)" "rl_id r = rl_id x" "global_or_in_tenant s (rl_org_id x)" by (auto simp: visible_roles_def)
  then show "global_or_in_tenant s (rl_org_id r)" using role_once [OF assms x(1,2)] by simp
qed (use assms(2) in \<open>simp add: visible_roles_def\<close>)

lemma visible_kept:
  assumes "access_wf db" "access_wf db'" "roles_kept db db'" "role \<in> rl_id ` set (az_roles db)"
  shows "role \<in> rl_id ` set (visible_roles s db') \<longleftrightarrow> role \<in> rl_id ` set (visible_roles s db)"
proof -
  obtain r where r: "r \<in> set (az_roles db)" "rl_id r = role" using assms(4) by blast
  then obtain r' where r': "r' \<in> set (az_roles db')" "rl_id r' = role" "rl_org_id r' = rl_org_id r"
    using assms(3) by (auto simp: roles_kept_def role_row_kept_def)
  show ?thesis using visible_role_iff [OF assms(1) r(1)] visible_role_iff [OF assms(2) r'(1)] r(2) r'(2,3) by simp
qed

definition carried_held :: "uuid \<Rightarrow> (string \<times> string \<Rightarrow> bool) \<Rightarrow> uuid \<Rightarrow> uuid \<Rightarrow> carried_plan list \<Rightarrow> string \<Rightarrow> uuid \<Rightarrow> access_db \<Rightarrow> bool" where
  "carried_held t allowed installation chosen plans audience role db \<longleftrightarrow>
     (\<exists>r \<in> set (visible_roles (TenantTx t) db). rl_id r = role \<and> rl_derived_from r = Some (carried_provenance installation audience chosen)) \<and>
     carried_bound allowed audience plans (permissions_held role db)"

definition team_reaches :: "uuid \<Rightarrow> uuid \<Rightarrow> uuid \<Rightarrow> string \<Rightarrow> uuid \<Rightarrow> access_db \<Rightarrow> bool" where
  "team_reaches t team cause path role db \<longleftrightarrow>
     (\<exists>root g. ltree_in path = Some root \<and> g \<in> set (az_scope_grants db) \<and> grant_key g = (t, team, ''team'', root, role) \<and>
        sg_expires_at g = None \<and> sg_derived_from g = nilIfEmpty cause)"

lemma team_reaches_kept: "team_reaches t team cause path role db \<Longrightarrow> kept_open db db' \<Longrightarrow> team_reaches t team cause path role db'"
  unfolding team_reaches_def kept_open_def by metis

lemma carried_step:
  assumes wf: "access_wf db" and cause: "hand_cause t cause db" and plain: "not_carried installation chosen db"
    and plan: "plan \<in> set plans" "perms = carried_permissions (declaredPairs (cp_declared plan)) (RolePermittedScopes (TenantTx t) chosen (declaredPairs (cp_declared plan)) db)"
    and e: "EnsureDerivedRole env k (TenantTx t) (carried_role t installation (cp_audience plan) chosen description perms) db = Inr (role, db1)"
    and g: "grantScopeTx env k' (TenantTx t) actor (team_request t team path role) cause db1 = Inr (grant, db2)"
  shows "access_wf db2" "roles_kept db db2" "kept_open db db2" "az_scope_nodes db2 = az_scope_nodes db"
    "rolePermitsPredicate (TenantTx t) chosen db2 = rolePermitsPredicate (TenantTx t) chosen db"
    "j \<noteq> role \<Longrightarrow> permissions_held j db2 = permissions_held j db"
    "carried_held t (rolePermitsPredicate (TenantTx t) chosen db) installation chosen plans (cp_audience plan) role db2"
    "team_reaches t team cause path role db2" "ag_scope_path grant = path" "hand_cause t cause db2"
proof -
  note c = changes_EnsureDerivedRole [OF e _ access_wf_owned [OF wf], simplified]
  note f = EnsureDerivedRole_effect [OF e, simplified]
  have wf1: "access_wf db1" using access_wf_changes [OF c(1) wf] .
  note team = team_grant_effect [OF g wf1]
  have hand1: "hand_cause t cause db1" using cause c(3) by (simp add: hand_cause_def)
  have "access_changes (Some t) db1 db2"
    by (rule changes_grantScopeTx(1) [OF g]) (use hand1 c(2) in simp_all)
  then show wf2: "access_wf db2" by (rule access_wf_changes [OF _ wf1])
  have same: "az_roles db2 = az_roles db1" "permissions_held i db2 = permissions_held i db1" "az_scope_nodes db2 = az_scope_nodes db1" for i
    using team(1) by (simp_all add: authority_tables_def permissions_held_def)
  show kept: "roles_kept db db2" using f(2) by (simp add: roles_kept_def same)
  show "kept_open db db2" using team(2) f(1) by (simp add: kept_open_def only_roles_changed_def)
  show "az_scope_nodes db2 = az_scope_nodes db" using f(1) same by (simp add: only_roles_changed_def)
  show held: "j \<noteq> role \<Longrightarrow> permissions_held j db2 = permissions_held j db" for j using f(3) [of j] same by simp
  obtain r where r: "r \<in> set (az_roles db)" "rl_id r = chosen" "\<And>aud. rl_derived_from r \<noteq> Some (carried_provenance installation aud chosen)"
    using plain by (auto simp: not_carried_def)
  have "chosen \<noteq> role"
  proof
    assume "chosen = role"
    then obtain x where "x \<in> set (az_roles db)" "rl_id x = chosen" "rl_derived_from x = Some (carried_provenance installation (cp_audience plan) chosen)"
      using f(5) r(1,2) by force
    then show False using role_once [OF wf r(1)] r(2,3) by metis
  qed
  then have "permissions_held chosen db2 = permissions_held chosen db" using held by blast
  moreover have "chosen \<in> rl_id ` set (visible_roles (TenantTx t) db2) \<longleftrightarrow> chosen \<in> rl_id ` set (visible_roles (TenantTx t) db)"
    by (rule visible_kept [OF wf wf2 kept]) (use r(1,2) in blast)
  ultimately show "rolePermitsPredicate (TenantTx t) chosen db2 = rolePermitsPredicate (TenantTx t) chosen db"
    by (simp add: fun_eq_iff rolePermits_held permits_held)
  have "permissions_held role db2 = set perms" using f(3) [of role] same by simp
  then show "carried_held t (rolePermitsPredicate (TenantTx t) chosen db) installation chosen plans (cp_audience plan) role db2"
    using carried_permissions_bound [OF plan(1)] f(4) by (simp add: carried_held_def plan(2) visible_roles_def same)
  show "team_reaches t team cause path role db2" using team(5) by (auto simp: team_reaches_def)
  show "ag_scope_path grant = path" by (rule team(3))
  show "hand_cause t cause db2" using hand_cause_kept [OF g hand1] .
qed

lemma carry_effect:
  assumes "carryModuleAccessTx env k (TenantTx t) actor t installation team describe chosen cause plans db = Inr ((carried, unmet), db')"
    and "access_wf db" "hand_cause t cause db" "not_carried installation chosen db"
  shows "roles_kept db db' \<and> kept_open db db' \<and> az_scope_nodes db' = az_scope_nodes db \<and> access_wf db' \<and>
    (\<forall>j \<in> rl_id ` set (az_roles db). permissions_held j db' = permissions_held j db \<or>
      (\<exists>audience. carried_held t (rolePermitsPredicate (TenantTx t) chosen db) installation chosen plans audience j db')) \<and>
    (\<forall>m \<in> set carried. carried_held t (rolePermitsPredicate (TenantTx t) chosen db) installation chosen plans (cm_audience m) (cm_role_id m) db' \<and>
      team_reaches t team cause (cm_scope_path m) (cm_role_id m) db')"
  using assms
proof (induction plans arbitrary: k db carried unmet)
  case Nil
  then show ?case by (simp add: roles_kept_refl kept_open_refl)
next
  case (Cons plan plans)
  let ?allowed = "rolePermitsPredicate (TenantTx t) chosen db"
  have mono: "carried_held t ?allowed installation chosen plans audience j db' \<Longrightarrow> carried_held t ?allowed installation chosen (plan # plans) audience j db'" for audience j
    by (auto simp: carried_held_def intro: carried_bound_mono)
  from Cons.prems(1) show ?case
  proof (cases rule: carry_cases)
    case (skipped unmet')
    then show ?thesis using Cons.IH [OF skipped(3) Cons.prems(2-4)] mono by blast
  next
    case (carried path role db1 grant db2 carried' perms)
    note one = carried_step [OF Cons.prems(2-4) list.set_intros(1) [of plan plans] carried(1,3,4)]
    note rest = Cons.IH [OF carried(5) one(1,10) not_carried_kept [OF Cons.prems(4) one(2)], unfolded one(5)]
    have later: "permissions_held j db' = permissions_held j db2 \<or> (\<exists>audience. carried_held t ?allowed installation chosen plans audience j db')"
      if "j \<in> rl_id ` set (az_roles db2)" for j using rest that by blast
    obtain r where r: "r \<in> set (az_roles db2)" "rl_id r = role" "rl_derived_from r = Some (carried_provenance installation (cp_audience plan) chosen)"
      "global_or_in_tenant (TenantTx t) (rl_org_id r)"
      using one(7) by (auto simp: carried_held_def visible_roles_def)
    then obtain r' where r': "r' \<in> set (az_roles db')" "rl_id r' = role" "rl_derived_from r' = Some (carried_provenance installation (cp_audience plan) chosen)"
      "global_or_in_tenant (TenantTx t) (rl_org_id r')"
      using rest by (auto simp: roles_kept_def role_row_kept_def)
    have "role \<in> rl_id ` set (az_roles db2)" using r(1,2) by blast
    from later [OF this] have head: "carried_held t ?allowed installation chosen (plan # plans) (cp_audience plan) role db'"
    proof (elim disjE exE)
      assume "permissions_held role db' = permissions_held role db2"
      then show ?thesis using one(7) r' by (auto simp: carried_held_def visible_roles_def)
    next
      fix audience
      assume h: "carried_held t ?allowed installation chosen plans audience role db'"
      then obtain x where x: "x \<in> set (az_roles db')" "rl_id x = role" "rl_derived_from x = Some (carried_provenance installation audience chosen)"
        by (auto simp: carried_held_def visible_roles_def)
      have "access_wf db'" using rest by blast
      then have "x = r'" using x(1,2) r'(1,2) by (intro role_once) simp_all
      then have "audience = cp_audience plan" using x(3) r'(3) carried_provenance_inj by simp
      then show ?thesis using mono [OF h] by simp
    qed
    have reach: "team_reaches t team cause path role db'" using team_reaches_kept [OF one(8)] rest by blast
    have held: "permissions_held j db' = permissions_held j db \<or> (\<exists>audience. carried_held t ?allowed installation chosen (plan # plans) audience j db')"
      if j: "j \<in> rl_id ` set (az_roles db)" for j
    proof (cases "j = role")
      case False
      have "j \<in> rl_id ` set (az_roles db2)" using roles_kept_ids [OF one(2) j] .
      then show ?thesis using later [of j] one(6) [OF False] mono by metis
    qed (use head in blast)
    have "\<forall>m \<in> set carried. carried_held t ?allowed installation chosen (plan # plans) (cm_audience m) (cm_role_id m) db' \<and>
        team_reaches t team cause (cm_scope_path m) (cm_role_id m) db'"
      using head reach rest mono by (simp add: carried(6) one(9))
    then show ?thesis
      using held rest roles_kept_trans [OF one(2)] kept_open_trans [OF one(3)] one(4) by simp
  qed
qed

lemma planned_from:
  assumes "planCarriedModuleAccess reached = (plans, unmet)" "plan \<in> set plans"
  obtains m where "m \<in> set reached" "cp_audience plan = rm_audience m" "cp_declared plan = rm_invoke_scopes m"
    "\<forall>sc \<in> set (rm_invoke_scopes m). ms_resource_ids sc = []" "cp_installation_id plan = rm_installation_id m"
proof -
  have "\<exists>m \<in> set reached. cp_audience plan = rm_audience m \<and> cp_declared plan = rm_invoke_scopes m \<and>
      (\<forall>sc \<in> set (rm_invoke_scopes m). ms_resource_ids sc = []) \<and> cp_installation_id plan = rm_installation_id m"
    using assms
  proof (induction reached arbitrary: plans unmet)
    case (Cons m reached)
    obtain plans' unmet' where rest: "planCarriedModuleAccess reached = (plans', unmet')" by (cases "planCarriedModuleAccess reached")
    have "plan \<in> set plans' \<or> cp_audience plan = rm_audience m \<and> cp_declared plan = rm_invoke_scopes m \<and>
        (\<forall>sc \<in> set (rm_invoke_scopes m). ms_resource_ids sc = []) \<and> cp_installation_id plan = rm_installation_id m"
      using Cons.prems rest by (auto simp: namedResourceScopes_def filter_empty_conv split: if_splits)
    then show ?case using Cons.IH [OF rest] by auto
  qed simp
  then show thesis using that by blast
qed

lemma first_of_each_subset: "set (first_of_each seen ps) \<subseteq> set ps"
  by (induction ps arbitrary: seen) (auto simp: Let_def split: if_splits)

lemma declaredPairs_from: "(kind, action) \<in> set (declaredPairs scopes) \<Longrightarrow> \<exists>sc \<in> set scopes. kind = ms_resource_kind sc \<and> action \<in> set (ms_actions sc)"
  using first_of_each_subset [of "{}" "concat (map (\<lambda>sc. map (\<lambda>a. (ms_resource_kind sc, a)) (ms_actions sc)) scopes)"]
  by (auto simp: declaredPairs_def)

text \<open>Everything about a successful grant of an installation to a team.\<close>

lemma exposure_effect:
  assumes "access_wf db" "GrantInstallationToTeam env (Inr reached) exposure describe actor org installation team role db = (Inr out, db')"
  obtains plans unmet where "planCarriedModuleAccess reached = (plans, unmet)" "access_wf db'" "org \<noteq> []" "az_scope_nodes db' = az_scope_nodes db"
    "team_reaches org team [] (ag_scope_path (ig_grant out)) (ag_role_id (ig_grant out)) db'"
    "rolePermitsPredicate (TenantTx org) (ag_role_id (ig_grant out)) db' (ResourceTypeSolution, ActionUseSolution)"
    "\<forall>m \<in> set (ig_carried out). carried_held org (rolePermitsPredicate (TenantTx org) (ag_role_id (ig_grant out)) db) installation (ag_role_id (ig_grant out))
        plans (cm_audience m) (cm_role_id m) db' \<and>
      team_reaches org team (ag_id (ig_grant out)) (cm_scope_path m) (cm_role_id m) db'"
proof -
  obtain plans unmet where plans: "planCarriedModuleAccess reached = (plans, unmet)" by (cases "planCarriedModuleAccess reached")
  obtain role' where e: "expose_installation env actor org installation team role' describe plans unmet (TenantTx org) db = Inr (out, db')" and org: "org \<noteq> []"
    using assms(2) plans by (auto simp: GrantInstallationToTeam_def WithOrgTx_def Within_Inr split: sum.splits if_splits)
  obtain path chosen grant db1 carried carry_unmet where p: "RolePermits (TenantTx org) chosen ResourceTypeSolution ActionUseSolution db"
    and g: "grantScopeTx env 0 (TenantTx org) actor (team_request org team path chosen) [] db = Inr (grant, db1)"
    and c: "carryModuleAccessTx env 1 (TenantTx org) actor org installation team describe chosen (ag_id grant) plans db1 = Inr ((carried, carry_unmet), db')"
    and out: "out = \<lparr>ig_grant = grant, ig_carried = carried, ig_unmet = unmet @ carry_unmet\<rparr>"
    using expose_installation_Inr [OF e] by metis
  note team = team_grant_effect [OF g assms(1)]
  have wf1: "access_wf db1"
    by (rule access_wf_changes [OF changes_grantScopeTx(1) [OF g] assms(1)]) simp
  obtain root x where x: "x \<in> set (az_scope_grants db1)" "sg_role_id x = chosen" "sg_derived_from x = None" "sg_org_id x = org" "sg_id x = ag_id grant"
    using team(5) by (auto simp: grant_key_def nilIfEmpty_def)
  have hand: "hand_cause org (ag_id grant) db1" using x by (auto simp: hand_cause_def)
  have "cause_inv (az_roles db1) (az_scope_grants db1) x" "chosen \<in> rl_id ` set (az_roles db1)"
    using wf1 x(1,2) by (auto simp: access_wf_def grants_inv_def)
  then obtain r where r: "r \<in> set (az_roles db1)" "rl_id r = chosen" and "\<not> carried_only (az_roles db1) chosen"
    using x(2,3) by (auto simp: cause_inv_def)
  then have "rl_derived_from r \<noteq> Some (carried_provenance installation aud chosen)" for aud
    by (auto simp: carried_only_def SolutionRoleOrigin_def carried_provenance_def)
  then have plain: "not_carried installation chosen db1" using r by (auto simp: not_carried_def)
  note effect = carry_effect [OF c wf1 hand plain]
  have wf': "access_wf db'" and kept: "roles_kept db1 db'" using effect by blast+
  have same: "rolePermitsPredicate (TenantTx org) chosen db1 = rolePermitsPredicate (TenantTx org) chosen db"
    using authority_tables_views [OF team(1)] by (simp add: fun_eq_iff rolePermitsPredicate_def)
  have "\<not> carried_held org allowed installation chosen plans aud chosen db'" for allowed aud
  proof
    assume "carried_held org allowed installation chosen plans aud chosen db'"
    then obtain y where y: "y \<in> set (az_roles db')" "rl_id y = chosen" "rl_derived_from y = Some (carried_provenance installation aud chosen)"
      by (auto simp: carried_held_def visible_roles_def)
    obtain z where z: "z \<in> set (az_roles db')" "rl_id z = chosen" "rl_derived_from z \<noteq> Some (carried_provenance installation aud chosen)"
      using not_carried_kept [OF plain kept] by (auto simp: not_carried_def)
    show False using role_once [OF wf' y(1) z(1)] y z by simp
  qed
  then have held: "permissions_held chosen db' = permissions_held chosen db1"
    using effect r by blast
  moreover have "chosen \<in> rl_id ` set (visible_roles (TenantTx org) db') \<longleftrightarrow> chosen \<in> rl_id ` set (visible_roles (TenantTx org) db1)"
    by (rule visible_kept [OF wf1 wf' kept]) (use r in blast)
  ultimately have "rolePermitsPredicate (TenantTx org) chosen db' = rolePermitsPredicate (TenantTx org) chosen db1"
    by (simp add: fun_eq_iff rolePermits_held permits_held)
  then have permitted: "rolePermitsPredicate (TenantTx org) chosen db' (ResourceTypeSolution, ActionUseSolution)"
    using p same by (simp add: RolePermits_def RolePermittedScopes_def)
  have "team_reaches org team [] path chosen db1" using team(5) by (auto simp: team_reaches_def)
  then have reach: "team_reaches org team [] path chosen db'" using team_reaches_kept effect by blast
  have nodes: "az_scope_nodes db' = az_scope_nodes db" using effect team(1) by (simp add: authority_tables_def)
  show thesis
    using that [OF plans wf' org nodes] reach permitted effect by (simp add: out team(3,4) same)
qed


lemma team_may_use:
  assumes "access_wf db" "team_reaches org team cause path role db" "ltree_in path = Some root" "is_ancestor root (sn_scope_path n)"
    "rolePermitsPredicate (TenantTx org) role db (ResourceTypeSolution, ActionUseSolution)"
  shows "node_direct env org team SUBJECT_KIND_TEAM ResourceTypeSolution ActionUseSolution db n"
proof -
  obtain g where g: "g \<in> set (az_scope_grants db)" "grant_key g = (org, team, ''team'', root, role)" "sg_expires_at g = None"
    using assms(2,3) by (auto simp: team_reaches_def)
  have "grant_confers env (TenantTx org) (subject_of SUBJECT_KIND_TEAM team (visible_team_members (TenantTx org) db))
      ResourceTypeSolution ActionUseSolution db (sn_scope_path n) g"
    using g(2,3) assms(4,5) by (auto simp: grant_confers_def grant_key_def subject_of_def unexpired_def rolePermitsPredicate_def)
  moreover have "g \<in> set (visible_grants (TenantTx org) db)" "sg_org_id g = org" using g by (auto simp: visible_grants_def grant_key_def)
  ultimately show ?thesis by (auto simp: node_direct_def node_granted_def Let_def)
qed

text \<open>
  C30. A solution granted to a team is usable.  After the grant the team may use the installation's
  root and, for each module reported as carried, that module's installation, together with
  everything placed below them, at any later time.
\<close>

theorem exposure_reaches:
  assumes "access_reachable db"
    and "GrantInstallationToTeam env (Inr reached) exposure describe actor org installation team role db = (Inr out, db')"
    and "path = ag_scope_path (ig_grant out) \<or> path \<in> cm_scope_path ` set (ig_carried out)" "ltree_in path = Some root"
    and "n \<in> set (az_scope_nodes db')" "sn_org_id n = org" "is_ancestor root (sn_scope_path n)" "ax_parse_id later (sn_id n) = Some (sn_id n)"
  shows "store_CanReadScopeNode later (TenantTx org) org team SUBJECT_KIND_TEAM ResourceTypeSolution ActionUseSolution (sn_id n) db' = Inr True"
proof -
  obtain plans unmet where e: "access_wf db'" "team_reaches org team [] (ag_scope_path (ig_grant out)) (ag_role_id (ig_grant out)) db'"
    "rolePermitsPredicate (TenantTx org) (ag_role_id (ig_grant out)) db' (ResourceTypeSolution, ActionUseSolution)"
    and held: "\<forall>m \<in> set (ig_carried out). carried_held org (rolePermitsPredicate (TenantTx org) (ag_role_id (ig_grant out)) db) installation (ag_role_id (ig_grant out))
        plans (cm_audience m) (cm_role_id m) db' \<and> team_reaches org team (ag_id (ig_grant out)) (cm_scope_path m) (cm_role_id m) db'"
    using exposure_effect [OF access_reachable_wf [OF assms(1)] assms(2)] by metis
  have "node_direct later org team SUBJECT_KIND_TEAM ResourceTypeSolution ActionUseSolution db' n"
    using assms(3)
  proof
    assume "path = ag_scope_path (ig_grant out)"
    then show ?thesis using team_may_use [OF e(1,2) _ assms(7) e(3)] assms(4) by simp
  next
    assume "path \<in> cm_scope_path ` set (ig_carried out)"
    then obtain m where m: "m \<in> set (ig_carried out)" "cm_scope_path m = path" by blast
    then have r: "team_reaches org team (ag_id (ig_grant out)) path (cm_role_id m) db'" "reach_permission \<in> permissions_held (cm_role_id m) db'"
      using held by (auto simp: carried_held_def carried_bound_def)
    have "cm_role_id m \<in> rl_id ` set (visible_roles (TenantTx org) db')" using held m(1) by (force simp: carried_held_def)
    moreover have "permits (az_role_permissions db') (cm_role_id m) ResourceTypeSolution ActionUseSolution"
      unfolding permits_held by (rule bexI [OF _ r(2)]) (simp add: reach_permission_def)
    ultimately have "rolePermitsPredicate (TenantTx org) (cm_role_id m) db' (ResourceTypeSolution, ActionUseSolution)" by (simp add: rolePermits_held)
    then show ?thesis using team_may_use [OF e(1) r(1) assms(4,7)] by simp
  qed
  then show ?thesis using CanReadScopeNode_node [OF e(1) _ assms(5,6,8)] by (simp add: asking_kind_def)
qed

section \<open>Revoking\<close>

lemma authority_tables_refl: "authority_tables db db"
  by (simp add: authority_tables_def)

lemma authority_tables_trans: "authority_tables db db1 \<Longrightarrow> authority_tables db1 db2 \<Longrightarrow> authority_tables db db2"
  by (simp add: authority_tables_def)

lemma grants_of_wf: "access_wf db \<Longrightarrow> grants_inv (az_scope_nodes db) (az_roles db) (az_scope_grants db)"
  by (simp add: access_wf_def)

lemma revokeScopeApply_wf:
  assumes "revokeScopeApply env s actor org subject kind path role db = Inr db'" "access_wf db"
  shows "access_wf db'" "set (az_scope_grants db') \<subseteq> set (az_scope_grants db)" "authority_tables db db'"
proof -
  show "access_wf db'" using access_wf_changes [OF changes_revokeScopeApply [OF assms(1)] assms(2)] .
  from assms(1) show "set (az_scope_grants db') \<subseteq> set (az_scope_grants db)"
    by (rule revokeScopeApply_Inr) (auto simp: delete_grants_inv [OF grants_of_wf [OF assms(2)]])
  from assms(1) show "authority_tables db db'" by (rule revokeScopeApply_Inr)
qed

text \<open>Revoking the derived grants one by one leaves every grant made by hand.\<close>

lemma revoke_each_effect:
  assumes "revoke_each env ControlPlaneTx actor org gs db = Inr db'" "access_wf db"
    and "\<And>g. g \<in> set gs \<Longrightarrow> sg_derived_from g \<noteq> None \<and> (\<exists>n \<in> set (az_scope_nodes db). sn_scope_path n = sg_scope_path g) \<and>
      sg_subject_kind g \<in> stored_kinds \<and> sg_org_id g = org"
    and "\<And>g h. \<lbrakk>g \<in> set gs; h \<in> set (az_scope_grants db); grant_key h = grant_key g\<rbrakk> \<Longrightarrow> sg_derived_from h \<noteq> None"
  shows "access_wf db' \<and> set (az_scope_grants db') \<subseteq> set (az_scope_grants db) \<and> authority_tables db db' \<and>
    (\<forall>h \<in> set (az_scope_grants db). sg_derived_from h = None \<longrightarrow> h \<in> set (az_scope_grants db'))"
  using assms
proof (induction gs arbitrary: db)
  case Nil
  then show ?case by (simp add: authority_tables_refl)
next
  case (Cons g gs)
  obtain db1 where r: "revokeScopeApply env ControlPlaneTx actor org (sg_subject_id g) (stored_kind (sg_subject_kind g)) (ltree_out (sg_scope_path g)) (sg_role_id g) db = Inr db1"
    and rest: "revoke_each env ControlPlaneTx actor org gs db1 = Inr db'"
    using Cons.prems(1) by (auto simp: rbind_eq_Inr)
  note one = revokeScopeApply_wf [OF r Cons.prems(2)]
  have nodes: "az_scope_nodes db1 = az_scope_nodes db" using one(3) by (simp add: authority_tables_def)
  have gfacts: "sg_subject_kind g \<in> stored_kinds" "sg_org_id g = org" and "\<exists>n \<in> set (az_scope_nodes db). sn_scope_path n = sg_scope_path g"
    using Cons.prems(3) [of g] by auto
  then have path: "ltree_in (ltree_out (sg_scope_path g)) = Some (sg_scope_path g)"
    using Cons.prems(2) ltree_in_out by (auto simp: access_wf_def nodes_inv_def)
  have column: "subjectKindColumn (stored_kind (sg_subject_kind g)) = Inr (sg_subject_kind g)"
    using gfacts(1) by (auto simp: stored_kind_def stored_kinds_def subjectKindColumn_def)
  have kept: "h \<in> set (az_scope_grants db1)" if h: "h \<in> set (az_scope_grants db)" "sg_derived_from h = None" for h
  proof -
    have "\<not> named_grant org (sg_subject_id g) (sg_subject_kind g) (sg_scope_path g) (sg_role_id g) h"
      using Cons.prems(4) [of g h] h gfacts(2) by (auto simp: named_grant_def grant_key_def)
    moreover have "az_scope_grants db1 = delete_grants (\<lambda>x. named_grant org (sg_subject_id g) (sg_subject_kind g) (sg_scope_path g) (sg_role_id g) x) (az_scope_grants db)"
      using r by (rule revokeScopeApply_Inr) (simp add: path column)
    ultimately show ?thesis using h by (simp add: delete_grants_inv [OF grants_of_wf [OF Cons.prems(2)]] caused_by_iff)
  qed
  have IH: "access_wf db' \<and> set (az_scope_grants db') \<subseteq> set (az_scope_grants db1) \<and> authority_tables db1 db' \<and>
    (\<forall>h \<in> set (az_scope_grants db1). sg_derived_from h = None \<longrightarrow> h \<in> set (az_scope_grants db'))"
  proof (rule Cons.IH [OF rest one(1)])
    show "sg_derived_from x \<noteq> None \<and> (\<exists>n \<in> set (az_scope_nodes db1). sn_scope_path n = sg_scope_path x) \<and>
        sg_subject_kind x \<in> stored_kinds \<and> sg_org_id x = org" if "x \<in> set gs" for x
      using Cons.prems(3) [of x] that by (simp add: nodes)
    show "sg_derived_from h \<noteq> None" if "x \<in> set gs" "h \<in> set (az_scope_grants db1)" "grant_key h = grant_key x" for x h
      using Cons.prems(4) [of x h] that one(2) by auto
  qed
  then show ?case using kept one(2,3) authority_tables_trans by blast
qed

lemma revokeDerivedGrants_effect:
  assumes "revokeDerivedGrantsTx env ControlPlaneTx actor org cause [] db = Inr db'" "access_wf db"
  shows "access_wf db' \<and> set (az_scope_grants db') \<subseteq> set (az_scope_grants db) \<and> authority_tables db db' \<and>
    (\<forall>h \<in> set (az_scope_grants db). sg_derived_from h = None \<longrightarrow> h \<in> set (az_scope_grants db'))"
proof -
  obtain derived where d: "DerivedScopeGrants ControlPlaneTx org cause [] db = Inr derived" and r: "revoke_each env ControlPlaneTx actor org derived db = Inr db'"
    using assms(1) by (auto simp: revokeDerivedGrantsTx_def rbind_eq_Inr)
  have in_db: "g \<in> set (az_scope_grants db) \<and> sg_derived_from g \<noteq> None \<and> sg_org_id g = org" if "g \<in> set derived" for g
    using d that by (auto simp: DerivedScopeGrants_def visible_grants_def split: if_splits)
  have inv: "grants_inv (az_scope_nodes db) (az_roles db) (az_scope_grants db)" using grants_of_wf [OF assms(2)] .
  show ?thesis
  proof (rule revoke_each_effect [OF r assms(2)])
    show "sg_derived_from g \<noteq> None \<and> (\<exists>n \<in> set (az_scope_nodes db). sn_scope_path n = sg_scope_path g) \<and>
        sg_subject_kind g \<in> stored_kinds \<and> sg_org_id g = org" if "g \<in> set derived" for g
      using in_db [OF that] inv by (auto simp: grants_inv_def)
    show "sg_derived_from h \<noteq> None" if "g \<in> set derived" "h \<in> set (az_scope_grants db)" "grant_key h = grant_key g" for g h
    proof -
      have "h = g" using in_db [OF that(1)] that(2,3) grants_keyed [OF assms(2)] by (auto simp: distinct_map inj_on_def)
      then show ?thesis using in_db [OF that(1)] by simp
    qed
  qed
qed

text \<open>
  C9. Revoking a solution from a team is complete and touches nothing else.  Whatever was committed
  between the look-up of the grant and its removal, afterwards the team holds no grant of that role
  at the installation's root and nothing derived from one, no new grant appeared, and every grant
  made by hand other than the named one is still there.
\<close>

theorem exposure_revocation_complete:
  assumes "access_reachable (meanwhile db)"
    and "RevokeInstallationFromTeam env meanwhile actor org installation team role db = (Inr u, db')"
  shows "\<exists>path root. InstallationRootScopePath (TenantTx org) org installation db = Inr path \<and> ltree_in path = Some root \<and>
    (let named = named_grant org team ''team'' root role; before = az_scope_grants (meanwhile db) in
     (\<forall>g \<in> set (az_scope_grants db'). \<not> named g \<and> \<not> (\<exists>c \<in> set before. named c \<and> sg_derived_from g = Some (sg_id c))) \<and>
     set (az_scope_grants db') \<subseteq> set before \<and>
     (\<forall>g \<in> set before. sg_derived_from g = None \<and> \<not> named g \<longrightarrow> g \<in> set (az_scope_grants db'))) \<and>
    authority_tables (meanwhile db) db'"
proof -
  let ?db = "meanwhile db"
  have wf: "access_wf ?db" using assms(1) by (rule access_reachable_wf)
  obtain path cause where f: "WithOrgTx org (find_cause env org installation team role) db = (Inr (path, cause), db)"
    and w: "revoke_with_carried env actor org team role path cause ?db = (Inr u, db')"
    using assms(2) find_cause_reads [of org env installation team role db] by (auto simp: RevokeInstallationFromTeam_def split: prod.splits sum.splits)
  have path: "InstallationRootScopePath (TenantTx org) org installation db = Inr path"
    using f by (auto simp: WithOrgTx_def Within_Inr find_cause_def rbind_eq_Inr Let_def split: if_splits)
  obtain db1 where d: "(if cause = [] then Inr ?db else revokeDerivedGrantsTx env ControlPlaneTx actor org cause [] ?db) = Inr db1"
    and r: "revokeScopeApply env ControlPlaneTx actor org team SUBJECT_KIND_TEAM path role db1 = Inr db'"
    using w by (auto simp: revoke_with_carried_def narrow_def WithControlPlane_def Within_Inr rbind_eq_Inr)
  have one: "access_wf db1 \<and> set (az_scope_grants db1) \<subseteq> set (az_scope_grants ?db) \<and> authority_tables ?db db1 \<and>
      (\<forall>h \<in> set (az_scope_grants ?db). sg_derived_from h = None \<longrightarrow> h \<in> set (az_scope_grants db1))"
    using d revokeDerivedGrants_effect [OF _ wf] wf by (auto simp: authority_tables_refl split: if_splits)
  obtain root where root: "ltree_in path = Some root"
    and left: "az_scope_grants db' = delete_grants (named_grant org team ''team'' root role) (az_scope_grants db1)"
    using r by (rule revokeScopeApply_Inr) (simp add: subjectKindColumn_def)
  have wf1: "access_wf db1" using one by blast
  note rest = left [unfolded delete_grants_inv [OF grants_of_wf [OF wf1]]]
  have "\<not> (\<exists>c \<in> set (az_scope_grants ?db). named_grant org team ''team'' root role c \<and> sg_derived_from g = Some (sg_id c))"
    if g: "g \<in> set (az_scope_grants db')" for g
  proof
    assume "\<exists>c \<in> set (az_scope_grants ?db). named_grant org team ''team'' root role c \<and> sg_derived_from g = Some (sg_id c)"
    then obtain c where c: "c \<in> set (az_scope_grants ?db)" "named_grant org team ''team'' root role c" "sg_derived_from g = Some (sg_id c)" by blast
    have "g \<in> set (az_scope_grants ?db)" using g one rest by auto
    then have "sg_derived_from c = None" using cause_is_hand(1) [OF grants_of_wf [OF wf] _ c(1,3)] by blast
    then have "c \<in> set (az_scope_grants db1)" using one c(1) by blast
    then show False using g c(2,3) by (auto simp: rest caused_by_iff)
  qed
  moreover have "g \<in> set (az_scope_grants db')" if "g \<in> set (az_scope_grants ?db)" "sg_derived_from g = None" "\<not> named_grant org team ''team'' root role g" for g
    using that one by (auto simp: rest caused_by_iff)
  moreover have "authority_tables ?db db'" using one authority_tables_trans revokeScopeApply_wf(3) [OF r wf1] by blast
  ultimately show ?thesis
    using path root rest one by (intro exI [of _ path] exI [of _ root]) (auto simp: Let_def)
qed

end
