(* ===== verification/Permission_Properties.thy ===== *)
theory Permission_Properties
  imports Access_Oracles
begin

text \<open>
  Properties of the role operations and of the unscoped and scoped permission checks.
\<close>

section \<open>Decisions\<close>

lemma CheckPermission_iff:
  assumes "assignmentSubjectPredicate kind subject (visible_team_members (TenantTx org) db) = Inr of_subject" "org \<noteq> []"
  shows "\<exists>reason. CheckPermission subject kind resource action org scope db =
    (Inr (\<exists>a \<in> set (visible_assignments (TenantTx org) db). of_subject a \<and> assignment_grants (TenantTx org) resource action db a \<and>
       org_answers org a \<and> scope_answers scope a, reason), db)"
proof -
  let ?p = "\<lambda>a. of_subject a \<and> assignment_grants (TenantTx org) resource action db a \<and> org_answers org a \<and> scope_answers scope a"
  show ?thesis
  proof (cases "select_first ?p (visible_assignments (TenantTx org) db)")
    case None
    then have "\<not> (\<exists>a \<in> set (visible_assignments (TenantTx org) db). ?p a)" by (auto simp: select_first_None)
    then show ?thesis
      using assms None by (simp add: CheckPermission_def ScopedTx_def WithOrgTx_def Within_def read_only_def store_CheckPermission_def)
  next
    case (Some a)
    then have "\<exists>a \<in> set (visible_assignments (TenantTx org) db). ?p a" using select_first_Some [OF Some] by blast
    then show ?thesis
      using assms Some by (simp add: CheckPermission_def ScopedTx_def WithOrgTx_def Within_def read_only_def store_CheckPermission_def)
  qed
qed

text \<open>
  The explanation of a permission agrees with the check.  It repeats the verdict of the check, and
  the scopes it lists are exactly what scoped assignments add: asked about any scope, the check
  allows when and only when it allows without a scope or the scope is in the list.  The list is
  in order and has no scope twice.
\<close>

theorem explain_permission_agrees:
  assumes "ExplainPermission subject kind resource action org scope db = (Inr (verdict, scopes), db')"
  shows "db' = db \<and> fst (CheckPermission subject kind resource action org scope db) = Inr verdict \<and> sorted_wrt (<) scopes \<and>
    (\<exists>general why. fst (CheckPermission subject kind resource action org [] db) = Inr (general, why) \<and>
      (\<forall>s. s \<noteq> [] \<longrightarrow> (\<exists>why. fst (CheckPermission subject kind resource action org s db) = Inr (general \<or> s \<in> set scopes, why))))"
proof -
  have org: "org \<noteq> []" using assms by (auto simp: ExplainPermission_def WithOrgTx_def split: if_splits)
  then obtain of_subject where o: "assignmentSubjectPredicate kind subject (visible_team_members (TenantTx org) db) = Inr of_subject"
    and v: "store_CheckPermission (TenantTx org) subject kind resource action org scope db = Inr verdict" and db': "db' = db"
    and s: "store_ScopesGrantingPermission (TenantTx org) subject kind resource action org db = Inr scopes"
    using assms by (auto simp: ExplainPermission_def WithOrgTx_def Within_Inr read_only_def rbind_eq_Inr store_ScopesGrantingPermission_def)
  let ?as = "filter (\<lambda>a. of_subject a \<and> assignment_grants (TenantTx org) resource action db a \<and> (ra_org_id a = None \<or> ra_org_id a = Some org))
      (visible_assignments (TenantTx org) db)"
  have scopes: "scopes = sort (remdups (List.map_filter ra_scope ?as))" using s o by (simp add: store_ScopesGrantingPermission_def)
  have listed: "x \<in> set scopes \<longleftrightarrow> (\<exists>a \<in> set ?as. ra_scope a = Some x)" for x
    by (auto simp: scopes map_filter_def image_iff)
  have general: "\<exists>why. fst (CheckPermission subject kind resource action org [] db) = Inr (\<exists>a \<in> set ?as. ra_scope a = None, why)"
    using CheckPermission_iff [OF o org, of resource action "[]"] org
    by (auto simp: org_answers_def scope_answers_def Bex_def conj_ac)
  have scoped: "\<exists>why. fst (CheckPermission subject kind resource action org x db) = Inr ((\<exists>a \<in> set ?as. ra_scope a = None) \<or> x \<in> set scopes, why)"
    if "x \<noteq> []" for x
  proof -
    have "(\<exists>a \<in> set (visible_assignments (TenantTx org) db). of_subject a \<and> assignment_grants (TenantTx org) resource action db a \<and>
        org_answers org a \<and> scope_answers x a) \<longleftrightarrow> (\<exists>a \<in> set ?as. ra_scope a = None) \<or> x \<in> set scopes"
      using that org unfolding listed org_answers_def scope_answers_def by auto
    then show ?thesis using CheckPermission_iff [OF o org, of resource action x] by auto
  qed
  have "sorted_wrt (<) scopes" unfolding scopes strict_sorted_iff by simp
  moreover have "fst (CheckPermission subject kind resource action org scope db) = Inr verdict"
    using v org by (simp add: CheckPermission_def ScopedTx_def WithOrgTx_def Within_def read_only_def)
  ultimately show ?thesis using db' general scoped by blast
qed

section \<open>Revoking an assignment\<close>

text \<open>
  Revoking an assignment never succeeds in vain.  When no assignment has that subject, role,
  organization and scope it answers not found and changes nothing; when it succeeds exactly those
  assignments are gone, so that the same revocation again is not found.
\<close>

theorem revoke_role_exact:
  shows "((\<forall>a \<in> set (az_role_assignments db). \<not> revoked_assignment subject role org scope a) \<longrightarrow>
      RevokeRole env actor subject role org scope db = (Inl NotFound, db)) \<and>
    (\<forall>db'. RevokeRole env actor subject role org scope db = (Inr (), db') \<longrightarrow>
      (\<exists>a \<in> set (az_role_assignments db). revoked_assignment subject role org scope a) \<and>
      az_role_assignments db' = filter (\<lambda>a. \<not> revoked_assignment subject role org scope a) (az_role_assignments db) \<and>
      RevokeRole env actor subject role org scope db' = (Inl NotFound, db'))"
proof -
  let ?p = "revoked_assignment subject role org scope"
  have all: "global_or_in_tenant ControlPlaneTx x" for x by (simp add: global_or_in_tenant_def split: option.splits)
  have none: "RevokeRole env actor subject role org scope d = (Inl NotFound, d)" if "\<forall>a \<in> set (az_role_assignments d). \<not> ?p a" for d
  proof -
    have "rows_affected (\<lambda>a. global_or_in_tenant ControlPlaneTx (ra_org_id a) \<and> ?p a) (az_role_assignments d) = 0"
      using that by (simp add: rows_affected_def filter_empty_conv)
    then show ?thesis by (simp add: RevokeRole_def narrow_def WithControlPlane_def Within_def store_RevokeRole_def Let_def)
  qed
  have some: "(\<exists>a \<in> set (az_role_assignments db). ?p a) \<and> az_role_assignments db' = filter (\<lambda>a. \<not> ?p a) (az_role_assignments db)"
    if "RevokeRole env actor subject role org scope db = (Inr (), db')" for db'
    using that all by (auto simp: RevokeRole_def narrow_def WithControlPlane_def Within_Inr store_RevokeRole_def Let_def rbind_eq_Inr
        rows_affected_def filter_empty_conv split: if_splits dest!: access_emitTx_Inr)
  have again: "RevokeRole env actor subject role org scope db' = (Inl NotFound, db')"
    if "RevokeRole env actor subject role org scope db = (Inr (), db')" for db'
    by (rule none) (simp add: some [OF that])
  show ?thesis
  proof (intro conjI allI impI)
    show "RevokeRole env actor subject role org scope db = (Inl NotFound, db)" if "\<forall>a \<in> set (az_role_assignments db). \<not> ?p a"
      using none [OF that] .
    fix db'
    assume r: "RevokeRole env actor subject role org scope db = (Inr (), db')"
    show "\<exists>a \<in> set (az_role_assignments db). ?p a" "az_role_assignments db' = filter (\<lambda>a. \<not> ?p a) (az_role_assignments db)"
      using some [OF r] by blast+
    show "RevokeRole env actor subject role org scope db' = (Inl NotFound, db')" using again [OF r] .
  qed
qed

section \<open>Roles\<close>

lemma add_permissions_frame:
  "az_roles (add_permissions role perms db) = az_roles db \<and> az_scope_grants (add_permissions role perms db) = az_scope_grants db \<and>
   az_record_shares (add_permissions role perms db) = az_record_shares db \<and> az_role_assignments (add_permissions role perms db) = az_role_assignments db \<and>
   az_scope_nodes (add_permissions role perms db) = az_scope_nodes db"
  using add_permissions_perms [of role perms db] by auto

lemma add_permissions_set:
  "set (az_role_permissions (add_permissions role perms db)) = set (az_role_permissions db) \<union> Pair role ` set perms"
  using add_permissions_perms [of role perms db] by auto

lemma add_permissions_others:
  "filter (\<lambda>rp. fst rp \<noteq> role) (az_role_permissions (add_permissions role perms db)) = filter (\<lambda>rp. fst rp \<noteq> role) (az_role_permissions db)"
  using add_permissions_perms [of role perms db] by auto

lemma add_permissions_distinct:
  "distinct (az_role_permissions db) \<Longrightarrow> distinct (az_role_permissions (add_permissions role perms db))"
  using add_permissions_perms [of role perms db] by auto

lemma stored_permissions_facts:
  assumes "r \<in> set (visible_roles s db)" "rl_id r = role" "distinct (az_role_permissions db)"
  shows "set (stored_permissions s role db) = {p. (role, p) \<in> set (az_role_permissions db)}" "distinct (stored_permissions s role db)"
    "sorted (map permission_key (stored_permissions s role db))"
proof -
  have f: "filter (\<lambda>rp. fst rp = role) (visible_permissions s db) = filter (\<lambda>rp. fst rp = role) (az_role_permissions db)"
    using assms(1,2) by (cases s) (auto simp: visible_permissions_def intro!: filter_cong)
  show "set (stored_permissions s role db) = {p. (role, p) \<in> set (az_role_permissions db)}"
    by (force simp: stored_permissions_def f image_iff)
  show "distinct (stored_permissions s role db)"
    using assms(3) by (simp add: stored_permissions_def f distinct_map) (auto simp: inj_on_def)
  show "sorted (map permission_key (stored_permissions s role db))" by (simp add: stored_permissions_def)
qed

text \<open>
  Updating a role replaces its permissions by exactly the requested ones.  It succeeds only for
  a role of the named organization, or a global one when none is named, that is neither built in
  nor derived; the permissions of every other role, the grants, shares and assignments are
  untouched, and the answer lists the new permissions once each and in order.
\<close>

theorem update_role_exact:
  assumes "access_reachable db" "UpdateRole env actor role org description perms db = (Inr out, db')"
  shows "(\<exists>r \<in> set (az_roles db). rl_id r = role \<and> rl_org_id r = nilIfEmpty org \<and> \<not> rl_built_in r \<and> rl_derived_from r = None \<and>
      az_roles db' = update_where (\<lambda>r. rl_id r = role) (\<lambda>r. r\<lparr>rl_description := Some description\<rparr>) (az_roles db) \<and>
      ar_name out = rl_name r) \<and>
    {p. (role, p) \<in> set (az_role_permissions db')} = set perms \<and>
    filter (\<lambda>rp. fst rp \<noteq> role) (az_role_permissions db') = filter (\<lambda>rp. fst rp \<noteq> role) (az_role_permissions db) \<and>
    set (ar_permissions out) = set perms \<and> distinct (ar_permissions out) \<and> sorted (map permission_key (ar_permissions out)) \<and>
    az_scope_grants db' = az_scope_grants db \<and> az_record_shares db' = az_record_shares db \<and> az_role_assignments db' = az_role_assignments db"
proof -
  let ?s = "session_of org"
  obtain db1 where u: "store_UpdateRole ?s role org description perms db = Inr (out, db1)" and e: "\<exists>trail. db' = db1\<lparr>az_audit := trail\<rparr>"
    using assms(2) by (auto simp: UpdateRole_def ScopedTx_def session_of_def WithOrgTx_def WithControlPlane_def Within_Inr rbind_eq_Inr
        split: if_splits dest!: access_emitTx_Inr)
  obtain r where r: "select_first (\<lambda>r. rl_id r = role \<and> rl_org_id r = nilIfEmpty org) (visible_roles ?s db) = Some r"
    "\<not> rl_built_in r" "rl_derived_from r = None"
    and db1: "db1 = add_permissions role perms (clear_permissions role (set_role_description role description db))"
    and out: "ar_permissions out = stored_permissions ?s role db1" "ar_name out = rl_name r"
    using u by (auto simp: store_UpdateRole_def Let_def split: option.splits if_splits)
  have r': "r \<in> set (visible_roles ?s db)" "rl_id r = role" "rl_org_id r = nilIfEmpty org" using select_first_Some [OF r(1)] by auto
  have roles: "az_roles db1 = update_where (\<lambda>r. rl_id r = role) (\<lambda>r. r\<lparr>rl_description := Some description\<rparr>) (az_roles db)"
    by (simp add: db1 add_permissions_frame clear_permissions_def set_role_description_def)
  have perms: "set (az_role_permissions db1) = {rp \<in> set (az_role_permissions db). fst rp \<noteq> role} \<union> Pair role ` set perms"
    by (simp add: db1 add_permissions_set clear_permissions_def set_role_description_def)
  have others: "filter (\<lambda>rp. fst rp \<noteq> role) (az_role_permissions db1) = filter (\<lambda>rp. fst rp \<noteq> role) (az_role_permissions db)"
    by (simp add: db1 add_permissions_others clear_permissions_def set_role_description_def)
  have "distinct (az_role_permissions db)" using access_reachable_wf [OF assms(1)] by (simp add: access_wf_def)
  then have d: "distinct (az_role_permissions db1)"
    by (simp add: db1 add_permissions_distinct clear_permissions_def set_role_description_def)
  have "r\<lparr>rl_description := Some description\<rparr> \<in> set (visible_roles ?s db1)"
    using r' by (auto simp: visible_roles_def roles set_update_where)
  note stored = stored_permissions_facts [OF this _ d, of role, simplified, OF r'(2)]
  have new: "{p. (role, p) \<in> set (az_role_permissions db1)} = set perms" using perms by auto
  have frame: "az_scope_grants db1 = az_scope_grants db" "az_record_shares db1 = az_record_shares db" "az_role_assignments db1 = az_role_assignments db"
    by (simp_all add: db1 add_permissions_frame clear_permissions_def set_role_description_def)
  obtain trail where db': "db' = db1\<lparr>az_audit := trail\<rparr>" using e by blast
  have "r \<in> set (az_roles db)" using r'(1) by (simp add: visible_roles_def)
  then show ?thesis using r(2,3) r'(2,3) roles others new stored frame out by (auto simp: db')
qed

section \<open>The listing of roles\<close>

lemma sort_key_map:
  fixes f :: "'b \<Rightarrow> 'k::linorder" and g :: "'a \<Rightarrow> 'b"
  shows "sort_key f (map g xs) = map g (sort_key (\<lambda>x. f (g x)) xs)"
proof -
  have "insort_key f (g x) (map g ys) = map g (insort_key (\<lambda>x. f (g x)) x ys)" for x ys by (induction ys) simp_all
  then show ?thesis by (induction xs) simp_all
qed

lemma sort_key_same_order:
  fixes f :: "'a \<Rightarrow> 'k::linorder" and g :: "'a \<Rightarrow> 'l::linorder"
  assumes "\<And>x y. f x \<le> f y \<longleftrightarrow> g x \<le> g y"
  shows "sort_key f xs = sort_key g xs"
proof -
  have "insort_key f x ys = insort_key g x ys" for x ys using assms by (induction ys) simp_all
  then show ?thesis by (induction xs) simp_all
qed

definition join_permissions :: "role_join list \<Rightarrow> permission list" where
  "join_permissions js = concat (map (\<lambda>j. case snd j of None \<Rightarrow> [] | Some p \<Rightarrow> [p]) js)"

definition role_entry :: "role_row \<Rightarrow> permission list \<Rightarrow> api_role" where
  "role_entry r perms = \<lparr>ar_id = rl_id r, ar_name = rl_name r, ar_description = text_of (rl_description r),
     ar_permissions = perms, ar_built_in = rl_built_in r, ar_org_id = text_of (rl_org_id r)\<rparr>"

lemma role_entry_simps [simp]: "ar_id (role_entry r perms) = rl_id r" "ar_permissions (role_entry r perms) = perms"
  "(role_entry r perms)\<lparr>ar_permissions := perms'\<rparr> = role_entry r perms'"
  by (simp_all add: role_entry_def)

abbreviation joins_of :: "uuid \<Rightarrow> role_join list \<Rightarrow> role_join list" where
  "joins_of i js \<equiv> filter (\<lambda>j. rl_id (fst j) = i) js"

text \<open>After some rows, the accumulator has one entry for each role seen, with its permissions so far.\<close>

lemma fold_role_step:
  assumes "acc = map (\<lambda>r. role_entry r (join_permissions (joins_of (rl_id r) seen))) rs" "distinct (map rl_id rs)"
    and "\<And>j. j \<in> set seen \<Longrightarrow> fst j \<in> set rs" "\<And>r r'. \<lbrakk>r \<in> set rs \<union> {fst j}; r' \<in> set rs \<union> {fst j}; rl_id r = rl_id r'\<rbrakk> \<Longrightarrow> r = r'"
  shows "fold_role j acc = map (\<lambda>r. role_entry r (join_permissions (joins_of (rl_id r) (seen @ [j])))) (if fst j \<in> set rs then rs else rs @ [fst j])"
proof -
  let ?perms = "case snd j of None \<Rightarrow> [] | Some p \<Rightarrow> [p]"
  have ids: "rl_id (fst j) \<in> ar_id ` set acc \<longleftrightarrow> fst j \<in> set rs"
    using assms(4) unfolding assms(1) by (auto simp: image_iff)
  show ?thesis
  proof (cases "fst j \<in> set rs")
    case True
    have "fold_role j acc = update_where (\<lambda>a. ar_id a = rl_id (fst j)) (\<lambda>a. a\<lparr>ar_permissions := ar_permissions a @ ?perms\<rparr>) acc"
      using True ids by (simp add: fold_role_def Let_def)
    also have "\<dots> = map (\<lambda>r. role_entry r (join_permissions (joins_of (rl_id r) (seen @ [j])))) rs"
      unfolding assms(1) by (simp add: update_where_def join_permissions_def)
    finally show ?thesis using True by simp
  next
    case False
    have "joins_of (rl_id (fst j)) seen = []" using False assms(3,4) by (fastforce simp: filter_empty_conv)
    moreover have "joins_of (rl_id r) [j] = []" if "r \<in> set rs" for r using that False assms(4) [of r "fst j"] by auto
    ultimately show ?thesis
      using False ids unfolding assms(1) by (simp add: fold_role_def Let_def role_entry_def join_permissions_def)
  qed
qed

lemma fold_roles:
  assumes "\<And>r r'. \<lbrakk>r \<in> fst ` set js; r' \<in> fst ` set js; rl_id r = rl_id r'\<rbrakk> \<Longrightarrow> r = r'"
  shows "\<exists>rs. distinct (map rl_id rs) \<and> set rs = fst ` set js \<and>
    fold fold_role js [] = map (\<lambda>r. role_entry r (join_permissions (joins_of (rl_id r) js))) rs"
  using assms
proof (induction js rule: rev_induct)
  case (snoc j js)
  have "\<exists>rs. distinct (map rl_id rs) \<and> set rs = fst ` set js \<and>
      fold fold_role js [] = map (\<lambda>r. role_entry r (join_permissions (joins_of (rl_id r) js))) rs"
    by (rule snoc.IH, rule snoc.prems) auto
  then obtain rs where rs: "distinct (map rl_id rs)" "set rs = fst ` set js"
    "fold fold_role js [] = map (\<lambda>r. role_entry r (join_permissions (joins_of (rl_id r) js))) rs" by blast
  let ?rs = "if fst j \<in> set rs then rs else rs @ [fst j]"
  have "fold fold_role (js @ [j]) [] = map (\<lambda>r. role_entry r (join_permissions (joins_of (rl_id r) (js @ [j])))) ?rs"
  proof -
    have "fst x \<in> set rs" if "x \<in> set js" for x using that rs(2) by simp
    moreover have "r = r'" if "r \<in> set rs \<union> {fst j}" "r' \<in> set rs \<union> {fst j}" "rl_id r = rl_id r'" for r r'
      using that rs(2) by (intro snoc.prems) auto
    ultimately show ?thesis using fold_role_step [OF rs(3,1), of j] by simp
  qed
  moreover have "distinct (map rl_id ?rs)"
  proof (cases "fst j \<in> set rs")
    case False
    have "rl_id r \<noteq> rl_id (fst j)" if "r \<in> set rs" for r
    proof
      assume "rl_id r = rl_id (fst j)"
      then have "r = fst j" using that rs(2) by (intro snoc.prems) auto
      then show False using that False by simp
    qed
    then have "rl_id (fst j) \<notin> rl_id ` set rs" by fastforce
    then show ?thesis using False rs(1) by simp
  qed (use rs(1) in simp)
  moreover have "set ?rs = fst ` set (js @ [j])" using rs(2) by auto
  ultimately show ?case by blast
qed simp

lemma fst_role_joins: "fst ` set (role_joins s db r) = {r}"
proof (cases "map snd (filter (\<lambda>rp. fst rp = rl_id r) (visible_permissions s db))")
  case (Cons p ps)
  then show ?thesis unfolding role_joins_def Let_def Cons by auto
qed (simp add: role_joins_def Let_def)

lemma joins_of_role:
  assumes "distinct (map rl_id rs)" "r \<in> set rs"
  shows "joins_of (rl_id r) (concat (map (role_joins s db) rs)) = role_joins s db r"
proof -
  have own: "joins_of (rl_id r) (role_joins s db r') = (if rl_id r' = rl_id r then role_joins s db r' else [])" for r'
    by (auto simp: role_joins_def Let_def filter_empty_conv filter_id_conv)
  from assms show ?thesis
  proof (induction rs)
    case (Cons r' rs)
    have "joins_of (rl_id r) (concat (map (role_joins s db) rs)) = []" if "rl_id r \<notin> rl_id ` set rs"
    proof -
      have "fst ` set (concat (map (role_joins s db) rs)) = set rs" by (simp add: image_UN fst_role_joins)
      then have "rl_id (fst j) \<noteq> rl_id r" if "j \<in> set (concat (map (role_joins s db) rs))" for j
        using that \<open>rl_id r \<notin> rl_id ` set rs\<close> by (metis imageI)
      then show ?thesis by (simp only: filter_empty_conv) blast
    qed
    then show ?case using Cons own by (cases "r = r'") auto
  qed simp
qed

lemma role_joins_sorted: "join_permissions (sort_key join_before (role_joins s db r)) = stored_permissions s (rl_id r) db"
proof -
  let ?perms = "map snd (filter (\<lambda>rp. fst rp = rl_id r) (visible_permissions s db))"
  have "sort_key join_before (map (\<lambda>p. (r, Some p)) ?perms) = map (\<lambda>p. (r, Some p)) (sort_key (\<lambda>p. join_before (r, Some p)) ?perms)"
    by (rule sort_key_map)
  also have "sort_key (\<lambda>p. join_before (r, Some p)) ?perms = sort_key permission_key ?perms"
    by (rule sort_key_same_order) (simp add: join_before_def)
  finally have "join_permissions (sort_key join_before (map (\<lambda>p. (r, Some p)) ?perms)) = sort_key permission_key ?perms"
    by (simp add: join_permissions_def comp_def)
  then show ?thesis
    by (cases "?perms = []") (simp_all add: role_joins_def Let_def stored_permissions_def join_permissions_def del: map_is_Nil_conv)
qed

text \<open>
  The listing of roles is complete and exact: it holds one entry for each global role and each role
  of the asking organization that no solution derived, and no other, with its name, description
  and exactly its permissions, ordered by resource and action.
\<close>

theorem list_roles_complete:
  assumes "access_reachable db"
  shows "\<exists>listed. ListRoles org db = (Inr listed, db) \<and> distinct (map ar_id listed) \<and>
    set listed = (\<lambda>r. \<lparr>ar_id = rl_id r, ar_name = rl_name r, ar_description = text_of (rl_description r),
        ar_permissions = stored_permissions (session_of org) (rl_id r) db, ar_built_in = rl_built_in r, ar_org_id = text_of (rl_org_id r)\<rparr>) `
      {r \<in> set (az_roles db). rl_derived_from r = None \<and> (rl_org_id r = None \<or> (org \<noteq> [] \<and> rl_org_id r = Some org))}"
proof -
  let ?s = "session_of org"
  define roles where "roles = filter (listed_role org) (visible_roles ?s db)"
  define js where "js = sort_key join_before (concat (map (role_joins ?s db) roles))"
  have "distinct (map rl_id (az_roles db))" using access_reachable_wf [OF assms] by (simp add: access_wf_def roles_inv_def)
  then have d: "distinct (map rl_id roles)" by (auto simp: roles_def visible_roles_def distinct_map intro: inj_on_subset)
  have fsts: "fst ` set js = set roles" by (simp add: js_def image_UN fst_role_joins)
  have "r = r'" if "r \<in> fst ` set js" "r' \<in> fst ` set js" "rl_id r = rl_id r'" for r r'
    using that d unfolding fsts by (simp add: distinct_map inj_on_def)
  then obtain rs where rs: "distinct (map rl_id rs)" "set rs = set roles"
    "fold fold_role js [] = map (\<lambda>r. role_entry r (join_permissions (joins_of (rl_id r) js))) rs"
    using fold_roles [of js] fsts by auto
  have perms: "join_permissions (joins_of (rl_id r) js) = stored_permissions ?s (rl_id r) db" if "r \<in> set roles" for r
    using joins_of_role [OF d that, of ?s db] role_joins_sorted [of ?s db r] by (simp add: js_def filter_sort)
  have "set roles = {r \<in> set (az_roles db). rl_derived_from r = None \<and> (rl_org_id r = None \<or> (org \<noteq> [] \<and> rl_org_id r = Some org))}"
    by (auto simp: roles_def visible_roles_def listed_role_def session_of_def global_or_in_tenant_def split: option.splits if_splits) (metis option.exhaust)
  moreover have "ListRoles org db = (Inr (fold fold_role js []), db)"
    by (simp add: ListRoles_def ScopedTx_def session_of_def WithOrgTx_def WithControlPlane_def Within_def read_only_def store_ListRoles_def js_def roles_def)
  ultimately show ?thesis
    using rs perms by (intro exI [of _ "fold fold_role js []"]) (simp add: role_entry_def comp_def image_image)
qed

end
