(* ===== verification/Access_Examples.thy ===== *)
theory Access_Examples
  imports Carried_Properties Permission_Properties
begin

text \<open>
  A small organization on which the theorems about authorization are instantiated: a solution and
  a module it reaches, a document below the solution, and a team of one member.
\<close>

section \<open>The organization\<close>

definition az_env :: "string \<Rightarrow> access_env" where
  "az_env tag = \<lparr>ax_now = 10, ax_impersonated = False, ax_new_id = (\<lambda>k. tag @ replicate k CHR ''x''), ax_parse_id = Some,
     ax_audit = NoAudit, ax_transport = None, ax_org_exists = (\<lambda>_. True)\<rparr>"

definition az_role :: "uuid \<Rightarrow> string \<Rightarrow> role_row" where
  "az_role i name = \<lparr>rl_id = i, rl_name = name, rl_description = None, rl_built_in = False, rl_org_id = None, rl_scope = None,
     rl_catalog_managed = False, rl_derived_from = None\<rparr>"

definition az_start :: access_db where
  "az_start = \<lparr>az_roles = [az_role ''r1'' ''user'', az_role ''r2'' ''spare''],
     az_role_permissions = [(''r1'', \<lparr>pm_resource = ''solution'', pm_action = ''use''\<rparr>), (''r1'', \<lparr>pm_resource = ''doc'', pm_action = ''read''\<rparr>)],
     az_role_assignments = [], az_scope_nodes = [], az_scope_grants = [], az_record_shares = [],
     az_teams = [(''t1'', ''o1'')], az_team_members = [(''t1'', ''u1'')], az_organization_members = [(''o1'', ''u1''), (''o1'', ''u2'')],
     az_principals = [\<lparr>pr_id = ''u1'', pr_kind = ''human'', pr_org_id = None, pr_revoked_at = None\<rparr>], az_platform_admins = [(''u9'', ''super_admin'')],
     az_installations = [
       \<lparr>in_id = ''i1'', in_org_id = ''o1'', in_target_id = ''s1'', in_root_scope_node_id = ''n1'', in_agent_principal_id = ''a1'',
         in_status = ''active'', in_no_standing_authority = True\<rparr>,
       \<lparr>in_id = ''i2'', in_org_id = ''o1'', in_target_id = ''s2'', in_root_scope_node_id = ''n2'', in_agent_principal_id = ''a2'',
         in_status = ''active'', in_no_standing_authority = True\<rparr>],
     az_audit = [], az_events = []\<rparr>"

definition az_node :: "string \<Rightarrow> string \<Rightarrow> string \<Rightarrow> string \<Rightarrow> api_node" where
  "az_node path kind rtype rid = \<lparr>an_id = [], an_org_id = ''o1'', an_scope_path = path, an_kind = kind, an_label = path,
     an_resource_type = rtype, an_resource_id = rid, an_created_at = None\<rparr>"

definition az_scope :: "uuid \<Rightarrow> ltree \<Rightarrow> string \<Rightarrow> string \<Rightarrow> string option \<Rightarrow> string option \<Rightarrow> scope_node" where
  "az_scope i path kind label rtype rid = \<lparr>sn_id = i, sn_org_id = ''o1'', sn_scope_path = path, sn_kind = kind, sn_label = label,
     sn_resource_type = rtype, sn_resource_id = rid, sn_created_at = 10\<rparr>"

lemmas az_chars = label_char_def lower_or_digit_def less_eq_char_def less_char_def ltree_char_def

lemma az_paths [simp]:
  "ltree_in ''s'' = Some [''s'']" "ltree_in ''m'' = Some [''m'']" "ltree_in ''s.d'' = Some [''s'', ''d'']"
  "scopePathPattern ''s''" "scopePathPattern ''m''" "scopePathPattern ''s.d''"
  "scopeParentPath ''s'' = []" "scopeParentPath ''m'' = []" "scopeParentPath ''s.d'' = ''s''"
  by (simp_all add: ltree_in_def ltree_label_def scopePathPattern_def scope_label_def scopeParentPath_def az_chars)

lemma az_labels [simp]: "scope_label ''s''" "scope_label ''m''" "scope_label ''d''"
  by (simp_all add: scope_label_def az_chars)

lemmas az_run = WithOrgTx_def WithControlPlane_def Within_def read_only_def Let_def guard_def access_emitTx_def emitTx_def from_store_def
  publishLifecycleEvent_def az_env_def

lemmas az_nodes = RegisterScopeNode_def store_RegisterScopeNode_def validateScopePath_def cast_ltree_def node_at_def visible_nodes_def
  node_admitted_def same_resource_def az_node_def az_scope_def nilIfEmpty_def

definition az_tree1 :: access_db where
  "az_tree1 = snd (RegisterScopeNode (az_env ''n1'') ''u1'' (az_node ''s'' ''solution'' [] []) az_start)"

definition az_tree2 :: access_db where
  "az_tree2 = snd (RegisterScopeNode (az_env ''n2'') ''u1'' (az_node ''m'' ''solution'' [] []) az_tree1)"

definition az_tree3 :: access_db where
  "az_tree3 = snd (RegisterScopeNode (az_env ''n3'') ''u1'' (az_node ''s.d'' ''record'' ''doc'' ''d1'') az_tree2)"

lemma az_tree1_rows: "az_tree1 = az_start\<lparr>az_scope_nodes := [az_scope ''n1'' [''s''] ''solution'' ''s'' None None]\<rparr>"
  unfolding az_tree1_def by (simp add: az_nodes az_run az_start_def del: set_filter)

lemma az_tree2_rows: "az_tree2 = az_start\<lparr>az_scope_nodes := [az_scope ''n1'' [''s''] ''solution'' ''s'' None None, az_scope ''n2'' [''m''] ''solution'' ''m'' None None]\<rparr>"
  unfolding az_tree2_def az_tree1_rows by (simp add: az_nodes az_run az_start_def del: set_filter)

lemma az_tree3_rows: "az_tree3 = az_start\<lparr>az_scope_nodes := [az_scope ''n1'' [''s''] ''solution'' ''s'' None None,
    az_scope ''n2'' [''m''] ''solution'' ''m'' None None, az_scope ''n3'' [''s'', ''d''] ''record'' ''s.d'' (Some ''doc'') (Some ''d1'')]\<rparr>"
  unfolding az_tree3_def az_tree2_rows by (simp add: az_nodes az_run az_start_def del: set_filter)

lemma az_start_ok: "access_start az_start"
  by (simp add: access_start_def az_start_def az_role_def)

lemma az_tree_reachable: "access_reachable az_tree3"
proof -
  have "access_reachable az_start" using az_start_ok by (auto simp: access_reachable_def)
  then have "access_reachable az_tree1" unfolding az_tree1_def using op_register by (rule access_reachable_op)
  then have "access_reachable az_tree2" unfolding az_tree2_def using op_register by (rule access_reachable_op)
  then show ?thesis unfolding az_tree3_def using op_register by (rule access_reachable_op)
qed

section \<open>A grant\<close>

definition az_request :: api_grant where
  "az_request = team_request ''o1'' ''t1'' ''s'' ''r1''"

definition az_granted :: access_db where
  "az_granted = snd (GrantScope (az_env ''g1'') ''u1'' az_request az_tree3)"

definition az_grant :: "uuid \<Rightarrow> ltree \<Rightarrow> uuid \<Rightarrow> uuid option \<Rightarrow> scope_grant" where
  "az_grant i path role cause = \<lparr>sg_id = i, sg_org_id = ''o1'', sg_subject_id = ''t1'', sg_subject_kind = ''team'', sg_scope_path = path,
     sg_role_id = role, sg_granted_by = Some ''u1'', sg_expires_at = None, sg_derived_from = cause, sg_created_at = 10\<rparr>"

lemmas az_grants = grantScopeTx_def store_GrantScope_def requireSubjectInOrgTx_def canonicalSubjectTenancyIDs_def ParseID_def GetTeamOrgID_def
  visible_teams_def select_first_def subjectKindColumn_def requireVisibleRole_def visible_roles_def global_or_in_tenant_def
  requireNotDerivedRoleOrSolutionRoot_def requireNotDerivedRole_def derivedRoleProvenance_def text_of_def SolutionRoleOrigin_def
  upsert_grant_def no_standing_grant_def same_grant_def grant_admitted_def principal_exists_def az_grant_def team_request_def az_role_def

lemma az_granted_rows: "az_granted = az_tree3\<lparr>az_scope_grants := [az_grant ''g1'' [''s''] ''r1'' None]\<rparr>"
    "fst (GrantScope (az_env ''g1'') ''u1'' az_request az_tree3) =
      Inr (az_request\<lparr>ag_id := ''g1'', ag_granted_by := ''u1'', ag_created_at := Some 10\<rparr>)"
  unfolding az_granted_def az_tree3_rows
  by (simp_all add: GrantScope_def az_request_def az_grants az_nodes az_run az_start_def del: set_filter)

lemma az_granted_reachable: "access_reachable az_granted"
proof -
  have "access_op (Some (ag_org_id az_request)) az_tree3 az_granted" unfolding az_granted_def by (rule op_grant)
  then show ?thesis by (rule access_reachable_op [OF az_tree_reachable])
qed

lemma az_doc:
  "az_scope ''n3'' [''s'', ''d''] ''record'' ''s.d'' (Some ''doc'') (Some ''d1'') \<in> set (az_scope_nodes az_granted)"
  "az_scope ''n3'' [''s'', ''d''] ''record'' ''s.d'' (Some ''doc'') (Some ''d1'') \<in> set (az_scope_nodes az_tree3)"
  by (simp_all add: az_granted_rows az_tree3_rows)

lemmas az_decide = CheckAccess_def store_CheckAccess_def layeredSubjectPredicate_def subject_matches_def placed_record_def visible_grants_def
  visible_shares_def visible_team_members_def visible_permissions_def grant_confers_def share_confers_def permits_def unexpired_def is_ancestor_def

lemma az_member_reads:
  "fst (CheckAccess (az_env ''x'') ''o1'' ''u1'' SUBJECT_KIND_PRINCIPAL ''doc'' ''d1'' ''read'' az_granted) = Inr (True, ''granted via scope'')"
  unfolding az_granted_rows(1) az_tree3_rows by (simp add: az_decide az_grants az_nodes az_run az_start_def del: set_filter)

theorem access_oracles_agree_witness:
  "fst (CheckAccess (az_env ''x'') ''o1'' ''u1'' SUBJECT_KIND_PRINCIPAL ''doc'' ''d1'' ''read'' az_granted) = Inr (True, ''granted via scope'') \<and>
   (\<exists>scopes. listed_scopes (az_env ''x'') ''o1'' ''u1'' SUBJECT_KIND_PRINCIPAL ''doc'' ''read'' 2 az_granted = Some scopes \<and> ''n3'' \<in> as_node_id ` set scopes) \<and>
   store_CanReadScopeNode (az_env ''x'') (TenantTx ''o1'') ''o1'' ''u1'' SUBJECT_KIND_PRINCIPAL ''doc'' ''read'' ''n3'' az_granted = Inr True \<and>
   (\<exists>ids. store_ListAccessibleResourceIDs (az_env ''x'') (TenantTx ''o1'') ''o1'' ''u1'' SUBJECT_KIND_PRINCIPAL ''doc'' ''read'' [''d0'', ''d1''] az_granted = Inr ids \<and>
     ''d1'' \<in> set ids)"
  using access_oracles_agree [OF az_granted_reachable _ _ az_doc(1), where org = "''o1''" and rtype = "''doc''" and rid = "''d1''" and env = "az_env ''x''"
      and kind = SUBJECT_KIND_PRINCIPAL and subject = "''u1''" and action = "''read''" and requested = 2 and candidates = "[''d0'', ''d1'']"] az_member_reads
  by (auto simp: asking_kind_def az_scope_def az_env_def)

theorem accessible_scope_pages_cover_witness:
  "(\<exists>ns scopes. listed_scopes (az_env ''x'') ''o1'' ''u1'' SUBJECT_KIND_PRINCIPAL ''doc'' ''read'' 1 az_granted = Some scopes \<and>
      map as_node_id scopes = map sn_id ns \<and> sorted_wrt (\<lambda>a b. sn_scope_path a < sn_scope_path b) ns \<and>
      set ns = {n \<in> set (az_scope_nodes az_granted). sn_org_id n = ''o1'' \<and>
        (node_direct (az_env ''x'') ''o1'' ''u1'' SUBJECT_KIND_PRINCIPAL ''doc'' ''read'' az_granted n \<or>
         platform_reads (az_env ''x'') ''u1'' SUBJECT_KIND_PRINCIPAL ''read'' az_granted)}) \<and>
   (\<exists>rows token. fst (ListAccessibleScopes (az_env ''x'') ''o1'' ''u1'' SUBJECT_KIND_PRINCIPAL ''doc'' ''read'' [] 1 az_granted) = Inr (rows, token) \<and>
      length rows \<le> 1000)"
proof -
  have "''o1'' \<noteq> []" "asking_kind SUBJECT_KIND_PRINCIPAL" by (simp_all add: asking_kind_def)
  then show ?thesis by (rule accessible_scope_pages_cover [OF az_granted_reachable])
qed

theorem scope_tree_connected_witness:
  "\<exists>!m. m \<in> set (az_scope_nodes az_tree3) \<and> sn_org_id m = ''o1'' \<and> sn_scope_path m = [''s'']"
  using scope_tree_connected [OF az_tree_reachable, THEN conjunct1, THEN bspec, OF az_doc(2), THEN spec, of "[''s'']"]
  by (simp add: az_scope_def is_ancestor_def)


theorem placement_is_stable_witness:
  "WithOrgTx ''o1'' (\<lambda>s. store_PlaceRecordNode (az_env ''y'') s (az_node ''m.z'' ''other'' ''doc'' ''d1'')) az_tree3 =
    (Inr ((az_node ''s.d'' ''record'' ''doc'' ''d1'')\<lparr>an_id := ''n3'', an_created_at := Some 10\<rparr>), az_tree3)"
proof (rule placement_is_stable)
  show "WithOrgTx ''o1'' (\<lambda>s. store_PlaceRecordNode (az_env ''x'') s ((az_node ''s.d'' ''record'' ''doc'' ''d1'')\<lparr>an_id := ''n3''\<rparr>)) az_tree2 =
    (Inr ((az_node ''s.d'' ''record'' ''doc'' ''d1'')\<lparr>an_id := ''n3'', an_created_at := Some 10\<rparr>), az_tree3)"
    unfolding az_tree3_rows az_tree2_rows
    by (simp add: store_PlaceRecordNode_def placed_record_def select_first_def az_nodes az_run az_start_def del: set_filter)
qed (simp_all add: az_node_def)

theorem tenant_access_confined_witness:
  "fst (CheckAccess (az_env ''x'') ''o2'' ''u1'' SUBJECT_KIND_PRINCIPAL ''doc'' ''d1'' ''read'' az_granted) =
   fst (CheckAccess (az_env ''x'') ''o2'' ''u1'' SUBJECT_KIND_PRINCIPAL ''doc'' ''d1'' ''read'' az_tree3)"
proof -
  have "access_op (Some ''o1'') az_tree3 az_granted"
    using op_grant [of az_request az_tree3 "az_env ''g1''" "''u1''"] by (simp add: az_granted_def az_request_def)
  from tenant_access_confined [OF az_tree_reachable this, of "''o2''"] show ?thesis by simp
qed

lemma az_grant_run: "GrantScope (az_env ''g1'') ''u1'' az_request az_tree3 =
    (Inr (az_request\<lparr>ag_id := ''g1'', ag_granted_by := ''u1'', ag_created_at := Some 10\<rparr>), az_granted)"
  using az_granted_rows(2) by (simp add: az_granted_def prod_eq_iff)

theorem grant_scope_writes_one_row_witness:
  "\<exists>g. {x \<in> set (az_scope_grants az_granted). grant_key x = (''o1'', ''t1'', ''team'', [''s''], ''r1'')} = {g} \<and> sg_id g = ''g1'' \<and> sg_derived_from g = None"
  using grant_scope_writes_one_row [OF az_tree_reachable az_grant_run]
  by (auto simp: az_request_def subjectKindColumn_def Let_def)

theorem granted_scope_allows_witness:
  "fst (CheckAccess (az_env ''x'') ''o1'' ''u1'' SUBJECT_KIND_PRINCIPAL ''doc'' ''d1'' ''read'' az_granted) = Inr (True, ''granted via scope'')"
proof (rule granted_scope_allows [OF az_tree_reachable az_grant_run _ az_doc(2), where path = "[''s'']"])
  show "permits (visible_permissions (TenantTx ''o1'') az_tree3) (ag_role_id az_request) ''doc'' ''read''"
    by (simp add: az_tree3_rows az_decide az_grants az_start_def az_request_def)
qed (simp_all add: az_request_def az_scope_def is_ancestor_def unexpired_def az_tree3_rows az_start_def visible_team_members_def visible_teams_def)

theorem revoke_scope_exact_witness:
  "az_scope_grants (snd (RevokeScope (az_env ''x'') ''u1'' ''o1'' ''t1'' SUBJECT_KIND_TEAM ''s'' ''r1'' az_granted)) = []"
proof -
  have "fst (RevokeScope (az_env ''x'') ''u1'' ''o1'' ''t1'' SUBJECT_KIND_TEAM ''s'' ''r1'' az_granted) = Inr ()"
    by (simp add: RevokeScope_def narrow_def revokeScopeApply_def store_RevokeScope_def subjectKindColumn_def cast_ltree_def az_run)
  then have run: "RevokeScope (az_env ''x'') ''u1'' ''o1'' ''t1'' SUBJECT_KIND_TEAM ''s'' ''r1'' az_granted =
      (Inr (), snd (RevokeScope (az_env ''x'') ''u1'' ''o1'' ''t1'' SUBJECT_KIND_TEAM ''s'' ''r1'' az_granted))" by (simp add: prod_eq_iff)
  from revoke_scope_exact [OF az_granted_reachable run] show ?thesis
    by (auto simp: Let_def az_granted_rows(1) subjectKindColumn_def named_grant_def az_grant_def)
qed

section \<open>A share\<close>

definition az_share :: api_share where
  "az_share = \<lparr>ah_id = [], ah_org_id = ''o1'', ah_resource_type = ''doc'', ah_resource_id = ''d1'', ah_subject_id = ''u2'',
     ah_subject_kind = SUBJECT_KIND_PRINCIPAL, ah_role_id = ''r1'', ah_granted_by = [], ah_expires_at = None, ah_created_at = None\<rparr>"

definition az_shared :: access_db where
  "az_shared = snd (ShareRecord (az_env ''h1'') ''u1'' az_share az_tree3)"

lemmas az_shares = ShareRecord_def store_ShareRecord_def upsert_share_def OrgMemberExists_def visible_members_def az_share_def

lemma az_share_run: "ShareRecord (az_env ''h1'') ''u1'' az_share az_tree3 =
    (Inr (az_share\<lparr>ah_id := ''h1'', ah_granted_by := ''u1'', ah_created_at := Some 10\<rparr>), az_shared)"
proof -
  have "fst (ShareRecord (az_env ''h1'') ''u1'' az_share az_tree3) = Inr (az_share\<lparr>ah_id := ''h1'', ah_granted_by := ''u1'', ah_created_at := Some 10\<rparr>)"
    unfolding az_tree3_rows by (simp add: az_shares az_grants az_nodes az_run az_start_def del: set_filter)
  then show ?thesis by (simp add: az_shared_def prod_eq_iff)
qed

theorem share_then_revoke_witness:
  "(\<exists>reason. fst (CheckAccess (az_env ''x'') ''o1'' ''u2'' SUBJECT_KIND_PRINCIPAL ''doc'' ''d1'' ''read'' az_shared) = Inr (True, reason)) \<and>
   az_record_shares (snd (RevokeShare (az_env ''x'') ''u1'' ''o1'' ''doc'' ''d1'' ''u2'' SUBJECT_KIND_PRINCIPAL ''r1'' az_shared)) = []"
proof -
  have ids: "canonicalSubjectTenancyIDs (az_env ''h1'') (ah_org_id az_share) (ah_subject_id az_share) = Inr (''o1'', ''u2'')"
    by (simp add: canonicalSubjectTenancyIDs_def ParseID_def az_env_def az_share_def)
  have may: "permits (visible_permissions (TenantTx ''o1'') az_tree3) (ah_role_id az_share) (ah_resource_type az_share) ''read''"
    "unexpired (ax_now (az_env ''x'')) (ah_expires_at az_share)"
    by (simp_all add: az_tree3_rows az_decide az_grants az_start_def az_share_def)
  have none: "az_record_shares az_tree3 = []" by (simp add: az_tree3_rows az_start_def)
  let ?run = "RevokeShare (az_env ''x'') ''u1'' ''o1'' ''doc'' ''d1'' ''u2'' SUBJECT_KIND_PRINCIPAL ''r1'' az_shared"
  have "?run = (Inr (), snd ?run)"
    by (simp add: prod_eq_iff RevokeShare_def narrow_def store_RevokeShare_def subjectKindColumn_def az_run)
  then show ?thesis
    using share_then_revoke [OF az_tree_reachable az_share_run ids, of "''read''" "az_env ''x''" "''u1''"] may none
    by (simp add: az_share_def)
qed

section \<open>Roles\<close>

definition az_assignment :: "uuid \<Rightarrow> string option \<Rightarrow> role_assignment" where
  "az_assignment i scope = \<lparr>ra_id = i, ra_subject_id = ''t1'', ra_subject_kind = ''team'', ra_role_id = ''r1'', ra_org_id = Some ''o1'',
     ra_scope = scope, ra_assigned_at = 5\<rparr>"

definition az_assigned :: access_db where
  "az_assigned = az_start\<lparr>az_role_assignments := [az_assignment ''a1'' (Some ''east'')]\<rparr>"

lemma az_explain: "ExplainPermission ''u1'' SUBJECT_KIND_PRINCIPAL ''doc'' ''read'' ''o1'' ''west'' az_assigned =
    (Inr ((False, ''no matching permission found''), [''east'']), az_assigned)"
  by (simp add: ExplainPermission_def store_CheckPermission_def store_ScopesGrantingPermission_def assignmentSubjectPredicate_def subject_matches_def
      visible_assignments_def assignment_grants_def role_of_assignment_def org_answers_def scope_answers_def az_decide az_grants az_run
      az_assigned_def az_assignment_def az_start_def map_filter_def del: set_filter)

theorem explain_permission_agrees_witness:
  "\<exists>why. fst (CheckPermission ''u1'' SUBJECT_KIND_PRINCIPAL ''doc'' ''read'' ''o1'' ''east'' az_assigned) = Inr (True, why)"
proof -
  obtain general where "\<forall>s. s \<noteq> [] \<longrightarrow>
      (\<exists>why. fst (CheckPermission ''u1'' SUBJECT_KIND_PRINCIPAL ''doc'' ''read'' ''o1'' s az_assigned) = Inr (general \<or> s \<in> set [''east''], why))"
    using explain_permission_agrees [OF az_explain] by blast
  from this [THEN spec, of "''east''"] show ?thesis by simp
qed

theorem revoke_role_exact_witness:
  "RevokeRole (az_env ''x'') ''u1'' ''t1'' ''r1'' ''o1'' ''west'' az_assigned = (Inl NotFound, az_assigned)"
proof -
  have "\<forall>a \<in> set (az_role_assignments az_assigned). \<not> revoked_assignment ''t1'' ''r1'' ''o1'' ''west'' a"
    by (simp add: az_assigned_def az_assignment_def revoked_assignment_def nilIfEmpty_def)
  then show ?thesis using revoke_role_exact [of az_assigned "''t1''" "''r1''" "''o1''" "''west''" "az_env ''x''" "''u1''"] by blast
qed

lemma az_start_reachable: "access_reachable az_start"
  using az_start_ok by (auto simp: access_reachable_def)

theorem update_role_exact_witness:
  "{p. (''r2'', p) \<in> set (az_role_permissions (snd (UpdateRole (az_env ''x'') ''u1'' ''r2'' [] ''spare'' [reach_permission] az_start)))} = {reach_permission}"
proof -
  let ?run = "UpdateRole (az_env ''x'') ''u1'' ''r2'' [] ''spare'' [reach_permission] az_start"
  have "\<exists>out. ?run = (Inr out, snd ?run)"
    by (simp add: prod_eq_iff UpdateRole_def ScopedTx_def store_UpdateRole_def select_first_def visible_roles_def global_or_in_tenant_def az_role_def
        az_start_def nilIfEmpty_def az_run)
  then obtain out where run: "?run = (Inr out, snd ?run)" by blast
  from update_role_exact [OF az_start_reachable run] show ?thesis by simp
qed

theorem list_roles_complete_witness:
  "\<exists>listed. ListRoles ''o1'' az_tree3 = (Inr listed, az_tree3) \<and> distinct (map ar_id listed)"
  using list_roles_complete [OF az_tree_reachable, of "''o1''"] by blast

end
