(* ===== verification/Carried_Examples.thy ===== *)
theory Carried_Examples
  imports Access_Examples
begin

text \<open>
  A solution granted to a team with the module access it carries, and behaviours of the code that
  its documentation does not describe.
\<close>

section \<open>A solution granted to a team\<close>

definition az_reached :: "reached_module list" where
  "az_reached = [\<lparr>rm_audience = ''mod'', rm_installation_id = ''i2'',
     rm_invoke_scopes = [\<lparr>ms_resource_kind = ''doc'', ms_actions = [''write'', ''read''], ms_resource_ids = []\<rparr>]\<rparr>]"

definition az_exposed :: access_db where
  "az_exposed = snd (GrantInstallationToTeam (az_env ''c'') (Inr az_reached) (Inr []) id ''u1'' ''o1'' ''i1'' ''t1'' ''r1'' az_tree3)"

definition az_provenance :: string where
  "az_provenance = carried_provenance ''i1'' ''mod'' ''r1''"

definition az_carried_role :: role_row where
  "az_carried_role = \<lparr>rl_id = ''cx'', rl_name = derivedRoleName az_provenance, rl_description = Some ''mod'', rl_built_in = False,
     rl_org_id = Some ''o1'', rl_scope = None, rl_catalog_managed = False, rl_derived_from = Some az_provenance\<rparr>"

definition az_doc_read :: permission where
  "az_doc_read = \<lparr>pm_resource = ''doc'', pm_action = ''read''\<rparr>"

lemma az_pairs: "declaredPairs [\<lparr>ms_resource_kind = ''doc'', ms_actions = [''write'', ''read''], ms_resource_ids = []\<rparr>] = [(''doc'', ''read''), (''doc'', ''write'')]"
  by (simp add: declaredPairs_def Let_def less_eq_char_def less_char_def)

lemmas az_carry = GrantInstallationToTeam_def az_reached_def namedResourceScopes_def expose_installation_def InstallationRootScopePath_def
  visible_installations_def map_filter_def RolePermits_def RolePermittedScopes_def rolePermitsPredicate_def az_pairs carried_permissions_def
  EnsureDerivedRole_def ensure_role_row_def insert_role_row_def role_name_taken_def reconcile_permissions_def carried_role_def
  reach_permission_def ResourceTypeSolution_def ActionUseSolution_def

lemma az_provenance_nonempty: "carried_provenance ''i1'' ''mod'' ''r1'' \<noteq> []"
  by (simp add: carried_provenance_def)

lemma az_exposed_rows:
  "az_exposed = az_tree3\<lparr>az_roles := az_roles az_tree3 @ [az_carried_role],
     az_role_permissions := az_role_permissions az_tree3 @ [(''cx'', reach_permission), (''cx'', az_doc_read)],
     az_scope_grants := [az_grant ''c'' [''s''] ''r1'' None, az_grant ''cxx'' [''m''] ''cx'' (Some ''c'')]\<rparr>"
  unfolding az_exposed_def az_tree3_rows
  by (simp add: az_carry az_provenance_nonempty az_provenance_def az_carried_role_def az_doc_read_def az_decide az_grants az_nodes az_run az_start_def del: set_filter)

definition az_exposure :: installation_grant where
  "az_exposure = \<lparr>ig_grant = az_request\<lparr>ag_id := ''c'', ag_granted_by := ''u1'', ag_created_at := Some 10\<rparr>,
     ig_carried = [\<lparr>cm_audience = ''mod'', cm_installation_id = ''i2'', cm_scope_path = ''m'', cm_role_id = ''cx'', cm_scopes = [''solution:use'', ''doc:read'']\<rparr>],
     ig_unmet = []\<rparr>"

lemma az_exposure_run:
  "GrantInstallationToTeam (az_env ''c'') (Inr az_reached) (Inr []) id ''u1'' ''o1'' ''i1'' ''t1'' ''r1'' az_tree3 = (Inr az_exposure, az_exposed)"
proof -
  have "fst (GrantInstallationToTeam (az_env ''c'') (Inr az_reached) (Inr []) id ''u1'' ''o1'' ''i1'' ''t1'' ''r1'' az_tree3) = Inr az_exposure"
    unfolding az_tree3_rows
    by (simp add: az_carry az_provenance_nonempty az_exposure_def az_request_def permission_text_def az_decide az_grants az_nodes az_run az_start_def del: set_filter)
  then show ?thesis by (simp add: az_exposed_def prod_eq_iff)
qed

lemma az_exposed_reachable: "access_reachable az_exposed"
  unfolding az_exposed_def by (rule access_reachable_op [OF az_tree_reachable op_expose])

theorem derived_access_needs_cause_witness:
  "\<exists>cause \<in> set (az_scope_grants az_exposed). sg_derived_from (az_grant ''cxx'' [''m''] ''cx'' (Some ''c'')) = Some (sg_id cause) \<and> sg_derived_from cause = None"
proof -
  have "carried_only (az_roles az_exposed) ''cx''"
    by (simp add: carried_only_def az_exposed_rows az_carried_role_def az_provenance_def SolutionRoleOrigin_def carried_provenance_def)
  moreover have "az_grant ''cxx'' [''m''] ''cx'' (Some ''c'') \<in> set (az_scope_grants az_exposed)" "sg_role_id (az_grant ''cxx'' [''m''] ''cx'' (Some ''c'')) = ''cx''"
    by (simp_all add: az_exposed_rows az_grant_def)
  ultimately show ?thesis using derived_access_needs_cause [OF az_exposed_reachable, of "''cx''"] by blast
qed


theorem exposure_reaches_witness:
  "store_CanReadScopeNode (az_env ''x'') (TenantTx ''o1'') ''o1'' ''t1'' SUBJECT_KIND_TEAM ''solution'' ''use'' ''n2'' az_exposed = Inr True"
  using exposure_reaches [OF az_tree_reachable az_exposure_run, of "''m''" "[''m'']" "az_scope ''n2'' [''m''] ''solution'' ''m'' None None" "az_env ''x''"]
  by (simp add: az_exposure_def az_exposed_rows az_tree3_rows az_scope_def is_ancestor_def az_env_def ResourceTypeSolution_def ActionUseSolution_def)

lemma both_gone: "\<lbrakk>\<forall>g \<in> S. \<not> P g \<and> \<not> (\<exists>c \<in> {a, b}. P c \<and> d g = Some (i c)); S \<subseteq> {a, b}; P a; d b = Some (i a)\<rbrakk> \<Longrightarrow> S = {}"
  by blast

theorem exposure_revocation_complete_witness:
  "az_scope_grants (snd (RevokeInstallationFromTeam (az_env ''x'') id ''u1'' ''o1'' ''i1'' ''t1'' ''r1'' az_exposed)) = []"
proof -
  let ?run = "RevokeInstallationFromTeam (az_env ''x'') id ''u1'' ''o1'' ''i1'' ''t1'' ''r1'' az_exposed"
  have "fst ?run = Inr ()"
    unfolding az_exposed_rows az_tree3_rows
    by (simp add: RevokeInstallationFromTeam_def find_cause_def revoke_with_carried_def narrow_def revokeDerivedGrantsTx_def DerivedScopeGrants_def
        granted_teams_def revokeScopeApply_def store_RevokeScope_def stored_kind_def az_carry az_decide az_grants az_nodes az_run az_start_def del: set_filter)
  then have run: "?run = (Inr (), snd ?run)" by (simp add: prod_eq_iff)
  have "access_reachable (id az_exposed)" using az_exposed_reachable by simp
  from exposure_revocation_complete [OF this run] obtain path root where
    path: "InstallationRootScopePath (TenantTx ''o1'') ''o1'' ''i1'' az_exposed = Inr path" "ltree_in path = Some root"
    and left: "\<forall>g \<in> set (az_scope_grants (snd ?run)). \<not> named_grant ''o1'' ''t1'' ''team'' root ''r1'' g \<and>
      \<not> (\<exists>c \<in> set (az_scope_grants az_exposed). named_grant ''o1'' ''t1'' ''team'' root ''r1'' c \<and> sg_derived_from g = Some (sg_id c))"
      "set (az_scope_grants (snd ?run)) \<subseteq> set (az_scope_grants az_exposed)"
    by (auto simp: Let_def)
  have "InstallationRootScopePath (TenantTx ''o1'') ''o1'' ''i1'' az_exposed = Inr ''s''"
    unfolding az_exposed_rows az_tree3_rows by (simp add: az_carry az_nodes select_first_def az_start_def)
  then have "root = [''s'']" using path by simp
  then have named: "named_grant ''o1'' ''t1'' ''team'' root ''r1'' (az_grant ''c'' [''s''] ''r1'' None)" by (simp add: named_grant_def az_grant_def)
  have before: "set (az_scope_grants az_exposed) = {az_grant ''c'' [''s''] ''r1'' None, az_grant ''cxx'' [''m''] ''cx'' (Some ''c'')}"
    by (simp add: az_exposed_rows)
  have "sg_derived_from (az_grant ''cxx'' [''m''] ''cx'' (Some ''c'')) = Some (sg_id (az_grant ''c'' [''s''] ''r1'' None))" by (simp add: az_grant_def)
  then have "set (az_scope_grants (snd ?run)) = {}" 
    by (rule both_gone [where P = "named_grant ''o1'' ''t1'' ''team'' root ''r1''" and d = sg_derived_from and i = sg_id, OF left [unfolded before] named])
  then show ?thesis by simp
qed

section \<open>Behaviours the documentation does not describe\<close>

text \<open>The audit record of a role assignment names the subject of the assignment as the actor.\<close>

lemma assign_role_names_subject_as_actor:
  "map ae_actor_id (az_audit (snd (AssignRole ((az_env ''a'')\<lparr>ax_audit := TxAudit (\<lambda>_. True)\<rparr>) ''t1'' SUBJECT_KIND_TEAM ''r1'' ''o1'' [] az_start))) = [''t1'']"
  by (simp add: AssignRole_def ScopedTx_def store_AssignRole_def emitEntryTx_def nilIfEmpty_def az_grants az_run az_start_def del: set_filter)

text \<open>Revoking a grant that does not exist succeeds and announces the revocation.\<close>

lemma revoke_scope_announces_nothing_revoked:
  "let run = RevokeScope ((az_env ''x'')\<lparr>ax_transport := Some (\<lambda>_. True)\<rparr>) ''u1'' ''o1'' ''t1'' SUBJECT_KIND_TEAM ''s'' ''r1'' az_tree3 in
   az_scope_grants az_tree3 = [] \<and> fst run = Inr () \<and> map de_type (az_events (snd run)) = [''saas.scope.revoked'']"
  unfolding az_tree3_rows
  by (simp add: RevokeScope_def narrow_def revokeScopeApply_def store_RevokeScope_def subjectKindColumn_def cast_ltree_def az_run az_start_def)

text \<open>
  A re-grant after the chosen role lost every declared permission reports that nothing is carried
  and leaves the derived role and the grant as they were: the team keeps reading.
\<close>

definition az_narrowed :: access_db where
  "az_narrowed = snd (UpdateRole (az_env ''x'') ''u1'' ''r1'' [] ''user'' [reach_permission] az_exposed)"

definition az_regranted :: access_db where
  "az_regranted = snd (GrantInstallationToTeam (az_env ''e'') (Inr az_reached) (Inr []) id ''u1'' ''o1'' ''i1'' ''t1'' ''r1'' az_narrowed)"

lemma az_narrowed_rows:
  "az_narrowed = az_exposed\<lparr>az_roles := [(az_role ''r1'' ''user'')\<lparr>rl_description := Some ''user''\<rparr>, az_role ''r2'' ''spare'', az_carried_role],
     az_role_permissions := [(''cx'', reach_permission), (''cx'', az_doc_read), (''r1'', reach_permission)]\<rparr>"
  unfolding az_narrowed_def az_exposed_rows az_tree3_rows
  by (simp add: UpdateRole_def ScopedTx_def store_UpdateRole_def select_first_def visible_roles_def global_or_in_tenant_def az_role_def az_carried_role_def
      add_permissions_def add_permission_def clear_permissions_def set_role_description_def nilIfEmpty_def az_run az_start_def)

lemma az_regrant_run:
  "GrantInstallationToTeam (az_env ''e'') (Inr az_reached) (Inr []) id ''u1'' ''o1'' ''i1'' ''t1'' ''r1'' az_narrowed =
     (Inr \<lparr>ig_grant = az_request\<lparr>ag_id := ''c'', ag_granted_by := ''u1'', ag_created_at := Some 10\<rparr>, ig_carried = [],
       ig_unmet = [\<lparr>rc_kind = CARRIED_MODULE_ACCESS_NOT_DERIVED, rc_subject = ''mod''\<rparr>]\<rparr>, az_narrowed)"
  unfolding az_narrowed_rows az_exposed_rows az_tree3_rows
  by (simp add: az_carry az_request_def az_carried_role_def az_doc_read_def az_decide az_grants az_nodes az_run az_start_def del: set_filter)

lemma regrant_keeps_stale_access:
  "permissions_held ''r1'' az_regranted = {reach_permission}" "az_doc_read \<in> permissions_held ''cx'' az_regranted"
  "az_grant ''cxx'' [''m''] ''cx'' (Some ''c'') \<in> set (az_scope_grants az_regranted)"
  unfolding az_regranted_def az_regrant_run by (auto simp: az_narrowed_rows az_exposed_rows permissions_held_def)

text \<open>
  Re-granting the cause with an expiry leaves the carried grant without one: after the cause has
  expired the team no longer reaches the solution but still reads the module.
\<close>

definition az_expiring :: access_db where
  "az_expiring = snd (GrantScope (az_env ''f'') ''u1'' (az_request\<lparr>ag_expires_at := Some 20\<rparr>) az_exposed)"

definition az_late :: access_env where
  "az_late = (az_env ''x'')\<lparr>ax_now := 30\<rparr>"

lemma carried_grant_outlives_expired_cause:
  "store_CanReadScopeNode az_late (TenantTx ''o1'') ''o1'' ''t1'' SUBJECT_KIND_TEAM ''solution'' ''use'' ''n1'' az_expiring = Inr False"
  "store_CanReadScopeNode az_late (TenantTx ''o1'') ''o1'' ''t1'' SUBJECT_KIND_TEAM ''doc'' ''read'' ''n2'' az_expiring = Inr True"
  unfolding az_expiring_def az_exposed_rows az_tree3_rows
  by (simp_all add: GrantScope_def az_request_def az_late_def store_CanReadScopeNode_def accessibleScopesQuery_def node_granted_def node_shared_def
      platformReadPredicate_def platformReadAdmissible_def az_carried_role_def az_doc_read_def reach_permission_def ResourceTypeSolution_def ActionUseSolution_def
      az_decide az_grants az_nodes az_run az_start_def del: set_filter)

end
