(* ===== verification/Event_Tables.thy ===== *)
theory Event_Tables
  imports Job_Worker Service_Core
begin

text \<open>
  The domain events of \<^verbatim>\<open>pkg/events\<close> and \<^verbatim>\<open>pkg/infra/postgres_events.go\<close>: the envelope, the outbox
  table \<^verbatim>\<open>domain_events\<close>, the subscriptions and webhook endpoints an event is fanned out to, the
  matching of type patterns, the catalog of published types (\<^verbatim>\<open>eventcatalog/lookup.go\<close>), and the
  publication of an event inside the caller's transaction.  The catalog table is generated code
  and an argument; so are JSON, protobuf, SHA-256 and the text form of a time.
\<close>

section \<open>Envelopes and tables\<close>

record event_envelope =
  ev_id :: string
  ev_type :: string
  ev_source :: string
  ev_subject :: string
  ev_time :: "time option"
  ev_specversion :: string
  ev_datacontenttype :: string
  ev_dataschema :: string
  ev_data :: string
  ev_tenant_id :: string
  ev_boundary_id :: string
  ev_partition_key :: string
  ev_correlation_id :: string
  ev_causation_id :: string
  ev_actor_principal_id :: string
  ev_owner_principal_id :: string
  ev_traceparent :: string
  ev_schema_version :: "32 word"

record event_row =
  er_id :: uuid
  er_seq :: nat
  er_type :: string
  er_source :: string
  er_subject :: string
  er_event_time :: "time option"
  er_specversion :: string
  er_datacontenttype :: string
  er_dataschema :: string
  er_data :: string
  er_tenant_id :: "uuid option"
  er_boundary_id :: string
  er_partition_key :: string
  er_correlation_id :: string
  er_causation_id :: string
  er_actor_principal_id :: string
  er_owner_principal_id :: string
  er_traceparent :: string
  er_schema_version :: int
  er_request_fingerprint :: string
  er_published_at :: "time option"
  er_created_at :: time
  er_relay_attempts :: nat
  er_last_relay_error :: string
  er_dead_lettered_at :: "time option"

text \<open>A row of \<^verbatim>\<open>event_subscriptions\<close>, and the value the relay reads it into.\<close>

record event_subscription_row =
  es_id :: uuid
  es_subscriber_principal_id :: "uuid option"
  es_type_pattern :: string
  es_queue :: string
  es_delivery :: string
  es_created_by :: "uuid option"
  es_created_at :: time
  es_revoked_at :: "time option"
  es_org_id :: "uuid option"
  es_webhook_subscription_id :: "uuid option"

record subscription =
  sub_ID :: string
  sub_SubscriberPrincipalID :: string
  sub_TypePattern :: string
  sub_Queue :: string
  sub_Delivery :: string
  sub_OrgID :: string
  sub_WebhookSubscriptionID :: string

record webhook_endpoint =
  we_id :: uuid
  we_org_id :: uuid
  we_url :: string
  we_secret_encrypted :: string
  we_previous_secret_encrypted :: "string option"
  we_previous_secret_expires_at :: "time option"
  we_events :: "string list"
  we_description :: string
  we_active :: bool
  we_created_at :: time
  we_updated_at :: time

record webhook_delivery =
  wd_id :: uuid
  wd_subscription_id :: uuid
  wd_event_id :: uuid
  wd_outbox_event_id :: "uuid option"
  wd_event_type :: string
  wd_payload :: string
  wd_status :: string
  wd_http_status :: "int option"
  wd_response_body :: "string option"
  wd_attempts :: nat
  wd_last_attempt_at :: "time option"
  wd_created_at :: time
  wd_updated_at :: time
  wd_delivered_at :: "time option"

text \<open>
  The two counters are the identity sequences of \<^verbatim>\<open>domain_events\<close> and \<^verbatim>\<open>job_messages\<close>, the third
  counts the random identifiers drawn so far.
\<close>

record event_db =
  ed_events :: "event_row list"
  ed_subscriptions :: "event_subscription_row list"
  ed_endpoints :: "webhook_endpoint list"
  ed_deliveries :: "webhook_delivery list"
  ed_audit_event_types :: "(string \<times> string) list"
  ed_jobs :: job_db
  ed_trail :: "audit_entry list"
  ed_event_seq :: nat
  ed_job_seq :: nat
  ed_ids :: nat

datatype event_error =
    ErrInvalidEnvelope
  | ErrEventIdempotencyConflict
  | ErrEventLeaseLost
  | ErrEventPrivilege
  | ErrEventConstraint
  | ErrForeignKeyViolation
  | ErrNoDispatcher
  | ErrWebhookDeliveryExists
  | ErrWebhookWorkload
  | ErrWebhookDisposition
  | ErrWebhookEventTypeUndeliverable
  | ErrWebhookNotFound
  | ErrWebhookRequest
  | ErrWebhookCipher
  | EventAuditError store_error
  | EventJobError job_error

section \<open>Type patterns\<close>

definition trailingWildcard :: "string \<Rightarrow> string option" where
  "trailingWildcard pattern =
     (if length pattern \<le> 2 \<or> drop (length pattern - 2) pattern \<noteq> ''.*'' then None
      else Some (take (length pattern - 2) pattern))"

definition hasDotPrefix :: "string \<Rightarrow> string \<Rightarrow> bool" where
  "hasDotPrefix value prefix \<longleftrightarrow>
     length value > length prefix + 1 \<and> take (length prefix) value = prefix \<and> value ! length prefix = CHR ''.''"

definition Matches :: "string \<Rightarrow> string \<Rightarrow> bool" where
  "Matches pattern eventType =
     (case trailingWildcard pattern of
        Some prefix \<Rightarrow> eventType = prefix \<or> hasDotPrefix eventType prefix
      | None \<Rightarrow> pattern = eventType)"

text \<open>The grammar of a type: \<^verbatim>\<open>^[a-z][a-z0-9_]*(?:\.[a-z0-9_]+)+$\<close>.\<close>

fun split_on :: "char \<Rightarrow> string \<Rightarrow> string list" where
  "split_on c [] = [[]]"
| "split_on c (x # xs) =
     (if x = c then [] # split_on c xs
      else case split_on c xs of [] \<Rightarrow> [[x]] | w # ws \<Rightarrow> (x # w) # ws)"

definition decimal_digit :: "char \<Rightarrow> bool" where
  "decimal_digit c \<longleftrightarrow> CHR ''0'' \<le> c \<and> c \<le> CHR ''9''"

definition type_char :: "char \<Rightarrow> bool" where
  "type_char c \<longleftrightarrow> lower_letter c \<or> decimal_digit c \<or> c = CHR ''_''"

definition publishableEventType :: "string \<Rightarrow> bool" where
  "publishableEventType s =
     (case split_on CHR ''.'' s of
        (c # w) # labels \<Rightarrow>
          lower_letter c \<and> list_all type_char w \<and> labels \<noteq> [] \<and>
          list_all (\<lambda>l. l \<noteq> [] \<and> list_all type_char l) labels
      | _ \<Rightarrow> False)"

text \<open>\<^verbatim>\<open>^[a-z][a-z0-9_.:/-]{0,254}$\<close>, the check on \<^verbatim>\<open>domain_events.source\<close>.\<close>

definition publishable_source :: "string \<Rightarrow> bool" where
  "publishable_source s =
     (case s of
        c # w \<Rightarrow> lower_letter c \<and> length w \<le> 254 \<and>
          list_all (\<lambda>c. type_char c \<or> c \<in> {CHR ''.'', CHR '':'', CHR ''/'', CHR ''-''}) w
      | [] \<Rightarrow> False)"

section \<open>The event catalog\<close>

record published_event =
  pe_Type :: string
  pe_Namespace :: string
  pe_Visibility :: string
  pe_Partition :: string

definition PlatformAuditNamespace :: string where
  "PlatformAuditNamespace = ''saas''"

definition Namespace :: "string \<Rightarrow> string" where
  "Namespace eventType = takeWhile (\<lambda>c. c \<noteq> CHR ''.'') eventType"

text \<open>A later entry of the table overwrites an earlier one of the same type in the index.\<close>

definition LookupPublished :: "published_event list \<Rightarrow> string \<Rightarrow> published_event option" where
  "LookupPublished published eventType = select_first (\<lambda>e. pe_Type e = eventType) (rev published)"

definition IsInternalPublished :: "published_event list \<Rightarrow> string \<Rightarrow> bool" where
  "IsInternalPublished published eventType =
     (case LookupPublished published eventType of None \<Rightarrow> False | Some e \<Rightarrow> pe_Visibility e = ''internal'')"

definition IsExternalPublished :: "published_event list \<Rightarrow> string \<Rightarrow> bool" where
  "IsExternalPublished published eventType =
     (case LookupPublished published eventType of None \<Rightarrow> False | Some e \<Rightarrow> pe_Visibility e = ''external'')"

definition InternalPublishedTypes :: "published_event list \<Rightarrow> string list" where
  "InternalPublishedTypes published = map pe_Type (filter (\<lambda>e. pe_Visibility e = ''internal'') published)"

definition UnorderedPublishedTypesInNamespace :: "published_event list \<Rightarrow> string \<Rightarrow> string list" where
  "UnorderedPublishedTypesInNamespace published ns =
     map pe_Type (filter (\<lambda>e. pe_Partition e = [] \<and> Namespace (pe_Type e) = ns) published)"

section \<open>The environment of the transport\<close>

record webhook_payload =
  wp_EventID :: string
  wp_EventType :: string
  wp_Data :: string
  wp_Timestamp :: string
  wp_DeliveryID :: string

record outbound_job =
  ob_delivery_id :: string
  ob_subscription_id :: string
  ob_event_id :: string
  ob_event_type :: string
  ob_raw_body :: string

record event_env =
  ee_penv :: enqueue_env
  ee_jenv :: job_env
  ee_published :: "published_event list"
  ee_fresh :: "nat \<Rightarrow> uuid"
  ee_marshal :: "event_envelope \<Rightarrow> string option"
  ee_sha256 :: "string \<Rightarrow> string"
  ee_format_time :: "time \<Rightarrow> string"
  ee_parse_time :: "string \<Rightarrow> time option"
  ee_json_payload :: "webhook_payload \<Rightarrow> string option"
  ee_marshal_outbound :: "outbound_job \<Rightarrow> string"
  ee_unmarshal_outbound :: "string \<Rightarrow> outbound_job option"
  ee_valid_outbound :: "outbound_job \<Rightarrow> bool"
  ee_valid_enqueue :: "new_job \<Rightarrow> bool"
  ee_valid_envelope :: "job_envelope \<Rightarrow> bool"
  ee_dispatcher :: bool

definition worker_session :: db_session where
  "worker_session = \<lparr>ses_role = ''app_job_worker'', ses_org = None, ses_user = None\<rparr>"

definition tenant_session :: "uuid \<Rightarrow> db_session" where
  "tenant_session org = \<lparr>ses_role = ''app_tenant'', ses_org = Some org, ses_user = None\<rparr>"

section \<open>Publication\<close>

text \<open>PostgreSQL keeps microseconds.\<close>

definition pg_timestamp :: "time \<Rightarrow> time" where
  "pg_timestamp t = t - t mod 1000"

definition eventSchemaVersion :: "event_envelope \<Rightarrow> 32 word" where
  "eventSchemaVersion e = (if ev_schema_version e = 0 then 1 else ev_schema_version e)"

definition event_core :: "event_envelope \<Rightarrow> event_envelope" where
  "event_core e = e\<lparr>ev_time := None, ev_traceparent := [], ev_correlation_id := [], ev_causation_id := []\<rparr>"

definition eventFingerprint :: "event_env \<Rightarrow> event_envelope \<Rightarrow> event_error + string" where
  "eventFingerprint env e =
     (case ee_marshal env (event_core e) of
        None \<Rightarrow> Inl ErrInvalidEnvelope
      | Some raw \<Rightarrow> Inr (ee_sha256 env raw))"

definition cast_uuid :: "event_env \<Rightarrow> string \<Rightarrow> event_error + uuid" where
  "cast_uuid env s = (case uuid_parse (ee_penv env) s of None \<Rightarrow> Inl ErrEventConstraint | Some u \<Rightarrow> Inr u)"

definition cast_nullable_uuid :: "event_env \<Rightarrow> string \<Rightarrow> event_error + uuid option" where
  "cast_nullable_uuid env s = (if s = [] then Inr None else rbind (cast_uuid env s) (\<lambda>u. Inr (Some u)))"

definition domain_event_row ::
  "event_env \<Rightarrow> time \<Rightarrow> nat \<Rightarrow> event_envelope \<Rightarrow> string \<Rightarrow> event_error + event_row" where
  "domain_event_row env now seq e fingerprint =
     rbind (cast_uuid env (ev_id e)) (\<lambda>id.
     rbind (cast_nullable_uuid env (ev_tenant_id e)) (\<lambda>tenant.
     Inr \<lparr>er_id = id, er_seq = seq, er_type = ev_type e, er_source = ev_source e,
          er_subject = ev_subject e, er_event_time = map_option pg_timestamp (ev_time e),
          er_specversion = ev_specversion e, er_datacontenttype = ev_datacontenttype e,
          er_dataschema = ev_dataschema e, er_data = ev_data e, er_tenant_id = tenant,
          er_boundary_id = ev_boundary_id e, er_partition_key = ev_partition_key e,
          er_correlation_id = ev_correlation_id e, er_causation_id = ev_causation_id e,
          er_actor_principal_id = ev_actor_principal_id e, er_owner_principal_id = ev_owner_principal_id e,
          er_traceparent = ev_traceparent e, er_schema_version = sint (eventSchemaVersion e),
          er_request_fingerprint = fingerprint, er_published_at = None, er_created_at = now,
          er_relay_attempts = 0, er_last_relay_error = [], er_dead_lettered_at = None\<rparr>))"

definition event_row_admitted :: "event_row \<Rightarrow> bool" where
  "event_row_admitted r \<longleftrightarrow>
     length (er_request_fingerprint r) = 32 \<and> publishable_source (er_source r) \<and> publishableEventType (er_type r)"

definition may_publish :: "db_session \<Rightarrow> uuid option \<Rightarrow> bool" where
  "may_publish ses tenant =
     (if ses_role ses = ''app_tenant'' then tenant \<noteq> None \<and> tenant = ses_org ses
      else ses_role ses = ''app_control_plane'' \<or> ses_role ses = ''app_job_worker'')"

definition publish_domain_event ::
  "db_session \<Rightarrow> event_row \<Rightarrow> event_db \<Rightarrow> event_error + (string \<times> bool) \<times> event_db" where
  "publish_domain_event ses row db =
     (if \<not> may_publish ses (er_tenant_id row) then Inl ErrEventPrivilege
      else if \<not> event_row_admitted row then Inl ErrEventConstraint
      else case select_first (\<lambda>r. er_id r = er_id row) (ed_events db) of
             None \<Rightarrow> Inr ((er_request_fingerprint row, True),
                          db\<lparr>ed_events := ed_events db @ [row], ed_event_seq := Suc (ed_event_seq db)\<rparr>)
           | Some r \<Rightarrow> Inr ((er_request_fingerprint r, False), db\<lparr>ed_event_seq := Suc (ed_event_seq db)\<rparr>))"

definition insertDomainEvent ::
  "event_env \<Rightarrow> db_session \<Rightarrow> time \<Rightarrow> event_envelope \<Rightarrow> string \<Rightarrow> event_db \<Rightarrow> event_error + event_db" where
  "insertDomainEvent env ses now e fingerprint db =
     rbind (domain_event_row env now (ed_event_seq db) e fingerprint) (\<lambda>row.
     rbind (publish_domain_event ses row db) (\<lambda>((stored, inserted), db').
     if \<not> inserted \<and> stored \<noteq> fingerprint then Inl ErrEventIdempotencyConflict else Inr db'))"

text \<open>\<^verbatim>\<open>Publish\<close> with the caller's transaction, the only way a tenant publishes.\<close>

definition Publish ::
  "event_env \<Rightarrow> db_session \<Rightarrow> time \<Rightarrow> event_envelope \<Rightarrow> event_db \<Rightarrow> event_error + event_db" where
  "Publish env ses now e db =
     (if ev_id e = [] \<or> ev_type e = [] \<or> ev_source e = [] then Inl ErrInvalidEnvelope
      else rbind (eventFingerprint env e) (\<lambda>fingerprint. insertDomainEvent env ses now e fingerprint db))"

definition scanDomainEvent :: "event_row \<Rightarrow> event_envelope" where
  "scanDomainEvent r =
     \<lparr>ev_id = er_id r, ev_type = er_type r, ev_source = er_source r, ev_subject = er_subject r,
      ev_time = er_event_time r, ev_specversion = er_specversion r,
      ev_datacontenttype = er_datacontenttype r, ev_dataschema = er_dataschema r, ev_data = er_data r,
      ev_tenant_id = coalesce (er_tenant_id r), ev_boundary_id = er_boundary_id r,
      ev_partition_key = er_partition_key r, ev_correlation_id = er_correlation_id r,
      ev_causation_id = er_causation_id r, ev_actor_principal_id = er_actor_principal_id r,
      ev_owner_principal_id = er_owner_principal_id r, ev_traceparent = er_traceparent r,
      ev_schema_version = word_of_int (er_schema_version r)\<rparr>"

end
