(* ===== verification/Webhook_Delivery.thy ===== *)
theory Webhook_Delivery
  imports Event_Tables
begin

text \<open>
  One event for one endpoint: the pending row of \<^verbatim>\<open>webhook_deliveries\<close> and the outbound job that
  carries its exact bytes (\<^verbatim>\<open>business/webhook_jobs.go\<close>, \<^verbatim>\<open>infra/postgres_webhooks.go\<close>), and the relay's
  savepoint around both (\<^verbatim>\<open>infra/postgres_webhook_relay.go\<close>).
\<close>

section \<open>Delivery history\<close>

definition OutboundWebhookQueue :: string where "OutboundWebhookQueue = ''webhooks''"

definition OutboundWebhookTopic :: string where "OutboundWebhookTopic = ''webhook.delivery.send''"

definition OutboundWebhookSource :: string where "OutboundWebhookSource = ''saas.audit''"

definition OutboundWebhookSchemaVersion :: nat where "OutboundWebhookSchemaVersion = 1"

definition OutboundWebhookMaxAttempts :: nat where "OutboundWebhookMaxAttempts = 5"

definition OutboundWebhookContentType :: string where "OutboundWebhookContentType = ''application/protobuf''"

definition webhookOrderingNamespace :: string where "webhookOrderingNamespace = ''webhook_subscription''"

definition nullif_empty :: "string \<Rightarrow> string option" where
  "nullif_empty s = (if s = [] then None else Some s)"

text \<open>The Go value and the row it becomes: the timestamps are those the insert fills in.\<close>

definition pending_delivery ::
  "time \<Rightarrow> uuid \<Rightarrow> uuid \<Rightarrow> string \<Rightarrow> string \<Rightarrow> string \<Rightarrow> string \<Rightarrow> webhook_delivery" where
  "pending_delivery now deliveryID subscriptionID eventID outboxEventID eventType payload =
     \<lparr>wd_id = deliveryID, wd_subscription_id = subscriptionID, wd_event_id = eventID,
      wd_outbox_event_id = nullif_empty outboxEventID, wd_event_type = eventType, wd_payload = payload,
      wd_status = ''pending'', wd_http_status = None, wd_response_body = None, wd_attempts = 0,
      wd_last_attempt_at = None, wd_created_at = now, wd_updated_at = now, wd_delivered_at = None\<rparr>"

definition NewDomainEventWebhookDelivery ::
  "event_env \<Rightarrow> time \<Rightarrow> uuid \<Rightarrow> string \<Rightarrow> string \<Rightarrow> string \<Rightarrow> time \<Rightarrow> string \<Rightarrow>
   event_error + webhook_delivery \<times> string" where
  "NewDomainEventWebhookDelivery env now deliveryID eventID eventType subscriptionID occurred data =
     (case ee_json_payload env
        \<lparr>wp_EventID = eventID, wp_EventType = eventType, wp_Data = data,
         wp_Timestamp = ee_format_time env occurred, wp_DeliveryID = deliveryID\<rparr> of
        None \<Rightarrow> Inl ErrWebhookWorkload
      | Some payload \<Rightarrow>
          Inr (pending_delivery now deliveryID subscriptionID eventID eventID eventType payload, payload))"

definition endpoint_visible :: "db_session \<Rightarrow> webhook_endpoint \<Rightarrow> bool" where
  "endpoint_visible ses w \<longleftrightarrow> (ses_role ses = ''app_tenant'' \<longrightarrow> ses_org ses = Some (we_org_id w))"

definition holds_history :: "webhook_delivery \<Rightarrow> webhook_delivery \<Rightarrow> bool" where
  "holds_history d r \<longleftrightarrow>
     wd_subscription_id r = wd_subscription_id d \<and> wd_outbox_event_id d \<noteq> None \<and>
     wd_outbox_event_id r = wd_outbox_event_id d"

text \<open>
  The insert: the policy's check, the partial unique index it may conflict on, the primary key,
  the foreign key.
\<close>

definition CreateWebhookDelivery ::
  "db_session \<Rightarrow> webhook_delivery \<Rightarrow> event_db \<Rightarrow> event_error + event_db" where
  "CreateWebhookDelivery ses delivery db =
     (let d = (if wd_event_id delivery = [] then delivery\<lparr>wd_event_id := wd_id delivery\<rparr> else delivery) in
      if ses_role ses = ''app_tenant'' \<and>
         list_all (\<lambda>w. \<not> (we_id w = wd_subscription_id d \<and> endpoint_visible ses w)) (ed_endpoints db)
      then Inl ErrEventPrivilege
      else if list_ex (holds_history d) (ed_deliveries db) then Inl ErrWebhookDeliveryExists
      else if list_ex (\<lambda>r. wd_id r = wd_id d) (ed_deliveries db) then Inl ErrEventConstraint
      else if list_all (\<lambda>w. we_id w \<noteq> wd_subscription_id d) (ed_endpoints db) then Inl ErrForeignKeyViolation
      else Inr (db\<lparr>ed_deliveries := ed_deliveries db @ [d]\<rparr>))"

section \<open>The outbound job\<close>

definition outbound_payload :: "webhook_delivery \<Rightarrow> string \<Rightarrow> outbound_job" where
  "outbound_payload d rawBody =
     \<lparr>ob_delivery_id = wd_id d, ob_subscription_id = wd_subscription_id d, ob_event_id = wd_event_id d,
      ob_event_type = wd_event_type d, ob_raw_body = rawBody\<rparr>"

definition webhook_ordering :: "string \<Rightarrow> ordering_key" where
  "webhook_ordering subscriptionID =
     \<lparr>ok_namespace = webhookOrderingNamespace, ok_components = [subscriptionID]\<rparr>"

definition outbound_request :: "event_env \<Rightarrow> uuid \<Rightarrow> webhook_delivery \<Rightarrow> string \<Rightarrow> new_job" where
  "outbound_request env orgID d rawBody =
     \<lparr>nj_direction = OUTBOX, nj_scope = Some (ScopeOrganization orgID),
      nj_queue = OutboundWebhookQueue, nj_topic = OutboundWebhookTopic, nj_source = OutboundWebhookSource,
      nj_idempotency_key = wd_id d, nj_ordering = Some (webhook_ordering (wd_subscription_id d)),
      nj_schema_version = OutboundWebhookSchemaVersion,
      nj_payload = Some (ee_marshal_outbound env (outbound_payload d rawBody)),
      nj_content_type = OutboundWebhookContentType, nj_attributes = Map.empty, nj_priority = 0,
      nj_max_attempts = OutboundWebhookMaxAttempts, nj_available_at = None\<rparr>"

definition newOutboundWebhookJob ::
  "event_env \<Rightarrow> uuid \<Rightarrow> webhook_delivery \<Rightarrow> string \<Rightarrow> event_error + new_job" where
  "newOutboundWebhookJob env orgID d rawBody =
     (if \<not> ee_valid_outbound env (outbound_payload d rawBody) then Inl ErrWebhookWorkload
      else if \<not> ee_valid_enqueue env (outbound_request env orgID d rawBody) then Inl ErrWebhookWorkload
      else Inr (outbound_request env orgID d rawBody))"

text \<open>Enqueueing on the open transaction, with a new random id and the next value of the job sequence.\<close>

definition enqueue_in ::
  "event_env \<Rightarrow> db_session \<Rightarrow> time \<Rightarrow> new_job \<Rightarrow> event_db \<Rightarrow> event_error + enqueue_disposition \<times> event_db" where
  "enqueue_in env ses now job db =
     (case EnqueueJob (ee_penv env) (ee_jenv env) (Some ses) now (ee_fresh env (ed_ids db)) (ed_job_seq db) job (ed_jobs db) of
        (Inl e, _) \<Rightarrow> Inl (EventJobError e)
      | (Inr (_, d), jobs) \<Rightarrow>
          Inr (d, db\<lparr>ed_jobs := jobs, ed_ids := Suc (ed_ids db), ed_job_seq := Suc (ed_job_seq db)\<rparr>))"

definition enqueueOne :: "event_env \<Rightarrow> time \<Rightarrow> new_job \<Rightarrow> event_db \<Rightarrow> event_error + event_db" where
  "enqueueOne env now job db = rbind (enqueue_in env worker_session now job db) (\<lambda>(_, db'). Inr db')"

definition createOutboundWebhookDelivery ::
  "event_env \<Rightarrow> bool \<Rightarrow> db_session \<Rightarrow> time \<Rightarrow> uuid \<Rightarrow> webhook_delivery \<Rightarrow> string \<Rightarrow> event_db \<Rightarrow>
   event_error + event_db" where
  "createOutboundWebhookDelivery env producer ses now orgID d rawBody db =
     (if \<not> producer then Inl ErrNoDispatcher
      else rbind (newOutboundWebhookJob env orgID d rawBody) (\<lambda>request.
           rbind (CreateWebhookDelivery ses d db) (\<lambda>db1.
           rbind (enqueue_in env ses now request db1) (\<lambda>(disposition, db2).
           if disposition \<noteq> ENQUEUE_INSERTED then Inl ErrWebhookDisposition else Inr db2))))"

section \<open>The relay to an endpoint\<close>

datatype webhook_outcome = WebhookDelivered | WebhookAlreadyDelivered | WebhookEndpointGone

definition deliverOn ::
  "event_env \<Rightarrow> time \<Rightarrow> webhook_delivery \<Rightarrow> new_job \<Rightarrow> event_db \<Rightarrow> event_error + event_db" where
  "deliverOn env now delivery request db =
     rbind (CreateWebhookDelivery worker_session delivery db) (enqueueOne env now request)"

definition event_occurred :: "event_envelope \<Rightarrow> time" where
  "event_occurred e = (case ev_time e of None \<Rightarrow> 0 | Some t \<Rightarrow> t)"

definition draw_id :: "event_db \<Rightarrow> event_db" where
  "draw_id db = db\<lparr>ed_ids := Suc (ed_ids db)\<rparr>"

definition Deliver ::
  "event_env \<Rightarrow> time \<Rightarrow> event_envelope \<Rightarrow> subscription \<Rightarrow> event_db \<Rightarrow>
   event_error + webhook_outcome \<times> event_db" where
  "Deliver env now e s db =
     (let db0 = draw_id db in
      rbind (NewDomainEventWebhookDelivery env now (ee_fresh env (ed_ids db)) (ev_id e) (ev_type e)
               (sub_WebhookSubscriptionID s) (event_occurred e) (ev_data e)) (\<lambda>(delivery, body).
      rbind (newOutboundWebhookJob env (sub_OrgID s) delivery body) (\<lambda>request.
      case deliverOn env now delivery request db0 of
        Inr db' \<Rightarrow> Inr (WebhookDelivered, db')
      | Inl err \<Rightarrow>
          if err = ErrWebhookDeliveryExists then Inr (WebhookAlreadyDelivered, db0)
          else if err = ErrForeignKeyViolation then Inr (WebhookEndpointGone, db0)
          else Inl err)))"

end
