(* ===== verification/Event_Relay.thy ===== *)
theory Event_Relay
  imports Webhook_Delivery
begin

text \<open>
  \<^verbatim>\<open>infra/postgres_events.go\<close>: the relay of the outbox, the replay of history, and the consumer's
  side.  A batch is one transaction and every event in it runs in a savepoint, so a failed
  fan-out keeps the tables it found.  \<^verbatim>\<open>locked\<close> are the rows another relay holds, \<^verbatim>\<open>deleted\<close> the
  endpoints others delete between the scan of the subscriptions and the fan-out; what others
  commit between two transactions of one call is a function argument.  Rows and subscriptions
  are taken in table order where the query names no order.
\<close>

section \<open>Jobs and envelopes\<close>

definition put_attribute :: "string \<Rightarrow> string \<Rightarrow> attributes \<Rightarrow> attributes" where
  "put_attribute key val attrs = (if val \<noteq> [] then attrs(key \<mapsto> val) else attrs)"

definition event_text_attributes :: "event_envelope \<Rightarrow> attributes" where
  "event_text_attributes e =
     put_attribute ''traceparent'' (ev_traceparent e)
     (put_attribute ''owner_principal_id'' (ev_owner_principal_id e)
     (put_attribute ''actor_principal_id'' (ev_actor_principal_id e)
     (put_attribute ''causation_id'' (ev_causation_id e)
     (put_attribute ''correlation_id'' (ev_correlation_id e)
     (put_attribute ''partition_key'' (ev_partition_key e)
     (put_attribute ''boundary_id'' (ev_boundary_id e)
     (put_attribute ''tenant_id'' (ev_tenant_id e)
     (put_attribute ''dataschema'' (ev_dataschema e)
     (put_attribute ''datacontenttype'' (ev_datacontenttype e)
     (put_attribute ''specversion'' (ev_specversion e)
     (put_attribute ''subject'' (ev_subject e)
     (put_attribute ''source'' (ev_source e)
     (put_attribute ''type'' (ev_type e)
     (put_attribute ''id'' (ev_id e) Map.empty))))))))))))))"

definition eventAttributes :: "event_env \<Rightarrow> event_envelope \<Rightarrow> attributes" where
  "eventAttributes env e =
     (let attrs = event_text_attributes e;
          attrs = (case ev_time e of None \<Rightarrow> attrs | Some t \<Rightarrow> attrs(''time'' \<mapsto> ee_format_time env t))
      in if ev_schema_version e \<noteq> 0 then attrs(''schema_version'' \<mapsto> decimal_digits (unat (ev_schema_version e)))
         else attrs)"

text \<open>\<^verbatim>\<open>strconv.ParseUint(raw, 10, 32)\<close>.\<close>

definition decimal_value :: "string \<Rightarrow> nat" where
  "decimal_value s = foldl (\<lambda>n c. 10 * n + (of_char c - 48)) 0 s"

definition ParseUint32 :: "string \<Rightarrow> (32 word) option" where
  "ParseUint32 s =
     (if s \<noteq> [] \<and> list_all decimal_digit s \<and> decimal_value s < 2 ^ 32 then Some (of_nat (decimal_value s)) else None)"

definition envelopeFromAttributes :: "event_env \<Rightarrow> attributes \<Rightarrow> string \<Rightarrow> event_envelope" where
  "envelopeFromAttributes env attrs payload =
     (let a = (\<lambda>k. coalesce (attrs k)) in
      \<lparr>ev_id = a ''id'', ev_type = a ''type'', ev_source = a ''source'', ev_subject = a ''subject'',
       ev_time = (case attrs ''time'' of None \<Rightarrow> None | Some raw \<Rightarrow> ee_parse_time env raw),
       ev_specversion = a ''specversion'', ev_datacontenttype = a ''datacontenttype'',
       ev_dataschema = a ''dataschema'', ev_data = payload, ev_tenant_id = a ''tenant_id'',
       ev_boundary_id = a ''boundary_id'', ev_partition_key = a ''partition_key'',
       ev_correlation_id = a ''correlation_id'', ev_causation_id = a ''causation_id'',
       ev_actor_principal_id = a ''actor_principal_id'', ev_owner_principal_id = a ''owner_principal_id'',
       ev_traceparent = a ''traceparent'',
       ev_schema_version =
         (case attrs ''schema_version'' of
            None \<Rightarrow> 0
          | Some raw \<Rightarrow> (case ParseUint32 raw of None \<Rightarrow> 0 | Some n \<Rightarrow> n))\<rparr>)"

definition eventScope :: "string \<Rightarrow> job_scope" where
  "eventScope tenantID = (if tenantID = [] then ScopeGlobal else ScopeOrganization tenantID)"

definition eventOrdering :: "string \<Rightarrow> ordering_key option" where
  "eventOrdering partitionKey =
     (if partitionKey = [] then None else Some \<lparr>ok_namespace = ''events'', ok_components = [partitionKey]\<rparr>)"

definition eventContentType :: "event_envelope \<Rightarrow> string" where
  "eventContentType e = (if ev_datacontenttype e = [] then ''application/protobuf'' else ev_datacontenttype e)"

definition eventDeliveryMaxAttempts :: nat where "eventDeliveryMaxAttempts = 5"

definition delivery :: "event_env \<Rightarrow> event_envelope \<Rightarrow> subscription \<Rightarrow> string \<Rightarrow> new_job" where
  "delivery env e s idempotencyKey =
     \<lparr>nj_direction = INBOX, nj_scope = Some (eventScope (ev_tenant_id e)), nj_queue = sub_Queue s,
      nj_topic = ev_type e, nj_source = ev_source e, nj_idempotency_key = idempotencyKey,
      nj_ordering = (if sub_Delivery s = ''ordered'' then eventOrdering (ev_partition_key e) else None),
      nj_schema_version = unat (eventSchemaVersion e), nj_payload = Some (ev_data e),
      nj_content_type = eventContentType e, nj_attributes = eventAttributes env e, nj_priority = 0,
      nj_max_attempts = eventDeliveryMaxAttempts, nj_available_at = None\<rparr>"

definition delivery_key :: "event_envelope \<Rightarrow> subscription \<Rightarrow> string" where
  "delivery_key e s = ev_id e @ '':'' @ sub_ID s"

section \<open>Subscriptions\<close>

definition endpoint_active :: "event_db \<Rightarrow> uuid \<Rightarrow> bool" where
  "endpoint_active db w \<longleftrightarrow> list_ex (\<lambda>r. we_id r = w \<and> we_active r) (ed_endpoints db)"

definition subscription_live :: "event_db \<Rightarrow> event_subscription_row \<Rightarrow> bool" where
  "subscription_live db s \<longleftrightarrow>
     es_revoked_at s = None \<and>
     (case es_webhook_subscription_id s of None \<Rightarrow> True | Some w \<Rightarrow> endpoint_active db w)"

definition like_wildcard :: "string \<Rightarrow> bool" where
  "like_wildcard pattern \<longleftrightarrow> length pattern \<ge> 2 \<and> drop (length pattern - 2) pattern = ''.*''"

definition scan_subscription :: "event_subscription_row \<Rightarrow> subscription" where
  "scan_subscription s =
     \<lparr>sub_ID = es_id s, sub_SubscriberPrincipalID = coalesce (es_subscriber_principal_id s),
      sub_TypePattern = es_type_pattern s, sub_Queue = es_queue s, sub_Delivery = es_delivery s,
      sub_OrgID = coalesce (es_org_id s), sub_WebhookSubscriptionID = coalesce (es_webhook_subscription_id s)\<rparr>"

definition liveSubscriptions :: "string list \<Rightarrow> event_db \<Rightarrow> subscription list" where
  "liveSubscriptions types db =
     map scan_subscription
       (filter (\<lambda>s. subscription_live db s \<and> (es_type_pattern s \<in> set types \<or> like_wildcard (es_type_pattern s)))
         (ed_subscriptions db))"

definition eventTypesOf :: "event_envelope list \<Rightarrow> string list" where
  "eventTypesOf es = remdups (map ev_type es)"

section \<open>Fan-out of one event\<close>

definition externallyDeliverable :: "event_env \<Rightarrow> event_db \<Rightarrow> string \<Rightarrow> bool" where
  "externallyDeliverable env db eventType =
     (IsExternalPublished (ee_published env) eventType \<or>
      (case select_first (\<lambda>t. fst t = eventType) (ed_audit_event_types db) of
         None \<Rightarrow> False
       | Some t \<Rightarrow> snd t = ''external''))"

definition relayToWebhook ::
  "event_env \<Rightarrow> time \<Rightarrow> event_envelope \<Rightarrow> subscription \<Rightarrow> bool \<Rightarrow> event_db \<Rightarrow>
   event_error + webhook_outcome \<times> event_db" where
  "relayToWebhook env now e s external db =
     (if \<not> external then Inr (WebhookDelivered, db)
      else if sub_OrgID s = [] \<or> sub_OrgID s \<noteq> ev_tenant_id e then Inr (WebhookDelivered, db)
      else if \<not> ee_dispatcher env then Inl ErrNoDispatcher
      else Deliver env now e s db)"

definition mapEnqueueError :: "event_error \<Rightarrow> event_error" where
  "mapEnqueueError err = (if err = EventJobError ErrIdempotencyConflict then ErrEventIdempotencyConflict else err)"

definition relay_subscription ::
  "event_env \<Rightarrow> time \<Rightarrow> event_envelope \<Rightarrow> bool \<Rightarrow> subscription \<Rightarrow> event_db \<Rightarrow> event_error + event_db" where
  "relay_subscription env now e external s db =
     (if \<not> Matches (sub_TypePattern s) (ev_type e) then Inr db
      else if sub_Delivery s = ''webhook'' then
        rbind (relayToWebhook env now e s external db) (\<lambda>(_, db'). Inr db')
      else if Namespace (ev_type e) = PlatformAuditNamespace then Inr db
      else case enqueueOne env now (delivery env e s (delivery_key e s)) db of
             Inl err \<Rightarrow> Inl (mapEnqueueError err)
           | Inr db' \<Rightarrow> Inr db')"

fun relay_subscriptions ::
  "event_env \<Rightarrow> time \<Rightarrow> event_envelope \<Rightarrow> bool \<Rightarrow> subscription list \<Rightarrow> event_db \<Rightarrow> event_error + event_db" where
  "relay_subscriptions env now e external [] db = Inr db"
| "relay_subscriptions env now e external (s # ss) db =
     rbind (relay_subscription env now e external s db) (relay_subscriptions env now e external ss)"

definition mark_published :: "time \<Rightarrow> uuid \<Rightarrow> event_db \<Rightarrow> event_db" where
  "mark_published now i db =
     db\<lparr>ed_events := update_where (\<lambda>r. er_id r = i) (\<lambda>r. r\<lparr>er_published_at := Some now\<rparr>) (ed_events db)\<rparr>"

definition relayEvent ::
  "event_env \<Rightarrow> time \<Rightarrow> event_envelope \<Rightarrow> subscription list \<Rightarrow> event_db \<Rightarrow> event_error + event_db" where
  "relayEvent env now e subscriptions db =
     (if IsInternalPublished (ee_published env) (ev_type e) then Inr (mark_published now (ev_id e) db)
      else rbind (relay_subscriptions env now e (externallyDeliverable env db (ev_type e)) subscriptions db)
             (\<lambda>db'. Inr (mark_published now (ev_id e) db')))"

section \<open>Batches and drains\<close>

definition relayBatchSize :: nat where "relayBatchSize = 100"

definition relayMaxBatchesPerDrain :: nat where "relayMaxBatchesPerDrain = 20"

definition eventRelayMaxAttempts :: nat where "eventRelayMaxAttempts = 5"

record relay_drain =
  dr_failed :: "uuid list"
  dr_blocked :: "string list"

definition relaySelectUnpublished :: "(uuid \<Rightarrow> bool) \<Rightarrow> uuid list \<Rightarrow> event_db \<Rightarrow> event_row list" where
  "relaySelectUnpublished locked skip db =
     select_ordered er_seq
       (\<lambda>r. er_published_at r = None \<and> er_dead_lettered_at r = None \<and> er_id r \<notin> set skip \<and> \<not> locked (er_id r))
       relayBatchSize (ed_events db)"

text \<open>The stored text of the failure is an argument: \<^verbatim>\<open>nackMessage\<close> of the error.\<close>

definition fail_row :: "time \<Rightarrow> string \<Rightarrow> event_row \<Rightarrow> event_row" where
  "fail_row now message r =
     r\<lparr>er_relay_attempts := er_relay_attempts r + 1, er_last_relay_error := message,
       er_dead_lettered_at := (if er_relay_attempts r + 1 \<ge> eventRelayMaxAttempts then Some now else None)\<rparr>"

definition recordRelayFailure :: "time \<Rightarrow> string \<Rightarrow> uuid \<Rightarrow> event_db \<Rightarrow> bool \<times> event_db" where
  "recordRelayFailure now message i db =
     (let db' = db\<lparr>ed_events := update_where (\<lambda>r. er_id r = i) (fail_row now message) (ed_events db)\<rparr>
      in (case select_first (\<lambda>r. er_id r = i) (ed_events db') of
            None \<Rightarrow> False
          | Some r \<Rightarrow> er_dead_lettered_at r \<noteq> None, db'))"

definition owesOrderedDelivery :: "event_env \<Rightarrow> event_envelope \<Rightarrow> subscription list \<Rightarrow> bool" where
  "owesOrderedDelivery env e subscriptions \<longleftrightarrow>
     ev_partition_key e \<noteq> [] \<and> \<not> IsInternalPublished (ee_published env) (ev_type e) \<and>
     list_ex (\<lambda>s. sub_Delivery s = ''ordered'' \<and> Matches (sub_TypePattern s) (ev_type e)) subscriptions"

definition relay_one ::
  "event_env \<Rightarrow> (event_error \<Rightarrow> string) \<Rightarrow> time \<Rightarrow> subscription list \<Rightarrow> event_envelope \<Rightarrow>
   nat \<times> relay_drain \<times> event_db \<Rightarrow> nat \<times> relay_drain \<times> event_db" where
  "relay_one env nack now subscriptions e st =
     (case st of (processed, drain, db) \<Rightarrow>
        if ev_partition_key e \<noteq> [] \<and> ev_partition_key e \<in> set (dr_blocked drain) then (processed, drain, db)
        else case relayEvent env now e subscriptions db of
          Inr db' \<Rightarrow> (Suc processed, drain, db')
        | Inl err \<Rightarrow>
            let (parked, db') = recordRelayFailure now (nack err) (ev_id e) db;
                drain' = drain\<lparr>dr_failed := dr_failed drain @ [ev_id e]\<rparr>
            in (processed,
                if \<not> parked \<and> owesOrderedDelivery env e subscriptions
                then drain'\<lparr>dr_blocked := ev_partition_key e # dr_blocked drain'\<rparr> else drain',
                db'))"

definition delete_endpoints :: "(uuid \<Rightarrow> bool) \<Rightarrow> event_db \<Rightarrow> event_db" where
  "delete_endpoints deleted db =
     db\<lparr>ed_endpoints := filter (\<lambda>w. \<not> deleted (we_id w)) (ed_endpoints db),
        ed_deliveries := filter (\<lambda>d. \<not> deleted (wd_subscription_id d)) (ed_deliveries db),
        ed_subscriptions :=
          filter (\<lambda>s. case es_webhook_subscription_id s of None \<Rightarrow> True | Some w \<Rightarrow> \<not> deleted w) (ed_subscriptions db)\<rparr>"

text \<open>What surrounds one batch: its clock, the error texts, other relays' locks, deleted endpoints.\<close>

record batch_context =
  bc_env :: event_env
  bc_now :: time
  bc_nack :: "event_error \<Rightarrow> string"
  bc_locked :: "uuid \<Rightarrow> bool"
  bc_deleted :: "uuid \<Rightarrow> bool"

definition relayBatch :: "batch_context \<Rightarrow> relay_drain \<Rightarrow> event_db \<Rightarrow> nat \<times> relay_drain \<times> event_db" where
  "relayBatch bc drain db =
     (let pending = map scanDomainEvent (relaySelectUnpublished (bc_locked bc) (dr_failed drain) db) in
      if pending = [] then (0, drain, db)
      else let subscriptions = liveSubscriptions (eventTypesOf pending) db
           in fold (relay_one (bc_env bc) (bc_nack bc) (bc_now bc) subscriptions) pending
                (0, drain, delete_endpoints (bc_deleted bc) db))"

text \<open>\<^verbatim>\<open>contexts n\<close> surrounds the batch with \<^verbatim>\<open>n\<close> batches left, \<^verbatim>\<open>others n\<close> is committed before it.\<close>

fun relay_batches ::
  "(nat \<Rightarrow> batch_context) \<Rightarrow> (nat \<Rightarrow> event_db \<Rightarrow> event_db) \<Rightarrow> nat \<Rightarrow> nat \<Rightarrow> relay_drain \<Rightarrow> event_db \<Rightarrow>
   nat \<times> relay_drain \<times> event_db" where
  "relay_batches contexts others 0 relayed drain db = (relayed, drain, db)"
| "relay_batches contexts others (Suc n) relayed drain db =
     (let (processed, drain', db') = relayBatch (contexts n) drain (others n db)
      in if processed = 0 \<and> length (dr_failed drain') = length (dr_failed drain)
         then (relayed, drain', db')
         else relay_batches contexts others n (relayed + processed) drain' db')"

definition RelayOnce ::
  "(nat \<Rightarrow> batch_context) \<Rightarrow> (nat \<Rightarrow> event_db \<Rightarrow> event_db) \<Rightarrow> event_db \<Rightarrow> nat \<times> event_db" where
  "RelayOnce contexts others db =
     (case relay_batches contexts others relayMaxBatchesPerDrain 0 \<lparr>dr_failed = [], dr_blocked = []\<rparr> db of
        (relayed, _, db') \<Rightarrow> (relayed, db'))"

end
