(* ===== verification/Event_Replay.thy ===== *)
theory Event_Replay
  imports Event_Relay
begin

text \<open>
  The rest of \<^verbatim>\<open>infra/postgres_events.go\<close>: replay of durable history page by page, and the leases a
  consumer works under, which are those of the job store behind an opaque token.
\<close>

section \<open>Replay\<close>

record replay_selector =
  rs_Type :: string
  rs_TenantID :: string
  rs_Since :: "time option"
  rs_SubscriberPrincipalID :: string

definition replayPageSize :: nat where "replayPageSize = 500"

definition replay_selects :: "replay_selector \<Rightarrow> nat \<Rightarrow> event_row \<Rightarrow> bool" where
  "replay_selects sel cursor r \<longleftrightarrow>
     (rs_Type sel = [] \<or> er_type r = rs_Type sel) \<and>
     (rs_TenantID sel = [] \<or> er_tenant_id r = Some (rs_TenantID sel)) \<and>
     (case rs_Since sel of None \<Rightarrow> True | Some t \<Rightarrow> t \<le> er_created_at r) \<and>
     cursor < er_seq r"

definition replayDomainEvents :: "nat \<Rightarrow> replay_selector \<Rightarrow> nat \<Rightarrow> event_db \<Rightarrow> event_row list" where
  "replayDomainEvents limit sel cursor db = select_ordered er_seq (replay_selects sel cursor) limit (ed_events db)"

definition replay_subscription ::
  "event_env \<Rightarrow> time \<Rightarrow> replay_selector \<Rightarrow> event_envelope \<Rightarrow> string \<Rightarrow> subscription \<Rightarrow> event_db \<Rightarrow>
   event_error + event_db" where
  "replay_subscription env now sel e nonce s db =
     (if rs_SubscriberPrincipalID sel \<noteq> [] \<and> sub_SubscriberPrincipalID s \<noteq> rs_SubscriberPrincipalID sel then Inr db
      else if \<not> Matches (sub_TypePattern s) (ev_type e) then Inr db
      else case enqueueOne env now (delivery env e s (delivery_key e s @ nonce)) db of
             Inl err \<Rightarrow> Inl (mapEnqueueError err)
           | Inr db' \<Rightarrow> Inr db')"

fun replay_subscriptions ::
  "event_env \<Rightarrow> time \<Rightarrow> replay_selector \<Rightarrow> event_envelope \<Rightarrow> string \<Rightarrow> subscription list \<Rightarrow> event_db \<Rightarrow>
   event_error + event_db" where
  "replay_subscriptions env now sel e nonce [] db = Inr db"
| "replay_subscriptions env now sel e nonce (s # ss) db =
     rbind (replay_subscription env now sel e nonce s db) (replay_subscriptions env now sel e nonce ss)"

definition replay_event ::
  "event_env \<Rightarrow> time \<Rightarrow> replay_selector \<Rightarrow> subscription list \<Rightarrow> event_envelope \<Rightarrow> event_db \<Rightarrow>
   event_error + event_db" where
  "replay_event env now sel subscriptions e db =
     (if IsInternalPublished (ee_published env) (ev_type e) then Inr db
      else replay_subscriptions env now sel e ('':replay:'' @ ee_fresh env (ed_ids db)) subscriptions (draw_id db))"

fun replay_events ::
  "event_env \<Rightarrow> time \<Rightarrow> replay_selector \<Rightarrow> subscription list \<Rightarrow> event_envelope list \<Rightarrow> event_db \<Rightarrow>
   event_error + event_db" where
  "replay_events env now sel subscriptions [] db = Inr db"
| "replay_events env now sel subscriptions (e # es) db =
     rbind (replay_event env now sel subscriptions e db) (replay_events env now sel subscriptions es)"

definition replayPage ::
  "event_env \<Rightarrow> time \<Rightarrow> replay_selector \<Rightarrow> event_envelope list \<Rightarrow> event_db \<Rightarrow> event_error + event_db" where
  "replayPage env now sel page db =
     replay_events env now sel (liveSubscriptions (eventTypesOf page) db) page db"

text \<open>
  The loop ends on a short page; while others keep publishing it may go on, so it has fuel, and
  running out of it is \<^verbatim>\<open>None\<close>.  The count is that of the pages committed, also on an error.
\<close>

fun replay_pages ::
  "nat \<Rightarrow> nat \<Rightarrow> (nat \<Rightarrow> event_env \<times> time) \<Rightarrow> (nat \<Rightarrow> event_db \<Rightarrow> event_db) \<Rightarrow> replay_selector \<Rightarrow> nat \<Rightarrow> nat \<Rightarrow>
   event_db \<Rightarrow> (nat \<times> event_error option \<times> event_db) option" where
  "replay_pages 0 limit contexts others sel cursor replayed db = None"
| "replay_pages (Suc n) limit contexts others sel cursor replayed db =
     (let db = others n db;
          rows = replayDomainEvents limit sel cursor db;
          page = map scanDomainEvent rows
      in if page = [] then Some (replayed, None, db)
         else case replayPage (fst (contexts n)) (snd (contexts n)) sel page db of
                Inl err \<Rightarrow> Some (replayed, Some err, db)
              | Inr db' \<Rightarrow>
                  if length page < limit then Some (replayed + length page, None, db')
                  else replay_pages n limit contexts others sel (er_seq (last rows)) (replayed + length page) db')"

definition Replay ::
  "nat \<Rightarrow> (nat \<Rightarrow> event_env \<times> time) \<Rightarrow> (nat \<Rightarrow> event_db \<Rightarrow> event_db) \<Rightarrow> replay_selector \<Rightarrow> event_db \<Rightarrow>
   (nat \<times> event_error option \<times> event_db) option" where
  "Replay fuel contexts others sel db = replay_pages fuel replayPageSize contexts others sel 0 0 db"

section \<open>Consumers\<close>

definition maxClaimBatch :: int where "maxClaimBatch = 100"

definition leaseToken :: "job_envelope \<Rightarrow> string" where
  "leaseToken job = je_id job @ ''|'' @ (case je_lease job of None \<Rightarrow> [] | Some l \<Rightarrow> jl_token l)"

text \<open>\<^verbatim>\<open>strings.Cut\<close> at the first bar.\<close>

definition leaseReference :: "string \<Rightarrow> string \<Rightarrow> lease_ref option" where
  "leaseReference workerID token =
     (if CHR ''|'' \<in> set token
      then Some \<lparr>lr_job_id = takeWhile (\<lambda>c. c \<noteq> CHR ''|'') token, lr_worker_id = workerID,
                 lr_lease_token = tl (dropWhile (\<lambda>c. c \<noteq> CHR ''|'') token)\<rparr>
      else None)"

definition envelopeFromJob :: "event_env \<Rightarrow> job_envelope \<Rightarrow> event_envelope" where
  "envelopeFromJob env job = envelopeFromAttributes env (je_attributes job) (je_payload job)"

definition event_Claim ::
  "event_env \<Rightarrow> string \<Rightarrow> duration \<Rightarrow> time \<Rightarrow> time \<Rightarrow> (uuid \<Rightarrow> bool) \<Rightarrow> (uuid \<Rightarrow> uuid) \<Rightarrow> string \<Rightarrow> int \<Rightarrow> job_db \<Rightarrow>
   (event_error + (string \<times> event_envelope) list) \<times> job_db" where
  "event_Claim env workerID leaseDuration now clock locked fresh queue requested jobs =
     (if requested < 1 then (Inr [], jobs)
      else case Claim (ee_jenv env) now clock locked None
             \<lparr>cl_queue = queue, cl_worker_id = workerID,
              cl_limit = nat (if requested > maxClaimBatch then maxClaimBatch else requested),
              cl_lease_duration = leaseDuration\<rparr> fresh jobs of
             (Inl e, jobs') \<Rightarrow> (Inl (EventJobError e), jobs')
           | (Inr envelopes, jobs') \<Rightarrow> (Inr (map (\<lambda>j. (leaseToken j, envelopeFromJob env j)) envelopes), jobs'))"

definition mapLeaseError :: "job_error + 'a \<Rightarrow> event_error + unit" where
  "mapLeaseError r =
     (case r of
        Inl e \<Rightarrow> Inl (if e = ErrLeaseLost then ErrEventLeaseLost else EventJobError e)
      | Inr _ \<Rightarrow> Inr ())"

definition event_Heartbeat ::
  "event_env \<Rightarrow> string \<Rightarrow> duration \<Rightarrow> time \<Rightarrow> string \<Rightarrow> job_db \<Rightarrow> (event_error + unit) \<times> job_db" where
  "event_Heartbeat env workerID leaseDuration now token jobs =
     (case leaseReference workerID token of
        None \<Rightarrow> (Inl ErrEventLeaseLost, jobs)
      | Some lease \<Rightarrow> map_prod mapLeaseError (\<lambda>j. j) (Heartbeat (ee_jenv env) now None lease leaseDuration jobs))"

definition Ack :: "event_env \<Rightarrow> string \<Rightarrow> time \<Rightarrow> string \<Rightarrow> job_db \<Rightarrow> (event_error + unit) \<times> job_db" where
  "Ack env workerID now token jobs =
     (case leaseReference workerID token of
        None \<Rightarrow> (Inl ErrEventLeaseLost, jobs)
      | Some lease \<Rightarrow> map_prod mapLeaseError (\<lambda>j. j) (Complete (ee_jenv env) now None lease None jobs))"

text \<open>\<^verbatim>\<open>utf8.ValidString\<close>: no overlong form, no surrogate, nothing above \<^verbatim>\<open>U+10FFFF\<close>.\<close>

definition utf8_cont :: "nat \<Rightarrow> bool" where
  "utf8_cont n \<longleftrightarrow> 128 \<le> n \<and> n \<le> 191"

definition utf8_second :: "nat \<Rightarrow> nat \<Rightarrow> bool" where
  "utf8_second a b \<longleftrightarrow>
     (if a = 224 then 160 else if a = 240 then 144 else 128) \<le> b \<and>
     b \<le> (if a = 237 then 159 else if a = 244 then 143 else 191)"

fun utf8_valid_codes :: "nat list \<Rightarrow> bool" where
  "utf8_valid_codes [] = True"
| "utf8_valid_codes (a # r) =
     (if a < 128 then utf8_valid_codes r
      else if a < 194 \<or> 244 < a then False
      else if a < 224 then (case r of b # r' \<Rightarrow> if utf8_cont b then utf8_valid_codes r' else False | _ \<Rightarrow> False)
      else if a < 240 then
        (case r of b # c # r' \<Rightarrow> if utf8_second a b \<and> utf8_cont c then utf8_valid_codes r' else False | _ \<Rightarrow> False)
      else
        (case r of b # c # d # r' \<Rightarrow>
           if utf8_second a b \<and> utf8_cont c \<and> utf8_cont d then utf8_valid_codes r' else False | _ \<Rightarrow> False))"

definition ValidString :: "string \<Rightarrow> bool" where
  "ValidString s = utf8_valid_codes (map of_char s)"

function trim_invalid :: "string \<Rightarrow> string" where
  "trim_invalid s = (if s = [] \<or> ValidString s then s else trim_invalid (butlast s))"
  by pat_completeness auto
termination
  by (relation "measure length") auto

declare trim_invalid.simps [simp del]

definition nackMessage :: "string option \<Rightarrow> string" where
  "nackMessage cause =
     (case cause of
        None \<Rightarrow> ''nack''
      | Some message \<Rightarrow> if length message \<le> 4096 then message else trim_invalid (take 4096 message))"

definition Nack ::
  "event_env \<Rightarrow> string \<Rightarrow> time \<Rightarrow> time \<Rightarrow> string \<Rightarrow> string option \<Rightarrow> bool \<Rightarrow> job_db \<Rightarrow>
   (event_error + unit) \<times> job_db" where
  "Nack env workerID now clock token cause permanent jobs =
     (case leaseReference workerID token of
        None \<Rightarrow> (Inl ErrEventLeaseLost, jobs)
      | Some lease \<Rightarrow>
          let failure = \<lparr>jf_code = ''events_nack'', jf_message = nackMessage cause\<rparr> in
          if permanent then map_prod mapLeaseError (\<lambda>j. j) (DeadLetter (ee_jenv env) now None lease failure jobs)
          else map_prod mapLeaseError (\<lambda>j. j) (Retry (ee_jenv env) now None lease failure clock jobs))"

end
