(* ===== verification/Event_Fanout.thy ===== *)
theory Event_Fanout
  imports Event_Replay
begin

text \<open>
  What one fan-out does to the tables: who is owed an event, and that a successful relay leaves
  exactly one job or delivery for each of them and touches nothing else.
\<close>

section \<open>Patterns\<close>

lemma trailingWildcard_Some:
  "trailingWildcard p = Some prefix \<longleftrightarrow> p = prefix @ ''.*'' \<and> prefix \<noteq> []"
proof
  assume "trailingWildcard p = Some prefix"
  then have "length p > 2" "drop (length p - 2) p = ''.*''" "prefix = take (length p - 2) p"
    by (auto simp: trailingWildcard_def split: if_splits)
  then show "p = prefix @ ''.*'' \<and> prefix \<noteq> []"
    by (metis append_take_drop_id diff_is_0_eq' length_greater_0_conv length_take
        less_imp_diff_less linorder_not_le min_def take_eq_Nil zero_less_diff)
qed (auto simp: trailingWildcard_def)

lemma trailingWildcard_None: "trailingWildcard p = None \<longleftrightarrow> (\<forall>prefix. prefix \<noteq> [] \<longrightarrow> p \<noteq> prefix @ ''.*'')"
  using trailingWildcard_Some [of p] by (metis not_None_eq)

lemma hasDotPrefix_iff: "hasDotPrefix v prefix \<longleftrightarrow> (\<exists>rest. rest \<noteq> [] \<and> v = prefix @ ''.'' @ rest)"
proof
  assume h: "hasDotPrefix v prefix"
  have "v = take (length prefix) v @ v ! length prefix # drop (Suc (length prefix)) v"
    using h by (intro id_take_nth_drop) (simp add: hasDotPrefix_def)
  then show "\<exists>rest. rest \<noteq> [] \<and> v = prefix @ ''.'' @ rest"
    using h by (intro exI [of _ "drop (Suc (length prefix)) v"]) (auto simp: hasDotPrefix_def)
qed (auto simp: hasDotPrefix_def)

lemma Matches_prefiltered: "Matches p t \<Longrightarrow> p = t \<or> like_wildcard p"
  by (cases "trailingWildcard p") (auto simp: Matches_def like_wildcard_def trailingWildcard_Some)

definition live_all :: "event_db \<Rightarrow> subscription list" where
  "live_all db = map scan_subscription (filter (subscription_live db) (ed_subscriptions db))"

lemma filter_filter_imp:
  "(\<And>x. x \<in> set xs \<Longrightarrow> P x \<Longrightarrow> Q x) \<Longrightarrow> filter P (filter Q xs) = filter P xs"
  by (induction xs) auto

lemma liveSubscriptions_matching:
  assumes "t \<in> set types"
  shows "filter (\<lambda>s. Matches (sub_TypePattern s) t) (liveSubscriptions types db) =
         filter (\<lambda>s. Matches (sub_TypePattern s) t) (live_all db)"
proof -
  have "filter (\<lambda>s. Matches (es_type_pattern s) t)
      (filter (\<lambda>s. es_type_pattern s \<in> set types \<or> like_wildcard (es_type_pattern s)) (filter (subscription_live db) rows)) =
    filter (\<lambda>s. Matches (es_type_pattern s) t) (filter (subscription_live db) rows)" for rows
    by (rule filter_filter_imp) (use Matches_prefiltered assms in blast)
  then show ?thesis
    by (simp add: liveSubscriptions_def live_all_def filter_map comp_def scan_subscription_def conj_commute
        cong: conj_cong)
qed

section \<open>Frames\<close>

text \<open>Fan-out writes jobs and deliveries and draws numbers; it leaves the other tables alone.\<close>

definition same_registry :: "event_db \<Rightarrow> event_db \<Rightarrow> bool" where
  "same_registry db db' \<longleftrightarrow>
     ed_events db' = ed_events db \<and> ed_subscriptions db' = ed_subscriptions db \<and>
     ed_endpoints db' = ed_endpoints db \<and> ed_audit_event_types db' = ed_audit_event_types db \<and>
     ed_trail db' = ed_trail db \<and> ed_event_seq db' = ed_event_seq db"

lemma same_registry_refl [simp]: "same_registry db db"
  by (simp add: same_registry_def)

lemma same_registry_trans: "same_registry a b \<Longrightarrow> same_registry b c \<Longrightarrow> same_registry a c"
  by (simp add: same_registry_def)

lemma same_registry_draw_id [simp]: "same_registry db (draw_id db)"
  by (simp add: same_registry_def draw_id_def)

lemma enqueueOne_E:
  assumes "enqueueOne env now job db = Inr db'"
  obtains sp available_at where
    "prepareJobEnqueue (ee_penv env) job = Inr (sp, available_at)"
    "ed_jobs db' = ed_jobs db \<or>
     ed_jobs db' = insert_message (new_row now (ee_fresh env (ed_ids db)) (ed_job_seq db) sp available_at) (ed_jobs db)"
    "\<exists>m \<in> set (job_messages (ed_jobs db')). same_idempotency (jm_spec m) sp \<and>
       js_request_fingerprint (jm_spec m) = js_request_fingerprint sp"
    "ed_deliveries db' = ed_deliveries db" "same_registry db db'"
    "ed_ids db' = Suc (ed_ids db)" "ed_job_seq db' = Suc (ed_job_seq db)"
proof -
  obtain i d jobs where enq: "EnqueueJob (ee_penv env) (ee_jenv env) (Some worker_session) now
      (ee_fresh env (ed_ids db)) (ed_job_seq db) job (ed_jobs db) = (Inr (i, d), jobs)"
    and db': "db' = db\<lparr>ed_jobs := jobs, ed_ids := Suc (ed_ids db), ed_job_seq := Suc (ed_job_seq db)\<rparr>"
    using assms by (auto simp: enqueueOne_def enqueue_in_def rbind_eq_Inr split: prod.splits sum.splits)
  obtain sp available_at where sp: "prepareJobEnqueue (ee_penv env) job = Inr (sp, available_at)"
    and ins: "insertPreparedJob worker_session now (ee_fresh env (ed_ids db)) (ed_job_seq db) sp available_at (ed_jobs db)
        = (Inr (i, d), jobs)"
    by (rule EnqueueJob_Inr [OF enq]) auto
  have "jobs = ed_jobs db \<or>
      jobs = insert_message (new_row now (ee_fresh env (ed_ids db)) (ed_job_seq db) sp available_at) (ed_jobs db)"
    using ins by (auto simp: insertPreparedJob_def enqueue_response_def enqueue_job_message_def insert_or_find_def
        split: if_splits option.splits)
  moreover have "\<exists>m \<in> set (job_messages jobs). same_idempotency (jm_spec m) sp \<and>
       js_request_fingerprint (jm_spec m) = js_request_fingerprint sp"
    using insertPreparedJob_Inr(2) [OF ins] by (auto simp: keyed_def)
  ultimately show thesis
    using that sp db' by (simp add: same_registry_def)
qed

lemma enqueueOne_registry: "enqueueOne env now job db = Inr db' \<Longrightarrow> same_registry db db'"
  by (erule enqueueOne_E)

lemma CreateWebhookDelivery_worker:
  assumes "CreateWebhookDelivery worker_session d db = Inr db'" "wd_event_id d \<noteq> []"
  shows "db' = db\<lparr>ed_deliveries := ed_deliveries db @ [d]\<rparr>"
    and "\<exists>w \<in> set (ed_endpoints db). we_id w = wd_subscription_id d"
    and "\<forall>r \<in> set (ed_deliveries db). \<not> holds_history d r \<and> wd_id r \<noteq> wd_id d"
  using assms
  by (auto simp: CreateWebhookDelivery_def Let_def worker_session_def list_ex_iff list_all_iff split: if_splits)

lemma CreateWebhookDelivery_refused:
  assumes "CreateWebhookDelivery worker_session d db = Inl err" "wd_event_id d \<noteq> []"
  shows "err = ErrWebhookDeliveryExists \<and> (\<exists>r \<in> set (ed_deliveries db). holds_history d r) \<or>
    err = ErrForeignKeyViolation \<and> (\<forall>w \<in> set (ed_endpoints db). we_id w \<noteq> wd_subscription_id d) \<or>
    err = ErrEventConstraint"
  using assms
  by (auto simp: CreateWebhookDelivery_def Let_def worker_session_def list_ex_iff list_all_iff split: if_splits)

section \<open>The owed recipients\<close>

definition owed_module :: "event_envelope \<Rightarrow> subscription \<Rightarrow> bool" where
  "owed_module e s \<longleftrightarrow>
     Matches (sub_TypePattern s) (ev_type e) \<and> sub_Delivery s \<noteq> ''webhook'' \<and>
     Namespace (ev_type e) \<noteq> PlatformAuditNamespace"

definition owed_endpoint :: "event_envelope \<Rightarrow> bool \<Rightarrow> subscription \<Rightarrow> bool" where
  "owed_endpoint e external s \<longleftrightarrow>
     Matches (sub_TypePattern s) (ev_type e) \<and> sub_Delivery s = ''webhook'' \<and> external \<and>
     sub_OrgID s \<noteq> [] \<and> sub_OrgID s = ev_tenant_id e"

text \<open>The job of a module subscription, the row of an endpoint and the job that carries its bytes.\<close>

definition module_job :: "event_env \<Rightarrow> time \<Rightarrow> event_envelope \<Rightarrow> subscription \<Rightarrow> job_row \<Rightarrow> bool" where
  "module_job env now e s m \<longleftrightarrow>
     (\<exists>sp available_at i seq. prepareJobEnqueue (ee_penv env) (delivery env e s (delivery_key e s)) = Inr (sp, available_at) \<and>
        m = new_row now i seq sp available_at)"

definition endpoint_row :: "event_env \<Rightarrow> time \<Rightarrow> event_envelope \<Rightarrow> subscription \<Rightarrow> webhook_delivery \<Rightarrow> bool" where
  "endpoint_row env now e s d \<longleftrightarrow>
     (\<exists>i body. d = pending_delivery now i (sub_WebhookSubscriptionID s) (ev_id e) (ev_id e) (ev_type e) body \<and>
        ee_json_payload env \<lparr>wp_EventID = ev_id e, wp_EventType = ev_type e, wp_Data = ev_data e,
          wp_Timestamp = ee_format_time env (event_occurred e), wp_DeliveryID = i\<rparr> = Some body)"

definition endpoint_job :: "event_env \<Rightarrow> time \<Rightarrow> subscription \<Rightarrow> webhook_delivery \<Rightarrow> job_row \<Rightarrow> bool" where
  "endpoint_job env now s d m \<longleftrightarrow>
     (\<exists>sp available_at i seq.
        prepareJobEnqueue (ee_penv env) (outbound_request env (sub_OrgID s) d (wd_payload d)) = Inr (sp, available_at) \<and>
        m = new_row now i seq sp available_at)"

definition has_history :: "event_db \<Rightarrow> uuid \<Rightarrow> uuid \<Rightarrow> bool" where
  "has_history db w e \<longleftrightarrow>
     (\<exists>d \<in> set (ed_deliveries db). wd_subscription_id d = w \<and> wd_outbox_event_id d = Some e)"

definition module_served :: "event_env \<Rightarrow> event_envelope \<Rightarrow> subscription \<Rightarrow> event_db \<Rightarrow> bool" where
  "module_served env e s db \<longleftrightarrow>
     (\<exists>sp available_at. prepareJobEnqueue (ee_penv env) (delivery env e s (delivery_key e s)) = Inr (sp, available_at) \<and>
        (\<exists>m \<in> set (job_messages (ed_jobs db)). same_idempotency (jm_spec m) sp \<and>
           js_request_fingerprint (jm_spec m) = js_request_fingerprint sp))"

definition endpoint_served :: "event_envelope \<Rightarrow> subscription \<Rightarrow> event_db \<Rightarrow> bool" where
  "endpoint_served e s db \<longleftrightarrow>
     has_history db (sub_WebhookSubscriptionID s) (ev_id e) \<or>
     (\<forall>w \<in> set (ed_endpoints db). we_id w \<noteq> sub_WebhookSubscriptionID s)"

text \<open>What a fan-out to the recipients \<^verbatim>\<open>ss\<close> may add.\<close>

definition fans_out :: "event_env \<Rightarrow> time \<Rightarrow> event_envelope \<Rightarrow> bool \<Rightarrow> subscription set \<Rightarrow> event_db \<Rightarrow> event_db \<Rightarrow> bool" where
  "fans_out env now e external ss db db' \<longleftrightarrow>
     same_registry db db' \<and>
     (\<exists>ms. job_messages (ed_jobs db') = job_messages (ed_jobs db) @ ms \<and>
        (\<forall>m \<in> set ms. (\<exists>s \<in> ss. owed_module e s \<and> module_job env now e s m) \<or>
           (\<exists>s \<in> ss. \<exists>d \<in> set (ed_deliveries db'). owed_endpoint e external s \<and> endpoint_row env now e s d \<and>
              endpoint_job env now s d m))) \<and>
     (\<exists>ds. ed_deliveries db' = ed_deliveries db @ ds \<and>
        (\<forall>d \<in> set ds. \<exists>s \<in> ss. owed_endpoint e external s \<and> endpoint_row env now e s d))"

lemma fans_out_refl [simp]: "fans_out env now e external ss db db"
  by (simp add: fans_out_def)

lemma fans_out_trans:
  assumes "fans_out env now e external ss a b" "fans_out env now e external ss b c"
  shows "fans_out env now e external ss a c"
proof -
  obtain ms ds where b: "job_messages (ed_jobs b) = job_messages (ed_jobs a) @ ms" "ed_deliveries b = ed_deliveries a @ ds"
    "\<forall>m \<in> set ms. (\<exists>s \<in> ss. owed_module e s \<and> module_job env now e s m) \<or>
       (\<exists>s \<in> ss. \<exists>d \<in> set (ed_deliveries b). owed_endpoint e external s \<and> endpoint_row env now e s d \<and> endpoint_job env now s d m)"
    "\<forall>d \<in> set ds. \<exists>s \<in> ss. owed_endpoint e external s \<and> endpoint_row env now e s d"
    using assms(1) by (auto simp: fans_out_def)
  obtain ms' ds' where c: "job_messages (ed_jobs c) = job_messages (ed_jobs b) @ ms'" "ed_deliveries c = ed_deliveries b @ ds'"
    "\<forall>m \<in> set ms'. (\<exists>s \<in> ss. owed_module e s \<and> module_job env now e s m) \<or>
       (\<exists>s \<in> ss. \<exists>d \<in> set (ed_deliveries c). owed_endpoint e external s \<and> endpoint_row env now e s d \<and> endpoint_job env now s d m)"
    "\<forall>d \<in> set ds'. \<exists>s \<in> ss. owed_endpoint e external s \<and> endpoint_row env now e s d"
    using assms(2) by (auto simp: fans_out_def)
  have jobs: "job_messages (ed_jobs c) = job_messages (ed_jobs a) @ (ms @ ms')"
    and rows: "ed_deliveries c = ed_deliveries a @ (ds @ ds')"
    using b(1,2) c(1,2) by simp_all
  have sub: "set (ed_deliveries b) \<subseteq> set (ed_deliveries c)" using c(2) by simp
  show ?thesis
    unfolding fans_out_def
  proof (intro conjI)
    show "same_registry a c"
      using assms same_registry_trans unfolding fans_out_def by blast
    show "\<exists>ms. job_messages (ed_jobs c) = job_messages (ed_jobs a) @ ms \<and>
        (\<forall>m \<in> set ms. (\<exists>s \<in> ss. owed_module e s \<and> module_job env now e s m) \<or>
           (\<exists>s \<in> ss. \<exists>d \<in> set (ed_deliveries c). owed_endpoint e external s \<and> endpoint_row env now e s d \<and>
              endpoint_job env now s d m))"
      using jobs b(3) c(3) sub by (intro exI [of _ "ms @ ms'"]) (simp, blast)
    show "\<exists>ds. ed_deliveries c = ed_deliveries a @ ds \<and>
        (\<forall>d \<in> set ds. \<exists>s \<in> ss. owed_endpoint e external s \<and> endpoint_row env now e s d)"
      using rows b(4) c(4) by (intro exI [of _ "ds @ ds'"]) auto
  qed
qed

lemma fans_out_mono: "fans_out env now e external ss db db' \<Longrightarrow> ss \<subseteq> ss' \<Longrightarrow> fans_out env now e external ss' db db'"
  unfolding fans_out_def by (meson subsetD)

lemma served_stays:
  assumes "fans_out env now e external ss db db'"
  shows "module_served env' e' s db \<Longrightarrow> module_served env' e' s db'"
    and "endpoint_served e' s db \<Longrightarrow> endpoint_served e' s db'"
  using assms by (auto simp: fans_out_def module_served_def endpoint_served_def has_history_def same_registry_def)

section \<open>Fan-out\<close>

lemma enqueueOne_Inl: "enqueueOne env now job db = Inl err \<Longrightarrow> \<exists>e. err = EventJobError e"
  by (auto simp: enqueueOne_def enqueue_in_def rbind_eq_Inl split: prod.splits sum.splits)

lemma deliverOn_Inr:
  assumes "deliverOn env now d (outbound_request env (sub_OrgID s) d (wd_payload d)) db = Inr db'"
    and "endpoint_row env now e s d" "ev_id e \<noteq> []" "owed_endpoint e external s"
  shows "fans_out env now e external {s} db db' \<and> endpoint_served e s db'"
proof -
  have ids: "wd_event_id d = ev_id e" "wd_outbox_event_id d = Some (ev_id e)"
    "wd_subscription_id d = sub_WebhookSubscriptionID s"
    using assms(2,3) by (auto simp: endpoint_row_def pending_delivery_def nullif_empty_def)
  obtain db1 where create: "CreateWebhookDelivery worker_session d db = Inr db1"
    and enq: "enqueueOne env now (outbound_request env (sub_OrgID s) d (wd_payload d)) db1 = Inr db'"
    using assms(1) by (auto simp: deliverOn_def rbind_eq_Inr)
  have db1: "db1 = db\<lparr>ed_deliveries := ed_deliveries db @ [d]\<rparr>"
    using CreateWebhookDelivery_worker(1) [OF create] ids(1) assms(3) by simp
  obtain sp available_at where sp: "prepareJobEnqueue (ee_penv env) (outbound_request env (sub_OrgID s) d (wd_payload d)) = Inr (sp, available_at)"
    and jobs: "ed_jobs db' = ed_jobs db1 \<or>
      ed_jobs db' = insert_message (new_row now (ee_fresh env (ed_ids db1)) (ed_job_seq db1) sp available_at) (ed_jobs db1)"
    and rest: "ed_deliveries db' = ed_deliveries db1" "same_registry db1 db'"
    by (rule enqueueOne_E [OF enq])
  have rows: "ed_deliveries db' = ed_deliveries db @ [d]" using rest db1 by simp
  have gain: "endpoint_job env now s d (new_row now i n sp available_at)" for i n
    using sp by (auto simp: endpoint_job_def)
  have "\<exists>ms. job_messages (ed_jobs db') = job_messages (ed_jobs db) @ ms \<and> (\<forall>m \<in> set ms. endpoint_job env now s d m)"
    using jobs gain db1 by (auto simp: insert_message_def)
  then have "fans_out env now e external {s} db db'"
    using rows rest(2) assms(2,4) db1 by (auto simp: fans_out_def same_registry_def)
  then show ?thesis
    using rows ids by (auto simp: endpoint_served_def has_history_def)
qed

lemma Deliver_cases:
  assumes "Deliver env now e s db = Inr (outcome, db')"
  shows "(\<exists>d request. deliverOn env now d request (draw_id db) = Inr db') \<or> db' = draw_id db"
proof -
  obtain d body request where deliver: "(case deliverOn env now d request (draw_id db) of
        Inr db' \<Rightarrow> Inr (WebhookDelivered, db')
      | Inl err \<Rightarrow> if err = ErrWebhookDeliveryExists then Inr (WebhookAlreadyDelivered, draw_id db)
          else if err = ErrForeignKeyViolation then Inr (WebhookEndpointGone, draw_id db) else Inl err) = Inr (outcome, db')"
    using assms by (cases "NewDomainEventWebhookDelivery env now (ee_fresh env (ed_ids db)) (ev_id e) (ev_type e)
          (sub_WebhookSubscriptionID s) (event_occurred e) (ev_data e)")
      (auto simp: Deliver_def Let_def dest!: rbind_eq_Inr [THEN iffD1])
  then show ?thesis
    by (cases "deliverOn env now d request (draw_id db)") (auto split: if_splits)
qed

lemma Deliver_fans_out:
  assumes "Deliver env now e s db = Inr (outcome, db')" "ev_id e \<noteq> []" "owed_endpoint e external s"
  shows "fans_out env now e external {s} db db' \<and> endpoint_served e s db'"
proof -
  let ?i = "ee_fresh env (ed_ids db)"
  obtain body where body: "ee_json_payload env \<lparr>wp_EventID = ev_id e, wp_EventType = ev_type e, wp_Data = ev_data e,
      wp_Timestamp = ee_format_time env (event_occurred e), wp_DeliveryID = ?i\<rparr> = Some body"
    using assms(1) by (auto simp: Deliver_def Let_def NewDomainEventWebhookDelivery_def split: option.splits)
  define d where "d = pending_delivery now ?i (sub_WebhookSubscriptionID s) (ev_id e) (ev_id e) (ev_type e) body"
  have row: "endpoint_row env now e s d"
    using body unfolding endpoint_row_def d_def by blast
  have payload: "wd_payload d = body" "wd_event_id d \<noteq> []" "wd_outbox_event_id d = Some (ev_id e)"
    "wd_subscription_id d = sub_WebhookSubscriptionID s"
    using assms(2) by (simp_all add: d_def pending_delivery_def nullif_empty_def)
  let ?r = "deliverOn env now d (outbound_request env (sub_OrgID s) d (wd_payload d)) (draw_id db)"
  have unfolded: "Deliver env now e s db = rbind (newOutboundWebhookJob env (sub_OrgID s) d body) (\<lambda>request.
      case deliverOn env now d request (draw_id db) of
        Inr db' \<Rightarrow> Inr (WebhookDelivered, db')
      | Inl err \<Rightarrow> if err = ErrWebhookDeliveryExists then Inr (WebhookAlreadyDelivered, draw_id db)
          else if err = ErrForeignKeyViolation then Inr (WebhookEndpointGone, draw_id db) else Inl err)"
    by (simp add: Deliver_def Let_def NewDomainEventWebhookDelivery_def body d_def)
  obtain request where request: "newOutboundWebhookJob env (sub_OrgID s) d body = Inr request"
    and deliver: "(case deliverOn env now d request (draw_id db) of
        Inr db' \<Rightarrow> Inr (WebhookDelivered, db')
      | Inl err \<Rightarrow> if err = ErrWebhookDeliveryExists then Inr (WebhookAlreadyDelivered, draw_id db)
          else if err = ErrForeignKeyViolation then Inr (WebhookEndpointGone, draw_id db) else Inl err) = Inr (outcome, db')"
    using assms(1) unfolding unfolded rbind_eq_Inr by blast
  have "request = outbound_request env (sub_OrgID s) d (wd_payload d)"
    using request payload(1) by (simp add: newOutboundWebhookJob_def split: if_splits)
  then have cases: "?r = Inr db' \<or> (\<exists>err. ?r = Inl err \<and> db' = draw_id db \<and> (err = ErrWebhookDeliveryExists \<or> err = ErrForeignKeyViolation))"
    using deliver by (simp split: sum.splits if_splits)
  show ?thesis
  proof (cases "?r = Inr db'")
    case True
    note on = deliverOn_Inr [OF True row assms(2,3)]
    have "fans_out env now e external {s} db (draw_id db)"
      by (auto simp: fans_out_def) (auto simp: draw_id_def)
    then show ?thesis using on fans_out_trans by blast
  next
    case False
    then obtain err where err: "?r = Inl err" "db' = draw_id db" "err = ErrWebhookDeliveryExists \<or> err = ErrForeignKeyViolation"
      using cases by blast
    then have "CreateWebhookDelivery worker_session d (draw_id db) = Inl err"
      by (auto simp: deliverOn_def rbind_eq_Inl dest!: enqueueOne_Inl)
    from CreateWebhookDelivery_refused [OF this payload(2)] err(3)
    have "endpoint_served e s db'"
      by (auto simp: err(2) endpoint_served_def has_history_def draw_id_def holds_history_def payload(3,4))
    moreover have "fans_out env now e external {s} db db'"
      by (auto simp: fans_out_def err(2)) (auto simp: draw_id_def)
    ultimately show ?thesis by blast
  qed
qed

lemma relay_subscription_fans_out:
  assumes "relay_subscription env now e external s db = Inr db'" "ev_id e \<noteq> []"
  shows "fans_out env now e external {s} db db' \<and> (owed_module e s \<longrightarrow> module_served env e s db') \<and>
    (owed_endpoint e external s \<longrightarrow> endpoint_served e s db')"
proof -
  consider (none) "db' = db" "\<not> owed_module e s" "\<not> owed_endpoint e external s"
    | (endpoint) outcome where "owed_endpoint e external s" "\<not> owed_module e s" "Deliver env now e s db = Inr (outcome, db')"
    | (queue) "owed_module e s" "\<not> owed_endpoint e external s" "enqueueOne env now (delivery env e s (delivery_key e s)) db = Inr db'"
    using assms(1)
    by (auto simp: relay_subscription_def relayToWebhook_def owed_module_def owed_endpoint_def rbind_eq_Inr
        split: if_splits sum.splits)
  then show ?thesis
  proof cases
    case none
    then show ?thesis by simp
  next
    case endpoint
    then show ?thesis using Deliver_fans_out assms(2) by blast
  next
    case queue
    obtain sp available_at where sp: "prepareJobEnqueue (ee_penv env) (delivery env e s (delivery_key e s)) = Inr (sp, available_at)"
      and jobs: "ed_jobs db' = ed_jobs db \<or>
        ed_jobs db' = insert_message (new_row now (ee_fresh env (ed_ids db)) (ed_job_seq db) sp available_at) (ed_jobs db)"
      and found: "\<exists>m \<in> set (job_messages (ed_jobs db')). same_idempotency (jm_spec m) sp \<and>
        js_request_fingerprint (jm_spec m) = js_request_fingerprint sp"
      and rest: "ed_deliveries db' = ed_deliveries db" "same_registry db db'"
      by (rule enqueueOne_E [OF queue(3)])
    have "module_job env now e s (new_row now i n sp available_at)" for i n
      using sp by (auto simp: module_job_def)
    then have "\<exists>ms. job_messages (ed_jobs db') = job_messages (ed_jobs db) @ ms \<and> (\<forall>m \<in> set ms. module_job env now e s m)"
      using jobs by (auto simp: insert_message_def)
    then have "fans_out env now e external {s} db db'"
      using rest queue(1) by (auto simp: fans_out_def)
    then show ?thesis using queue sp found by (auto simp: module_served_def)
  qed
qed

lemma relay_subscriptions_fans_out:
  assumes "relay_subscriptions env now e external ss db = Inr db'" "ev_id e \<noteq> []"
  shows "fans_out env now e external (set ss) db db' \<and>
    (\<forall>s \<in> set ss. (owed_module e s \<longrightarrow> module_served env e s db') \<and> (owed_endpoint e external s \<longrightarrow> endpoint_served e s db'))"
  using assms(1)
proof (induction ss arbitrary: db)
  case Nil
  then show ?case by simp
next
  case (Cons s ss)
  then obtain db1 where one: "relay_subscription env now e external s db = Inr db1"
    and more: "relay_subscriptions env now e external ss db1 = Inr db'"
    by (auto simp: rbind_eq_Inr)
  note first = relay_subscription_fans_out [OF one assms(2)] and rest = Cons.IH [OF more]
  have fans: "fans_out env now e external (set (s # ss)) db db'"
  proof (rule fans_out_trans)
    show "fans_out env now e external (set (s # ss)) db db1"
      by (rule fans_out_mono [of _ _ _ _ "{s}"]) (use first in simp_all)
    show "fans_out env now e external (set (s # ss)) db1 db'"
      by (rule fans_out_mono [of _ _ _ _ "set ss"]) (use rest in auto)
  qed
  have "fans_out env now e external (set ss) db1 db'" using rest by blast
  note keep = served_stays(1) [OF this, of env e s] served_stays(2) [OF this, of e s]
  show ?case using fans first rest keep by simp
qed

end
