(* ===== verification/Event_Drains.thy ===== *)
theory Event_Drains
  imports Event_Fanout
begin

text \<open>
  What a drain of the relay does to the outbox rows: each is published, charged one attempt, or
  held back behind its partition; nothing else changes.  The facts are first shown of the
  savepoints of one batch, then of the batches of one drain.
\<close>

section \<open>One event\<close>

definition event_settled :: "event_row \<Rightarrow> bool" where
  "event_settled r \<longleftrightarrow> er_published_at r \<noteq> None \<or> er_dead_lettered_at r \<noteq> None"

lemma scanDomainEvent_simps [simp]:
  "ev_id (scanDomainEvent r) = er_id r"
  "ev_type (scanDomainEvent r) = er_type r"
  "ev_partition_key (scanDomainEvent r) = er_partition_key r"
  "ev_tenant_id (scanDomainEvent r) = coalesce (er_tenant_id r)"
  by (simp_all add: scanDomainEvent_def)

lemma fail_row_simps [simp]:
  "er_id (fail_row now msg r) = er_id r"
  "er_seq (fail_row now msg r) = er_seq r"
  "er_type (fail_row now msg r) = er_type r"
  "er_partition_key (fail_row now msg r) = er_partition_key r"
  "er_published_at (fail_row now msg r) = er_published_at r"
  "er_relay_attempts (fail_row now msg r) = Suc (er_relay_attempts r)"
  "er_dead_lettered_at (fail_row now msg r) = None \<longleftrightarrow> Suc (er_relay_attempts r) < eventRelayMaxAttempts"
  by (simp_all add: fail_row_def not_le)

lemma relay_subscriptions_registry:
  "relay_subscriptions env now e external ss db = Inr db' \<Longrightarrow> same_registry db db'"
proof (induction ss arbitrary: db)
  case (Cons s ss)
  then obtain db1 where one: "relay_subscription env now e external s db = Inr db1"
    and more: "relay_subscriptions env now e external ss db1 = Inr db'"
    by (auto simp: rbind_eq_Inr)
  have deliver: "same_registry db d1" if relayed: "Deliver env now e s db = Inr (outcome, d1)" for outcome d1
  proof -
    have on: "same_registry (draw_id db) d" if delivered: "deliverOn env now row request (draw_id db) = Inr d" for row request d
    proof -
      obtain d0 where d0: "CreateWebhookDelivery worker_session row (draw_id db) = Inr d0"
        "enqueueOne env now request d0 = Inr d"
        using delivered by (auto simp: deliverOn_def rbind_eq_Inr)
      have "same_registry (draw_id db) d0"
        using d0(1) by (auto simp: CreateWebhookDelivery_def Let_def same_registry_def split: if_splits)
      then show ?thesis using enqueueOne_registry [OF d0(2)] same_registry_trans by blast
    qed
    from relayed have "(\<exists>row request. deliverOn env now row request (draw_id db) = Inr d1) \<or> d1 = draw_id db"
      by (rule Deliver_cases)
    then show ?thesis using on same_registry_trans same_registry_draw_id by blast
  qed
  have "same_registry db db1"
    using one deliver enqueueOne_registry
    by (auto simp: relay_subscription_def relayToWebhook_def rbind_eq_Inr split: if_splits sum.splits)
  then show ?case using Cons.IH [OF more] same_registry_trans by blast
qed simp

lemma relayEvent_tables:
  assumes "relayEvent env now e ss db = Inr db'"
  shows "ed_events db' = update_where (\<lambda>r. er_id r = ev_id e) (\<lambda>r. r\<lparr>er_published_at := Some now\<rparr>) (ed_events db)"
    and "ed_subscriptions db' = ed_subscriptions db" "ed_endpoints db' = ed_endpoints db"
  using assms
  by (auto simp: relayEvent_def mark_published_def rbind_eq_Inr same_registry_def
      dest!: relay_subscriptions_registry split: if_splits)

lemma recordRelayFailure_parked:
  assumes "distinct (map er_id (ed_events db))" "r \<in> set (ed_events db)"
  shows "fst (recordRelayFailure now msg (er_id r) db) \<longleftrightarrow> er_relay_attempts r + 1 \<ge> eventRelayMaxAttempts"
proof -
  have "distinct (map er_id (update_where (\<lambda>x. er_id x = er_id r) (fail_row now msg) (ed_events db)))"
    using assms(1) by (subst map_update_where) auto
  moreover have "fail_row now msg r \<in> set (update_where (\<lambda>x. er_id x = er_id r) (fail_row now msg) (ed_events db))"
    using assms(2) by (force simp: set_update_where)
  ultimately have "select_first (\<lambda>x. er_id x = er_id r) (update_where (\<lambda>x. er_id x = er_id r) (fail_row now msg) (ed_events db))
      = Some (fail_row now msg r)"
    by (rule select_first_unique) auto
  then show ?thesis by (simp add: recordRelayFailure_def Let_def fail_row_def)
qed

lemma relay_one_cases:
  assumes "relay_one env nack now ss (scanDomainEvent r) (n, drain, db) = (n', drain', db')"
    and "distinct (map er_id (ed_events db))" "r \<in> set (ed_events db)"
  obtains
    (held) "er_partition_key r \<noteq> []" "er_partition_key r \<in> set (dr_blocked drain)" "n' = n" "drain' = drain" "db' = db"
  | (published) "\<not> (er_partition_key r \<noteq> [] \<and> er_partition_key r \<in> set (dr_blocked drain))"
      "n' = Suc n" "drain' = drain"
      "ed_events db' = update_where (\<lambda>x. er_id x = er_id r) (\<lambda>x. x\<lparr>er_published_at := Some now\<rparr>) (ed_events db)"
      "ed_subscriptions db' = ed_subscriptions db"
  | (failed) msg where "\<not> (er_partition_key r \<noteq> [] \<and> er_partition_key r \<in> set (dr_blocked drain))"
      "n' = n" "dr_failed drain' = dr_failed drain @ [er_id r]"
      "set (dr_blocked drain') = set (dr_blocked drain) \<union>
         (if er_relay_attempts r + 1 < eventRelayMaxAttempts \<and> owesOrderedDelivery env (scanDomainEvent r) ss
          then {er_partition_key r} else {})"
      "ed_events db' = update_where (\<lambda>x. er_id x = er_id r) (fail_row now msg) (ed_events db)"
      "ed_subscriptions db' = ed_subscriptions db"
proof (cases "er_partition_key r \<noteq> [] \<and> er_partition_key r \<in> set (dr_blocked drain)")
  case True
  show thesis by (rule held) (use True assms(1) in \<open>simp_all add: relay_one_def\<close>)
next
  case open_partition: False
  show thesis
  proof (cases "relayEvent env now (scanDomainEvent r) ss db")
    case (Inr db1)
    then have "n' = Suc n" "drain' = drain" "db' = db1"
      using assms(1) open_partition by (auto simp: relay_one_def)
    then show thesis
      using published [OF open_partition] relayEvent_tables [OF Inr] by simp
  next
    case (Inl err)
    let ?f = "recordRelayFailure now (nack err) (er_id r) db"
    have "n' = n" "db' = snd ?f"
      "drain' = (if \<not> fst ?f \<and> owesOrderedDelivery env (scanDomainEvent r) ss
         then drain\<lparr>dr_failed := dr_failed drain @ [er_id r], dr_blocked := er_partition_key r # dr_blocked drain\<rparr>
         else drain\<lparr>dr_failed := dr_failed drain @ [er_id r]\<rparr>)"
      using assms(1) open_partition Inl by (auto simp: relay_one_def Let_def split: prod.splits if_splits)
    moreover have "ed_events (snd ?f) = update_where (\<lambda>x. er_id x = er_id r) (fail_row now (nack err)) (ed_events db)"
      "ed_subscriptions (snd ?f) = ed_subscriptions db"
      by (simp_all add: recordRelayFailure_def Let_def)
    moreover have "fst ?f \<longleftrightarrow> er_relay_attempts r + 1 \<ge> eventRelayMaxAttempts"
      by (rule recordRelayFailure_parked [OF assms(2,3)])
    ultimately show thesis
      by (intro failed [OF open_partition, of "nack err"]) auto
  qed
qed

section \<open>One batch\<close>

definition drained :: "event_env \<Rightarrow> time \<Rightarrow> subscription list \<Rightarrow> relay_drain \<Rightarrow> event_row \<Rightarrow> event_row \<Rightarrow> bool" where
  "drained env now ss drain r r' \<longleftrightarrow>
     (er_id r \<notin> set (dr_failed drain) \<and>
        (r' = r \<and> er_partition_key r \<noteq> [] \<and> er_partition_key r \<in> set (dr_blocked drain) \<or>
         r' = r\<lparr>er_published_at := Some now\<rparr>)) \<or>
     (\<exists>msg. r' = fail_row now msg r \<and> er_id r \<in> set (dr_failed drain) \<and>
        (\<not> event_settled r' \<and> owesOrderedDelivery env (scanDomainEvent r) ss \<longrightarrow>
           er_partition_key r \<in> set (dr_blocked drain)))"

lemma drained_mono:
  assumes "drained env now ss drain r r'"
    and "set (dr_blocked drain) \<subseteq> set (dr_blocked drain')" "er_id r \<in> set (dr_failed drain') \<longleftrightarrow> er_id r \<in> set (dr_failed drain)"
  shows "drained env now ss drain' r r'"
  using assms unfolding drained_def by blast

definition batch_effect ::
  "event_env \<Rightarrow> time \<Rightarrow> subscription list \<Rightarrow> event_row list \<Rightarrow> nat \<times> relay_drain \<times> event_db \<Rightarrow>
   nat \<times> relay_drain \<times> event_db \<Rightarrow> bool" where
  "batch_effect env now ss rows st st' \<longleftrightarrow>
     (case (st, st') of ((n, drain, db), (n', drain', db')) \<Rightarrow>
       map er_id (ed_events db') = map er_id (ed_events db) \<and>
       map er_seq (ed_events db') = map er_seq (ed_events db) \<and>
       ed_subscriptions db' = ed_subscriptions db \<and>
       (\<forall>r \<in> set (ed_events db). er_id r \<notin> er_id ` set rows \<longrightarrow> r \<in> set (ed_events db')) \<and>
       (\<forall>r \<in> set rows. \<exists>r' \<in> set (ed_events db'). drained env now ss drain' r r') \<and>
       set (dr_blocked drain) \<subseteq> set (dr_blocked drain') \<and>
       (\<exists>new. dr_failed drain' = dr_failed drain @ new \<and> set new \<subseteq> er_id ` set rows) \<and> n \<le> n')"

lemma batch_effectD:
  assumes "batch_effect env now ss rows (n, drain, db) (n', drain', db')"
  shows "map er_id (ed_events db') = map er_id (ed_events db)"
    and "map er_seq (ed_events db') = map er_seq (ed_events db)"
    and "ed_subscriptions db' = ed_subscriptions db"
    and "r \<in> set (ed_events db) \<Longrightarrow> er_id r \<notin> er_id ` set rows \<Longrightarrow> r \<in> set (ed_events db')"
    and "r \<in> set rows \<Longrightarrow> \<exists>r' \<in> set (ed_events db'). drained env now ss drain' r r'"
    and "set (dr_blocked drain) \<subseteq> set (dr_blocked drain')"
    and "\<exists>new. dr_failed drain' = dr_failed drain @ new \<and> set new \<subseteq> er_id ` set rows"
    and "n \<le> n'"
  using assms unfolding batch_effect_def by simp_all

lemma batch_effect_failed:
  "batch_effect env now ss rows (n, drain, db) (n', drain', db') \<Longrightarrow> set (dr_failed drain) \<subseteq> set (dr_failed drain')"
  using batch_effectD(7) by fastforce

lemma in_update_where_other:
  "r \<in> set rows \<Longrightarrow> \<not> p r \<Longrightarrow> r \<in> set (update_where p f rows)"
  by (force simp: set_update_where)

lemma in_update_where_same:
  "r \<in> set rows \<Longrightarrow> p r \<Longrightarrow> f r \<in> set (update_where p f rows)"
  by (force simp: set_update_where)

lemma relay_one_effect:
  assumes "relay_one env nack now ss (scanDomainEvent r) (n, drain, db) = (n', drain', db')"
    and "distinct (map er_id (ed_events db))" "r \<in> set (ed_events db)" "er_id r \<notin> set (dr_failed drain)"
  shows "batch_effect env now ss [r] (n, drain, db) (n', drain', db')"
  using assms(1-3)
proof (cases rule: relay_one_cases)
  case held
  then show ?thesis using assms(3,4) by (auto simp: batch_effect_def drained_def)
next
  case published
  then show ?thesis
    using assms(3,4) in_update_where_same [of r "ed_events db" "\<lambda>x. er_id x = er_id r" "\<lambda>x. x\<lparr>er_published_at := Some now\<rparr>"]
    by (auto simp: batch_effect_def drained_def map_update_where in_update_where_other)
next
  case (failed msg)
  have "drained env now ss drain' r (fail_row now msg r)"
    using failed(3,4) unfolding drained_def by (auto simp: event_settled_def not_le)
  then show ?thesis
    using failed assms(3) in_update_where_same [of r "ed_events db" "\<lambda>x. er_id x = er_id r" "fail_row now msg"]
    by (auto simp: batch_effect_def map_update_where in_update_where_other)
qed

lemma batch_effect_trans:
  assumes "batch_effect env now ss rows (n, drain, db) (n1, drain1, db1)"
    and "batch_effect env now ss rows' (n1, drain1, db1) (n', drain', db')"
    and "er_id ` set rows \<inter> er_id ` set rows' = {}"
  shows "batch_effect env now ss (rows @ rows') (n, drain, db) (n', drain', db')"
proof -
  have keep: "\<exists>r' \<in> set (ed_events db'). drained env now ss drain' r r'" if row: "r \<in> set rows" for r
  proof -
    obtain r1 where r1: "r1 \<in> set (ed_events db1)" "drained env now ss drain1 r r1"
      using batch_effectD(5) [OF assms(1) row] by blast
    then have "er_id r1 = er_id r" by (auto simp: drained_def)
    then have "er_id r1 \<notin> er_id ` set rows'" using row assms(3) by auto
    then have "r1 \<in> set (ed_events db')" using batch_effectD(4) [OF assms(2) r1(1)] by blast
    moreover have "drained env now ss drain' r r1"
    proof (rule drained_mono [OF r1(2) batch_effectD(6) [OF assms(2)]])
      obtain new where "dr_failed drain' = dr_failed drain1 @ new" "set new \<subseteq> er_id ` set rows'"
        using batch_effectD(7) [OF assms(2)] by blast
      then show "er_id r \<in> set (dr_failed drain') \<longleftrightarrow> er_id r \<in> set (dr_failed drain1)"
        using row assms(3) by auto
    qed
    ultimately show ?thesis by blast
  qed
  have rows: "\<exists>r' \<in> set (ed_events db'). drained env now ss drain' r r'" if "r \<in> set (rows @ rows')" for r
    using that keep batch_effectD(5) [OF assms(2)] by auto
  have others: "r \<in> set (ed_events db')" if "r \<in> set (ed_events db)" "er_id r \<notin> er_id ` set (rows @ rows')" for r
    using batch_effectD(4) [OF assms(2)] batch_effectD(4) [OF assms(1)] that by auto
  have failed: "\<exists>new. dr_failed drain' = dr_failed drain @ new \<and> set new \<subseteq> er_id ` set (rows @ rows')"
    using batch_effectD(7) [OF assms(1)] batch_effectD(7) [OF assms(2)] by force
  have blocked: "set (dr_blocked drain) \<subseteq> set (dr_blocked drain')"
    using batch_effectD(6) [OF assms(1)] batch_effectD(6) [OF assms(2)] by (rule subset_trans)
  show ?thesis
    using rows others failed blocked batch_effectD(1-3,8) [OF assms(1)] batch_effectD(1-3,8) [OF assms(2)]
    unfolding batch_effect_def by simp
qed

lemma drain_fold:
  assumes "fold (relay_one env nack now ss) (map scanDomainEvent rows) (n, drain, db) = (n', drain', db')"
    and "distinct (map er_id (ed_events db))" "set rows \<subseteq> set (ed_events db)" "distinct (map er_id rows)"
    and "\<forall>r \<in> set rows. er_id r \<notin> set (dr_failed drain)"
  shows "batch_effect env now ss rows (n, drain, db) (n', drain', db')"
  using assms
proof (induction rows arbitrary: n drain db)
  case Nil
  then show ?case by (simp add: batch_effect_def)
next
  case (Cons r rows)
  obtain n1 drain1 db1 where one: "relay_one env nack now ss (scanDomainEvent r) (n, drain, db) = (n1, drain1, db1)"
    by (metis prod_cases3)
  have r: "r \<in> set (ed_events db)" using Cons.prems(3) by simp
  have first: "batch_effect env now ss [r] (n, drain, db) (n1, drain1, db1)"
    by (rule relay_one_effect [OF one Cons.prems(2) r]) (use Cons.prems(5) in simp)
  have apart: "er_id x \<noteq> er_id r" if "x \<in> set rows" for x
    using Cons.prems(4) that by (metis distinct.simps(2) image_eqI list.map(2) list.set_map)
  have more: "fold (relay_one env nack now ss) (map scanDomainEvent rows) (n1, drain1, db1) = (n', drain', db')"
    using Cons.prems(1) one by simp
  have rest_in: "set rows \<subseteq> set (ed_events db1)"
  proof
    fix x assume x: "x \<in> set rows"
    then have "er_id x \<noteq> er_id r" by (rule apart)
    then show "x \<in> set (ed_events db1)"
      using Cons.prems(3) x by (intro batch_effectD(4) [OF first]) auto
  qed
  have rest: "batch_effect env now ss rows (n1, drain1, db1) (n', drain', db')"
  proof (rule Cons.IH [OF more _ rest_in])
    show "distinct (map er_id (ed_events db1))" "distinct (map er_id rows)"
      using batch_effectD(1) [OF first] Cons.prems(2,4) by simp_all
    show "\<forall>x \<in> set rows. er_id x \<notin> set (dr_failed drain1)"
      using batch_effectD(7) [OF first] apart Cons.prems(5) by auto
  qed
  have "er_id ` set [r] \<inter> er_id ` set rows = {}" using Cons.prems(4) by simp
  from batch_effect_trans [OF first rest this] show ?case by simp
qed

end
