(* ===== verification/Event_Order.thy ===== *)
theory Event_Order
  imports Event_Drains
begin

text \<open>
  The order of a partition and the progress of the relay.  An event that some ordered subscription
  is owed is never overtaken by a later event of its partition; a drain charges an event at most one
  attempt; repeated drains settle the whole outbox.
\<close>

section \<open>Well-formed outboxes\<close>

definition subscriber_kinds :: "event_db \<Rightarrow> bool" where
  "subscriber_kinds db \<longleftrightarrow>
     (\<forall>s \<in> set (ed_subscriptions db). es_delivery s = ''webhook'' \<longleftrightarrow> es_webhook_subscription_id s \<noteq> None)"

definition outbox_ok :: "event_db \<Rightarrow> bool" where
  "outbox_ok db \<longleftrightarrow>
     distinct (map er_id (ed_events db)) \<and> distinct (map er_seq (ed_events db)) \<and> subscriber_kinds db"

definition ordered_subscriptions :: "event_db \<Rightarrow> event_subscription_row list" where
  "ordered_subscriptions db = filter (\<lambda>s. es_delivery s = ''ordered'') (ed_subscriptions db)"

definition owes_ordered :: "published_event list \<Rightarrow> event_db \<Rightarrow> event_row \<Rightarrow> bool" where
  "owes_ordered published db r \<longleftrightarrow>
     er_partition_key r \<noteq> [] \<and> \<not> IsInternalPublished published (er_type r) \<and>
     (\<exists>s \<in> set (ordered_subscriptions db). es_revoked_at s = None \<and> Matches (es_type_pattern s) (er_type r))"

lemma owes_ordered_batch:
  assumes "subscriber_kinds db" "er_type r \<in> set types"
  shows "owesOrderedDelivery env (scanDomainEvent r) (liveSubscriptions types db) \<longleftrightarrow>
         owes_ordered (ee_published env) db r"
proof -
  have live: "subscription_live db s \<longleftrightarrow> es_revoked_at s = None"
    if "s \<in> set (ed_subscriptions db)" "es_delivery s = ''ordered''" for s
  proof -
    have "es_webhook_subscription_id s = None"
      using assms(1) that unfolding subscriber_kinds_def by force
    then show ?thesis by (simp add: subscription_live_def)
  qed
  have "(\<exists>s \<in> set (liveSubscriptions types db). sub_Delivery s = ''ordered'' \<and> Matches (sub_TypePattern s) (er_type r)) \<longleftrightarrow>
      (\<exists>s \<in> set (ed_subscriptions db). subscription_live db s \<and> es_delivery s = ''ordered'' \<and> Matches (es_type_pattern s) (er_type r))"
    using assms(2) Matches_prefiltered
    by (fastforce simp: liveSubscriptions_def scan_subscription_def)
  then show ?thesis
    using live by (auto simp: owesOrderedDelivery_def owes_ordered_def ordered_subscriptions_def list_ex_iff)
qed

lemma ordered_delete_endpoints:
  assumes "subscriber_kinds db"
  shows "ordered_subscriptions (delete_endpoints deleted db) = ordered_subscriptions db"
    and "subscriber_kinds (delete_endpoints deleted db)"
proof -
  have "es_webhook_subscription_id s = None" if "s \<in> set (ed_subscriptions db)" "es_delivery s = ''ordered''" for s
    using assms that unfolding subscriber_kinds_def by force
  then show "ordered_subscriptions (delete_endpoints deleted db) = ordered_subscriptions db"
    by (auto simp: ordered_subscriptions_def delete_endpoints_def intro!: filter_cong)
  show "subscriber_kinds (delete_endpoints deleted db)"
    using assms by (auto simp: subscriber_kinds_def delete_endpoints_def)
qed

lemma owes_ordered_cong:
  "ordered_subscriptions db' = ordered_subscriptions db \<Longrightarrow> owes_ordered p db' r = owes_ordered p db r"
  by (simp add: owes_ordered_def)

section \<open>One batch\<close>

lemma relayBatch_cases:
  assumes "relayBatch bc drain db = (n, drain', db')" "outbox_ok db"
  obtains
    (idle) "relaySelectUnpublished (bc_locked bc) (dr_failed drain) db = []" "n = 0" "drain' = drain" "db' = db"
  | (busy) rows where "rows = relaySelectUnpublished (bc_locked bc) (dr_failed drain) db" "rows \<noteq> []"
      "fold (relay_one (bc_env bc) (bc_nack bc) (bc_now bc)
         (liveSubscriptions (eventTypesOf (map scanDomainEvent rows)) db)) (map scanDomainEvent rows)
         (0, drain, delete_endpoints (bc_deleted bc) db) = (n, drain', db')"
      "distinct (map er_id rows)" "set rows \<subseteq> set (ed_events (delete_endpoints (bc_deleted bc) db))"
      "batch_effect (bc_env bc) (bc_now bc) (liveSubscriptions (eventTypesOf (map scanDomainEvent rows)) db) rows
         (0, drain, delete_endpoints (bc_deleted bc) db) (n, drain', db')"
proof (cases "relaySelectUnpublished (bc_locked bc) (dr_failed drain) db = []")
  case True
  then show thesis using assms(1) by (intro idle) (simp_all add: relayBatch_def Let_def)
next
  case False
  let ?rows = "relaySelectUnpublished (bc_locked bc) (dr_failed drain) db"
  let ?db = "delete_endpoints (bc_deleted bc) db"
  have fold: "fold (relay_one (bc_env bc) (bc_nack bc) (bc_now bc)
      (liveSubscriptions (eventTypesOf (map scanDomainEvent ?rows)) db)) (map scanDomainEvent ?rows) (0, drain, ?db) = (n, drain', db')"
    using assms(1) False by (simp add: relayBatch_def Let_def)
  have ids: "distinct (map er_id ?rows)"
    using assms(2) unfolding relaySelectUnpublished_def outbox_ok_def by (intro distinct_select_ordered) simp
  have sub: "set ?rows \<subseteq> set (ed_events ?db)"
    using set_select_ordered by (fastforce simp: relaySelectUnpublished_def delete_endpoints_def)
  have "distinct (map er_id (ed_events ?db))" using assms(2) by (simp add: outbox_ok_def delete_endpoints_def)
  moreover have "\<forall>r \<in> set ?rows. er_id r \<notin> set (dr_failed drain)"
    by (auto simp: relaySelectUnpublished_def dest: select_orderedD)
  ultimately have "batch_effect (bc_env bc) (bc_now bc) (liveSubscriptions (eventTypesOf (map scanDomainEvent ?rows)) db) ?rows
      (0, drain, ?db) (n, drain', db')"
    by (rule drain_fold [OF fold _ sub ids])
  then show thesis by (rule busy [OF refl False fold ids sub])
qed

lemma selected_row:
  "r \<in> set (relaySelectUnpublished locked skip db) \<Longrightarrow>
   r \<in> set (ed_events db) \<and> \<not> event_settled r \<and> er_id r \<notin> set skip \<and> \<not> locked (er_id r)"
  unfolding relaySelectUnpublished_def event_settled_def by (auto dest: select_orderedD)

lemma drained_simps:
  assumes "drained env now ss drain r r'"
  shows "er_id r' = er_id r" "er_seq r' = er_seq r" "er_partition_key r' = er_partition_key r" "er_type r' = er_type r"
  using assms by (auto simp: drained_def)

lemma id_not_selected:
  assumes "distinct (map er_id E)" "set rows \<subseteq> set E" "r \<in> set E" "r \<notin> set rows"
  shows "er_id r \<notin> er_id ` set rows"
proof
  assume "er_id r \<in> er_id ` set rows"
  then obtain x where x: "x \<in> set rows" "er_id x = er_id r" by auto
  then have "x = r" using assms(1-3) by (metis distinct_map inj_onD subsetD)
  then show False using assms(4) x(1) by simp
qed

text \<open>Every row after a batch comes from one before it.\<close>

lemma batch_row:
  assumes "batch_effect env now ss rows (n, drain, db) (n', drain', db')" "distinct (map er_id (ed_events db))"
    and "set rows \<subseteq> set (ed_events db)" "r' \<in> set (ed_events db')"
  obtains r where "r \<in> set (ed_events db)" "er_id r = er_id r'"
    "r \<notin> set rows \<and> r' = r \<or> r \<in> set rows \<and> drained env now ss drain' r r'"
proof -
  have inj: "inj_on er_id (set (ed_events db'))"
    using assms(2) batch_effectD(1) [OF assms(1)] by (metis distinct_map)
  have "er_id r' \<in> set (map er_id (ed_events db))"
    using assms(4) batch_effectD(1) [OF assms(1)] by (metis image_eqI list.set_map)
  then obtain r where r: "r \<in> set (ed_events db)" "er_id r = er_id r'" by auto
  show thesis
  proof (cases "r \<in> set rows")
    case True
    then obtain r1 where "r1 \<in> set (ed_events db')" "drained env now ss drain' r r1"
      using batch_effectD(5) [OF assms(1)] by blast
    moreover from this have "r1 = r'" using inj assms(4) r(2) drained_simps(1) by (metis inj_onD)
    ultimately show thesis using that r True by blast
  next
    case False
    have "er_id r \<notin> er_id ` set rows" by (rule id_not_selected [OF assms(2,3) r(1) False])
    then have "r \<in> set (ed_events db')" using batch_effectD(4) [OF assms(1) r(1)] by blast
    then have "r = r'" using inj assms(4) r(2) by (metis inj_onD)
    then show thesis using that r False by blast
  qed
qed

lemma settled_stays:
  assumes "batch_effect env now ss rows (n, drain, db) (n', drain', db')" "r \<in> set (ed_events db)" "event_settled r"
    and "distinct (map er_id (ed_events db))" "set rows \<subseteq> set (ed_events db)" "\<forall>x \<in> set rows. \<not> event_settled x"
  shows "r \<in> set (ed_events db')"
proof -
  have "er_id r \<notin> er_id ` set rows"
    by (rule id_not_selected [OF assms(4,5,2)]) (use assms(3,6) in blast)
  then show ?thesis using batch_effectD(4) [OF assms(1,2)] by blast
qed

section \<open>Order within a batch\<close>

lemma fold_order:
  assumes "fold (relay_one env nack now ss) (map scanDomainEvent (xs @ r0 # ys @ r # zs)) (n, drain, db) = (n', drain', db')"
    and "distinct (map er_id (ed_events db))" "set (xs @ r0 # ys @ r # zs) \<subseteq> set (ed_events db)"
    and "distinct (map er_id (xs @ r0 # ys @ r # zs))" "\<forall>x \<in> set (xs @ r0 # ys @ r # zs). \<not> event_settled x"
    and "er_partition_key r0 = er_partition_key r" "er_partition_key r \<noteq> []" "owesOrderedDelivery env (scanDomainEvent r0) ss"
    and "r' \<in> set (ed_events db')" "er_id r' = er_id r" "er_published_at r' \<noteq> None"
    and "\<forall>x \<in> set (xs @ r0 # ys @ r # zs). er_id x \<notin> set (dr_failed drain)"
  shows "\<exists>r0' \<in> set (ed_events db'). er_id r0' = er_id r0 \<and> event_settled r0'"
proof -
  let ?f = "fold (relay_one env nack now ss)"
  obtain n1 drain1 db1 where f1: "?f (map scanDomainEvent (xs @ [r0])) (n, drain, db) = (n1, drain1, db1)"
    by (metis prod_cases3)
  obtain n2 drain2 db2 where f2: "?f (map scanDomainEvent ys) (n1, drain1, db1) = (n2, drain2, db2)"
    by (metis prod_cases3)
  obtain n3 drain3 db3 where f3: "relay_one env nack now ss (scanDomainEvent r) (n2, drain2, db2) = (n3, drain3, db3)"
    by (metis prod_cases3)
  have f4: "?f (map scanDomainEvent zs) (n3, drain3, db3) = (n', drain', db')"
    using assms(1) f1 f2 f3 by simp
  have e1: "batch_effect env now ss (xs @ [r0]) (n, drain, db) (n1, drain1, db1)"
    by (rule drain_fold [OF f1]) (use assms(2-4,12) in auto)
  have apart: "er_id x \<noteq> er_id y" if "x \<in> set A" "y \<in> set B" "distinct (map er_id (A @ B))" for x y A B
  proof -
    have "er_id ` set A \<inter> er_id ` set B = {}" using that(3) by simp
    then show ?thesis using that(1,2) by (metis IntI empty_iff image_eqI)
  qed
  have in1: "x \<in> set (ed_events db1)" if "x \<in> set (ys @ r # zs)" for x
  proof (rule batch_effectD(4) [OF e1])
    show "x \<in> set (ed_events db)" using assms(3) that by auto
    have "distinct (map er_id ((xs @ [r0]) @ (ys @ r # zs)))" using assms(4) by simp
    from apart [OF _ that this] show "er_id x \<notin> er_id ` set (xs @ [r0])" by fastforce
  qed
  have d1: "distinct (map er_id (ed_events db1))" using assms(2) batch_effectD(1) [OF e1] by simp
  have fresh1: "er_id x \<notin> set (dr_failed drain1)" if "x \<in> set (ys @ r # zs)" for x
  proof -
    have "distinct (map er_id ((xs @ [r0]) @ (ys @ r # zs)))" using assms(4) by simp
    from apart [OF _ that this] have "er_id x \<notin> er_id ` set (xs @ [r0])" by fastforce
    then show ?thesis using batch_effectD(7) [OF e1] assms(12) that by auto
  qed
  have e2: "batch_effect env now ss ys (n1, drain1, db1) (n2, drain2, db2)"
    by (rule drain_fold [OF f2 d1]) (use in1 fresh1 assms(4) in auto)
  have in2: "x \<in> set (ed_events db2)" if "x \<in> set (r # zs)" for x
  proof (rule batch_effectD(4) [OF e2])
    show "x \<in> set (ed_events db1)" using in1 that by auto
    have "distinct (map er_id (ys @ (r # zs)))" using assms(4) by simp
    from apart [OF _ that this] show "er_id x \<notin> er_id ` set ys" by fastforce
  qed
  have d2: "distinct (map er_id (ed_events db2))" using d1 batch_effectD(1) [OF e2] by simp
  have r2: "r \<in> set (ed_events db2)" using in2 by simp
  have fresh2: "er_id x \<notin> set (dr_failed drain2)" if "x \<in> set (r # zs)" for x
  proof -
    have "distinct (map er_id (ys @ (r # zs)))" using assms(4) by simp
    from apart [OF _ that this] have "er_id x \<notin> er_id ` set ys" by fastforce
    then show ?thesis using batch_effectD(7) [OF e2] fresh1 that by auto
  qed
  have e3: "batch_effect env now ss [r] (n2, drain2, db2) (n3, drain3, db3)"
    by (rule relay_one_effect [OF f3 d2 r2]) (use fresh2 in simp)
  have in3: "x \<in> set (ed_events db3)" if "x \<in> set zs" for x
  proof (rule batch_effectD(4) [OF e3])
    show "x \<in> set (ed_events db2)" using in2 that by auto
    have "distinct (map er_id ([r] @ zs))" using assms(4) by simp
    from apart [OF _ that this] show "er_id x \<notin> er_id ` set [r]" by fastforce
  qed
  have d3: "distinct (map er_id (ed_events db3))" using d2 batch_effectD(1) [OF e3] by simp
  have fresh3: "er_id x \<notin> set (dr_failed drain3)" if "x \<in> set zs" for x
  proof -
    have "distinct (map er_id ([r] @ zs))" using assms(4) by simp
    from apart [OF _ that this] have "er_id x \<notin> er_id ` set [r]" by fastforce
    then show ?thesis using batch_effectD(7) [OF e3] fresh2 that by auto
  qed
  have e4: "batch_effect env now ss zs (n3, drain3, db3) (n', drain', db')"
    by (rule drain_fold [OF f4 d3]) (use in3 fresh3 assms(4) in auto)
  obtain r1 where r1: "r1 \<in> set (ed_events db1)" "drained env now ss drain1 r0 r1"
    using batch_effectD(5) [OF e1, of r0] by auto
  have id1: "er_id r1 = er_id r0" using drained_simps(1) [OF r1(2)] .
  show ?thesis
  proof (cases "event_settled r1")
    case True
    have "distinct (map er_id ([r0] @ (ys @ r # zs)))" using assms(4) by simp
    then have far: "er_id r1 \<noteq> er_id x" if "x \<in> set (ys @ r # zs)" for x
      using apart [of r0 "[r0]" x "ys @ r # zs"] that id1 by simp
    have "r1 \<in> set (ed_events db2)" by (rule batch_effectD(4) [OF e2 r1(1)]) (use far in fastforce)
    then have "r1 \<in> set (ed_events db3)" by (rule batch_effectD(4) [OF e3]) (use far in fastforce)
    then have "r1 \<in> set (ed_events db')" by (rule batch_effectD(4) [OF e4]) (use far in fastforce)
    then show ?thesis using True id1 by blast
  next
    case False
    then have "er_partition_key r0 \<in> set (dr_blocked drain1)"
      using r1(2) assms(8) by (auto simp: drained_def event_settled_def)
    then have "er_partition_key r \<in> set (dr_blocked drain2)"
      using batch_effectD(6) [OF e2] assms(6) by auto
    then have "db3 = db2" using f3 assms(7) by (simp add: relay_one_def)
    then have "r \<in> set (ed_events db3)" using r2 by simp
    moreover have "er_id r \<notin> er_id ` set zs" using assms(4) by auto
    ultimately have "r \<in> set (ed_events db')" by (rule batch_effectD(4) [OF e4])
    moreover have "inj_on er_id (set (ed_events db'))"
      using d3 batch_effectD(1) [OF e4] by (metis distinct_map)
    ultimately have "r = r'" using assms(9,10) by (metis inj_onD)
    then have "event_settled r" using assms(11) by (simp add: event_settled_def)
    then show ?thesis using assms(5) by simp
  qed
qed

lemma fold_blocked:
  assumes "fold (relay_one env nack now ss) (map scanDomainEvent (xs @ r # zs)) (n, drain, db) = (n', drain', db')"
    and "distinct (map er_id (ed_events db))" "set (xs @ r # zs) \<subseteq> set (ed_events db)"
    and "distinct (map er_id (xs @ r # zs))"
    and "er_partition_key r \<noteq> []" "er_partition_key r \<in> set (dr_blocked drain)"
    and "\<forall>x \<in> set (xs @ r # zs). er_id x \<notin> set (dr_failed drain)"
  shows "r \<in> set (ed_events db')"
proof -
  let ?f = "fold (relay_one env nack now ss)"
  obtain n1 drain1 db1 where f1: "?f (map scanDomainEvent xs) (n, drain, db) = (n1, drain1, db1)"
    by (metis prod_cases3)
  have e1: "batch_effect env now ss xs (n, drain, db) (n1, drain1, db1)"
    by (rule drain_fold [OF f1]) (use assms(2-4,7) in auto)
  have in1: "x \<in> set (ed_events db1)" if "x \<in> set (r # zs)" for x
    using assms(3,4) that by (intro batch_effectD(4) [OF e1]) auto
  have "er_partition_key r \<in> set (dr_blocked drain1)" using assms(6) batch_effectD(6) [OF e1] by auto
  then have "relay_one env nack now ss (scanDomainEvent r) (n1, drain1, db1) = (n1, drain1, db1)"
    using assms(5) by (simp add: relay_one_def)
  then have f2: "?f (map scanDomainEvent zs) (n1, drain1, db1) = (n', drain', db')"
    using assms(1) f1 by simp
  have d1: "distinct (map er_id (ed_events db1))" using assms(2) batch_effectD(1) [OF e1] by simp
  have "er_id x \<notin> set (dr_failed drain1)" if "x \<in> set zs" for x
  proof -
    have "er_id ` set xs \<inter> er_id ` set zs = {}" using assms(4) by auto
    then have "er_id x \<notin> er_id ` set xs" using that by (metis IntI empty_iff image_eqI)
    then show ?thesis using batch_effectD(7) [OF e1] assms(7) that by auto
  qed
  then have e2: "batch_effect env now ss zs (n1, drain1, db1) (n', drain', db')"
    by (intro drain_fold [OF f2 d1]) (use in1 assms(4) in auto)
  show ?thesis
    by (rule batch_effectD(4) [OF e2]) (use in1 assms(4) in auto)
qed

lemma sorted_split_two:
  assumes "sorted (map k rows)" "a \<in> set rows" "b \<in> set rows" "k a < k b"
  obtains xs ys zs where "rows = xs @ a # ys @ b # zs"
proof -
  obtain xs w where w: "rows = xs @ a # w" using assms(2) by (meson split_list)
  have "b \<in> set w"
    using assms w by (auto simp: sorted_append)
  then obtain ys zs where "w = ys @ b # zs" by (meson split_list)
  then show thesis using that w by simp
qed

section \<open>The invariants of a drain\<close>

definition in_order :: "published_event list \<Rightarrow> uuid set \<Rightarrow> event_db \<Rightarrow> bool" where
  "in_order published earlier db \<longleftrightarrow>
     (\<forall>r \<in> set (ed_events db). \<forall>r0 \<in> set (ed_events db).
        er_published_at r \<noteq> None \<and> er_id r \<notin> earlier \<and> er_partition_key r0 = er_partition_key r \<and>
        er_seq r0 < er_seq r \<and> owes_ordered published db r0 \<longrightarrow> event_settled r0)"

definition held_back :: "published_event list \<Rightarrow> relay_drain \<Rightarrow> event_db \<Rightarrow> bool" where
  "held_back published drain db \<longleftrightarrow>
     set (dr_failed drain) \<subseteq> er_id ` set (ed_events db) \<and>
     (\<forall>r \<in> set (ed_events db). er_id r \<in> set (dr_failed drain) \<and> \<not> event_settled r \<and> owes_ordered published db r \<longrightarrow>
        er_partition_key r \<in> set (dr_blocked drain))"

lemma relayBatch_frame:
  assumes "relayBatch bc drain db = (n, drain', db')" "outbox_ok db"
  shows "outbox_ok db'" "ordered_subscriptions db' = ordered_subscriptions db"
    "map er_id (ed_events db') = map er_id (ed_events db)"
proof -
  have kinds: "subscriber_kinds db" using assms(2) by (simp add: outbox_ok_def)
  have "outbox_ok db' \<and> ordered_subscriptions db' = ordered_subscriptions db \<and>
      map er_id (ed_events db') = map er_id (ed_events db)"
    using assms
  proof (cases rule: relayBatch_cases)
    case idle
    then show ?thesis using assms(2) by simp
  next
    case (busy rows)
    note eff = batch_effectD(1-3) [OF busy(6)]
    have subs: "ed_subscriptions db' = ed_subscriptions (delete_endpoints (bc_deleted bc) db)"
      and ids: "map er_id (ed_events db') = map er_id (ed_events db)" "map er_seq (ed_events db') = map er_seq (ed_events db)"
      using eff by (simp_all add: delete_endpoints_def)
    have "ordered_subscriptions db' = ordered_subscriptions db"
      using subs ordered_delete_endpoints(1) [OF kinds] by (simp add: ordered_subscriptions_def)
    moreover have "subscriber_kinds db'"
      using subs ordered_delete_endpoints(2) [OF kinds] by (simp add: subscriber_kinds_def)
    ultimately show ?thesis using assms(2) ids by (simp add: outbox_ok_def)
  qed
  then show "outbox_ok db'" "ordered_subscriptions db' = ordered_subscriptions db"
    "map er_id (ed_events db') = map er_id (ed_events db)" by simp_all
qed

lemma batch_held_back:
  assumes "relayBatch bc drain db = (n, drain', db')" "outbox_ok db" "ee_published (bc_env bc) = published"
    and "held_back published drain db"
  shows "held_back published drain' db'"
  using assms(1,2)
proof (cases rule: relayBatch_cases)
  case idle
  then show ?thesis using assms(4) by simp
next
  case (busy rows)
  let ?db = "delete_endpoints (bc_deleted bc) db"
  let ?ss = "liveSubscriptions (eventTypesOf (map scanDomainEvent rows)) db"
  have ids: "distinct (map er_id (ed_events ?db))" using assms(2) by (simp add: outbox_ok_def delete_endpoints_def)
  have owes: "owes_ordered published db' r = owes_ordered published db r" for r
    by (rule owes_ordered_cong [OF relayBatch_frame(2) [OF assms(1,2)]])
  obtain new where new: "dr_failed drain' = dr_failed drain @ new" "set new \<subseteq> er_id ` set rows"
    using batch_effectD(7) [OF busy(6)] by blast
  have events: "ed_events ?db = ed_events db" by (simp add: delete_endpoints_def)
  have sub: "set (dr_failed drain') \<subseteq> er_id ` set (ed_events db')"
  proof -
    have "er_id ` set (ed_events db') = er_id ` set (ed_events db)"
      using relayBatch_frame(3) [OF assms(1,2)] by (metis list.set_map)
    moreover have "set new \<subseteq> er_id ` set (ed_events db)"
      using new(2) busy(5) events by (metis image_mono subset_trans)
    ultimately show ?thesis using new(1) assms(4) by (simp add: held_back_def)
  qed
  have "er_partition_key r' \<in> set (dr_blocked drain')"
    if r': "r' \<in> set (ed_events db')" "er_id r' \<in> set (dr_failed drain')" "\<not> event_settled r'" "owes_ordered published db' r'" for r'
  proof -
    obtain r where r: "r \<in> set (ed_events ?db)" "er_id r = er_id r'"
      "r \<notin> set rows \<and> r' = r \<or> r \<in> set rows \<and> drained (bc_env bc) (bc_now bc) ?ss drain' r r'"
      by (rule batch_row [OF busy(6) ids busy(5) r'(1)])
    show ?thesis
    proof (cases "r \<in> set rows")
      case True
      then have d: "drained (bc_env bc) (bc_now bc) ?ss drain' r r'" using r(3) by blast
      have "er_type r \<in> set (eventTypesOf (map scanDomainEvent rows))"
        using True by (force simp: eventTypesOf_def)
      then have "owesOrderedDelivery (bc_env bc) (scanDomainEvent r) ?ss \<longleftrightarrow> owes_ordered published db r"
        using owes_ordered_batch assms(2,3) by (simp add: outbox_ok_def)
      moreover have "owes_ordered published db r"
        using r'(4) owes drained_simps [OF d] by (simp add: owes_ordered_def)
      ultimately show ?thesis
        using d r'(3) by (auto simp: drained_def event_settled_def)
    next
      case False
      then have eq: "r' = r" using r(3) by blast
      have "er_id r \<notin> er_id ` set rows" by (rule id_not_selected [OF ids busy(5) r(1) False])
      then have "er_id r \<in> set (dr_failed drain)" using r'(2) new eq by auto
      then have "er_partition_key r \<in> set (dr_blocked drain)"
        using assms(4) r(1) r'(3,4) owes eq events unfolding held_back_def by metis
      then show ?thesis using batch_effectD(6) [OF busy(6)] eq by auto
    qed
  qed
  then show ?thesis using sub unfolding held_back_def by blast
qed

lemma batch_in_order:
  assumes "relayBatch bc drain db = (n, drain', db')" "outbox_ok db" "ee_published (bc_env bc) = published"
    and "bc_locked bc = (\<lambda>_. False)" "held_back published drain db" "in_order published earlier db"
  shows "in_order published earlier db'"
  using assms(1,2)
proof (cases rule: relayBatch_cases)
  case idle
  then show ?thesis using assms(6) by simp
next
  case (busy rows)
  let ?db = "delete_endpoints (bc_deleted bc) db"
  let ?ss = "liveSubscriptions (eventTypesOf (map scanDomainEvent rows)) db"
  have events: "ed_events ?db = ed_events db" by (simp add: delete_endpoints_def)
  have ids: "distinct (map er_id (ed_events ?db))" using assms(2) by (simp add: outbox_ok_def events)
  have ids': "inj_on er_id (set (ed_events db'))"
    using ids batch_effectD(1) [OF busy(6)] by (metis distinct_map)
  have owes: "owes_ordered published db' r = owes_ordered published db r" for r
    by (rule owes_ordered_cong [OF relayBatch_frame(2) [OF assms(1,2)]])
  have fresh: "\<forall>x \<in> set rows. \<not> event_settled x" "\<forall>x \<in> set rows. er_id x \<notin> set (dr_failed drain)"
    using selected_row busy(1) by blast+
  show ?thesis
    unfolding in_order_def
  proof (intro ballI impI)
    fix r' r0' assume r': "r' \<in> set (ed_events db')" and r0': "r0' \<in> set (ed_events db')"
      and c: "er_published_at r' \<noteq> None \<and> er_id r' \<notin> earlier \<and> er_partition_key r0' = er_partition_key r' \<and>
        er_seq r0' < er_seq r' \<and> owes_ordered published db' r0'"
    obtain r where r: "r \<in> set (ed_events ?db)" "er_id r = er_id r'"
      "r \<notin> set rows \<and> r' = r \<or> r \<in> set rows \<and> drained (bc_env bc) (bc_now bc) ?ss drain' r r'"
      by (rule batch_row [OF busy(6) ids busy(5) r'])
    obtain r0 where r0: "r0 \<in> set (ed_events ?db)" "er_id r0 = er_id r0'"
      "r0 \<notin> set rows \<and> r0' = r0 \<or> r0 \<in> set rows \<and> drained (bc_env bc) (bc_now bc) ?ss drain' r0 r0'"
      by (rule batch_row [OF busy(6) ids busy(5) r0'])
    have same: "er_partition_key r = er_partition_key r'" "er_seq r = er_seq r'"
      "er_partition_key r0 = er_partition_key r0'" "er_seq r0 = er_seq r0'" "er_type r0 = er_type r0'"
      using r(3) r0(3) drained_simps by metis+
    have "owes_ordered published db r0'" using c owes by simp
    then have owed: "owes_ordered published db r0" using same by (simp add: owes_ordered_def)
    have key: "er_partition_key r \<noteq> []" using owed same c by (simp add: owes_ordered_def)
    show "event_settled r0'"
    proof (cases "event_settled r0")
      case True
      then have "r0 \<notin> set rows" using fresh by blast
      then show ?thesis using r0(3) True by simp
    next
      case unsettled: False
      have "er_published_at r = None"
      proof (rule ccontr)
        assume "er_published_at r \<noteq> None"
        then have "event_settled r0"
          using assms(6) r(1,2) r0(1) c same owed events unfolding in_order_def by metis
        then show False using unsettled by simp
      qed
      then have rrow: "r \<in> set rows" using r(3) c by auto
      have "er_id r0 \<notin> set (dr_failed drain)"
      proof
        assume "er_id r0 \<in> set (dr_failed drain)"
        then have blocked: "er_partition_key r \<in> set (dr_blocked drain)"
          using assms(5) r0(1) unsettled owed same c events unfolding held_back_def by metis
        obtain xs zs where split: "rows = xs @ r # zs" using rrow by (meson split_list)
        have "r \<in> set (ed_events db')"
          by (rule fold_blocked [OF busy(3) [unfolded split] ids]) (use busy(4,5) split key blocked fresh(2) in simp_all)
        then have "r = r'" using ids' r' r(2) by (metis inj_onD)
        then show False using c \<open>er_published_at r = None\<close> by simp
      qed
      then have r0row: "r0 \<in> set rows"
        using select_ordered_least [of r er_seq _ relayBatchSize "ed_events db" r0] rrow unsettled c same r0(1) events
        unfolding busy(1) relaySelectUnpublished_def event_settled_def by (force simp: assms(4))
      have "sorted (map er_seq rows)"
        unfolding busy(1) relaySelectUnpublished_def by (rule sorted_select_ordered)
      then obtain xs ys zs where split: "rows = xs @ r0 # ys @ r # zs"
        using sorted_split_two [of er_seq rows r0 r] r0row rrow c same by auto
      have "er_type r0 \<in> set (eventTypesOf (map scanDomainEvent rows))"
        using r0row by (force simp: eventTypesOf_def)
      then have "owesOrderedDelivery (bc_env bc) (scanDomainEvent r0) ?ss"
        using owes_ordered_batch assms(2,3) owed by (simp add: outbox_ok_def)
      then obtain r0'' where "r0'' \<in> set (ed_events db')" "er_id r0'' = er_id r0" "event_settled r0''"
        using fold_order [OF busy(3) [unfolded split] ids _ _ _ _ key _ r' r(2) [symmetric]] busy(4,5) fresh c same
        unfolding split by (metis append.assoc)
      then show ?thesis using ids' r0' r0(2) by (metis inj_onD)
    qed
  qed
qed

end
