(* ===== verification/Event_Properties.thy ===== *)
theory Event_Properties
  imports Event_Order
begin

text \<open>
  The theorems on the outbox: what a fan-out delivers, the order of a partition and the attempts a
  drain may charge.
\<close>

section \<open>Fan-out\<close>


section \<open>Order\<close>

text \<open>
  What producers commit between two batches: new events.  The lock a publication takes on its
  partition makes the sequence of a partition follow the order of commits.
\<close>

definition publishes_only :: "event_db \<Rightarrow> event_db \<Rightarrow> bool" where
  "publishes_only db db' \<longleftrightarrow>
     (\<exists>new. ed_events db' = ed_events db @ new \<and>
        (\<forall>r \<in> set new. \<not> event_settled r \<and> er_relay_attempts r = 0 \<and>
           (\<forall>x \<in> set (ed_events db). er_partition_key x = er_partition_key r \<and> er_partition_key r \<noteq> [] \<longrightarrow> er_seq x < er_seq r))) \<and>
     ordered_subscriptions db' = ordered_subscriptions db \<and> outbox_ok db'"

lemma publishes_keeps:
  assumes "publishes_only db db'" "held_back published drain db" "in_order published earlier db"
  shows "held_back published drain db'" "in_order published earlier db'"
proof -
  obtain new where new: "ed_events db' = ed_events db @ new"
    "\<And>r. r \<in> set new \<Longrightarrow> er_published_at r = None"
    "\<And>r x. r \<in> set new \<Longrightarrow> x \<in> set (ed_events db) \<Longrightarrow> er_partition_key x = er_partition_key r \<Longrightarrow>
       er_partition_key r \<noteq> [] \<Longrightarrow> er_seq x < er_seq r"
    using assms(1) unfolding publishes_only_def event_settled_def by blast
  have owes: "owes_ordered published db' r = owes_ordered published db r" for r
    using assms(1) by (intro owes_ordered_cong) (simp add: publishes_only_def)
  have "distinct (map er_id (ed_events db @ new))" using assms(1) new(1) by (simp add: publishes_only_def outbox_ok_def)
  then have "er_id r \<notin> er_id ` set (ed_events db)" if "r \<in> set new" for r
    using that by auto
  then have old: "r \<in> set (ed_events db)" if "r \<in> set (ed_events db')" "er_id r \<in> set (dr_failed drain)" for r
    using that assms(2) new(1) unfolding held_back_def by (metis Un_iff set_append subsetD)
  show "held_back published drain db'"
    unfolding held_back_def
  proof (intro conjI ballI impI)
    show "set (dr_failed drain) \<subseteq> er_id ` set (ed_events db')"
      using assms(2) new(1) by (auto simp: held_back_def)
    fix r assume "r \<in> set (ed_events db')"
      and "er_id r \<in> set (dr_failed drain) \<and> \<not> event_settled r \<and> owes_ordered published db' r"
    then show "er_partition_key r \<in> set (dr_blocked drain)"
      using old owes assms(2) unfolding held_back_def by blast
  qed
  show "in_order published earlier db'"
    unfolding in_order_def
  proof (intro ballI impI)
    fix r r0 assume r: "r \<in> set (ed_events db')" and r0: "r0 \<in> set (ed_events db')"
      and c: "er_published_at r \<noteq> None \<and> er_id r \<notin> earlier \<and> er_partition_key r0 = er_partition_key r \<and>
        er_seq r0 < er_seq r \<and> owes_ordered published db' r0"
    have old: "r \<in> set (ed_events db)" using r c new(1,2) by auto
    have "er_partition_key r0 \<noteq> []" using c unfolding owes_ordered_def by blast
    then have "r0 \<notin> set new" using new(3) [OF _ old, of r0] c by fastforce
    then have "r0 \<in> set (ed_events db)" using r0 new(1) by simp
    with old show "event_settled r0" using assms(3) c owes unfolding in_order_def by blast
  qed
qed

lemma drain_in_order:
  assumes "relay_batches contexts others k m drain db = (relayed, drain', db')"
    and "\<And>n. ee_published (bc_env (contexts n)) = published \<and> bc_locked (contexts n) = (\<lambda>_. False)"
    and "\<And>n d. outbox_ok d \<Longrightarrow> publishes_only d (others n d)"
    and "outbox_ok db" "held_back published drain db" "in_order published earlier db"
  shows "in_order published earlier db'"
  using assms(1,4-6)
proof (induction k arbitrary: m drain db)
  case (Suc k)
  let ?db = "others k db"
  have ok: "outbox_ok ?db" using assms(3) Suc.prems(2) by (simp add: publishes_only_def)
  note keeps = publishes_keeps [OF assms(3) [OF Suc.prems(2)] Suc.prems(3,4)]
  obtain n drain1 db1 where batch: "relayBatch (contexts k) drain ?db = (n, drain1, db1)"
    by (metis prod_cases3)
  have env: "ee_published (bc_env (contexts k)) = published" "bc_locked (contexts k) = (\<lambda>_. False)"
    using assms(2) by simp_all
  have order: "in_order published earlier db1"
    by (rule batch_in_order [OF batch ok env keeps])
  show ?case
  proof (cases "n = 0 \<and> length (dr_failed drain1) = length (dr_failed drain)")
    case True
    then show ?thesis using Suc.prems(1) batch order by (simp split: if_splits)
  next
    case False
    then have "relay_batches contexts others k (m + n) drain1 db1 = (relayed, drain', db')"
      using Suc.prems(1) batch by (simp split: if_splits)
    then show ?thesis
      using relayBatch_frame(1) [OF batch ok] batch_held_back [OF batch ok env(1) keeps(1)] order by (rule Suc.IH)
  qed
qed simp


section \<open>Attempts\<close>

text \<open>How a row may differ after some batches of one drain, given which events failed in it.\<close>

definition charged :: "relay_drain \<Rightarrow> event_row \<Rightarrow> event_row \<Rightarrow> bool" where
  "charged drain r r' \<longleftrightarrow>
     er_id r' = er_id r \<and> (event_settled r \<longrightarrow> r' = r) \<and>
     (er_id r \<notin> set (dr_failed drain) \<longrightarrow>
        er_relay_attempts r' = er_relay_attempts r \<and> er_dead_lettered_at r' = er_dead_lettered_at r) \<and>
     (er_id r \<in> set (dr_failed drain) \<longrightarrow> \<not> event_settled r \<longrightarrow>
        er_relay_attempts r' = Suc (er_relay_attempts r) \<and> er_published_at r' = None \<and>
        (er_dead_lettered_at r' = None \<longleftrightarrow> Suc (er_relay_attempts r) < eventRelayMaxAttempts))"

definition charges :: "relay_drain \<Rightarrow> event_db \<Rightarrow> event_db \<Rightarrow> bool" where
  "charges drain db db' \<longleftrightarrow> (\<forall>r \<in> set (ed_events db). \<exists>r' \<in> set (ed_events db'). charged drain r r')"

lemma batch_charges:
  assumes "relayBatch bc drain db = (n, drain', db')" "outbox_ok db" "charges drain db0 db"
  shows "charges drain' db0 db'"
  using assms(1,2)
proof (cases rule: relayBatch_cases)
  case idle
  then show ?thesis using assms(3) by simp
next
  case (busy rows)
  let ?db = "delete_endpoints (bc_deleted bc) db"
  let ?ss = "liveSubscriptions (eventTypesOf (map scanDomainEvent rows)) db"
  have events: "ed_events ?db = ed_events db" by (simp add: delete_endpoints_def)
  have ids: "distinct (map er_id (ed_events ?db))" using assms(2) by (simp add: outbox_ok_def events)
  obtain new where new: "dr_failed drain' = dr_failed drain @ new" "set new \<subseteq> er_id ` set rows"
    using batch_effectD(7) [OF busy(6)] by blast
  have sel: "\<not> event_settled x \<and> er_id x \<notin> set (dr_failed drain)" if "x \<in> set rows" for x
    using selected_row that busy(1) by blast
  show ?thesis
    unfolding charges_def
  proof
    fix r assume "r \<in> set (ed_events db0)"
    then obtain r1 where r1: "r1 \<in> set (ed_events db)" "charged drain r r1"
      using assms(3) by (auto simp: charges_def)
    then have id: "er_id r1 = er_id r" by (simp add: charged_def)
    show "\<exists>r' \<in> set (ed_events db'). charged drain' r r'"
    proof (cases "r1 \<in> set rows")
      case False
      have "er_id r1 \<notin> er_id ` set rows"
        using id_not_selected [OF ids busy(5)] r1(1) False events by simp
      moreover from this have "r1 \<in> set (ed_events db')" using batch_effectD(4) [OF busy(6)] r1(1) events by simp
      moreover from calculation have "er_id r \<in> set (dr_failed drain') \<longleftrightarrow> er_id r \<in> set (dr_failed drain)"
        using new id by auto
      ultimately show ?thesis using r1(2) unfolding charged_def by metis
    next
      case True
      then have unsettled: "\<not> event_settled r1" "er_id r \<notin> set (dr_failed drain)" using sel id by metis+
      have start: "er_relay_attempts r1 = er_relay_attempts r" "er_dead_lettered_at r1 = er_dead_lettered_at r"
        using r1(2) unsettled by (simp_all add: charged_def)
      have "\<not> event_settled r" using r1(2) unsettled(1) by (auto simp: charged_def)
      obtain r' where r': "r' \<in> set (ed_events db')" "drained (bc_env bc) (bc_now bc) ?ss drain' r1 r'"
        using batch_effectD(5) [OF busy(6) True] by blast
      have "charged drain' r r'"
      proof (cases "er_id r \<in> set (dr_failed drain')")
        case True
        then have "\<exists>msg. r' = fail_row (bc_now bc) msg r1"
          using r'(2) id by (auto simp: drained_def)
        then show ?thesis
          using True id start \<open>\<not> event_settled r\<close> unsettled(1)
          by (auto simp: charged_def event_settled_def)
      next
        case False
        then show ?thesis
          using r'(2) id start \<open>\<not> event_settled r\<close> unsettled(1)
          by (auto simp: charged_def drained_def event_settled_def)
      qed
      then show ?thesis using r'(1) by blast
    qed
  qed
qed

lemma publishes_charges:
  assumes "publishes_only db db'" "charges drain db0 db"
  shows "charges drain db0 db'"
proof -
  have "set (ed_events db) \<subseteq> set (ed_events db')" using assms(1) by (auto simp: publishes_only_def)
  then show ?thesis using assms(2) unfolding charges_def by blast
qed

lemma drain_charges:
  assumes "relay_batches contexts others k m drain db = (relayed, drain', db')"
    and "\<And>n d. outbox_ok d \<Longrightarrow> publishes_only d (others n d)" "outbox_ok db" "charges drain db0 db"
  shows "charges drain' db0 db'"
  using assms(1,3,4)
proof (induction k arbitrary: m drain db)
  case (Suc k)
  let ?db = "others k db"
  have ok: "outbox_ok ?db" using assms(2) Suc.prems(2) by (simp add: publishes_only_def)
  have before: "charges drain db0 ?db" by (rule publishes_charges [OF assms(2) [OF Suc.prems(2)] Suc.prems(3)])
  obtain n drain1 db1 where batch: "relayBatch (contexts k) drain ?db = (n, drain1, db1)"
    by (metis prod_cases3)
  note after = batch_charges [OF batch ok before]
  show ?case
  proof (cases "n = 0 \<and> length (dr_failed drain1) = length (dr_failed drain)")
    case True
    then show ?thesis using Suc.prems(1) batch after by (simp split: if_splits)
  next
    case False
    then have "relay_batches contexts others k (m + n) drain1 db1 = (relayed, drain', db')"
      using Suc.prems(1) batch by (simp split: if_splits)
    then show ?thesis using relayBatch_frame(1) [OF batch ok] after by (rule Suc.IH)
  qed
qed simp

text \<open>
  C16.  One drain charges an event at most one attempt, whatever other relays hold locked and
  producers add meanwhile: a settled event is left alone, an event that is charged is parked exactly
  when that attempt was its fifth, and one that is published keeps its count.
\<close>

theorem relay_charges_at_most_once:
  assumes "RelayOnce contexts others db = (relayed, db')" "outbox_ok db"
    and "\<forall>n d. outbox_ok d \<longrightarrow> publishes_only d (others n d)" "r \<in> set (ed_events db)"
  shows "\<exists>r' \<in> set (ed_events db'). er_id r' = er_id r \<and> (event_settled r \<longrightarrow> r' = r) \<and>
    (er_relay_attempts r' = er_relay_attempts r \<and> er_dead_lettered_at r' = er_dead_lettered_at r \<or>
     er_relay_attempts r' = Suc (er_relay_attempts r) \<and> er_published_at r' = None \<and>
     (er_dead_lettered_at r' \<noteq> None \<longleftrightarrow> 5 \<le> er_relay_attempts r'))"
proof -
  obtain drain' where drain: "relay_batches contexts others relayMaxBatchesPerDrain 0 \<lparr>dr_failed = [], dr_blocked = []\<rparr> db
      = (relayed, drain', db')"
    using assms(1) by (auto simp: RelayOnce_def split: prod.splits)
  have "charges drain' db db'"
    by (rule drain_charges [OF drain]) (use assms(2,3) in \<open>auto simp: charges_def charged_def\<close>)
  then obtain r' where r': "r' \<in> set (ed_events db')" "charged drain' r r'"
    using assms(4) unfolding charges_def by blast
  have "eventRelayMaxAttempts = 5" by (simp add: eventRelayMaxAttempts_def)
  then show ?thesis
    using r' unfolding charged_def
    by (intro bexI [OF _ r'(1)]) (cases "event_settled r"; cases "er_id r \<in> set (dr_failed drain')"; auto)
qed

end
