(* ===== verification/Event_Progress.thy ===== *)
theory Event_Progress
  imports Event_Properties
begin

text \<open>
  The loop that drains the outbox, and that it leaves no event waiting: five attempts for each event
  that is waiting are enough drains, whatever is published meanwhile.
\<close>

section \<open>The loop\<close>

text \<open>
  \<^verbatim>\<open>EventRelayWorker.Start\<close>: one drain at once and one per tick.  Each drain has its own
  contexts and its own concurrent producers.
\<close>

fun event_relay_loop ::
  "(nat \<Rightarrow> nat \<Rightarrow> batch_context) \<Rightarrow> (nat \<Rightarrow> nat \<Rightarrow> event_db \<Rightarrow> event_db) \<Rightarrow> nat \<Rightarrow> event_db \<Rightarrow> event_db" where
  "event_relay_loop contexts others 0 db = db"
| "event_relay_loop contexts others (Suc k) db =
     event_relay_loop contexts others k (snd (RelayOnce (contexts k) (others k) db))"

section \<open>Weights\<close>

text \<open>The drains an event may still need, and those of a set of events.\<close>

definition row_weight :: "event_row \<Rightarrow> nat" where
  "row_weight r = (if event_settled r then 0 else Suc (eventRelayMaxAttempts - 1 - er_relay_attempts r))"

definition cohort :: "uuid set \<Rightarrow> event_db \<Rightarrow> event_row list" where
  "cohort ids db = filter (\<lambda>r. er_id r \<in> ids) (ed_events db)"

definition backlog :: "uuid set \<Rightarrow> event_db \<Rightarrow> nat" where
  "backlog ids db = (\<Sum>r \<leftarrow> cohort ids db. row_weight r)"

text \<open>The events of the set are in the outbox, before all others.\<close>

definition older :: "uuid set \<Rightarrow> event_db \<Rightarrow> bool" where
  "older ids db \<longleftrightarrow> ids \<subseteq> er_id ` set (ed_events db) \<and>
     (\<forall>r \<in> set (ed_events db). \<forall>x \<in> set (ed_events db). er_id r \<in> ids \<and> er_id x \<notin> ids \<longrightarrow> er_seq r < er_seq x)"

lemma charged_weight:
  assumes "charged drain r r'"
  shows "row_weight r' \<le> row_weight r"
    and "er_id r \<in> set (dr_failed drain) \<Longrightarrow> \<not> event_settled r \<Longrightarrow> row_weight r' < row_weight r"
  using assms by (auto simp: charged_def event_settled_def row_weight_def)

lemma backlog_le:
  "backlog ids db \<le> eventRelayMaxAttempts * length (filter (\<lambda>r. \<not> event_settled r) (ed_events db))"
proof -
  have "(\<Sum>r \<leftarrow> filter (\<lambda>r. er_id r \<in> ids) rows. row_weight r) \<le>
      eventRelayMaxAttempts * length (filter (\<lambda>r. \<not> event_settled r) rows)" for rows
    by (induction rows) (auto simp: row_weight_def eventRelayMaxAttempts_def)
  then show ?thesis by (simp add: backlog_def cohort_def)
qed

lemma cohort_ids: "map er_id (cohort ids db) = filter (\<lambda>i. i \<in> ids) (map er_id (ed_events db))"
  by (simp add: cohort_def filter_map comp_def)

lemma backlog_zero:
  "backlog ids db = 0 \<Longrightarrow> r \<in> set (ed_events db) \<Longrightarrow> er_id r \<in> ids \<Longrightarrow> event_settled r"
  by (auto simp: backlog_def cohort_def row_weight_def split: if_splits)

lemma aligned_rows:
  assumes "map er_id ys = map er_id xs" "distinct (map er_id xs)"
    and "\<And>x. x \<in> set xs \<Longrightarrow> \<exists>y \<in> set ys. er_id y = er_id x \<and> R x y"
  shows "list_all2 R xs ys"
proof (rule list_all2_all_nthI)
  show len: "length xs = length ys" using assms(1) by (metis length_map)
  fix i assume i: "i < length xs"
  obtain y where y: "y \<in> set ys" "er_id y = er_id (xs ! i)" "R (xs ! i) y"
    using assms(3) i nth_mem by blast
  have "er_id (ys ! i) = er_id (xs ! i)" using assms(1) i len by (metis nth_map)
  moreover have "ys ! i \<in> set ys" using i len by simp
  moreover have "inj_on er_id (set ys)" using assms(1,2) by (metis distinct_map)
  ultimately have "y = ys ! i" using y(1,2) by (metis inj_onD)
  then show "R (xs ! i) (ys ! i)" using y(3) by simp
qed

lemma sum_list_strict:
  fixes w :: "'a \<Rightarrow> nat"
  assumes "list_all2 (\<lambda>x y. w y \<le> w x) xs ys"
  shows "(\<Sum>y\<leftarrow>ys. w y) \<le> (\<Sum>x\<leftarrow>xs. w x)"
    and "(\<exists>i < length xs. w (ys ! i) < w (xs ! i)) \<Longrightarrow> (\<Sum>y\<leftarrow>ys. w y) < (\<Sum>x\<leftarrow>xs. w x)"
proof -
  show le: "(\<Sum>y\<leftarrow>ys. w y) \<le> (\<Sum>x\<leftarrow>xs. w x)"
    using assms by (induction rule: list_all2_induct) auto
  have *: "list_all2 (\<lambda>x y. w y \<le> w x) xs ys \<Longrightarrow> (\<exists>i < length xs. w (ys ! i) < w (xs ! i)) \<Longrightarrow>
      (\<Sum>y\<leftarrow>ys. w y) < (\<Sum>x\<leftarrow>xs. w x)" for xs ys
  proof (induction rule: list_all2_induct)
    case (Cons x xs y ys)
    have rest: "(\<Sum>y\<leftarrow>ys. w y) \<le> (\<Sum>x\<leftarrow>xs. w x)"
      using Cons(2) by (induction rule: list_all2_induct) auto
    obtain i where i: "i < length (x # xs)" "w ((y # ys) ! i) < w ((x # xs) ! i)" using Cons.prems by blast
    show ?case
    proof (cases i)
      case 0
      then show ?thesis using i(2) rest by simp
    next
      case (Suc j)
      then have "\<exists>i < length xs. w (ys ! i) < w (xs ! i)" using i by auto
      then show ?thesis using Cons.IH Cons(1) by auto
    qed
  qed simp
  show "(\<exists>i < length xs. w (ys ! i) < w (xs ! i)) \<Longrightarrow> (\<Sum>y\<leftarrow>ys. w y) < (\<Sum>x\<leftarrow>xs. w x)"
    using * assms by blast
qed


section \<open>One drain\<close>

text \<open>Producers whose events come after all there are, whatever the partition.\<close>

definition publishes_after :: "event_db \<Rightarrow> event_db \<Rightarrow> bool" where
  "publishes_after db db' \<longleftrightarrow> publishes_only db db' \<and>
     (\<forall>r \<in> set (drop (length (ed_events db)) (ed_events db')). \<forall>x \<in> set (ed_events db). er_seq x < er_seq r)"

lemma relayBatch_seqs:
  assumes "relayBatch bc drain db = (n, drain', db')" "outbox_ok db"
  shows "map er_seq (ed_events db') = map er_seq (ed_events db)"
  using assms
proof (cases rule: relayBatch_cases)
  case (busy rows)
  then show ?thesis using batch_effectD(2) [OF busy(6)] by (simp add: delete_endpoints_def)
qed simp

lemma older_cong:
  assumes "map er_id (ed_events db') = map er_id (ed_events db)" "map er_seq (ed_events db') = map er_seq (ed_events db)"
    and "older ids db"
  shows "older ids db'"
proof -
  have same: "\<exists>x \<in> set (ed_events db). er_id x = er_id y \<and> er_seq x = er_seq y" if y: "y \<in> set (ed_events db')" for y
  proof -
    obtain i where i: "i < length (ed_events db')" "y = ed_events db' ! i" using y by (metis in_set_conv_nth)
    have len: "length (ed_events db') = length (ed_events db)" using assms(1) by (metis length_map)
    have "er_id (ed_events db ! i) = er_id y" "er_seq (ed_events db ! i) = er_seq y"
      using assms(1,2) i len by (metis nth_map)+
    then show ?thesis using i(1) len by (intro bexI [of _ "ed_events db ! i"]) simp_all
  qed
  have ids: "er_id ` set (ed_events db') = er_id ` set (ed_events db)" using assms(1) by (metis list.set_map)
  have "er_seq r < er_seq x" if r: "r \<in> set (ed_events db')" and x: "x \<in> set (ed_events db')" and "er_id r \<in> ids" "er_id x \<notin> ids" for r x
    using same [OF r] same [OF x] that(3,4) assms(3) unfolding older_def by metis
  then show ?thesis using ids assms(3) unfolding older_def by blast
qed

lemma older_publishes:
  assumes "publishes_after db db'" "older ids db"
  shows "older ids db'" "cohort ids db' = cohort ids db"
proof -
  obtain new where new: "ed_events db' = ed_events db @ new"
    "\<And>r x. r \<in> set new \<Longrightarrow> x \<in> set (ed_events db) \<Longrightarrow> er_seq x < er_seq r"
    using assms(1) unfolding publishes_after_def publishes_only_def by fastforce
  have "distinct (map er_id (ed_events db @ new))"
    using assms(1) new(1) by (simp add: publishes_after_def publishes_only_def outbox_ok_def)
  then have fresh: "er_id r \<notin> ids" if "r \<in> set new" for r
    using that assms(2) unfolding older_def by auto
  then show "cohort ids db' = cohort ids db" by (simp add: cohort_def new(1))
  have sub: "ids \<subseteq> er_id ` set (ed_events db')" using assms(2) new(1) by (auto simp: older_def)
  have "er_seq r < er_seq x" if "r \<in> set (ed_events db')" "x \<in> set (ed_events db')" "er_id r \<in> ids" "er_id x \<notin> ids" for r x
  proof -
    have r: "r \<in> set (ed_events db)" using that(1,3) fresh new(1) by auto
    show ?thesis
    proof (cases "x \<in> set new")
      case True
      then show ?thesis using new(2) r by blast
    next
      case False
      then have "x \<in> set (ed_events db)" using that(2) new(1) by simp
      then show ?thesis using assms(2) r that(3,4) unfolding older_def by blast
    qed
  qed
  then show "older ids db'" using sub unfolding older_def by blast
qed

text \<open>The head of the first batch is published or charged.\<close>

lemma batch_head:
  assumes "relayBatch bc \<lparr>dr_failed = [], dr_blocked = []\<rparr> db = (n, drain', db')" "outbox_ok db"
    and "bc_locked bc = (\<lambda>_. False)" "older ids db" "y \<in> set (cohort ids db)" "\<not> event_settled y"
  obtains r where "r \<in> set (cohort ids db)" "\<not> event_settled r"
    "(\<exists>r' \<in> set (ed_events db'). er_id r' = er_id r \<and> event_settled r') \<or> er_id r \<in> set (dr_failed drain')"
  using assms(1,2)
proof (cases rule: relayBatch_cases)
  case idle
  have "y \<in> set (sort_key er_seq (filter (\<lambda>r. er_published_at r = None \<and> er_dead_lettered_at r = None) (ed_events db)))"
    using assms(5,6) by (simp add: cohort_def event_settled_def)
  then have "select_ordered er_seq (\<lambda>r. er_published_at r = None \<and> er_dead_lettered_at r = None) relayBatchSize (ed_events db) \<noteq> []"
    unfolding select_ordered_def relayBatchSize_def by (metis list.set_cases take_eq_Nil zero_neq_numeral list.distinct(1))
  then show thesis using idle(1) assms(3) by (simp add: relaySelectUnpublished_def)
next
  case (busy rows)
  let ?db = "delete_endpoints (bc_deleted bc) db"
  obtain r more where rows: "rows = r # more" using busy(2) by (cases rows) auto
  have r: "r \<in> set (ed_events db)" "\<not> event_settled r" using selected_row busy(1) rows by (metis list.set_intros(1))+
  have ids: "distinct (map er_id (ed_events ?db))" using assms(2) by (simp add: outbox_ok_def delete_endpoints_def)
  have young: "er_id r \<in> ids"
  proof (rule ccontr)
    assume "er_id r \<notin> ids"
    then have less: "er_seq y < er_seq r" using assms(4,5) r(1) by (simp add: older_def cohort_def)
    let ?p = "\<lambda>r. er_published_at r = None \<and> er_dead_lettered_at r = None"
    have sel: "select_ordered er_seq ?p relayBatchSize (ed_events db) = rows"
      unfolding busy(1) by (simp add: relaySelectUnpublished_def assms(3))
    have "y \<in> set (ed_events db)" "?p y" using assms(5,6) by (simp_all add: cohort_def event_settled_def)
    then have "y \<in> set rows"
      using less select_ordered_least [of r er_seq ?p relayBatchSize "ed_events db" y, unfolded sel] rows
      by (metis leD list.set_intros(1))
    moreover have "sorted (map er_seq rows)" unfolding sel [symmetric] by (rule sorted_select_ordered)
    ultimately show False using less rows by auto
  qed
  let ?st = "(0, \<lparr>dr_failed = [], dr_blocked = []\<rparr>, ?db)"
  let ?relay = "relay_one (bc_env bc) (bc_nack bc) (bc_now bc) (liveSubscriptions (eventTypesOf (map scanDomainEvent rows)) db)"
  obtain n1 drain1 db1 where one: "?relay (scanDomainEvent r) ?st = (n1, drain1, db1)"
    by (metis prod_cases3)
  have more: "fold ?relay (map scanDomainEvent more) (n1, drain1, db1) = (n, drain', db')"
    using busy(3) one rows by simp
  have in0: "r \<in> set (ed_events ?db)" using busy(5) rows by simp
  have first: "batch_effect (bc_env bc) (bc_now bc) (liveSubscriptions (eventTypesOf (map scanDomainEvent rows)) db) [r] ?st (n1, drain1, db1)"
    by (rule relay_one_effect [OF one ids in0]) simp
  have apart: "er_id x \<noteq> er_id r" if "x \<in> set more" for x
    using busy(4) rows that by (metis distinct.simps(2) image_eqI list.map(2) list.set_map)
  have in1: "set more \<subseteq> set (ed_events db1)"
  proof
    fix x assume x: "x \<in> set more"
    show "x \<in> set (ed_events db1)"
      by (rule batch_effectD(4) [OF first]) (use x rows busy(5) apart in auto)
  qed
  have rest: "batch_effect (bc_env bc) (bc_now bc) (liveSubscriptions (eventTypesOf (map scanDomainEvent rows)) db) more
      (n1, drain1, db1) (n, drain', db')"
    by (rule drain_fold [OF more _ in1])
      (use batch_effectD(1,7) [OF first] ids busy(4) rows apart in auto)
  from one ids in0 show thesis
  proof (cases rule: relay_one_cases)
    case held
    then show thesis by simp
  next
    case published
    let ?r = "r\<lparr>er_published_at := Some (bc_now bc)\<rparr>"
    have "?r \<in> set (ed_events db1)" using published(4) in0 in_update_where_same by fastforce
    moreover have "er_id ?r \<notin> er_id ` set more" using apart by force
    ultimately have "?r \<in> set (ed_events db')" by (rule batch_effectD(4) [OF rest])
    then have "\<exists>r' \<in> set (ed_events db'). er_id r' = er_id r \<and> event_settled r'"
      by (intro bexI [of _ ?r]) (simp_all add: event_settled_def)
    then show thesis using that r young by (simp add: cohort_def)
  next
    case (failed msg)
    then have "er_id r \<in> set (dr_failed drain')" using batch_effect_failed [OF rest] by auto
    then show thesis using that r young by (simp add: cohort_def)
  qed
qed

text \<open>The frame of a drain: the events there were keep their place, settled ones their content.\<close>

lemma drain_frame:
  assumes "relay_batches contexts others k m drain db = (relayed, drain', db')"
    and "\<And>n d. outbox_ok d \<Longrightarrow> publishes_after d (others n d)" "outbox_ok db" "older ids db"
  shows "outbox_ok db' \<and> older ids db' \<and> map er_id (cohort ids db') = map er_id (cohort ids db) \<and>
    set (dr_failed drain) \<subseteq> set (dr_failed drain') \<and>
    (\<forall>r \<in> set (ed_events db). event_settled r \<longrightarrow> r \<in> set (ed_events db'))"
  using assms(1,3,4)
proof (induction k arbitrary: m drain db)
  case (Suc k)
  let ?db = "others k db"
  note pub = assms(2) [OF Suc.prems(2), of k]
  have ok: "outbox_ok ?db" using pub by (simp add: publishes_after_def publishes_only_def)
  have keep: "set (ed_events db) \<subseteq> set (ed_events ?db)" using pub by (auto simp: publishes_after_def publishes_only_def)
  obtain n drain1 db1 where batch: "relayBatch (contexts k) drain ?db = (n, drain1, db1)"
    by (metis prod_cases3)
  note frame = relayBatch_frame [OF batch ok]
  have old: "older ids db1"
    by (rule older_cong [OF frame(3) relayBatch_seqs [OF batch ok] older_publishes(1) [OF pub Suc.prems(3)]])
  have ids: "map er_id (cohort ids db1) = map er_id (cohort ids db)"
    using frame(3) older_publishes(2) [OF pub Suc.prems(3)] by (metis cohort_ids)
  have failed: "set (dr_failed drain) \<subseteq> set (dr_failed drain1)"
    using batch ok by (cases rule: relayBatch_cases) (auto dest: batch_effect_failed)
  have settled: "r \<in> set (ed_events db1)" if "r \<in> set (ed_events db)" "event_settled r" for r
    using batch ok
  proof (cases rule: relayBatch_cases)
    case (busy rows)
    have "\<forall>x \<in> set rows. \<not> event_settled x" using selected_row busy(1) by blast
    then show ?thesis
      using that keep ok busy(5)
      by (intro settled_stays [OF busy(6)]) (auto simp: delete_endpoints_def outbox_ok_def)
  qed (use that keep in auto)
  show ?case
  proof (cases "n = 0 \<and> length (dr_failed drain1) = length (dr_failed drain)")
    case True
    then have "drain' = drain1" "db' = db1" using Suc.prems(1) batch by simp_all
    then show ?thesis using frame(1) old ids failed settled by simp
  next
    case False
    then have "relay_batches contexts others k (m + n) drain1 db1 = (relayed, drain', db')"
      using Suc.prems(1) batch by (simp split: if_splits)
    from Suc.IH [OF this frame(1) old] show ?thesis using ids failed settled by auto
  qed
qed simp

lemma drain_step:
  assumes "RelayOnce contexts others db = (relayed, db')" "outbox_ok db" "older ids db"
    and "\<And>n. bc_locked (contexts n) = (\<lambda>_. False)" "\<And>n d. outbox_ok d \<Longrightarrow> publishes_after d (others n d)"
  shows "outbox_ok db' \<and> older ids db' \<and> backlog ids db' \<le> backlog ids db \<and> (backlog ids db > 0 \<longrightarrow> backlog ids db' < backlog ids db)"
proof -
  let ?start = "\<lparr>dr_failed = [], dr_blocked = []\<rparr>"
  obtain drain' where drain: "relay_batches contexts others relayMaxBatchesPerDrain 0 ?start db = (relayed, drain', db')"
    using assms(1) by (auto simp: RelayOnce_def split: prod.splits)
  note frame = drain_frame [OF drain assms(5,2,3)]
  have charges: "charges drain' db db'"
    by (rule drain_charges [OF drain _ assms(2)]) (use assms(5) in \<open>auto simp: charges_def charged_def publishes_after_def\<close>)
  have charge: "\<exists>y \<in> set (cohort ids db'). er_id y = er_id x \<and> charged drain' x y" if x: "x \<in> set (cohort ids db)" for x
  proof -
    have "x \<in> set (ed_events db)" using x by (simp add: cohort_def)
    then obtain y where "y \<in> set (ed_events db')" "charged drain' x y" using charges unfolding charges_def by blast
    then show ?thesis using x by (intro bexI [of _ y]) (simp_all add: cohort_def charged_def)
  qed
  have ids: "map er_id (cohort ids db') = map er_id (cohort ids db)" using frame by blast
  have dist: "distinct (map er_id (cohort ids db))"
    using assms(2) by (simp add: cohort_def outbox_ok_def distinct_map_filter)
  have dist': "inj_on er_id (set (ed_events db'))"
    using frame by (simp add: outbox_ok_def distinct_map)
  have all: "list_all2 (charged drain') (cohort ids db) (cohort ids db')"
    by (rule aligned_rows [OF ids dist charge])
  then have weights: "list_all2 (\<lambda>x y. row_weight y \<le> row_weight x) (cohort ids db) (cohort ids db')"
    by (rule list_all2_mono) (rule charged_weight(1))
  have "backlog ids db' < backlog ids db" if "backlog ids db > 0"
  proof -
    have "\<exists>y \<in> set (cohort ids db). \<not> event_settled y"
    proof (rule ccontr)
      assume "\<not> (\<exists>y \<in> set (cohort ids db). \<not> event_settled y)"
      then have "backlog ids db = 0" by (auto simp: backlog_def row_weight_def)
      then show False using that by simp
    qed
    then obtain y where y: "y \<in> set (cohort ids db)" "\<not> event_settled y" by blast
    obtain k where k: "relayMaxBatchesPerDrain = Suc k" by (simp add: relayMaxBatchesPerDrain_def)
    let ?db = "others k db"
    note pub = assms(5) [OF assms(2), of k]
    have ok: "outbox_ok ?db" using pub by (simp add: publishes_after_def publishes_only_def)
    note old = older_publishes [OF pub assms(3)]
    obtain n drain1 db1 where batch: "relayBatch (contexts k) ?start ?db = (n, drain1, db1)"
      by (metis prod_cases3)
    obtain r where r: "r \<in> set (cohort ids db)" "\<not> event_settled r"
      "(\<exists>r' \<in> set (ed_events db1). er_id r' = er_id r \<and> event_settled r') \<or> er_id r \<in> set (dr_failed drain1)"
      using batch_head [OF batch ok assms(4) old(1)] y old(2) by metis
    have more: "(drain' = drain1 \<and> db' = db1) \<or> relay_batches contexts others k n drain1 db1 = (relayed, drain', db')"
      using drain [unfolded k] batch by (auto split: if_splits)
    have old1: "older ids db1"
      by (rule older_cong [OF relayBatch_frame(3) [OF batch ok] relayBatch_seqs [OF batch ok] old(1)])
    have later: "set (dr_failed drain1) \<subseteq> set (dr_failed drain') \<and>
        (\<forall>r \<in> set (ed_events db1). event_settled r \<longrightarrow> r \<in> set (ed_events db'))"
      using more
    proof
      assume again: "relay_batches contexts others k n drain1 db1 = (relayed, drain', db')"
      show ?thesis using drain_frame [OF again assms(5) relayBatch_frame(1) [OF batch ok] old1] by blast
    qed simp
    obtain i where i: "i < length (cohort ids db)" "cohort ids db ! i = r" using r(1) by (metis in_set_conv_nth)
    let ?y = "cohort ids db' ! i"
    have len: "length (cohort ids db') = length (cohort ids db)" using ids by (metis length_map)
    have y': "charged drain' r ?y" using list_all2_nthD [OF all i(1)] i(2) by simp
    have in': "?y \<in> set (ed_events db')" using i(1) len nth_mem [of i "cohort ids db'"] by (simp add: cohort_def)
    have "row_weight ?y < row_weight r"
    proof (cases "er_id r \<in> set (dr_failed drain')")
      case True
      then show ?thesis using charged_weight(2) [OF y'] r(2) by simp
    next
      case False
      then obtain r' where r': "r' \<in> set (ed_events db')" "er_id r' = er_id r" "event_settled r'"
        using r(3) later by blast
      moreover have "er_id ?y = er_id r" using y' by (simp add: charged_def)
      ultimately have "?y = r'" using dist' in' by (metis inj_onD)
      then show ?thesis using r'(3) r(2) by (simp add: row_weight_def)
    qed
    then show ?thesis
      unfolding backlog_def using i by (intro sum_list_strict(2) [OF weights]) blast
  qed
  moreover have "backlog ids db' \<le> backlog ids db"
    unfolding backlog_def by (rule sum_list_strict(1) [OF weights])
  ultimately show ?thesis using frame by blast
qed


end
