(* ===== verification/Event_Publish.thy ===== *)
theory Event_Publish
  imports Event_Progress Event_Replay
begin

text \<open>
  What publication puts in the outbox and what arrives at the other end: an event is stored once,
  and the envelope a consumer reads off the job of a delivery is the one that was published.
\<close>

section \<open>Publication\<close>

definition sequenced :: "event_db \<Rightarrow> bool" where
  "sequenced db \<longleftrightarrow> (\<forall>r \<in> set (ed_events db). er_seq r < ed_event_seq db)"

lemma Publish_cases:
  assumes "Publish env ses now e db = Inr db'"
  obtains fingerprint row where "eventFingerprint env e = Inr fingerprint"
    "domain_event_row env now (ed_event_seq db) e fingerprint = Inr row" "may_publish ses (er_tenant_id row)"
    "db' = db\<lparr>ed_events := ed_events db @ [row], ed_event_seq := Suc (ed_event_seq db)\<rparr> \<and> (\<forall>r \<in> set (ed_events db). er_id r \<noteq> er_id row) \<or>
     db' = db\<lparr>ed_event_seq := Suc (ed_event_seq db)\<rparr> \<and>
       (\<exists>r \<in> set (ed_events db). er_id r = er_id row \<and> er_request_fingerprint r = fingerprint)"
proof -
  obtain fingerprint row stored inserted db1 where
    "eventFingerprint env e = Inr fingerprint" "domain_event_row env now (ed_event_seq db) e fingerprint = Inr row"
    and pub: "publish_domain_event ses row db = Inr ((stored, inserted), db1)"
    and ok: "(if \<not> inserted \<and> stored \<noteq> fingerprint then Inl ErrEventIdempotencyConflict else Inr db1) = Inr db'"
    using assms by (auto simp: Publish_def insertDomainEvent_def rbind_eq_Inr split: if_splits)
  moreover have "may_publish ses (er_tenant_id row)" "db' = db1" "inserted \<or> stored = fingerprint"
    using pub ok by (auto simp: publish_domain_event_def split: if_splits)
  moreover have "db1 = db\<lparr>ed_events := ed_events db @ [row], ed_event_seq := Suc (ed_event_seq db)\<rparr> \<and> (\<forall>r \<in> set (ed_events db). er_id r \<noteq> er_id row) \<or>
     \<not> inserted \<and> db1 = db\<lparr>ed_event_seq := Suc (ed_event_seq db)\<rparr> \<and> (\<exists>r \<in> set (ed_events db). er_id r = er_id row \<and> er_request_fingerprint r = stored)"
    using pub by (auto simp: publish_domain_event_def select_first_None split: if_splits option.splits dest: select_first_Some)
  ultimately show thesis using that by metis
qed

lemma domain_event_row_simps:
  assumes "domain_event_row env now seq e fingerprint = Inr row"
  shows "uuid_parse (ee_penv env) (ev_id e) = Some (er_id row)" "er_seq row = seq"
    "er_request_fingerprint row = fingerprint" "er_published_at row = None" "er_dead_lettered_at row = None"
    "er_relay_attempts row = 0" "cast_nullable_uuid env (ev_tenant_id e) = Inr (er_tenant_id row)"
  using assms by (auto simp: domain_event_row_def cast_uuid_def rbind_eq_Inr split: option.splits)

lemma publish_only:
  assumes "Publish env ses now e db = Inr db'" "outbox_ok db" "sequenced db"
  shows "publishes_after db db'" "sequenced db'"
proof -
  obtain fingerprint row where row: "domain_event_row env now (ed_event_seq db) e fingerprint = Inr row"
    and db': "db' = db\<lparr>ed_events := ed_events db @ [row], ed_event_seq := Suc (ed_event_seq db)\<rparr> \<and> (\<forall>r \<in> set (ed_events db). er_id r \<noteq> er_id row) \<or>
      db' = db\<lparr>ed_event_seq := Suc (ed_event_seq db)\<rparr>"
    by (rule Publish_cases [OF assms(1)]) blast
  note simps = domain_event_row_simps [OF row]
  have seqs: "\<forall>x \<in> set (ed_events db). er_seq x < ed_event_seq db" using assms(3) by (simp add: sequenced_def)
  have "publishes_after db db' \<and> sequenced db'"
    using db'
  proof
    assume new: "db' = db\<lparr>ed_events := ed_events db @ [row], ed_event_seq := Suc (ed_event_seq db)\<rparr> \<and> (\<forall>r \<in> set (ed_events db). er_id r \<noteq> er_id row)"
    have "er_id row \<notin> er_id ` set (ed_events db)" using new by force
    moreover have "ed_event_seq db \<notin> er_seq ` set (ed_events db)" using seqs by auto
    ultimately have "outbox_ok db'"
      using new assms(2) simps(2) by (simp add: outbox_ok_def subscriber_kinds_def)
    then show ?thesis
      using new simps seqs by (auto simp: publishes_after_def publishes_only_def sequenced_def event_settled_def ordered_subscriptions_def less_Suc_eq)
  next
    assume same: "db' = db\<lparr>ed_event_seq := Suc (ed_event_seq db)\<rparr>"
    then show ?thesis
      using assms(2) seqs
      by (auto simp: publishes_after_def publishes_only_def sequenced_def ordered_subscriptions_def outbox_ok_def subscriber_kinds_def less_Suc_eq)
  qed
  then show "publishes_after db db'" "sequenced db'" by simp_all
qed


section \<open>The envelope of a delivery\<close>

lemma decimal_digit_char: "n < 10 \<Longrightarrow> decimal_digit (char_of (48 + n)) \<and> of_char (char_of (48 + n :: nat) :: char) = 48 + n"
  by (simp add: decimal_digit_def less_eq_char_def of_char_of)

lemma decimal_value_digits: "decimal_value (decimal_digits n) = n"
proof (induction n rule: decimal_digits.induct)
  case (1 n)
  have "n mod 10 < 10" by simp
  note digit = decimal_digit_char [OF this, THEN conjunct2]
  show ?case
  proof (cases "n < 10")
    case True
    then show ?thesis using decimal_digit_char [OF True] by (simp add: decimal_digits.simps decimal_value_def)
  next
    case False
    then have "decimal_value (decimal_digits n) = 10 * decimal_value (decimal_digits (n div 10)) + n mod 10"
      using digit by (subst decimal_digits.simps) (simp add: decimal_value_def)
    then show ?thesis using 1 False by simp
  qed
qed

lemma decimal_digits_digits: "decimal_digits n \<noteq> [] \<and> list_all decimal_digit (decimal_digits n)"
proof (induction n rule: decimal_digits.induct)
  case (1 n)
  have "n mod 10 < 10" by simp
  note digit = decimal_digit_char [OF this, THEN conjunct1]
  show ?case
    using 1 digit decimal_digit_char [of n] by (subst (1 2) decimal_digits.simps) auto
qed

lemma ParseUint32_digits: "ParseUint32 (decimal_digits (unat (w :: 32 word))) = Some w"
  using unsigned_less [of w] by (simp add: ParseUint32_def decimal_value_digits decimal_digits_digits)

lemma envelope_attributes:
  assumes "\<forall>t. ee_parse_time env (ee_format_time env t) = Some t"
  shows "envelopeFromAttributes env (eventAttributes env e) (ev_data e) = e"
proof -
  have "coalesce (put_attribute k v m j) = (if j = k then (if v = [] then coalesce (m j) else v) else coalesce (m j))" for k v m j
    by (simp add: put_attribute_def coalesce_def)
  moreover have "put_attribute k v m j = (if j = k \<and> v \<noteq> [] then Some v else m j)" for k v m j
    by (simp add: put_attribute_def)
  ultimately show ?thesis
    using assms
    by (cases "ev_time e")
      (simp_all add: envelopeFromAttributes_def eventAttributes_def event_text_attributes_def Let_def
        ParseUint32_digits coalesce_def)
qed

text \<open>
  The envelope as the store keeps it: the time to the microsecond, a missing schema version as the
  first.
\<close>

definition stored_envelope :: "event_envelope \<Rightarrow> event_envelope" where
  "stored_envelope e = e\<lparr>ev_time := map_option pg_timestamp (ev_time e), ev_schema_version := eventSchemaVersion e\<rparr>"

lemma scan_domain_event_row:
  assumes "domain_event_row env now seq e fingerprint = Inr row"
    and "uuid_parse (ee_penv env) (ev_id e) = Some (ev_id e)"
    and "ev_tenant_id e \<noteq> [] \<longrightarrow> uuid_parse (ee_penv env) (ev_tenant_id e) = Some (ev_tenant_id e)"
  shows "scanDomainEvent row = stored_envelope e"
  using assms
  by (auto simp: domain_event_row_def cast_uuid_def cast_nullable_uuid_def rbind_eq_Inr scanDomainEvent_def
      stored_envelope_def coalesce_def split: if_splits)

text \<open>
  C14.  A consumer reads what the producer published.  The first publication of an event stores a row;
  whenever a job made for a subscription from that row is read back, in whatever state the job then is,
  the envelope it carries is the published one, with its time cut to the microsecond and its schema
  version defaulted.
\<close>

theorem consumer_reads_published_event:
  assumes "Publish env ses now e db = Inr db'" "\<forall>r \<in> set (ed_events db). er_id r \<noteq> ev_id e"
    and "uuid_parse (ee_penv env) (ev_id e) = Some (ev_id e)"
    and "ev_tenant_id e \<noteq> [] \<longrightarrow> uuid_parse (ee_penv env) (ev_tenant_id e) = Some (ev_tenant_id e)"
    and "\<forall>t. ee_parse_time env (ee_format_time env t) = Some t"
  shows "\<exists>r \<in> set (ed_events db'). er_id r = ev_id e \<and>
    (\<forall>s now2 m m2 job. module_job env now2 (scanDomainEvent r) s m \<longrightarrow> jm_spec m2 = jm_spec m \<longrightarrow>
       scanJobEnvelope m2 = Inr job \<longrightarrow> envelopeFromJob env job = stored_envelope e)"
proof -
  obtain fingerprint row where row: "domain_event_row env now (ed_event_seq db) e fingerprint = Inr row"
    and db': "db' = db\<lparr>ed_events := ed_events db @ [row], ed_event_seq := Suc (ed_event_seq db)\<rparr> \<or>
      (\<exists>r \<in> set (ed_events db). er_id r = er_id row)"
    by (rule Publish_cases [OF assms(1)]) blast
  have new: "er_id row = ev_id e" using domain_event_row_simps(1) [OF row] assms(3) by simp
  then have "row \<in> set (ed_events db')" using db' assms(2) by auto
  moreover have "envelopeFromJob env job = stored_envelope e"
    if made: "module_job env now2 (scanDomainEvent row) s m" and same: "jm_spec m2 = jm_spec m"
      and job: "scanJobEnvelope m2 = Inr job" for s now2 m m2 job
  proof -
    obtain sp available_at i seq where
      sp: "prepareJobEnqueue (ee_penv env) (delivery env (scanDomainEvent row) s (delivery_key (scanDomainEvent row) s)) = Inr (sp, available_at)"
      and m: "m = new_row now2 i seq sp available_at"
      using made unfolding module_job_def by blast
    have "js_attributes sp = eventAttributes env (scanDomainEvent row)" "js_payload sp = ev_data (scanDomainEvent row)"
      using sp by (auto simp: prepareJobEnqueue_def delivery_def rbind_eq_Inr)
    moreover have "je_attributes job = js_attributes sp" "je_payload job = js_payload sp"
      using job same m by (auto simp: scanJobEnvelope_def Let_def rbind_eq_Inr new_row_def)
    ultimately have "envelopeFromJob env job = scanDomainEvent row"
      using envelope_attributes [OF assms(5)] by (simp add: envelopeFromJob_def)
    then show ?thesis using scan_domain_event_row [OF row assms(3,4)] by simp
  qed
  ultimately show ?thesis using new by blast
qed

end
