(* ===== verification/Event_Replays.thy ===== *)
theory Event_Replays
  imports Event_Publish Paging
begin

text \<open>Replay ends and, when it reports no error, has served the whole selection.\<close>

section \<open>One page\<close>

definition jobs_kept :: "event_db \<Rightarrow> event_db \<Rightarrow> bool" where
  "jobs_kept db db' \<longleftrightarrow> set (job_messages (ed_jobs db)) \<subseteq> set (job_messages (ed_jobs db'))"

definition replay_owed :: "event_env \<Rightarrow> replay_selector \<Rightarrow> event_envelope \<Rightarrow> subscription \<Rightarrow> bool" where
  "replay_owed env sel e s \<longleftrightarrow>
     \<not> IsInternalPublished (ee_published env) (ev_type e) \<and> Matches (sub_TypePattern s) (ev_type e) \<and>
     (rs_SubscriberPrincipalID sel = [] \<or> sub_SubscriberPrincipalID s = rs_SubscriberPrincipalID sel)"

definition replay_served :: "event_env \<Rightarrow> event_envelope \<Rightarrow> subscription \<Rightarrow> event_db \<Rightarrow> bool" where
  "replay_served env e s db \<longleftrightarrow>
     (\<exists>nonce sp available_at.
        prepareJobEnqueue (ee_penv env) (delivery env e s (delivery_key e s @ '':replay:'' @ nonce)) = Inr (sp, available_at) \<and>
        (\<exists>m \<in> set (job_messages (ed_jobs db)). same_idempotency (jm_spec m) sp \<and>
           js_request_fingerprint (jm_spec m) = js_request_fingerprint sp))"

lemma jobs_kept_simps [simp]: "jobs_kept db db" "jobs_kept (draw_id db) db' = jobs_kept db db'"
  by (simp_all add: jobs_kept_def draw_id_def)

lemma jobs_kept_trans: "jobs_kept a b \<Longrightarrow> jobs_kept b c \<Longrightarrow> jobs_kept a c"
  by (auto simp: jobs_kept_def)

lemma replay_served_kept: "jobs_kept db db' \<Longrightarrow> replay_served env e s db \<Longrightarrow> replay_served env e s db'"
  unfolding jobs_kept_def replay_served_def by (meson subsetD)

lemma replay_subscription_effect:
  assumes "replay_subscription env now sel e ('':replay:'' @ nonce) s db = Inr db'"
    and "\<not> IsInternalPublished (ee_published env) (ev_type e)"
  shows "same_registry db db' \<and> jobs_kept db db' \<and> (replay_owed env sel e s \<longrightarrow> replay_served env e s db')"
proof -
  have "same_registry db db' \<and> jobs_kept db db' \<and> replay_served env e s db'"
    if enq: "enqueueOne env now (delivery env e s (delivery_key e s @ '':replay:'' @ nonce)) db = Inr db'"
  proof -
    obtain sp available_at where sp: "prepareJobEnqueue (ee_penv env) (delivery env e s (delivery_key e s @ '':replay:'' @ nonce)) = Inr (sp, available_at)"
      "ed_jobs db' = ed_jobs db \<or>
       ed_jobs db' = insert_message (new_row now (ee_fresh env (ed_ids db)) (ed_job_seq db) sp available_at) (ed_jobs db)"
      "\<exists>m \<in> set (job_messages (ed_jobs db')). same_idempotency (jm_spec m) sp \<and>
         js_request_fingerprint (jm_spec m) = js_request_fingerprint sp" "same_registry db db'"
      by (rule enqueueOne_E [OF enq])
    then show ?thesis by (auto simp: replay_served_def jobs_kept_def insert_message_def)
  qed
  then show ?thesis
    using assms(1) by (auto simp: replay_subscription_def replay_owed_def split: if_splits sum.splits)
qed

lemma replay_subscriptions_effect:
  assumes "replay_subscriptions env now sel e ('':replay:'' @ nonce) ss db = Inr db'"
    and "\<not> IsInternalPublished (ee_published env) (ev_type e)"
  shows "same_registry db db' \<and> jobs_kept db db' \<and>
    (\<forall>s \<in> set ss. replay_owed env sel e s \<longrightarrow> replay_served env e s db')"
  using assms(1)
proof (induction ss arbitrary: db)
  case (Cons s ss)
  then obtain db1 where one: "replay_subscription env now sel e ('':replay:'' @ nonce) s db = Inr db1"
    and more: "replay_subscriptions env now sel e ('':replay:'' @ nonce) ss db1 = Inr db'"
    by (auto simp: rbind_eq_Inr)
  show ?case
    using replay_subscription_effect [OF one assms(2)] Cons.IH [OF more] same_registry_trans jobs_kept_trans replay_served_kept
    by (metis set_ConsD)
qed simp

lemma replay_events_effect:
  assumes "replay_events env now sel ss es db = Inr db'"
  shows "same_registry db db' \<and> jobs_kept db db' \<and>
    (\<forall>e \<in> set es. \<forall>s \<in> set ss. replay_owed env sel e s \<longrightarrow> replay_served env e s db')"
  using assms
proof (induction es arbitrary: db)
  case (Cons e es)
  then obtain db1 where one: "replay_event env now sel ss e db = Inr db1"
    and more: "replay_events env now sel ss es db1 = Inr db'"
    by (auto simp: rbind_eq_Inr)
  have first: "same_registry db db1 \<and> jobs_kept db db1 \<and> (\<forall>s \<in> set ss. replay_owed env sel e s \<longrightarrow> replay_served env e s db1)"
  proof (cases "IsInternalPublished (ee_published env) (ev_type e)")
    case True
    then show ?thesis using one by (simp add: replay_event_def replay_owed_def)
  next
    case False
    then have "replay_subscriptions env now sel e ('':replay:'' @ ee_fresh env (ed_ids db)) ss (draw_id db) = Inr db1"
      using one by (simp add: replay_event_def)
    from replay_subscriptions_effect [OF this False] show ?thesis
      using same_registry_trans [OF same_registry_draw_id] by simp
  qed
  note rest = Cons.IH [OF more]
  have "replay_served env x s db'" if "x \<in> set (e # es)" "s \<in> set ss" "replay_owed env sel x s" for x s
    using that first rest replay_served_kept by (cases "x = e") auto
  then show ?case using first rest same_registry_trans jobs_kept_trans by blast
qed simp

lemma live_all_registry:
  assumes "same_registry db db'"
  shows "live_all db' = live_all db"
proof -
  have "endpoint_active db' = endpoint_active db"
    using assms by (simp add: fun_eq_iff endpoint_active_def same_registry_def)
  then have "subscription_live db' = subscription_live db" by (intro ext) (simp add: subscription_live_def split: option.split)
  then show ?thesis using assms by (simp add: live_all_def same_registry_def)
qed

lemma replayPage_effect:
  assumes "replayPage env now sel page db = Inr db'"
  shows "same_registry db db' \<and> jobs_kept db db' \<and>
    (\<forall>e \<in> set page. \<forall>s \<in> set (live_all db). replay_owed env sel e s \<longrightarrow> replay_served env e s db')"
proof -
  have effect: "same_registry db db' \<and> jobs_kept db db' \<and>
      (\<forall>e \<in> set page. \<forall>s \<in> set (liveSubscriptions (eventTypesOf page) db). replay_owed env sel e s \<longrightarrow> replay_served env e s db')"
    using assms unfolding replayPage_def by (rule replay_events_effect)
  have "s \<in> set (liveSubscriptions (eventTypesOf page) db)"
    if "e \<in> set page" "s \<in> set (live_all db)" "replay_owed env sel e s" for e s
  proof -
    have "ev_type e \<in> set (eventTypesOf page)" using that(1) by (simp add: eventTypesOf_def)
    note eq = arg_cong [OF liveSubscriptions_matching [OF this, of db], of set]
    have "s \<in> set (filter (\<lambda>s. Matches (sub_TypePattern s) (ev_type e)) (live_all db))"
      using that(2,3) by (simp add: replay_owed_def)
    then show ?thesis unfolding eq [symmetric] by simp
  qed
  then show ?thesis using effect by blast
qed

section \<open>All pages\<close>

abbreviation selection :: "replay_selector \<Rightarrow> nat \<Rightarrow> event_db \<Rightarrow> event_row list" where
  "selection sel cursor db \<equiv> sort_key er_seq (filter (replay_selects sel cursor) (ed_events db))"

lemma selection_rest:
  assumes "distinct (map er_seq (ed_events db))" "0 < n" "n \<le> length (selection sel cursor db)"
  shows "selection sel (er_seq (last (take n (selection sel cursor db)))) db = drop n (selection sel cursor db)"
proof -
  let ?xs = "selection sel cursor db"
  let ?c = "last (take n ?xs)"
  have "take n ?xs \<noteq> []" using assms(2,3) by (metis less_le_trans list.size(3) not_less_zero take_eq_Nil)
  then have "?c \<in> set ?xs" by (meson last_in_set in_set_takeD)
  then have "replay_selects sel (er_seq ?c) r \<longleftrightarrow> replay_selects sel cursor r \<and> er_seq ?c < er_seq r" for r
    by (auto simp: replay_selects_def)
  then have "selection sel (er_seq ?c) db = filter (\<lambda>r. er_seq ?c < er_seq r) ?xs"
    by (simp add: filter_sort conj_commute cong: filter_cong)
  also have "\<dots> = filter (\<lambda>r. - int (er_seq r) < - int (er_seq ?c)) ?xs" by simp
  also have "\<dots> = drop n ?xs"
  proof (rule filter_below_nth [OF _ assms(2,3)])
    have "distinct (map er_seq (filter (replay_selects sel cursor) (ed_events db)))"
      using assms(1) by (rule distinct_map_filter)
    then have "sorted_wrt (<) (map er_seq ?xs)" by (simp add: strict_sorted_iff distinct_map)
    then show "sorted_wrt (\<lambda>a b. - int (er_seq b) < - int (er_seq a)) ?xs" by (simp add: sorted_wrt_map)
  qed
  finally show ?thesis .
qed

lemma replay_pages_total:
  assumes "\<And>n. fst (contexts n) = env" "distinct (map er_seq (ed_events db))" "0 < limit"
    and "length (selection sel cursor db) < fuel"
  shows "\<exists>replayed err db'. replay_pages fuel limit contexts (\<lambda>_ d. d) sel cursor m db = Some (replayed, err, db') \<and>
    same_registry db db' \<and> jobs_kept db db' \<and> replayed \<le> m + length (selection sel cursor db) \<and>
    (err = None \<longrightarrow> replayed = m + length (selection sel cursor db) \<and>
       (\<forall>r \<in> set (selection sel cursor db). \<forall>s \<in> set (live_all db).
          replay_owed env sel (scanDomainEvent r) s \<longrightarrow> replay_served env (scanDomainEvent r) s db'))"
  using assms(2,4)
proof (induction fuel arbitrary: cursor m db)
  case (Suc fuel)
  define xs where "xs = selection sel cursor db"
  have rows: "replayDomainEvents limit sel cursor db = take limit xs"
    by (simp add: replayDomainEvents_def select_ordered_def xs_def)
  show ?case
  proof (cases "xs = []")
    case True
    then show ?thesis by (simp add: rows flip: xs_def)
  next
    case False
    let ?page = "map scanDomainEvent (take limit xs)"
    show ?thesis
    proof (cases "replayPage (fst (contexts fuel)) (snd (contexts fuel)) sel ?page db")
      case (Inl err)
      then show ?thesis using False assms(3) by (simp add: rows Let_def flip: xs_def)
    next
      case (Inr db1)
      then have page: "replayPage env (snd (contexts fuel)) sel ?page db = Inr db1" using assms(1) by simp
      note effect = replayPage_effect [OF page]
      show ?thesis
      proof (cases "length xs < limit")
        case True
        then show ?thesis
          using False assms(3) Inr effect by (simp add: rows Let_def flip: xs_def)
      next
        case more: False
        let ?c = "er_seq (last (take limit xs))"
        have reg: "same_registry db db1" using effect by blast
        then have same: "ed_events db1 = ed_events db" by (simp add: same_registry_def)
        note live = live_all_registry [OF reg]
        have rest: "selection sel ?c db1 = drop limit xs"
          unfolding same using selection_rest [OF Suc.prems(1) assms(3), of sel cursor, folded xs_def] more by simp
        have "length xs < Suc fuel" using Suc.prems(2) by (simp only: xs_def)
        then have len: "length (selection sel ?c db1) < fuel" unfolding rest using assms(3) more by simp
        have dist: "distinct (map er_seq (ed_events db1))" using Suc.prems(1) same by simp
        obtain replayed err db' where
          run: "replay_pages fuel limit contexts (\<lambda>_ d. d) sel ?c (m + limit) db1 = Some (replayed, err, db')"
          and out: "same_registry db1 db'" "jobs_kept db1 db'" "replayed \<le> m + limit + length (drop limit xs)"
            "err = None \<longrightarrow> replayed = m + limit + length (drop limit xs) \<and>
              (\<forall>r \<in> set (drop limit xs). \<forall>s \<in> set (live_all db1).
                 replay_owed env sel (scanDomainEvent r) s \<longrightarrow> replay_served env (scanDomainEvent r) s db')"
          using Suc.IH [OF dist len, of "m + limit", unfolded rest] by blast
        have step: "replay_pages (Suc fuel) limit contexts (\<lambda>_ d. d) sel cursor m db = Some (replayed, err, db')"
          using False assms(3) Inr more run by (auto simp: rows Let_def min_def)
        have "replay_served env (scanDomainEvent r) s db'"
          if "err = None" "r \<in> set xs" "s \<in> set (live_all db)" "replay_owed env sel (scanDomainEvent r) s" for r s
        proof (cases "r \<in> set (take limit xs)")
          case True
          then have "replay_served env (scanDomainEvent r) s db1" using effect that(3,4) by simp
          then show ?thesis by (rule replay_served_kept [OF out(2)])
        next
          case False
          then have "r \<in> set (drop limit xs)" using that(2) by (metis Un_iff append_take_drop_id set_append)
          then show ?thesis using out(4) that live by simp
        qed
        moreover have "same_registry db db'" "jobs_kept db db'"
          using effect out(1,2) same_registry_trans jobs_kept_trans by blast+
        ultimately show ?thesis using step out(3,4) more by (simp flip: xs_def)
      qed
    qed
  qed
qed simp


end
