(* ===== verification/Event_Examples.thy ===== *)
theory Event_Examples
  imports Event_Replays Job_Examples
begin

text \<open>
  A concrete outbox with two events of one partition, an ordered module subscription and a webhook
  endpoint, on which the theorems on events are instantiated.
\<close>

definition ev_env :: event_env where
  "ev_env = \<lparr>ee_penv = ex_penv, ee_jenv = ex_env, ee_published = [], ee_fresh = (\<lambda>n. replicate n CHR ''i''),
     ee_marshal = (\<lambda>e. Some (ev_id e @ ev_data e)), ee_sha256 = (\<lambda>s. take 32 (s @ replicate 32 CHR ''x'')),
     ee_format_time = (\<lambda>t. replicate (nat \<bar>t\<bar>) (if t < 0 then CHR ''-'' else CHR ''+'')),
     ee_parse_time = (\<lambda>s. Some (if CHR ''-'' \<in> set s then - int (length s) else int (length s))),
     ee_json_payload = (\<lambda>p. Some (wp_EventID p @ wp_DeliveryID p)), ee_marshal_outbound = ob_raw_body,
     ee_unmarshal_outbound = (\<lambda>_. None), ee_valid_outbound = (\<lambda>_. True), ee_valid_enqueue = (\<lambda>_. True),
     ee_valid_envelope = (\<lambda>_. True), ee_dispatcher = True\<rparr>"

definition ev_row :: "string \<Rightarrow> nat \<Rightarrow> event_row" where
  "ev_row i n = \<lparr>er_id = i, er_seq = n, er_type = ''m.a'', er_source = ''m'', er_subject = [], er_event_time = Some 5000,
     er_specversion = ''1.0'', er_datacontenttype = [], er_dataschema = [], er_data = ''d'', er_tenant_id = Some ''o1'',
     er_boundary_id = [], er_partition_key = ''k'', er_correlation_id = [], er_causation_id = [],
     er_actor_principal_id = [], er_owner_principal_id = [], er_traceparent = [], er_schema_version = 1,
     er_request_fingerprint = ''f'', er_published_at = None, er_created_at = 1, er_relay_attempts = 0,
     er_last_relay_error = [], er_dead_lettered_at = None\<rparr>"

definition ev_module :: event_subscription_row where
  "ev_module = \<lparr>es_id = ''s1'', es_subscriber_principal_id = Some ''p1'', es_type_pattern = ''m.*'', es_queue = ''q'',
     es_delivery = ''ordered'', es_created_by = None, es_created_at = 0, es_revoked_at = None, es_org_id = None,
     es_webhook_subscription_id = None\<rparr>"

definition ev_hook :: event_subscription_row where
  "ev_hook = \<lparr>es_id = ''s2'', es_subscriber_principal_id = None, es_type_pattern = ''m.a'', es_queue = ''webhooks'',
     es_delivery = ''webhook'', es_created_by = None, es_created_at = 0, es_revoked_at = None, es_org_id = Some ''o1'',
     es_webhook_subscription_id = Some ''w1''\<rparr>"

definition ev_endpoint :: webhook_endpoint where
  "ev_endpoint = \<lparr>we_id = ''w1'', we_org_id = ''o1'', we_url = ''u'', we_secret_encrypted = ''s'',
     we_previous_secret_encrypted = None, we_previous_secret_expires_at = None, we_events = [''m.a''],
     we_description = [], we_active = True, we_created_at = 0, we_updated_at = 0\<rparr>"

definition ev_db :: event_db where
  "ev_db = \<lparr>ed_events = [ev_row ''e1'' 2, ev_row ''e2'' 3], ed_subscriptions = [ev_module, ev_hook],
     ed_endpoints = [ev_endpoint], ed_deliveries = [], ed_audit_event_types = [(''m.a'', ''external'')],
     ed_jobs = empty_db, ed_trail = [], ed_event_seq = 4, ed_job_seq = 1, ed_ids = 1\<rparr>"

lemma ev_ok: "outbox_ok ev_db" "sequenced ev_db"
  by (simp_all add: outbox_ok_def subscriber_kinds_def sequenced_def ev_db_def ev_row_def ev_module_def ev_hook_def)

lemma publishes_only_refl: "outbox_ok db \<Longrightarrow> publishes_only db db" "outbox_ok db \<Longrightarrow> publishes_after db db"
  by (simp_all add: publishes_only_def publishes_after_def)

section \<open>Fan-out\<close>

lemma enqueueOne_fresh:
  assumes "prepareJobEnqueue (ee_penv env) job = Inr (sp, available_at)"
    and "js_attributes sp ''codefly.installation_id'' = None"
    and "\<forall>m \<in> set (job_messages (ed_jobs db)). \<not> same_idempotency (jm_spec m) sp"
  shows "enqueueOne env now job db =
    Inr (db\<lparr>ed_jobs := insert_message (new_row now (ee_fresh env (ed_ids db)) (ed_job_seq db) sp available_at) (ed_jobs db),
            ed_ids := Suc (ed_ids db), ed_job_seq := Suc (ed_job_seq db)\<rparr>)"
proof -
  have "select_first (\<lambda>m. same_idempotency (jm_spec m) sp) (job_messages (ed_jobs db)) = None"
    using assms(3) by (simp add: select_first_None)
  moreover have "may_enqueue worker_session sp" by (simp add: may_enqueue_def worker_session_def)
  ultimately show ?thesis
    using assms(1,2)
    by (simp add: enqueueOne_def enqueue_in_def EnqueueJob_def enqueuePreparedJob_def insertPreparedJob_def
        enqueue_response_def enqueue_job_message_def insert_or_find_def coalesce_def)
qed

lemma ev_env_simps [simp]:
  "ee_penv ev_env = ex_penv" "ee_jenv ev_env = ex_env" "ee_published ev_env = []" "ee_dispatcher ev_env"
  "ee_valid_outbound ev_env o'" "ee_valid_enqueue ev_env j" "ee_fresh ev_env n = replicate n CHR ''i''"
  "ee_json_payload ev_env p = Some (wp_EventID p @ wp_DeliveryID p)"
  by (simp_all add: ev_env_def)

lemma ev_keys:
  "CanonicalOrderingKey (valid_key ex_penv) (Some \<lparr>ok_namespace = ''events'', ok_components = [''k'']\<rparr>) = Inr ''events:aw''"
  "CanonicalOrderingKey (valid_key ex_penv) (Some \<lparr>ok_namespace = ''webhook_subscription'', ok_components = [''w1'']\<rparr>) = Inr ''webhook_subscription:dzE''"
  by (simp_all add: CanonicalOrderingKey_def base64_letters_def base64_quantum_def base64_letter_def
      base64_url_alphabet_def ex_penv_def)

lemma ev_enqueue:
  assumes "nj_scope job = Some (ScopeOrganization ''o1'')" "nj_max_attempts job = 5" "nj_direction job = INBOX \<or> nj_direction job = OUTBOX"
    and "CanonicalOrderingKey (valid_key ex_penv) (nj_ordering job) = Inr k"
    and "nj_attributes job ''codefly.installation_id'' = None"
    and "\<forall>m \<in> set (job_messages (ed_jobs db)). js_idempotency_key (jm_spec m) \<noteq> nj_idempotency_key job"
  shows "\<exists>jobs m. enqueueOne ev_env now job db = Inr (db\<lparr>ed_jobs := jobs, ed_ids := Suc (ed_ids db), ed_job_seq := Suc (ed_job_seq db)\<rparr>) \<and>
    job_messages jobs = job_messages (ed_jobs db) @ [m] \<and> js_idempotency_key (jm_spec m) = nj_idempotency_key job"
proof -
  obtain sp where sp: "prepareJobEnqueue (ee_penv ev_env) job = Inr (sp, nj_available_at job)"
    "js_attributes sp = nj_attributes job" "js_idempotency_key sp = nj_idempotency_key job"
    using assms(1-4) by (auto simp: prepareJobEnqueue_def ex_penv_def DatabaseDirection_def enqueueScopeValues_def)
  have "enqueueOne ev_env now job db =
    Inr (db\<lparr>ed_jobs := insert_message (new_row now (ee_fresh ev_env (ed_ids db)) (ed_job_seq db) sp (nj_available_at job)) (ed_jobs db),
            ed_ids := Suc (ed_ids db), ed_job_seq := Suc (ed_job_seq db)\<rparr>)"
    by (rule enqueueOne_fresh [OF sp(1)]) (use assms(5,6) sp(2,3) in \<open>auto simp: same_idempotency_def\<close>)
  then show ?thesis
    using sp(3) by (auto simp: insert_message_def new_row_def)
qed

lemma ev_scan:
  "scanDomainEvent (ev_row i n) = \<lparr>ev_id = i, ev_type = ''m.a'', ev_source = ''m'', ev_subject = [], ev_time = Some 5000,
     ev_specversion = ''1.0'', ev_datacontenttype = [], ev_dataschema = [], ev_data = ''d'', ev_tenant_id = ''o1'',
     ev_boundary_id = [], ev_partition_key = ''k'', ev_correlation_id = [], ev_causation_id = [],
     ev_actor_principal_id = [], ev_owner_principal_id = [], ev_traceparent = [], ev_schema_version = 1\<rparr>"
  by (simp add: scanDomainEvent_def ev_row_def coalesce_def)

lemma ev_live: "liveSubscriptions [''m.a''] ev_db = [scan_subscription ev_module, scan_subscription ev_hook]"
  by (simp add: liveSubscriptions_def ev_db_def subscription_live_def ev_module_def ev_hook_def endpoint_active_def
      ev_endpoint_def like_wildcard_def)

lemma ev_matches: "Matches ''m.*'' ''m.a''" "Matches ''m.a'' ''m.a''"
  by (simp_all add: Matches_def trailingWildcard_def hasDotPrefix_def)

lemma ev_attributes: "eventAttributes ev_env (scanDomainEvent (ev_row i n)) ''codefly.installation_id'' = None"
  by (simp add: eventAttributes_def event_text_attributes_def put_attribute_def ev_scan)

text \<open>The module's job, the endpoint's delivery, and both for a fresh event.\<close>

lemma ev_module_relayed:
  assumes "\<forall>m \<in> set (job_messages (ed_jobs db)). js_idempotency_key (jm_spec m) \<noteq> i @ '':s1''"
  shows "\<exists>jobs m. relay_subscription ev_env now (scanDomainEvent (ev_row i n)) external (scan_subscription ev_module) db =
      Inr (db\<lparr>ed_jobs := jobs, ed_ids := Suc (ed_ids db), ed_job_seq := Suc (ed_job_seq db)\<rparr>) \<and>
    job_messages jobs = job_messages (ed_jobs db) @ [m] \<and> js_idempotency_key (jm_spec m) = i @ '':s1''"
proof -
  let ?e = "scanDomainEvent (ev_row i n)" and ?s = "scan_subscription ev_module"
  let ?job = "delivery ev_env ?e ?s (delivery_key ?e ?s)"
  have job: "nj_scope ?job = Some (ScopeOrganization ''o1'')" "nj_max_attempts ?job = 5" "nj_direction ?job = INBOX"
    "nj_ordering ?job = Some \<lparr>ok_namespace = ''events'', ok_components = [''k'']\<rparr>" "nj_idempotency_key ?job = i @ '':s1''"
    "nj_attributes ?job = eventAttributes ev_env ?e"
    by (simp_all add: delivery_def ev_scan eventScope_def eventDeliveryMaxAttempts_def scan_subscription_def ev_module_def
        eventOrdering_def delivery_key_def)
  have "sub_TypePattern ?s = ''m.*''" "sub_Delivery ?s = ''ordered''" "ev_type ?e = ''m.a''"
    by (simp_all add: scan_subscription_def ev_module_def ev_scan)
  moreover have "Namespace ''m.a'' \<noteq> PlatformAuditNamespace" by (simp add: Namespace_def PlatformAuditNamespace_def)
  ultimately show ?thesis
    using ev_enqueue [of ?job _ db now] job ev_keys(1) ev_attributes assms ev_matches(1)
    by (auto simp: relay_subscription_def)
qed

lemma ev_hook_relayed:
  assumes "\<forall>m \<in> set (job_messages (ed_jobs db)). js_idempotency_key (jm_spec m) \<noteq> replicate (ed_ids db) CHR ''i''"
    and "ed_deliveries db = []" "ed_endpoints db = [ev_endpoint]" "i \<noteq> []"
  shows "\<exists>jobs d. relay_subscription ev_env now (scanDomainEvent (ev_row i n)) True (scan_subscription ev_hook) db =
      Inr (db\<lparr>ed_deliveries := [d], ed_jobs := jobs, ed_ids := Suc (Suc (ed_ids db)), ed_job_seq := Suc (ed_job_seq db)\<rparr>)"
proof -
  let ?e = "scanDomainEvent (ev_row i n)" and ?s = "scan_subscription ev_hook"
  let ?i = "replicate (ed_ids db) CHR ''i''"
  let ?d = "pending_delivery now ?i ''w1'' i i ''m.a'' (i @ ?i)"
  let ?db = "(draw_id db)\<lparr>ed_deliveries := [?d]\<rparr>"
  let ?job = "outbound_request ev_env ''o1'' ?d (i @ ?i)"
  have job: "nj_scope ?job = Some (ScopeOrganization ''o1'')" "nj_max_attempts ?job = 5" "nj_direction ?job = OUTBOX"
    "nj_ordering ?job = Some \<lparr>ok_namespace = ''webhook_subscription'', ok_components = [''w1'']\<rparr>" "nj_idempotency_key ?job = ?i"
    "nj_attributes ?job = Map.empty"
    by (simp_all add: outbound_request_def OutboundWebhookMaxAttempts_def webhook_ordering_def webhookOrderingNamespace_def
        pending_delivery_def)
  have create: "CreateWebhookDelivery worker_session ?d (draw_id db) = Inr ?db"
    using assms(2-4) by (simp add: CreateWebhookDelivery_def pending_delivery_def worker_session_def draw_id_def ev_endpoint_def)
  have fresh: "\<forall>m \<in> set (job_messages (ed_jobs ?db)). js_idempotency_key (jm_spec m) \<noteq> nj_idempotency_key ?job"
    using assms(1) job(5) by (simp add: draw_id_def)
  have key: "CanonicalOrderingKey (valid_key ex_penv) (nj_ordering ?job) = Inr ''webhook_subscription:dzE''"
    using ev_keys(2) job(4) by simp
  have "nj_attributes ?job ''codefly.installation_id'' = None" using job(6) by simp
  then obtain jobs where "enqueueOne ev_env now ?job ?db =
      Inr (?db\<lparr>ed_jobs := jobs, ed_ids := Suc (ed_ids ?db), ed_job_seq := Suc (ed_job_seq ?db)\<rparr>)"
    using ev_enqueue [OF job(1,2) _ key _ fresh] job(3) by blast
  then have sent: "deliverOn ev_env now ?d ?job (draw_id db) =
      Inr (db\<lparr>ed_deliveries := [?d], ed_jobs := jobs, ed_ids := Suc (Suc (ed_ids db)), ed_job_seq := Suc (ed_job_seq db)\<rparr>)"
    unfolding deliverOn_def create by (simp add: draw_id_def)
  have s: "sub_TypePattern ?s = ''m.a''" "sub_Delivery ?s = ''webhook''" "sub_OrgID ?s = ''o1''" "sub_WebhookSubscriptionID ?s = ''w1''"
    by (simp_all add: scan_subscription_def ev_hook_def coalesce_def)
  have e: "ev_type ?e = ''m.a''" "ev_tenant_id ?e = ''o1''" "ev_id ?e = i" by (simp_all add: ev_scan)
  have "NewDomainEventWebhookDelivery ev_env now ?i i ''m.a'' ''w1'' (event_occurred ?e) (ev_data ?e) = Inr (?d, i @ ?i)"
    by (simp add: NewDomainEventWebhookDelivery_def)
  then have "Deliver ev_env now ?e ?s db = Inr (WebhookDelivered,
      db\<lparr>ed_deliveries := [?d], ed_jobs := jobs, ed_ids := Suc (Suc (ed_ids db)), ed_job_seq := Suc (ed_job_seq db)\<rparr>)"
    using sent s e by (simp add: Deliver_def newOutboundWebhookJob_def Let_def)
  then have "relay_subscription ev_env now ?e True ?s db =
      Inr (db\<lparr>ed_deliveries := [?d], ed_jobs := jobs, ed_ids := Suc (Suc (ed_ids db)), ed_job_seq := Suc (ed_job_seq db)\<rparr>)"
    using s e ev_matches(2) by (simp add: relay_subscription_def relayToWebhook_def)
  then show ?thesis by blast
qed

lemma ev_relayed: "\<exists>db'. relayEvent ev_env 10 (scanDomainEvent (ev_row ''e1'' 2)) (liveSubscriptions [''m.a''] ev_db) ev_db = Inr db'"
proof -
  let ?e = "scanDomainEvent (ev_row ''e1'' 2)"
  have "\<forall>m \<in> set (job_messages (ed_jobs ev_db)). js_idempotency_key (jm_spec m) \<noteq> ''e1'' @ '':s1''"
    by (simp add: ev_db_def empty_db_def)
  then obtain jobs m where one: "relay_subscription ev_env 10 ?e True (scan_subscription ev_module) ev_db =
      Inr (ev_db\<lparr>ed_jobs := jobs, ed_ids := Suc (ed_ids ev_db), ed_job_seq := Suc (ed_job_seq ev_db)\<rparr>)"
    and m: "job_messages jobs = job_messages (ed_jobs ev_db) @ [m]" "js_idempotency_key (jm_spec m) = ''e1'' @ '':s1''"
    using ev_module_relayed by blast
  let ?db = "ev_db\<lparr>ed_jobs := jobs, ed_ids := Suc (ed_ids ev_db), ed_job_seq := Suc (ed_job_seq ev_db)\<rparr>"
  have "\<forall>m \<in> set (job_messages (ed_jobs ?db)). js_idempotency_key (jm_spec m) \<noteq> replicate (ed_ids ?db) CHR ''i''"
    using m by (simp add: ev_db_def empty_db_def numeral_2_eq_2)
  then obtain jobs' d where two: "relay_subscription ev_env 10 ?e True (scan_subscription ev_hook) ?db =
      Inr (?db\<lparr>ed_deliveries := [d], ed_jobs := jobs', ed_ids := Suc (Suc (ed_ids ?db)), ed_job_seq := Suc (ed_job_seq ?db)\<rparr>)"
    using ev_hook_relayed [of ?db "''e1''" 10 2] by (auto simp: ev_db_def)
  have ext: "externallyDeliverable ev_env ev_db (ev_type ?e) = True"
    by (simp add: externallyDeliverable_def ev_db_def ev_scan select_first_def)
  have "relay_subscriptions ev_env 10 ?e True [scan_subscription ev_module, scan_subscription ev_hook] ev_db =
      Inr (?db\<lparr>ed_deliveries := [d], ed_jobs := jobs', ed_ids := Suc (Suc (ed_ids ?db)), ed_job_seq := Suc (ed_job_seq ?db)\<rparr>)"
    unfolding relay_subscriptions.simps one rbind_simps two by simp
  then show ?thesis
    unfolding relayEvent_def ext ev_live by (simp add: IsInternalPublished_def LookupPublished_def select_first_def)
qed


section \<open>A drain\<close>

definition ev_ctx :: batch_context where
  "ev_ctx = \<lparr>bc_env = ev_env, bc_now = 10, bc_nack = (\<lambda>_. []), bc_locked = (\<lambda>_. False), bc_deleted = (\<lambda>_. False)\<rparr>"

definition ev_queue :: event_db where
  "ev_queue = ev_db\<lparr>ed_subscriptions := [ev_module]\<rparr>"

lemma ev_queue_ok: "outbox_ok ev_queue"
  by (simp add: outbox_ok_def subscriber_kinds_def ev_queue_def ev_db_def ev_row_def ev_module_def)

lemma ev_published:
  assumes "\<forall>m \<in> set (job_messages (ed_jobs db)). js_idempotency_key (jm_spec m) \<noteq> i @ '':s1''"
  shows "\<exists>jobs m. relay_one ev_env (\<lambda>_. []) 10 [scan_subscription ev_module] (scanDomainEvent (ev_row i n)) (p, \<lparr>dr_failed = [], dr_blocked = []\<rparr>, db) =
      (Suc p, \<lparr>dr_failed = [], dr_blocked = []\<rparr>, mark_published 10 i
         (db\<lparr>ed_jobs := jobs, ed_ids := Suc (ed_ids db), ed_job_seq := Suc (ed_job_seq db)\<rparr>)) \<and>
    job_messages jobs = job_messages (ed_jobs db) @ [m] \<and> js_idempotency_key (jm_spec m) = i @ '':s1''"
proof -
  let ?e = "scanDomainEvent (ev_row i n)"
  obtain jobs m where one: "relay_subscription ev_env 10 ?e (externallyDeliverable ev_env db (ev_type ?e)) (scan_subscription ev_module) db =
      Inr (db\<lparr>ed_jobs := jobs, ed_ids := Suc (ed_ids db), ed_job_seq := Suc (ed_job_seq db)\<rparr>)"
    and m: "job_messages jobs = job_messages (ed_jobs db) @ [m]" "js_idempotency_key (jm_spec m) = i @ '':s1''"
    using ev_module_relayed [OF assms(1)] by blast
  have "\<not> IsInternalPublished (ee_published ev_env) (ev_type ?e)" "ev_id ?e = i"
    by (simp_all add: ev_scan IsInternalPublished_def LookupPublished_def select_first_def)
  then have "relayEvent ev_env 10 ?e [scan_subscription ev_module] db =
      Inr (mark_published 10 i (db\<lparr>ed_jobs := jobs, ed_ids := Suc (ed_ids db), ed_job_seq := Suc (ed_job_seq db)\<rparr>))"
    using one by (simp add: relayEvent_def)
  then show ?thesis using m by (intro exI [of _ jobs] exI [of _ m]) (simp add: relay_one_def)
qed

lemma ev_drained:
  "\<exists>db'. RelayOnce (\<lambda>_. ev_ctx) (\<lambda>_ d. d) ev_queue = (2, db') \<and> ed_subscriptions db' = [ev_module] \<and>
     ed_events db' = [(ev_row ''e1'' 2)\<lparr>er_published_at := Some 10\<rparr>, (ev_row ''e2'' 3)\<lparr>er_published_at := Some 10\<rparr>]"
proof -
  let ?start = "\<lparr>dr_failed = [], dr_blocked = []\<rparr>"
  let ?e1 = "scanDomainEvent (ev_row ''e1'' 2)" and ?e2 = "scanDomainEvent (ev_row ''e2'' 3)"
  let ?relay = "relay_one ev_env (\<lambda>_. []) 10 [scan_subscription ev_module]"
  have "\<forall>m \<in> set (job_messages (ed_jobs ev_queue)). js_idempotency_key (jm_spec m) \<noteq> ''e1'' @ '':s1''"
    by (simp add: ev_queue_def ev_db_def empty_db_def)
  then obtain db1 m where one: "?relay ?e1 (0, ?start, ev_queue) = (Suc 0, ?start, db1)"
    and db1: "job_messages (ed_jobs db1) = [m]" "js_idempotency_key (jm_spec m) = ''e1'' @ '':s1''" "ed_subscriptions db1 = [ev_module]"
      "ed_events db1 = [(ev_row ''e1'' 2)\<lparr>er_published_at := Some 10\<rparr>, ev_row ''e2'' 3]"
    using ev_published [of ev_queue "''e1''" 2 0]
    by (fastforce simp: mark_published_def ev_queue_def ev_db_def empty_db_def ev_row_def)
  then have "\<forall>m \<in> set (job_messages (ed_jobs db1)). js_idempotency_key (jm_spec m) \<noteq> ''e2'' @ '':s1''" by simp
  then obtain db2 where two: "?relay ?e2 (Suc 0, ?start, db1) = (2, ?start, db2)"
    and db2: "ed_subscriptions db2 = [ev_module]"
      "ed_events db2 = [(ev_row ''e1'' 2)\<lparr>er_published_at := Some 10\<rparr>, (ev_row ''e2'' 3)\<lparr>er_published_at := Some 10\<rparr>]"
    using ev_published [of db1 "''e2''" 3 "Suc 0"] db1(3,4)
    by (fastforce simp: mark_published_def ev_row_def numeral_2_eq_2)
  have pending: "relaySelectUnpublished (\<lambda>_. False) [] ev_queue = [ev_row ''e1'' 2, ev_row ''e2'' 3]"
    by (simp add: relaySelectUnpublished_def select_ordered_def ev_queue_def ev_db_def ev_row_def relayBatchSize_def)
  have live: "liveSubscriptions (eventTypesOf [?e1, ?e2]) ev_queue = [scan_subscription ev_module]"
    by (simp add: eventTypesOf_def ev_scan liveSubscriptions_def ev_queue_def ev_db_def subscription_live_def ev_module_def like_wildcard_def)
  have kept: "delete_endpoints (\<lambda>_. False) ev_queue = ev_queue"
    by (simp add: delete_endpoints_def ev_queue_def ev_db_def ev_module_def)
  have batch: "relayBatch ev_ctx ?start ev_queue = (2, ?start, db2)"
    using one two by (simp add: relayBatch_def ev_ctx_def pending live kept Let_def)
  have "relaySelectUnpublished (\<lambda>_. False) [] db2 = []"
    using db2 by (simp add: relaySelectUnpublished_def select_ordered_def ev_row_def)
  then have idle: "relayBatch ev_ctx ?start db2 = (0, ?start, db2)"
    by (simp add: relayBatch_def ev_ctx_def Let_def)
  have "relay_batches (\<lambda>_. ev_ctx) (\<lambda>_ d. d) (Suc (Suc k)) 0 ?start ev_queue = (2, ?start, db2)" for k
    by (simp add: batch idle)
  from this [of 18] have "relay_batches (\<lambda>_. ev_ctx) (\<lambda>_ d. d) (Suc (Suc 18)) 0 ?start ev_queue = (2, ?start, db2)" .
  moreover have "relayMaxBatchesPerDrain = Suc (Suc 18)" by (simp add: relayMaxBatchesPerDrain_def)
  ultimately show ?thesis using db2 by (simp add: RelayOnce_def)
qed


theorem relay_charges_at_most_once_witness:
  "\<exists>db' r'. RelayOnce (\<lambda>_. ev_ctx) (\<lambda>_ d. d) ev_queue = (2, db') \<and> r' \<in> set (ed_events db') \<and> er_id r' = ''e1'' \<and>
    (er_relay_attempts r' = 0 \<or> er_relay_attempts r' = 1 \<and> er_published_at r' = None)"
proof -
  obtain db' where db': "RelayOnce (\<lambda>_. ev_ctx) (\<lambda>_ d. d) ev_queue = (2, db')" using ev_drained by blast
  have "ev_row ''e1'' 2 \<in> set (ed_events ev_queue)" by (simp add: ev_queue_def ev_db_def)
  moreover have "\<forall>n d. outbox_ok d \<longrightarrow> publishes_only d ((\<lambda>_ d. d) n d)" by (simp add: publishes_only_refl)
  ultimately obtain r' where "r' \<in> set (ed_events db')" "er_id r' = er_id (ev_row ''e1'' 2)"
    "er_relay_attempts r' = er_relay_attempts (ev_row ''e1'' 2) \<or>
     er_relay_attempts r' = Suc (er_relay_attempts (ev_row ''e1'' 2)) \<and> er_published_at r' = None"
    using relay_charges_at_most_once [OF db' ev_queue_ok] by blast
  then show ?thesis using db' by (intro exI [of _ db'] exI [of _ r']) (simp add: ev_row_def)
qed


section \<open>Publication and replay\<close>

definition ev_new :: event_envelope where
  "ev_new = (scanDomainEvent (ev_row ''e3'' 0))\<lparr>ev_time := Some 5678, ev_schema_version := 0\<rparr>"

definition ev_ses :: db_session where
  "ev_ses = \<lparr>ses_role = ''app_tenant'', ses_org = Some ''o1'', ses_user = Some ''u1''\<rparr>"

lemma ev_new_fields: "ev_new = \<lparr>ev_id = ''e3'', ev_type = ''m.a'', ev_source = ''m'', ev_subject = [], ev_time = Some 5678,
     ev_specversion = ''1.0'', ev_datacontenttype = [], ev_dataschema = [], ev_data = ''d'', ev_tenant_id = ''o1'',
     ev_boundary_id = [], ev_partition_key = ''k'', ev_correlation_id = [], ev_causation_id = [],
     ev_actor_principal_id = [], ev_owner_principal_id = [], ev_traceparent = [], ev_schema_version = 0\<rparr>"
  by (simp add: ev_new_def ev_scan)

lemma ev_row_id [simp]: "er_id (ev_row i n) = i"
  by (simp add: ev_row_def)

lemma ev_publish: "\<exists>db'. Publish ev_env ev_ses 7 ev_new ev_db = Inr db'"
proof -
  have "publishable_source ''m''" "publishableEventType ''m.a''"
    by (simp_all add: publishable_source_def publishableEventType_def lower_letter_def type_char_def decimal_digit_def less_eq_char_def)
  then show ?thesis
    by (simp add: Publish_def ev_new_fields eventFingerprint_def event_core_def ev_env_def insertDomainEvent_def
        domain_event_row_def cast_uuid_def cast_nullable_uuid_def ex_penv_def publish_domain_event_def may_publish_def ev_ses_def
        event_row_admitted_def ev_db_def select_first_def)
qed


theorem consumer_reads_published_event_witness:
  "\<exists>db' r. Publish ev_env ev_ses 7 ev_new ev_db = Inr db' \<and> r \<in> set (ed_events db') \<and> er_id r = ''e3'' \<and>
    (\<forall>s now2 m m2 job. module_job ev_env now2 (scanDomainEvent r) s m \<longrightarrow> jm_spec m2 = jm_spec m \<longrightarrow>
       scanJobEnvelope m2 = Inr job \<longrightarrow> envelopeFromJob ev_env job = ev_new\<lparr>ev_time := Some 5000, ev_schema_version := 1\<rparr>)"
proof -
  obtain db' where db': "Publish ev_env ev_ses 7 ev_new ev_db = Inr db'" using ev_publish by blast
  have stored: "stored_envelope ev_new = ev_new\<lparr>ev_time := Some 5000, ev_schema_version := 1\<rparr>"
    by (simp add: stored_envelope_def ev_new_def pg_timestamp_def eventSchemaVersion_def)
  have i: "ev_id ev_new = ''e3''" by (simp add: ev_new_def ev_scan)
  have "\<forall>t. ee_parse_time ev_env (ee_format_time ev_env t) = Some t" by (simp add: ev_env_def)
  then show ?thesis
    using consumer_reads_published_event [OF db'] db' i unfolding stored
    by (auto simp: ev_db_def ev_row_def ex_penv_def)
qed

definition ev_all :: replay_selector where
  "ev_all = \<lparr>rs_Type = [], rs_TenantID = ''o1'', rs_Since = None, rs_SubscriberPrincipalID = []\<rparr>"


section \<open>Replay leaves out the checks of the relay\<close>

definition ev_legacy :: subscription where
  "ev_legacy = (scan_subscription ev_module)\<lparr>sub_TypePattern := ''saas.*''\<rparr>"

definition ev_foreign_hook :: subscription where
  "ev_foreign_hook = (scan_subscription ev_hook)\<lparr>sub_OrgID := ''o2'', sub_TypePattern := ''saas.*''\<rparr>"

definition ev_audit :: event_envelope where
  "ev_audit = (scanDomainEvent (ev_row ''e4'' 0))\<lparr>ev_type := ''saas.a''\<rparr>"

lemma ev_audit_withheld:
  "relay_subscription ev_env now ev_audit external ev_legacy db = Inr db"
  "relay_subscription ev_env now ev_audit external ev_foreign_hook db = Inr db"
  by (simp_all add: relay_subscription_def relayToWebhook_def ev_legacy_def ev_foreign_hook_def ev_audit_def ev_scan scan_subscription_def
      ev_module_def ev_hook_def Namespace_def PlatformAuditNamespace_def)

lemma ev_audit_replayed:
  assumes "s = ev_legacy \<and> sel = ev_all\<lparr>rs_SubscriberPrincipalID := ''p1''\<rparr> \<or> s = ev_foreign_hook \<and> sel = ev_all"
  shows "\<exists>jobs m. replay_subscription ev_env now sel ev_audit ('':replay:'' @ nonce) s ev_db =
      Inr (ev_db\<lparr>ed_jobs := jobs, ed_ids := Suc (ed_ids ev_db), ed_job_seq := Suc (ed_job_seq ev_db)\<rparr>) \<and> job_messages jobs = [m]"
proof -
  let ?job = "delivery ev_env ev_audit s (delivery_key ev_audit s @ '':replay:'' @ nonce)"
  have e: "ev_type ev_audit = ''saas.a''" "ev_tenant_id ev_audit = ''o1''" "ev_partition_key ev_audit = ''k''"
    by (simp_all add: ev_audit_def ev_scan)
  have "Matches ''saas.*'' ''saas.a''" by (simp add: Matches_def trailingWildcard_def hasDotPrefix_def)
  then have "replay_subscription ev_env now sel ev_audit ('':replay:'' @ nonce) s ev_db =
      (case enqueueOne ev_env now ?job ev_db of Inl err \<Rightarrow> Inl (mapEnqueueError err) | Inr db' \<Rightarrow> Inr db')"
    using assms e by (auto simp: replay_subscription_def ev_all_def ev_legacy_def ev_foreign_hook_def scan_subscription_def
        ev_module_def coalesce_def)
  moreover have "\<exists>k. CanonicalOrderingKey (valid_key ex_penv) (nj_ordering ?job) = Inr k"
    using ev_keys(1) e by (auto simp: delivery_def eventOrdering_def) (simp add: CanonicalOrderingKey_def)
  moreover have "nj_attributes ?job ''codefly.installation_id'' = None"
    by (simp add: delivery_def eventAttributes_def event_text_attributes_def put_attribute_def ev_audit_def ev_scan)
  moreover have "nj_scope ?job = Some (ScopeOrganization ''o1'')" "nj_max_attempts ?job = 5" "nj_direction ?job = INBOX"
    using e by (simp_all add: delivery_def eventScope_def eventDeliveryMaxAttempts_def)
  moreover have "job_messages (ed_jobs ev_db) = []" by (simp add: ev_db_def empty_db_def)
  ultimately show ?thesis using ev_enqueue [of ?job _ ev_db now] by fastforce
qed

end
