(* ===== verification/Spec2Isabelle.thy ===== *)
theory Spec2Isabelle
  imports Conditions Job_Examples Approval_Examples Delegation_Examples Role_Catalog_Examples Carried_Examples
    Event_Examples
begin

text \<open>
  Verification of the accounts service of \<^verbatim>\<open>module-saas-starter\<close>
  (\<^verbatim>\<open>src/module/services/accounts/code/pkg\<close>, below \<^verbatim>\<open>pkg\<close>).

  \<^bold>\<open>The program.\<close>  The service keeps accounts, authorization and work queues for tenants in
  PostgreSQL.  Business operations (\<^verbatim>\<open>pkg/business\<close>) run inside one transaction of
  \<^verbatim>\<open>Scoped.Within\<close> (\<^verbatim>\<open>pkg/infra/scoped.go\<close>), which binds the tenant and rolls back on an error, and
  write their audit records in that transaction.  Six parts carry the logic modelled here:
  policy conditions that decide a call, durable jobs with leases, approval and delegation requests
  that people decide, the import of the role catalog, authorization (roles held by assignment, by a
  grant on a scope of the organization's tree or by a share of one record, and the access a
  solution carries to the modules it reaches), and domain events: an outbox that a relay fans out
  to module queues and to customers' webhook endpoints.  They meet in these places: an approved
  request enqueues the job that resumes its work, every delivery of an event is a job, the catalog
  fills the roles that authorization reads, and every operation writes the same audit trail.

  \<^bold>\<open>Reading the code.\<close>  A table is the list of its rows; a transaction is a function from the
  tables to an error or to a result with new tables, and an error keeps the old tables.  A Go
  error is the left of a sum.  Times and durations are integers of nanoseconds; counters kept in
  machine integers wrap or are bounded where the code's are.  What others commit between two
  transactions of one call is a function argument, so a theorem about such a call holds for every
  interleaving; runs of the whole system are the step relations \<^verbatim>\<open>store_step\<close>, \<^verbatim>\<open>approval_step\<close>,
  \<^verbatim>\<open>delegation_step\<close> and \<^verbatim>\<open>access_step\<close>.

  \<^bold>\<open>The theories.\<close>
  \<^item> \<^verbatim>\<open>Prelude\<close>: sums as results, tables and their statements, ordered selection.
  \<^item> \<^verbatim>\<open>Conditions\<close> models \<^verbatim>\<open>policy/condition/condition.go\<close>: a conjunction of conditions grants exactly
    when every one is evaluable and holds; what validation accepts never fails at evaluation; the
    time window is the cyclic interval of local minutes.
  \<^item> \<^verbatim>\<open>Job_State\<close> models \<^verbatim>\<open>jobs/state.go\<close>, \<^verbatim>\<open>producer.go\<close> and \<^verbatim>\<open>module_authority.go\<close>: the legal
    transitions, the database texts, canonical ordering keys.
  \<^item> \<^verbatim>\<open>Job_Store\<close> models \<^verbatim>\<open>infra/postgres_jobs.go\<close> and \<^verbatim>\<open>postgres_job_producer.go\<close> with the row triggers
    and the enqueue function of the schema.  \<^verbatim>\<open>Job_Invariants\<close> and \<^verbatim>\<open>Job_Reach\<close> carry the table
    invariants through every operation; \<^verbatim>\<open>Job_Properties\<close> has the theorems on leases, attempts and
    history, \<^verbatim>\<open>Job_Ordering\<close> those on ordering keys, idempotent enqueue, tenancy and replay.
  \<^item> \<^verbatim>\<open>Job_Worker\<close> models \<^verbatim>\<open>jobs/worker.go\<close> over any store that meets the locale of \<^verbatim>\<open>jobs/store.go\<close>,
    interpreted on the PostgreSQL store: outcomes are stored, lost leases have no effect, every
    claimed job is counted once, error text never reaches the stored failure.
  \<^item> \<^verbatim>\<open>Paging\<close> and \<^verbatim>\<open>Job_Operations\<close> model \<^verbatim>\<open>infra/postgres_job_operations.go\<close>: queue snapshots, the seek
    listing with its base64 page tokens, and the history of one job.
  \<^item> \<^verbatim>\<open>Service_Core\<close>: transactions, typed store errors, the transactional audit (\<^verbatim>\<open>business/store.go\<close>,
    \<^verbatim>\<open>audit.go\<close>), and the text functions of the Go library the operations use.
  \<^item> \<^verbatim>\<open>Approvals\<close> models \<^verbatim>\<open>business/approvals.go\<close> over the \<^verbatim>\<open>ApprovalStore\<close> interface, and
    \<^verbatim>\<open>infra/postgres_approvals.go\<close> as its implementation.  \<^verbatim>\<open>Approval_Ballots\<close> is the abstract ballot box
    (locales \<^verbatim>\<open>ballot_box\<close> and \<^verbatim>\<open>resuming_ballot_box\<close>), \<^verbatim>\<open>Approval_Store\<close> interprets it on the store,
    and \<^verbatim>\<open>Approval_Properties\<close> and \<^verbatim>\<open>Approval_Outcomes\<close> hold the theorems: exact quorum by distinct
    entitled people, one resume job per approved request, finality, deadlines, reviewers, paging.
  \<^item> \<^verbatim>\<open>Delegation\<close> models \<^verbatim>\<open>business/delegation_grants.go\<close> and \<^verbatim>\<open>infra/postgres_delegation_grants.go\<close>.  The
    three transactions of a request that matches a pattern are separate, so a run can stop or be
    interleaved between them.  \<^verbatim>\<open>Delegation_Properties\<close>: the cap of a pattern, one decision per
    request, idempotent requests; \<^verbatim>\<open>Delegation_Outcomes\<close>: the waiting requester is told the decision
    exactly once.
  \<^item> \<^verbatim>\<open>Role_Catalog\<close> models \<^verbatim>\<open>rolecatalog/catalog.go\<close>, \<^verbatim>\<open>plan.go\<close> and \<^verbatim>\<open>infra/postgres_role_catalog.go\<close>;
    \<^verbatim>\<open>Role_Catalog_Properties\<close>: an import reaches exactly the catalog, a second one does nothing,
    nothing is taken from anybody without force, and an import that is not refused succeeds.
  \<^item> \<^verbatim>\<open>Access_Tables\<close> holds the tables of authorization, the row-level security of a tenant session and
    of the control plane (\<^verbatim>\<open>infra/tenant_tx.go\<close> and the policies of the schema) and the label paths of
    the scope tree.  \<^verbatim>\<open>Permissions\<close> models \<^verbatim>\<open>business/permissions.go\<close>, \<^verbatim>\<open>subject_tenancy.go\<close>, the role
    operations of \<^verbatim>\<open>service.go\<close> and \<^verbatim>\<open>infra/postgres_permissions.go\<close>; \<^verbatim>\<open>Layered_Access\<close> models
    \<^verbatim>\<open>business/layered_access.go\<close> and \<^verbatim>\<open>infra/postgres_layered_access.go\<close>; \<^verbatim>\<open>Carried_Access\<close> models
    \<^verbatim>\<open>business/derived_module_access.go\<close>, the grant and revocation of \<^verbatim>\<open>installation_exposure.go\<close>, and
    \<^verbatim>\<open>infra/postgres_derived_module_access.go\<close>.
  \<^item> \<^verbatim>\<open>Access_Changes\<close> reduces every operation to a few guarded changes of the tables,
    \<^verbatim>\<open>Access_Invariants\<close> shows that each change keeps the invariant, \<^verbatim>\<open>Access_System\<close> defines the runs
    and what an organization sees of them.  \<^verbatim>\<open>Token_Paging\<close> is the interface of a listing with page
    tokens (locale \<^verbatim>\<open>token_listing\<close>), which \<^verbatim>\<open>Access_Oracles\<close> interprets on the listing of accessible
    nodes.  \<^verbatim>\<open>Access_Properties\<close>: the questions about access have one answer, organizations do not
    see each other's changes, the tree stays a tree, derived roles are held only through a cause;
    \<^verbatim>\<open>Grant_Properties\<close>: what granting, sharing and revoking do and what is decided afterwards;
    \<^verbatim>\<open>Permission_Properties\<close>: checks, explanations, updates and listings of roles agree;
    \<^verbatim>\<open>Carried_Properties\<close>: what a solution carries is bounded, effective and removed with it.
  \<^item> \<^verbatim>\<open>Event_Tables\<close> models the envelope, the outbox and the subscriptions, the type patterns of
    \<^verbatim>\<open>events/transport.go\<close>, \<^verbatim>\<open>eventcatalog/lookup.go\<close> and the publication of
    \<^verbatim>\<open>infra/postgres_events.go\<close>; \<^verbatim>\<open>Webhook_Delivery\<close> one event for one endpoint
    (\<^verbatim>\<open>business/webhook_jobs.go\<close>, \<^verbatim>\<open>infra/postgres_webhooks.go\<close>, \<^verbatim>\<open>postgres_webhook_relay.go\<close>);
    \<^verbatim>\<open>Event_Relay\<close> the relay and \<^verbatim>\<open>Event_Replay\<close> replay and the consumer's side of
    \<^verbatim>\<open>infra/postgres_events.go\<close>.  \<^verbatim>\<open>Event_Fanout\<close>, \<^verbatim>\<open>Event_Drains\<close> and \<^verbatim>\<open>Event_Order\<close> show what one
    subscription, one batch and one drain do; \<^verbatim>\<open>Event_Properties\<close>: the fan-out is exact, partitions
    stay in order, attempts are charged once; \<^verbatim>\<open>Event_Progress\<close>: the loop of
    \<^verbatim>\<open>infra/event_relay_worker.go\<close> settles every event; \<^verbatim>\<open>Event_Publish\<close>: an event is stored once and
    read back as published; \<^verbatim>\<open>Event_Replays\<close>: replay ends and serves its selection.
  \<^item> The \<^verbatim>\<open>Examples\<close> theories instantiate the theorems on concrete runs and hold the lemmas behind the
    recorded findings.

  \<^bold>\<open>Parameters.\<close>  SHA-256, JSON, protobuf, the text form of times, the generated table of published
  events and the zone database are function arguments; so are the module
  authority checks of the job store, the existence of organizations and principals (foreign keys
  into tables not modelled here), new ids, the parser of ids and the clock.  Hypotheses name what is
  asked of them: fresh ids are new, the audit trail accepts, the producer is ready, an id parses to
  itself.  An id is compared as its canonical text.  What an installation declares and which role it
  exposes are read from its applied declaration, which is an argument of the grant.

  \<^bold>\<open>Bounds.\<close>  No operation needs fuel except the walks over pages, which are followed for as many
  pages as there are rows: every page but the last returns at least one row, so the walk ends
  within that bound.  A drain of the relay is bounded by its own twenty batches.  Replay has fuel;
  one page more than there are events is shown to be enough.  The retry backoff is computed at machine width and shown not to wrap.

  \<^bold>\<open>Not modelled.\<close>  The transport adapters and generated protocol code; sessions, tokens, sealed
  contexts and identity providers, which rest on cryptography and third parties; connectors,
  the request to a webhook endpoint, mail, billing and the gateway, which are mostly traffic with
  other services; the goroutine lifetime of the workers; logging and metrics; rendering of plans as text.  Row-level
  security is modelled for the tables of authorization; for jobs, approvals and delegation it is
  represented by the tenant predicates the statements carry.  Of authorization, the resolution of a
  login to its identity, the administration of platform roles, the display labels of the listings
  and the triggers that count revisions of source reads and exposure are left out.

  \<^bold>\<open>Next.\<close>  The subscribing calls of modules; the lifecycle of installations, which writes the rows
  that carried access reads; routing and rate limits of the gateway.
\<close>

end
